(* ===== verification/Prelude.thy ===== *)
theory Prelude
  imports Main "HOL-Library.Word" "HOL-Library.AList" "HOL-Library.Sublist"
    "HOL-Library.Product_Lexorder"
begin

text \<open>
  What every theory of the development shares: the types that stand for Python's \<open>str\<close>,
  \<open>bytes\<close> and result-or-exception, slices, little- and big-endian integers, and the
  generic lemmas about them.

  A Python \<open>str\<close> is the list of its Unicode code points (\<open>pystr\<close>), so that its length and
  its slices count what Python counts; \<open>lit\<close> turns an Isabelle string literal into one.
  \<open>bytes\<close> are lists of 8-bit words. A Python \<open>int\<close> is an Isabelle \<open>int\<close>.
\<close>

unbundle bit_operations_syntax

named_theorems codec_simps
  \<open>read-back equations: a reader applied to what its writer wrote\<close>
named_theorems codec_length
  \<open>lengths of what the writers write\<close>

type_synonym pystr = "nat list"
type_synonym byte = "8 word"
type_synonym bytes = "byte list"

definition lit :: "string \<Rightarrow> pystr" where
  "lit s = map of_char s"

lemma length_lit [simp]: "length (lit s) = length s"
  by (simp add: lit_def)

lemma lit_Nil [simp]: "lit [] = []"
  by (simp add: lit_def)

section \<open>Slices\<close>

text \<open>Python's \<open>xs[i:j]\<close> for non-negative bounds: out-of-range bounds shorten the result.\<close>

definition slice :: "nat \<Rightarrow> nat \<Rightarrow> 'a list \<Rightarrow> 'a list" where
  "slice i j xs = take (j - i) (drop i xs)"

lemma length_slice [simp]: "length (slice i j xs) = min (j - i) (length xs - i)"
  by (simp add: slice_def)

lemma slice_append_exact:
  "length pre = i \<Longrightarrow> length mid = j - i \<Longrightarrow> slice i j (pre @ mid @ post) = mid"
  by (simp add: slice_def)

lemma slice_append_at:
  "slice (length pre) (length pre + length mid) (pre @ mid @ post) = mid"
  by (simp add: slice_def)

lemma slice_join:
  "i \<le> j \<Longrightarrow> j \<le> k \<Longrightarrow> slice i j xs @ slice j k xs = slice i k xs"
proof -
  assume "i \<le> j" "j \<le> k"
  then have "take (k - i) (drop i xs)
      = take (j - i) (drop i xs) @ take (k - j) (drop (j - i) (drop i xs))"
    by (metis Nat.diff_add_assoc2 add.commute le_add_diff_inverse take_add)
  with \<open>i \<le> j\<close> show ?thesis by (simp add: slice_def)
qed

lemma slice_all: "length xs \<le> n \<Longrightarrow> slice 0 n xs = xs"
  by (simp add: slice_def)

lemma slice_single: "i < length xs \<Longrightarrow> slice i (Suc i) xs = [xs ! i]"
  by (simp add: slice_def take_Suc_conv_app_nth)

section \<open>Bytes as integers\<close>

text \<open>\<open>int.from_bytes\<close> and \<open>int.to_bytes\<close> / \<open>struct.pack\<close>, little-endian.\<close>

fun le_int :: "bytes \<Rightarrow> int" where
  "le_int [] = 0"
| "le_int (b # bs) = uint b + 256 * le_int bs"

fun to_le :: "nat \<Rightarrow> int \<Rightarrow> bytes" where
  "to_le 0 n = []"
| "to_le (Suc k) n = word_of_int (n mod 256) # to_le k (n div 256)"

definition be_int :: "bytes \<Rightarrow> int" where
  "be_int bs = le_int (rev bs)"

lemma length_to_le [simp, codec_length]: "length (to_le k n) = k"
  by (induction k arbitrary: n) auto

lemma uint_byte_of_int: "0 \<le> n \<Longrightarrow> n < 256 \<Longrightarrow> uint (word_of_int n :: byte) = n"
  by (simp add: uint_word_of_int)

lemma uint_byte_lt: "uint (b :: byte) < 256"
  using uint_lt2p [of b] by simp

lemma unat_byte_lt: "unat (b :: byte) < 256"
proof -
  have "unat b < 2 ^ LENGTH(8)" by (rule unsigned_less)
  then show ?thesis by simp
qed

text \<open>The byte of a number below 256; a constant of its own, so that sums stay inside it.\<close>

definition byte_of :: "nat \<Rightarrow> byte" where
  "byte_of n = of_nat n"

lemma unat_byte_of [simp]: "n < 256 \<Longrightarrow> unat (byte_of n) = n"
  by (simp add: byte_of_def unat_of_nat)

lemma byte_of_unat [simp]: "byte_of (unat b) = b"
  by (simp add: byte_of_def)

lemma byte_of_inject: "m < 256 \<Longrightarrow> n < 256 \<Longrightarrow> byte_of m = byte_of n \<longleftrightarrow> m = n"
  by (metis unat_byte_of)

lemma le_int_nonneg [simp]: "0 \<le> le_int bs"
  by (induction bs) auto

lemma le_int_to_le [codec_simps]: "0 \<le> n \<Longrightarrow> n < 256 ^ k \<Longrightarrow> le_int (to_le k n) = n"
proof (induction k arbitrary: n)
  case 0
  then show ?case by simp
next
  case (Suc k)
  then have "0 \<le> n div 256" "n div 256 < 256 ^ k" by auto
  then have "le_int (to_le k (n div 256)) = n div 256" by (rule Suc.IH)
  with Suc.prems show ?case
    by (simp add: uint_byte_of_int)
qed

lemma le_int_bound: "le_int bs < 256 ^ length bs"
proof (induction bs)
  case Nil
  then show ?case by simp
next
  case (Cons b bs)
  then have "le_int bs + 1 \<le> 256 ^ length bs" by simp
  then have "256 * (le_int bs + 1) \<le> 256 * 256 ^ length bs" by simp
  with uint_byte_lt [of b] show ?case by simp
qed

lemma to_le_le_int: "to_le (length bs) (le_int bs) = bs"
proof (induction bs)
  case Nil
  then show ?case by simp
next
  case (Cons b bs)
  have "(uint b + 256 * le_int bs) mod 256 = uint b"
    using uint_byte_lt [of b] by simp
  moreover have "(uint b + 256 * le_int bs) div 256 = le_int bs"
    using uint_byte_lt [of b] by simp
  ultimately show ?case using Cons by simp
qed

lemma le_int_inject: "length xs = length ys \<Longrightarrow> le_int xs = le_int ys \<Longrightarrow> xs = ys"
  by (metis to_le_le_int)

lemma be_int_inject: "length xs = length ys \<Longrightarrow> be_int xs = be_int ys \<Longrightarrow> xs = ys"
  unfolding be_int_def by (metis le_int_inject length_rev rev_rev_ident)

lemma be_int_nonneg [simp]: "0 \<le> be_int bs"
  by (simp add: be_int_def)

lemma be_int_bound: "be_int bs < 256 ^ length bs"
  using le_int_bound [of "rev bs"] by (simp add: be_int_def)

section \<open>Results\<close>

text \<open>
  A call that may raise returns \<open>Inl\<close> of the exception or \<open>Inr\<close> of its value.
  \<open>bind_res\<close> is "and then, unless it raised".
\<close>

definition bind_res :: "'e + 'a \<Rightarrow> ('a \<Rightarrow> 'e + 'b) \<Rightarrow> 'e + 'b" where
  "bind_res m f = (case m of Inl e \<Rightarrow> Inl e | Inr x \<Rightarrow> f x)"

lemma bind_res_simps [simp]:
  "bind_res (Inl e) f = Inl e"
  "bind_res (Inr x) f = f x"
  by (simp_all add: bind_res_def)

lemma bind_res_eq_Inr:
  "bind_res m f = Inr y \<longleftrightarrow> (\<exists>x. m = Inr x \<and> f x = Inr y)"
  by (cases m) auto

text \<open>A comprehension whose body may raise stops at the first exception.\<close>

fun map_res :: "('a \<Rightarrow> 'e + 'b) \<Rightarrow> 'a list \<Rightarrow> 'e + 'b list" where
  "map_res f [] = Inr []"
| "map_res f (x # xs) = bind_res (f x) (\<lambda>y. bind_res (map_res f xs) (\<lambda>ys. Inr (y # ys)))"

section \<open>Dictionaries\<close>

text \<open>
  A \<open>dict\<close> whose order or values are traversed is an association list updated with
  \<open>AList.update\<close>: a key keeps the position of its first insertion and the value of its last.
\<close>

definition dict_of :: "('a \<times> 'b) list \<Rightarrow> ('a \<times> 'b) list" where
  "dict_of kvs = foldl (\<lambda>d (k, v). AList.update k v d) [] kvs"

lemma dict_of_snoc: "dict_of (kvs @ [(k, v)]) = AList.update k v (dict_of kvs)"
  by (simp add: dict_of_def)

lemma map_of_dict_of: "map_of (dict_of kvs) = map_of (rev kvs)"
proof (induction kvs rule: rev_induct)
  case Nil
  then show ?case by (simp add: dict_of_def)
next
  case (snoc kv kvs)
  then show ?case by (cases kv) (simp add: dict_of_snoc update_conv fun_upd_def)
qed

lemma distinct_dict_of: "distinct (map fst (dict_of kvs))"
proof (induction kvs rule: rev_induct)
  case Nil
  then show ?case by (simp add: dict_of_def)
next
  case (snoc kv kvs)
  then show ?case by (cases kv) (simp add: dict_of_snoc distinct_update)
qed

lemma fst_set_dict_of: "fst ` set (dict_of kvs) = fst ` set kvs"
proof (induction kvs rule: rev_induct)
  case Nil
  then show ?case by (simp add: dict_of_def)
next
  case (snoc kv kvs)
  then show ?case by (cases kv) (simp add: dict_of_snoc dom_update)
qed

text \<open>\<open>sum(d.values())\<close> adds every key once, with the value it was last given.\<close>

lemma sum_dict_of:
  fixes kvs :: "('a \<times> int) list"
  shows "sum_list (map snd (dict_of kvs)) = (\<Sum>k\<in>fst ` set kvs. the (map_of (rev kvs) k))"
proof -
  let ?d = "dict_of kvs"
  have "map snd ?d = map (\<lambda>k. the (map_of ?d k)) (map fst ?d)"
    using distinct_dict_of [of kvs] by (auto simp: map_of_is_SomeI)
  then have "sum_list (map snd ?d) = (\<Sum>k\<in>set (map fst ?d). the (map_of ?d k))"
    using distinct_dict_of [of kvs] by (simp only: sum_list_distinct_conv_sum_set)
  then show ?thesis by (simp add: map_of_dict_of fst_set_dict_of)
qed

section \<open>Integer arithmetic\<close>

lemma int_div_less: "0 < c \<Longrightarrow> a < c * b \<Longrightarrow> a div c < b" for a b c :: int
proof (rule ccontr)
  assume c: "0 < c" and "a < c * b" "\<not> a div c < b"
  then have "c * b \<le> c * (a div c)" by simp
  also have "\<dots> \<le> a" using mult_div_mod_eq [of c a] pos_mod_sign [OF c, of a] by linarith
  finally show False using \<open>a < c * b\<close> by simp
qed

lemma xor_int_cancel: "a XOR b = a XOR c \<longleftrightarrow> b = c" for a b c :: int
proof
  assume "a XOR b = a XOR c"
  then have "a XOR (a XOR b) = a XOR (a XOR c)" by simp
  then show "b = c" by (simp flip: xor.assoc)
qed simp

lemma xor_int_eq_0: "a XOR b = 0 \<longleftrightarrow> a = b" for a b :: int
  using xor_int_cancel [of b a b] by (simp add: xor.commute)

text \<open>\<open>math.ceil(a / b)\<close> for an exact quotient of integers.\<close>

definition ceil_div :: "int \<Rightarrow> int \<Rightarrow> int" where
  "ceil_div a b = - ((- a) div b)"

lemma ceil_div_le: "0 < b \<Longrightarrow> a \<le> b * ceil_div a b"
proof -
  assume "0 < b"
  then have "b * ((- a) div b) \<le> - a"
    by (metis mult.commute div_mult_mod_eq pos_mod_sign add.commute le_add_same_cancel1)
  then show ?thesis by (simp add: ceil_div_def)
qed

end
