(* ===== verification/PyText.thy ===== *)
theory PyText
  imports Prelude
begin

text \<open>
  The parts of Python's \<open>str\<close> the wallet uses, on lists of code points: UTF-8
  (\<open>str.encode\<close> and strict \<open>bytes.decode\<close>), \<open>lower\<close>, \<open>upper\<close>, \<open>strip\<close>, \<open>partition\<close>, \<open>split\<close>,
  substring tests, \<open>bytes.hex\<close>, \<open>str(int)\<close> and \<open>int(str)\<close>.

  Bounds of the model: \<open>lower\<close> and \<open>upper\<close> change ASCII letters and leave every other code
  point alone; \<open>int\<close> reads ASCII digits. The wallet applies them to hexadecimal addresses,
  bech32 strings, URI schemes and decimal amounts. \<open>utf8_encode\<close> is total; on a lone
  surrogate, where Python raises, it gives three bytes that \<open>utf8_decode\<close> refuses, and the
  lemmas about it assume \<open>unicode_text\<close>.
\<close>

section \<open>UTF-8\<close>

definition unicode_scalar :: "nat \<Rightarrow> bool" where
  "unicode_scalar c \<longleftrightarrow> c < 0xD800 \<or> (0xE000 \<le> c \<and> c < 0x110000)"

definition unicode_text :: "pystr \<Rightarrow> bool" where
  "unicode_text s \<longleftrightarrow> list_all unicode_scalar s"

definition utf8_char :: "nat \<Rightarrow> bytes" where
  "utf8_char c =
     map byte_of
      (if c < 0x80 then [c]
       else if c < 0x800 then [0xC0 + c div 64, 0x80 + c mod 64]
       else if c < 0x10000 then [0xE0 + c div 4096, 0x80 + c div 64 mod 64, 0x80 + c mod 64]
       else [0xF0 + c div 262144, 0x80 + c div 4096 mod 64, 0x80 + c div 64 mod 64,
             0x80 + c mod 64])"

definition utf8_encode :: "pystr \<Rightarrow> bytes" where
  "utf8_encode s = concat (map utf8_char s)"

definition utf8_cont :: "byte \<Rightarrow> bool" where
  "utf8_cont b \<longleftrightarrow> 0x80 \<le> unat b \<and> unat b < 0xC0"

text \<open>One character off the front; None for anything that is not well-formed UTF-8.\<close>

fun utf8_next :: "bytes \<Rightarrow> (nat \<times> bytes) option" where
  "utf8_next [] = None"
| "utf8_next (b # bs) =
    (let n = unat b in
     if n < 0x80 then Some (n, bs)
     else if n < 0xC2 then None
     else if n < 0xE0 then
       (case bs of
          b1 # r \<Rightarrow> if utf8_cont b1 then Some ((n - 0xC0) * 64 + (unat b1 - 0x80), r) else None
        | _ \<Rightarrow> None)
     else if n < 0xF0 then
       (case bs of
          b1 # b2 # r \<Rightarrow>
            let c = (n - 0xE0) * 4096 + (unat b1 - 0x80) * 64 + (unat b2 - 0x80) in
            if utf8_cont b1 \<and> utf8_cont b2 \<and> 0x800 \<le> c \<and> unicode_scalar c
            then Some (c, r) else None
        | _ \<Rightarrow> None)
     else if n < 0xF5 then
       (case bs of
          b1 # b2 # b3 # r \<Rightarrow>
            let c = (n - 0xF0) * 262144 + (unat b1 - 0x80) * 4096 + (unat b2 - 0x80) * 64
                      + (unat b3 - 0x80) in
            if utf8_cont b1 \<and> utf8_cont b2 \<and> utf8_cont b3 \<and> 0x10000 \<le> c \<and> unicode_scalar c
            then Some (c, r) else None
        | _ \<Rightarrow> None)
     else None)"

lemma utf8_next_shorter: "utf8_next bs = Some (c, r) \<Longrightarrow> length r < length bs"
  by (cases bs rule: utf8_next.cases)
    (auto simp: Let_def split: if_splits list.splits)

function utf8_decode :: "bytes \<Rightarrow> pystr option" where
  "utf8_decode bs =
     (if bs = [] then Some []
      else case utf8_next bs of
             None \<Rightarrow> None
           | Some (c, r) \<Rightarrow> map_option ((#) c) (utf8_decode r))"
  by pat_completeness auto
termination
  by (relation "measure length") (auto dest: utf8_next_shorter)

declare utf8_decode.simps [simp del]
declare utf8_next.simps [simp del]

lemma utf8_decode_Nil [simp]: "utf8_decode [] = Some []"
  by (simp add: utf8_decode.simps)

lemma utf8_encode_simps [simp]:
  "utf8_encode [] = []"
  "utf8_encode (c # s) = utf8_char c @ utf8_encode s"
  "utf8_encode (s @ t) = utf8_encode s @ utf8_encode t"
  by (simp_all add: utf8_encode_def)

lemma unicode_text_simps [simp]:
  "unicode_text []"
  "unicode_text (c # s) \<longleftrightarrow> unicode_scalar c \<and> unicode_text s"
  "unicode_text (s @ t) \<longleftrightarrow> unicode_text s \<and> unicode_text t"
  by (simp_all add: unicode_text_def)

lemma utf8_char_neq_Nil [simp]: "utf8_char c \<noteq> []"
  by (simp add: utf8_char_def)

lemma digit64: "c = a * 64 + x \<Longrightarrow> x < 64 \<Longrightarrow> c div 64 = a" "c = a * 64 + x \<Longrightarrow> x < 64 \<Longrightarrow> c mod 64 = x"
  for c :: nat
  by simp_all

lemma split_base64: "(c::nat) div 64 * 64 + c mod 64 = c"
  by simp

lemma split_base4096: "(c::nat) div 4096 * 4096 + c div 64 mod 64 * 64 + c mod 64 = c"
proof -
  have "c div 64 = c div 4096 * 64 + c div 64 mod 64"
    using div_mult2_eq [of c 64 64] by simp
  then show ?thesis using div_mult_mod_eq [of c 64] by linarith
qed

lemma split_base262144:
  "(c::nat) div 262144 * 262144 + c div 4096 mod 64 * 4096 + c div 64 mod 64 * 64 + c mod 64 = c"
proof -
  have "c div 4096 = c div 262144 * 64 + c div 4096 mod 64"
    using div_mult2_eq [of c 4096 64] by simp
  then show ?thesis using split_base4096 [of c] by linarith
qed

lemma utf8_next_char [codec_simps]:
  assumes "unicode_scalar c"
  shows "utf8_next (utf8_char c @ r) = Some (c, r)"
proof -
  have m: "c mod 64 < 64" "c div 64 mod 64 < 64" "c div 4096 mod 64 < 64" by simp_all
  consider "c < 0x80" | "0x80 \<le> c" "c < 0x800" | "0x800 \<le> c" "c < 0x10000" | "0x10000 \<le> c"
    by linarith
  then show ?thesis
  proof cases
    case 1
    then show ?thesis by (simp add: utf8_char_def utf8_next.simps )
  next
    case 2
    then have "c div 64 < 32" "2 \<le> c div 64" by auto
    with 2 m show ?thesis
      by (simp add: utf8_char_def utf8_next.simps utf8_cont_def Let_def)
  next
    case 3
    then have "c div 4096 < 16" by auto
    with 3 m assms show ?thesis
      by (simp add: utf8_char_def utf8_next.simps utf8_cont_def Let_def
          split_base4096)
  next
    case 4
    with assms have "c div 262144 < 5" "c < 0x110000" by (auto simp: unicode_scalar_def)
    with 4 m assms show ?thesis
      by (simp add: utf8_char_def utf8_next.simps utf8_cont_def Let_def
          split_base262144)
  qed
qed

lemma utf8_decode_encode [codec_simps]:
  "unicode_text s \<Longrightarrow> utf8_decode (utf8_encode s) = Some s"
proof (induction s)
  case Nil
  then show ?case by simp
next
  case (Cons c s)
  then show ?case
    by (subst utf8_decode.simps) (simp add: utf8_next_char)
qed

text \<open>Decoding is injective: well-formed UTF-8 is the encoding of what it decodes to.\<close>

lemma cont_of_nat: "utf8_cont b \<Longrightarrow> byte_of (0x80 + (unat b - 0x80)) = b"
  by (simp add: utf8_cont_def)

lemma utf8_next_inv:
  assumes "utf8_next bs = Some (c, r)"
  shows "bs = utf8_char c @ r \<and> unicode_scalar c"
proof (cases bs)
  case Nil
  with assms show ?thesis by (simp add: utf8_next.simps)
next
  case (Cons b bs')
  define n where "n = unat b"
  then have b: "b = byte_of n" by simp
  have n: "n < 256" unfolding n_def by (rule unat_byte_lt)
  consider "n < 0x80" | "0xC2 \<le> n" "n < 0xE0" | "0xE0 \<le> n" "n < 0xF0" | "0xF0 \<le> n" "n < 0xF5"
    using assms Cons by (auto simp: utf8_next.simps Let_def n_def split: if_splits)
  then show ?thesis
  proof cases
    case 1
    with assms Cons show ?thesis
      by (auto simp: utf8_next.simps Let_def n_def utf8_char_def unicode_scalar_def)
  next
    case 2
    with assms Cons obtain b1 where bs': "bs' = b1 # r" and k: "utf8_cont b1"
      and c: "c = (n - 0xC0) * 64 + (unat b1 - 0x80)"
      by (auto simp: utf8_next.simps Let_def n_def split: if_splits list.splits)
    from k have u: "unat b1 - 0x80 < 64" by (auto simp: utf8_cont_def)
    have "c div 64 = n - 0xC0" "c mod 64 = unat b1 - 0x80" using c u by simp_all
    moreover have "0x80 \<le> c" "c < 0x800" using c u 2 by linarith+
    ultimately show ?thesis using 2 Cons bs' b cont_of_nat [OF k]
      by (simp add: utf8_char_def unicode_scalar_def)
  next
    case 3
    with assms Cons obtain b1 b2 where bs': "bs' = b1 # b2 # r" and k: "utf8_cont b1" "utf8_cont b2"
      and c: "c = (n - 0xE0) * 4096 + (unat b1 - 0x80) * 64 + (unat b2 - 0x80)"
      and lo: "0x800 \<le> c" and sc: "unicode_scalar c"
      by (auto simp: utf8_next.simps Let_def n_def split: if_splits list.splits)
    from k have u: "unat b1 - 0x80 < 64" "unat b2 - 0x80 < 64" by (auto simp: utf8_cont_def)
    have "c = ((n - 0xE0) * 64 + (unat b1 - 0x80)) * 64 + (unat b2 - 0x80)"
      using c by (simp add: algebra_simps)
    note digit64 [OF this u(2)]
    moreover from this have "c div 64 mod 64 = unat b1 - 0x80" "c div 64 div 64 = n - 0xE0"
      using u by simp_all
    moreover have "c div 64 div 64 = c div 4096" using div_mult2_eq [of c 64 64] by simp
    moreover have "c < 0x10000" using c u 3 by linarith
    ultimately have "n = 0xE0 + c div 4096" "c div 64 mod 64 = unat b1 - 0x80"
      "c mod 64 = unat b2 - 0x80" "c < 0x10000" using 3 by linarith+
    then show ?thesis
      using 3 Cons bs' b lo sc cont_of_nat [OF k(1)] cont_of_nat [OF k(2)]
      by (simp add: utf8_char_def)
  next
    case 4
    with assms Cons obtain b1 b2 b3 where bs': "bs' = b1 # b2 # b3 # r"
      and k: "utf8_cont b1" "utf8_cont b2" "utf8_cont b3"
      and c: "c = (n - 0xF0) * 262144 + (unat b1 - 0x80) * 4096 + (unat b2 - 0x80) * 64
                + (unat b3 - 0x80)"
      and lo: "0x10000 \<le> c" and sc: "unicode_scalar c"
      by (auto simp: utf8_next.simps Let_def n_def split: if_splits list.splits)
    from k have u: "unat b1 - 0x80 < 64" "unat b2 - 0x80 < 64" "unat b3 - 0x80 < 64"
      by (auto simp: utf8_cont_def)
    have "c = ((n - 0xF0) * 4096 + (unat b1 - 0x80) * 64 + (unat b2 - 0x80)) * 64
        + (unat b3 - 0x80)"
      using c by (simp add: algebra_simps)
    note d = digit64(1) [OF this u(3)] and m = digit64(2) [OF this u(3)]
    have "c div 64 = ((n - 0xF0) * 64 + (unat b1 - 0x80)) * 64 + (unat b2 - 0x80)"
      using d by (simp add: algebra_simps)
    note d' = digit64(1) [OF this u(2)] and m' = digit64(2) [OF this u(2)]
    have d'': "c div 64 div 64 div 64 = n - 0xF0" and m'': "c div 64 div 64 mod 64 = unat b1 - 0x80"
      using d' u by simp_all
    have "c div 64 div 64 = c div 4096" "c div 64 div 64 div 64 = c div 262144"
      using div_mult2_eq [of c 64 64] div_mult2_eq [of c 4096 64] by simp_all
    then have "n = 0xF0 + c div 262144" using d'' 4 by linarith
    moreover from m m' m'' \<open>c div 64 div 64 = c div 4096\<close> have "c div 4096 mod 64 = unat b1 - 0x80"
      "c div 64 mod 64 = unat b2 - 0x80" "c mod 64 = unat b3 - 0x80" by auto
    ultimately show ?thesis
      using 4 Cons bs' b lo sc cont_of_nat [OF k(1)] cont_of_nat [OF k(2)] cont_of_nat [OF k(3)]
      by (simp add: utf8_char_def)
  qed
qed

lemma utf8_decode_Some:
  "utf8_decode bs = Some s \<Longrightarrow> bs = utf8_encode s \<and> unicode_text s"
proof (induction bs arbitrary: s rule: utf8_decode.induct)
  case (1 bs)
  show ?case
  proof (cases "bs = []")
    case True
    with "1.prems" show ?thesis by simp
  next
    case False
    with "1.prems" obtain c r s' where "utf8_next bs = Some (c, r)"
      "utf8_decode r = Some s'" "s = c # s'"
      by (subst (asm) utf8_decode.simps) (auto split: option.splits)
    with False "1.IH" show ?thesis by (auto dest: utf8_next_inv)
  qed
qed

lemma utf8_decode_iff: "utf8_decode bs = Some s \<longleftrightarrow> unicode_text s \<and> bs = utf8_encode s"
  using utf8_decode_Some utf8_decode_encode by auto

lemma utf8_encode_inject:
  "unicode_text s \<Longrightarrow> unicode_text t \<Longrightarrow> utf8_encode s = utf8_encode t \<longleftrightarrow> s = t"
  by (metis option.inject utf8_decode_encode)

section \<open>Case, whitespace, splitting\<close>

definition lower_cp :: "nat \<Rightarrow> nat" where
  "lower_cp c = (if 65 \<le> c \<and> c \<le> 90 then c + 32 else c)"

definition upper_cp :: "nat \<Rightarrow> nat" where
  "upper_cp c = (if 97 \<le> c \<and> c \<le> 122 then c - 32 else c)"

definition py_lower :: "pystr \<Rightarrow> pystr" where
  "py_lower s = map lower_cp s"

definition py_upper :: "pystr \<Rightarrow> pystr" where
  "py_upper s = map upper_cp s"

definition py_space :: "nat \<Rightarrow> bool" where
  "py_space c \<longleftrightarrow>
     (9 \<le> c \<and> c \<le> 13) \<or> (28 \<le> c \<and> c \<le> 32) \<or> c = 0x85 \<or> c = 0xA0 \<or> c = 0x1680
     \<or> (0x2000 \<le> c \<and> c \<le> 0x200A) \<or> c = 0x2028 \<or> c = 0x2029 \<or> c = 0x202F \<or> c = 0x205F
     \<or> c = 0x3000"

definition py_strip :: "pystr \<Rightarrow> pystr" where
  "py_strip s = rev (dropWhile py_space (rev (dropWhile py_space s)))"

text \<open>\<open>s.partition(c)\<close> and \<open>s.rpartition(c)\<close> for a one-character separator.\<close>

definition py_partition :: "nat \<Rightarrow> pystr \<Rightarrow> pystr \<times> bool \<times> pystr" where
  "py_partition c s =
     (takeWhile (\<lambda>x. x \<noteq> c) s, c \<in> set s, drop 1 (dropWhile (\<lambda>x. x \<noteq> c) s))"

definition py_rpartition :: "nat \<Rightarrow> pystr \<Rightarrow> pystr \<times> bool \<times> pystr" where
  "py_rpartition c s =
     (if c \<in> set s
      then (rev (drop 1 (dropWhile (\<lambda>x. x \<noteq> c) (rev s))), True,
            rev (takeWhile (\<lambda>x. x \<noteq> c) (rev s)))
      else ([], False, s))"

text \<open>\<open>s.split(c)\<close>: the fields between the separators, at least one.\<close>

fun py_split :: "nat \<Rightarrow> pystr \<Rightarrow> pystr list" where
  "py_split c [] = [[]]"
| "py_split c (x # xs) =
     (if x = c then [] # py_split c xs
      else case py_split c xs of [] \<Rightarrow> [[x]] | w # ws \<Rightarrow> (x # w) # ws)"

text \<open>\<open>s.split(c, 1)[0]\<close>, \<open>s.removeprefix(p)\<close> and \<open>sub in s\<close>.\<close>

definition before_sep :: "nat \<Rightarrow> pystr \<Rightarrow> pystr" where
  "before_sep c s = takeWhile (\<lambda>x. x \<noteq> c) s"

definition py_removeprefix :: "pystr \<Rightarrow> pystr \<Rightarrow> pystr" where
  "py_removeprefix p s = (if prefix p s then drop (length p) s else s)"

definition py_in :: "pystr \<Rightarrow> pystr \<Rightarrow> bool" where
  "py_in sub s \<longleftrightarrow> sublist sub s"

lemma py_split_neq_Nil [simp]: "py_split c s \<noteq> []"
  by (cases s) (auto split: list.splits)

lemma py_lower_simps [simp]:
  "py_lower [] = []"
  "py_lower (s @ t) = py_lower s @ py_lower t"
  "length (py_lower s) = length s"
  "py_lower s = [] \<longleftrightarrow> s = []"
  by (simp_all add: py_lower_def)

lemma lower_cp_idem [simp]: "lower_cp (lower_cp c) = lower_cp c"
  by (simp add: lower_cp_def)

lemma py_lower_idem [simp]: "py_lower (py_lower s) = py_lower s"
  by (simp add: py_lower_def comp_def)

lemma py_partition_append [simp]:
  assumes "c \<notin> set a"
  shows "py_partition c (a @ c # b) = (a, True, b)"
proof -
  have "\<forall>x \<in> set a. x \<noteq> c" using assms by auto
  then show ?thesis by (simp add: py_partition_def)
qed

lemma py_partition_join: "py_partition c s = (a, True, b) \<Longrightarrow> s = a @ c # b \<and> c \<notin> set a"
proof -
  assume p: "py_partition c s = (a, True, b)"
  then have "c \<in> set s" by (simp add: py_partition_def)
  then obtain a' b' where "s = a' @ c # b'" "c \<notin> set a'" by (auto dest: split_list_first)
  with p show ?thesis by auto
qed

lemma py_partition_none: "c \<notin> set s \<Longrightarrow> py_partition c s = (s, False, [])"
proof -
  assume "c \<notin> set s"
  then have tw: "takeWhile (\<lambda>x. x \<noteq> c) s = s" and dw: "dropWhile (\<lambda>x. x \<noteq> c) s = []"
    by (auto simp: takeWhile_eq_all_conv dropWhile_eq_Nil_conv)
  show ?thesis using \<open>c \<notin> set s\<close> by (simp add: py_partition_def tw dw)
qed

section \<open>Hexadecimal and decimal\<close>

definition hex_digit :: "nat \<Rightarrow> nat" where
  "hex_digit n = (if n < 10 then 48 + n else 87 + n)"

definition py_hex :: "bytes \<Rightarrow> pystr" where
  "py_hex bs = concat (map (\<lambda>b. [hex_digit (unat b div 16), hex_digit (unat b mod 16)]) bs)"

text \<open>\<open>f"{n:0wx}"\<close> for a non-negative \<open>n < 16^w\<close>: exactly \<open>w\<close> hexadecimal digits.\<close>

fun hex_pad :: "nat \<Rightarrow> nat \<Rightarrow> pystr" where
  "hex_pad 0 n = []"
| "hex_pad (Suc w) n = hex_pad w (n div 16) @ [hex_digit (n mod 16)]"

fun dec_nat :: "nat \<Rightarrow> pystr" where
  "dec_nat n = (if n < 10 then [48 + n] else dec_nat (n div 10) @ [48 + n mod 10])"

declare dec_nat.simps [simp del]

definition dec_int :: "int \<Rightarrow> pystr" where
  "dec_int n = (if n < 0 then 45 # dec_nat (nat (- n)) else dec_nat (nat n))"

definition is_digit :: "nat \<Rightarrow> bool" where
  "is_digit c \<longleftrightarrow> 48 \<le> c \<and> c \<le> 57"

text \<open>
  \<open>int(text)\<close>: surrounding whitespace, an optional sign, decimal digits with single
  underscores between them; None is the \<open>ValueError\<close>. The flag says whether the previous
  character was a digit.
\<close>

fun int_digits :: "bool \<Rightarrow> int \<Rightarrow> pystr \<Rightarrow> int option" where
  "int_digits d acc [] = (if d then Some acc else None)"
| "int_digits d acc (c # cs) =
     (if is_digit c then int_digits True (10 * acc + int c - 48) cs
      else if c = 95 \<and> d then int_digits False acc cs
      else None)"

definition py_int :: "pystr \<Rightarrow> int option" where
  "py_int text =
     (case py_strip text of
        [] \<Rightarrow> None
      | c # cs \<Rightarrow>
          if c = 45 then map_option uminus (int_digits False 0 cs)
          else if c = 43 then int_digits False 0 cs
          else int_digits False 0 (c # cs))"

lemma length_py_hex [simp]: "length (py_hex bs) = 2 * length bs"
  by (induction bs) (simp_all add: py_hex_def)

lemma hex_digit_inject: "m < 16 \<Longrightarrow> n < 16 \<Longrightarrow> hex_digit m = hex_digit n \<longleftrightarrow> m = n"
  by (auto simp: hex_digit_def)

lemma py_hex_inject: "py_hex xs = py_hex ys \<longleftrightarrow> xs = ys"
proof
  assume eq: "py_hex xs = py_hex ys"
  from arg_cong [OF eq, of length] have "length xs = length ys" by simp
  then show "xs = ys" using eq
  proof (induction xs ys rule: list_induct2)
    case Nil
    then show ?case by simp
  next
    case (Cons x xs y ys)
    have "unat x div 16 < 16" "unat y div 16 < 16"
      using unat_byte_lt [of x] unat_byte_lt [of y] by linarith+
    with Cons have "unat x div 16 = unat y div 16" "unat x mod 16 = unat y mod 16"
      by (auto simp: py_hex_def hex_digit_inject)
    then have "unat x = unat y" by (metis div_mult_mod_eq)
    with Cons show ?case by (auto simp: py_hex_def unsigned_word_eqI)
  qed
qed simp

lemma dec_nat_neq_Nil [simp]: "dec_nat n \<noteq> []"
  by (subst dec_nat.simps) simp

lemma dec_nat_digits: "c \<in> set (dec_nat n) \<Longrightarrow> is_digit c"
proof (induction n rule: dec_nat.induct)
  case (1 n)
  then show ?case
    by (auto simp: dec_nat.simps [of n] is_digit_def split: if_splits)
qed

lemma int_digits_append_digit:
  "int_digits d acc s = Some v \<Longrightarrow> k < 10
   \<Longrightarrow> int_digits d acc (s @ [48 + k]) = Some (10 * v + int k)"
  by (induction s arbitrary: d acc) (auto simp: is_digit_def split: if_splits)

lemma int_digits_dec_nat [codec_simps]: "int_digits False 0 (dec_nat n) = Some (int n)"
proof (induction n rule: dec_nat.induct)
  case (1 n)
  show ?case
  proof (cases "n < 10")
    case True
    then show ?thesis by (subst dec_nat.simps) (simp add: is_digit_def)
  next
    case False
    then have "int_digits False 0 (dec_nat (n div 10)) = Some (int (n div 10))" by (rule "1.IH")
    then have "int_digits False 0 (dec_nat (n div 10) @ [48 + n mod 10])
        = Some (10 * int (n div 10) + int (n mod 10))"
      by (intro int_digits_append_digit) auto
    moreover have "10 * int (n div 10) + int (n mod 10) = int n"
      using mult_div_mod_eq [of 10 n] by (metis of_nat_add of_nat_mult of_nat_numeral)
    ultimately show ?thesis using False by (subst dec_nat.simps) simp
  qed
qed

lemma py_strip_no_space:
  assumes "list_all (\<lambda>c. \<not> py_space c) s"
  shows "py_strip s = s"
proof -
  have "\<And>t. list_all (\<lambda>c. \<not> py_space c) t \<Longrightarrow> dropWhile py_space t = t"
    by (case_tac t) auto
  with assms show ?thesis by (simp add: py_strip_def)
qed

lemma digit_no_space: "is_digit c \<Longrightarrow> \<not> py_space c"
  by (auto simp: is_digit_def py_space_def)

lemma py_int_dec_int [codec_simps]: "py_int (dec_int n) = Some n"
proof -
  have s: "py_strip (dec_int n) = dec_int n"
    using dec_nat_digits digit_no_space
    by (intro py_strip_no_space) (auto simp: dec_int_def list_all_iff py_space_def)
  show ?thesis
  proof (cases "n < 0")
    case True
    with s show ?thesis by (simp add: py_int_def dec_int_def int_digits_dec_nat)
  next
    case False
    obtain c cs where d: "dec_nat (nat n) = c # cs" by (cases "dec_nat (nat n)") auto
    then have "is_digit c" using dec_nat_digits [of c "nat n"] by simp
    moreover have "int_digits False 0 (c # cs) = Some n"
      using int_digits_dec_nat [of "nat n"] d False by simp
    ultimately show ?thesis using False s d
      by (auto simp: py_int_def dec_int_def is_digit_def)
  qed
qed

lemma dec_int_inject: "dec_int m = dec_int n \<longleftrightarrow> m = n"
  by (metis option.inject py_int_dec_int)

section \<open>Reading hex\<close>

text \<open>\<open>bytes.fromhex\<close>: digit pairs of either case, ASCII white space between pairs; None raises.\<close>

definition hex_value :: "nat \<Rightarrow> nat option" where
  "hex_value c =
     (if 48 \<le> c \<and> c \<le> 57 then Some (c - 48)
      else if 97 \<le> c \<and> c \<le> 102 then Some (c - 87)
      else if 65 \<le> c \<and> c \<le> 70 then Some (c - 55)
      else None)"

definition hex_space :: "nat \<Rightarrow> bool" where
  "hex_space c \<longleftrightarrow> c = 32 \<or> (9 \<le> c \<and> c \<le> 13)"

fun py_fromhex :: "pystr \<Rightarrow> bytes option" where
  "py_fromhex [] = Some []"
| "py_fromhex [c] = (if hex_space c then Some [] else None)"
| "py_fromhex (c # d # cs) =
     (if hex_space c then py_fromhex (d # cs)
      else
        case (hex_value c, hex_value d) of
          (Some h, Some l) \<Rightarrow> map_option ((#) (byte_of (16 * h + l))) (py_fromhex cs)
        | _ \<Rightarrow> None)"

lemma hex_value_digit [simp]: "n < 16 \<Longrightarrow> hex_value (hex_digit n) = Some n"
  by (auto simp: hex_value_def hex_digit_def)

lemma hex_digit_not_space [simp]: "n < 16 \<Longrightarrow> \<not> hex_space (hex_digit n)"
  by (auto simp: hex_space_def hex_digit_def)

lemma py_hex_simps [simp]:
  "py_hex [] = []"
  "py_hex (b # bs) = hex_digit (unat b div 16) # hex_digit (unat b mod 16) # py_hex bs"
  by (simp_all add: py_hex_def)

lemma py_fromhex_hex [codec_simps]: "py_fromhex (py_hex bs) = Some bs"
proof (induction bs)
  case Nil
  then show ?case by simp
next
  case (Cons b bs)
  have "unat b div 16 < 16" using unat_byte_lt [of b] by (simp add: less_mult_imp_div_less)
  then show ?case using Cons by simp
qed

lemma hex_value_lower [simp]: "hex_value (lower_cp c) = hex_value c"
  by (auto simp: hex_value_def lower_cp_def)

lemma hex_space_lower [simp]: "hex_space (lower_cp c) = hex_space c"
  by (auto simp: hex_space_def lower_cp_def)

lemma py_fromhex_lower [simp]: "py_fromhex (py_lower s) = py_fromhex s"
  by (induction s rule: py_fromhex.induct) (auto simp: py_lower_def split: option.splits)

section \<open>Hexadecimal integers\<close>

text \<open>
  \<open>int(text, 16)\<close>: as \<open>int(text)\<close>, with hexadecimal digits and an optional \<open>0x\<close>, which may be
  followed by an underscore.
\<close>

fun hex_digits :: "bool \<Rightarrow> int \<Rightarrow> pystr \<Rightarrow> int option" where
  "hex_digits d acc [] = (if d then Some acc else None)"
| "hex_digits d acc (c # cs) =
     (case hex_value c of
        Some v \<Rightarrow> hex_digits True (16 * acc + int v) cs
      | None \<Rightarrow> if c = 95 \<and> d then hex_digits False acc cs else None)"

definition hex_body :: "pystr \<Rightarrow> int option" where
  "hex_body cs =
     (if py_lower (take 2 cs) = lit ''0x''
      then hex_digits False 0 (if take 1 (drop 2 cs) = [95] then drop 3 cs else drop 2 cs)
      else hex_digits False 0 cs)"

definition py_int16 :: "pystr \<Rightarrow> int option" where
  "py_int16 text =
     (case py_strip text of
        [] \<Rightarrow> None
      | c # cs \<Rightarrow>
          if c = 45 then map_option uminus (hex_body cs)
          else if c = 43 then hex_body cs
          else hex_body (c # cs))"

text \<open>\<open>hex(n)\<close>.\<close>

fun hex_nat :: "nat \<Rightarrow> pystr" where
  "hex_nat n = (if n < 16 then [hex_digit n] else hex_nat (n div 16) @ [hex_digit (n mod 16)])"

declare hex_nat.simps [simp del]

definition hex_int :: "int \<Rightarrow> pystr" where
  "hex_int n = (if n < 0 then 45 # lit ''0x'' @ hex_nat (nat (- n)) else lit ''0x'' @ hex_nat (nat n))"

lemma hex_digits_append_digit:
  "hex_digits d acc s = Some v \<Longrightarrow> k < 16
   \<Longrightarrow> hex_digits d acc (s @ [hex_digit k]) = Some (16 * v + int k)"
  by (induction s arbitrary: d acc) (auto split: option.splits if_splits)

lemma hex_digits_hex_nat [codec_simps]: "hex_digits False 0 (hex_nat n) = Some (int n)"
proof (induction n rule: hex_nat.induct)
  case (1 n)
  show ?case
  proof (cases "n < 16")
    case True
    then show ?thesis by (subst hex_nat.simps) simp
  next
    case False
    then have "hex_digits False 0 (hex_nat (n div 16) @ [hex_digit (n mod 16)])
        = Some (16 * int (n div 16) + int (n mod 16))"
      by (intro hex_digits_append_digit "1.IH") auto
    moreover have "16 * int (n div 16) + int (n mod 16) = int n"
      using mult_div_mod_eq [of 16 n] by (metis of_nat_add of_nat_mult of_nat_numeral)
    ultimately show ?thesis using False by (subst hex_nat.simps) simp
  qed
qed

lemma hex_nat_chars: "c \<in> set (hex_nat n) \<Longrightarrow> \<exists>k<16. c = hex_digit k"
proof (induction n rule: hex_nat.induct)
  case (1 n)
  have m: "n mod 16 < 16" by simp
  show ?case
  proof (cases "n < 16")
    case True
    with 1 show ?thesis by (auto simp: hex_nat.simps [of n])
  next
    case False
    with "1.prems" have "c \<in> set (hex_nat (n div 16)) \<or> c = hex_digit (n mod 16)"
      by (auto simp: hex_nat.simps [of n])
    then show ?thesis using m "1.IH" [OF False] by blast
  qed
qed

lemma hex_digit_no_space: "k < 16 \<Longrightarrow> \<not> py_space (hex_digit k)"
  by (auto simp: hex_digit_def py_space_def)

lemma py_int16_hex_int [codec_simps]: "py_int16 (hex_int n) = Some n"
proof -
  have ns: "list_all (\<lambda>c. \<not> py_space c) (hex_nat m)" for m
    using hex_nat_chars hex_digit_no_space by (fastforce simp: list_all_iff)
  have "list_all (\<lambda>c. \<not> py_space c) (hex_int n)"
    using ns by (simp add: hex_int_def lit_def py_space_def)
  then have s: "py_strip (hex_int n) = hex_int n" by (rule py_strip_no_space)
  have u: "take 1 (hex_nat m) \<noteq> [95]" for m
    using hex_nat_chars [of 95 m]
    by (cases "hex_nat m") (auto simp: hex_digit_def split: if_splits)
  have b: "hex_body (48 # 120 # hex_nat m) = Some (int m)" for m
    using u [of m] by (simp add: hex_body_def lit_def py_lower_def lower_cp_def hex_digits_hex_nat)
  show ?thesis unfolding py_int16_def s using b by (simp add: hex_int_def lit_def)
qed

end
