(* ===== verification/BchCode.thy ===== *)
theory BchCode
  imports Prelude
begin

text \<open>
  The checksum register shared by bech32 (\<open>bech32._polymod\<close>) and cashaddr
  (\<open>addresses._cashaddr_ok\<close>): a \<open>5 n\<close>-bit register that is shifted left by one 5-bit symbol,
  the symbol is XORed in, and for every set bit of the five bits shifted out one generator is
  XORed in. The locale \<open>bch_code\<close> states what the two registers have in common, and proves
  once that appending the computed checksum reaches the wanted constant and that exchanging
  one symbol never goes unnoticed.
\<close>

text \<open>The inner loop: \<open>for i, g in enumerate(gens): if (top >> i) & 1: chk ^= g\<close>.\<close>

definition bch_feedback :: "int list \<Rightarrow> int \<Rightarrow> int \<Rightarrow> int" where
  "bch_feedback gens hi chk =
     foldl (\<lambda>c (i, g). if drop_bit i hi AND 1 = 0 then c else c XOR g) chk (enumerate 0 gens)"

definition bch_shift :: "nat \<Rightarrow> int list \<Rightarrow> int \<Rightarrow> int" where
  "bch_shift k gens chk =
     bch_feedback gens (drop_bit k chk) (push_bit 5 (chk AND (2 ^ k - 1)))"

section \<open>The contract\<close>

text \<open>The number a list of 5-bit symbols spells, and the symbols of a number.\<close>

definition digits32 :: "int list \<Rightarrow> int" where
  "digits32 vs = foldl (\<lambda>c v. push_bit 5 c XOR v) 0 vs"

definition symbols32 :: "nat \<Rightarrow> int \<Rightarrow> int list" where
  "symbols32 n x = map (\<lambda>i. drop_bit (5 * (n - 1 - i)) x AND 31) [0..<n]"

definition symbol32 :: "int \<Rightarrow> bool" where
  "symbol32 v \<longleftrightarrow> 0 \<le> v \<and> v < 32"

lemma push5_xor_symbol: "symbol32 v \<Longrightarrow> push_bit 5 c XOR v = 32 * c + v"
proof -
  assume v: "symbol32 v"
  then have "take_bit 5 v = v" by (simp add: symbol32_def take_bit_int_eq_self_iff)
  then have "\<not> bit v k" if "5 \<le> k" for k
    using that by (metis bit_take_bit_iff not_less)
  then have "push_bit 5 c AND v = 0"
    by (intro bit_eqI) (auto simp: bit_simps not_le)
  then have "push_bit 5 c + v = push_bit 5 c XOR v" by (rule disjunctive_add_eq_xor)
  then show ?thesis by (simp add: push_bit_eq_mult)
qed

lemma digits32_snoc: "symbol32 v \<Longrightarrow> digits32 (vs @ [v]) = 32 * digits32 vs + v"
  by (simp add: digits32_def push5_xor_symbol)

lemma digits32_bounds:
  "list_all symbol32 vs \<Longrightarrow> 0 \<le> digits32 vs \<and> digits32 vs < 2 ^ (5 * length vs)"
proof (induction vs rule: rev_induct)
  case Nil
  then show ?case by (simp add: digits32_def)
next
  case (snoc v vs)
  then have "digits32 vs + 1 \<le> 2 ^ (5 * length vs)" "0 \<le> digits32 vs" by simp_all
  then have "32 * (digits32 vs + 1) \<le> 32 * 2 ^ (5 * length vs)" by simp
  with snoc \<open>0 \<le> digits32 vs\<close> show ?case
    by (simp add: digits32_snoc symbol32_def power_add)
qed

lemma symbols32_symbol: "list_all symbol32 (symbols32 n x)"
  by (auto simp: symbols32_def list_all_iff symbol32_def AND_upper2'')

lemma symbols32_Suc: "symbols32 (Suc n) x = symbols32 n (drop_bit 5 x) @ [x AND 31]"
proof -
  have "map (\<lambda>i. drop_bit (5 * (Suc n - 1 - i)) x AND 31) [0..<n]
      = map (\<lambda>i. drop_bit (5 * (n - 1 - i)) (drop_bit 5 x) AND 31) [0..<n]"
    by (intro map_cong refl) (auto simp: drop_bit_drop_bit Suc_diff_le intro!: arg_cong [where f = "\<lambda>k. drop_bit k x AND 31"])
  then show ?thesis by (simp add: symbols32_def)
qed

lemma digits32_symbols32: "0 \<le> x \<Longrightarrow> x < 2 ^ (5 * n) \<Longrightarrow> digits32 (symbols32 n x) = x"
proof (induction n arbitrary: x)
  case 0
  then show ?case by (simp add: symbols32_def digits32_def)
next
  case (Suc n)
  have d: "drop_bit 5 x = x div 32" by (simp add: drop_bit_eq_div)
  have m: "x AND 31 = x mod 32"
    using take_bit_eq_mask [of 5 x] by (simp add: take_bit_eq_mod mask_eq_exp_minus_1)
  have "0 \<le> x div 32" "x div 32 < 2 ^ (5 * n)" using Suc.prems by (auto simp: power_add)
  then have "digits32 (symbols32 n (drop_bit 5 x)) = x div 32" unfolding d by (rule Suc.IH)
  then show ?case
    by (simp add: symbols32_Suc digits32_snoc symbol32_def m)
qed

lemma length_symbols32 [simp]: "length (symbols32 n x) = n"
  by (simp add: symbols32_def)

locale bch_code =
  fixes shift :: "int \<Rightarrow> int" and n :: nat
  assumes shift_xor: "shift (a XOR b) = shift a XOR shift b"
    and shift_nonneg: "0 \<le> a \<Longrightarrow> 0 \<le> shift a"
    and shift_bound: "0 \<le> a \<Longrightarrow> a < 2 ^ (5 * n) \<Longrightarrow> shift a < 2 ^ (5 * n)"
    and shift_room: "0 \<le> a \<Longrightarrow> a < 2 ^ (5 * (n - 1)) \<Longrightarrow> shift a = push_bit 5 a"
    and shift_kernel: "0 \<le> a \<Longrightarrow> a < 2 ^ (5 * n) \<Longrightarrow> shift a = 0 \<Longrightarrow> a = 0"
    and n_pos: "0 < n"
begin

lemma shift_0: "shift 0 = 0"
  using shift_room [of 0] by simp

lemma fold_xor:
  "length xs = length ys \<Longrightarrow>
   foldl (\<lambda>c v. shift c XOR v) (a XOR b) (map2 (XOR) xs ys)
   = foldl (\<lambda>c v. shift c XOR v) a xs XOR foldl (\<lambda>c v. shift c XOR v) b ys"
proof (induction xs ys arbitrary: a b rule: list_induct2)
  case Nil
  then show ?case by simp
next
  case (Cons x xs y ys)
  have "shift (a XOR b) XOR (x XOR y) = (shift a XOR x) XOR (shift b XOR y)"
    by (simp add: shift_xor ac_simps)
  then show ?case using Cons.IH by simp
qed

lemma fold_zeros: "foldl (\<lambda>c v. shift c XOR v) a (replicate m 0) = (shift ^^ m) a"
  by (induction m arbitrary: a) (auto simp: funpow_swap1)

lemma fold_split:
  "foldl (\<lambda>c v. shift c XOR v) a vs
   = (shift ^^ length vs) a XOR foldl (\<lambda>c v. shift c XOR v) 0 vs"
proof -
  have "map2 (XOR) (replicate (length vs) 0) vs = vs"
    by (induction vs) auto
  then show ?thesis
    using fold_xor [of "replicate (length vs) 0" vs a 0] by (simp add: fold_zeros)
qed

lemma fold_symbols:
  "list_all symbol32 vs \<Longrightarrow> length vs \<le> n \<Longrightarrow>
   foldl (\<lambda>c v. shift c XOR v) 0 vs = digits32 vs"
proof (induction vs rule: rev_induct)
  case Nil
  then show ?case by (simp add: digits32_def)
next
  case (snoc v vs)
  then have len: "5 * length vs \<le> 5 * (n - 1)" by simp
  from snoc.prems have b: "0 \<le> digits32 vs" "digits32 vs < 2 ^ (5 * length vs)"
    using digits32_bounds [of vs] by simp_all
  have "(2::int) ^ (5 * length vs) \<le> 2 ^ (5 * (n - 1))"
    using len by (rule power_increasing) simp
  with b(2) have "digits32 vs < 2 ^ (5 * (n - 1))" by (rule less_le_trans)
  with b(1) have "shift (digits32 vs) = push_bit 5 (digits32 vs)" by (rule shift_room)
  with snoc show ?case by (simp add: digits32_def)
qed

lemma shift_pow_bounds:
  "0 \<le> a \<Longrightarrow> a < 2 ^ (5 * n) \<Longrightarrow> 0 \<le> (shift ^^ m) a \<and> (shift ^^ m) a < 2 ^ (5 * n)"
  by (induction m) (auto simp: shift_nonneg shift_bound)

lemma shift_pow_kernel:
  "0 \<le> a \<Longrightarrow> a < 2 ^ (5 * n) \<Longrightarrow> a \<noteq> 0 \<Longrightarrow> (shift ^^ m) a \<noteq> 0"
proof (induction m)
  case 0
  then show ?case by simp
next
  case (Suc m)
  then show ?case
    using shift_pow_bounds [of a m] shift_kernel [of "(shift ^^ m) a"] by auto
qed

text \<open>The computed checksum, appended, brings the register to the wanted constant.\<close>

lemma checksum_reaches:
  assumes "0 \<le> (shift ^^ n) a" "(shift ^^ n) a < 2 ^ (5 * n)" "0 \<le> t" "t < 2 ^ (5 * n)"
  shows "foldl (\<lambda>c v. shift c XOR v) a
           (symbols32 n (foldl (\<lambda>c v. shift c XOR v) a (replicate n 0) XOR t)) = t"
proof -
  let ?x = "(shift ^^ n) a XOR t"
  have "0 \<le> ?x" "?x < 2 ^ (5 * n)" using assms by (auto simp: XOR_upper)
  then have "foldl (\<lambda>c v. shift c XOR v) 0 (symbols32 n ?x) = ?x"
    by (simp add: fold_symbols symbols32_symbol digits32_symbols32)
  then have "foldl (\<lambda>c v. shift c XOR v) a (symbols32 n ?x) = (shift ^^ n) a XOR ?x"
    by (subst fold_split) simp
  then show ?thesis by (simp add: fold_zeros flip: xor.assoc)
qed

text \<open>Two words that differ in exactly one symbol never reach the same constant.\<close>

lemma one_symbol_detected:
  assumes "symbol32 x" "symbol32 y" "x \<noteq> y"
  shows "foldl (\<lambda>c v. shift c XOR v) a (p @ x # s) \<noteq> foldl (\<lambda>c v. shift c XOR v) a (p @ y # s)"
proof
  let ?f = "foldl (\<lambda>c v. shift c XOR v)"
  let ?b = "?f a p"
  assume "?f a (p @ x # s) = ?f a (p @ y # s)"
  then have "?f (shift ?b XOR x) s = ?f (shift ?b XOR y) s" by simp
  then have "(shift ^^ length s) (shift ?b XOR x) XOR ?f 0 s
      = (shift ^^ length s) (shift ?b XOR y) XOR ?f 0 s"
    using fold_split [of "shift ?b XOR x" s] fold_split [of "shift ?b XOR y" s] by simp
  then have "(shift ^^ length s) (shift ?b XOR x) = (shift ^^ length s) (shift ?b XOR y)"
    by (simp add: xor.commute [of _ "?f 0 s"] xor_int_cancel)
  moreover have lin: "(shift ^^ m) (u XOR w) = (shift ^^ m) u XOR (shift ^^ m) w" for m u w
    by (induction m) (auto simp: shift_xor)
  ultimately have "(shift ^^ length s) (x XOR y) = 0"
    by (simp add: xor_int_cancel xor_int_eq_0)
  moreover have "0 \<le> x XOR y" "x XOR y < 2 ^ (5 * n)"
  proof -
    show "0 \<le> x XOR y" using assms by (simp add: symbol32_def)
    have "x XOR y < 2 ^ 5" using assms by (intro XOR_upper) (auto simp: symbol32_def)
    also have "(2::int) ^ 5 \<le> 2 ^ (5 * n)" using n_pos by (intro power_increasing) auto
    finally show "x XOR y < 2 ^ (5 * n)" .
  qed
  moreover have "x XOR y \<noteq> 0" using assms(3) by (simp add: xor_int_eq_0)
  ultimately show False using shift_pow_kernel by blast
qed

end

section \<open>The register of the sources satisfies the contract\<close>

fun bch_mix :: "nat \<Rightarrow> int list \<Rightarrow> int \<Rightarrow> int" where
  "bch_mix i [] hi = 0"
| "bch_mix i (g # gs) hi = (if bit hi i then g else 0) XOR bch_mix (Suc i) gs hi"

lemma bch_feedback_from:
  "foldl (\<lambda>c (i, g). if drop_bit i hi AND 1 = 0 then c else c XOR g) chk (enumerate k gens)
   = chk XOR bch_mix k gens hi"
proof (induction gens arbitrary: k chk)
  case Nil
  then show ?case by simp
next
  case (Cons g gs)
  have "drop_bit k hi AND 1 = 0 \<longleftrightarrow> \<not> bit hi k"
    by (simp add: and_one_eq bit_iff_odd_drop_bit odd_iff_mod_2_eq_one)
  with Cons show ?case by (auto simp: xor.assoc)
qed

lemma bch_feedback_mix: "bch_feedback gens hi chk = chk XOR bch_mix 0 gens hi"
  by (simp add: bch_feedback_def bch_feedback_from)

lemma bch_mix_xor: "bch_mix i gs (s XOR t) = bch_mix i gs s XOR bch_mix i gs t"
  by (induction gs arbitrary: i) (auto simp: bit_simps ac_simps)

lemma bch_mix_nonneg: "list_all (\<lambda>g. 0 \<le> g) gs \<Longrightarrow> 0 \<le> bch_mix i gs t"
  by (induction gs arbitrary: i) auto

lemma bch_mix_bound:
  "list_all (\<lambda>g. 0 \<le> g \<and> g < 2 ^ w) gs \<Longrightarrow> bch_mix i gs t < 2 ^ w"
proof (induction gs arbitrary: i)
  case Nil
  then show ?case by simp
next
  case (Cons g gs)
  then show ?case by (auto intro!: XOR_upper)
qed

lemma bch_mix_0 [simp]: "bch_mix i gs 0 = 0"
  by (induction gs arbitrary: i) auto

text \<open>Whatever the register held before, one shift brings it back into its width.\<close>

lemma bch_shift_range:
  assumes g: "list_all (\<lambda>g. 0 \<le> g \<and> g < 2 ^ (k + 5)) gens"
  shows "0 \<le> bch_shift k gens c" "bch_shift k gens c < 2 ^ (k + 5)"
proof -
  have mask: "c AND (2 ^ k - 1) = take_bit k c"
    by (simp add: take_bit_eq_mask mask_eq_exp_minus_1)
  have gn: "list_all (\<lambda>g. 0 \<le> g) gens" using g by (auto simp: list_all_iff)
  show "0 \<le> bch_shift k gens c"
    by (simp add: bch_shift_def bch_feedback_mix mask bch_mix_nonneg gn push_bit_eq_mult)
  have "take_bit k c < 2 ^ k" by simp
  then have "push_bit 5 (take_bit k c) < 2 ^ (k + 5)"
    by (simp add: push_bit_eq_mult power_add)
  then show "bch_shift k gens c < 2 ^ (k + 5)"
    unfolding bch_shift_def bch_feedback_mix mask
    by (intro XOR_upper) (auto simp: push_bit_eq_mult bch_mix_bound g)
qed

lemma bch_shift_code:
  assumes k: "k = 5 * (n - 1)" "0 < n"
    and g: "list_all (\<lambda>g. 0 \<le> g \<and> g < 2 ^ (5 * n)) gens"
    and low: "list_all (\<lambda>t. take_bit 5 (bch_mix 0 gens t) \<noteq> 0) [1..31]"
  shows "bch_code (bch_shift k gens) n"
proof
  have mask: "c AND (2 ^ k - 1) = take_bit k c" for c :: int
    by (simp add: take_bit_eq_mask mask_eq_exp_minus_1)
  have sh: "bch_shift k gens c = push_bit 5 (take_bit k c) XOR bch_mix 0 gens (drop_bit k c)" for c
    by (simp add: bch_shift_def bch_feedback_mix mask)
  have gn: "list_all (\<lambda>g. 0 \<le> g) gens" using g by (auto simp: list_all_iff)
  have n5: "5 * n = k + 5" using k by (cases n) auto
  show "bch_shift k gens (a XOR b) = bch_shift k gens a XOR bch_shift k gens b" for a b
    by (simp add: sh bch_mix_xor ac_simps)
  note range = bch_shift_range [OF g [unfolded n5]]
  show "0 \<le> bch_shift k gens a" for a by (rule range)
  show "bch_shift k gens a < 2 ^ (5 * n)" for a unfolding n5 by (rule range)
  show "bch_shift k gens a = push_bit 5 a" if "0 \<le> a" "a < 2 ^ (5 * (n - 1))" for a
  proof -
    have "take_bit k a = a" using that k by (simp add: take_bit_int_eq_self_iff)
    moreover have "drop_bit k a = 0" using that k by (simp add: drop_bit_eq_div)
    ultimately show ?thesis by (simp add: sh)
  qed
  show "a = 0" if a: "0 \<le> a" "a < 2 ^ (5 * n)" "bch_shift k gens a = 0" for a
  proof -
    let ?t = "drop_bit k a"
    have t0: "0 \<le> ?t" using a(1) by simp
    have t: "?t < 32"
    proof -
      have "a < 2 ^ k * 32" using a(2) by (simp add: n5 power_add)
      then show "?t < 32"
        by (simp add: drop_bit_eq_div int_div_less)
    qed
    have eq: "push_bit 5 (take_bit k a) XOR bch_mix 0 gens ?t = 0" using a(3) by (simp add: sh)
    have "take_bit 5 (push_bit 5 (take_bit k a)) = (0::int)" by (simp add: take_bit_push_bit)
    with arg_cong [OF eq, of "take_bit 5"] have "take_bit 5 (bch_mix 0 gens ?t) = 0" by simp
    then have "?t = 0"
    proof (rule contrapos_pp)
      assume "?t \<noteq> 0"
      with t t0 have "1 \<le> ?t \<and> ?t \<le> 31" by linarith
      then have "?t \<in> set [1..31]" by simp
      with low show "take_bit 5 (bch_mix 0 gens ?t) \<noteq> 0" by (auto simp: list_all_iff)
    qed
    with eq have "take_bit k a = 0" by simp
    with \<open>?t = 0\<close> show ?thesis by (metis bits_ident push_bit_of_0 add_0)
  qed
  show "0 < n" by fact
qed

end
