(* ===== verification/Bech32.thy ===== *)
theory Bech32
  imports PyText BchCode
begin

text \<open>
  \<open>src/swapsack/bech32.py\<close>: the bech32 / bech32m codec behind Cosmos, Cardano, segwit and
  ZIP-320 addresses. Every \<open>ValueError\<close> of the code is a constructor of \<open>b32_error\<close>.
\<close>

section \<open>The code\<close>

datatype b32_error =
  B32InvalidValue | B32InvalidPadding | B32NotBech32 | B32InvalidChar | B32BadChecksum
| B32WrongVariant

definition charset :: pystr where
  "charset = lit ''qpzry9x8gf2tvdw0s3jn54khce6mua7l''"

definition BECH32 :: int where
  "BECH32 = 1"

definition BECH32M :: int where
  "BECH32M = 0x2BC830A3"

definition bech32_gen :: "int list" where
  "bech32_gen = [0x3B6A57B2, 0x26508E6D, 0x1EA119FA, 0x3D4233DD, 0x2A1462B3]"

definition polymod_step :: "int \<Rightarrow> int \<Rightarrow> int" where
  "polymod_step chk v =
     (let t = drop_bit 25 chk;
          chk = push_bit 5 (chk AND 0x1FFFFFF) XOR v
      in bch_feedback bech32_gen t chk)"

definition polymod :: "int list \<Rightarrow> int" where
  "polymod vs = foldl polymod_step 1 vs"

definition hrp_expand :: "pystr \<Rightarrow> int list" where
  "hrp_expand hrp =
     map (\<lambda>c. drop_bit 5 (int c)) hrp @ [0] @ map (\<lambda>c. int c AND 31) hrp"

text \<open>
  \<open>convertbits\<close>: \<open>drain\<close> is the inner \<open>while bits >= to\<close> (the code calls it with \<open>to\<close> 5 or
  8; a zero \<open>to\<close>, which would not terminate there, drains nothing here).
\<close>

fun drain :: "int \<Rightarrow> nat \<Rightarrow> nat \<Rightarrow> int list \<Rightarrow> nat \<times> int list" where
  "drain acc bits w ret =
     (if 0 < w \<and> w \<le> bits
      then drain acc (bits - w) w (ret @ [drop_bit (bits - w) acc AND (2 ^ w - 1)])
      else (bits, ret))"

declare drain.simps [simp del]

fun convert_loop ::
  "nat \<Rightarrow> nat \<Rightarrow> int \<Rightarrow> nat \<Rightarrow> int list \<Rightarrow> int list \<Rightarrow> (int \<times> nat \<times> int list) option" where
  "convert_loop frm w acc bits ret [] = Some (acc, bits, ret)"
| "convert_loop frm w acc bits ret (v # vs) =
     (if v < 0 \<or> drop_bit frm v \<noteq> 0 then None
      else
        let acc = push_bit frm acc OR v;
            (bits, ret) = drain acc (bits + frm) w ret
        in convert_loop frm w acc bits ret vs)"

definition convertbits :: "int list \<Rightarrow> nat \<Rightarrow> nat \<Rightarrow> bool \<Rightarrow> b32_error + int list" where
  "convertbits data frm w pad =
     (case convert_loop frm w 0 0 [] data of
        None \<Rightarrow> Inl B32InvalidValue
      | Some (acc, bits, ret) \<Rightarrow>
          if pad
          then (if bits \<noteq> 0
                then Inr (ret @ [push_bit (w - bits) acc AND (2 ^ w - 1)])
                else Inr ret)
          else if frm \<le> bits \<or> push_bit (w - bits) acc AND (2 ^ w - 1) \<noteq> 0
          then Inl B32InvalidPadding
          else Inr ret)"

text \<open>\<open>CHARSET.index(c)\<close> for every character, None when one is not in the alphabet.\<close>

fun index_of :: "'a \<Rightarrow> 'a list \<Rightarrow> nat option" where
  "index_of x [] = None"
| "index_of x (y # ys) = (if x = y then Some 0 else map_option Suc (index_of x ys))"

fun charset_values :: "pystr \<Rightarrow> int list option" where
  "charset_values [] = Some []"
| "charset_values (c # cs) =
     (case index_of c charset of
        None \<Rightarrow> None
      | Some i \<Rightarrow> map_option ((#) (int i)) (charset_values cs))"

text \<open>\<open>address.rfind("1")\<close>.\<close>

definition rfind_char :: "nat \<Rightarrow> pystr \<Rightarrow> int" where
  "rfind_char c s =
     int (length s) - 1 - int (length (takeWhile (\<lambda>x. x \<noteq> c) (rev s)))"

definition split :: "pystr \<Rightarrow> b32_error + (pystr \<times> int list \<times> int)" where
  "split address =
     (let pos = rfind_char 49 address in
      if pos < 1 \<or> int (length address) < pos + 7 then Inl B32NotBech32
      else
        let hrp = take (nat pos) address in
        case charset_values (drop (nat pos + 1) address) of
          None \<Rightarrow> Inl B32InvalidChar
        | Some vs \<Rightarrow>
            let variant = polymod (hrp_expand hrp @ vs) in
            if variant \<noteq> BECH32 \<and> variant \<noteq> BECH32M then Inl B32BadChecksum
            else Inr (hrp, vs, variant))"

definition b32_chars :: "int list \<Rightarrow> pystr" where
  "b32_chars vs = map (\<lambda>d. charset ! nat d) vs"

definition b32_encode :: "pystr \<Rightarrow> bytes \<Rightarrow> int \<Rightarrow> b32_error + pystr" where
  "b32_encode hrp data variant =
     bind_res (convertbits (map uint data) 8 5 True) (\<lambda>vs.
       let checksum_input = hrp_expand hrp @ vs @ [0, 0, 0, 0, 0, 0];
           pm = polymod checksum_input XOR variant;
           checksum = map (\<lambda>i. drop_bit (5 * (5 - i)) pm AND 31) [0..<6]
       in Inr (hrp @ lit ''1'' @ b32_chars (vs @ checksum)))"

definition b32_decode :: "pystr \<Rightarrow> int \<Rightarrow> b32_error + (pystr \<times> bytes)" where
  "b32_decode address variant =
     bind_res (split address) (\<lambda>(hrp, vs, got).
       if got \<noteq> variant then Inl B32WrongVariant
       else bind_res (convertbits (take (length vs - 6) vs) 5 8 False) (\<lambda>bs.
         Inr (hrp, map word_of_int bs)))"

definition bech32_encode :: "pystr \<Rightarrow> bytes \<Rightarrow> b32_error + pystr" where
  "bech32_encode hrp data = b32_encode hrp data BECH32"

definition bech32_decode :: "pystr \<Rightarrow> b32_error + (pystr \<times> bytes)" where
  "bech32_decode address = b32_decode address BECH32"

definition bech32m_encode :: "pystr \<Rightarrow> bytes \<Rightarrow> b32_error + pystr" where
  "bech32m_encode hrp data = b32_encode hrp data BECH32M"

definition bech32m_decode :: "pystr \<Rightarrow> b32_error + (pystr \<times> bytes)" where
  "bech32m_decode address = b32_decode address BECH32M"

definition segwit_ok :: "pystr \<Rightarrow> pystr \<Rightarrow> bool" where
  "segwit_ok address hrp =
     (case split address of
        Inl e \<Rightarrow> False
      | Inr (got_hrp, vs, variant) \<Rightarrow>
          if got_hrp \<noteq> hrp \<or> length vs < 7 then False
          else if hd vs > 16 then False
          else if variant \<noteq> (if hd vs = 0 then BECH32 else BECH32M) then False
          else
            (case convertbits (drop 1 (take (length vs - 6) vs)) 5 8 False of
               Inl e \<Rightarrow> False
             | Inr program \<Rightarrow>
                 if \<not> (2 \<le> length program \<and> length program \<le> 40) then False
                 else hd vs \<noteq> 0 \<or> length program = 20 \<or> length program = 32))"

section \<open>The register\<close>

lemma bech32_low_symbols:
  "list_all (\<lambda>t. take_bit 5 (bch_mix 0 bech32_gen t) \<noteq> (0::int)) [1..31]"
  by code_simp

interpretation bech32: bch_code "bch_shift 25 bech32_gen" 6
  by (rule bch_shift_code) (simp_all add: bech32_low_symbols, simp add: bech32_gen_def)

lemma polymod_step_shift: "polymod_step c v = bch_shift 25 bech32_gen c XOR v"
  by (simp add: polymod_step_def bch_shift_def bch_feedback_mix ac_simps)

lemma polymod_fold: "polymod vs = foldl (\<lambda>c v. bch_shift 25 bech32_gen c XOR v) 1 vs"
proof -
  have "polymod_step = (\<lambda>c v. bch_shift 25 bech32_gen c XOR v)"
    by (intro ext) (rule polymod_step_shift)
  then show ?thesis by (simp add: polymod_def)
qed

lemma bech32_shift_range:
  "0 \<le> bch_shift 25 bech32_gen c" "bch_shift 25 bech32_gen c < 2 ^ 30"
  using bch_shift_range [of 25 bech32_gen c] by (simp_all add: bech32_gen_def)

lemma checksum_symbols:
  "map (\<lambda>i. drop_bit (5 * (5 - i)) x AND 31) [0..<6] = symbols32 6 x"
  by (simp add: symbols32_def)

text \<open>Appending the computed six symbols gives exactly the variant's constant.\<close>

lemma polymod_checksum:
  assumes "0 \<le> t" "t < 2 ^ 30"
  shows "polymod (vs @ symbols32 6 (polymod (vs @ [0, 0, 0, 0, 0, 0]) XOR t)) = t"
proof -
  let ?s = "bch_shift 25 bech32_gen"
  let ?a = "foldl (\<lambda>c v. ?s c XOR v) 1 vs"
  have "(?s ^^ 6) ?a = ?s ((?s ^^ 5) ?a)"
    by (simp add: numeral_eq_Suc)
  then have r: "0 \<le> (?s ^^ 6) ?a" "(?s ^^ 6) ?a < 2 ^ (5 * 6)"
    using bech32_shift_range [of "(?s ^^ 5) ?a"] by simp_all
  have z: "replicate 6 0 = [0, 0, 0, 0, 0, 0 :: int]" by (simp add: numeral_eq_Suc)
  show ?thesis
    using bech32.checksum_reaches [OF r] assms unfolding polymod_fold foldl_append z by simp
qed

section \<open>Regrouping bits\<close>

text \<open>The number a list of \<open>w\<close>-bit digits spells, most significant digit first.\<close>

definition num :: "nat \<Rightarrow> int list \<Rightarrow> int" where
  "num w vs = foldl (\<lambda>a v. a * 2 ^ w + v) 0 vs"

definition digits :: "nat \<Rightarrow> int list \<Rightarrow> bool" where
  "digits w vs \<longleftrightarrow> list_all (\<lambda>v. 0 \<le> v \<and> v < 2 ^ w) vs"

lemma digits_simps [simp]:
  "digits w []"
  "digits w (v # vs) \<longleftrightarrow> 0 \<le> v \<and> v < 2 ^ w \<and> digits w vs"
  "digits w (vs @ us) \<longleftrightarrow> digits w vs \<and> digits w us"
  by (simp_all add: digits_def)

lemma num_snoc [simp]: "num w [] = 0" "num w (vs @ [v]) = num w vs * 2 ^ w + v"
  by (simp_all add: num_def)

lemma num_nonneg: "digits w vs \<Longrightarrow> 0 \<le> num w vs"
  by (induction vs rule: rev_induct) auto

lemma num_inject:
  "digits w xs \<Longrightarrow> digits w ys \<Longrightarrow> length xs = length ys \<Longrightarrow> num w xs = num w ys \<Longrightarrow> xs = ys"
proof (induction xs arbitrary: ys rule: rev_induct)
  case Nil
  then show ?case by simp
next
  case (snoc x xs)
  obtain ys' y where ys: "ys = ys' @ [y]" using snoc.prems(3) by (cases ys rule: rev_cases) auto
  have eq: "num w xs * 2 ^ w + x = num w ys' * 2 ^ w + y"
    and x: "0 \<le> x" "x < 2 ^ w" and y: "0 \<le> y" "y < 2 ^ w"
    using snoc.prems by (simp_all add: ys)
  from x y arg_cong [OF eq, of "\<lambda>n. n mod 2 ^ w"] have "x = y" by simp
  with eq have "num w xs = num w ys'" by simp
  with snoc \<open>x = y\<close> show ?case by (simp add: ys)
qed

lemma low_bits: "(a :: int) AND (2 ^ w - 1) = a mod 2 ^ w"
  by (metis mask_eq_exp_minus_1 take_bit_eq_mask take_bit_eq_mod)

lemma push_or_digit: "0 \<le> v \<Longrightarrow> v < 2 ^ w \<Longrightarrow> push_bit w (a :: int) OR v = a * 2 ^ w + v"
proof -
  assume v: "0 \<le> v" "v < 2 ^ w"
  then have "take_bit w v = v" by (simp add: take_bit_int_eq_self_iff)
  then have "\<not> bit v k" if "w \<le> k" for k
    using that by (metis bit_take_bit_iff not_less)
  then have "push_bit w a AND v = 0"
    by (intro bit_eqI) (auto simp: bit_simps not_le)
  then have "push_bit w a + v = push_bit w a OR v" by (rule disjunctive_add_eq_or)
  then show ?thesis by (simp add: push_bit_eq_mult)
qed

text \<open>
  What the loop keeps: the emitted digits spell the accumulator without its last \<open>bits\<close> bits.
\<close>

lemma drain_keeps:
  assumes "0 < w" "digits w ret" "num w ret = acc div 2 ^ bits"
    and "drain acc bits w ret = (bits', ret')"
  shows "bits' < w \<and> digits w ret' \<and> num w ret' = acc div 2 ^ bits'
    \<and> length ret' * w + bits' = length ret * w + bits"
  using assms
proof (induction acc bits w ret rule: drain.induct)
  case (1 acc bits w ret)
  show ?case
  proof (cases "w \<le> bits")
    case False
    with 1 show ?thesis by (simp add: drain.simps)
  next
    case True
    let ?v = "drop_bit (bits - w) acc AND (2 ^ w - 1)"
    have v: "?v = acc div 2 ^ (bits - w) mod 2 ^ w" by (simp add: low_bits drop_bit_eq_div)
    have "acc div 2 ^ bits = acc div 2 ^ (bits - w) div 2 ^ w"
      using True by (simp add: zdiv_zmult2_eq [symmetric] flip: power_add)
    then have "num w (ret @ [?v]) = acc div 2 ^ (bits - w)"
      using "1.prems"(3) unfolding num_snoc v by (simp only: div_mult_mod_eq)
    moreover have "digits w (ret @ [?v])" using "1.prems" v by simp
    moreover have "drain acc (bits - w) w (ret @ [?v]) = (bits', ret')"
      using "1.prems" True by (simp add: drain.simps [of acc bits])
    ultimately have "bits' < w \<and> digits w ret' \<and> num w ret' = acc div 2 ^ bits'
        \<and> length ret' * w + bits' = length (ret @ [?v]) * w + (bits - w)"
      using "1.IH" "1.prems"(1) True by blast
    then show ?thesis using True by simp
  qed
qed

lemma convert_loop_keeps:
  assumes "0 < w" "bits < w" "digits w ret" "num w ret = num frm pre div 2 ^ bits"
    and "length ret * w + bits = length pre * frm" "digits frm pre" "digits frm vs"
  shows "\<exists>bits' ret'. convert_loop frm w (num frm pre) bits ret vs
      = Some (num frm (pre @ vs), bits', ret')
    \<and> bits' < w \<and> digits w ret' \<and> num w ret' = num frm (pre @ vs) div 2 ^ bits'
    \<and> length ret' * w + bits' = length (pre @ vs) * frm"
  using assms
proof (induction vs arbitrary: pre bits ret)
  case Nil
  then show ?case by simp
next
  case (Cons v vs)
  let ?acc = "num frm (pre @ [v])"
  from Cons.prems have v: "0 \<le> v" "v < 2 ^ frm" by simp_all
  then have ok: "\<not> (v < 0 \<or> drop_bit frm v \<noteq> 0)" by (simp add: drop_bit_eq_div)
  have acc: "push_bit frm (num frm pre) OR v = ?acc" using v by (simp add: push_or_digit)
  obtain b r where d: "drain ?acc (bits + frm) w ret = (b, r)" by fastforce
  have "?acc div 2 ^ (bits + frm) = ?acc div 2 ^ frm div 2 ^ bits"
    by (simp only: add.commute [of bits] power_add zdiv_zmult2_eq zero_le_power zero_le_numeral)
  also have "?acc div 2 ^ frm = num frm pre" using v by simp
  finally have "num w ret = ?acc div 2 ^ (bits + frm)" using Cons.prems by simp
  from drain_keeps [OF Cons.prems(1,3) this d]
  have k: "b < w" "digits w r" "num w r = ?acc div 2 ^ b"
    "length r * w + b = length (pre @ [v]) * frm"
    using Cons.prems by simp_all
  have "convert_loop frm w (num frm pre) bits ret (v # vs) = convert_loop frm w ?acc b r vs"
    using ok by (simp only: convert_loop.simps if_False Let_def acc d prod.case)
  then show ?case
    using Cons.IH [OF Cons.prems(1) k(1,2,3,4)] Cons.prems by simp
qed

lemma convert_loop_result:
  assumes "0 < w" "digits frm vs"
  obtains bits ret where "convert_loop frm w 0 0 [] vs = Some (num frm vs, bits, ret)"
    "bits < w" "digits w ret" "num w ret = num frm vs div 2 ^ bits"
    "length ret * w + bits = length vs * frm"
  using convert_loop_keeps [of w 0 "[]" frm "[]" vs] assms by auto

lemma digits_bytes: "digits 8 (map uint (data :: bytes))"
  by (auto simp: digits_def list_all_iff uint_byte_lt)

text \<open>Eight to five with padding, and back: the digits survive, and so does every byte.\<close>

lemma regroup_pads:
  assumes "digits 8 vs"
  obtains us z where "convertbits vs 8 5 True = Inr us" "digits 5 us" "z < 5"
    "num 5 us = num 8 vs * 2 ^ z" "length us * 5 = length vs * 8 + z"
proof -
  from assms obtain bits ret where loop: "convert_loop 8 5 0 0 [] vs = Some (num 8 vs, bits, ret)"
    and b: "bits < 5" and dig: "digits 5 ret" and n: "num 5 ret = num 8 vs div 2 ^ bits"
    and len: "length ret * 5 + bits = length vs * 8"
    using convert_loop_result [of 5 8 vs] by auto
  show ?thesis
  proof (cases "bits = 0")
    case True
    with loop b dig n len show ?thesis
      by (intro that [of ret 0]) (simp_all add: convertbits_def)
  next
    case False
    let ?p = "(2::int) ^ bits" and ?q = "(2::int) ^ (5 - bits)"
    let ?v = "push_bit (5 - bits) (num 8 vs) AND (2 ^ 5 - 1)"
    have pq: "?q * ?p = 2 ^ 5" using b by (simp flip: power_add)
    have "?v = (num 8 vs * ?q) mod (?p * ?q)"
      using pq by (simp only: low_bits push_bit_eq_mult mult.commute)
    then have v: "?v = num 8 vs mod ?p * ?q" by (simp add: mult_mod_left)
    have "num 5 (ret @ [?v]) = (num 8 vs div ?p) * (?q * ?p) + num 8 vs mod ?p * ?q"
      by (simp only: num_snoc n v pq)
    also have "\<dots> = (num 8 vs div ?p * ?p + num 8 vs mod ?p) * ?q"
      by (simp only: distrib_right mult.assoc mult.commute [of ?p])
    also have "\<dots> = num 8 vs * ?q" by (simp only: div_mult_mod_eq)
    finally have "num 5 (ret @ [?v]) = num 8 vs * 2 ^ (5 - bits)" .
    moreover have "digits 5 (ret @ [?v])" using dig by (simp add: low_bits del: push_bit_of_nat)
    ultimately show ?thesis using loop b len False
      by (intro that [of "ret @ [?v]" "5 - bits"]) (simp_all add: convertbits_def)
  qed
qed

lemma regroup_unpads:
  assumes "digits 8 vs" "digits 5 us" "z < 5" "num 5 us = num 8 vs * 2 ^ z"
    "length us * 5 = length vs * 8 + z"
  shows "convertbits us 5 8 False = Inr vs"
proof -
  obtain bits ret where loop: "convert_loop 5 8 0 0 [] us = Some (num 5 us, bits, ret)"
    and b: "bits < 8" and dig: "digits 8 ret" and n: "num 8 ret = num 5 us div 2 ^ bits"
    and len: "length ret * 8 + bits = length us * 5"
    using convert_loop_result [of 8 5 us] assms(2) by auto
  from len assms(5) have "length ret * 8 + bits = length vs * 8 + z" by simp
  with b assms(3) have bz: "bits = z" and l: "length ret = length vs" by presburger+
  have "num 8 ret = num 8 vs" using n by (simp add: bz assms(4))
  with dig assms(1) l have "ret = vs" by (simp add: num_inject)
  moreover have "push_bit (8 - bits) (num 5 us) AND (2 ^ 8 - 1) = 0"
  proof -
    have "num 5 us * 2 ^ (8 - bits) = num 8 vs * (2 ^ z * 2 ^ (8 - z))"
      by (simp add: assms(4) bz)
    also have "(2::int) ^ z * 2 ^ (8 - z) = 2 ^ 8" using assms(3) by (simp flip: power_add)
    finally show ?thesis by (simp only: low_bits push_bit_eq_mult) simp
  qed
  ultimately show ?thesis using loop assms(3) bz by (simp add: convertbits_def)
qed

lemma regroup_roundtrip:
  obtains us where "convertbits (map uint (data :: bytes)) 8 5 True = Inr us" "digits 5 us"
    "convertbits us 5 8 False = Inr (map uint data)"
  using regroup_pads [OF digits_bytes] regroup_unpads [OF digits_bytes] by metis

section \<open>The alphabet and the separator\<close>

lemma index_of_Some: "index_of x xs = Some i \<Longrightarrow> i < length xs \<and> xs ! i = x"
  by (induction xs arbitrary: i) (auto split: if_splits)

lemma index_of_nth: "distinct xs \<Longrightarrow> i < length xs \<Longrightarrow> index_of (xs ! i) xs = Some i"
proof (induction xs arbitrary: i)
  case Nil
  then show ?case by simp
next
  case (Cons x xs)
  then show ?case by (cases i) auto
qed

lemma charset_facts: "length charset = 32" "distinct charset" "49 \<notin> set charset"
  by (simp_all add: charset_def lit_def)

lemma symbol32_digits: "digits 5 vs \<longleftrightarrow> list_all symbol32 vs"
  by (auto simp: digits_def symbol32_def list_all_iff)

lemma b32_chars_values: "digits 5 vs \<Longrightarrow> charset_values (b32_chars vs) = Some vs"
  unfolding b32_chars_def
  by (induction vs) (auto simp: index_of_nth charset_facts nat_less_iff)

lemma b32_chars_no_separator: "digits 5 vs \<Longrightarrow> 49 \<notin> set (b32_chars vs)"
proof
  assume "digits 5 vs" "49 \<in> set (b32_chars vs)"
  then obtain v where "0 \<le> v" "v < 32" "49 = charset ! nat v"
    by (auto simp: b32_chars_def digits_def list_all_iff)
  then show False using charset_facts by (metis nat_less_iff nth_mem of_nat_numeral)
qed

lemma charset_values_props:
  "charset_values cs = Some vs \<Longrightarrow> length vs = length cs \<and> digits 5 vs"
proof (induction cs arbitrary: vs)
  case Nil
  then show ?case by simp
next
  case (Cons c cs)
  then show ?case
    using index_of_Some [of c charset] charset_facts by (fastforce split: option.splits)
qed

lemma charset_values_update:
  "charset_values cs = Some vs \<Longrightarrow> i < length cs \<Longrightarrow>
   charset_values (cs[i := c]) = map_option (\<lambda>k. vs[i := int k]) (index_of c charset)
   \<and> index_of (cs ! i) charset = Some (nat (vs ! i)) \<and> 0 \<le> vs ! i"
proof (induction cs arbitrary: vs i)
  case Nil
  then show ?case by simp
next
  case (Cons d cs)
  then show ?case
    by (cases i; cases "index_of c charset") (auto split: option.splits)
qed

lemma rfind_char_at: "c \<notin> set q \<Longrightarrow> rfind_char c (p @ c # q) = int (length p)"
proof -
  assume "c \<notin> set q"
  then have "takeWhile (\<lambda>x. x \<noteq> c) (rev q @ c # rev p) = rev q"
    by (subst takeWhile_append2) auto
  then show ?thesis by (simp add: rfind_char_def)
qed

lemma rfind_char_split:
  assumes "0 \<le> rfind_char c s"
  obtains p q where "s = p @ c # q" "c \<notin> set q" "rfind_char c s = int (length p)"
proof -
  have "c \<in> set s"
  proof (rule ccontr)
    assume "c \<notin> set s"
    then have "takeWhile (\<lambda>x. x \<noteq> c) (rev s) = rev s" by (auto simp: takeWhile_eq_all_conv)
    with assms show False by (simp add: rfind_char_def)
  qed
  then obtain p q where "s = p @ c # q" "c \<notin> set q" by (metis split_list_last)
  with that rfind_char_at show ?thesis by metis
qed

section \<open>What the codec promises\<close>

lemma split_at:
  assumes "49 \<notin> set q" "p \<noteq> []" "6 \<le> length q"
  shows "split (p @ 49 # q) =
    (case charset_values q of
       None \<Rightarrow> Inl B32InvalidChar
     | Some vs \<Rightarrow>
         if polymod (hrp_expand p @ vs) \<noteq> BECH32 \<and> polymod (hrp_expand p @ vs) \<noteq> BECH32M
         then Inl B32BadChecksum
         else Inr (p, vs, polymod (hrp_expand p @ vs)))"
proof -
  have "rfind_char 49 (p @ 49 # q) = int (length p)" using assms(1) by (rule rfind_char_at)
  moreover have "\<not> (int (length p) < 1 \<or> int (length (p @ 49 # q)) < int (length p) + 7)"
    using assms(2,3) by (cases p) auto
  ultimately show ?thesis unfolding split_def Let_def by (auto split: option.split)
qed

lemma split_Inr:
  assumes "split a = Inr (p, vs, t)"
  obtains q where "a = p @ 49 # q" "49 \<notin> set q" "p \<noteq> []" "6 \<le> length q"
    "charset_values q = Some vs" "t = polymod (hrp_expand p @ vs)" "t = BECH32 \<or> t = BECH32M"
    "rfind_char 49 a = int (length p)"
proof -
  from assms have pos: "1 \<le> rfind_char 49 a" "rfind_char 49 a + 7 \<le> int (length a)"
    by (auto simp: split_def Let_def split: if_splits)
  then obtain p' q where a: "a = p' @ 49 # q" "49 \<notin> set q" "rfind_char 49 a = int (length p')"
    using rfind_char_split [of 49 a] by auto
  with pos have "p' \<noteq> []" "6 \<le> length q" by auto
  with a assms that show ?thesis
    by (auto simp: split_at split: option.splits if_splits)
qed

lemma b32_encode_split:
  assumes "hrp \<noteq> []" "variant = BECH32 \<or> variant = BECH32M"
  obtains a us cs where "b32_encode hrp data variant = Inr a" "split a = Inr (hrp, us @ cs, variant)"
    "length cs = 6" "convertbits us 5 8 False = Inr (map uint data)"
proof -
  obtain us where us: "convertbits (map uint data) 8 5 True = Inr us" "digits 5 us"
    "convertbits us 5 8 False = Inr (map uint data)"
    by (rule regroup_roundtrip)
  let ?cs = "symbols32 6 (polymod (hrp_expand hrp @ us @ [0, 0, 0, 0, 0, 0]) XOR variant)"
  have dig: "digits 5 (us @ ?cs)" using us(2) by (simp add: symbol32_digits symbols32_symbol)
  have "0 \<le> variant" "variant < 2 ^ 30" using assms(2) by (auto simp: BECH32_def BECH32M_def)
  from polymod_checksum [OF this, of "hrp_expand hrp @ us"]
  have pm: "polymod (hrp_expand hrp @ us @ ?cs) = variant" by simp
  have "split (hrp @ 49 # b32_chars (us @ ?cs)) = Inr (hrp, us @ ?cs, variant)"
    using assms pm
    by (subst split_at [OF b32_chars_no_separator [OF dig]])
       (auto simp: b32_chars_values [OF dig] simp: b32_chars_def [of "us @ ?cs", THEN arg_cong [of _ _ length]])
  moreover have "b32_encode hrp data variant = Inr (hrp @ 49 # b32_chars (us @ ?cs))"
    using us(1) checksum_symbols
      [of "polymod (hrp_expand hrp @ us @ [0, 0, 0, 0, 0, 0]) XOR variant"]
    by (simp add: b32_encode_def Let_def lit_def)
  ultimately show ?thesis using that us(3) by force
qed

lemma b32_roundtrip:
  assumes "hrp \<noteq> []" "variant = BECH32 \<or> variant = BECH32M"
  obtains a where "b32_encode hrp data variant = Inr a" "b32_decode a variant = Inr (hrp, data)"
    "\<And>other. other \<noteq> variant \<Longrightarrow> b32_decode a other = Inl B32WrongVariant"
proof -
  obtain a us cs where "b32_encode hrp data variant = Inr a" "split a = Inr (hrp, us @ cs, variant)"
    "length cs = 6" "convertbits us 5 8 False = Inr (map uint data)"
    using b32_encode_split [OF assms] by metis
  then show ?thesis
    by (intro that [of a]) (auto simp: b32_decode_def o_def)
qed

text \<open>
  Encoding any bytes under any non-empty human-readable part succeeds, decoding the string
  gives exactly the part and the bytes back, and the sister decoder of the other variant
  refuses the string as a wrong-variant checksum (so a plain bech32 and a bech32m address are
  never confused).
\<close>

theorem bech32_roundtrip:
  assumes "hrp \<noteq> []"
  shows "(\<exists>a. bech32_encode hrp data = Inr a \<and> bech32_decode a = Inr (hrp, data)
           \<and> bech32m_decode a = Inl B32WrongVariant)
       \<and> (\<exists>a. bech32m_encode hrp data = Inr a \<and> bech32m_decode a = Inr (hrp, data)
           \<and> bech32_decode a = Inl B32WrongVariant)"
proof -
  have "BECH32 \<noteq> BECH32M" by (simp add: BECH32_def BECH32M_def)
  then show ?thesis
    using b32_roundtrip [OF assms, of BECH32 data] b32_roundtrip [OF assms, of BECH32M data]
    unfolding bech32_encode_def bech32_decode_def bech32m_encode_def bech32m_decode_def by metis
qed

text \<open>The round trip at the account hash \<open>00 01 ff\<close> under the \<open>thor\<close> prefix.\<close>

lemma bech32_roundtrip_witness:
  "\<exists>a. bech32_encode (lit ''thor'') [0, 1, 255] = Inr a
     \<and> bech32_decode a = Inr (lit ''thor'', [0, 1, 255])"
  using bech32_roundtrip [of "lit ''thor''" "[0, 1, 255]"] by (auto simp: lit_def)

text \<open>A single mistyped character behind the separator is always noticed by \<open>split\<close>.\<close>

lemma split_typo:
  assumes ok: "split a = Inr (p, vs, t)" and i: "length p < i" "i < length a"
    and c: "c \<noteq> a ! i" "c \<noteq> 49"
    and res: "split (a[i := c]) = Inr (p', vs', t')"
  obtains v where "p' = p" "vs' = vs[i - length p - 1 := v]" "t' \<noteq> t" "length vs' = length vs"
proof -
  obtain q where a: "a = p @ 49 # q" "49 \<notin> set q" "p \<noteq> []" "6 \<le> length q"
    and vs: "charset_values q = Some vs" and t: "t = polymod (hrp_expand p @ vs)"
    using split_Inr [OF ok] by metis
  let ?j = "i - length p - 1"
  obtain j where ij: "i = length p + Suc j" using less_imp_Suc_add [OF i(1)] by auto
  have j: "?j < length q" using i by (simp add: a)
  have upd: "a[i := c] = p @ 49 # q[?j := c]" by (simp add: a ij list_update_append)
  have cj: "c \<noteq> q ! ?j" using c by (simp add: a ij nth_append)
  have nosep: "49 \<notin> set (q[?j := c])" using a(2) c(2) set_update_subset_insert by fastforce
  note u = charset_values_update [OF vs j]
  have len: "6 \<le> length (q[?j := c])" using a(4) by simp
  obtain us where us: "charset_values (q[?j := c]) = Some us" "vs' = us" "p' = p"
    "t' = polymod (hrp_expand p @ us)"
    using res unfolding upd split_at [OF nosep a(3) len] by (auto split: option.splits if_splits)
  then obtain k where k: "index_of c charset = Some k" and vs': "vs' = vs[?j := int k]"
    and p': "p' = p" and t': "t' = polymod (hrp_expand p @ vs[?j := int k])"
    using u by auto
  have lv: "length vs = length q" and dv: "digits 5 vs" using charset_values_props [OF vs] by auto
  have kv: "int k \<noteq> vs ! ?j"
    using u k cj index_of_Some by (metis nat_int)
  have s: "symbol32 (vs ! ?j)" "symbol32 (int k)"
    using dv j lv index_of_Some [OF k] charset_facts
    by (auto simp: symbol32_digits list_all_length symbol32_def)
  have "vs = take ?j vs @ vs ! ?j # drop (Suc ?j) vs"
    using j lv by (simp add: id_take_nth_drop)
  moreover have "vs[?j := int k] = take ?j vs @ int k # drop (Suc ?j) vs"
    using j lv by (simp add: upd_conv_take_nth_drop)
  ultimately have "t' \<noteq> t"
    using bech32.one_symbol_detected [OF s kv [symmetric], of 1 "hrp_expand p @ take ?j vs"]
    unfolding t t' polymod_fold by (metis append.assoc)
  with p' vs' that show ?thesis by simp
qed

text \<open>
  C40: Error detection. If an address decodes, and any one character after its separator is
  replaced by any other character (the separator \<open>1\<close> apart, which would move the split), then
  the mistyped address is refused, whichever of the two variants is asked for.
\<close>

theorem bech32_typo_detected:
  assumes "b32_decode a variant = Inr r"
    and "rfind_char 49 a < int i" "i < length a" "c \<noteq> a ! i" "c \<noteq> 49"
  shows "\<exists>e. b32_decode (a[i := c]) variant = Inl e"
proof (rule ccontr)
  assume "\<not> ?thesis"
  then obtain r' where r': "b32_decode (a[i := c]) variant = Inr r'"
    by (cases "b32_decode (a[i := c]) variant") auto
  obtain p vs where s: "split a = Inr (p, vs, variant)"
    using assms(1) by (auto simp: b32_decode_def bind_res_eq_Inr split: if_splits)
  obtain p' vs' where s': "split (a[i := c]) = Inr (p', vs', variant)"
    using r' by (auto simp: b32_decode_def bind_res_eq_Inr split: if_splits)
  have "rfind_char 49 a = int (length p)" using split_Inr [OF s] by metis
  with assms(2) have "length p < i" by simp
  then show False using split_typo [OF s _ assms(3,4,5) s'] by metis
qed

lemma bech32_typo_detected_witness:
  "\<exists>e. b32_decode ((lit ''a12uel5l'')[3 := 113]) BECH32 = Inl e"
proof -
  have "b32_decode (lit ''a12uel5l'') BECH32 = Inr (lit ''a'', [])" by code_simp
  then show ?thesis
    by (rule bech32_typo_detected) (simp_all add: rfind_char_def lit_def)
qed

end
