(* ===== verification/PyFloat.thy ===== *)
theory PyFloat
  imports Complex_Main
begin

text \<open>
  Python floats, as far as the fee arithmetic uses them: \<open>int * float\<close>, \<open>int / int\<close>,
  \<open>math.ceil\<close> and \<open>math.floor\<close>. A float is a mantissa and a binary exponent, \<open>Flt m e\<close> for
  \<open>m * 2^e\<close>; every operation rounds its exact result to 53 significant bits, ties to even, as
  IEEE 754 double arithmetic does. Infinities, NaN, overflow and subnormal numbers are not in
  the model: fee rates are ordinary positive numbers.
\<close>

datatype float64 = Flt int int

fun bitlen :: "nat \<Rightarrow> nat" where
  "bitlen n = (if n = 0 then 0 else Suc (bitlen (n div 2)))"

declare bitlen.simps [simp del]

text \<open>A non-negative \<open>m\<close> divided by \<open>2^k\<close>, rounded to the nearest integer, ties to even.\<close>

definition round_shift :: "nat \<Rightarrow> nat \<Rightarrow> nat" where
  "round_shift m k =
     (let q = m div 2 ^ k; r = m mod 2 ^ k in
      if 2 * r < 2 ^ k then q
      else if 2 * r > 2 ^ k then q + 1
      else if even q then q else q + 1)"

definition fl_round :: "int \<Rightarrow> int \<Rightarrow> float64" where
  "fl_round m e =
     (let n = nat \<bar>m\<bar>; k = bitlen n - 53
      in Flt (sgn m * int (round_shift n k)) (e + int k))"

definition fl_of_int :: "int \<Rightarrow> float64" where
  "fl_of_int i = fl_round i 0"

text \<open>\<open>i * x\<close> for an integer \<open>i\<close>: Python converts \<open>i\<close> to a float first.\<close>

definition fl_mul_int :: "int \<Rightarrow> float64 \<Rightarrow> float64" where
  "fl_mul_int i x =
     (case (fl_of_int i, x) of (Flt a b, Flt m e) \<Rightarrow> fl_round (a * m) (b + e))"

text \<open>
  \<open>a / b\<close> for integers with \<open>0 < b\<close>: at least 55 quotient bits and a sticky bit for the rest,
  so that one rounding gives the correctly rounded quotient.
\<close>

definition fl_div_int :: "int \<Rightarrow> int \<Rightarrow> float64" where
  "fl_div_int a b =
     (let k = bitlen (nat b) + 55 - bitlen (nat \<bar>a\<bar>);
          n = \<bar>a\<bar> * 2 ^ k;
          m = 2 * (n div b) + (if n mod b = 0 then 0 else 1)
      in fl_round (sgn a * m) (- int (k + 1)))"

fun fl_ceil :: "float64 \<Rightarrow> int" where
  "fl_ceil (Flt m e) = (if 0 \<le> e then m * 2 ^ nat e else - ((- m) div 2 ^ nat (- e)))"

fun fl_floor :: "float64 \<Rightarrow> int" where
  "fl_floor (Flt m e) = (if 0 \<le> e then m * 2 ^ nat e else m div 2 ^ nat (- e))"

fun fl_nonneg :: "float64 \<Rightarrow> bool" where
  "fl_nonneg (Flt m e) \<longleftrightarrow> 0 \<le> m"

text \<open>The number a float stands for.\<close>

fun fl_val :: "float64 \<Rightarrow> rat" where
  "fl_val (Flt m e) = of_int m * 2 powi e"

section \<open>Lemmas\<close>

lemma bitlen_0 [simp]: "bitlen 0 = 0"
  by (simp add: bitlen.simps)

lemma bitlen_upper: "n < 2 ^ bitlen n"
proof (induction n rule: bitlen.induct)
  case (1 n)
  then show ?case
    by (cases "n = 0") (auto simp: bitlen.simps [of n])
qed

lemma bitlen_lower: "0 < n \<Longrightarrow> 2 ^ (bitlen n - 1) \<le> n"
proof (induction n rule: bitlen.induct)
  case (1 n)
  show ?case
  proof (cases "n div 2 = 0")
    case True
    with 1 show ?thesis by (simp add: bitlen.simps [of n])
  next
    case False
    with 1 have "2 ^ (bitlen (n div 2) - 1) \<le> n div 2" by simp
    moreover have "0 < bitlen (n div 2)" using False by (simp add: bitlen.simps [of "n div 2"])
    ultimately have "2 ^ bitlen (n div 2) \<le> 2 * (n div 2)"
      by (cases "bitlen (n div 2)") auto
    with 1 show ?thesis by (simp add: bitlen.simps [of n])
  qed
qed

lemma bitlen_mono: "m \<le> n \<Longrightarrow> bitlen m \<le> bitlen n"
proof (rule ccontr)
  assume "m \<le> n" "\<not> bitlen m \<le> bitlen n"
  then have "bitlen n \<le> bitlen m - 1" "0 < m" by (auto intro: gr0I)
  then have "2 ^ bitlen n \<le> (2::nat) ^ (bitlen m - 1)" by simp
  also have "\<dots> \<le> m" by (rule bitlen_lower) fact
  finally show False using bitlen_upper [of n] \<open>m \<le> n\<close> by simp
qed

lemma bitlen_le: "n < 2 ^ k \<Longrightarrow> bitlen n \<le> k"
proof (rule ccontr)
  assume "n < 2 ^ k" "\<not> bitlen n \<le> k"
  then have "k \<le> bitlen n - 1" "0 < n" by (auto intro: gr0I)
  then have "2 ^ k \<le> (2::nat) ^ (bitlen n - 1)" by (intro power_increasing) auto
  with bitlen_lower [OF \<open>0 < n\<close>] \<open>n < 2 ^ k\<close> show False by linarith
qed

lemma round_shift_ge: "m div 2 ^ k \<le> round_shift m k"
  by (simp add: round_shift_def Let_def)

lemma round_shift_le: "round_shift m k \<le> m div 2 ^ k + 1"
  by (simp add: round_shift_def Let_def)

lemma round_shift_0 [simp]: "round_shift m 0 = m"
  by (simp add: round_shift_def)

lemma round_shift_mono: "m \<le> n \<Longrightarrow> round_shift m k \<le> round_shift n k"
proof -
  assume "m \<le> n"
  then have "m div 2 ^ k \<le> n div 2 ^ k" by (rule div_le_mono)
  then consider "m div 2 ^ k + 1 \<le> n div 2 ^ k" | "m div 2 ^ k = n div 2 ^ k" by linarith
  then show ?thesis
  proof cases
    case 1
    then show ?thesis using round_shift_le [of m k] round_shift_ge [of n k] by linarith
  next
    case 2
    with \<open>m \<le> n\<close> have "m mod 2 ^ k \<le> n mod 2 ^ k"
      by (metis add_le_cancel_left div_mult_mod_eq)
    with 2 show ?thesis by (auto simp: round_shift_def Let_def)
  qed
qed

lemma round_shift_exact: "round_shift (q * 2 ^ k) k = q"
  by (simp add: round_shift_def)

definition round53 :: "nat \<Rightarrow> nat" where
  "round53 n = round_shift n (bitlen n - 53) * 2 ^ (bitlen n - 53)"

lemma round53_mono: "m \<le> n \<Longrightarrow> round53 m \<le> round53 n"
proof -
  assume le: "m \<le> n"
  let ?k = "bitlen m - 53" and ?l = "bitlen n - 53"
  have kl: "?k \<le> ?l" using bitlen_mono [OF le] by simp
  show ?thesis
  proof (cases "?k = ?l")
    case True
    with round_shift_mono [OF le, of ?k] show ?thesis by (simp add: round53_def)
  next
    case False
    with kl have lt: "?k < ?l" by simp
    have "m < 2 ^ bitlen m" by (rule bitlen_upper)
    also have "\<dots> \<le> 2 ^ (53 + ?k)" by (intro power_increasing) auto
    also have "\<dots> = 2 ^ 53 * 2 ^ ?k" by (simp add: power_add)
    finally have "round_shift m ?k \<le> 2 ^ 53"
      using round_shift_mono [of m "2 ^ 53 * 2 ^ ?k" ?k] by (simp add: round_shift_exact)
    then have "round53 m \<le> 2 ^ 53 * 2 ^ ?k" by (simp add: round53_def)
    also have "\<dots> = 2 ^ (53 + ?k)" by (simp add: power_add)
    also have "\<dots> \<le> 2 ^ (52 + ?l)" using lt by (intro power_increasing) auto
    also have "\<dots> = 2 ^ 52 * 2 ^ ?l" by (simp add: power_add)
    finally have A: "round53 m \<le> 2 ^ 52 * 2 ^ ?l" .
    have "0 < n" using lt by (auto intro: gr0I)
    then have "2 ^ (bitlen n - 1) \<le> n" by (rule bitlen_lower)
    moreover have "bitlen n - 1 = 52 + ?l" using lt by simp
    ultimately have "2 ^ 52 * 2 ^ ?l \<le> n" by (simp only: power_add)
    then have "2 ^ 52 \<le> round_shift n ?l"
      using round_shift_mono [of "2 ^ 52 * 2 ^ ?l" n ?l] by (simp add: round_shift_exact)
    then have "2 ^ 52 * 2 ^ ?l \<le> round53 n" by (simp add: round53_def)
    with A show ?thesis by linarith
  qed
qed

lemma round53_exact: "n < 2 ^ 53 \<Longrightarrow> round53 n = n"
proof -
  assume n: "n < 2 ^ 53"
  have "bitlen n \<le> 53" by (rule bitlen_le) (rule n)
  then show ?thesis by (simp add: round53_def)
qed

lemma fl_val_round: "0 \<le> m \<Longrightarrow> fl_val (fl_round m e) = of_nat (round53 (nat m)) * 2 powi e"
proof -
  assume "0 \<le> m"
  show ?thesis
  proof (cases "m = 0")
    case True
    then show ?thesis by (simp add: fl_round_def round53_def round_shift_def Let_def)
  next
    case False
    with \<open>0 \<le> m\<close> show ?thesis
      by (simp add: fl_round_def round53_def Let_def power_int_add)
  qed
qed

lemma fl_ceil_val: "fl_ceil x = \<lceil>fl_val x\<rceil>"
proof (cases x)
  case (Flt m e)
  show ?thesis
  proof (cases "0 \<le> e")
    case True
    then have v: "fl_val x = of_int (m * 2 ^ nat e)"
      using Flt by (simp add: power_int_def)
    show ?thesis unfolding v ceiling_of_int using True Flt by simp
  next
    case False
    then have v: "fl_val x = of_int m / of_int (2 ^ nat (- e))"
    proof -
      have "(2::rat) powi e = inverse (2 ^ nat (- e))"
        using False by (simp only: power_int_def if_False power_inverse)
      then show ?thesis using Flt by (simp only: fl_val.simps divide_inverse of_int_power of_int_numeral)
    qed
    show ?thesis unfolding v ceiling_divide_eq_div using False Flt by simp
  qed
qed

lemma fl_nonneg_round [simp]: "0 \<le> m \<Longrightarrow> fl_nonneg (fl_round m e)"
  by (cases "m = 0") (auto simp: fl_round_def Let_def sgn_if)

lemma fl_nonneg_of_int [simp]: "0 \<le> i \<Longrightarrow> fl_nonneg (fl_of_int i)"
  by (simp add: fl_of_int_def)

lemma fl_nonneg_mul [simp]: "0 \<le> i \<Longrightarrow> fl_nonneg x \<Longrightarrow> fl_nonneg (fl_mul_int i x)"
  using fl_nonneg_of_int [of i]
  by (cases x; cases "fl_of_int i") (auto simp: fl_mul_int_def)

lemma fl_ceil_nonneg [simp]: "fl_nonneg x \<Longrightarrow> 0 \<le> fl_ceil x"
  by (cases x) (auto simp: div_nonpos_pos_le0)

text \<open>A dearer size is never a cheaper fee: \<open>ceil(i * rate)\<close> is monotone in \<open>i\<close>.\<close>

lemma fl_round_mono:
  "0 \<le> m \<Longrightarrow> m \<le> n \<Longrightarrow> fl_val (fl_round m e) \<le> fl_val (fl_round n e)"
  by (simp add: fl_val_round round53_mono mult_right_mono)

lemma fl_mul_int_small:
  assumes "0 \<le> i" "i < 2 ^ 53"
  shows "fl_mul_int i (Flt m e) = fl_round (i * m) e"
proof -
  have "nat i < 2 ^ 53" using assms by (simp add: nat_less_iff)
  then have "bitlen (nat i) \<le> 53" by (rule bitlen_le)
  then have "bitlen (nat i) - 53 = 0" by simp
  then have "fl_of_int i = Flt i 0"
    using assms by (simp add: fl_of_int_def fl_round_def Let_def sgn_if)
  then show ?thesis by (simp add: fl_mul_int_def)
qed

lemma fl_ceil_mul_mono:
  assumes "0 \<le> i" "i \<le> j" "j < 2 ^ 53" "fl_nonneg x"
  shows "fl_ceil (fl_mul_int i x) \<le> fl_ceil (fl_mul_int j x)"
proof (cases x)
  case (Flt m e)
  with assms have "fl_val (fl_mul_int i x) \<le> fl_val (fl_mul_int j x)"
    by (simp add: fl_mul_int_small fl_round_mono mult_right_mono)
  then show ?thesis by (simp add: fl_ceil_val ceiling_mono)
qed

text \<open>
  \<open>math.ceil(a / b)\<close> on small integers is exact although \<open>a / b\<close> is rounded: the quotient is
  either an integer, or at least \<open>1 / b\<close> away from the next smaller one.
\<close>

lemma round53_scale: "n < 2 ^ 53 \<Longrightarrow> round53 (n * 2 ^ j) = n * 2 ^ j"
proof -
  assume n: "n < 2 ^ 53"
  let ?l = "bitlen (n * 2 ^ j) - 53"
  have "n * 2 ^ j < 2 ^ 53 * 2 ^ j" using n by simp
  then have "n * 2 ^ j < 2 ^ (53 + j)" by (simp add: power_add)
  then have "?l \<le> j" using bitlen_le by fastforce
  then have "n * 2 ^ j = (n * 2 ^ (j - ?l)) * 2 ^ ?l" by (simp flip: power_add)
  then show ?thesis unfolding round53_def by (metis round_shift_exact)
qed

lemma fl_ceil_round:
  assumes "0 \<le> m" "(c - 1) * 2 ^ j < int (round53 (nat m))" "int (round53 (nat m)) \<le> c * 2 ^ j"
  shows "fl_ceil (fl_round m (- int j)) = c"
proof -
  let ?r = "int (round53 (nat m))"
  have "(2::rat) powi (- int j) = inverse (of_int (2 ^ j))" by (simp add: power_int_minus)
  then have "fl_val (fl_round m (- int j)) = of_int ?r / of_int (2 ^ j)"
    using assms(1) by (simp only: fl_val_round divide_inverse of_int_of_nat_eq)
  then have "fl_ceil (fl_round m (- int j)) = - (- ?r div 2 ^ j)"
    by (simp only: fl_ceil_val ceiling_divide_eq_div)
  also have "- ?r div 2 ^ j = - c"
    using assms(2,3) by (intro int_div_pos_eq [of _ _ _ "c * 2 ^ j - ?r"]) (auto simp: algebra_simps)
  finally show ?thesis by simp
qed

lemma fl_ceil_div_exact:
  assumes a: "0 \<le> a" "a < 2 ^ 44" and b: "0 < b" "b \<le> 256"
  shows "fl_ceil (fl_div_int a b) = - (- a div b)"
proof -
  define c where "c = - (- a div b)"
  define k where "k = bitlen (nat b) + 55 - bitlen (nat a)"
  define n where "n = a * 2 ^ k"
  define m where "m = 2 * (n div b) + (if n mod b = 0 then 0 else 1)"
  have "nat a < 2 ^ 44" using a by (simp add: nat_less_iff)
  then have "bitlen (nat a) \<le> 44" by (rule bitlen_le)
  then have k8: "8 \<le> k" by (simp add: k_def)
  have dm: "b * (- a div b) + (- a mod b) = - a" by (rule mult_div_mod_eq)
  have "0 \<le> - a mod b" "- a mod b < b" using b(1) by (rule pos_mod_sign pos_mod_bound)+
  then have "a \<le> - (b * (- a div b))" "1 - b - b * (- a div b) \<le> a" using dm by linarith+
  then have c1: "a \<le> c * b" and c2: "(c - 1) * b + 1 \<le> a"
    by (simp_all add: c_def algebra_simps)
  have "c \<le> a"
  proof (rule ccontr)
    assume "\<not> c \<le> a"
    then have "a \<le> c - 1" by simp
    then have "a * 1 \<le> (c - 1) * b" using a b by (intro mult_mono) auto
    with c2 show False by simp
  qed
  with a have cb: "c < 2 ^ 44" by simp
  have c0: "0 \<le> c" using a b by (simp add: c_def div_nonpos_pos_le0)
  have nb: "b * (n div b) + n mod b = n" "0 \<le> n mod b" "n mod b < b" using b by simp_all
  have n0: "0 \<le> n" using a by (simp add: n_def)
  have m0: "0 \<le> m" using n0 b by (simp add: m_def pos_imp_zdiv_nonneg_iff)
  have eq: "fl_div_int a b = fl_round m (- int (k + 1))" if "a \<noteq> 0"
    using a that by (simp add: fl_div_int_def k_def [symmetric] n_def m_def Let_def sgn_if)
  have up: "m \<le> c * 2 ^ (k + 1)"
  proof -
    have "n \<le> b * (c * 2 ^ k)" using c1 mult_right_mono [OF c1, of "2 ^ k"] by (simp add: n_def ac_simps)
    show ?thesis
    proof (cases "n mod b = 0")
      case True
      then have "b * (n div b) \<le> b * (c * 2 ^ k)" using nb \<open>n \<le> _\<close> by simp
      then have "n div b \<le> c * 2 ^ k" using b by simp
      then show ?thesis using True by (simp add: m_def)
    next
      case False
      then have "b * (n div b) < b * (c * 2 ^ k)" using nb \<open>n \<le> _\<close> by linarith
      then have "n div b < c * 2 ^ k" using b by simp
      then show ?thesis using False by (simp add: m_def)
    qed
  qed
  have lo: "((c - 1) * 2 ^ 8 + 1) * 2 ^ (k - 7) \<le> m"
  proof -
    have "k - 7 = Suc (k - 8)" using k8 by simp
    then have k: "(2::int) ^ k = 2 ^ 8 * 2 ^ (k - 8)" "(2::int) ^ (k - 7) = 2 * 2 ^ (k - 8)"
      using power_add [of "2::int" 8 "k - 8"] k8 by simp_all
    have "b * ((c - 1) * 2 ^ k + 2 ^ (k - 8)) \<le> ((c - 1) * b + 1) * 2 ^ k"
      using b by (simp add: k algebra_simps)
    also have "\<dots> \<le> n" unfolding n_def using c2 by (intro mult_right_mono) auto
    finally have "b * ((c - 1) * 2 ^ k + 2 ^ (k - 8)) div b \<le> n div b"
      using b(1) by (rule zdiv_mono1)
    then have "(c - 1) * 2 ^ k + 2 ^ (k - 8) \<le> n div b" using b by simp
    then have "((c - 1) * 2 ^ 8 + 1) * 2 ^ (k - 7) \<le> 2 * (n div b)"
      by (simp add: k algebra_simps)
    then show ?thesis by (simp add: m_def)
  qed
  have "fl_ceil (fl_div_int a b) = c"
  proof (cases "a = 0")
    case True
    then show ?thesis by (simp add: c_def fl_div_int_def fl_round_def Let_def)
  next
    case False
    have c1': "1 \<le> c"
    proof (rule ccontr)
      assume "\<not> 1 \<le> c"
      with c0 have "c = 0" by linarith
      with c1 False a show False by simp
    qed
    have "int (round53 (nat m)) \<le> c * 2 ^ (k + 1)"
    proof -
      have "nat m \<le> nat c * 2 ^ (k + 1)" using up c0 by (simp add: nat_le_iff)
      from round53_mono [OF this] have "round53 (nat m) \<le> nat c * 2 ^ (k + 1)"
        using cb by (subst (asm) round53_scale) auto
      then have "int (round53 (nat m)) \<le> int (nat c * 2 ^ (k + 1))" by (rule of_nat_mono)
      then show ?thesis using c0 by simp
    qed
    moreover have "(c - 1) * 2 ^ (k + 1) < int (round53 (nat m))"
    proof -
      define d' where "d' = nat ((c - 1) * 2 ^ 8 + 1)"
      have d: "int d' = (c - 1) * 2 ^ 8 + 1" using c1' by (simp add: d'_def)
      have db: "d' < 2 ^ 53" using cb d by simp
      have "int (d' * 2 ^ (k - 7)) \<le> m" using lo by (simp add: d)
      then have "d' * 2 ^ (k - 7) \<le> nat m" using m0 by (simp only: le_nat_iff)
      from round53_mono [OF this] have "d' * 2 ^ (k - 7) \<le> round53 (nat m)"
        by (simp only: round53_scale [OF db])
      then have "int (d' * 2 ^ (k - 7)) \<le> int (round53 (nat m))" by (rule of_nat_mono)
      then have "((c - 1) * 2 ^ 8 + 1) * 2 ^ (k - 7) \<le> int (round53 (nat m))"
        using d by simp
      moreover have e: "(2::int) ^ (k + 1) = 2 ^ 8 * 2 ^ (k - 7)"
        using power_add [of "2::int" 8 "k - 7"] k8 by simp
      have "(c - 1) * 2 ^ (k + 1) < ((c - 1) * 2 ^ 8 + 1) * 2 ^ (k - 7)"
        unfolding e by (simp add: algebra_simps)
      ultimately show ?thesis by (rule less_le_trans [rotated])
    qed
    ultimately have "fl_ceil (fl_round m (- int (k + 1))) = c" by (intro fl_ceil_round m0)
    then show ?thesis by (simp only: eq [OF False])
  qed
  then show ?thesis by (simp only: c_def)
qed

text \<open>A size at a rate of one is at least itself, also where the size is no longer exact.\<close>

lemma fl_ceil_mul_one_le:
  assumes "0 \<le> n" "n \<le> v" "n < 2 ^ 53"
  shows "n \<le> fl_ceil (fl_mul_int v (Flt 1 0))"
proof -
  define k where "k = bitlen (nat v) - 53"
  define a where "a = round_shift (nat v) k"
  have v: "fl_of_int v = Flt (int a) (int k)"
    using assms by (cases "v = 0") (auto simp: fl_of_int_def fl_round_def k_def a_def Let_def sgn_if)
  have "nat v < 2 ^ bitlen (nat v)" by (rule bitlen_upper)
  also have "\<dots> \<le> 2 ^ (53 + k)" by (intro power_increasing) (auto simp: k_def)
  finally have "nat v \<le> 2 ^ 53 * 2 ^ k" by (simp add: power_add)
  then have "a \<le> 2 ^ 53"
    unfolding a_def using round_shift_mono round_shift_exact by metis
  then have "round53 a = a"
    using round53_exact [of a] round53_scale [of 1 53] by (cases "a = 2 ^ 53") auto
  then have "fl_val (fl_mul_int v (Flt 1 0)) = of_nat a * 2 powi int k"
    by (simp add: fl_mul_int_def v fl_val_round)
  also have "\<dots> = of_nat (round53 (nat v))"
    by (simp add: round53_def a_def k_def)
  finally have val: "fl_ceil (fl_mul_int v (Flt 1 0)) = int (round53 (nat v))"
    unfolding fl_ceil_val by simp
  have n: "nat n < 2 ^ 53" using assms by (simp add: nat_less_iff)
  have "round53 (nat n) \<le> round53 (nat v)" using assms by (intro round53_mono) simp
  then have "nat n \<le> round53 (nat v)" unfolding round53_exact [OF n] .
  then show ?thesis using assms by (simp add: val nat_le_iff)
qed

section \<open>Evaluation\<close>

text \<open>Code equations over binary integers, so that a witness can compute with floats.\<close>

definition int_bitlen :: "int \<Rightarrow> nat" where
  "int_bitlen n = bitlen (nat n)"

definition int_round_shift :: "int \<Rightarrow> nat \<Rightarrow> int" where
  "int_round_shift n k = int (round_shift (nat n) k)"

lemma int_bitlen_code [code]: "int_bitlen n = (if n \<le> 0 then 0 else Suc (int_bitlen (n div 2)))"
proof (cases "n \<le> 0")
  case True
  then show ?thesis by (simp add: int_bitlen_def)
next
  case False
  then have "nat n \<noteq> 0" "nat n div 2 = nat (n div 2)" by (simp_all add: nat_div_distrib)
  then show ?thesis using False bitlen.simps [of "nat n"] by (simp add: int_bitlen_def)
qed

lemma int_round_shift_code [code]:
  "int_round_shift n k =
     (if n \<le> 0 then 0
      else
        let p = 2 ^ k; q = n div p; r = n mod p in
        if 2 * r < p then q else if 2 * r > p then q + 1 else if even q then q else q + 1)"
proof (cases "n \<le> 0")
  case True
  then show ?thesis by (simp add: int_round_shift_def round_shift_def)
next
  case False
  then obtain m where m: "n = int m" using nonneg_int_cases [of n] by auto
  define q where "q = m div 2 ^ k"
  define r where "r = m mod 2 ^ k"
  have qi: "int m div 2 ^ k = int q" using of_nat_div [of m "2 ^ k", where 'a = int] by (simp add: q_def)
  have ri: "int m mod 2 ^ k = int r" using of_nat_mod [of m "2 ^ k", where 'a = int] by (simp add: r_def)
  have lt: "2 * int r < 2 ^ k \<longleftrightarrow> 2 * r < 2 ^ k"
    using of_nat_less_iff [of "2 * r" "2 ^ k", where 'a = int] by simp
  have gt: "2 ^ k < 2 * int r \<longleftrightarrow> 2 ^ k < 2 * r"
    using of_nat_less_iff [of "2 ^ k" "2 * r", where 'a = int] by simp
  have shift: "round_shift m k
      = (if 2 * r < 2 ^ k then q else if 2 ^ k < 2 * r then q + 1 else if even q then q else q + 1)"
    by (simp add: round_shift_def q_def r_def Let_def)
  show ?thesis
    using False unfolding m int_round_shift_def Let_def qi ri lt gt nat_int shift by simp
qed

lemma fl_round_code [code]:
  "fl_round m e =
     (let n = \<bar>m\<bar>; k = int_bitlen n - 53 in Flt (sgn m * int_round_shift n k) (e + int k))"
  by (simp add: fl_round_def int_bitlen_def int_round_shift_def Let_def)

lemma fl_div_int_code [code]:
  "fl_div_int a b =
     (let k = int_bitlen b + 55 - int_bitlen \<bar>a\<bar>;
          n = \<bar>a\<bar> * 2 ^ k;
          m = 2 * (n div b) + (if n mod b = 0 then 0 else 1)
      in fl_round (sgn a * m) (- int (k + 1)))"
  by (simp add: fl_div_int_def int_bitlen_def)

end
