(* ===== verification/Coins.thy ===== *)
theory Coins
  imports PyText PyFloat "HOL-Library.Multiset"
begin

text \<open>
  \<open>src/swapsack/chains/coins.py\<close>: coin selection, child-pays-for-parent pricing, the ZIP-317 fee
  model and the OP_RETURN codec. Amounts are base units, Python integers; a fee rate is a
  \<open>float64\<close>. The selection core takes the fee model as a function, and the locale \<open>fee_model\<close>
  states what it needs of one.
\<close>

section \<open>The code\<close>

definition OP_RETURN_MAX_BYTES :: nat where
  "OP_RETURN_MAX_BYTES = 80"

definition OP_PUSHDATA1 :: nat where
  "OP_PUSHDATA1 = 0x4C"

definition OP_RETURN_OPCODE :: nat where
  "OP_RETURN_OPCODE = 0x6A"

definition TX_OVERHEAD_VB :: int where
  "TX_OVERHEAD_VB = 11"

definition RBF_SEQUENCE_MAX :: int where
  "RBF_SEQUENCE_MAX = 0xFFFFFFFE"

record script_params =
  input_vb :: int
  output_vb :: int
  dust :: int

definition P2WPKH :: script_params where
  "P2WPKH = \<lparr>input_vb = 68, output_vb = 31, dust = 294\<rparr>"

definition P2PKH :: script_params where
  "P2PKH = \<lparr>input_vb = 148, output_vb = 34, dust = 546\<rparr>"

text \<open>\<open>InsufficientFunds\<close> and the codec's \<open>ValueError\<close>s, with the numbers their messages quote.\<close>

datatype coins_error =
  CannotSweep int int
| CannotSweepToken int
| CannotFund int int
| OpReturnTooLong nat
| NotAnOpReturn
| OpReturnNoPush
| OpReturnTruncated

record utxo =
  u_txid :: pystr
  u_vout :: int
  u_value :: int
  u_address :: pystr
  u_path :: "pystr option"
  u_confirmed :: bool
  u_ancestor_deficit :: int

record selection =
  s_utxos :: "utxo list"
  s_fee :: int
  s_change :: int

definition cpfp_deficit :: "int \<Rightarrow> int \<Rightarrow> float64 \<Rightarrow> int" where
  "cpfp_deficit parent_fee parent_vsize fee_rate =
     max 0 (fl_ceil (fl_mul_int parent_vsize fee_rate) - parent_fee)"

definition per_parent :: "utxo list \<Rightarrow> (pystr \<times> int) list" where
  "per_parent us =
     dict_of (map (\<lambda>u. (u_txid u, u_ancestor_deficit u)) (filter (\<lambda>u. \<not> u_confirmed u) us))"

definition cpfp_surcharge :: "utxo list \<Rightarrow> int" where
  "cpfp_surcharge us = sum_list (map snd (per_parent us))"

text \<open>A memo is text, or bytes that are already encoded (a Chainflip payload).\<close>

datatype memo = MemoText pystr | MemoBytes bytes

fun memo_bytes :: "memo option \<Rightarrow> bytes" where
  "memo_bytes None = []"
| "memo_bytes (Some (MemoText t)) = utf8_encode t"
| "memo_bytes (Some (MemoBytes b)) = b"

definition encode_op_return :: "bytes \<Rightarrow> coins_error + bytes" where
  "encode_op_return data =
     (if OP_RETURN_MAX_BYTES < length data then Inl (OpReturnTooLong (length data))
      else if length data < OP_PUSHDATA1
      then Inr ([byte_of OP_RETURN_OPCODE, byte_of (length data)] @ data)
      else Inr ([byte_of OP_RETURN_OPCODE, byte_of OP_PUSHDATA1, byte_of (length data)] @ data))"

definition decode_op_return :: "bytes \<Rightarrow> coins_error + bytes" where
  "decode_op_return script =
     (if script = [] \<or> script ! 0 \<noteq> byte_of OP_RETURN_OPCODE then Inl NotAnOpReturn
      else if length script < 2 then Inl OpReturnNoPush
      else if script ! 1 = byte_of OP_PUSHDATA1 then
        (if length script < 3 then Inl OpReturnTruncated
         else Inr (slice 3 (3 + unat (script ! 2)) script))
      else Inr (slice 2 (2 + unat (script ! 1)) script))"

definition op_return_vb :: "int \<Rightarrow> int" where
  "op_return_vb data_len = 8 + 1 + 2 + data_len"

definition estimate_vsize :: "int \<Rightarrow> int \<Rightarrow> int \<Rightarrow> script_params \<Rightarrow> int" where
  "estimate_vsize n_inputs n_outputs op_return_len script =
     (let vsize = TX_OVERHEAD_VB + n_inputs * input_vb script + n_outputs * output_vb script
      in if op_return_len \<noteq> 0 then vsize + op_return_vb op_return_len else vsize)"

definition sweep_amount ::
  "int \<Rightarrow> int \<Rightarrow> float64 \<Rightarrow> int \<Rightarrow> script_params \<Rightarrow> int \<Rightarrow> coins_error + (int \<times> int)" where
  "sweep_amount tot n_inputs fee_rate memo_len script extra_fee =
     (let fee = fl_ceil (fl_mul_int (estimate_vsize n_inputs 1 memo_len script) fee_rate) + extra_fee;
          send = tot - fee
      in if send < dust script then Inl (CannotSweep tot fee) else Inr (send, fee))"

definition token_sweep_amount :: "int \<Rightarrow> nat \<Rightarrow> coins_error + int" where
  "token_sweep_amount balance decimals =
     (let amount = balance * 10 ^ 8 div 10 ^ decimals
      in if amount \<le> 0 then Inl (CannotSweepToken balance) else Inr amount)"

text \<open>
  \<open>sorted(utxos, key=lambda x: (x.confirmed, x.value), reverse=True)\<close>: descending, and (as
  Python promises for \<open>reverse\<close>) equal keys keep their order.
\<close>

definition select_order :: "utxo list \<Rightarrow> utxo list" where
  "select_order us = rev (sort_key (\<lambda>u. (u_confirmed u, u_value u)) (rev us))"

fun select_loop ::
  "int \<Rightarrow> int \<Rightarrow> (utxo list \<Rightarrow> int \<Rightarrow> int) \<Rightarrow> utxo list \<Rightarrow> int \<Rightarrow> utxo list \<Rightarrow> coins_error + selection"
where
  "select_loop send_amount dst fee_fn chosen tot [] = Inl (CannotFund tot send_amount)"
| "select_loop send_amount dst fee_fn chosen tot (u # us) =
     (let chosen = chosen @ [u];
          tot = tot + u_value u;
          fee_with_change = fee_fn chosen 2;
          change = tot - send_amount - fee_with_change
      in if dst \<le> change
         then Inr \<lparr>s_utxos = chosen, s_fee = fee_with_change, s_change = change\<rparr>
         else if send_amount + fee_fn chosen 1 \<le> tot
         then Inr \<lparr>s_utxos = chosen, s_fee = tot - send_amount, s_change = 0\<rparr>
         else select_loop send_amount dst fee_fn chosen tot us)"

definition select_core ::
  "utxo list \<Rightarrow> int \<Rightarrow> int \<Rightarrow> (utxo list \<Rightarrow> int \<Rightarrow> int) \<Rightarrow> coins_error + selection" where
  "select_core us send_amount dst fee_fn =
     select_loop send_amount dst fee_fn [] 0 (select_order us)"

text \<open>The two fee models: virtual bytes at a rate, and ZIP-317 actions.\<close>

definition vbyte_fee ::
  "float64 \<Rightarrow> int \<Rightarrow> script_params \<Rightarrow> utxo list \<Rightarrow> int \<Rightarrow> int" where
  "vbyte_fee fee_rate memo_len script chosen n_out =
     fl_ceil (fl_mul_int (estimate_vsize (int (length chosen)) n_out memo_len script) fee_rate)
     + cpfp_surcharge chosen"

definition select_coins ::
  "utxo list \<Rightarrow> int \<Rightarrow> float64 \<Rightarrow> int \<Rightarrow> script_params \<Rightarrow> coins_error + selection" where
  "select_coins us send_amount fee_rate memo_len script =
     select_core us send_amount (dust script) (vbyte_fee fee_rate memo_len script)"

definition ZIP317_MARGINAL_FEE :: int where
  "ZIP317_MARGINAL_FEE = 5000"

definition ZIP317_GRACE_ACTIONS :: int where
  "ZIP317_GRACE_ACTIONS = 2"

definition DUST_ZEC :: int where
  "DUST_ZEC = 546"

definition zip317_fee :: "int \<Rightarrow> int \<Rightarrow> int \<Rightarrow> int" where
  "zip317_fee n_inputs n_outputs memo_len =
     (let in_actions = fl_ceil (fl_div_int (n_inputs * 150) 150);
          out_bytes = n_outputs * 34;
          out_bytes = (if memo_len \<noteq> 0 then out_bytes + (op_return_vb memo_len + 1) else out_bytes);
          out_actions = fl_ceil (fl_div_int out_bytes 34)
      in ZIP317_MARGINAL_FEE * max ZIP317_GRACE_ACTIONS (max in_actions out_actions))"

definition zip317_model :: "int \<Rightarrow> utxo list \<Rightarrow> int \<Rightarrow> int" where
  "zip317_model memo_len chosen n_out =
     zip317_fee (int (length chosen)) n_out memo_len + cpfp_surcharge chosen"

definition select_coins_zip317 ::
  "utxo list \<Rightarrow> int \<Rightarrow> int \<Rightarrow> int \<Rightarrow> coins_error + selection" where
  "select_coins_zip317 us send_amount memo_len dst =
     select_core us send_amount dst (zip317_model memo_len)"

definition sweep_amount_zip317 :: "int \<Rightarrow> int \<Rightarrow> int \<Rightarrow> int \<Rightarrow> coins_error + (int \<times> int)" where
  "sweep_amount_zip317 tot n_inputs memo_len dst =
     (let fee = zip317_fee n_inputs 1 memo_len;
          send = tot - fee
      in if send < dst then Inl (CannotSweep tot fee) else Inr (send, fee))"

section \<open>The selection core\<close>

abbreviation value_of :: "utxo list \<Rightarrow> int" where
  "value_of us \<equiv> sum_list (map u_value us)"

text \<open>A shape is affordable when it covers the amount and the fee of the no-change transaction.\<close>

definition affordable :: "int \<Rightarrow> (utxo list \<Rightarrow> int \<Rightarrow> int) \<Rightarrow> utxo list \<Rightarrow> bool" where
  "affordable amount fee c \<longleftrightarrow> amount + fee c 1 \<le> value_of c"

text \<open>How an affordable shape is settled: with change, or the remainder goes to the fee.\<close>

definition settle :: "int \<Rightarrow> int \<Rightarrow> (utxo list \<Rightarrow> int \<Rightarrow> int) \<Rightarrow> utxo list \<Rightarrow> selection" where
  "settle amount dst fee c =
     (let change = value_of c - amount - fee c 2
      in if dst \<le> change then \<lparr>s_utxos = c, s_fee = fee c 2, s_change = change\<rparr>
         else \<lparr>s_utxos = c, s_fee = value_of c - amount, s_change = 0\<rparr>)"

text \<open>
  What the loop needs of a fee model: on the coin lists the model is made for (\<open>sane\<close>), fees
  are not negative and a change output never makes the transaction cheaper.
\<close>

locale fee_model =
  fixes fee :: "utxo list \<Rightarrow> int \<Rightarrow> int" and sane :: "utxo list \<Rightarrow> bool"
  assumes fee_nonneg: "sane c \<Longrightarrow> 0 \<le> fee c 1"
    and fee_mono: "sane c \<Longrightarrow> fee c 1 \<le> fee c 2"
    and sane_prefix: "sane (c @ d) \<Longrightarrow> sane c"
begin

lemma loop_step:
  assumes "0 \<le> dst" "sane (c @ [u])"
  shows "select_loop amount dst fee c (value_of c) (u # us) =
    (if affordable amount fee (c @ [u]) then Inr (settle amount dst fee (c @ [u]))
     else select_loop amount dst fee (c @ [u]) (value_of (c @ [u])) us)"
  using fee_mono [OF assms(2)] assms(1)
  by (auto simp: Let_def affordable_def settle_def)

text \<open>The loop is a search for the first affordable prefix.\<close>

lemma loop_finds:
  assumes "0 \<le> dst" "sane (c @ us)"
  shows "select_loop amount dst fee c (value_of c) us =
    (case find (affordable amount fee) (map ((@) c) (tl (prefixes us))) of
       None \<Rightarrow> Inl (CannotFund (value_of (c @ us)) amount)
     | Some d \<Rightarrow> Inr (settle amount dst fee d))"
  using assms
proof (induction us arbitrary: c)
  case Nil
  then show ?case by simp
next
  case (Cons u us)
  have s: "sane (c @ [u])" using sane_prefix [of "c @ [u]" us] Cons.prems by simp
  have p: "map ((@) c) (tl (prefixes (u # us))) = (c @ [u]) # map ((@) (c @ [u])) (tl (prefixes us))"
    by (cases us) (simp_all add: o_def)
  have l: "(c @ [u]) @ us = c @ u # us" by simp
  have "sane ((c @ [u]) @ us)" using Cons.prems(2) by simp
  note ih = Cons.IH [OF Cons.prems(1) this, unfolded l]
  show ?case unfolding loop_step [OF Cons.prems(1) s] p find.simps ih by simp
qed

lemma select_finds:
  assumes "0 \<le> dst" "sane (select_order us)"
  shows "select_core us amount dst fee =
    (case find (affordable amount fee) (tl (prefixes (select_order us))) of
       None \<Rightarrow> Inl (CannotFund (value_of (select_order us)) amount)
     | Some d \<Rightarrow> Inr (settle amount dst fee d))"
proof -
  have "map ((@) []) (tl (prefixes (select_order us))) = tl (prefixes (select_order us))"
    by (simp add: map_idI)
  then show ?thesis
    using loop_finds [of dst "[]" "select_order us" amount] assms
    unfolding select_core_def append_Nil list.map sum_list.Nil by simp
qed

lemma settle_fee:
  assumes "sane c" "affordable amount fee c" "0 < dst"
  defines "s \<equiv> settle amount dst fee c"
  shows "fee c (if s_change s = 0 then 1 else 2) \<le> s_fee s"
    "s_fee s \<le> fee c 2 \<or> s_fee s < fee c 2 + dst"
  using assms fee_mono by (auto simp: settle_def affordable_def Let_def)

lemma settle_pays:
  assumes "sane c" "affordable amount fee c"
  shows "0 \<le> s_fee (settle amount dst fee c)"
  using assms fee_nonneg [OF assms(1)] fee_mono [OF assms(1)]
  by (auto simp: settle_def affordable_def Let_def)

end

text \<open>Facts of the loop that hold for every fee function.\<close>

lemma select_loop_sound:
  assumes "select_loop amount dst fee c (value_of c) us = Inr sel"
  shows "value_of (s_utxos sel) = amount + s_fee sel + s_change sel
    \<and> (s_change sel = 0 \<or> dst \<le> s_change sel)
    \<and> (\<exists>v w. us = v @ w \<and> v \<noteq> [] \<and> s_utxos sel = c @ v)"
  using assms
proof (induction us arbitrary: c)
  case Nil
  then show ?case by simp
next
  case (Cons u us)
  let ?c = "c @ [u]"
  let ?change = "value_of ?c - amount - fee ?c 2"
  show ?case
  proof (cases "dst \<le> ?change")
    case True
    with Cons.prems have "sel = \<lparr>s_utxos = ?c, s_fee = fee ?c 2, s_change = ?change\<rparr>"
      by (simp add: Let_def)
    with True show ?thesis by simp
  next
    case False
    show ?thesis
    proof (cases "amount + fee ?c 1 \<le> value_of ?c")
      case True
      with False Cons.prems
      have "sel = \<lparr>s_utxos = ?c, s_fee = value_of ?c - amount, s_change = 0\<rparr>"
        by (simp add: Let_def)
      then show ?thesis by simp
    next
      case 2: False
      have "select_loop amount dst fee ?c (value_of ?c) us = Inr sel"
        using Cons.prems False 2 by (simp add: Let_def)
      from Cons.IH [OF this] obtain v w where "us = v @ w" "s_utxos sel = c @ u # v"
        and r: "value_of (s_utxos sel) = amount + s_fee sel + s_change sel"
          "s_change sel = 0 \<or> dst \<le> s_change sel"
        by auto
      then have "u # us = (u # v) @ w \<and> u # v \<noteq> [] \<and> s_utxos sel = c @ u # v" by simp
      with r show ?thesis by blast
    qed
  qed
qed

lemma select_core_sound:
  assumes "select_core us amount dst fee = Inr sel"
  shows "value_of (s_utxos sel) = amount + s_fee sel + s_change sel"
    "s_change sel = 0 \<or> dst \<le> s_change sel"
    "\<exists>w. select_order us = s_utxos sel @ w" "s_utxos sel \<noteq> []"
  using select_loop_sound [of amount dst fee "[]" "select_order us" sel] assms
  by (auto simp: select_core_def)

lemma mset_select_order [simp]: "mset (select_order us) = mset us"
  by (simp add: select_order_def)

lemma sorted_select_order:
  "sorted_wrt (\<lambda>u v. (u_confirmed v, u_value v) \<le> (u_confirmed u, u_value u)) (select_order us)"
proof -
  have "sorted (map (\<lambda>u. (u_confirmed u, u_value u)) (sort_key (\<lambda>u. (u_confirmed u, u_value u)) (rev us)))"
    by simp
  then show ?thesis unfolding select_order_def sorted_wrt_rev by (simp add: sorted_map)
qed

text \<open>A coin left behind is never better than a coin taken.\<close>

lemma select_core_greedy:
  assumes "select_core us amount dst fee = Inr sel"
    and "u \<in> set (s_utxos sel)" "v \<in># mset us - mset (s_utxos sel)"
  shows "(u_confirmed v, u_value v) \<le> (u_confirmed u, u_value u)"
proof -
  obtain w where w: "select_order us = s_utxos sel @ w" using select_core_sound(3) [OF assms(1)] ..
  then have "mset us = mset (s_utxos sel) + mset w" by (metis mset_append mset_select_order)
  with assms(3) have "v \<in> set w" by simp
  with assms(2) sorted_select_order [of us] show ?thesis by (auto simp: w sorted_wrt_append)
qed

section \<open>Pricing\<close>

text \<open>An unconfirmed parent is charged once, however many of its outputs are spent.\<close>

lemma cpfp_surcharge_sum:
  assumes "\<And>u. u \<in> set us \<Longrightarrow> \<not> u_confirmed u \<Longrightarrow> u_ancestor_deficit u = d (u_txid u)"
  shows "cpfp_surcharge us = (\<Sum>t\<in>set (map u_txid (filter (\<lambda>u. \<not> u_confirmed u) us)). d t)"
proof -
  let ?kvs = "map (\<lambda>u. (u_txid u, u_ancestor_deficit u)) (filter (\<lambda>u. \<not> u_confirmed u) us)"
  have "the (map_of (rev ?kvs) k) = d k" if k: "k \<in> fst ` set ?kvs" for k
  proof -
    from k obtain v where "map_of (rev ?kvs) k = Some v"
      by (metis map_of_eq_None_iff not_Some_eq set_rev)
    moreover from this have "(k, v) \<in> set ?kvs" by (auto dest: map_of_SomeD)
    ultimately show ?thesis using assms by auto
  qed
  then have "cpfp_surcharge us = (\<Sum>k\<in>fst ` set ?kvs. d k)"
    unfolding cpfp_surcharge_def per_parent_def sum_dict_of by (rule sum.cong [OF refl])
  then show ?thesis by (simp add: image_image)
qed

lemma cpfp_surcharge_nonneg:
  assumes "\<And>u. u \<in> set us \<Longrightarrow> 0 \<le> u_ancestor_deficit u"
  shows "0 \<le> cpfp_surcharge us"
proof -
  let ?kvs = "map (\<lambda>u. (u_txid u, u_ancestor_deficit u)) (filter (\<lambda>u. \<not> u_confirmed u) us)"
  have "0 \<le> the (map_of (rev ?kvs) k)" if k: "k \<in> fst ` set ?kvs" for k
  proof -
    from k obtain v where "map_of (rev ?kvs) k = Some v"
      by (metis map_of_eq_None_iff not_Some_eq set_rev)
    moreover from this have "(k, v) \<in> set ?kvs" by (auto dest: map_of_SomeD)
    ultimately show ?thesis using assms by auto
  qed
  then show ?thesis
    unfolding cpfp_surcharge_def per_parent_def sum_dict_of by (rule sum_nonneg)
qed

definition coins_ok :: "utxo list \<Rightarrow> bool" where
  "coins_ok c \<longleftrightarrow> length c < 2 ^ 32 \<and> (\<forall>u\<in>set c. 0 \<le> u_ancestor_deficit u)"

lemma coins_ok_prefix: "coins_ok (c @ d) \<Longrightarrow> coins_ok c"
  by (auto simp: coins_ok_def)

lemma coins_ok_mset: "mset c = mset d \<Longrightarrow> coins_ok c \<longleftrightarrow> coins_ok d"
  unfolding coins_ok_def using mset_eq_setD mset_eq_length by metis

lemma coins_ok_surcharge: "coins_ok c \<Longrightarrow> 0 \<le> cpfp_surcharge c"
  by (auto simp: coins_ok_def intro: cpfp_surcharge_nonneg)

definition vbyte_sane :: "float64 \<Rightarrow> int \<Rightarrow> script_params \<Rightarrow> utxo list \<Rightarrow> bool" where
  "vbyte_sane rate memo_len script c \<longleftrightarrow>
     fl_nonneg rate \<and> 0 \<le> memo_len \<and> memo_len < 2 ^ 32
     \<and> 0 \<le> input_vb script \<and> input_vb script < 2 ^ 16
     \<and> 0 \<le> output_vb script \<and> output_vb script < 2 ^ 16 \<and> coins_ok c"

lemma estimate_vsize_mono:
  assumes "0 \<le> n" "n < 2 ^ 32" "0 \<le> memo_len" "memo_len < 2 ^ 32"
    "0 \<le> input_vb script" "input_vb script < 2 ^ 16"
    "0 \<le> output_vb script" "output_vb script < 2 ^ 16"
  shows "0 \<le> estimate_vsize n 1 memo_len script"
    "estimate_vsize n 1 memo_len script \<le> estimate_vsize n 2 memo_len script"
    "estimate_vsize n 2 memo_len script < 2 ^ 53"
proof -
  have "n * input_vb script \<le> 2 ^ 32 * 2 ^ 16" using assms by (intro mult_mono) auto
  moreover have "0 \<le> n * input_vb script" using assms by simp
  ultimately show "0 \<le> estimate_vsize n 1 memo_len script"
    "estimate_vsize n 1 memo_len script \<le> estimate_vsize n 2 memo_len script"
    "estimate_vsize n 2 memo_len script < 2 ^ 53"
    using assms by (auto simp: estimate_vsize_def TX_OVERHEAD_VB_def op_return_vb_def Let_def)
qed

interpretation vbytes: fee_model "vbyte_fee rate memo_len script" "vbyte_sane rate memo_len script"
  for rate memo_len script
proof
  fix c d :: "utxo list"
  show "vbyte_sane rate memo_len script (c @ d) \<Longrightarrow> vbyte_sane rate memo_len script c"
    using coins_ok_prefix by (auto simp: vbyte_sane_def)
  assume s: "vbyte_sane rate memo_len script c"
  then have n: "0 \<le> int (length c)" "int (length c) < 2 ^ 32"
    by (auto simp: vbyte_sane_def coins_ok_def)
  from s estimate_vsize_mono [OF n]
  have v: "0 \<le> estimate_vsize (int (length c)) 1 memo_len script"
    "estimate_vsize (int (length c)) 1 memo_len script
     \<le> estimate_vsize (int (length c)) 2 memo_len script"
    "estimate_vsize (int (length c)) 2 memo_len script < 2 ^ 53" "fl_nonneg rate"
    by (auto simp: vbyte_sane_def)
  show "0 \<le> vbyte_fee rate memo_len script c 1"
    using v s coins_ok_surcharge by (simp add: vbyte_fee_def vbyte_sane_def)
  show "vbyte_fee rate memo_len script c 1 \<le> vbyte_fee rate memo_len script c 2"
    unfolding vbyte_fee_def using fl_ceil_mul_mono [OF v] by simp
qed

text \<open>
  ZIP-317: on any transaction that could exist, the float quotients are exact ceilings.
\<close>

lemma zip317_fee_exact:
  assumes "0 \<le> n_in" "n_in < 2 ^ 32" "0 \<le> n_out" "n_out < 2 ^ 32" "0 \<le> memo_len" "memo_len < 2 ^ 32"
  shows "zip317_fee n_in n_out memo_len = 5000 * max 2 (max n_in
    (ceil_div (34 * n_out + (if memo_len = 0 then 0 else memo_len + 12)) 34))"
proof -
  have "fl_ceil (fl_div_int (n_in * 150) 150) = n_in"
    using assms by (subst fl_ceil_div_exact) auto
  moreover have "fl_ceil (fl_div_int b 34) = ceil_div b 34" if "0 \<le> b" "b < 2 ^ 44" for b
    using that by (simp add: fl_ceil_div_exact ceil_div_def)
  ultimately show ?thesis
    using assms
    by (simp add: zip317_fee_def ZIP317_MARGINAL_FEE_def ZIP317_GRACE_ACTIONS_def op_return_vb_def
        Let_def algebra_simps)
qed

lemma ceil_div_mono: "0 < b \<Longrightarrow> a \<le> c \<Longrightarrow> ceil_div a b \<le> ceil_div c b"
  by (simp add: ceil_div_def zdiv_mono1)

definition zip317_sane :: "int \<Rightarrow> utxo list \<Rightarrow> bool" where
  "zip317_sane memo_len c \<longleftrightarrow> 0 \<le> memo_len \<and> memo_len < 2 ^ 32 \<and> coins_ok c"

interpretation zip317: fee_model "zip317_model memo_len" "zip317_sane memo_len" for memo_len
proof
  fix c d :: "utxo list"
  show "zip317_sane memo_len (c @ d) \<Longrightarrow> zip317_sane memo_len c"
    using coins_ok_prefix by (auto simp: zip317_sane_def)
  assume s: "zip317_sane memo_len c"
  then have m: "0 \<le> memo_len" "memo_len < 2 ^ 32" "0 \<le> int (length c)" "int (length c) < 2 ^ 32"
    by (auto simp: zip317_sane_def coins_ok_def)
  show "0 \<le> zip317_model memo_len c 1"
    using s m coins_ok_surcharge by (simp add: zip317_model_def zip317_fee_exact zip317_sane_def)
  show "zip317_model memo_len c 1 \<le> zip317_model memo_len c 2"
    unfolding zip317_model_def zip317_fee_exact [OF m(3,4) _ _ m(1,2), of 1, simplified]
      zip317_fee_exact [OF m(3,4) _ _ m(1,2), of 2, simplified]
    by (intro add_right_mono mult_left_mono max.mono ceil_div_mono order_refl) auto
qed

section \<open>What the module promises\<close>

text \<open>
  C1: Whatever \<open>select_coins\<close> returns conserves value (inputs = amount + fee + change), never
  makes a change output below the script's dust limit, spends only coins of the wallet, and is
  greedy: every coin left behind ranks no better than every coin taken (so an unconfirmed coin
  is spent only once no confirmed one is left, and within a group the largest go first).
\<close>

theorem select_coins_sound:
  assumes "select_coins us amount rate memo_len script = Inr sel"
  shows "value_of (s_utxos sel) = amount + s_fee sel + s_change sel
    \<and> (s_change sel = 0 \<or> dust script \<le> s_change sel)
    \<and> mset (s_utxos sel) \<subseteq># mset us
    \<and> (\<forall>u\<in>set (s_utxos sel). \<forall>v\<in>#mset us - mset (s_utxos sel).
         (u_confirmed v, u_value v) \<le> (u_confirmed u, u_value u))"
proof -
  note sel = assms [unfolded select_coins_def]
  obtain w where "select_order us = s_utxos sel @ w" using select_core_sound(3) [OF sel] ..
  then have "mset us = mset (s_utxos sel) + mset w" by (metis mset_append mset_select_order)
  then show ?thesis
    using select_core_sound(1,2) [OF sel] select_core_greedy [OF sel] by simp
qed

definition example_coins :: "utxo list" where
  "example_coins =
    [\<lparr>u_txid = [97], u_vout = 0, u_value = 40000, u_address = [120], u_path = None,
      u_confirmed = False, u_ancestor_deficit = 200\<rparr>,
     \<lparr>u_txid = [98], u_vout = 1, u_value = 30000, u_address = [120], u_path = None,
      u_confirmed = True, u_ancestor_deficit = 0\<rparr>,
     \<lparr>u_txid = [97], u_vout = 2, u_value = 50000, u_address = [120], u_path = None,
      u_confirmed = False, u_ancestor_deficit = 200\<rparr>]"

lemma example_selection:
  "select_coins example_coins 60000 (Flt 5 0) 10 P2WPKH
   = Inr \<lparr>s_utxos = [example_coins ! 1, example_coins ! 2], s_fee = 1350, s_change = 18650\<rparr>"
  by code_simp

lemma select_coins_sound_witness:
  "value_of [example_coins ! 1, example_coins ! 2] = 60000 + 1350 + 18650"
  using select_coins_sound [OF example_selection] by simp

text \<open>
  C2: \<open>select_coins\<close> is exactly the search for the shortest prefix of the preference order that
  covers the amount and the fee of the no-change transaction: it fails precisely when no prefix
  does, and otherwise settles that prefix with a change output when the change is worth keeping
  and into the fee when it is not.
\<close>

theorem select_coins_finds:
  assumes "vbyte_sane rate memo_len script us" "0 \<le> dust script"
  shows "select_coins us amount rate memo_len script =
    (case find (affordable amount (vbyte_fee rate memo_len script))
            (tl (prefixes (select_order us))) of
       None \<Rightarrow> Inl (CannotFund (value_of (select_order us)) amount)
     | Some c \<Rightarrow> Inr (settle amount (dust script) (vbyte_fee rate memo_len script) c))"
proof -
  have "vbyte_sane rate memo_len script (select_order us)"
    using assms(1) coins_ok_mset [OF mset_select_order] by (simp add: vbyte_sane_def)
  then show ?thesis unfolding select_coins_def by (rule vbytes.select_finds [OF assms(2)])
qed

lemma select_coins_finds_witness:
  "select_coins example_coins 60000 (Flt 5 0) 10 P2WPKH =
    (case find (affordable 60000 (vbyte_fee (Flt 5 0) 10 P2WPKH))
            (tl (prefixes (select_order example_coins))) of
       None \<Rightarrow> Inl (CannotFund (value_of (select_order example_coins)) 60000)
     | Some c \<Rightarrow> Inr (settle 60000 (dust P2WPKH) (vbyte_fee (Flt 5 0) 10 P2WPKH) c))"
  by (rule select_coins_finds)
     (simp_all add: vbyte_sane_def coins_ok_def P2WPKH_def example_coins_def)

text \<open>
  A ZIP-317 selection pays at least the conventional fee of its own shape, at least 10000
  zatoshi in all, and no more than dust above the fee of the shape with change, on top of
  conserving value.
\<close>

theorem select_coins_zip317_fee:
  assumes "zip317_sane memo_len us" "0 < dst"
    and "select_coins_zip317 us amount memo_len dst = Inr sel"
  shows "value_of (s_utxos sel) = amount + s_fee sel + s_change sel
    \<and> (let n_out = if s_change sel = 0 then 1 else 2
        in zip317_fee (int (length (s_utxos sel))) n_out memo_len
           + cpfp_surcharge (s_utxos sel) \<le> s_fee sel)
    \<and> 10000 \<le> s_fee sel
    \<and> s_fee sel < zip317_model memo_len (s_utxos sel) 2 + dst"
proof -
  let ?fee = "zip317_model memo_len"
  have sane: "zip317_sane memo_len (select_order us)"
    using assms(1) coins_ok_mset [OF mset_select_order] by (simp add: zip317_sane_def)
  note core = assms(3) [unfolded select_coins_zip317_def]
  obtain c where find: "find (affordable amount ?fee) (tl (prefixes (select_order us))) = Some c"
    and sel: "sel = settle amount dst ?fee c"
    using zip317.select_finds [OF _ sane, of dst amount] core assms(2)
    by (auto split: option.splits)
  from find have aff: "affordable amount ?fee c" by (auto simp: find_Some_iff)
  have c: "s_utxos sel = c" by (simp add: sel settle_def Let_def)
  obtain w where "select_order us = c @ w" using select_core_sound(3) [OF core] c by auto
  then have sc: "zip317_sane memo_len c" using sane zip317.sane_prefix by metis
  note settled = zip317.settle_fee [OF sc aff assms(2), folded sel]
  have "10000 \<le> zip317_model memo_len c n" if "n = 1 \<or> n = 2" for n
    using sc coins_ok_surcharge [of c] that
    by (auto simp: zip317_model_def zip317_sane_def coins_ok_def zip317_fee_exact)
  from this [of 1] this [of 2] have "10000 \<le> s_fee sel"
    using settled(1) by (auto split: if_splits)
  moreover have "s_fee sel < ?fee c 2 + dst" using settled(2) assms(2) by linarith
  moreover have "(let n_out = if s_change sel = 0 then 1 else 2
      in zip317_fee (int (length c)) n_out memo_len + cpfp_surcharge c \<le> s_fee sel)"
    using settled(1) by (simp only: zip317_model_def Let_def)
  ultimately show ?thesis using select_core_sound(1) [OF core] unfolding c by blast
qed

lemma example_order:
  "select_order example_coins = [example_coins ! 1, example_coins ! 2, example_coins ! 0]"
  by code_simp

lemma example_surcharges:
  "cpfp_surcharge [example_coins ! 1] = 0"
  "cpfp_surcharge [example_coins ! 1, example_coins ! 2] = 200"
  "u_value (example_coins ! 1) = 30000" "u_value (example_coins ! 2) = 50000"
  by code_simp+

lemma select_coins_zip317_fee_witness:
  "\<exists>sel. select_coins_zip317 example_coins 60000 10 DUST_ZEC = Inr sel \<and> 10000 \<le> s_fee sel"
proof -
  have "select_coins_zip317 example_coins 60000 10 DUST_ZEC
    = Inr \<lparr>s_utxos = [example_coins ! 1, example_coins ! 2], s_fee = 15200, s_change = 4800\<rparr>"
    by (simp add: select_coins_zip317_def select_core_def example_order
        example_surcharges [simplified] zip317_model_def zip317_fee_exact ceil_div_def Let_def
        DUST_ZEC_def)
  moreover have "zip317_sane 10 example_coins" "0 < DUST_ZEC"
    by (simp_all add: zip317_sane_def coins_ok_def example_coins_def DUST_ZEC_def)
  ultimately show ?thesis using select_coins_zip317_fee by blast
qed

text \<open>
  The child-pays-for-parent surcharge counts every unconfirmed parent once, however many of
  its outputs are spent, and each parent's deficit is the least amount that lifts it: with it
  the parent pays the target rate, and one unit less would not (unless nothing was owed).
\<close>

theorem cpfp_surcharge_once:
  assumes "\<And>u. u \<in> set us \<Longrightarrow> \<not> u_confirmed u \<Longrightarrow>
    u_ancestor_deficit u = cpfp_deficit (pfee (u_txid u)) (pvsize (u_txid u)) rate"
  shows "cpfp_surcharge us =
      (\<Sum>t\<in>set (map u_txid (filter (\<lambda>u. \<not> u_confirmed u) us)). cpfp_deficit (pfee t) (pvsize t) rate)
    \<and> (\<forall>t. fl_ceil (fl_mul_int (pvsize t) rate) \<le> pfee t + cpfp_deficit (pfee t) (pvsize t) rate)
    \<and> (\<forall>t. cpfp_deficit (pfee t) (pvsize t) rate \<noteq> 0 \<longrightarrow>
         pfee t + cpfp_deficit (pfee t) (pvsize t) rate = fl_ceil (fl_mul_int (pvsize t) rate))"
  using cpfp_surcharge_sum [OF assms] by (auto simp: cpfp_deficit_def)

lemma cpfp_surcharge_once_witness:
  "cpfp_surcharge example_coins = cpfp_deficit 300 100 (Flt 5 0)"
proof -
  have d: "cpfp_deficit 300 100 (Flt 5 0) = 200" by code_simp
  have "u_ancestor_deficit u = cpfp_deficit 300 100 (Flt 5 0)"
    if "u \<in> set example_coins" "\<not> u_confirmed u" for u
    using that unfolding d by (auto simp: example_coins_def)
  from cpfp_surcharge_once [of example_coins "\<lambda>_. 300" "\<lambda>_. 100", OF this]
  show ?thesis by (simp add: example_coins_def)
qed

text \<open>
  The OP_RETURN codec: every payload of at most 80 bytes encodes, and decoding the script
  gives it back byte for byte (short pushes and \<open>OP_PUSHDATA1\<close> alike); a longer payload is
  refused with its length.
\<close>

theorem op_return_roundtrip:
  "bind_res (encode_op_return data) decode_op_return =
     (if length data \<le> 80 then Inr data else Inl (OpReturnTooLong (length data)))"
proof -
  have pd: "byte_of (length data) = byte_of OP_PUSHDATA1 \<longleftrightarrow> length data = OP_PUSHDATA1"
    if "length data \<le> 80"
  proof
    assume "byte_of (length data) = byte_of OP_PUSHDATA1"
    from arg_cong [OF this, of unat] that show "length data = OP_PUSHDATA1"
      by (simp add: OP_PUSHDATA1_def)
  qed simp
  show ?thesis
    using pd by (auto simp: encode_op_return_def decode_op_return_def slice_def
        OP_RETURN_MAX_BYTES_def OP_PUSHDATA1_def)
qed

text \<open>
  A sweep spends everything: amount plus fee is the tot, the amount is worth sending, and
  the fee is the whole price of the one-output transaction plus the surcharge; under either fee
  model it fails exactly when what is left after the fee is dust.
\<close>

theorem sweep_conserves:
  "(case sweep_amount tot n_in rate memo_len script extra of
      Inr (send, fee) \<Rightarrow> send + fee = tot \<and> dust script \<le> send
        \<and> fee = fl_ceil (fl_mul_int (estimate_vsize n_in 1 memo_len script) rate) + extra
    | Inl e \<Rightarrow> \<exists>fee. e = CannotSweep tot fee \<and> tot < fee + dust script)
   \<and> (case sweep_amount_zip317 tot n_in memo_len dst of
      Inr (send, fee) \<Rightarrow> send + fee = tot \<and> dst \<le> send \<and> fee = zip317_fee n_in 1 memo_len
    | Inl e \<Rightarrow> \<exists>fee. e = CannotSweep tot fee \<and> tot < fee + dst)"
  by (simp add: sweep_amount_def sweep_amount_zip317_def Let_def)

end
