(* ===== verification/Verify.thy ===== *)
theory Verify
  imports Coins
begin

text \<open>
  \<open>src/swapsack/verify.py\<close>, the pre-broadcast gate: the UTXO swap and send gates, the TRON and
  EVM gates and the memo check. A gate returns its list of problems, in the code's order; an
  f-string of the code is a constructor carrying the interpolated values. Addresses of outputs
  are \<open>pystr option\<close> (\<open>None\<close> for a data output), and the set of owned addresses a \<open>pystr set\<close>.
\<close>

section \<open>The code\<close>

definition memo_limit :: nat where
  "memo_limit = 80"

definition WEI_PER_THORCHAIN_UNIT :: int where
  "WEI_PER_THORCHAIN_UNIT = 10 ^ 10"

definition DEFAULT_MAX_FEE :: int where
  "DEFAULT_MAX_FEE = 50000"

datatype problem =
  QuoteExpired int int
| VaultOutputs pystr nat
| VaultAmount int int
| OpReturnOutputs nat
| MemoTooLong nat nat
| MemoBytesDiffer bytes bytes
| MemoNotUtf8
| MemoTextDiffers pystr pystr
| ChangeNotOwned "pystr option"
| MemoMissesDestination memo pystr
| NegativeFee int
| FeeTooHigh int int
| RecipientOutputs pystr nat
| RecipientAmount int int
| SendCarriesData
| WrongContractType pystr pystr
| WrongTarget pystr pystr
| WrongAmount int int
| WrongMemo pystr pystr
| WrongTrigger pystr pystr
| WrongTransferTo pystr pystr
| WrongTransferAmount int int
| CarriesValue int
| CarriesMemo pystr
| WrongValue int int
| WrongCalldata pystr pystr
| CarriesCalldata pystr
| WrongChainId int int
| WrongMessageType pystr
| WrongSender pystr pystr
| WrongDenom pystr pystr
| WrongAmountText pystr pystr
| WrongDeposits "(pystr \<times> pystr) list" pystr pystr
| WrongSigner

definition memo_pays_destination :: "pystr \<Rightarrow> memo \<Rightarrow> bool" where
  "memo_pays_destination destination m =
     (if destination = [] then True
      else
        case m of
          MemoBytes b \<Rightarrow> False
        | MemoText t \<Rightarrow>
            if py_in destination t then True
            else if prefix (lit ''0x'') (py_lower destination)
            then py_in (py_lower destination) (py_lower t)
            else False)"

record tx_output =
  o_address :: "pystr option"
  o_value :: int
  o_data :: "bytes option"

record swap_plan =
  sp_inbound :: pystr
  sp_amount :: int
  sp_memo :: memo
  sp_expiry :: int
  sp_destination :: pystr

definition expiry_check :: "int \<Rightarrow> int \<Rightarrow> problem list" where
  "expiry_check now expiry = (if expiry \<le> now then [QuoteExpired now expiry] else [])"

definition fee_check :: "int \<Rightarrow> int \<Rightarrow> problem list" where
  "fee_check fee max_fee =
     (if fee < 0 then [NegativeFee fee] else if max_fee < fee then [FeeTooHigh fee max_fee] else [])"

definition destination_check :: "pystr \<Rightarrow> memo \<Rightarrow> problem list" where
  "destination_check destination m =
     (if memo_pays_destination destination m then [] else [MemoMissesDestination m destination])"

text \<open>\<open>Exactly one output to the vault, for the exact amount\<close>; the send gate asks the same.\<close>

definition payment_check ::
  "tx_output list \<Rightarrow> pystr \<Rightarrow> int \<Rightarrow> (pystr \<Rightarrow> nat \<Rightarrow> problem) \<Rightarrow> (int \<Rightarrow> int \<Rightarrow> problem) \<Rightarrow> problem list"
where
  "payment_check outputs address amount wrong_count wrong_amount =
     (case filter (\<lambda>out. o_address out = Some address) outputs of
        [out] \<Rightarrow> if o_value out \<noteq> amount then [wrong_amount (o_value out) amount] else []
      | outs \<Rightarrow> [wrong_count address (length outs)])"

text \<open>The loop over the change outputs, shared by the swap and the send gate.\<close>

definition change_check :: "pystr \<Rightarrow> pystr set \<Rightarrow> tx_output list \<Rightarrow> problem list" where
  "change_check paid owned outputs =
     concat (map (\<lambda>out.
       if o_data out \<noteq> None \<or> o_address out = Some paid then []
       else if o_address out \<notin> Some ` owned then [ChangeNotOwned (o_address out)]
       else []) outputs)"

definition op_return_check :: "tx_output list \<Rightarrow> memo \<Rightarrow> nat \<Rightarrow> problem list" where
  "op_return_check outputs m memo_max_bytes =
     (case filter (\<lambda>out. o_data out \<noteq> None) outputs of
        [out] \<Rightarrow>
          (case o_data out of
             None \<Rightarrow> []
           | Some data \<Rightarrow>
               (if memo_max_bytes < length data then [MemoTooLong (length data) memo_max_bytes] else [])
               @ (case m of
                    MemoBytes b \<Rightarrow> if data \<noteq> b then [MemoBytesDiffer data b] else []
                  | MemoText t \<Rightarrow>
                      (case utf8_decode data of
                         None \<Rightarrow> [MemoNotUtf8]
                       | Some decoded \<Rightarrow> if decoded \<noteq> t then [MemoTextDiffers decoded t] else [])))
      | op_returns \<Rightarrow> [OpReturnOutputs (length op_returns)])"

definition verify_btc_swap ::
  "tx_output list \<Rightarrow> int \<Rightarrow> swap_plan \<Rightarrow> pystr set \<Rightarrow> int \<Rightarrow> int \<Rightarrow> nat \<Rightarrow> problem list" where
  "verify_btc_swap outputs fee plan owned_addresses now max_fee memo_max_bytes =
     expiry_check now (sp_expiry plan)
     @ payment_check outputs (sp_inbound plan) (sp_amount plan) VaultOutputs VaultAmount
     @ op_return_check outputs (sp_memo plan) memo_max_bytes
     @ change_check (sp_inbound plan) owned_addresses outputs
     @ destination_check (sp_destination plan) (sp_memo plan)
     @ fee_check fee max_fee"

record send_plan =
  snd_recipient :: pystr
  snd_amount :: int

definition verify_btc_send ::
  "tx_output list \<Rightarrow> int \<Rightarrow> send_plan \<Rightarrow> pystr set \<Rightarrow> int \<Rightarrow> problem list" where
  "verify_btc_send outputs fee plan owned_addresses max_fee =
     payment_check outputs (snd_recipient plan) (snd_amount plan) RecipientOutputs RecipientAmount
     @ (if list_ex (\<lambda>out. o_data out \<noteq> None) outputs then [SendCarriesData] else [])
     @ change_check (snd_recipient plan) owned_addresses outputs
     @ fee_check fee max_fee"

text \<open>TRON: the native coin and TRC-20 tokens.\<close>

record tron_swap_plan =
  tsp_inbound :: pystr
  tsp_amount_sun :: int
  tsp_memo :: pystr
  tsp_expiry :: int
  tsp_destination :: pystr

definition verify_tron_swap ::
  "pystr \<Rightarrow> pystr \<Rightarrow> int \<Rightarrow> pystr \<Rightarrow> tron_swap_plan \<Rightarrow> int \<Rightarrow> problem list" where
  "verify_tron_swap contract_type to_address amount_sun m plan now =
     expiry_check now (tsp_expiry plan)
     @ (if contract_type \<noteq> lit ''TransferContract''
        then [WrongContractType contract_type (lit ''TransferContract'')] else [])
     @ (if to_address \<noteq> tsp_inbound plan then [WrongTarget to_address (tsp_inbound plan)] else [])
     @ (if amount_sun \<noteq> tsp_amount_sun plan then [WrongAmount amount_sun (tsp_amount_sun plan)] else [])
     @ (if m \<noteq> tsp_memo plan then [WrongMemo m (tsp_memo plan)] else [])
     @ destination_check (tsp_destination plan) (MemoText (tsp_memo plan))"

record tron_token_swap_plan =
  ttp_inbound :: pystr
  ttp_token :: pystr
  ttp_amount :: int
  ttp_memo :: pystr
  ttp_expiry :: int
  ttp_destination :: pystr

definition verify_tron_token_swap ::
  "pystr \<Rightarrow> pystr \<Rightarrow> pystr \<Rightarrow> int \<Rightarrow> int \<Rightarrow> pystr \<Rightarrow> tron_token_swap_plan \<Rightarrow> int \<Rightarrow> problem list" where
  "verify_tron_token_swap contract_type trigger_to recipient transfer_amount trx_value m plan now =
     expiry_check now (ttp_expiry plan)
     @ (if contract_type \<noteq> lit ''TriggerSmartContract''
        then [WrongContractType contract_type (lit ''TriggerSmartContract'')] else [])
     @ (if trigger_to \<noteq> ttp_token plan then [WrongTrigger trigger_to (ttp_token plan)] else [])
     @ (if recipient \<noteq> ttp_inbound plan then [WrongTransferTo recipient (ttp_inbound plan)] else [])
     @ (if transfer_amount \<noteq> ttp_amount plan
        then [WrongTransferAmount transfer_amount (ttp_amount plan)] else [])
     @ (if trx_value \<noteq> 0 then [CarriesValue trx_value] else [])
     @ (if m \<noteq> ttp_memo plan then [WrongMemo m (ttp_memo plan)] else [])
     @ destination_check (ttp_destination plan) (MemoText (ttp_memo plan))"

record tron_send_plan =
  tsn_recipient :: pystr
  tsn_amount_sun :: int

definition verify_tron_send ::
  "pystr \<Rightarrow> pystr \<Rightarrow> int \<Rightarrow> pystr \<Rightarrow> tron_send_plan \<Rightarrow> problem list" where
  "verify_tron_send contract_type to_address amount_sun m plan =
     (if contract_type \<noteq> lit ''TransferContract''
      then [WrongContractType contract_type (lit ''TransferContract'')] else [])
     @ (if to_address \<noteq> tsn_recipient plan then [WrongTarget to_address (tsn_recipient plan)] else [])
     @ (if amount_sun \<noteq> tsn_amount_sun plan then [WrongAmount amount_sun (tsn_amount_sun plan)] else [])
     @ (if m \<noteq> [] then [CarriesMemo m] else [])"

record tron_token_send_plan =
  tts_token :: pystr
  tts_recipient :: pystr
  tts_amount :: int

definition verify_tron_token_send ::
  "pystr \<Rightarrow> pystr \<Rightarrow> pystr \<Rightarrow> int \<Rightarrow> int \<Rightarrow> pystr \<Rightarrow> tron_token_send_plan \<Rightarrow> problem list" where
  "verify_tron_token_send contract_type trigger_to recipient transfer_amount trx_value m plan =
     (if contract_type \<noteq> lit ''TriggerSmartContract''
      then [WrongContractType contract_type (lit ''TriggerSmartContract'')] else [])
     @ (if trigger_to \<noteq> tts_token plan then [WrongTrigger trigger_to (tts_token plan)] else [])
     @ (if recipient \<noteq> tts_recipient plan then [WrongTransferTo recipient (tts_recipient plan)] else [])
     @ (if transfer_amount \<noteq> tts_amount plan
        then [WrongTransferAmount transfer_amount (tts_amount plan)] else [])
     @ (if trx_value \<noteq> 0 then [CarriesValue trx_value] else [])
     @ (if m \<noteq> [] then [CarriesMemo m] else [])"

text \<open>
  EVM: \<open>to\<close> and \<open>data\<close> are strings of the built transaction; \<open>(to or "")\<close> is the string itself.
\<close>

record eth_swap_plan =
  esp_inbound :: pystr
  esp_amount_wei :: int
  esp_memo :: pystr
  esp_expiry :: int
  esp_chain_id :: int
  esp_destination :: pystr

definition gas_check :: "int \<Rightarrow> int \<Rightarrow> int \<Rightarrow> problem list" where
  "gas_check gas max_fee_per_gas max_fee_wei =
     (let total_fee = gas * max_fee_per_gas
      in if max_fee_wei < total_fee then [FeeTooHigh total_fee max_fee_wei] else [])"

definition verify_eth_swap ::
  "pystr \<Rightarrow> int \<Rightarrow> pystr \<Rightarrow> int \<Rightarrow> int \<Rightarrow> int \<Rightarrow> eth_swap_plan \<Rightarrow> int \<Rightarrow> int \<Rightarrow> problem list" where
  "verify_eth_swap dest val data chain_id gas max_fee_per_gas plan now max_fee_wei =
     expiry_check now (esp_expiry plan)
     @ (if py_lower dest \<noteq> py_lower (esp_inbound plan) then [WrongTarget dest (esp_inbound plan)] else [])
     @ (if val \<noteq> esp_amount_wei plan then [WrongValue val (esp_amount_wei plan)] else [])
     @ (let expected_data = lit ''0x'' @ py_hex (utf8_encode (esp_memo plan))
        in if py_lower data \<noteq> py_lower expected_data then [WrongCalldata data expected_data] else [])
     @ (if chain_id \<noteq> esp_chain_id plan then [WrongChainId chain_id (esp_chain_id plan)] else [])
     @ destination_check (esp_destination plan) (MemoText (esp_memo plan))
     @ gas_check gas max_fee_per_gas max_fee_wei"

record eth_send_plan =
  esn_recipient :: pystr
  esn_amount_wei :: int
  esn_chain_id :: int

definition verify_eth_send ::
  "pystr \<Rightarrow> int \<Rightarrow> pystr \<Rightarrow> int \<Rightarrow> int \<Rightarrow> int \<Rightarrow> eth_send_plan \<Rightarrow> int \<Rightarrow> problem list" where
  "verify_eth_send dest val data chain_id gas max_fee_per_gas plan max_fee_wei =
     (if py_lower dest \<noteq> py_lower (esn_recipient plan) then [WrongTarget dest (esn_recipient plan)] else [])
     @ (if val \<noteq> esn_amount_wei plan then [WrongValue val (esn_amount_wei plan)] else [])
     @ (if (if data = [] then lit ''0x'' else data) \<notin> {lit ''0x'', []} then [CarriesCalldata data] else [])
     @ (if chain_id \<noteq> esn_chain_id plan then [WrongChainId chain_id (esn_chain_id plan)] else [])
     @ gas_check gas max_fee_per_gas max_fee_wei"

record eth_token_send_plan =
  ets_token :: pystr
  ets_recipient :: pystr
  ets_amount :: int
  ets_chain_id :: int

definition verify_eth_token_send ::
  "pystr \<Rightarrow> int \<Rightarrow> int \<Rightarrow> pystr \<Rightarrow> int \<Rightarrow> int \<Rightarrow> int \<Rightarrow> eth_token_send_plan \<Rightarrow> int \<Rightarrow> problem list" where
  "verify_eth_token_send dest val chain_id recipient transfer_amount gas max_fee_per_gas plan max_fee_wei =
     (if py_lower dest \<noteq> py_lower (ets_token plan) then [WrongTrigger dest (ets_token plan)] else [])
     @ (if val \<noteq> 0 then [CarriesValue val] else [])
     @ (if py_lower recipient \<noteq> py_lower (ets_recipient plan)
        then [WrongTransferTo recipient (ets_recipient plan)] else [])
     @ (if transfer_amount \<noteq> ets_amount plan
        then [WrongTransferAmount transfer_amount (ets_amount plan)] else [])
     @ (if chain_id \<noteq> ets_chain_id plan then [WrongChainId chain_id (ets_chain_id plan)] else [])
     @ gas_check gas max_fee_per_gas max_fee_wei"

section \<open>When a check is silent\<close>

named_theorems gate_simps

lemma expiry_check_silent [gate_simps]: "expiry_check now expiry = [] \<longleftrightarrow> now < expiry"
  by (auto simp: expiry_check_def)

lemma fee_check_silent [gate_simps]: "fee_check fee max_fee = [] \<longleftrightarrow> 0 \<le> fee \<and> fee \<le> max_fee"
  by (auto simp: fee_check_def)

lemma destination_check_silent [gate_simps]:
  "destination_check destination m = [] \<longleftrightarrow> memo_pays_destination destination m"
  by (auto simp: destination_check_def)

lemma gas_check_silent [gate_simps]:
  "gas_check gas max_fee_per_gas max_fee_wei = [] \<longleftrightarrow> gas * max_fee_per_gas \<le> max_fee_wei"
  by (auto simp: gas_check_def Let_def)

lemma if_problem_silent [gate_simps]: "(if b then [p] else []) = [] \<longleftrightarrow> \<not> b"
  by simp

lemma concat_if_silent [gate_simps]:
  "concat (map (\<lambda>x. if P x then [f x] else []) xs) = [] \<longleftrightarrow> list_all (\<lambda>x. \<not> P x) xs"
  by (induction xs) auto

lemma change_check_silent [gate_simps]:
  "change_check paid owned outputs = [] \<longleftrightarrow>
   (\<forall>out\<in>set outputs. o_data out \<noteq> None \<or> o_address out = Some paid \<or> o_address out \<in> Some ` owned)"
  by (induction outputs) (auto simp: change_check_def)

text \<open>What it means that data spells a memo.\<close>

definition spells :: "bytes \<Rightarrow> memo \<Rightarrow> bool" where
  "spells data m =
     (case m of MemoBytes b \<Rightarrow> data = b | MemoText t \<Rightarrow> unicode_text t \<and> data = utf8_encode t)"

lemma spells_memo_bytes: "spells data m \<Longrightarrow> data = memo_bytes (Some m)"
  by (cases m) (auto simp: spells_def)

lemma op_return_check_silent [gate_simps]:
  "op_return_check outputs m mx = [] \<longleftrightarrow>
   (\<exists>out data. filter (\<lambda>out. o_data out \<noteq> None) outputs = [out] \<and> o_data out = Some data
      \<and> length data \<le> mx \<and> spells data m)"
proof (cases "filter (\<lambda>out. o_data out \<noteq> None) outputs")
  case Nil
  then show ?thesis by (simp add: op_return_check_def)
next
  case (Cons out outs)
  show ?thesis
  proof (cases outs)
    case Nil
    have "out \<in> set (filter (\<lambda>out. o_data out \<noteq> None) outputs)" using Cons by simp
    then obtain data where d: "o_data out = Some data" by auto
    show ?thesis
    proof (cases m)
      case (MemoText t)
      then show ?thesis
        using utf8_decode_iff [of data t] Cons Nil d
        by (auto simp: op_return_check_def spells_def split: option.splits)
    next
      case (MemoBytes b)
      then show ?thesis
        using Cons Nil d by (auto simp: op_return_check_def spells_def)
    qed
  next
    case (Cons out' outs')
    then show ?thesis using \<open>filter _ outputs = out # outs\<close> by (simp add: op_return_check_def)
  qed
qed

lemma payment_check_silent [gate_simps]:
  "payment_check outputs address amount wc wa = [] \<longleftrightarrow>
   (\<exists>out. filter (\<lambda>out. o_address out = Some address) outputs = [out] \<and> o_value out = amount)"
  by (auto simp: payment_check_def split: list.splits)

section \<open>The UTXO gates\<close>

lemma btc_swap_gate:
  "verify_btc_swap outputs fee plan owned now max_fee mx = [] \<longleftrightarrow>
     now < sp_expiry plan
   \<and> (\<exists>out. filter (\<lambda>out. o_address out = Some (sp_inbound plan)) outputs = [out]
        \<and> o_value out = sp_amount plan)
   \<and> (\<exists>out data. filter (\<lambda>out. o_data out \<noteq> None) outputs = [out] \<and> o_data out = Some data
        \<and> length data \<le> mx \<and> spells data (sp_memo plan))
   \<and> list_all (\<lambda>out. o_data out \<noteq> None \<or> o_address out = Some (sp_inbound plan)
        \<or> o_address out \<in> Some ` owned) outputs
   \<and> memo_pays_destination (sp_destination plan) (sp_memo plan)
   \<and> 0 \<le> fee \<and> fee \<le> max_fee"
  unfolding verify_btc_swap_def append_is_Nil_conv
  by (simp add: gate_simps list_all_iff)

text \<open>
  C4: The Bitcoin swap gate is silent exactly when the transaction is the intended swap: the
  quote has not expired; one output pays the vault, for the exact amount; one output carries
  data, within the limit, and it spells exactly the quoted memo; every other output pays an
  address of ours; the memo names our destination; and the fee is between zero and the cap.
\<close>

theorem verify_btc_swap_safe:
  "verify_btc_swap outputs fee plan owned now max_fee mx = [] \<longleftrightarrow>
     now < sp_expiry plan
   \<and> (\<exists>out. filter (\<lambda>out. o_address out = Some (sp_inbound plan)) outputs = [out]
        \<and> o_value out = sp_amount plan)
   \<and> (\<exists>out data. filter (\<lambda>out. o_data out \<noteq> None) outputs = [out] \<and> o_data out = Some data
        \<and> length data \<le> mx \<and> spells data (sp_memo plan))
   \<and> list_all (\<lambda>out. o_address out \<in> Some ` owned)
        (filter (\<lambda>out. o_data out = None \<and> o_address out \<noteq> Some (sp_inbound plan)) outputs)
   \<and> memo_pays_destination (sp_destination plan) (sp_memo plan)
   \<and> 0 \<le> fee \<and> fee \<le> max_fee"
  unfolding btc_swap_gate by (auto simp: list_all_iff)

lemma filter_sum_split:
  fixes f :: "'a \<Rightarrow> int"
  shows "sum_list (map f xs)
    = sum_list (map f (filter P xs)) + sum_list (map f (filter (\<lambda>x. \<not> P x) xs))"
  by (induction xs) auto

definition paid_to :: "(pystr option \<Rightarrow> bool) \<Rightarrow> tx_output list \<Rightarrow> int" where
  "paid_to P outputs = sum_list (map o_value (filter (\<lambda>out. P (o_address out)) outputs))"

text \<open>
  Accounting of a swap that passed. When outputs with an address carry no data and the vault
  is not an address of ours, the outputs' total is the vault amount, plus what returns to our
  own addresses, plus the value of the one data output: nothing else can be paid. (The data
  output's own value is not bound by the gate.)
\<close>

theorem verify_btc_swap_accounts:
  assumes "verify_btc_swap outputs fee plan owned now max_fee mx = []"
    and "list_all (\<lambda>out. o_data out = None \<longleftrightarrow> o_address out \<noteq> None) outputs"
    and "sp_inbound plan \<notin> owned"
  shows "sum_list (map o_value outputs)
    = sp_amount plan + paid_to (\<lambda>a. a \<in> Some ` owned) outputs + paid_to (\<lambda>a. a = None) outputs"
proof -
  let ?v = "\<lambda>out. o_address out = Some (sp_inbound plan)"
  let ?rest = "filter (\<lambda>out. \<not> ?v out) outputs"
  note gate = assms(1) [unfolded btc_swap_gate]
  have vault: "sum_list (map o_value (filter ?v outputs)) = sp_amount plan" using gate by auto
  have none: "o_address out = None"
    if "out \<in> set outputs" "\<not> ?v out" "o_address out \<notin> Some ` owned" for out
  proof -
    have "o_data out \<noteq> None \<or> ?v out \<or> o_address out \<in> Some ` owned"
      using gate that(1) unfolding list_all_iff by blast
    moreover have "o_data out = None \<longleftrightarrow> o_address out \<noteq> None"
      using assms(2) that(1) unfolding list_all_iff by blast
    ultimately show ?thesis using that(2,3) by argo
  qed
  have "filter (\<lambda>out. o_address out \<in> Some ` owned) ?rest
      = filter (\<lambda>out. o_address out \<in> Some ` owned) outputs"
    using assms(3) by (auto simp: filter_filter intro!: filter_cong)
  moreover have "filter (\<lambda>out. o_address out \<notin> Some ` owned) ?rest
      = filter (\<lambda>out. o_address out = None) outputs"
    using none by (auto intro!: filter_cong)
  ultimately have "sum_list (map o_value ?rest)
      = paid_to (\<lambda>a. a \<in> Some ` owned) outputs + paid_to (\<lambda>a. a = None) outputs"
    unfolding paid_to_def
    by (subst filter_sum_split [of _ _ "\<lambda>out. o_address out \<in> Some ` owned"]) simp
  then show ?thesis
    using vault filter_sum_split [of o_value outputs ?v] by simp
qed

definition ex_vault_out :: tx_output where
  "ex_vault_out = \<lparr>o_address = Some (lit ''vault''), o_value = 5000, o_data = None\<rparr>"

definition ex_memo_out :: tx_output where
  "ex_memo_out = \<lparr>o_address = None, o_value = 0, o_data = Some (utf8_encode (lit ''=:ETH.ETH:me''))\<rparr>"

definition ex_change_out :: tx_output where
  "ex_change_out = \<lparr>o_address = Some (lit ''mine''), o_value = 900, o_data = None\<rparr>"

definition ex_swap_plan :: swap_plan where
  "ex_swap_plan = \<lparr>sp_inbound = lit ''vault'', sp_amount = 5000,
     sp_memo = MemoText (lit ''=:ETH.ETH:me''), sp_expiry = 200, sp_destination = lit ''me''\<rparr>"

lemma ex_swap_passes:
  "verify_btc_swap [ex_vault_out, ex_memo_out, ex_change_out] 100 ex_swap_plan {lit ''mine''} 150 500 80
   = []"
  by code_simp

lemma verify_btc_swap_accounts_witness:
  "5000 + 0 + 900 = 5000 + paid_to (\<lambda>a. a \<in> Some ` {lit ''mine''})
      [ex_vault_out, ex_memo_out, ex_change_out]
    + paid_to (\<lambda>a. a = None) [ex_vault_out, ex_memo_out, ex_change_out]"
  using verify_btc_swap_accounts [OF ex_swap_passes]
  by (simp add: ex_vault_out_def ex_memo_out_def ex_change_out_def ex_swap_plan_def lit_def)

text \<open>
  The plain send gate is silent exactly when one output pays the recipient the exact amount,
  no output carries data, every other output is ours and the fee is within the cap; and then
  everything that is not the recipient's is paid back to us.
\<close>

theorem verify_btc_send_safe:
  "(verify_btc_send outputs fee plan owned max_fee = [] \<longleftrightarrow>
      (\<exists>out. filter (\<lambda>out. o_address out = Some (snd_recipient plan)) outputs = [out]
         \<and> o_value out = snd_amount plan)
    \<and> list_all (\<lambda>out. o_data out = None) outputs
    \<and> list_all (\<lambda>out. o_address out = Some (snd_recipient plan)
         \<or> o_address out \<in> Some ` owned) outputs
    \<and> 0 \<le> fee \<and> fee \<le> max_fee)
   \<and> (verify_btc_send outputs fee plan owned max_fee = [] \<longrightarrow>
      sum_list (map o_value outputs) = snd_amount plan
        + sum_list (map o_value (filter (\<lambda>out. o_address out \<in> Some ` owned
             \<and> o_address out \<noteq> Some (snd_recipient plan)) outputs)))"
proof -
  let ?v = "\<lambda>out. o_address out = Some (snd_recipient plan)"
  have safe: "verify_btc_send outputs fee plan owned max_fee = [] \<longleftrightarrow>
      (\<exists>out. filter ?v outputs = [out] \<and> o_value out = snd_amount plan)
    \<and> list_all (\<lambda>out. o_data out = None) outputs
    \<and> list_all (\<lambda>out. ?v out \<or> o_address out \<in> Some ` owned) outputs \<and> 0 \<le> fee \<and> fee \<le> max_fee"
    unfolding verify_btc_send_def append_is_Nil_conv
    by (auto simp: gate_simps list_all_iff list_ex_iff)
  moreover have "sum_list (map o_value outputs) = snd_amount plan
        + sum_list (map o_value (filter (\<lambda>out. o_address out \<in> Some ` owned \<and> \<not> ?v out) outputs))"
    if "verify_btc_send outputs fee plan owned max_fee = []"
  proof -
    have "filter (\<lambda>out. \<not> ?v out) outputs
        = filter (\<lambda>out. o_address out \<in> Some ` owned \<and> \<not> ?v out) outputs"
      using that [unfolded safe] by (auto simp: list_all_iff intro!: filter_cong)
    then show ?thesis
      using that [unfolded safe] filter_sum_split [of o_value outputs ?v] by auto
  qed
  ultimately show ?thesis by blast
qed

lemma verify_btc_send_safe_witness:
  "sum_list (map o_value [ex_vault_out, ex_change_out]) = 5000 + 900"
proof -
  let ?p = "\<lparr>snd_recipient = lit ''vault'', snd_amount = 5000\<rparr>"
  have "verify_btc_send [ex_vault_out, ex_change_out] 100 ?p {lit ''mine''} 500 = []" by code_simp
  with verify_btc_send_safe [of "[ex_vault_out, ex_change_out]" 100 ?p "{lit ''mine''}" 500]
  show ?thesis by (simp add: ex_vault_out_def ex_change_out_def lit_def)
qed

section \<open>The account-chain gates\<close>

lemma py_lower_hex [simp]: "py_lower (py_hex bs) = py_hex bs"
  by (induction bs) (auto simp: py_hex_def py_lower_def lower_cp_def hex_digit_def)

lemma py_lower_0x [simp]: "py_lower (lit ''0x'') = lit ''0x''"
  by (simp add: py_lower_def lower_cp_def lit_def)

lemma verify_eth_swap_silent:
  "verify_eth_swap dest val data chain_id gas max_fee_per_gas plan now max_fee_wei = [] \<longleftrightarrow>
     now < esp_expiry plan \<and> py_lower dest = py_lower (esp_inbound plan) \<and> val = esp_amount_wei plan
   \<and> py_lower data = lit ''0x'' @ py_hex (utf8_encode (esp_memo plan))
   \<and> chain_id = esp_chain_id plan
   \<and> memo_pays_destination (esp_destination plan) (MemoText (esp_memo plan))
   \<and> gas * max_fee_per_gas \<le> max_fee_wei"
  unfolding verify_eth_swap_def append_is_Nil_conv gate_simps Let_def by simp

text \<open>
  One transaction, one intention. If the Ethereum swap gate passes the same transaction for
  two plans whose memos are Unicode text, the plans agree on the vault (up to letter case), the
  amount, the chain and the memo, character for character; and the fee cap holds.
\<close>

theorem verify_eth_swap_binds:
  assumes "verify_eth_swap dest val data chain_id gas max_fee_per_gas plan now max_fee_wei = []"
    and "verify_eth_swap dest val data chain_id gas max_fee_per_gas plan' now' max_fee_wei' = []"
    and "unicode_text (esp_memo plan)" "unicode_text (esp_memo plan')"
  shows "esp_memo plan = esp_memo plan' \<and> py_lower (esp_inbound plan) = py_lower (esp_inbound plan')
    \<and> esp_amount_wei plan = esp_amount_wei plan' \<and> esp_chain_id plan = esp_chain_id plan'
    \<and> now < esp_expiry plan \<and> gas * max_fee_per_gas \<le> max_fee_wei
    \<and> memo_pays_destination (esp_destination plan) (MemoText (esp_memo plan'))"
proof -
  note p = assms(1) [unfolded verify_eth_swap_silent] and q = assms(2) [unfolded verify_eth_swap_silent]
  have "lit ''0x'' @ py_hex (utf8_encode (esp_memo plan))
      = lit ''0x'' @ py_hex (utf8_encode (esp_memo plan'))"
    using p q by argo
  then have memo: "esp_memo plan = esp_memo plan'"
    using assms(3,4) by (simp only: same_append_eq py_hex_inject utf8_encode_inject)
  show ?thesis unfolding memo [symmetric] using p q by auto
qed

definition ex_eth_plan :: eth_swap_plan where
  "ex_eth_plan = \<lparr>esp_inbound = lit ''0xAb'', esp_amount_wei = 7, esp_memo = lit ''=:b:me'',
     esp_expiry = 200, esp_chain_id = 1, esp_destination = lit ''me''\<rparr>"

lemma verify_eth_swap_binds_witness:
  "esp_amount_wei ex_eth_plan = esp_amount_wei ex_eth_plan \<and> 100 < esp_expiry ex_eth_plan
   \<and> memo_pays_destination (lit ''me'') (MemoText (lit ''=:b:me''))"
proof -
  have "verify_eth_swap (lit ''0xab'') 7 (lit ''0x3d3a623a6d65'') 1 21000 10 ex_eth_plan 100 300000 = []"
    by code_simp
  moreover have "unicode_text (esp_memo ex_eth_plan)"
    by (simp add: ex_eth_plan_def lit_def unicode_text_def unicode_scalar_def)
  ultimately show ?thesis
    using verify_eth_swap_binds [of "lit ''0xab''" 7 "lit ''0x3d3a623a6d65''" 1 21000 10 ex_eth_plan
        100 300000 ex_eth_plan 100 300000]
    by (simp add: ex_eth_plan_def)
qed

text \<open>
  The four account-chain send gates (native EVM, ERC-20, native TRX, TRC-20) are silent
  exactly when the built transaction is the intended plain payment: the recipient, the amount,
  the contract and the chain are the plan's, nothing rides along (no calldata, no memo, no
  native value beside a token) and the fee is within the cap.
\<close>

theorem verify_sends_safe:
  "(verify_eth_send dest val data chain_id gas mfpg ep max_fee_wei = [] \<longleftrightarrow>
      py_lower dest = py_lower (esn_recipient ep) \<and> val = esn_amount_wei ep
    \<and> data \<in> {[], lit ''0x''} \<and> chain_id = esn_chain_id ep \<and> gas * mfpg \<le> max_fee_wei)
   \<and> (verify_eth_token_send dest val chain_id recipient amount gas mfpg etp max_fee_wei = [] \<longleftrightarrow>
      py_lower dest = py_lower (ets_token etp) \<and> val = 0
    \<and> py_lower recipient = py_lower (ets_recipient etp) \<and> amount = ets_amount etp
    \<and> chain_id = ets_chain_id etp \<and> gas * mfpg \<le> max_fee_wei)
   \<and> (verify_tron_send ctype dest amount m tp = [] \<longleftrightarrow>
      ctype = lit ''TransferContract'' \<and> dest = tsn_recipient tp \<and> amount = tsn_amount_sun tp \<and> m = [])
   \<and> (verify_tron_token_send ctype dest recipient amount val m ttp = [] \<longleftrightarrow>
      ctype = lit ''TriggerSmartContract'' \<and> dest = tts_token ttp \<and> recipient = tts_recipient ttp
    \<and> amount = tts_amount ttp \<and> val = 0 \<and> m = [])"
  unfolding verify_eth_send_def verify_eth_token_send_def verify_tron_send_def
    verify_tron_token_send_def append_is_Nil_conv gate_simps
  by auto

text \<open>
  The two TRON deposit gates are silent exactly when the transaction is the intended deposit:
  unexpired, of the right contract type, to the vault (through the token's own contract, with no
  TRX beside it), for the exact amount, with exactly the quoted memo, which names the
  destination.
\<close>

theorem verify_tron_deposits_safe:
  "(verify_tron_swap ctype dest amount m p now = [] \<longleftrightarrow>
      now < tsp_expiry p \<and> ctype = lit ''TransferContract'' \<and> dest = tsp_inbound p
    \<and> amount = tsp_amount_sun p \<and> m = tsp_memo p
    \<and> memo_pays_destination (tsp_destination p) (MemoText m))
   \<and> (verify_tron_token_swap ctype dest recipient amount val m q now = [] \<longleftrightarrow>
      now < ttp_expiry q \<and> ctype = lit ''TriggerSmartContract'' \<and> dest = ttp_token q
    \<and> recipient = ttp_inbound q \<and> amount = ttp_amount q \<and> val = 0 \<and> m = ttp_memo q
    \<and> memo_pays_destination (ttp_destination q) (MemoText m))"
  unfolding verify_tron_swap_def verify_tron_token_swap_def append_is_Nil_conv gate_simps
  by auto

text \<open>
  What the memo check accepts: no destination, or a text memo that contains the destination
  as written, or one that starts with \<open>0x\<close> in any letter case; a binary memo never pays a
  destination, and the check is monotone: extending an accepted memo keeps it accepted.
\<close>

theorem memo_pays_destination_iff:
  "(memo_pays_destination destination m \<longleftrightarrow>
      destination = [] \<or> (\<exists>t. m = MemoText t \<and>
        (sublist destination t
         \<or> prefix (lit ''0x'') (py_lower destination) \<and> sublist (py_lower destination) (py_lower t))))
   \<and> \<not> memo_pays_destination (c # cs) (MemoBytes b)
   \<and> (memo_pays_destination destination (MemoText t)
      \<longrightarrow> memo_pays_destination destination (MemoText (pre @ t @ post)))"
proof -
  have ext: "sublist d (u @ t @ v)" if s: "sublist d t" for d t u v :: pystr
  proof -
    obtain a b where "t = a @ d @ b" using s by (auto simp: sublist_def)
    then have "u @ t @ v = (u @ a) @ d @ (b @ v)" by simp
    then show ?thesis unfolding sublist_def by blast
  qed
  have iff: "memo_pays_destination destination m \<longleftrightarrow>
      destination = [] \<or> (\<exists>t. m = MemoText t \<and>
        (sublist destination t
         \<or> prefix (lit ''0x'') (py_lower destination) \<and> sublist (py_lower destination) (py_lower t)))"
    for destination m
    by (cases m) (auto simp: memo_pays_destination_def py_in_def)
  show ?thesis
    unfolding iff using ext [of destination t pre post]
      ext [of "py_lower destination" "py_lower t" "py_lower pre" "py_lower post"]
    by auto
qed

lemma memo_pays_destination_iff_witness:
  "memo_pays_destination (lit ''0xAB'') (MemoText (lit ''=:'' @ lit ''ETH:0xab'' @ lit '':1''))"
proof -
  have "memo_pays_destination (lit ''0xAB'') (MemoText (lit ''ETH:0xab''))" by code_simp
  then show ?thesis
    using memo_pays_destination_iff [of "lit ''0xAB''" _ 0 "[]" "[]" "lit ''ETH:0xab''" "lit ''=:''" "lit '':1''"]
    by blast
qed

end
