(* ===== verification/VaultSwap.thy ===== *)
theory VaultSwap
  imports Verify
begin

text \<open>
  The Chainflip half of \<open>src/swapsack/verify.py\<close> for a Bitcoin source: the 48-byte vault-swap
  payload, its decoder, and the gate that reads it back before a deposit is signed.
\<close>

section \<open>The code\<close>

definition VAULT_SWAP_PAYLOAD_BYTES :: nat where
  "VAULT_SWAP_PAYLOAD_BYTES = 48"

definition VAULT_SWAP_VERSION :: nat where
  "VAULT_SWAP_VERSION = 1"

record decoded_vault_swap =
  vs_version :: nat
  vs_asset_id :: nat
  vs_destination :: bytes
  vs_retry_duration :: int
  vs_min_output_amount :: int
  vs_oracle_slippage :: nat
  vs_dca_chunks :: int
  vs_dca_interval :: int
  vs_boost_fee :: nat
  vs_broker_fee :: nat
  vs_affiliates :: nat

definition decode_vault_swap_payload :: "bytes \<Rightarrow> decoded_vault_swap option" where
  "decode_vault_swap_payload payload =
     (if length payload \<noteq> VAULT_SWAP_PAYLOAD_BYTES then None
      else Some \<lparr>
        vs_version = unat (payload ! 0),
        vs_asset_id = unat (payload ! 1),
        vs_destination = slice 2 22 payload,
        vs_retry_duration = le_int (slice 22 24 payload),
        vs_min_output_amount = le_int (slice 24 40 payload),
        vs_oracle_slippage = unat (payload ! 40),
        vs_dca_chunks = le_int (slice 41 43 payload),
        vs_dca_interval = le_int (slice 43 45 payload),
        vs_boost_fee = unat (payload ! 45),
        vs_broker_fee = unat (payload ! 46),
        vs_affiliates = unat (payload ! 47)\<rparr>)"

definition is_vault_swap_payload :: "bytes \<Rightarrow> decoded_vault_swap option" where
  "is_vault_swap_payload data =
     (case decode_vault_swap_payload data of
        None \<Rightarrow> None
      | Some decoded \<Rightarrow> if vs_version decoded \<noteq> VAULT_SWAP_VERSION then None else Some decoded)"

record chainflip_vault_plan =
  cv_deposit_address :: pystr
  cv_amount :: int
  cv_payload :: bytes
  cv_expiry :: int
  cv_destination_asset_id :: nat
  cv_destination_bytes :: bytes
  cv_min_output_amount :: int
  cv_known_vaults :: "pystr set"

datatype vault_problem =
  Bitcoin problem
| UnknownVault pystr
| NoChange
| DustChange "pystr option" int
| PayloadLength nat
| PayloadVersion nat
| PayloadAsset nat nat
| PayloadDestination bytes bytes
| PayloadFloor int int
| PayloadBrokerFee nat
| PayloadBoostFee nat
| PayloadAffiliates nat
| PayloadDcaChunks int

definition vault_change :: "tx_output list \<Rightarrow> pystr \<Rightarrow> tx_output list" where
  "vault_change outputs deposit =
     filter (\<lambda>out. o_data out = None \<and> o_address out \<noteq> Some deposit) outputs"

definition refund_check :: "tx_output list \<Rightarrow> pystr \<Rightarrow> vault_problem list" where
  "refund_check outputs deposit =
     (let change = vault_change outputs deposit in
      if change = [] then [NoChange]
      else concat (map (\<lambda>out.
        if o_value out < dust P2WPKH then [DustChange (o_address out) (o_value out)] else []) change))"

definition payload_check :: "decoded_vault_swap \<Rightarrow> chainflip_vault_plan \<Rightarrow> vault_problem list" where
  "payload_check decoded plan =
     (if vs_version decoded \<noteq> VAULT_SWAP_VERSION then [PayloadVersion (vs_version decoded)] else [])
     @ (if vs_asset_id decoded \<noteq> cv_destination_asset_id plan
        then [PayloadAsset (vs_asset_id decoded) (cv_destination_asset_id plan)] else [])
     @ (if vs_destination decoded \<noteq> cv_destination_bytes plan
        then [PayloadDestination (vs_destination decoded) (cv_destination_bytes plan)] else [])
     @ (if vs_min_output_amount decoded < cv_min_output_amount plan
        then [PayloadFloor (vs_min_output_amount decoded) (cv_min_output_amount plan)] else [])
     @ (if vs_broker_fee decoded \<noteq> 0 then [PayloadBrokerFee (vs_broker_fee decoded)] else [])
     @ (if vs_boost_fee decoded \<noteq> 0 then [PayloadBoostFee (vs_boost_fee decoded)] else [])
     @ (if vs_affiliates decoded \<noteq> 0 then [PayloadAffiliates (vs_affiliates decoded)] else [])
     @ (if vs_dca_chunks decoded \<noteq> 1 then [PayloadDcaChunks (vs_dca_chunks decoded)] else [])"

definition verify_chainflip_vault_swap ::
  "tx_output list \<Rightarrow> int \<Rightarrow> chainflip_vault_plan \<Rightarrow> pystr set \<Rightarrow> int \<Rightarrow> int \<Rightarrow> vault_problem list" where
  "verify_chainflip_vault_swap outputs fee plan owned_addresses now max_fee =
     map Bitcoin (verify_btc_swap outputs fee
       \<lparr>sp_inbound = cv_deposit_address plan, sp_amount = cv_amount plan,
        sp_memo = MemoBytes (cv_payload plan), sp_expiry = cv_expiry plan, sp_destination = []\<rparr>
       owned_addresses now max_fee memo_limit)
     @ (if cv_deposit_address plan \<notin> cv_known_vaults plan
        then [UnknownVault (cv_deposit_address plan)] else [])
     @ refund_check outputs (cv_deposit_address plan)
     @ (case decode_vault_swap_payload (cv_payload plan) of
          None \<Rightarrow> [PayloadLength (length (cv_payload plan))]
        | Some decoded \<Rightarrow> payload_check decoded plan)"

section \<open>The payload, as Chainflip lays it out\<close>

text \<open>
  The reference: the fields in wire order. It is what the decoder is the inverse of, and what a
  payload that passed the gate is made of.
\<close>

definition vault_payload :: "decoded_vault_swap \<Rightarrow> bytes" where
  "vault_payload d =
     [byte_of (vs_version d), byte_of (vs_asset_id d)] @ vs_destination d
     @ to_le 2 (vs_retry_duration d) @ to_le 16 (vs_min_output_amount d)
     @ [byte_of (vs_oracle_slippage d)]
     @ to_le 2 (vs_dca_chunks d) @ to_le 2 (vs_dca_interval d)
     @ [byte_of (vs_boost_fee d), byte_of (vs_broker_fee d), byte_of (vs_affiliates d)]"

definition vault_fields_ok :: "decoded_vault_swap \<Rightarrow> bool" where
  "vault_fields_ok d \<longleftrightarrow>
     vs_version d < 256 \<and> vs_asset_id d < 256 \<and> length (vs_destination d) = 20
   \<and> 0 \<le> vs_retry_duration d \<and> vs_retry_duration d < 2 ^ 16
   \<and> 0 \<le> vs_min_output_amount d \<and> vs_min_output_amount d < 2 ^ 128
   \<and> vs_oracle_slippage d < 256
   \<and> 0 \<le> vs_dca_chunks d \<and> vs_dca_chunks d < 2 ^ 16
   \<and> 0 \<le> vs_dca_interval d \<and> vs_dca_interval d < 2 ^ 16
   \<and> vs_boost_fee d < 256 \<and> vs_broker_fee d < 256 \<and> vs_affiliates d < 256"

lemma le_slice_back:
  "j \<le> length p \<Longrightarrow> i \<le> j \<Longrightarrow> k = j - i \<Longrightarrow> to_le k (le_int (slice i j p)) = slice i j p"
  using to_le_le_int [of "slice i j p"] by (simp add: min_absorb1)

lemma le_slice_bound:
  "j \<le> length p \<Longrightarrow> i \<le> j \<Longrightarrow> le_int (slice i j p) < 256 ^ (j - i)"
  using le_int_bound [of "slice i j p"] by (simp add: min_absorb1)

lemma byte_at: "i < length p \<Longrightarrow> j = Suc i \<Longrightarrow> slice i j p = [p ! i]"
  by (simp add: slice_single)

lemma length_vault_payload: "vault_fields_ok d \<Longrightarrow> length (vault_payload d) = 48"
  by (simp add: vault_payload_def vault_fields_ok_def)

lemma decode_vault_payload:
  assumes "vault_fields_ok d"
  shows "decode_vault_swap_payload (vault_payload d) = Some d"
proof -
  have "length (vs_destination d) = 20" using assms by (simp add: vault_fields_ok_def)
  then show ?thesis
    using assms length_vault_payload [OF assms]
    by (simp add: decode_vault_swap_payload_def VAULT_SWAP_PAYLOAD_BYTES_def vault_fields_ok_def
        vault_payload_def slice_def nth_append codec_simps)
qed

lemma decode_vault_payload_inv:
  assumes "decode_vault_swap_payload p = Some d"
  shows "vault_fields_ok d \<and> p = vault_payload d"
proof
  have len: "length p = 48"
    using assms by (auto simp: decode_vault_swap_payload_def VAULT_SWAP_PAYLOAD_BYTES_def split: if_splits)
  with assms have d: "d = \<lparr>vs_version = unat (p ! 0), vs_asset_id = unat (p ! 1),
        vs_destination = slice 2 22 p, vs_retry_duration = le_int (slice 22 24 p),
        vs_min_output_amount = le_int (slice 24 40 p), vs_oracle_slippage = unat (p ! 40),
        vs_dca_chunks = le_int (slice 41 43 p), vs_dca_interval = le_int (slice 43 45 p),
        vs_boost_fee = unat (p ! 45), vs_broker_fee = unat (p ! 46), vs_affiliates = unat (p ! 47)\<rparr>"
    by (simp add: decode_vault_swap_payload_def VAULT_SWAP_PAYLOAD_BYTES_def)
  show "vault_fields_ok d"
    using le_slice_bound [of 24 p 22] le_slice_bound [of 40 p 24] le_slice_bound [of 43 p 41]
      le_slice_bound [of 45 p 43] len
    by (simp add: d vault_fields_ok_def unat_byte_lt)
  have "vault_payload d = slice 0 1 p @ slice 1 2 p @ slice 2 22 p @ slice 22 24 p @ slice 24 40 p
      @ slice 40 41 p @ slice 41 43 p @ slice 43 45 p @ slice 45 46 p @ slice 46 47 p @ slice 47 48 p"
    using len
    by (simp add: d vault_payload_def le_slice_back byte_at)
  also have "\<dots> = slice 0 48 p" by (simp add: slice_join)
  also have "\<dots> = p" using len by (simp add: slice_all)
  finally show "p = vault_payload d" by simp
qed

section \<open>What the gate promises\<close>

text \<open>
  The payload decoder is exact: it accepts precisely the 48-byte strings that are the wire
  form of some field values in range, and returns those values. So two payloads that decode
  alike are the same bytes, and no byte of a payload is ignored.
\<close>

theorem vault_payload_exact:
  "decode_vault_swap_payload p = Some d \<longleftrightarrow> vault_fields_ok d \<and> p = vault_payload d"
  using decode_vault_payload decode_vault_payload_inv by blast

lemma refund_check_silent [gate_simps]:
  "refund_check outputs deposit = [] \<longleftrightarrow>
   vault_change outputs deposit \<noteq> [] \<and> list_all (\<lambda>out. 294 \<le> o_value out) (vault_change outputs deposit)"
  by (simp add: refund_check_def Let_def P2WPKH_def gate_simps not_less
      del: concat_eq_Nil_conv)

lemma payload_check_silent [gate_simps]:
  "payload_check d plan = [] \<longleftrightarrow>
     vs_version d = 1 \<and> vs_asset_id d = cv_destination_asset_id plan
   \<and> vs_destination d = cv_destination_bytes plan
   \<and> cv_min_output_amount plan \<le> vs_min_output_amount d
   \<and> vs_broker_fee d = 0 \<and> vs_boost_fee d = 0 \<and> vs_affiliates d = 0 \<and> vs_dca_chunks d = 1"
  unfolding payload_check_def append_is_Nil_conv gate_simps VAULT_SWAP_VERSION_def by auto

text \<open>
  C9: When the Chainflip vault gate is silent, the transaction is the vault swap that was asked
  for: the ordinary Bitcoin gate passes with the payload as the memo, the deposit address is one
  the protocol publishes, there is a change output to refund to and every one of them can be
  spent (294 sat at least), and the bytes in the transaction's one data output are the wire form
  of a swap to our asset and destination, with a floor at least ours, no broker, boost or
  affiliate fee and a single chunk. Conversely such a transaction passes.
\<close>

theorem verify_chainflip_vault_swap_safe:
  "verify_chainflip_vault_swap outputs fee plan owned now max_fee = [] \<longleftrightarrow>
     verify_btc_swap outputs fee
       \<lparr>sp_inbound = cv_deposit_address plan, sp_amount = cv_amount plan,
        sp_memo = MemoBytes (cv_payload plan), sp_expiry = cv_expiry plan, sp_destination = []\<rparr>
       owned now max_fee 80 = []
   \<and> cv_deposit_address plan \<in> cv_known_vaults plan
   \<and> vault_change outputs (cv_deposit_address plan) \<noteq> []
   \<and> list_all (\<lambda>out. 294 \<le> o_value out \<and> o_address out \<in> Some ` owned)
       (vault_change outputs (cv_deposit_address plan))
   \<and> (\<exists>out d. filter (\<lambda>out. o_data out \<noteq> None) outputs = [out] \<and> o_data out = Some (vault_payload d)
        \<and> cv_payload plan = vault_payload d \<and> vault_fields_ok d
        \<and> vs_version d = 1 \<and> vs_asset_id d = cv_destination_asset_id plan
        \<and> vs_destination d = cv_destination_bytes plan
        \<and> cv_min_output_amount plan \<le> vs_min_output_amount d
        \<and> vs_broker_fee d = 0 \<and> vs_boost_fee d = 0 \<and> vs_affiliates d = 0 \<and> vs_dca_chunks d = 1)"
  (is "?gate = [] \<longleftrightarrow> ?btc = [] \<and> ?known \<and> ?change \<and> ?owned \<and> ?payload")
proof -
  let ?ok = "\<lambda>d. vs_version d = 1 \<and> vs_asset_id d = cv_destination_asset_id plan
        \<and> vs_destination d = cv_destination_bytes plan
        \<and> cv_min_output_amount plan \<le> vs_min_output_amount d
        \<and> vs_broker_fee d = 0 \<and> vs_boost_fee d = 0 \<and> vs_affiliates d = 0 \<and> vs_dca_chunks d = 1"
  have dec: "(case decode_vault_swap_payload (cv_payload plan) of
        None \<Rightarrow> [PayloadLength (length (cv_payload plan))] | Some d \<Rightarrow> payload_check d plan) = []
      \<longleftrightarrow> (\<exists>d. vault_fields_ok d \<and> cv_payload plan = vault_payload d \<and> ?ok d)"
  proof (cases "decode_vault_swap_payload (cv_payload plan)")
    case None
    then show ?thesis using decode_vault_payload by auto
  next
    case (Some d)
    note d = decode_vault_payload_inv [OF Some]
    have "d' = d" if "vault_fields_ok d'" "cv_payload plan = vault_payload d'" for d'
      using that decode_vault_payload [of d'] Some by simp
    with d show ?thesis unfolding Some option.case payload_check_silent by blast
  qed
  have data: "\<exists>out. filter (\<lambda>out. o_data out \<noteq> None) outputs = [out] \<and> o_data out = Some (cv_payload plan)"
    and own: "list_all (\<lambda>out. o_address out \<in> Some ` owned) (vault_change outputs (cv_deposit_address plan))"
    if "?btc = []"
    using that unfolding btc_swap_gate
    by (auto simp: spells_def vault_change_def list_all_iff)
  have gate: "?gate = [] \<longleftrightarrow> ?btc = [] \<and> ?known \<and> ?change
      \<and> list_all (\<lambda>out. 294 \<le> o_value out) (vault_change outputs (cv_deposit_address plan))
      \<and> (\<exists>d. vault_fields_ok d \<and> cv_payload plan = vault_payload d \<and> ?ok d)"
    unfolding verify_chainflip_vault_swap_def append_is_Nil_conv dec gate_simps memo_limit_def by simp
  show ?thesis
  proof
    assume "?gate = []"
    with gate have b: "?btc = []" and r: "?known" "?change"
      "list_all (\<lambda>out. 294 \<le> o_value out) (vault_change outputs (cv_deposit_address plan))"
      and "\<exists>d. vault_fields_ok d \<and> cv_payload plan = vault_payload d \<and> ?ok d"
      by blast+
    then obtain d where d: "vault_fields_ok d" "cv_payload plan = vault_payload d" "?ok d" by blast
    obtain out where "filter (\<lambda>out. o_data out \<noteq> None) outputs = [out]"
      "o_data out = Some (vault_payload d)"
      using data [OF b] unfolding d(2) by blast
    with d have "?payload" by blast
    with b r show "?btc = [] \<and> ?known \<and> ?change \<and> ?owned \<and> ?payload"
      using own [OF b] by (simp add: list_all_iff)
  next
    assume r: "?btc = [] \<and> ?known \<and> ?change \<and> ?owned \<and> ?payload"
    then have "\<exists>d. vault_fields_ok d \<and> cv_payload plan = vault_payload d \<and> ?ok d" by blast
    with r show "?gate = []" unfolding gate by (simp add: list_all_iff)
  qed
qed

text \<open>
  A payload is recognised as Chainflip's own exactly when it is the wire form of some fields
  with version byte 1; this wallet's text memos of 48 bytes start with \<open>=\<close> (61) and are not.
\<close>

theorem is_vault_swap_payload_iff:
  "(is_vault_swap_payload data = Some d \<longleftrightarrow>
      vault_fields_ok d \<and> vs_version d = 1 \<and> data = vault_payload d)
   \<and> is_vault_swap_payload (61 # rest) = None"
proof -
  have iff: "is_vault_swap_payload data = Some d \<longleftrightarrow>
      vault_fields_ok d \<and> vs_version d = 1 \<and> data = vault_payload d" for data d
  proof -
    have "is_vault_swap_payload data = Some d
        \<longleftrightarrow> decode_vault_swap_payload data = Some d \<and> vs_version d = 1"
      by (auto simp: is_vault_swap_payload_def VAULT_SWAP_VERSION_def split: option.splits)
    then show ?thesis using decode_vault_payload decode_vault_payload_inv by blast
  qed
  have "is_vault_swap_payload (61 # rest) = None"
  proof (rule ccontr)
    assume "is_vault_swap_payload (61 # rest) \<noteq> None"
    then obtain d where "vs_version d = 1" "61 # rest = vault_payload d" using iff by auto
    then show False by (simp add: vault_payload_def byte_of_def)
  qed
  with iff show ?thesis by blast
qed

end
