(* ===== verification/EvmVault.thy ===== *)
theory EvmVault
  imports VaultSwap
begin

text \<open>
  Chainflip vault swaps from an EVM source: the local ABI and SCALE decoders of
  \<open>src/swapsack/verify.py\<close>, and the gates of \<open>src/swapsack/chains/eth.py\<close> that use them
  (\<open>verify_chainflip_evm_vault_swap\<close>, \<open>verify_eth_token_swap\<close>, \<open>verify_eth_approvals\<close>). The
  third-party \<open>eth_abi\<close> decoder is a parameter.
\<close>

section \<open>The decoders\<close>

definition XSWAP_NATIVE_SELECTOR :: pystr where
  "XSWAP_NATIVE_SELECTOR = lit ''dd687345''"

definition XSWAP_TOKEN_SELECTOR :: pystr where
  "XSWAP_TOKEN_SELECTOR = lit ''04fc7da0''"

definition XSWAP_NATIVE_WORDS :: nat where
  "XSWAP_NATIVE_WORDS = 4"

definition XSWAP_TOKEN_WORDS :: nat where
  "XSWAP_TOKEN_WORDS = 6"

definition abi_word :: "bytes \<Rightarrow> nat \<Rightarrow> nat" where
  "abi_word raw index = (let start = index * 32 in nat (be_int (slice start (start + 32) raw)))"

definition abi_bytes :: "bytes \<Rightarrow> nat \<Rightarrow> nat \<Rightarrow> bytes option" where
  "abi_bytes raw offset head_words =
     (if offset < head_words * 32 \<or> length raw < offset + 32 \<or> offset mod 32 \<noteq> 0 then None
      else
        let len = abi_word raw (offset div 32);
            stop = offset + 32 + len in
        if length raw < stop then None
        else
          let padded = stop + nat (- int len mod 32) in
          if length raw < padded \<or> list_ex (\<lambda>b. b \<noteq> 0) (slice stop padded raw) then None
          else Some (slice (offset + 32) stop raw))"

record decoded_evm_vault_call =
  ec_destination_chain_id :: nat
  ec_destination :: bytes
  ec_destination_asset_id :: nat
  ec_source_token :: pystr
  ec_source_amount :: nat
  ec_parameters :: bytes

definition decode_evm_vault_call :: "bytes \<Rightarrow> decoded_evm_vault_call option" where
  "decode_evm_vault_call calldata =
     (if length calldata < 4 then None
      else
        let selector = py_hex (slice 0 4 calldata);
            args = drop 4 calldata;
            shape = (if selector = XSWAP_NATIVE_SELECTOR then Some (XSWAP_NATIVE_WORDS, None, 3)
                     else if selector = XSWAP_TOKEN_SELECTOR then Some (XSWAP_TOKEN_WORDS, Some (3, 4), 5)
                     else None)
        in
        case shape of
          None \<Rightarrow> None
        | Some (words, token_words, params_word) \<Rightarrow>
            if length args < words * 32 then None
            else
              (case (abi_bytes args (abi_word args 1) words,
                     abi_bytes args (abi_word args params_word) words) of
                 (Some destination, Some parameters) \<Rightarrow>
                   (case token_words of
                      None \<Rightarrow> Some \<lparr>ec_destination_chain_id = abi_word args 0,
                        ec_destination = destination, ec_destination_asset_id = abi_word args 2,
                        ec_source_token = [], ec_source_amount = 0, ec_parameters = parameters\<rparr>
                    | Some (token_word, amount_word) \<Rightarrow>
                        let raw_token = abi_word args token_word in
                        if 2 ^ 160 \<le> raw_token then None
                        else Some \<lparr>ec_destination_chain_id = abi_word args 0,
                          ec_destination = destination, ec_destination_asset_id = abi_word args 2,
                          ec_source_token = lit ''0x'' @ hex_pad 40 raw_token,
                          ec_source_amount = abi_word args amount_word,
                          ec_parameters = parameters\<rparr>)
               | _ \<Rightarrow> None))"

definition EVM_VAULT_PARAMS_BYTES :: nat where
  "EVM_VAULT_PARAMS_BYTES = 96"

definition EVM_VAULT_PARAMS_VERSION :: nat where
  "EVM_VAULT_PARAMS_VERSION = 1"

record decoded_evm_vault_parameters =
  ep_version :: nat
  ep_retry_duration :: int
  ep_refund_address :: bytes
  ep_min_price :: int
  ep_ccm :: nat
  ep_oracle_slippage :: nat
  ep_dca :: nat
  ep_boost_fee :: nat
  ep_broker :: bytes
  ep_broker_fee :: int
  ep_affiliates :: nat

definition decode_evm_vault_parameters :: "bytes \<Rightarrow> decoded_evm_vault_parameters option" where
  "decode_evm_vault_parameters params =
     (if length params \<noteq> EVM_VAULT_PARAMS_BYTES then None
      else Some \<lparr>
        ep_version = unat (params ! 0),
        ep_retry_duration = le_int (slice 1 5 params),
        ep_refund_address = slice 5 25 params,
        ep_min_price = le_int (slice 25 57 params),
        ep_ccm = unat (params ! 57),
        ep_oracle_slippage = unat (params ! 58),
        ep_dca = unat (params ! 59),
        ep_boost_fee = unat (params ! 60),
        ep_broker = slice 61 93 params,
        ep_broker_fee = le_int (slice 93 95 params),
        ep_affiliates = unat (params ! 95)\<rparr>)"

record chainflip_evm_vault_plan =
  ev_vault_contract :: pystr
  ev_calldata :: bytes
  ev_value :: int
  ev_source_token :: pystr
  ev_source_amount :: int
  ev_expiry :: int
  ev_chain_id :: int
  ev_destination_chain_id :: nat
  ev_destination_asset_id :: nat
  ev_destination_bytes :: bytes
  ev_refund_address :: pystr
  ev_min_price :: int
  ev_retry_duration :: int
  ev_known_vaults :: "pystr set"

section \<open>The gates of \<open>chains/eth.py\<close>\<close>

text \<open>The transaction dict the gates read; \<open>fee\<close> is the worst-case price of a list of them.\<close>

record eth_tx =
  tx_to :: pystr
  tx_value :: int
  tx_chain_id :: int
  tx_gas :: int
  tx_max_fee :: int
  tx_data :: pystr

definition txs_fee :: "eth_tx list \<Rightarrow> int" where
  "txs_fee txs = sum_list (map (\<lambda>t. tx_gas t * tx_max_fee t) txs)"

definition APPROVE_SELECTOR :: pystr where
  "APPROVE_SELECTOR = lit ''095ea7b3''"

definition DEPOSIT_SELECTOR :: pystr where
  "DEPOSIT_SELECTOR = lit ''44bc937b''"

text \<open>\<open>_decode_call\<close>; None is any exception, which every caller treats as a reject.\<close>

definition decode_call :: "(bytes \<Rightarrow> 'a option) \<Rightarrow> pystr \<Rightarrow> pystr \<Rightarrow> 'a option" where
  "decode_call abi_decode data selector =
     (case py_fromhex (py_removeprefix (lit ''0x'') data) of
        None \<Rightarrow> None
      | Some raw \<Rightarrow>
          if py_hex (slice 0 4 raw) \<noteq> selector then None else abi_decode (drop 4 raw))"

datatype evm_problem =
  EvmExpired int int
| VaultNotPublished pystr
| TxTo pystr pystr
| TxValue int int
| TokenCarriesEther int
| TxChainId int int
| RefundNotOurs pystr pystr
| CalldataNotPlanned pystr pystr
| CallUnreadable
| CallDestination bytes bytes
| CallAsset nat nat
| CallChain nat nat
| CallToken pystr pystr
| CallMoves int int
| NativeNamesAmount nat
| EvmFeeTooHigh int int
| NativeHasApprove
| NoApprove pystr
| ApproveTo pystr pystr
| ApproveValue
| ApproveChainId int int
| ApproveUnreadable
| ApproveSpender pystr pystr
| ApproveAmount int int
| ParamsLength nat
| ParamsVersion nat
| ParamsRefund bytes pystr
| ParamsMinPrice int int
| ParamsRetry int int
| ParamsBrokerFee int
| ParamsBoostFee nat
| ParamsAffiliates nat
| ParamsCcm
| ParamsOracle
| ParamsDca
| WrongChain
| DepositTo pystr pystr
| TokenTxValue
| DepositUnreadable
| DepositVault pystr pystr
| DepositToken pystr pystr
| DepositAmount int int
| DepositMemo pystr pystr
| DepositExpiry int int
| DepositDestination pystr pystr

definition verify_vault_parameters ::
  "bytes \<Rightarrow> chainflip_evm_vault_plan \<Rightarrow> evm_problem list" where
  "verify_vault_parameters parameters plan =
     (case decode_evm_vault_parameters parameters of
        None \<Rightarrow> [ParamsLength (length parameters)]
      | Some d \<Rightarrow>
          (if ep_version d \<noteq> EVM_VAULT_PARAMS_VERSION then [ParamsVersion (ep_version d)] else [])
          @ (let expected_refund = py_removeprefix (lit ''0x'') (py_lower (ev_refund_address plan))
             in if py_hex (ep_refund_address d) \<noteq> expected_refund
                then [ParamsRefund (ep_refund_address d) (ev_refund_address plan)] else [])
          @ (if ep_min_price d < ev_min_price plan
             then [ParamsMinPrice (ep_min_price d) (ev_min_price plan)] else [])
          @ (if ep_retry_duration d \<noteq> ev_retry_duration plan
             then [ParamsRetry (ep_retry_duration d) (ev_retry_duration plan)] else [])
          @ (if ep_broker_fee d \<noteq> 0 then [ParamsBrokerFee (ep_broker_fee d)] else [])
          @ (if ep_boost_fee d \<noteq> 0 then [ParamsBoostFee (ep_boost_fee d)] else [])
          @ (if ep_affiliates d \<noteq> 0 then [ParamsAffiliates (ep_affiliates d)] else [])
          @ (if ep_ccm d \<noteq> 0 then [ParamsCcm] else [])
          @ (if ep_oracle_slippage d \<noteq> 0 then [ParamsOracle] else [])
          @ (if ep_dca d \<noteq> 0 then [ParamsDca] else []))"

definition verify_vault_approve ::
  "(bytes \<Rightarrow> (pystr \<times> int) option) \<Rightarrow> eth_tx option \<Rightarrow> chainflip_evm_vault_plan \<Rightarrow> evm_problem list"
where
  "verify_vault_approve abi_decode approve plan =
     (if ev_source_token plan = [] then
        (case approve of None \<Rightarrow> [] | Some _ \<Rightarrow> [NativeHasApprove])
      else
        case approve of
          None \<Rightarrow> [NoApprove (ev_source_token plan)]
        | Some tx \<Rightarrow>
            (if py_lower (tx_to tx) \<noteq> py_lower (ev_source_token plan)
             then [ApproveTo (tx_to tx) (ev_source_token plan)] else [])
            @ (if tx_value tx \<noteq> 0 then [ApproveValue] else [])
            @ (if tx_chain_id tx \<noteq> ev_chain_id plan
               then [ApproveChainId (tx_chain_id tx) (ev_chain_id plan)] else [])
            @ (case decode_call abi_decode (tx_data tx) APPROVE_SELECTOR of
                 None \<Rightarrow> [ApproveUnreadable]
               | Some (spender, allowance) \<Rightarrow>
                   (if py_lower spender \<noteq> py_lower (ev_vault_contract plan)
                    then [ApproveSpender spender (ev_vault_contract plan)] else [])
                   @ (if allowance \<noteq> ev_source_amount plan
                      then [ApproveAmount allowance (ev_source_amount plan)] else [])))"

definition vault_swap_txs :: "eth_tx option \<Rightarrow> eth_tx \<Rightarrow> eth_tx list" where
  "vault_swap_txs approve swap = (case approve of None \<Rightarrow> [swap] | Some tx \<Rightarrow> [tx, swap])"

text \<open>
  The gate. \<open>bytes.fromhex\<close> of the calldata is outside any \<open>try\<close>, so calldata that is not hex
  raises instead of returning a list: None.
\<close>

definition call_check ::
  "decoded_evm_vault_call \<Rightarrow> eth_tx \<Rightarrow> chainflip_evm_vault_plan \<Rightarrow> evm_problem list" where
  "call_check call swap plan =
     (if ec_destination call \<noteq> ev_destination_bytes plan
      then [CallDestination (ec_destination call) (ev_destination_bytes plan)] else [])
     @ (if ec_destination_asset_id call \<noteq> ev_destination_asset_id plan
        then [CallAsset (ec_destination_asset_id call) (ev_destination_asset_id plan)] else [])
     @ (if ec_destination_chain_id call \<noteq> ev_destination_chain_id plan
        then [CallChain (ec_destination_chain_id call) (ev_destination_chain_id plan)] else [])
     @ (if ec_source_token call \<noteq> ev_source_token plan
        then [CallToken (ec_source_token call) (ev_source_token plan)] else [])
     @ (let moved = (if ev_source_token plan \<noteq> [] then int (ec_source_amount call) else tx_value swap)
        in if moved \<noteq> ev_source_amount plan then [CallMoves moved (ev_source_amount plan)] else [])
     @ (if ev_source_token plan = [] \<and> ec_source_amount call \<noteq> 0
        then [NativeNamesAmount (ec_source_amount call)] else [])
     @ verify_vault_parameters (ec_parameters call) plan"

definition verify_chainflip_evm_vault_swap ::
  "(bytes \<Rightarrow> (pystr \<times> int) option) \<Rightarrow> eth_tx \<Rightarrow> eth_tx option \<Rightarrow> chainflip_evm_vault_plan
   \<Rightarrow> int \<Rightarrow> int \<Rightarrow> pystr \<Rightarrow> evm_problem list option" where
  "verify_chainflip_evm_vault_swap abi_decode swap approve plan now max_fee_wei owned_address =
     (let problems =
        (if ev_expiry plan \<le> now then [EvmExpired now (ev_expiry plan)] else [])
        @ (if py_lower (ev_vault_contract plan) \<notin> ev_known_vaults plan
           then [VaultNotPublished (ev_vault_contract plan)] else [])
        @ (if py_lower (tx_to swap) \<noteq> py_lower (ev_vault_contract plan)
           then [TxTo (tx_to swap) (ev_vault_contract plan)] else [])
        @ (if tx_value swap \<noteq> ev_value plan then [TxValue (tx_value swap) (ev_value plan)] else [])
        @ (if ev_source_token plan \<noteq> [] \<and> ev_value plan \<noteq> 0
           then [TokenCarriesEther (ev_value plan)] else [])
        @ (if tx_chain_id swap \<noteq> ev_chain_id plan
           then [TxChainId (tx_chain_id swap) (ev_chain_id plan)] else [])
        @ (if py_lower (ev_refund_address plan) \<noteq> py_lower owned_address
           then [RefundNotOurs (ev_refund_address plan) owned_address] else [])
        @ (let expected_data = lit ''0x'' @ py_hex (ev_calldata plan)
           in if py_lower (tx_data swap) \<noteq> py_lower expected_data
              then [CalldataNotPlanned (tx_data swap) expected_data] else [])
        @ verify_vault_approve abi_decode approve plan
      in
      case py_fromhex (py_removeprefix (lit ''0x'') (tx_data swap)) of
        None \<Rightarrow> None
      | Some raw \<Rightarrow>
          (case decode_evm_vault_call raw of
             None \<Rightarrow> Some (problems @ [CallUnreadable])
           | Some call \<Rightarrow>
               Some (problems @ call_check call swap plan
                 @ (let fee = txs_fee (vault_swap_txs approve swap)
                    in if max_fee_wei < fee then [EvmFeeTooHigh fee max_fee_wei] else []))))"

text \<open>The THORChain router deposit of an ERC-20 token, and the bare approvals.\<close>

record eth_token_built =
  tb_approve :: eth_tx
  tb_deposit :: eth_tx
  tb_token :: pystr
  tb_router :: pystr
  tb_vault :: pystr
  tb_native_amount :: int
  tb_memo :: pystr
  tb_expiry :: int
  tb_chain_id :: int

definition verify_eth_token_swap ::
  "(bytes \<Rightarrow> (pystr \<times> int) option) \<Rightarrow> (bytes \<Rightarrow> (pystr \<times> pystr \<times> int \<times> pystr \<times> int) option)
   \<Rightarrow> eth_token_built \<Rightarrow> pystr \<Rightarrow> int \<Rightarrow> int \<Rightarrow> evm_problem list" where
  "verify_eth_token_swap abi_approve abi_deposit built destination now max_fee_wei =
     (let approve = tb_approve built; deposit = tb_deposit built in
      (if tb_expiry built \<le> now then [EvmExpired now (tb_expiry built)] else [])
      @ (if py_lower (tx_to approve) \<noteq> py_lower (tb_token built)
         then [ApproveTo (tx_to approve) (tb_token built)] else [])
      @ (if py_lower (tx_to deposit) \<noteq> py_lower (tb_router built)
         then [DepositTo (tx_to deposit) (tb_router built)] else [])
      @ (if tx_value approve \<noteq> 0 \<or> tx_value deposit \<noteq> 0 then [TokenTxValue] else [])
      @ (if tx_chain_id approve \<noteq> tb_chain_id built \<or> tx_chain_id deposit \<noteq> tb_chain_id built
         then [WrongChain] else [])
      @ (case decode_call abi_approve (tx_data approve) APPROVE_SELECTOR of
           None \<Rightarrow> [ApproveUnreadable]
         | Some (spender, allowance) \<Rightarrow>
             (if py_lower spender \<noteq> py_lower (tb_router built)
              then [ApproveSpender spender (tb_router built)] else [])
             @ (if allowance \<noteq> tb_native_amount built
                then [ApproveAmount allowance (tb_native_amount built)] else []))
      @ (case decode_call abi_deposit (tx_data deposit) DEPOSIT_SELECTOR of
           None \<Rightarrow> [DepositUnreadable]
         | Some (d_vault, d_token, d_amount, d_memo, d_expiry) \<Rightarrow>
             (if py_lower d_vault \<noteq> py_lower (tb_vault built)
              then [DepositVault d_vault (tb_vault built)] else [])
             @ (if py_lower d_token \<noteq> py_lower (tb_token built)
                then [DepositToken d_token (tb_token built)] else [])
             @ (if d_amount \<noteq> tb_native_amount built
                then [DepositAmount d_amount (tb_native_amount built)] else [])
             @ (if d_memo \<noteq> tb_memo built then [DepositMemo d_memo (tb_memo built)] else [])
             @ (if d_expiry \<noteq> tb_expiry built
                then [DepositExpiry d_expiry (tb_expiry built)] else [])
             @ (if \<not> memo_pays_destination destination (MemoText d_memo)
                then [DepositDestination d_memo destination] else []))
      @ (let fee = txs_fee [approve, deposit]
         in if max_fee_wei < fee then [EvmFeeTooHigh fee max_fee_wei] else []))"

record eth_approvals =
  ap_txs :: "eth_tx list"
  ap_token :: pystr
  ap_spender :: pystr
  ap_amount :: int
  ap_chain_id :: int

definition approval_check ::
  "(bytes \<Rightarrow> (pystr \<times> int) option) \<Rightarrow> eth_approvals \<Rightarrow> nat \<times> eth_tx \<Rightarrow> evm_problem list" where
  "approval_check abi_decode built = (\<lambda>(i, tx).
     (let expected = (if int i = int (length (ap_txs built)) - 1 then ap_amount built else 0) in
      (if py_lower (tx_to tx) \<noteq> py_lower (ap_token built)
       then [ApproveTo (tx_to tx) (ap_token built)] else [])
      @ (if tx_value tx \<noteq> 0 then [ApproveValue] else [])
      @ (if tx_chain_id tx \<noteq> ap_chain_id built then [WrongChain] else [])
      @ (case decode_call abi_decode (tx_data tx) APPROVE_SELECTOR of
           None \<Rightarrow> [ApproveUnreadable]
         | Some (spender, allowance) \<Rightarrow>
             (if py_lower spender \<noteq> py_lower (ap_spender built)
              then [ApproveSpender spender (ap_spender built)] else [])
             @ (if allowance \<noteq> expected then [ApproveAmount allowance expected] else []))))"

definition verify_eth_approvals ::
  "(bytes \<Rightarrow> (pystr \<times> int) option) \<Rightarrow> eth_approvals \<Rightarrow> int \<Rightarrow> evm_problem list" where
  "verify_eth_approvals abi_decode built max_fee_wei =
     concat (map (approval_check abi_decode built) (enumerate 0 (ap_txs built)))
     @ (let fee = txs_fee (ap_txs built)
        in if max_fee_wei < fee then [EvmFeeTooHigh fee max_fee_wei] else [])"

definition eth_sweep_amount :: "int \<Rightarrow> int \<Rightarrow> int \<Rightarrow> (int \<times> int) + int" where
  "eth_sweep_amount balance_wei gas max_fee_per_gas =
     (let sendable = balance_wei - gas * max_fee_per_gas in
      if sendable \<le> 0 then Inl (balance_wei, gas * max_fee_per_gas)
      else Inr (sendable div WEI_PER_THORCHAIN_UNIT))"

section \<open>The ABI decoder accepts canonical encodings only\<close>

definition be_bytes :: "nat \<Rightarrow> int \<Rightarrow> bytes" where
  "be_bytes k n = rev (to_le k n)"

lemma length_be_bytes [simp, codec_length]: "length (be_bytes k n) = k"
  by (simp add: be_bytes_def)

lemma be_int_be_bytes [codec_simps]: "0 \<le> n \<Longrightarrow> n < 256 ^ k \<Longrightarrow> be_int (be_bytes k n) = n"
  by (simp add: be_bytes_def be_int_def le_int_to_le)

lemma be_bytes_be_int: "length bs = k \<Longrightarrow> be_bytes k (be_int bs) = bs"
  unfolding be_bytes_def be_int_def by (metis length_rev rev_rev_ident to_le_le_int)

text \<open>
  The reference, as the Solidity ABI lays out a dynamic \<open>bytes\<close>: its length as a 32-byte
  big-endian word, its bytes, zeros up to a multiple of 32.
\<close>

definition abi_tail :: "bytes \<Rightarrow> bytes" where
  "abi_tail b =
     be_bytes 32 (int (length b)) @ b @ replicate (nat (- int (length b) mod 32)) 0"

lemma abi_word_at:
  assumes "length pre = 32 * i" "0 \<le> n" "n < 2 ^ 256"
  shows "abi_word (pre @ be_bytes 32 n @ post) i = nat n"
proof -
  have "slice (i * 32) (i * 32 + 32) (pre @ be_bytes 32 n @ post) = be_bytes 32 n"
    using assms(1) by (intro slice_append_exact) auto
  moreover have "be_int (be_bytes 32 n) = n"
    using assms(2,3) by (intro be_int_be_bytes) auto
  ultimately show ?thesis by (simp add: abi_word_def Let_def)
qed

lemma abi_bytes_tail:
  assumes "hw * 32 \<le> length pre" "length pre mod 32 = 0" "length b < 2 ^ 256"
  shows "abi_bytes (pre @ abi_tail b @ post) (length pre) hw = Some b"
proof -
  let ?n = "int (length b)" and ?z = "nat (- int (length b) mod 32)"
  let ?raw = "pre @ be_bytes 32 ?n @ b @ replicate ?z 0 @ post"
  have raw: "pre @ abi_tail b @ post = ?raw" by (simp add: abi_tail_def)
  have i: "length pre = 32 * (length pre div 32)" using assms(2) by auto
  have n: "?n < 2 ^ 256" using assms(3) by simp
  have w: "abi_word ?raw (length pre div 32) = length b"
    using abi_word_at [OF i _ n] by simp
  have z: "slice (length pre + 32 + length b) (length pre + 32 + length b + ?z) ?raw = replicate ?z 0"
    using slice_append_at [of "pre @ be_bytes 32 ?n @ b" "replicate ?z 0" post] by (simp add: add.assoc)
  have b: "slice (length pre + 32) (length pre + 32 + length b) ?raw = b"
    using slice_append_at [of "pre @ be_bytes 32 ?n" b "replicate ?z 0 @ post"] by simp
  have len: "length ?raw = length pre + 32 + length b + ?z + length post" by simp
  have nz: "\<not> list_ex (\<lambda>b. b \<noteq> 0) (replicate ?z (0 :: byte))" by (simp add: list_ex_iff)
  show ?thesis
    unfolding raw abi_bytes_def Let_def w z b len using assms(1,2) nz by simp
qed

lemma abi_bytes_canonical:
  assumes "abi_bytes raw off hw = Some b"
  shows "hw * 32 \<le> off \<and> off mod 32 = 0 \<and> length b < 2 ^ 256
    \<and> (\<exists>pre post. raw = pre @ abi_tail b @ post \<and> length pre = off)"
proof -
  define len where "len = abi_word raw (off div 32)"
  define stop where "stop = off + 32 + len"
  define padded where "padded = stop + nat (- int len mod 32)"
  from assms have a: "hw * 32 \<le> off" "off mod 32 = 0" "off + 32 \<le> length raw"
    and s: "stop \<le> length raw" "padded \<le> length raw" "\<not> list_ex (\<lambda>b. b \<noteq> 0) (slice stop padded raw)"
    and b: "b = slice (off + 32) stop raw"
    by (auto simp: abi_bytes_def Let_def len_def stop_def padded_def split: if_splits)
  have lb: "length b = len" using s(1) by (simp add: b stop_def min_absorb1)
  let ?w = "slice off (off + 32) raw"
  have lw: "length ?w = 32" using a(3) by (simp add: min_absorb1)
  have "int len = be_int ?w"
    using a(2) by (auto simp: len_def abi_word_def Let_def)
  then have w: "be_bytes 32 (int (length b)) = ?w" using be_bytes_be_int [OF lw] lb by simp
  have bound: "length b < 2 ^ 256"
    using be_int_bound [of ?w] \<open>int len = be_int ?w\<close> lb lw by simp
  have z: "slice stop padded raw = replicate (nat (- int (length b) mod 32)) 0"
  proof (rule replicate_eqI)
    show "length (slice stop padded raw) = nat (- int (length b) mod 32)"
      using s(2) lb by (simp add: padded_def min_absorb1)
    show "y = 0" if "y \<in> set (slice stop padded raw)" for y
      using that s(3) by (auto simp: list_ex_iff)
  qed
  have "abi_tail b = slice off padded raw"
    unfolding abi_tail_def w z [symmetric]
    by (simp add: b slice_join stop_def padded_def)
  then have "raw = take off raw @ abi_tail b @ drop padded raw"
    using s(2) by (simp add: slice_def padded_def stop_def)
      (metis append_take_drop_id drop_drop le_add_diff_inverse2 add.commute)
  moreover have "length (take off raw) = off" using a(3) by simp
  ultimately show ?thesis using a bound by blast
qed

text \<open>
  The strict \<open>bytes\<close> reader accepts exactly the canonical ABI encoding: it returns \<open>b\<close> if and
  only if the offset is aligned and behind the head, and the block holds at that offset the
  length word of \<open>b\<close>, the bytes of \<open>b\<close> and zero padding, all inside the calldata. So no two
  readings of the same bytes are possible.
\<close>

theorem abi_bytes_exact:
  "abi_bytes raw off hw = Some b \<longleftrightarrow>
     hw * 32 \<le> off \<and> off mod 32 = 0 \<and> length b < 2 ^ 256
   \<and> (\<exists>pre post. raw = pre @ abi_tail b @ post \<and> length pre = off)"
proof
  assume "abi_bytes raw off hw = Some b"
  then show "hw * 32 \<le> off \<and> off mod 32 = 0 \<and> length b < 2 ^ 256
    \<and> (\<exists>pre post. raw = pre @ abi_tail b @ post \<and> length pre = off)"
    by (rule abi_bytes_canonical)
next
  assume r: "hw * 32 \<le> off \<and> off mod 32 = 0 \<and> length b < 2 ^ 256
    \<and> (\<exists>pre post. raw = pre @ abi_tail b @ post \<and> length pre = off)"
  then obtain pre post where "raw = pre @ abi_tail b @ post" "length pre = off" by blast
  with r show "abi_bytes raw off hw = Some b" using abi_bytes_tail [of hw pre b post] by simp
qed

section \<open>The parameter blob\<close>

definition evm_params :: "decoded_evm_vault_parameters \<Rightarrow> bytes" where
  "evm_params d =
     [byte_of (ep_version d)] @ to_le 4 (ep_retry_duration d) @ ep_refund_address d
     @ to_le 32 (ep_min_price d)
     @ [byte_of (ep_ccm d), byte_of (ep_oracle_slippage d), byte_of (ep_dca d),
        byte_of (ep_boost_fee d)]
     @ ep_broker d @ to_le 2 (ep_broker_fee d) @ [byte_of (ep_affiliates d)]"

definition evm_params_ok :: "decoded_evm_vault_parameters \<Rightarrow> bool" where
  "evm_params_ok d \<longleftrightarrow>
     ep_version d < 256 \<and> 0 \<le> ep_retry_duration d \<and> ep_retry_duration d < 2 ^ 32
   \<and> length (ep_refund_address d) = 20 \<and> 0 \<le> ep_min_price d \<and> ep_min_price d < 2 ^ 256
   \<and> ep_ccm d < 256 \<and> ep_oracle_slippage d < 256 \<and> ep_dca d < 256 \<and> ep_boost_fee d < 256
   \<and> length (ep_broker d) = 32 \<and> 0 \<le> ep_broker_fee d \<and> ep_broker_fee d < 2 ^ 16
   \<and> ep_affiliates d < 256"

lemma length_evm_params: "evm_params_ok d \<Longrightarrow> length (evm_params d) = 96"
  by (simp add: evm_params_def evm_params_ok_def)

lemma decode_evm_params:
  assumes "evm_params_ok d"
  shows "decode_evm_vault_parameters (evm_params d) = Some d"
proof -
  have "length (ep_refund_address d) = 20" "length (ep_broker d) = 32"
    using assms by (simp_all add: evm_params_ok_def)
  then show ?thesis
    using assms length_evm_params [OF assms]
    by (simp add: decode_evm_vault_parameters_def EVM_VAULT_PARAMS_BYTES_def evm_params_ok_def
        evm_params_def slice_def nth_append codec_simps)
qed

lemma decode_evm_params_inv:
  assumes "decode_evm_vault_parameters p = Some d"
  shows "evm_params_ok d \<and> p = evm_params d"
proof
  have len: "length p = 96"
    using assms by (auto simp: decode_evm_vault_parameters_def EVM_VAULT_PARAMS_BYTES_def split: if_splits)
  with assms have d: "d = \<lparr>ep_version = unat (p ! 0), ep_retry_duration = le_int (slice 1 5 p),
        ep_refund_address = slice 5 25 p, ep_min_price = le_int (slice 25 57 p),
        ep_ccm = unat (p ! 57), ep_oracle_slippage = unat (p ! 58), ep_dca = unat (p ! 59),
        ep_boost_fee = unat (p ! 60), ep_broker = slice 61 93 p,
        ep_broker_fee = le_int (slice 93 95 p), ep_affiliates = unat (p ! 95)\<rparr>"
    by (simp add: decode_evm_vault_parameters_def EVM_VAULT_PARAMS_BYTES_def)
  show "evm_params_ok d"
    using le_slice_bound [of 5 p 1] le_slice_bound [of 57 p 25] le_slice_bound [of 95 p 93] len
    by (simp add: d evm_params_ok_def unat_byte_lt)
  have "evm_params d = slice 0 1 p @ slice 1 5 p @ slice 5 25 p @ slice 25 57 p @ slice 57 58 p
      @ slice 58 59 p @ slice 59 60 p @ slice 60 61 p @ slice 61 93 p @ slice 93 95 p @ slice 95 96 p"
    using len by (simp add: d evm_params_def le_slice_back byte_at)
  also have "\<dots> = slice 0 96 p" by (simp add: slice_join)
  also have "\<dots> = p" using len by (simp add: slice_all)
  finally show "p = evm_params d" by simp
qed

text \<open>
  The \<open>cfParameters\<close> decoder is exact: it accepts precisely the 96-byte wire forms of field
  values in range and returns those values; every byte of the blob is some field's.
\<close>

theorem evm_params_exact:
  "decode_evm_vault_parameters p = Some d \<longleftrightarrow> evm_params_ok d \<and> p = evm_params d"
  using decode_evm_params decode_evm_params_inv by blast

section \<open>Vault calls\<close>

text \<open>The reference encodings of the two calls, as a Solidity caller makes them.\<close>

definition xswap_native :: "nat \<Rightarrow> bytes \<Rightarrow> nat \<Rightarrow> bytes \<Rightarrow> bytes" where
  "xswap_native chain dest asset params =
     [0xdd, 0x68, 0x73, 0x45] @ be_bytes 32 (int chain) @ be_bytes 32 128 @ be_bytes 32 (int asset)
     @ be_bytes 32 (128 + int (length (abi_tail dest))) @ abi_tail dest @ abi_tail params"

definition xswap_token :: "nat \<Rightarrow> bytes \<Rightarrow> nat \<Rightarrow> nat \<Rightarrow> nat \<Rightarrow> bytes \<Rightarrow> bytes" where
  "xswap_token chain dest asset token amount params =
     [0x04, 0xfc, 0x7d, 0xa0] @ be_bytes 32 (int chain) @ be_bytes 32 192 @ be_bytes 32 (int asset)
     @ be_bytes 32 (int token) @ be_bytes 32 (int amount)
     @ be_bytes 32 (192 + int (length (abi_tail dest))) @ abi_tail dest @ abi_tail params"

lemma length_abi_tail_mod: "length (abi_tail b) mod 32 = 0"
proof -
  have "int (length (abi_tail b)) mod 32 = (int (length b) + - int (length b) mod 32) mod 32"
    by (simp add: abi_tail_def)
  also have "\<dots> = 0" by (simp add: mod_add_right_eq)
  finally show ?thesis by presburger
qed

lemma abi_tail_bound: "length b < 2 ^ 64 \<Longrightarrow> length (abi_tail b) < 2 ^ 65"
proof -
  assume "length b < 2 ^ 64"
  moreover have "nat (- int (length b) mod 32) < 32" by simp
  ultimately show ?thesis by (simp add: abi_tail_def)
qed

lemma xswap_native_decodes:
  assumes "chain < 2 ^ 256" "asset < 2 ^ 256" "length dest < 2 ^ 64" "length params < 2 ^ 64"
  shows "decode_evm_vault_call (xswap_native chain dest asset params)
    = Some \<lparr>ec_destination_chain_id = chain, ec_destination = dest, ec_destination_asset_id = asset,
        ec_source_token = [], ec_source_amount = 0, ec_parameters = params\<rparr>"
proof -
  let ?off = "128 + int (length (abi_tail dest))"
  let ?w0 = "be_bytes 32 (int chain)" and ?w1 = "be_bytes 32 128"
    and ?w2 = "be_bytes 32 (int asset)" and ?w3 = "be_bytes 32 ?off"
  let ?args = "?w0 @ ?w1 @ ?w2 @ ?w3 @ abi_tail dest @ abi_tail params"
  have off: "?off < 2 ^ 256" using abi_tail_bound [OF assms(3)] by simp
  have "abi_word ?args 0 = chain" using abi_word_at [of "[]" 0 "int chain"] assms(1) by simp
  moreover have "abi_word ?args 1 = 128" using abi_word_at [of ?w0 1 128] by simp
  moreover have "abi_word ?args 2 = asset"
    using abi_word_at [of "?w0 @ ?w1" 2 "int asset"] assms(2) by simp
  moreover have "abi_word ?args 3 = nat ?off"
    using abi_word_at [of "?w0 @ ?w1 @ ?w2" 3 ?off] off by simp
  moreover have "abi_bytes ?args 128 4 = Some dest"
    using abi_bytes_tail [of 4 "?w0 @ ?w1 @ ?w2 @ ?w3" dest "abi_tail params"] assms(3) by simp
  moreover have "abi_bytes ?args (nat ?off) 4 = Some params"
    using abi_bytes_tail [of 4 "?w0 @ ?w1 @ ?w2 @ ?w3 @ abi_tail dest" params "[]"] assms(4)
      length_abi_tail_mod [of dest]
    by (simp add: nat_add_distrib mod_add_eq [symmetric])
  moreover have "py_hex [0xdd, 0x68, 0x73, 0x45] = XSWAP_NATIVE_SELECTOR" by code_simp
  ultimately show ?thesis
    by (simp add: decode_evm_vault_call_def xswap_native_def slice_def Let_def
        XSWAP_NATIVE_WORDS_def del: py_hex_simps)
qed

lemma xswap_token_decodes:
  assumes "chain < 2 ^ 256" "asset < 2 ^ 256" "token < 2 ^ 160" "amount < 2 ^ 256"
    "length dest < 2 ^ 64" "length params < 2 ^ 64"
  shows "decode_evm_vault_call (xswap_token chain dest asset token amount params)
    = Some \<lparr>ec_destination_chain_id = chain, ec_destination = dest, ec_destination_asset_id = asset,
        ec_source_token = lit ''0x'' @ hex_pad 40 token, ec_source_amount = amount,
        ec_parameters = params\<rparr>"
proof -
  let ?off = "192 + int (length (abi_tail dest))"
  let ?w0 = "be_bytes 32 (int chain)" and ?w1 = "be_bytes 32 192"
    and ?w2 = "be_bytes 32 (int asset)" and ?w3 = "be_bytes 32 (int token)"
    and ?w4 = "be_bytes 32 (int amount)" and ?w5 = "be_bytes 32 ?off"
  let ?args = "?w0 @ ?w1 @ ?w2 @ ?w3 @ ?w4 @ ?w5 @ abi_tail dest @ abi_tail params"
  have off: "?off < 2 ^ 256" using abi_tail_bound [OF assms(5)] by simp
  have "abi_word ?args 0 = chain" using abi_word_at [of "[]" 0 "int chain"] assms(1) by simp
  moreover have "abi_word ?args 1 = 192" using abi_word_at [of ?w0 1 192] by simp
  moreover have "abi_word ?args 2 = asset"
    using abi_word_at [of "?w0 @ ?w1" 2 "int asset"] assms(2) by simp
  moreover have "abi_word ?args 3 = token"
    using abi_word_at [of "?w0 @ ?w1 @ ?w2" 3 "int token"] assms(3) by simp
  moreover have "abi_word ?args 4 = amount"
    using abi_word_at [of "?w0 @ ?w1 @ ?w2 @ ?w3" 4 "int amount"] assms(4) by simp
  moreover have "abi_word ?args 5 = nat ?off"
    using abi_word_at [of "?w0 @ ?w1 @ ?w2 @ ?w3 @ ?w4" 5 ?off] off by simp
  moreover have "abi_bytes ?args 192 6 = Some dest"
    using abi_bytes_tail [of 6 "?w0 @ ?w1 @ ?w2 @ ?w3 @ ?w4 @ ?w5" dest "abi_tail params"] assms(5)
    by simp
  moreover have "abi_bytes ?args (nat ?off) 6 = Some params"
    using abi_bytes_tail [of 6 "?w0 @ ?w1 @ ?w2 @ ?w3 @ ?w4 @ ?w5 @ abi_tail dest" params "[]"]
      assms(6) length_abi_tail_mod [of dest]
    by (simp add: nat_add_distrib mod_add_eq [symmetric])
  moreover have "py_hex [0x04, 0xfc, 0x7d, 0xa0] = XSWAP_TOKEN_SELECTOR"
    "XSWAP_TOKEN_SELECTOR \<noteq> XSWAP_NATIVE_SELECTOR" by code_simp+
  ultimately show ?thesis
    using assms(3)
    by (simp add: decode_evm_vault_call_def xswap_token_def slice_def Let_def
        XSWAP_TOKEN_WORDS_def del: py_hex_simps)
qed

text \<open>
  The call decoder reads back what an ABI encoder writes: for any destination, parameters,
  chain, asset (and, for \<open>xSwapToken\<close>, token and amount) in range, decoding the encoded call
  gives exactly the arguments.
\<close>

theorem evm_vault_call_roundtrip:
  assumes "chain < 2 ^ 256" "asset < 2 ^ 256" "token < 2 ^ 160" "amount < 2 ^ 256"
    "length dest < 2 ^ 64" "length params < 2 ^ 64"
  shows "decode_evm_vault_call (xswap_native chain dest asset params)
      = Some \<lparr>ec_destination_chain_id = chain, ec_destination = dest, ec_destination_asset_id = asset,
          ec_source_token = [], ec_source_amount = 0, ec_parameters = params\<rparr>
    \<and> decode_evm_vault_call (xswap_token chain dest asset token amount params)
      = Some \<lparr>ec_destination_chain_id = chain, ec_destination = dest, ec_destination_asset_id = asset,
          ec_source_token = lit ''0x'' @ hex_pad 40 token, ec_source_amount = amount,
          ec_parameters = params\<rparr>"
  using xswap_native_decodes [of chain asset dest params]
    xswap_token_decodes [of chain asset token amount dest params] assms
  by blast

lemma evm_vault_call_roundtrip_witness:
  "decode_evm_vault_call (xswap_native 1 [1, 2, 3] 2 [9]) =
    Some \<lparr>ec_destination_chain_id = 1, ec_destination = [1, 2, 3], ec_destination_asset_id = 2,
      ec_source_token = [], ec_source_amount = 0, ec_parameters = [9]\<rparr>"
  using evm_vault_call_roundtrip [of 1 2 5 7 "[1, 2, 3]" "[9]"] by simp

section \<open>What the EVM gates promise\<close>

text \<open>Calldata that matches \<open>0x\<close> + hex up to letter case reads back as those bytes, or not at all.\<close>

lemma calldata_reads_back:
  assumes "py_lower data = lit ''0x'' @ py_hex bs" "py_fromhex (py_removeprefix (lit ''0x'') data) = Some raw"
  shows "raw = bs"
proof -
  have z: "lit ''0x'' = [48, 120]" by (simp add: lit_def)
  obtain a b rest where data: "data = a # b # rest"
    using assms(1) unfolding z py_lower_def by (auto simp: map_eq_Cons_conv)
  from assms(1) have low: "lower_cp a = 48" "lower_cp b = 120" "py_lower rest = py_hex bs"
    by (simp_all add: data z py_lower_def)
  have a: "a = 48" and b: "b = 120 \<or> b = 88"
    using low(1,2) by (auto simp: lower_cp_def split: if_splits)
  have "b \<noteq> 88"
  proof
    assume "b = 88"
    then have "py_fromhex (py_removeprefix (lit ''0x'') data) = None"
      by (simp add: data a z py_removeprefix_def hex_space_def hex_value_def)
    with assms(2) show False by simp
  qed
  with b have "py_removeprefix (lit ''0x'') data = rest"
    by (simp add: data a z py_removeprefix_def)
  moreover have "py_fromhex rest = Some bs"
    using py_fromhex_lower [of rest] low(3) by (simp add: py_fromhex_hex)
  ultimately show ?thesis using assms(2) by simp
qed

lemma verify_vault_parameters_silent:
  "verify_vault_parameters parameters plan = [] \<longleftrightarrow>
   (\<exists>d. parameters = evm_params d \<and> evm_params_ok d \<and> ep_version d = 1
      \<and> py_hex (ep_refund_address d) = py_removeprefix (lit ''0x'') (py_lower (ev_refund_address plan))
      \<and> ev_min_price plan \<le> ep_min_price d \<and> ep_retry_duration d = ev_retry_duration plan
      \<and> ep_broker_fee d = 0 \<and> ep_boost_fee d = 0 \<and> ep_affiliates d = 0
      \<and> ep_ccm d = 0 \<and> ep_oracle_slippage d = 0 \<and> ep_dca d = 0)"
proof (cases "decode_evm_vault_parameters parameters")
  case None
  then show ?thesis using decode_evm_params by (auto simp: verify_vault_parameters_def)
next
  case (Some d)
  note d = decode_evm_params_inv [OF Some]
  have u: "d' = d" if "evm_params_ok d'" "parameters = evm_params d'" for d'
    using that decode_evm_params [of d'] Some by simp
  have "verify_vault_parameters parameters plan = [] \<longleftrightarrow> ep_version d = 1
      \<and> py_hex (ep_refund_address d) = py_removeprefix (lit ''0x'') (py_lower (ev_refund_address plan))
      \<and> ev_min_price plan \<le> ep_min_price d \<and> ep_retry_duration d = ev_retry_duration plan
      \<and> ep_broker_fee d = 0 \<and> ep_boost_fee d = 0 \<and> ep_affiliates d = 0
      \<and> ep_ccm d = 0 \<and> ep_oracle_slippage d = 0 \<and> ep_dca d = 0"
    unfolding verify_vault_parameters_def Some option.case append_is_Nil_conv gate_simps Let_def
      EVM_VAULT_PARAMS_VERSION_def
    by auto
  then show ?thesis using d u by blast
qed

lemma verify_vault_approve_silent:
  "verify_vault_approve abi approve plan = [] \<longleftrightarrow>
   (if ev_source_token plan = [] then approve = None
    else \<exists>tx spender. approve = Some tx \<and> py_lower (tx_to tx) = py_lower (ev_source_token plan)
      \<and> tx_value tx = 0 \<and> tx_chain_id tx = ev_chain_id plan
      \<and> decode_call abi (tx_data tx) APPROVE_SELECTOR = Some (spender, ev_source_amount plan)
      \<and> py_lower spender = py_lower (ev_vault_contract plan))"
  by (auto simp: verify_vault_approve_def gate_simps split: option.splits)

lemma call_check_silent:
  "call_check call swap plan = [] \<longleftrightarrow>
     ec_destination call = ev_destination_bytes plan
   \<and> ec_destination_asset_id call = ev_destination_asset_id plan
   \<and> ec_destination_chain_id call = ev_destination_chain_id plan
   \<and> ec_source_token call = ev_source_token plan
   \<and> (if ev_source_token plan \<noteq> [] then int (ec_source_amount call) else tx_value swap)
       = ev_source_amount plan
   \<and> (ev_source_token plan = [] \<longrightarrow> ec_source_amount call = 0)
   \<and> verify_vault_parameters (ec_parameters call) plan = []"
  unfolding call_check_def append_is_Nil_conv gate_simps Let_def by auto

lemma lower_calldata: "py_lower (lit ''0x'' @ py_hex bs) = lit ''0x'' @ py_hex bs"
  using py_lower_hex [of bs] by (simp add: py_lower_def lower_cp_def lit_def)

text \<open>
  C7: The EVM vault gate returns no problem exactly for the vault swap that was asked for. It calls
  the published Vault contract on the planned chain with the planned value, before the plan
  expires; its calldata is, byte for byte, the planned one, and decodes to our destination, asset
  and chain, our source token, and our source amount (zero in the call of a native swap, whose
  amount is the value); the refund address inside the parameters is the address of the signing
  key, the price floor at least ours, the retry duration ours, and there is no broker, boost or
  affiliate fee, cross-chain message, oracle limit or DCA; a native swap has no approve and a token
  swap exactly one, to the Vault, for exactly the amount; and all gas together stays under the cap.
\<close>

theorem verify_chainflip_evm_vault_swap_safe:
  "verify_chainflip_evm_vault_swap abi swap approve plan now max_fee_wei owned = Some [] \<longleftrightarrow>
     now < ev_expiry plan \<and> py_lower (ev_vault_contract plan) \<in> ev_known_vaults plan
   \<and> py_lower (tx_to swap) = py_lower (ev_vault_contract plan)
   \<and> tx_value swap = ev_value plan \<and> tx_chain_id swap = ev_chain_id plan
   \<and> (if ev_source_token plan = [] then approve = None \<and> ev_source_amount plan = ev_value plan
      else ev_value plan = 0
        \<and> (\<exists>tx spender. approve = Some tx \<and> py_lower (tx_to tx) = py_lower (ev_source_token plan)
             \<and> tx_value tx = 0 \<and> tx_chain_id tx = ev_chain_id plan
             \<and> decode_call abi (tx_data tx) APPROVE_SELECTOR = Some (spender, ev_source_amount plan)
             \<and> py_lower spender = py_lower (ev_vault_contract plan)))
   \<and> py_lower (tx_data swap) = lit ''0x'' @ py_hex (ev_calldata plan)
   \<and> py_fromhex (py_removeprefix (lit ''0x'') (tx_data swap)) = Some (ev_calldata plan)
   \<and> py_lower (ev_refund_address plan) = py_lower owned
   \<and> (\<exists>call d. decode_evm_vault_call (ev_calldata plan) = Some call
        \<and> ec_destination call = ev_destination_bytes plan
        \<and> ec_destination_asset_id call = ev_destination_asset_id plan
        \<and> ec_destination_chain_id call = ev_destination_chain_id plan
        \<and> ec_source_token call = ev_source_token plan
        \<and> int (ec_source_amount call) = (if ev_source_token plan = [] then 0 else ev_source_amount plan)
        \<and> ec_parameters call = evm_params d \<and> evm_params_ok d \<and> ep_version d = 1
        \<and> py_hex (ep_refund_address d) = py_removeprefix (lit ''0x'') (py_lower owned)
        \<and> ev_min_price plan \<le> ep_min_price d \<and> ep_retry_duration d = ev_retry_duration plan
        \<and> ep_broker_fee d = 0 \<and> ep_boost_fee d = 0 \<and> ep_affiliates d = 0
        \<and> ep_ccm d = 0 \<and> ep_oracle_slippage d = 0 \<and> ep_dca d = 0)
   \<and> txs_fee (vault_swap_txs approve swap) \<le> max_fee_wei"
  (is "?gate \<longleftrightarrow> ?intended")
proof (cases "py_fromhex (py_removeprefix (lit ''0x'') (tx_data swap))")
  case None
  then show ?thesis by (simp add: verify_chainflip_evm_vault_swap_def Let_def)
next
  case (Some raw)
  have low: "py_lower (lit ''0x'' @ py_hex (ev_calldata plan)) = lit ''0x'' @ py_hex (ev_calldata plan)"
    by (rule lower_calldata)
  show ?thesis
  proof (cases "py_lower (tx_data swap) = lit ''0x'' @ py_hex (ev_calldata plan)")
    case False
    then show ?thesis
      using Some low
      by (auto simp: verify_chainflip_evm_vault_swap_def Let_def split: option.splits)
  next
    case True
    then have raw: "raw = ev_calldata plan" using calldata_reads_back Some by blast
    show ?thesis
    proof (cases "decode_evm_vault_call (ev_calldata plan)")
      case None
      then show ?thesis
        using Some raw by (simp add: verify_chainflip_evm_vault_swap_def Let_def)
    next
      case call: (Some call)
      have "?gate \<longleftrightarrow> now < ev_expiry plan \<and> py_lower (ev_vault_contract plan) \<in> ev_known_vaults plan
          \<and> py_lower (tx_to swap) = py_lower (ev_vault_contract plan)
          \<and> tx_value swap = ev_value plan \<and> (ev_source_token plan \<noteq> [] \<longrightarrow> ev_value plan = 0)
          \<and> tx_chain_id swap = ev_chain_id plan
          \<and> py_lower (ev_refund_address plan) = py_lower owned
          \<and> verify_vault_approve abi approve plan = [] \<and> call_check call swap plan = []
          \<and> txs_fee (vault_swap_txs approve swap) \<le> max_fee_wei"
        unfolding verify_chainflip_evm_vault_swap_def Let_def Some raw option.case call low True
        by (auto split: if_splits)
      also have "\<dots> \<longleftrightarrow> ?intended"
        unfolding verify_vault_approve_silent call_check_silent verify_vault_parameters_silent
        using Some raw call True by (cases "ev_source_token plan = []") auto
      finally show ?thesis .
    qed
  qed
qed

definition ex_params :: decoded_evm_vault_parameters where
  "ex_params = \<lparr>ep_version = 1, ep_retry_duration = 100, ep_refund_address = replicate 20 0x11,
     ep_min_price = 5, ep_ccm = 0, ep_oracle_slippage = 0, ep_dca = 0, ep_boost_fee = 0,
     ep_broker = replicate 32 7, ep_broker_fee = 0, ep_affiliates = 0\<rparr>"

definition ex_owned :: pystr where
  "ex_owned = lit ''0x1111111111111111111111111111111111111111''"

definition ex_evm_plan :: chainflip_evm_vault_plan where
  "ex_evm_plan = \<lparr>ev_vault_contract = lit ''0xab'',
     ev_calldata = xswap_native 3 [1, 2] 6 (evm_params ex_params), ev_value = 900,
     ev_source_token = [], ev_source_amount = 900, ev_expiry = 50, ev_chain_id = 1,
     ev_destination_chain_id = 3, ev_destination_asset_id = 6, ev_destination_bytes = [1, 2],
     ev_refund_address = ex_owned, ev_min_price = 4, ev_retry_duration = 100,
     ev_known_vaults = {lit ''0xab''}\<rparr>"

definition ex_evm_tx :: eth_tx where
  "ex_evm_tx = \<lparr>tx_to = lit ''0xAB'', tx_value = 900, tx_chain_id = 1, tx_gas = 120000,
     tx_max_fee = 10, tx_data = lit ''0x'' @ py_hex (ev_calldata ex_evm_plan)\<rparr>"

lemma ex_evm_passes:
  "verify_chainflip_evm_vault_swap abi ex_evm_tx None ex_evm_plan 20 2000000 ex_owned = Some []"
proof -
  have ok: "evm_params_ok ex_params" by (simp add: evm_params_ok_def ex_params_def)
  have call: "decode_evm_vault_call (ev_calldata ex_evm_plan)
      = Some \<lparr>ec_destination_chain_id = 3, ec_destination = [1, 2], ec_destination_asset_id = 6,
          ec_source_token = [], ec_source_amount = 0, ec_parameters = evm_params ex_params\<rparr>"
    using length_evm_params [OF ok] by (simp add: ex_evm_plan_def xswap_native_decodes)
  have refund: "py_hex (ep_refund_address ex_params) = py_removeprefix (lit ''0x'') (py_lower ex_owned)"
    by code_simp
  have low: "py_lower (lit ''0xAB'') = lit ''0xab''" "py_lower (lit ''0xab'') = lit ''0xab''" by code_simp+
  have hex: "py_fromhex (py_removeprefix (lit ''0x'') (tx_data ex_evm_tx)) = Some (ev_calldata ex_evm_plan)"
    by (simp add: ex_evm_tx_def py_removeprefix_def py_fromhex_hex)
  have data: "py_lower (tx_data ex_evm_tx) = py_lower (lit ''0x'' @ py_hex (ev_calldata ex_evm_plan))"
    by (simp add: ex_evm_tx_def)
  have "verify_vault_parameters (evm_params ex_params) ex_evm_plan = []"
    unfolding verify_vault_parameters_silent
    using ok refund by (intro exI [of _ ex_params]) (simp add: ex_evm_plan_def ex_params_def)
  then have check: "call_check \<lparr>ec_destination_chain_id = 3, ec_destination = [1, 2],
      ec_destination_asset_id = 6, ec_source_token = [], ec_source_amount = 0,
      ec_parameters = evm_params ex_params\<rparr> ex_evm_tx ex_evm_plan = []"
    by (simp add: call_check_silent) (simp add: ex_evm_plan_def ex_evm_tx_def)
  have approve: "verify_vault_approve abi None ex_evm_plan = []"
    by (simp add: verify_vault_approve_def ex_evm_plan_def)
  show ?thesis
    unfolding verify_chainflip_evm_vault_swap_def Let_def data hex call check approve option.case
    by (simp add: low txs_fee_def vault_swap_txs_def) (simp add: ex_evm_plan_def ex_evm_tx_def low)
qed

text \<open>The same swap of a token: 700 of the token \<open>0x..05\<close>, with its approve.\<close>

definition ex_token :: pystr where
  "ex_token = lit ''0x'' @ hex_pad 40 5"

definition ex_token_plan :: chainflip_evm_vault_plan where
  "ex_token_plan = ex_evm_plan
     \<lparr>ev_calldata := xswap_token 3 [1, 2] 6 5 700 (evm_params ex_params), ev_value := 0,
      ev_source_token := ex_token, ev_source_amount := 700\<rparr>"

definition ex_token_tx :: eth_tx where
  "ex_token_tx = ex_evm_tx\<lparr>tx_value := 0, tx_data := lit ''0x'' @ py_hex (ev_calldata ex_token_plan)\<rparr>"

definition ex_approve :: eth_tx where
  "ex_approve = \<lparr>tx_to = ex_token, tx_value = 0, tx_chain_id = 1, tx_gas = 60000, tx_max_fee = 10,
     tx_data = lit ''0x'' @ py_hex ([0x09, 0x5e, 0xa7, 0xb3] @ be_bytes 32 700)\<rparr>"

definition ex_abi :: "bytes \<Rightarrow> (pystr \<times> int) option" where
  "ex_abi bs = Some (lit ''0xAB'', int (abi_word bs 0))"

lemma verify_chainflip_evm_vault_swap_safe_witness:
  "verify_chainflip_evm_vault_swap ex_abi ex_evm_tx None ex_evm_plan 20 2000000 ex_owned = Some []
   \<and> verify_chainflip_evm_vault_swap ex_abi ex_token_tx (Some ex_approve) ex_token_plan 20 2000000 ex_owned = Some []
   \<and> verify_chainflip_evm_vault_swap ex_abi ex_token_tx (Some ex_approve)
       (ex_token_plan\<lparr>ev_source_amount := 701\<rparr>) 20 2000000 ex_owned \<noteq> Some []"
proof (intro conjI)
  have ok: "evm_params_ok ex_params" by (simp add: evm_params_ok_def ex_params_def)
  have refund: "py_hex (ep_refund_address ex_params) = py_removeprefix (lit ''0x'') (py_lower ex_owned)"
    by code_simp
  have low: "py_lower (lit ''0xAB'') = lit ''0xab''" "py_lower (lit ''0xab'') = lit ''0xab''" by code_simp+
  have call: "decode_evm_vault_call (ev_calldata ex_token_plan)
      = Some \<lparr>ec_destination_chain_id = 3, ec_destination = [1, 2], ec_destination_asset_id = 6,
          ec_source_token = ex_token, ec_source_amount = 700, ec_parameters = evm_params ex_params\<rparr>"
    using length_evm_params [OF ok] by (simp add: ex_token_plan_def xswap_token_decodes ex_token_def)
  have params: "\<exists>d. evm_params ex_params = evm_params d \<and> evm_params_ok d \<and> ep_version d = 1
      \<and> py_hex (ep_refund_address d) = py_removeprefix (lit ''0x'') (py_lower ex_owned)
      \<and> 4 \<le> ep_min_price d \<and> ep_retry_duration d = 100 \<and> ep_broker_fee d = 0 \<and> ep_boost_fee d = 0
      \<and> ep_affiliates d = 0 \<and> ep_ccm d = 0 \<and> ep_oracle_slippage d = 0 \<and> ep_dca d = 0"
    using ok refund by (intro exI [of _ ex_params]) (simp add: ex_params_def)
  have strip: "py_removeprefix (lit ''0x'') (lit ''0x'' @ t) = t" for t
    by (simp add: py_removeprefix_def)
  have "ex_token \<noteq> []" by (simp add: ex_token_def lit_def)
  have approved: "decode_call ex_abi (tx_data ex_approve) APPROVE_SELECTOR = Some (lit ''0xAB'', 700)"
  proof -
    have "abi_word (be_bytes 32 700) 0 = 700" using abi_word_at [of "[]" 0 700 "[]"] by simp
    moreover have "py_hex [0x09, 0x5e, 0xa7, 0xb3] = APPROVE_SELECTOR"
      by (simp add: py_hex_def hex_digit_def APPROVE_SELECTOR_def lit_def)
    ultimately show ?thesis
      by (simp add: decode_call_def ex_approve_def py_removeprefix_def py_fromhex_hex ex_abi_def slice_def)
  qed
  show "verify_chainflip_evm_vault_swap ex_abi ex_evm_tx None ex_evm_plan 20 2000000 ex_owned = Some []"
    by (rule ex_evm_passes)
  show "verify_chainflip_evm_vault_swap ex_abi ex_token_tx (Some ex_approve) ex_token_plan 20 2000000 ex_owned = Some []"
    unfolding verify_chainflip_evm_vault_swap_safe call
    using \<open>ex_token \<noteq> []\<close> approved params low
    by (simp add: ex_token_tx_def ex_token_plan_def ex_evm_tx_def ex_evm_plan_def py_fromhex_hex
        strip lower_calldata txs_fee_def vault_swap_txs_def ex_approve_def)
  show "verify_chainflip_evm_vault_swap ex_abi ex_token_tx (Some ex_approve)
       (ex_token_plan\<lparr>ev_source_amount := 701\<rparr>) 20 2000000 ex_owned \<noteq> Some []"
    unfolding verify_chainflip_evm_vault_swap_safe
    using \<open>ex_token \<noteq> []\<close> approved by (simp add: ex_token_plan_def)
qed

text \<open>
  The ERC-20 router deposit gate is silent exactly when both transactions are what the swap
  needs: an approve on the token, to the router, for exactly the amount; a deposit on the router
  naming the vault, the token, the amount, the memo and the expiry; no ether on either, the right
  chain, an unexpired quote, a memo that names the destination, and all gas under the cap.
\<close>

theorem verify_eth_token_swap_safe:
  "verify_eth_token_swap abi_a abi_d b destination now max_fee_wei = [] \<longleftrightarrow>
     now < tb_expiry b
   \<and> py_lower (tx_to (tb_approve b)) = py_lower (tb_token b)
   \<and> py_lower (tx_to (tb_deposit b)) = py_lower (tb_router b)
   \<and> tx_value (tb_approve b) = 0 \<and> tx_value (tb_deposit b) = 0
   \<and> tx_chain_id (tb_approve b) = tb_chain_id b \<and> tx_chain_id (tb_deposit b) = tb_chain_id b
   \<and> (\<exists>spender. decode_call abi_a (tx_data (tb_approve b)) APPROVE_SELECTOR
          = Some (spender, tb_native_amount b) \<and> py_lower spender = py_lower (tb_router b))
   \<and> (\<exists>v t. decode_call abi_d (tx_data (tb_deposit b)) DEPOSIT_SELECTOR
          = Some (v, t, tb_native_amount b, tb_memo b, tb_expiry b)
        \<and> py_lower v = py_lower (tb_vault b) \<and> py_lower t = py_lower (tb_token b)
        \<and> memo_pays_destination destination (MemoText (tb_memo b)))
   \<and> txs_fee [tb_approve b, tb_deposit b] \<le> max_fee_wei"
  unfolding verify_eth_token_swap_def Let_def append_is_Nil_conv gate_simps
  by (auto split: option.splits if_splits)

lemma approval_check_silent:
  "approval_check abi b (i, tx) = [] \<longleftrightarrow>
     py_lower (tx_to tx) = py_lower (ap_token b) \<and> tx_value tx = 0 \<and> tx_chain_id tx = ap_chain_id b
   \<and> (\<exists>spender. decode_call abi (tx_data tx) APPROVE_SELECTOR
        = Some (spender, if Suc i = length (ap_txs b) then ap_amount b else 0)
      \<and> py_lower spender = py_lower (ap_spender b))"
proof -
  have "int i = int (length (ap_txs b)) - 1 \<longleftrightarrow> Suc i = length (ap_txs b)" by linarith
  then show ?thesis
    unfolding approval_check_def prod.case Let_def append_is_Nil_conv gate_simps
    by (auto split: option.splits if_splits)
qed

text \<open>
  The approvals gate is silent exactly when every transaction is an approve on the intended
  token to the intended spender, with no ether and on the right chain, granting zero except for
  the last, which grants exactly the intended amount; and the gas stays under the cap. So
  whatever prefix of the batch is mined, the allowance granted is zero or the intended amount.
\<close>

theorem verify_eth_approvals_safe:
  "verify_eth_approvals abi b max_fee_wei = [] \<longleftrightarrow>
     list_all (\<lambda>(i, tx).
        py_lower (tx_to tx) = py_lower (ap_token b) \<and> tx_value tx = 0 \<and> tx_chain_id tx = ap_chain_id b
      \<and> (\<exists>spender. decode_call abi (tx_data tx) APPROVE_SELECTOR
           = Some (spender, if Suc i = length (ap_txs b) then ap_amount b else 0)
         \<and> py_lower spender = py_lower (ap_spender b))) (enumerate 0 (ap_txs b))
   \<and> txs_fee (ap_txs b) \<le> max_fee_wei"
  unfolding verify_eth_approvals_def append_is_Nil_conv gate_simps Let_def
  by (auto simp: list_all_iff approval_check_silent)

end
