(* ===== verification/PyJson.thy ===== *)
theory PyJson
  imports PyText PyFloat
begin

text \<open>
  Decoded JSON, as \<open>json.loads\<close> gives it to the parsers and gates: \<open>null\<close> is Python's \<open>None\<close>, an
  object a dict (an association list with distinct keys). \<open>int(...)\<close> of such a value may raise;
  the exception is a value of \<open>py_error\<close>.
\<close>

datatype json =
  JNull
| JBool bool
| JInt int
| JFloat float64
| JStr pystr
| JList "json list"
| JObj "(pystr \<times> json) list"

datatype py_error = ValueError | TypeError | KeyError | AttributeError | IndexError | OverflowError
  | StructError

text \<open>\<open>int(x)\<close>: truncation for a float, the decimal syntax for a string.\<close>

fun fl_trunc :: "float64 \<Rightarrow> int" where
  "fl_trunc x = (if fl_nonneg x then fl_floor x else fl_ceil x)"

fun json_int :: "json \<Rightarrow> py_error + int" where
  "json_int (JInt n) = Inr n"
| "json_int (JBool b) = Inr (if b then 1 else 0)"
| "json_int (JFloat x) = Inr (fl_trunc x)"
| "json_int (JStr s) = (case py_int s of None \<Rightarrow> Inl ValueError | Some n \<Rightarrow> Inr n)"
| "json_int _ = Inl TypeError"

text \<open>\<open>d.get(key)\<close> and \<open>d.get(key, default)\<close> of a dict.\<close>

definition dget :: "(pystr \<times> json) list \<Rightarrow> pystr \<Rightarrow> json" where
  "dget d k = (case map_of d k of None \<Rightarrow> JNull | Some v \<Rightarrow> v)"

definition dget_or :: "(pystr \<times> json) list \<Rightarrow> pystr \<Rightarrow> json \<Rightarrow> json" where
  "dget_or d k v = (case map_of d k of None \<Rightarrow> v | Some w \<Rightarrow> w)"

text \<open>\<open>bool(x)\<close>.\<close>

fun json_truthy :: "json \<Rightarrow> bool" where
  "json_truthy JNull = False"
| "json_truthy (JBool b) = b"
| "json_truthy (JInt n) = (n \<noteq> 0)"
| "json_truthy (JFloat x) = (case x of Flt m e \<Rightarrow> m \<noteq> 0)"
| "json_truthy (JStr s) = (s \<noteq> [])"
| "json_truthy (JList xs) = (xs \<noteq> [])"
| "json_truthy (JObj d) = (d \<noteq> [])"

lemma json_int_dec [simp]: "json_int (JStr (dec_int n)) = Inr n"
  by (simp add: py_int_dec_int)

section \<open>Reading a decoded body\<close>

text \<open>
  \<open>x.get(k, default)\<close>, \<open>x[k]\<close> and \<open>k in x\<close> of an arbitrary decoded value: only an object has
  \<open>get\<close>, indexing anything else by a string is a TypeError, and \<open>in\<close> also answers for lists and
  strings.
\<close>

fun jget_or :: "json \<Rightarrow> pystr \<Rightarrow> json \<Rightarrow> py_error + json" where
  "jget_or (JObj d) k v = Inr (dget_or d k v)"
| "jget_or _ k v = Inl AttributeError"

definition jget :: "json \<Rightarrow> pystr \<Rightarrow> py_error + json" where
  "jget x k = jget_or x k JNull"

fun jindex :: "json \<Rightarrow> pystr \<Rightarrow> py_error + json" where
  "jindex (JObj d) k = (case map_of d k of None \<Rightarrow> Inl KeyError | Some v \<Rightarrow> Inr v)"
| "jindex _ k = Inl TypeError"

fun jhas :: "pystr \<Rightarrow> json \<Rightarrow> py_error + bool" where
  "jhas k (JObj d) = Inr (map_of d k \<noteq> None)"
| "jhas k (JList xs) = Inr (JStr k \<in> set xs)"
| "jhas k (JStr s) = Inr (py_in k s)"
| "jhas k _ = Inl TypeError"

text \<open>\<open>int(x[k])\<close> and \<open>int(x.get(k, default))\<close>.\<close>

definition jint_at :: "json \<Rightarrow> pystr \<Rightarrow> py_error + int" where
  "jint_at x k = bind_res (jindex x k) json_int"

definition jint_or :: "json \<Rightarrow> pystr \<Rightarrow> json \<Rightarrow> py_error + int" where
  "jint_or x k v = bind_res (jget_or x k v) json_int"

text \<open>\<open>x or y\<close> of JSON values, and \<open>for e in x\<close>: objects yield their keys, strings their characters.\<close>

definition json_or :: "json \<Rightarrow> json \<Rightarrow> json" where
  "json_or x y = (if json_truthy x then x else y)"

fun json_iter :: "json \<Rightarrow> py_error + json list" where
  "json_iter (JList xs) = Inr xs"
| "json_iter (JObj d) = Inr (map (JStr \<circ> fst) d)"
| "json_iter (JStr s) = Inr (map (\<lambda>c. JStr [c]) s)"
| "json_iter _ = Inl TypeError"

text \<open>Only strings, numbers, booleans and None are hashable, hence usable as dictionary keys.\<close>

fun json_hashable :: "json \<Rightarrow> bool" where
  "json_hashable (JList xs) = False"
| "json_hashable (JObj d) = False"
| "json_hashable _ = True"

end
