(* ===== verification/ChainBase.thy ===== *)
theory ChainBase
  imports Coins
begin

text \<open>
  The chain-neutral data of \<open>src/swapsack/chains/base.py\<close> (address info, balance report,
  transaction summary) and the gap-limit account scan of \<open>src/swapsack/chains/scan.py\<close>, whose
  address derivation and probe are parameters.
\<close>

section \<open>\<open>chains/base.py\<close>\<close>

record address_info =
  ai_has_history :: bool
  ai_confirmed :: int
  ai_pending :: int

record balance_report =
  br_symbol :: pystr
  br_confirmed :: int
  br_decimals :: int
  br_pending :: int
  br_note :: pystr
  br_addresses :: "pystr list"

record tx_entry =
  te_value :: int
  te_address :: "pystr option"
  te_op_return :: bool
  te_txid :: "pystr option"
  te_vout :: "int option"
  te_sequence :: "int option"
  te_op_return_data :: "bytes option"
  te_spent_by :: "pystr option"

record tx_summary =
  ts_txid :: pystr
  ts_confirmed :: bool
  ts_block_height :: "int option"
  ts_fee :: int
  ts_vsize :: int
  ts_inputs :: "tx_entry list"
  ts_outputs :: "tx_entry list"
  ts_block_time :: "int option"

definition total_in :: "tx_summary \<Rightarrow> int" where
  "total_in tx = sum_list (map te_value (ts_inputs tx))"

definition total_out :: "tx_summary \<Rightarrow> int" where
  "total_out tx = sum_list (map te_value (ts_outputs tx))"

definition summary_fee_rate :: "tx_summary \<Rightarrow> float64" where
  "summary_fee_rate tx =
     (if ts_vsize tx \<noteq> 0 then fl_div_int (ts_fee tx) (ts_vsize tx) else Flt 0 0)"

definition has_op_return :: "tx_summary \<Rightarrow> bool" where
  "has_op_return tx \<longleftrightarrow> list_ex te_op_return (ts_outputs tx)"

definition signals_rbf :: "tx_summary \<Rightarrow> bool" where
  "signals_rbf tx \<longleftrightarrow>
     list_ex (\<lambda>i. case te_sequence i of None \<Rightarrow> False | Some s \<Rightarrow> s < RBF_SEQUENCE_MAX) (ts_inputs tx)"

section \<open>\<open>chains/scan.py\<close>\<close>

definition DEFAULT_GAP_LIMIT :: nat where
  "DEFAULT_GAP_LIMIT = 20"

definition DEFAULT_WINDOW :: nat where
  "DEFAULT_WINDOW = 10"

definition scan_path :: "pystr \<Rightarrow> nat \<Rightarrow> nat \<Rightarrow> pystr" where
  "scan_path account branch index = account @ [47] @ dec_nat branch @ [47] @ dec_nat index"

text \<open>
  One window: the results in order, resetting the gap at a used address. The thread pool's
  \<open>map\<close> keeps the order of its arguments, so the concurrency does not show.
\<close>

fun scan_window ::
  "('i \<Rightarrow> bool) \<Rightarrow> (pystr \<times> pystr \<times> 'i) list \<Rightarrow> nat \<Rightarrow> (pystr \<times> pystr \<times> 'i) list
   \<Rightarrow> nat \<times> (pystr \<times> pystr \<times> 'i) list" where
  "scan_window has_history [] gap found = (gap, found)"
| "scan_window has_history ((path, address, info) # rest) gap found =
     (if has_history info then scan_window has_history rest 0 (found @ [(path, address, info)])
      else scan_window has_history rest (gap + 1) found)"

definition window_of ::
  "(pystr \<Rightarrow> pystr) \<Rightarrow> (pystr \<Rightarrow> 'i) \<Rightarrow> pystr \<Rightarrow> nat \<Rightarrow> nat \<Rightarrow> nat \<Rightarrow> (pystr \<times> pystr \<times> 'i) list" where
  "window_of derive probe account branch index window =
     map (\<lambda>i. let path = scan_path account branch (index + i); address = derive path
              in (path, address, probe address)) [0..<window]"

text \<open>
  The \<open>while gap < gap_limit\<close> loop of one branch. It ends only if the wallet's history does;
  a wallet with endless history keeps it running, which is the value None.
\<close>

partial_function (option) scan_branch ::
  "(pystr \<Rightarrow> pystr) \<Rightarrow> (pystr \<Rightarrow> 'i) \<Rightarrow> ('i \<Rightarrow> bool) \<Rightarrow> pystr \<Rightarrow> nat \<Rightarrow> nat \<Rightarrow> nat \<Rightarrow> nat \<Rightarrow> nat
   \<Rightarrow> (pystr \<times> pystr \<times> 'i) list \<Rightarrow> (pystr \<times> pystr \<times> 'i) list option" where
  "scan_branch derive probe has_history account branch gap_limit window gap index found =
     (if gap_limit \<le> gap then Some found
      else
        case scan_window has_history (window_of derive probe account branch index window) gap found of
          (gap', found') \<Rightarrow>
            scan_branch derive probe has_history account branch gap_limit window gap' (index + window) found')"

fun scan_branches ::
  "(pystr \<Rightarrow> pystr) \<Rightarrow> (pystr \<Rightarrow> 'i) \<Rightarrow> ('i \<Rightarrow> bool) \<Rightarrow> pystr \<Rightarrow> nat \<Rightarrow> nat \<Rightarrow> nat list
   \<Rightarrow> (pystr \<times> pystr \<times> 'i) list \<Rightarrow> (pystr \<times> pystr \<times> 'i) list option" where
  "scan_branches derive probe has_history account gap_limit window [] found = Some found"
| "scan_branches derive probe has_history account gap_limit window (b # bs) found =
     (case scan_branch derive probe has_history account b gap_limit window 0 0 found of
        None \<Rightarrow> None
      | Some found' \<Rightarrow> scan_branches derive probe has_history account gap_limit window bs found')"

definition scan_account ::
  "(pystr \<Rightarrow> pystr) \<Rightarrow> (pystr \<Rightarrow> 'i) \<Rightarrow> ('i \<Rightarrow> bool) \<Rightarrow> pystr \<Rightarrow> nat \<Rightarrow> nat list \<Rightarrow> nat
   \<Rightarrow> (pystr \<times> pystr \<times> 'i) list option" where
  "scan_account derive probe has_history account gap_limit branches window =
     scan_branches derive probe has_history account gap_limit window branches []"

definition wallet_balance_from_scan ::
  "(pystr \<Rightarrow> pystr) \<Rightarrow> (pystr \<Rightarrow> address_info) \<Rightarrow> pystr \<Rightarrow> pystr \<Rightarrow> int \<Rightarrow> balance_report option" where
  "wallet_balance_from_scan derive probe account symbol decimals =
     map_option (\<lambda>records.
       \<lparr>br_symbol = symbol,
        br_confirmed = sum_list (map (\<lambda>(_, _, info). ai_confirmed info) records),
        br_decimals = decimals,
        br_pending = sum_list (map (\<lambda>(_, _, info). ai_pending info) records),
        br_note = lit ''('' @ dec_nat (length records) @ lit '' used addresses)'',
        br_addresses = map (\<lambda>(_, address, _). address) records\<rparr>)
     (scan_account derive probe ai_has_history account DEFAULT_GAP_LIMIT [0, 1] DEFAULT_WINDOW)"

section \<open>What the scan finds\<close>

text \<open>The entries of a branch below an index, and the run of unused entries at the end of a list.\<close>

abbreviation entries ::
  "(pystr \<Rightarrow> pystr) \<Rightarrow> (pystr \<Rightarrow> 'i) \<Rightarrow> pystr \<Rightarrow> nat \<Rightarrow> nat \<Rightarrow> (pystr \<times> pystr \<times> 'i) list" where
  "entries derive probe account branch n \<equiv> window_of derive probe account branch 0 n"

definition used :: "('i \<Rightarrow> bool) \<Rightarrow> pystr \<times> pystr \<times> 'i \<Rightarrow> bool" where
  "used has_history e = (case e of (path, address, info) \<Rightarrow> has_history info)"

definition ends_unused :: "('i \<Rightarrow> bool) \<Rightarrow> nat \<Rightarrow> (pystr \<times> pystr \<times> 'i) list \<Rightarrow> bool" where
  "ends_unused h g es \<longleftrightarrow> g \<le> length es \<and> list_all (\<lambda>e. \<not> used h e) (drop (length es - g) es)"

lemma ends_unused_mono: "ends_unused h g es \<Longrightarrow> g' \<le> g \<Longrightarrow> ends_unused h g' es"
proof -
  assume a: "ends_unused h g es" "g' \<le> g"
  have "set (drop (length es - g') es) \<subseteq> set (drop (length es - g) es)"
    using a(2) by (intro set_drop_subset_set_drop) simp
  with a show ?thesis unfolding ends_unused_def list_all_iff by (meson subsetD le_trans)
qed

lemma length_window_of [simp]: "length (window_of d p a b i n) = n"
  by (simp add: window_of_def)

lemma entries_extend: "entries d p a b i @ window_of d p a b i n = entries d p a b (i + n)"
proof -
  have "map f [0..<i + n] = map f [0..<i] @ map (\<lambda>k. f (i + k)) [0..<n]" for f :: "nat \<Rightarrow> 'c"
    by (induction n) auto
  from this [of "\<lambda>k. let path = scan_path a b k; address = d path in (path, address, p address)"]
  show ?thesis by (simp add: window_of_def)
qed

lemma scan_window_result:
  assumes "scan_window h ws gap found = (gap', found')" "ends_unused h gap es"
  shows "found' = found @ filter (used h) ws \<and> ends_unused h gap' (es @ ws)"
  using assms
proof (induction ws arbitrary: gap found es)
  case Nil
  then show ?case by simp
next
  case (Cons w ws)
  obtain path address info where w: "w = (path, address, info)" by (cases w) auto
  show ?case
  proof (cases "h info")
    case True
    have "ends_unused h 0 (es @ [w])" by (simp add: ends_unused_def)
    with Cons.prems True show ?thesis
      using Cons.IH [of 0 "found @ [w]" "es @ [w]"] by (simp add: w used_def)
  next
    case False
    have "ends_unused h (gap + 1) (es @ [w])"
      using Cons.prems(2) False by (simp add: ends_unused_def w used_def)
    with Cons.prems False show ?thesis
      using Cons.IH [of "gap + 1" found "es @ [w]"] by (simp add: w used_def)
  qed
qed

lemma scan_branch_invariant:
  assumes "scan_branch d p h a b limit w gap i found = Some r"
    and "found = acc @ filter (used h) (entries d p a b i)" "ends_unused h gap (entries d p a b i)"
  shows "\<exists>n. r = acc @ filter (used h) (entries d p a b n) \<and> ends_unused h limit (entries d p a b n)"
proof -
  define P where "P d p h a b limit w gap i found r \<longleftrightarrow>
      (\<forall>acc. found = acc @ filter (used h) (entries d p a b i) \<longrightarrow> ends_unused h gap (entries d p a b i)
      \<longrightarrow> (\<exists>n. r = acc @ filter (used h) (entries d p a b n)
            \<and> ends_unused h limit (entries d p a b n)))"
    for d :: "pystr \<Rightarrow> pystr" and p :: "pystr \<Rightarrow> 'a" and h :: "'a \<Rightarrow> bool" and a :: pystr
      and b limit w gap i :: nat and found r :: "(pystr \<times> pystr \<times> 'a) list"
  have "P d p h a b limit w gap i found r"
  proof (rule scan_branch.raw_induct [of P, OF _ assms(1)])
    fix scan :: "(pystr \<Rightarrow> pystr) \<Rightarrow> (pystr \<Rightarrow> 'a) \<Rightarrow> ('a \<Rightarrow> bool) \<Rightarrow> pystr \<Rightarrow> nat \<Rightarrow> nat \<Rightarrow> nat \<Rightarrow> nat \<Rightarrow> nat
        \<Rightarrow> (pystr \<times> pystr \<times> 'a) list \<Rightarrow> (pystr \<times> pystr \<times> 'a) list option"
      and d :: "pystr \<Rightarrow> pystr" and p :: "pystr \<Rightarrow> 'a" and h a b limit w gap i found r
    assume ih: "\<And>d p h a b limit w gap i found r.
        scan d p h a b limit w gap i found = Some r \<Longrightarrow> P d p h a b limit w gap i found r"
      and step: "(if limit \<le> gap then Some found
        else case scan_window h (window_of d p a b i w) gap found of
          (gap', found') \<Rightarrow> scan d p h a b limit w gap' (i + w) found') = Some r"
    show "P d p h a b limit w gap i found r"
      unfolding P_def
    proof (intro allI impI)
      fix acc assume found: "found = acc @ filter (used h) (entries d p a b i)"
        and unused: "ends_unused h gap (entries d p a b i)"
      show "\<exists>n. r = acc @ filter (used h) (entries d p a b n) \<and> ends_unused h limit (entries d p a b n)"
      proof (cases "limit \<le> gap")
        case True
        with unused step found show ?thesis by (auto intro: ends_unused_mono)
      next
        case False
        obtain g f where sw: "scan_window h (window_of d p a b i w) gap found = (g, f)" by fastforce
        from scan_window_result [OF this unused]
        have "f = acc @ filter (used h) (entries d p a b (i + w))"
          and "ends_unused h g (entries d p a b (i + w))"
          unfolding found entries_extend [symmetric] by simp_all
        moreover have "P d p h a b limit w g (i + w) f r"
          using step False by (intro ih) (simp add: sw)
        ultimately show ?thesis unfolding P_def by blast
      qed
    qed
  qed
  then show ?thesis using assms(2,3) unfolding P_def by blast
qed

text \<open>
  A finished scan misses nothing that the gap limit promises. The records of a branch are
  exactly the used addresses of a prefix of the branch, in order, whose last \<open>gap_limit\<close>
  addresses are unused. So a used address is missing only behind \<open>gap_limit\<close> consecutive unused
  ones.
\<close>

theorem scan_branch_complete:
  assumes "scan_branch derive probe h account branch gap_limit window 0 0 [] = Some records"
  shows "\<exists>n. records = filter (used h) (entries derive probe account branch n)
    \<and> ends_unused h gap_limit (entries derive probe account branch n)"
  using scan_branch_invariant [OF assms, of "[]"] by (simp add: ends_unused_def window_of_def)

lemma scan_branch_complete_witness:
  "\<exists>n. [(scan_path [109] 0 1, scan_path [109] 0 1, True)]
      = filter (used id) (entries id (\<lambda>s. s = scan_path [109] 0 1) [109] 0 n)
    \<and> ends_unused id 2 (entries id (\<lambda>s. s = scan_path [109] 0 1) [109] 0 n)"
proof -
  let ?p = "\<lambda>s. s = scan_path [109] 0 1"
  have "scan_branch id ?p id [109] 0 2 2 0 0 [] = Some [(scan_path [109] 0 1, scan_path [109] 0 1, True)]"
    by (simp add: scan_branch.simps window_of_def scan_path_def Let_def numeral_2_eq_2 dec_nat.simps [of 0]
        dec_nat.simps [of 1] dec_nat.simps [of "Suc 0"] dec_nat.simps [of 2] dec_nat.simps [of 3]
        dec_nat.simps [of "Suc (Suc 0)"] dec_nat.simps [of "Suc (Suc (Suc 0))"])
  then show ?thesis by (rule scan_branch_complete)
qed

lemma scan_branch_past_history:
  assumes "0 < w" "\<And>k. i \<le> k \<Longrightarrow> \<not> h (p (d (scan_path a b k)))"
  shows "\<exists>r. scan_branch d p h a b limit w gap i found = Some r"
  using assms(2)
proof (induction "limit - gap" arbitrary: gap i found rule: less_induct)
  case less
  show ?case
  proof (cases "limit \<le> gap")
    case True
    then show ?thesis by (simp add: scan_branch.simps)
  next
    case False
    have unused: "scan_window h ws g f = (g + length ws, f)"
      if "list_all (\<lambda>e. \<not> used h e) ws" for ws g f
      using that by (induction ws arbitrary: g) (auto simp: used_def)
    have "list_all (\<lambda>e. \<not> used h e) (window_of d p a b i w)"
      using less.prems by (auto simp: list_all_iff window_of_def used_def Let_def)
    then have step: "scan_branch d p h a b limit w gap i found
        = scan_branch d p h a b limit w (gap + w) (i + w) found"
      using False by (subst scan_branch.simps) (simp add: unused)
    have "\<exists>r. scan_branch d p h a b limit w (gap + w) (i + w) found = Some r"
      using False assms(1) less.prems by (intro less.hyps) auto
    with step show ?thesis by simp
  qed
qed

lemma scan_branch_returns:
  assumes "0 < w" "\<And>k. N \<le> k \<Longrightarrow> \<not> h (p (d (scan_path a b k)))"
  shows "\<exists>r. scan_branch d p h a b limit w gap i found = Some r"
proof (induction "N - i" arbitrary: gap i found rule: less_induct)
  case less
  show ?case
  proof (cases "N \<le> i")
    case True
    then show ?thesis using assms by (intro scan_branch_past_history) auto
  next
    case False
    obtain g f where sw: "scan_window h (window_of d p a b i w) gap found = (g, f)" by fastforce
    have later: "\<exists>r. scan_branch d p h a b limit w g (i + w) f = Some r"
      using False assms(1) by (intro less.hyps) auto
    have "scan_branch d p h a b limit w gap i found
        = (if limit \<le> gap then Some found else scan_branch d p h a b limit w g (i + w) f)"
      using scan_branch.simps [of d p h a b limit w gap i found] by (simp only: sw prod.case)
    with later show ?thesis by simp
  qed
qed

text \<open>
  The scan of an account returns whenever the wallet's history ends: if on every branch no
  address from some index on has history, all the loops reach their gap limit and the scan has a
  result.
\<close>

theorem scan_account_returns:
  assumes "0 < window" "\<And>branch k. N \<le> k \<Longrightarrow> \<not> h (probe (derive (scan_path account branch k)))"
  shows "\<exists>records. scan_account derive probe h account gap_limit branches window = Some records"
proof -
  have "\<exists>r. scan_branches derive probe h account gap_limit window branches found = Some r" for found
  proof (induction branches arbitrary: found)
    case Nil
    then show ?case by simp
  next
    case (Cons b bs)
    obtain r where "scan_branch derive probe h account b gap_limit window 0 0 found = Some r"
      using scan_branch_returns [where h = h and p = probe and d = derive and a = account
          and b = b and w = window and N = N, OF assms(1) assms(2)]
      by blast
    with Cons show ?case by simp
  qed
  then show ?thesis by (simp add: scan_account_def)
qed

lemma scan_account_returns_witness:
  "\<exists>records. scan_account id (\<lambda>_. ()) (\<lambda>_. False) [109] 20 [0, 1] 10 = Some records"
  by (rule scan_account_returns [of 10 0]) simp_all

end
