(* ===== verification/Rbf.thy ===== *)
theory Rbf
  imports ChainBase Verify
begin

text \<open>
  \<open>src/swapsack/chains/rbf.py\<close>: planning a BIP125 fee-bump replacement. Every
  \<open>NotReplaceable\<close> is a constructor of \<open>not_replaceable\<close>, with the numbers its message quotes;
  the wallet's \<open>owned\<close> mapping is a map from addresses to derivation paths.
\<close>

section \<open>The code\<close>

definition INCREMENTAL_RELAY_FEE :: float64 where
  "INCREMENTAL_RELAY_FEE = Flt 1 0"

datatype bump_refusal =
  ParentsTooDear int
| RelayTooDear int
| BestRate float64

datatype not_replaceable =
  AlreadyConfirmed "int option"
| NotSignalling
| NoOutpoint
| ForeignInput pystr int "pystr option"
| NoInputs
| NothingToShrink
| AmbiguousChange nat nat
| TooManyMemos nat
| MemoUnreadable
| UnexpectedPayees nat
| ChangeTooSmall int int int bump_refusal

record replacement =
  rp_inputs :: "utxo list"
  rp_outputs :: "tx_output list"
  rp_fee :: int
  rp_old_fee :: int
  rp_vsize :: int
  rp_change_index :: nat
  rp_change_address :: pystr
  rp_recipient :: pystr
  rp_amount :: int
  rp_memo :: "bytes option"

definition replacement_change :: "replacement \<Rightarrow> int" where
  "replacement_change r = o_value (rp_outputs r ! rp_change_index r)"

definition replacement_bump :: "replacement \<Rightarrow> int" where
  "replacement_bump r = rp_fee r - rp_old_fee r"

definition replacement_fee_rate :: "replacement \<Rightarrow> float64" where
  "replacement_fee_rate r =
     (if rp_vsize r \<noteq> 0 then fl_div_int (rp_fee r) (rp_vsize r) else Flt 0 0)"

definition replacement_old_fee_rate :: "replacement \<Rightarrow> float64" where
  "replacement_old_fee_rate r =
     (if rp_vsize r \<noteq> 0 then fl_div_int (rp_old_fee r) (rp_vsize r) else Flt 0 0)"

definition replacement_fee ::
  "int \<Rightarrow> int \<Rightarrow> float64 \<Rightarrow> int \<Rightarrow> int option \<Rightarrow> float64 \<Rightarrow> int" where
  "replacement_fee old_fee vsize fee_rate extra_fee replacement_vsize incremental_relay_fee =
     (let target = fl_ceil (fl_mul_int vsize fee_rate) + extra_fee;
          relay_vsize = (case replacement_vsize of None \<Rightarrow> vsize | Some v \<Rightarrow> v);
          floor = old_fee + fl_ceil (fl_mul_int relay_vsize incremental_relay_fee)
      in max target floor)"

definition or_empty :: "pystr option \<Rightarrow> pystr" where
  "or_empty a = (case a of None \<Rightarrow> [] | Some s \<Rightarrow> s)"

fun inputs_loop ::
  "tx_entry list \<Rightarrow> (pystr \<rightharpoonup> pystr) \<Rightarrow> not_replaceable + utxo list" where
  "inputs_loop [] owned = Inr []"
| "inputs_loop (entry # es) owned =
     (case (te_txid entry, te_vout entry) of
        (Some txid, Some vout) \<Rightarrow>
          (case owned (or_empty (te_address entry)) of
             None \<Rightarrow> Inl (ForeignInput txid vout (te_address entry))
           | Some path \<Rightarrow>
               bind_res (inputs_loop es owned) (\<lambda>us.
                 Inr (\<lparr>u_txid = txid, u_vout = vout, u_value = te_value entry,
                       u_address = or_empty (te_address entry), u_path = Some path,
                       u_confirmed = True, u_ancestor_deficit = 0\<rparr> # us)))
      | _ \<Rightarrow> Inl NoOutpoint)"

definition inputs_with_paths ::
  "tx_summary \<Rightarrow> (pystr \<rightharpoonup> pystr) \<Rightarrow> not_replaceable + utxo list" where
  "inputs_with_paths tx owned =
     bind_res (inputs_loop (ts_inputs tx) owned) (\<lambda>utxos.
       if utxos = [] then Inl NoInputs else Inr utxos)"

text \<open>\<open>address in owned\<close> (a \<open>None\<close> is no key of the mapping), and the path it has.\<close>

definition path_of :: "(pystr \<rightharpoonup> pystr) \<Rightarrow> pystr option \<Rightarrow> pystr option" where
  "path_of owned a = (case a of None \<Rightarrow> None | Some s \<Rightarrow> owned s)"

definition our_outputs :: "tx_summary \<Rightarrow> (pystr \<rightharpoonup> pystr) \<Rightarrow> nat list" where
  "our_outputs tx owned =
     filter (\<lambda>i. let out = ts_outputs tx ! i in
        te_op_return_data out = None \<and> \<not> te_op_return out \<and> path_of owned (te_address out) \<noteq> None)
       [0..<length (ts_outputs tx)]"

definition internal_outputs :: "tx_summary \<Rightarrow> (pystr \<rightharpoonup> pystr) \<Rightarrow> pystr \<Rightarrow> nat list" where
  "internal_outputs tx owned change_prefix =
     filter (\<lambda>i. case path_of owned (te_address (ts_outputs tx ! i)) of
         None \<Rightarrow> False | Some path \<Rightarrow> prefix change_prefix path)
       (our_outputs tx owned)"

definition find_change_index ::
  "tx_summary \<Rightarrow> (pystr \<rightharpoonup> pystr) \<Rightarrow> pystr \<Rightarrow> not_replaceable + nat" where
  "find_change_index tx owned change_prefix =
     (let ours = our_outputs tx owned in
      if ours = [] then Inl NothingToShrink
      else if 1 < length ours then
        (let internal = internal_outputs tx owned change_prefix in
         if length internal \<noteq> 1 then Inl (AmbiguousChange (length ours) (length internal))
         else Inr (hd internal))
      else Inr (hd ours))"

definition too_little_change ::
  "tx_summary \<Rightarrow> int \<Rightarrow> int \<Rightarrow> script_params \<Rightarrow> int \<Rightarrow> int option \<Rightarrow> float64 \<Rightarrow> not_replaceable" where
  "too_little_change tx old_change fee script extra_fee replacement_vsize incremental_relay_fee =
     (let relay_vsize = (case replacement_vsize of None \<Rightarrow> ts_vsize tx | Some v \<Rightarrow> v);
          headroom = old_change - dust script;
          ceiling = ts_fee tx + headroom;
          floor = ts_fee tx + fl_ceil (fl_mul_int relay_vsize incremental_relay_fee);
          over = ChangeTooSmall fee (old_change - (fee - ts_fee tx)) headroom
      in
      if ceiling < extra_fee then over (ParentsTooDear extra_fee)
      else if ceiling < floor then over (RelayTooDear (floor - ts_fee tx))
      else
        let for_rate = ceiling - extra_fee;
            best_rate =
              (if ts_vsize tx \<noteq> 0
               then fl_div_int (fl_floor (fl_mul_int 100 (fl_div_int for_rate (ts_vsize tx)))) 100
               else Flt 0 0)
        in over (BestRate best_rate))"

definition plan_replacement ::
  "tx_summary \<Rightarrow> (pystr \<rightharpoonup> pystr) \<Rightarrow> pystr \<Rightarrow> float64 \<Rightarrow> int \<Rightarrow> script_params \<Rightarrow> float64
   \<Rightarrow> not_replaceable + replacement" where
  "plan_replacement tx owned change_prefix fee_rate extra_fee script incremental_relay_fee =
     (if ts_confirmed tx then Inl (AlreadyConfirmed (ts_block_height tx))
      else if \<not> signals_rbf tx then Inl NotSignalling
      else
        bind_res (inputs_with_paths tx owned) (\<lambda>inputs.
        bind_res (find_change_index tx owned change_prefix) (\<lambda>change_index.
          let memos = filter te_op_return (ts_outputs tx) in
          if 1 < length memos then Inl (TooManyMemos (length memos))
          else if memos \<noteq> [] \<and> te_op_return_data (hd memos) = None then Inl MemoUnreadable
          else
            let memo = (if memos \<noteq> [] then te_op_return_data (hd memos) else None);
                payees = filter (\<lambda>i. i \<noteq> change_index \<and> \<not> te_op_return (ts_outputs tx ! i))
                           [0..<length (ts_outputs tx)]
            in
            if length payees \<noteq> 1 then Inl (UnexpectedPayees (length payees))
            else
              let payee = ts_outputs tx ! hd payees;
                  n_value_outputs = int (length (ts_outputs tx)) - (if memo \<noteq> None then 1 else 0);
                  replacement_vsize = max (ts_vsize tx)
                    (estimate_vsize (int (length inputs)) n_value_outputs
                       (case memo of None \<Rightarrow> 0 | Some m \<Rightarrow> int (length m)) script);
                  fee = replacement_fee (ts_fee tx) (ts_vsize tx) fee_rate extra_fee
                    (Some replacement_vsize) incremental_relay_fee;
                  old_change = te_value (ts_outputs tx ! change_index);
                  change = old_change - (fee - ts_fee tx)
              in
              if change < dust script
              then Inl (too_little_change tx old_change fee script extra_fee
                     (Some replacement_vsize) incremental_relay_fee)
              else
                let outputs = map (\<lambda>out. \<lparr>o_address = te_address out, o_value = te_value out,
                                  o_data = te_op_return_data out\<rparr>) (ts_outputs tx);
                    outputs = outputs[change_index := (outputs ! change_index)\<lparr>o_value := change\<rparr>]
                in Inr \<lparr>rp_inputs = inputs, rp_outputs = outputs, rp_fee = fee,
                     rp_old_fee = ts_fee tx, rp_vsize = ts_vsize tx, rp_change_index = change_index,
                     rp_change_address = or_empty (o_address (outputs ! change_index)),
                     rp_recipient = or_empty (te_address payee), rp_amount = te_value payee,
                     rp_memo = memo\<rparr>)))"

section \<open>Inputs and change\<close>

lemma inputs_loop_result:
  "inputs_loop es owned = Inr us \<Longrightarrow>
   list_all2 (\<lambda>e u. te_txid e = Some (u_txid u) \<and> te_vout e = Some (u_vout u)
     \<and> u_value u = te_value e \<and> u_address u = or_empty (te_address e)
     \<and> u_path u = owned (u_address u) \<and> u_path u \<noteq> None) es us"
proof (induction es arbitrary: us)
  case Nil
  then show ?case by simp
next
  case (Cons e es)
  from Cons.prems show ?case
    by (auto simp: bind_res_eq_Inr dest: Cons.IH split: option.splits)
qed

lemma find_change_index_result:
  assumes "find_change_index tx owned change_prefix = Inr i"
  shows "i < length (ts_outputs tx) \<and> te_op_return_data (ts_outputs tx ! i) = None
    \<and> \<not> te_op_return (ts_outputs tx ! i) \<and> path_of owned (te_address (ts_outputs tx ! i)) \<noteq> None"
proof -
  from assms have "i \<in> set (our_outputs tx owned)"
  proof (cases "1 < length (our_outputs tx owned)")
    case True
    with assms have "length (internal_outputs tx owned change_prefix) = 1"
      "i = hd (internal_outputs tx owned change_prefix)"
      by (auto simp: find_change_index_def Let_def split: if_splits)
    then have "i \<in> set (internal_outputs tx owned change_prefix)"
      by (cases "internal_outputs tx owned change_prefix") auto
    then show ?thesis by (simp add: internal_outputs_def)
  next
    case False
    with assms have "our_outputs tx owned \<noteq> []" "i = hd (our_outputs tx owned)"
      by (auto simp: find_change_index_def Let_def split: if_splits)
    then show ?thesis by simp
  qed
  then show ?thesis by (auto simp: our_outputs_def Let_def)
qed

lemma sum_list_update:
  fixes f :: "'a \<Rightarrow> int"
  shows "i < length xs \<Longrightarrow> sum_list (map f (xs[i := x])) = sum_list (map f xs) - f (xs ! i) + f x"
proof (induction xs arbitrary: i)
  case Nil
  then show ?case by simp
next
  case (Cons y ys)
  then show ?case by (cases i) auto
qed

section \<open>What a planned replacement is\<close>

abbreviation as_output :: "tx_entry \<Rightarrow> tx_output" where
  "as_output e \<equiv> \<lparr>o_address = te_address e, o_value = te_value e, o_data = te_op_return_data e\<rparr>"

lemma plan_replacement_parts:
  assumes "plan_replacement tx owned change_prefix rate extra script incr = Inr r"
  obtains inputs where "\<not> ts_confirmed tx" "signals_rbf tx"
    "inputs_with_paths tx owned = Inr inputs" "rp_inputs r = inputs"
    "find_change_index tx owned change_prefix = Inr (rp_change_index r)"
    "rp_old_fee r = ts_fee tx"
    "\<exists>e. rp_fee r = replacement_fee (ts_fee tx) (ts_vsize tx) rate extra
       (Some (max (ts_vsize tx) e)) incr"
    "dust script \<le> te_value (ts_outputs tx ! rp_change_index r) - (rp_fee r - ts_fee tx)"
    "rp_outputs r = (map as_output (ts_outputs tx))[rp_change_index r :=
       (map as_output (ts_outputs tx) ! rp_change_index r)\<lparr>o_value :=
          te_value (ts_outputs tx ! rp_change_index r) - (rp_fee r - ts_fee tx)\<rparr>]"
    "\<exists>j. filter (\<lambda>i. i \<noteq> rp_change_index r \<and> \<not> te_op_return (ts_outputs tx ! i))
          [0..<length (ts_outputs tx)] = [j]
       \<and> rp_amount r = te_value (ts_outputs tx ! j)
       \<and> rp_recipient r = or_empty (te_address (ts_outputs tx ! j))"
    "length (filter te_op_return (ts_outputs tx)) \<le> 1"
    "filter te_op_return (ts_outputs tx) \<noteq> [] \<Longrightarrow>
       rp_memo r = te_op_return_data (hd (filter te_op_return (ts_outputs tx))) \<and> rp_memo r \<noteq> None"
  using assms
  by (auto simp: plan_replacement_def Let_def bind_res_eq_Inr length_Suc_conv split: if_splits) blast+

text \<open>
  C6: A planned fee bump moves nothing but our own change. The original is unconfirmed and
  signals replaceability; the replacement spends exactly its outpoints, each at an address of
  ours with its path; every output except the change is the original's, address, value and data
  alike; the change output pays the same address of ours and stays at or above dust; and the
  whole raise of the fee, no more and no less, comes out of it, so that the outputs and the fee
  together add up as before.
\<close>

theorem plan_replacement_safe:
  assumes "plan_replacement tx owned change_prefix rate extra script incr = Inr r"
  shows "\<not> ts_confirmed tx \<and> signals_rbf tx
    \<and> list_all2 (\<lambda>e u. te_txid e = Some (u_txid u) \<and> te_vout e = Some (u_vout u)
        \<and> u_value u = te_value e \<and> u_path u = owned (u_address u) \<and> u_path u \<noteq> None)
        (ts_inputs tx) (rp_inputs r)
    \<and> length (rp_outputs r) = length (ts_outputs tx)
    \<and> list_all (\<lambda>i. rp_outputs r ! i = (as_output (ts_outputs tx ! i))
        \<lparr>o_value := te_value (ts_outputs tx ! i)
           - (if i = rp_change_index r then replacement_bump r else 0)\<rparr>) [0..<length (ts_outputs tx)]
    \<and> path_of owned (te_address (ts_outputs tx ! rp_change_index r)) \<noteq> None
    \<and> \<not> te_op_return (ts_outputs tx ! rp_change_index r)
    \<and> dust script \<le> replacement_change r
    \<and> sum_list (map o_value (rp_outputs r)) + rp_fee r = total_out tx + ts_fee tx"
proof -
  obtain inputs where p: "\<not> ts_confirmed tx" "signals_rbf tx"
    "inputs_with_paths tx owned = Inr inputs" "rp_inputs r = inputs"
    "find_change_index tx owned change_prefix = Inr (rp_change_index r)"
    "rp_old_fee r = ts_fee tx"
    "dust script \<le> te_value (ts_outputs tx ! rp_change_index r) - (rp_fee r - ts_fee tx)"
    and out: "rp_outputs r = (map as_output (ts_outputs tx))[rp_change_index r :=
       (map as_output (ts_outputs tx) ! rp_change_index r)\<lparr>o_value :=
          te_value (ts_outputs tx ! rp_change_index r) - (rp_fee r - ts_fee tx)\<rparr>]"
    by (rule plan_replacement_parts [OF assms])
  note c = find_change_index_result [OF p(5)]
  have "inputs_loop (ts_inputs tx) owned = Inr inputs"
    using p(3) by (auto simp: inputs_with_paths_def bind_res_eq_Inr split: if_splits)
  from inputs_loop_result [OF this] have ins: "list_all2 (\<lambda>e u. te_txid e = Some (u_txid u)
      \<and> te_vout e = Some (u_vout u) \<and> u_value u = te_value e \<and> u_path u = owned (u_address u)
      \<and> u_path u \<noteq> None) (ts_inputs tx) (rp_inputs r)"
    unfolding p(4) by (rule list_all2_mono) metis
  have elems: "list_all (\<lambda>i. rp_outputs r ! i = (as_output (ts_outputs tx ! i))
        \<lparr>o_value := te_value (ts_outputs tx ! i)
           - (if i = rp_change_index r then replacement_bump r else 0)\<rparr>) [0..<length (ts_outputs tx)]"
    by (auto simp: list_all_iff out nth_list_update replacement_bump_def p(6))
  have sum: "sum_list (map o_value (rp_outputs r)) + rp_fee r = total_out tx + ts_fee tx"
    unfolding out using c by (subst sum_list_update) (auto simp: total_out_def o_def)
  have change: "dust script \<le> replacement_change r"
    unfolding replacement_change_def out using c p(7) by simp
  show ?thesis using p(1,2) ins elems sum change c by (simp add: out)
qed

text \<open>
  The fee of a planned bump reaches the asked rate with the parents' surcharge on top, and
  pays for its own relay: at the 1 sat/vB default it exceeds the old fee by at least the
  transaction's size, as BIP125 demands; and it is never more than the larger of the two.
\<close>

theorem plan_replacement_fee:
  assumes "plan_replacement tx owned change_prefix rate extra script INCREMENTAL_RELAY_FEE = Inr r"
    and "0 \<le> ts_vsize tx" "ts_vsize tx < 2 ^ 53"
  shows "fl_ceil (fl_mul_int (ts_vsize tx) rate) + extra \<le> rp_fee r
    \<and> ts_fee tx + ts_vsize tx \<le> rp_fee r
    \<and> (\<exists>v. ts_vsize tx \<le> v \<and> rp_fee r = max (fl_ceil (fl_mul_int (ts_vsize tx) rate) + extra)
          (ts_fee tx + fl_ceil (fl_mul_int v INCREMENTAL_RELAY_FEE)))"
proof -
  obtain e where fee: "rp_fee r = replacement_fee (ts_fee tx) (ts_vsize tx) rate extra
       (Some (max (ts_vsize tx) e)) INCREMENTAL_RELAY_FEE"
    by (rule plan_replacement_parts [OF assms(1)]) blast
  have "ts_vsize tx \<le> fl_ceil (fl_mul_int v INCREMENTAL_RELAY_FEE)" if "ts_vsize tx \<le> v" for v
    using fl_ceil_mul_one_le [OF assms(2) that assms(3)] by (simp add: INCREMENTAL_RELAY_FEE_def)
  from this [of "max (ts_vsize tx) e"] show ?thesis
    unfolding fee replacement_fee_def Let_def option.case
    by (auto intro!: exI [of _ "max (ts_vsize tx) e"])
qed

section \<open>A concrete bump, and a suggestion that fails\<close>

definition ex_input :: tx_entry where
  "ex_input = \<lparr>te_value = 100000, te_address = Some (lit ''me''), te_op_return = False,
     te_txid = Some (lit ''aa''), te_vout = Some 0, te_sequence = Some 0xFFFFFFFD,
     te_op_return_data = None, te_spent_by = None\<rparr>"

definition ex_output :: "int \<Rightarrow> pystr option \<Rightarrow> bytes option \<Rightarrow> tx_entry" where
  "ex_output v a d = \<lparr>te_value = v, te_address = a, te_op_return = (d \<noteq> None), te_txid = None,
     te_vout = None, te_sequence = None, te_op_return_data = d, te_spent_by = None\<rparr>"

definition ex_deposit :: "int \<Rightarrow> tx_summary" where
  "ex_deposit change = \<lparr>ts_txid = lit ''bb'', ts_confirmed = False, ts_block_height = None,
     ts_fee = 210, ts_vsize = 200, ts_inputs = [ex_input],
     ts_outputs = [ex_output (99790 - change) (Some (lit ''vault'')) None,
       ex_output 0 None (Some (replicate 48 61)), ex_output change (Some (lit ''me'')) None],
     ts_block_time = None\<rparr>"

definition ex_bumped :: replacement where
  "ex_bumped = \<lparr>
     rp_inputs = [\<lparr>u_txid = lit ''aa'', u_vout = 0, u_value = 100000, u_address = lit ''me'',
       u_path = Some (lit ''m/1/0''), u_confirmed = True, u_ancestor_deficit = 0\<rparr>],
     rp_outputs = [\<lparr>o_address = Some (lit ''vault''), o_value = 89790, o_data = None\<rparr>,
       \<lparr>o_address = None, o_value = 0, o_data = Some (replicate 48 61)\<rparr>,
       \<lparr>o_address = Some (lit ''me''), o_value = 9210, o_data = None\<rparr>],
     rp_fee = 1000, rp_old_fee = 210, rp_vsize = 200, rp_change_index = 2,
     rp_change_address = lit ''me'', rp_recipient = lit ''vault'', rp_amount = 89790,
     rp_memo = Some (replicate 48 61)\<rparr>"

lemma ex_bump:
  "plan_replacement (ex_deposit 10000) [lit ''me'' \<mapsto> lit ''m/1/0''] (lit ''m/1/'') (Flt 5 0) 0 P2WPKH
     INCREMENTAL_RELAY_FEE = Inr ex_bumped"
  by code_simp

lemma plan_replacement_safe_witness:
  "sum_list (map o_value (rp_outputs ex_bumped)) + rp_fee ex_bumped
     = total_out (ex_deposit 10000) + ts_fee (ex_deposit 10000)
   \<and> dust P2WPKH \<le> replacement_change ex_bumped"
  using plan_replacement_safe [OF ex_bump] by blast

lemma plan_replacement_fee_witness: "ts_fee (ex_deposit 10000) + 200 \<le> rp_fee ex_bumped"
  using plan_replacement_fee [OF ex_bump] by (simp add: ex_deposit_def)

text \<open>
  The rate that a refused bump suggests is not always one that plans. A 200 vbyte deposit
  with 520 sat of change cannot be bumped to 5 sat/vB, and the refusal suggests 2.18 sat/vB; but
  \<open>200 * 2.18\<close> is a double just above 436, its ceiling 437 is one more than the change can pay,
  and planning at the suggested rate is refused again with the same suggestion.
\<close>

theorem suggested_rate_refused_again:
  "(let tx = ex_deposit 520;
        plan = (\<lambda>rate. plan_replacement tx [lit ''me'' \<mapsto> lit ''m/1/0''] (lit ''m/1/'') rate 0 P2WPKH
                  INCREMENTAL_RELAY_FEE);
        suggested = fl_div_int 218 100
    in plan (Flt 5 0) = Inl (ChangeTooSmall 1000 (-270) 226 (BestRate suggested))
     \<and> plan suggested = Inl (ChangeTooSmall 437 293 226 (BestRate suggested)))"
  by code_simp

end
