(* ===== verification/Effects.thy ===== *)
theory Effects
  imports PyJson
begin

text \<open>
  Code that talks to the network. A call is a function of the world \<open>'w\<close>, which no theorem looks
  into: it returns the value or the exception it raised, and the world after it. The exceptions
  are those of the whole program; an f-string of the code is a constructor with the values it
  interpolates. \<open>'p\<close> is the type of a gate's problems.
\<close>

section \<open>Exceptions\<close>

datatype abort_reason =
  NotListed pystr pystr
| NotTradable pystr pystr "pystr list"
| ToleranceExceeded pystr int "int option" pystr
| QuoteRejected pystr pystr
| BelowMinimum int int
| NoMemo pystr
| NoInboundAddress
| NoVault pystr
| WrongHomeNetwork pystr pystr pystr
| LpPaused pystr pystr
| ShortBalance pystr int pystr int
| PendingAdd pystr pystr
| PoolNotAvailable pystr json pystr
| NoProtocolPool pystr
| PoolDisabled pystr pystr
| PoolHalted pystr pystr int pystr
| MaturityUnknown pystr pystr
| NoPoolPosition pystr pystr
| NotMature pystr int
| TokenNeedsRouter
| PoolNeedsToken

datatype cow_reason =
  ApiError json json
| MalformedQuote py_error
| AmountTooSmall pystr

text \<open>Why a Chainflip quote's fee legs cannot be used as arithmetic, and the errors of its client.\<close>

datatype unusable_legs =
  LegCharged pystr pystr pystr pystr pystr
| UnknownLeg int

datatype cf_reason =
  CfNoQuote json
| CfApiMessage json
| CfMalformedQuote py_error
| CfMalformedStatus pystr
| CfUnverifiable pystr
| CfNotAscii pystr
| CfNoHexPrefix pystr pystr
| CfNotHex pystr
| CfDestinationLength pystr nat
| CfTolerance int
| CfNoFloor unusable_legs
| CfIngressSwallows int int
| CfRpcMalformed pystr
| CfRpcRejected pystr json
| CfRpcNoResult pystr
| CfMalformedVaults py_error
| CfMalformedVaultsOf pystr py_error
| CfVaultLength pystr nat
| CfNoBroker "(pystr \<times> cf_reason) list"
| CfNotBitcoinSource pystr
| CfNotTwentyBytes pystr
| CfMalformedEncoding py_error
| CfDepositNotVault pystr
| CfPayloadLength nat
| CfPaysDestination bytes pystr
| CfPaysAsset nat nat
| CfMinOutput int int
| CfCarriesFee int pystr
| CfNotEvmSource pystr
| CfInputAmount int
| CfQuoteDeposit int int
| CfNotTheVault pystr pystr
| CfSpendsToken pystr pystr
| CfUnreadableCall
| CfCallToken pystr pystr
| CfCallMoves int int int
| CfPaysChain nat nat
| CfParamsLength nat
| CfRefundsTo bytes pystr
| CfMinPrice int int
| CfRetryDuration int int

text \<open>What an EVM node refuses (\<open>_rpc\<close> of \<open>chains/eth.py\<close>): its error, or a body without a result.\<close>

datatype rpc_reason = RpcError pystr json | RpcNoResult pystr json

datatype 'p leg_problem = AssetLeg 'p | ProtocolLeg 'p

datatype 'p exn =
  PyExn py_error
| HttpError
| ThorchainError json
| CowError cow_reason
| ChainflipError cf_reason
| SwapAborted abort_reason
| GateRefused "'p list"
| LegsRefused "'p leg_problem list"
| BroadcastError pystr json json
| PartialSymmetricAdd pystr "'p exn"
| RuntimeError
| RpcRaised rpc_reason
| RpcBroadcast rpc_reason
| EncodingError

section \<open>Calls\<close>

type_synonym ('w, 'p, 'a) io = "'w \<Rightarrow> ('p exn + 'a) \<times> 'w"

definition ret :: "'a \<Rightarrow> ('w, 'p, 'a) io" where
  "ret x w = (Inr x, w)"

definition raise :: "'p exn \<Rightarrow> ('w, 'p, 'a) io" where
  "raise e w = (Inl e, w)"

definition and_then :: "('w, 'p, 'a) io \<Rightarrow> ('a \<Rightarrow> ('w, 'p, 'b) io) \<Rightarrow> ('w, 'p, 'b) io" where
  "and_then m f w = (case m w of (Inl e, w') \<Rightarrow> (Inl e, w') | (Inr x, w') \<Rightarrow> f x w')"

text \<open>A pure step of the code that may raise, and \<open>if c: raise e\<close>.\<close>

definition of_res :: "'p exn + 'a \<Rightarrow> ('w, 'p, 'a) io" where
  "of_res r w = (r, w)"

definition of_py :: "py_error + 'a \<Rightarrow> ('w, 'p, 'a) io" where
  "of_py r = of_res (case r of Inl e \<Rightarrow> Inl (PyExn e) | Inr x \<Rightarrow> Inr x)"

definition raise_if :: "bool \<Rightarrow> 'p exn \<Rightarrow> ('w, 'p, unit) io" where
  "raise_if c e = (if c then raise e else ret ())"

text \<open>\<open>try: m except ...: h\<close>, where \<open>h\<close> is None for an exception that is not caught.\<close>

definition try_call :: "('w, 'p, 'a) io \<Rightarrow> ('p exn \<Rightarrow> ('w, 'p, 'a) io option) \<Rightarrow> ('w, 'p, 'a) io" where
  "try_call m h w =
     (case m w of
        (Inr x, w') \<Rightarrow> (Inr x, w')
      | (Inl e, w') \<Rightarrow> (case h e of None \<Rightarrow> (Inl e, w') | Some k \<Rightarrow> k w'))"

section \<open>Reasoning about calls\<close>

named_theorems io_simps

lemma io_run [io_simps]:
  "ret x w = (Inr x, w)" "raise e w = (Inl e, w)" "of_res r w = (r, w)"
  by (simp_all add: ret_def raise_def of_res_def)

lemma of_py_run [io_simps]: "of_py (Inr x) w = (Inr x, w)" "of_py (Inl e) w = (Inl (PyExn e), w)"
  by (simp_all add: of_py_def of_res_def)

lemma and_then_run [io_simps]:
  "m w = (Inr x, w') \<Longrightarrow> and_then m f w = f x w'"
  "m w = (Inl e, w') \<Longrightarrow> and_then m f w = (Inl e, w')"
  by (simp_all add: and_then_def)

lemma raise_if_run [io_simps]: "raise_if c e w = (if c then Inl e else Inr (), w)"
  by (simp add: raise_if_def ret_def raise_def)

lemma and_then_pure [simp]:
  "and_then (ret x) f = f x" "and_then (raise e) f = raise e"
  "and_then (of_py (Inr x)) f = f x" "and_then (of_py (Inl er)) f = raise (PyExn er)"
  by (rule ext, simp add: and_then_def ret_def raise_def of_py_def of_res_def)+

lemma and_then_raise_if [simp]:
  "and_then (raise_if c e) f = (if c then raise e else f ())"
  by (simp add: raise_if_def)

lemma and_then_assoc: "and_then (and_then m f) g = and_then m (\<lambda>x. and_then (f x) g)"
  by (rule ext) (simp add: and_then_def split: prod.split sum.split)

text \<open>A result that was reached came through every call before it.\<close>

lemma and_then_Inr:
  "and_then m f w = (Inr y, w') \<longleftrightarrow> (\<exists>x u. m w = (Inr x, u) \<and> f x u = (Inr y, w'))"
  by (auto simp: and_then_def split: prod.split sum.split)

lemma and_then_Inl:
  "and_then m f w = (Inl e, w') \<longleftrightarrow>
     m w = (Inl e, w') \<or> (\<exists>x u. m w = (Inr x, u) \<and> f x u = (Inl e, w'))"
  by (auto simp: and_then_def split: prod.split sum.split)

lemma io_Inr_iff:
  "ret x w = (Inr y, w') \<longleftrightarrow> x = y \<and> w = w'"
  "raise e w \<noteq> (Inr y, w')"
  "of_py r w = (Inr y, w') \<longleftrightarrow> r = Inr y \<and> w = w'"
  "raise_if c e w = (Inr u, w') \<longleftrightarrow> \<not> c \<and> w = w'"
  by (auto simp: ret_def raise_def of_py_def of_res_def raise_if_def split: sum.split)

lemmas io_reached = and_then_Inr io_Inr_iff

end
