(* ===== verification/Liquidity.thy ===== *)
theory Liquidity
  imports PyJson
begin

text \<open>
  \<open>src/swapsack/liquidity.py\<close>: the memos of liquidity deposits and withdrawals, the pool-ratio
  amount of the protocol leg, and the table of protocol pools.
\<close>

section \<open>The code\<close>

definition MAX_BASIS_POINTS :: int where
  "MAX_BASIS_POINTS = 10000"

definition add_liquidity_memo :: "pystr \<Rightarrow> pystr" where
  "add_liquidity_memo pool = lit ''+:'' @ pool"

definition symmetric_add_memo :: "pystr \<Rightarrow> pystr \<Rightarrow> py_error + pystr" where
  "symmetric_add_memo pool paired_address =
     (if paired_address = [] then Inl ValueError
      else Inr (lit ''+:'' @ pool @ lit '':'' @ paired_address))"

definition WITHDRAW_TRIGGER_AMOUNT :: int where
  "WITHDRAW_TRIGGER_AMOUNT = 1"

definition check_basis_points :: "int \<Rightarrow> py_error + unit" where
  "check_basis_points basis_points =
     (if \<not> (1 \<le> basis_points \<and> basis_points \<le> MAX_BASIS_POINTS) then Inl ValueError else Inr ())"

definition withdraw_liquidity_memo :: "pystr \<Rightarrow> int \<Rightarrow> py_error + pystr" where
  "withdraw_liquidity_memo pool basis_points =
     bind_res (check_basis_points basis_points) (\<lambda>_.
       Inr (lit ''-:'' @ pool @ lit '':'' @ dec_int basis_points))"

definition pair_amount :: "int \<Rightarrow> int \<Rightarrow> int \<Rightarrow> py_error + int" where
  "pair_amount asset_amount balance_asset balance_protocol =
     (if balance_asset \<le> 0 \<or> balance_protocol \<le> 0 then Inl ValueError
      else if asset_amount \<le> 0 then Inl ValueError
      else Inr (asset_amount * balance_protocol div balance_asset))"

record protocol_pool =
  pp_token :: pystr
  pp_decimals :: nat
  pp_name :: pystr

definition PROTOCOL_POOLS :: "(pystr \<times> protocol_pool) list" where
  "PROTOCOL_POOLS =
     [(lit ''mayachain'', \<lparr>pp_token = lit ''CACAO'', pp_decimals = 10, pp_name = lit ''CACAO Pool''\<rparr>),
      (lit ''thorchain'', \<lparr>pp_token = lit ''RUNE'', pp_decimals = 8, pp_name = lit ''RUNEPool''\<rparr>)]"

definition POOL_DEPOSIT_MEMO :: pystr where
  "POOL_DEPOSIT_MEMO = lit ''pool+''"

definition POOL_WITHDRAW_AMOUNT :: int where
  "POOL_WITHDRAW_AMOUNT = 0"

definition pool_withdraw_memo :: "int \<Rightarrow> py_error + pystr" where
  "pool_withdraw_memo basis_points =
     bind_res (check_basis_points basis_points) (\<lambda>_. Inr (lit ''pool-:'' @ dec_int basis_points))"

section \<open>What a memo says\<close>

lemma check_basis_points_ok: "check_basis_points b = Inr u \<longleftrightarrow> 1 \<le> b \<and> b \<le> 10000"
  by (auto simp: check_basis_points_def MAX_BASIS_POINTS_def)

lemma dec_int_no_colon: "0 \<le> n \<Longrightarrow> 58 \<notin> set (dec_int n)"
  using dec_nat_digits [of 58 "nat n"] by (auto simp: dec_int_def is_digit_def)

text \<open>A last field without the separator can be cut off again.\<close>

lemma last_field_inject:
  "c \<notin> set b \<Longrightarrow> c \<notin> set b' \<Longrightarrow> a @ c # b = a' @ c # b' \<longleftrightarrow> a = a' \<and> b = b'"
proof
  assume b: "c \<notin> set b" "c \<notin> set b'" and e: "a @ c # b = a' @ c # b'"
  have "rev b @ c # rev a = rev b' @ c # rev a'" using arg_cong [OF e, of rev] by simp
  then have "takeWhile (\<lambda>x. x \<noteq> c) (rev b @ c # rev a) = takeWhile (\<lambda>x. x \<noteq> c) (rev b' @ c # rev a')"
    by simp
  moreover have "takeWhile (\<lambda>x. x \<noteq> c) (rev d @ c # r) = rev d" if "c \<notin> set d" for d r
    using that by (subst takeWhile_append2) auto
  ultimately have "b = b'" using b by simp
  with e show "a = a' \<and> b = b'" by simp
qed simp

text \<open>
  A withdraw memo names one pool and one share, whatever characters the pool has: from
  1 to 10000 basis points, two memos coincide only for the same pool and the same share; every
  other number is refused, and no withdraw memo can be read as an add.
\<close>

theorem withdraw_memo_binds:
  "(withdraw_liquidity_memo pool b = Inr m \<and> withdraw_liquidity_memo pool' b' = Inr m
      \<longrightarrow> pool = pool' \<and> b = b')
   \<and> ((\<exists>m. withdraw_liquidity_memo pool b = Inr m) \<longleftrightarrow> 1 \<le> b \<and> b \<le> 10000)
   \<and> (withdraw_liquidity_memo pool b = Inr m \<longrightarrow> \<not> prefix (lit ''+'') m)"
proof (intro conjI impI)
  assume "withdraw_liquidity_memo pool b = Inr m \<and> withdraw_liquidity_memo pool' b' = Inr m"
  then have ok: "1 \<le> b" "1 \<le> b'"
    and "pool @ 58 # dec_int b = pool' @ 58 # dec_int b'"
    by (auto simp: withdraw_liquidity_memo_def bind_res_eq_Inr check_basis_points_ok lit_def)
  then show "pool = pool'" "b = b'"
    by (simp_all add: last_field_inject dec_int_no_colon dec_int_inject)
qed (auto simp: withdraw_liquidity_memo_def bind_res_eq_Inr check_basis_points_ok lit_def)

lemma withdraw_memo_binds_witness:
  "withdraw_liquidity_memo (lit ''A.B'') 1 \<noteq> withdraw_liquidity_memo (lit ''A.B'') 10"
proof
  assume "withdraw_liquidity_memo (lit ''A.B'') 1 = withdraw_liquidity_memo (lit ''A.B'') 10"
  moreover obtain m where "withdraw_liquidity_memo (lit ''A.B'') 1 = Inr m"
    by (simp add: withdraw_liquidity_memo_def check_basis_points_def MAX_BASIS_POINTS_def)
  ultimately show False
    using withdraw_memo_binds [of "lit ''A.B''" 1 m "lit ''A.B''" 10] by simp
qed

text \<open>
  The protocol leg of a symmetric add never exceeds the pool ratio, and falls short of it by
  less than one base unit; it is monotone in the asset amount, and an empty pool or a
  non-positive amount is refused.
\<close>

theorem pair_amount_ratio:
  "(pair_amount a ba bp = Inr p \<longrightarrow>
      p * ba \<le> a * bp \<and> a * bp < (p + 1) * ba \<and> 0 \<le> p \<and> 0 < a \<and> 0 < ba \<and> 0 < bp)
   \<and> (pair_amount a ba bp = Inr p \<and> pair_amount a' ba bp = Inr p' \<and> a \<le> a' \<longrightarrow> p \<le> p')
   \<and> ((\<exists>e. pair_amount a ba bp = Inl e) \<longleftrightarrow> ba \<le> 0 \<or> bp \<le> 0 \<or> a \<le> 0)"
proof (intro conjI impI)
  assume p: "pair_amount a ba bp = Inr p"
  then have pos: "0 < a" "0 < ba" "0 < bp" and d: "p = a * bp div ba"
    by (auto simp: pair_amount_def split: if_splits)
  then show "0 < a" "0 < ba" "0 < bp" "0 \<le> p" by (simp_all add: pos_imp_zdiv_nonneg_iff)
  have split: "a * bp = p * ba + a * bp mod ba" by (simp add: d)
  moreover have "0 \<le> a * bp mod ba" "a * bp mod ba < ba" using pos by simp_all
  ultimately show "p * ba \<le> a * bp" "a * bp < (p + 1) * ba"
    by (simp_all add: distrib_right)
next
  assume "pair_amount a ba bp = Inr p \<and> pair_amount a' ba bp = Inr p' \<and> a \<le> a'"
  then show "p \<le> p'"
    by (auto simp: pair_amount_def zdiv_mono1 mult_right_mono split: if_splits)
qed (auto simp: pair_amount_def)

lemma pair_amount_ratio_witness: "(66 :: int) * 3 \<le> 100 * 2"
proof -
  have "pair_amount 100 3 2 = Inr 66" by (simp add: pair_amount_def)
  then show ?thesis using pair_amount_ratio [of 100 3 2 66 0 0] by blast
qed

end
