(* ===== verification/Thorchain.thy ===== *)
theory Thorchain
  imports Effects Liquidity
begin

text \<open>
  \<open>src/swapsack/thorchain.py\<close>: the records of the THORChain/Maya API, the parsers of its
  responses and the client's calls. The HTTP layer (\<open>_get_with_fallback\<close> of net.py) is a
  parameter: a request is a path with its parameters, a response a status code and a body.
\<close>

section \<open>Records\<close>

definition THORCHAIN_UNIT :: int where
  "THORCHAIN_UNIT = 100000000"

definition DEFAULT_TOLERANCE_BPS :: int where
  "DEFAULT_TOLERANCE_BPS = 300"

record chain_status =
  cs_chain :: json
  cs_gas_rate :: int
  cs_gas_rate_units :: json
  cs_outbound_fee :: int
  cs_dust_threshold :: int
  cs_halted :: bool
  cs_global_trading_paused :: bool
  cs_chain_trading_paused :: bool
  cs_address :: json
  cs_router :: json

definition tradable :: "chain_status \<Rightarrow> bool" where
  "tradable s \<longleftrightarrow>
     \<not> (cs_halted s \<or> cs_global_trading_paused s \<or> cs_chain_trading_paused s)"

definition asset_unit :: "pystr \<Rightarrow> int" where
  "asset_unit asset = (if asset = lit ''MAYA.CACAO'' then 10 ^ 10 else THORCHAIN_UNIT)"

definition effective_tolerance_bps :: "int option \<Rightarrow> int option \<Rightarrow> int option" where
  "effective_tolerance_bps tolerance_bps streaming_interval =
     (if streaming_interval \<noteq> None then None else tolerance_bps)"

record swap_fees =
  sf_asset :: json
  sf_outbound :: int
  sf_affiliate :: int
  sf_liquidity :: int
  sf_total :: int
  sf_slippage_bps :: int
  sf_total_bps :: int

record quote =
  q_inbound_address :: json
  q_expected_amount_out :: int
  q_memo :: json
  q_fees :: swap_fees
  q_recommended_min_amount_in :: int
  q_expiry :: int
  q_dust_threshold :: int
  q_recommended_gas_rate :: int
  q_gas_rate_units :: json
  q_router :: json
  q_max_streaming_quantity :: int
  q_streaming_swap_blocks :: int
  q_total_swap_seconds :: int
  q_raw :: json

record pool_depth =
  pd_asset :: json
  pd_balance_asset :: int
  pd_balance_protocol :: int
  pd_status :: json

definition asset_per_protocol :: "pool_depth \<Rightarrow> float64" where
  "asset_per_protocol d =
     (if pd_balance_protocol d = 0 then Flt 0 0
      else fl_div_int (pd_balance_asset d) (pd_balance_protocol d))"

record liquidity_position =
  lpos_pool :: json
  lpos_asset_address :: json
  lpos_units :: int
  lpos_asset_redeem_value :: int
  lpos_pending_asset :: int
  lpos_protocol_redeem_value :: int
  lpos_asset_deposit_value :: int
  lpos_protocol_deposit_value :: int
  lpos_pending_protocol :: int

record pool_provider_position =
  ppos_address :: json
  ppos_units :: int
  ppos_value :: int
  ppos_pnl :: int
  ppos_deposit_amount :: int
  ppos_last_deposit_height :: int

section \<open>Parsers\<close>

definition zero_text :: json where
  "zero_text = JStr (lit ''0'')"

definition empty_text :: json where
  "empty_text = JStr []"

definition parse_pool_depth :: "json \<Rightarrow> py_error + pool_depth" where
  "parse_pool_depth payload =
     bind_res (jget_or payload (lit ''balance_cacao'') zero_text) (\<lambda>cacao.
     bind_res (jget_or payload (lit ''balance_rune'') cacao) (\<lambda>protocol.
     bind_res (jget_or payload (lit ''asset'') empty_text) (\<lambda>asset.
     bind_res (jint_or payload (lit ''balance_asset'') zero_text) (\<lambda>balance_asset.
     bind_res (json_int protocol) (\<lambda>balance_protocol.
     bind_res (jget_or payload (lit ''status'') empty_text) (\<lambda>status.
       Inr \<lparr>pd_asset = asset, pd_balance_asset = balance_asset,
            pd_balance_protocol = balance_protocol, pd_status = status\<rparr>))))))"

definition parse_liquidity_provider :: "json \<Rightarrow> py_error + liquidity_position option" where
  "parse_liquidity_provider payload =
     bind_res (jhas (lit ''error'') payload) (\<lambda>err.
     if err then Inr None else
     bind_res (jget_or payload (lit ''cacao_redeem_value'') zero_text) (\<lambda>cacao_redeem.
     bind_res (jget_or payload (lit ''rune_redeem_value'') cacao_redeem) (\<lambda>redeem.
     bind_res (jget_or payload (lit ''cacao_deposit_value'') zero_text) (\<lambda>cacao_deposit.
     bind_res (jget_or payload (lit ''rune_deposit_value'') cacao_deposit) (\<lambda>deposit.
     bind_res (jget_or payload (lit ''asset'') empty_text) (\<lambda>pool.
     bind_res (jget_or payload (lit ''asset_address'') empty_text) (\<lambda>asset_address.
     bind_res (jint_or payload (lit ''units'') zero_text) (\<lambda>units.
     bind_res (jint_or payload (lit ''asset_redeem_value'') zero_text) (\<lambda>asset_redeem.
     bind_res (jint_or payload (lit ''pending_asset'') zero_text) (\<lambda>pending_asset.
     bind_res (jget_or payload (lit ''pending_cacao'') zero_text) (\<lambda>pending_cacao.
     bind_res (jint_or payload (lit ''pending_rune'') pending_cacao) (\<lambda>pending_protocol.
     bind_res (json_int redeem) (\<lambda>protocol_redeem.
     bind_res (jint_or payload (lit ''asset_deposit_value'') zero_text) (\<lambda>asset_deposit.
     bind_res (json_int deposit) (\<lambda>protocol_deposit.
       Inr (if asset_redeem = 0 \<and> pending_asset = 0 \<and> pending_protocol = 0 \<and> protocol_redeem = 0
            then None
            else Some \<lparr>lpos_pool = pool, lpos_asset_address = asset_address, lpos_units = units,
                   lpos_asset_redeem_value = asset_redeem, lpos_pending_asset = pending_asset,
                   lpos_protocol_redeem_value = protocol_redeem,
                   lpos_asset_deposit_value = asset_deposit,
                   lpos_protocol_deposit_value = protocol_deposit,
                   lpos_pending_protocol = pending_protocol\<rparr>))))))))))))))))"

definition parse_pool_provider :: "json \<Rightarrow> py_error + pool_provider_position option" where
  "parse_pool_provider payload =
     bind_res (jhas (lit ''error'') payload) (\<lambda>err.
     if err then Inr None else
     bind_res (jint_or payload (lit ''units'') zero_text) (\<lambda>units.
     if units = 0 then Inr None else
     bind_res (jget_or payload (lit ''rune_address'') empty_text) (\<lambda>rune.
     bind_res (jget_or payload (lit ''cacao_address'') rune) (\<lambda>address.
     bind_res (jint_at payload (lit ''units'')) (\<lambda>units.
     bind_res (jint_or payload (lit ''value'') zero_text) (\<lambda>val.
     bind_res (jint_or payload (lit ''pnl'') zero_text) (\<lambda>pnl.
     bind_res (jint_or payload (lit ''deposit_amount'') zero_text) (\<lambda>deposit.
     bind_res (jint_or payload (lit ''last_deposit_height'') (JInt 0)) (\<lambda>height.
       Inr (Some \<lparr>ppos_address = address, ppos_units = units, ppos_value = val, ppos_pnl = pnl,
              ppos_deposit_amount = deposit, ppos_last_deposit_height = height\<rparr>))))))))))"

text \<open>\<open>[_int(entry[key]) for entry in payload for key in (...) if key in entry]\<close>.\<close>

definition entry_heights :: "json \<Rightarrow> py_error + int list" where
  "entry_heights entry =
     bind_res (map_res (\<lambda>key.
       bind_res (jhas key entry) (\<lambda>has.
         if has then bind_res (jint_at entry key) (\<lambda>n. Inr [n]) else Inr []))
       [lit ''mayachain'', lit ''thorchain'']) (\<lambda>hs. Inr (concat hs))"

definition parse_last_height :: "json \<Rightarrow> py_error + int" where
  "parse_last_height payload =
     bind_res (json_iter payload) (\<lambda>entries.
     bind_res (map_res entry_heights entries) (\<lambda>hs.
       case concat hs of [] \<Rightarrow> Inl ValueError | h # heights \<Rightarrow> Inr (foldl max h heights)))"

definition normalize_txid :: "pystr \<Rightarrow> pystr" where
  "normalize_txid txid = py_removeprefix (lit ''0X'') (py_removeprefix (lit ''0x'') txid)"

definition parse_chain_status :: "json \<Rightarrow> py_error + chain_status" where
  "parse_chain_status entry =
     bind_res (jget_or entry (lit ''chain'') empty_text) (\<lambda>chain.
     bind_res (jint_or entry (lit ''gas_rate'') (JInt 0)) (\<lambda>gas_rate.
     bind_res (jget_or entry (lit ''gas_rate_units'') empty_text) (\<lambda>gas_rate_units.
     bind_res (jint_or entry (lit ''outbound_fee'') (JInt 0)) (\<lambda>outbound_fee.
     bind_res (jint_or entry (lit ''dust_threshold'') (JInt 0)) (\<lambda>dust_threshold.
     bind_res (jget_or entry (lit ''halted'') (JBool False)) (\<lambda>halted.
     bind_res (jget_or entry (lit ''global_trading_paused'') (JBool False)) (\<lambda>global_paused.
     bind_res (jget_or entry (lit ''chain_trading_paused'') (JBool False)) (\<lambda>chain_paused.
     bind_res (jget_or entry (lit ''address'') empty_text) (\<lambda>address.
     bind_res (jget entry (lit ''router'')) (\<lambda>router.
       Inr \<lparr>cs_chain = chain, cs_gas_rate = gas_rate, cs_gas_rate_units = gas_rate_units,
            cs_outbound_fee = outbound_fee, cs_dust_threshold = dust_threshold,
            cs_halted = json_truthy halted, cs_global_trading_paused = json_truthy global_paused,
            cs_chain_trading_paused = json_truthy chain_paused, cs_address = address,
            cs_router = router\<rparr>))))))))))"

fun inbound_loop ::
  "json list \<Rightarrow> (json \<times> chain_status) list \<Rightarrow> py_error + (json \<times> chain_status) list" where
  "inbound_loop [] acc = Inr acc"
| "inbound_loop (entry # entries) acc =
     bind_res (parse_chain_status entry) (\<lambda>status.
       if json_hashable (cs_chain status)
       then inbound_loop entries (AList.update (cs_chain status) status acc)
       else Inl TypeError)"

definition parse_inbound_addresses :: "json \<Rightarrow> py_error + (json \<times> chain_status) list" where
  "parse_inbound_addresses payload = bind_res (json_iter payload) (\<lambda>entries. inbound_loop entries [])"

definition parse_fees :: "json \<Rightarrow> py_error + swap_fees" where
  "parse_fees fees =
     bind_res (jindex fees (lit ''asset'')) (\<lambda>asset.
     bind_res (jint_at fees (lit ''outbound'')) (\<lambda>outbound.
     bind_res (jint_at fees (lit ''affiliate'')) (\<lambda>affiliate.
     bind_res (jint_at fees (lit ''liquidity'')) (\<lambda>liquidity.
     bind_res (jint_at fees (lit ''total'')) (\<lambda>tot.
     bind_res (jint_at fees (lit ''slippage_bps'')) (\<lambda>slippage_bps.
     bind_res (jint_at fees (lit ''total_bps'')) (\<lambda>total_bps.
       Inr \<lparr>sf_asset = asset, sf_outbound = outbound, sf_affiliate = affiliate,
            sf_liquidity = liquidity, sf_total = tot, sf_slippage_bps = slippage_bps,
            sf_total_bps = total_bps\<rparr>)))))))"

definition parse_quote_fields :: "json \<Rightarrow> py_error + quote" where
  "parse_quote_fields payload =
     bind_res (jindex payload (lit ''fees'')) (\<lambda>fees.
     bind_res (jget_or payload (lit ''inbound_address'') empty_text) (\<lambda>inbound_address.
     bind_res (jint_at payload (lit ''expected_amount_out'')) (\<lambda>expected_amount_out.
     bind_res (jget payload (lit ''memo'')) (\<lambda>memo.
     bind_res (parse_fees fees) (\<lambda>swap_fees.
     bind_res (jint_at payload (lit ''recommended_min_amount_in'')) (\<lambda>min_in.
     bind_res (jint_at payload (lit ''expiry'')) (\<lambda>expiry.
     bind_res (jint_or payload (lit ''dust_threshold'') (JInt 0)) (\<lambda>dust.
     bind_res (jint_or payload (lit ''recommended_gas_rate'') (JInt 0)) (\<lambda>gas_rate.
     bind_res (jget_or payload (lit ''gas_rate_units'') empty_text) (\<lambda>gas_rate_units.
     bind_res (jget payload (lit ''router'')) (\<lambda>router.
     bind_res (jint_or payload (lit ''max_streaming_quantity'') (JInt 0)) (\<lambda>max_quantity.
     bind_res (jint_or payload (lit ''streaming_swap_blocks'') (JInt 0)) (\<lambda>blocks.
     bind_res (jint_or payload (lit ''total_swap_seconds'') (JInt 0)) (\<lambda>seconds.
       Inr \<lparr>q_inbound_address = inbound_address, q_expected_amount_out = expected_amount_out,
            q_memo = memo, q_fees = swap_fees, q_recommended_min_amount_in = min_in,
            q_expiry = expiry, q_dust_threshold = dust, q_recommended_gas_rate = gas_rate,
            q_gas_rate_units = gas_rate_units, q_router = router,
            q_max_streaming_quantity = max_quantity, q_streaming_swap_blocks = blocks,
            q_total_swap_seconds = seconds, q_raw = payload\<rparr>))))))))))))))"

definition py_res :: "py_error + 'a \<Rightarrow> 'p exn + 'a" where
  "py_res r = (case r of Inl e \<Rightarrow> Inl (PyExn e) | Inr x \<Rightarrow> Inr x)"

definition parse_quote :: "json \<Rightarrow> 'p exn + quote" where
  "parse_quote payload =
     bind_res (py_res (jhas (lit ''error'') payload)) (\<lambda>err.
       if err then bind_res (py_res (jindex payload (lit ''error''))) (\<lambda>e. Inl (ThorchainError e))
       else py_res (parse_quote_fields payload))"

section \<open>The client\<close>

text \<open>
  A response: its status code, its body as text, and the decoded body, None when it is not JSON:
  \<open>resp.json()\<close> then raises niquests' \<open>JSONDecodeError\<close>, which is one of \<open>HTTP_ERRORS\<close> besides
  being a ValueError.
\<close>

record response =
  rs_status :: int
  rs_text :: pystr
  rs_json :: "json option"

type_synonym params = "(pystr \<times> json) list"

type_synonym ('w, 'p) fetch = "pystr \<Rightarrow> params \<Rightarrow> ('w, 'p, response) io"

definition raise_for_status :: "response \<Rightarrow> ('w, 'p, unit) io" where
  "raise_for_status resp = raise_if (400 \<le> rs_status resp) HttpError"

definition resp_json :: "response \<Rightarrow> ('w, 'p, json) io" where
  "resp_json resp = (case rs_json resp of None \<Rightarrow> raise HttpError | Some j \<Rightarrow> ret j)"

text \<open>The shape of every read: fetch, raise for status, parse the body.\<close>

definition read_api :: "('w, 'p) fetch \<Rightarrow> pystr \<Rightarrow> (json \<Rightarrow> py_error + 'a) \<Rightarrow> ('w, 'p, 'a) io" where
  "read_api get path parse =
     and_then (get path []) (\<lambda>resp.
     and_then (raise_for_status resp) (\<lambda>_.
     and_then (resp_json resp) (\<lambda>body. of_py (parse body))))"

definition client_inbound_addresses ::
  "('w, 'p) fetch \<Rightarrow> pystr \<Rightarrow> ('w, 'p, (json \<times> chain_status) list) io" where
  "client_inbound_addresses get path_prefix =
     read_api get (path_prefix @ lit ''/inbound_addresses'') parse_inbound_addresses"

definition client_tx_status :: "('w, 'p) fetch \<Rightarrow> pystr \<Rightarrow> pystr \<Rightarrow> ('w, 'p, json) io" where
  "client_tx_status get path_prefix txid =
     read_api get (path_prefix @ lit ''/tx/status/'' @ normalize_txid txid) Inr"

definition client_liquidity_provider ::
  "('w, 'p) fetch \<Rightarrow> pystr \<Rightarrow> pystr \<Rightarrow> pystr \<Rightarrow> ('w, 'p, liquidity_position option) io" where
  "client_liquidity_provider get path_prefix pool address =
     and_then (get (path_prefix @ lit ''/pool/'' @ pool @ lit ''/liquidity_provider/'' @ address) [])
       (\<lambda>resp.
         if rs_status resp = 404 then ret None
         else and_then (raise_for_status resp) (\<lambda>_.
           and_then (resp_json resp) (\<lambda>body. of_py (parse_liquidity_provider body))))"

definition client_pool_provider ::
  "('w, 'p) fetch \<Rightarrow> pystr \<Rightarrow> pystr \<Rightarrow> ('w, 'p, pool_provider_position option) io" where
  "client_pool_provider get path_prefix address =
     (case map_of PROTOCOL_POOLS path_prefix of
        None \<Rightarrow> raise (PyExn KeyError)
      | Some pool \<Rightarrow>
          read_api get (path_prefix @ lit ''/'' @ py_lower (pp_token pool) @ lit ''_provider/'' @ address)
            parse_pool_provider)"

definition client_constants :: "('w, 'p) fetch \<Rightarrow> pystr \<Rightarrow> ('w, 'p, json) io" where
  "client_constants get path_prefix = read_api get (path_prefix @ lit ''/constants'') Inr"

definition client_last_height :: "('w, 'p) fetch \<Rightarrow> pystr \<Rightarrow> ('w, 'p, int) io" where
  "client_last_height get path_prefix = read_api get (path_prefix @ lit ''/lastblock'') parse_last_height"

definition client_pool :: "('w, 'p) fetch \<Rightarrow> pystr \<Rightarrow> pystr \<Rightarrow> ('w, 'p, pool_depth) io" where
  "client_pool get path_prefix asset = read_api get (path_prefix @ lit ''/pool/'' @ asset) parse_pool_depth"

definition client_mimir :: "('w, 'p) fetch \<Rightarrow> pystr \<Rightarrow> ('w, 'p, json) io" where
  "client_mimir get path_prefix = read_api get (path_prefix @ lit ''/mimir'') Inr"

definition opt_param :: "pystr \<Rightarrow> int option \<Rightarrow> params" where
  "opt_param k v = (case v of None \<Rightarrow> [] | Some n \<Rightarrow> [(k, JInt n)])"

record quote_request =
  qr_from_asset :: pystr
  qr_to_asset :: pystr
  qr_amount :: int
  qr_destination :: "pystr option"
  qr_streaming_interval :: "int option"
  qr_streaming_quantity :: "int option"
  qr_tolerance_bps :: "int option"

definition quote_params :: "quote_request \<Rightarrow> params" where
  "quote_params r =
     [(lit ''from_asset'', JStr (qr_from_asset r)), (lit ''to_asset'', JStr (qr_to_asset r)),
      (lit ''amount'', JInt (qr_amount r))]
     @ (case qr_destination r of None \<Rightarrow> [] | Some d \<Rightarrow> [(lit ''destination'', JStr d)])
     @ opt_param (lit ''streaming_interval'') (qr_streaming_interval r)
     @ opt_param (lit ''streaming_quantity'') (qr_streaming_quantity r)
     @ opt_param (lit ''tolerance_bps'') (qr_tolerance_bps r)"

definition client_quote_swap :: "('w, 'p) fetch \<Rightarrow> pystr \<Rightarrow> quote_request \<Rightarrow> ('w, 'p, quote) io" where
  "client_quote_swap get path_prefix r =
     and_then (get (path_prefix @ lit ''/quote/swap'') (quote_params r)) (\<lambda>resp.
       if 400 \<le> rs_status resp then
         (case rs_json resp of
            None \<Rightarrow> raise HttpError
          | Some payload \<Rightarrow>
              (case jget_or payload (lit ''error'') (JStr (rs_text resp)) of
                 Inl e \<Rightarrow> raise (PyExn e)
               | Inr e \<Rightarrow> raise (ThorchainError e)))
       else and_then (resp_json resp) (\<lambda>body. of_res (parse_quote body)))"

end
