(* ===== verification/Swap.thy ===== *)
theory Swap
  imports Thorchain
begin

text \<open>
  \<open>src/swapsack/swap.py\<close>: the chain-agnostic half of the pipeline. The quoting client and the
  chain adapters are records of their operations (\<open>ThorchainLike\<close>, \<open>SwapSource\<close> and the protocol
  adapter); the keyword arguments that the orchestration only passes through are closed over in
  an adapter's operations. Each call may change the world and may raise.
\<close>

section \<open>The interfaces\<close>

record ('w, 'p) thornode =
  tn_path_prefix :: pystr
  tn_inbound_addresses :: "('w, 'p, (json \<times> chain_status) list) io"
  tn_quote_swap :: "quote_request \<Rightarrow> ('w, 'p, quote) io"
  tn_mimir :: "('w, 'p, json) io"
  tn_pool :: "pystr \<Rightarrow> ('w, 'p, pool_depth) io"
  tn_liquidity_provider :: "pystr \<Rightarrow> pystr \<Rightarrow> ('w, 'p, liquidity_position option) io"
  tn_pool_provider :: "pystr \<Rightarrow> ('w, 'p, pool_provider_position option) io"
  tn_last_height :: "('w, 'p, int) io"
  tn_constants :: "('w, 'p, json) io"

definition thorchain_client :: "('w, 'p) fetch \<Rightarrow> pystr \<Rightarrow> ('w, 'p) thornode" where
  "thorchain_client get path_prefix =
     \<lparr>tn_path_prefix = path_prefix,
      tn_inbound_addresses = client_inbound_addresses get path_prefix,
      tn_quote_swap = client_quote_swap get path_prefix,
      tn_mimir = client_mimir get path_prefix,
      tn_pool = client_pool get path_prefix,
      tn_liquidity_provider = client_liquidity_provider get path_prefix,
      tn_pool_provider = client_pool_provider get path_prefix,
      tn_last_height = client_last_height get path_prefix,
      tn_constants = client_constants get path_prefix\<rparr>"

record swap_request =
  sr_from_asset :: pystr
  sr_to_asset :: pystr
  sr_amount :: int
  sr_destination :: pystr

record ('b, 'k, 'p) prepared =
  pr_quote :: "quote option"
  pr_built :: 'b
  pr_plan :: 'k
  pr_problems :: "'p list"

definition safe :: "('b, 'k, 'p) prepared \<Rightarrow> bool" where
  "safe prepared \<longleftrightarrow> pr_problems prepared = []"

record ('w, 'b, 'k, 'p) swap_source =
  ss_chain :: pystr
  ss_native_source :: bool
  ss_home_path_prefix :: "pystr option"
  ss_build :: "quote \<Rightarrow> swap_request \<Rightarrow> int \<Rightarrow> ('w, 'p, ('b, 'k, 'p) prepared) io"
  ss_build_deposit :: "json \<Rightarrow> pystr \<Rightarrow> int \<Rightarrow> int \<Rightarrow> ('w, 'p, ('b, 'k, 'p) prepared) io"
  ss_sign :: "'b \<Rightarrow> ('w, 'p, pystr list) io"
  ss_broadcast :: "pystr list \<Rightarrow> ('w, 'p, pystr) io"

record ('w, 'b, 'k, 'p) protocol_source =
  ps_symbol :: pystr
  ps_decimals :: nat
  ps_fetch_balance :: "pystr \<Rightarrow> ('w, 'p, int) io"
  ps_build_native_deposit :: "pystr \<Rightarrow> int \<Rightarrow> int \<Rightarrow> ('w, 'p, ('b, 'k, 'p) prepared) io"
  ps_sign :: "'b \<Rightarrow> ('w, 'p, pystr list) io"
  ps_broadcast :: "pystr list \<Rightarrow> ('w, 'p, pystr) io"

record ('b, 'k, 'p) swap_result =
  res_prepared :: "('b, 'k, 'p) prepared"
  res_txid :: "pystr option"
  res_broadcast :: bool

section \<open>Checks\<close>

definition BLOCK_SECONDS :: int where
  "BLOCK_SECONDS = 6"

definition network_name :: "('w, 'p) thornode \<Rightarrow> pystr" where
  "network_name thorchain =
     (case map_of [(lit ''thorchain'', lit ''THORChain''), (lit ''mayachain'', lit ''Maya'')]
             (tn_path_prefix thorchain) of
        None \<Rightarrow> tn_path_prefix thorchain
      | Some n \<Rightarrow> n)"

definition require_tradable :: "('w, 'p) thornode \<Rightarrow> pystr \<Rightarrow> ('w, 'p, chain_status) io" where
  "require_tradable thorchain chain =
     (let network = network_name thorchain in
      and_then (tn_inbound_addresses thorchain) (\<lambda>statuses.
        case map_of statuses (JStr chain) of
          None \<Rightarrow> raise (SwapAborted (NotListed chain network))
        | Some status \<Rightarrow>
            if \<not> tradable status then
              (let flags = map fst (filter snd
                     [(lit ''chain halted'', cs_halted status),
                      (lit ''global trading paused'', cs_global_trading_paused status),
                      (lit ''chain trading paused'', cs_chain_trading_paused status)])
               in raise (SwapAborted (NotTradable chain network flags)))
            else ret status))"

text \<open>
  The two wordings of a refused quote: \<open>re.search\<close> of a text, digits, a text, digits, a text.
  What follows a run of digits is no digit, so the greedy match is the only one at a position.
\<close>

definition match_amounts :: "pystr \<Rightarrow> pystr \<Rightarrow> pystr \<Rightarrow> pystr \<Rightarrow> (int \<times> int) option" where
  "match_amounts pre mid post s =
     (if \<not> prefix pre s then None
      else
        let a = drop (length pre) s; d1 = takeWhile is_digit a; b = dropWhile is_digit a in
        if d1 = [] \<or> \<not> prefix mid b then None
        else
          let c = drop (length mid) b; d2 = takeWhile is_digit c; e = dropWhile is_digit c in
          if d2 = [] \<or> \<not> prefix post e then None
          else
            case (int_digits False 0 d1, int_digits False 0 d2) of
              (Some emitted, Some limit) \<Rightarrow> Some (emitted, limit)
            | _ \<Rightarrow> None)"

fun search_amounts :: "pystr \<Rightarrow> pystr \<Rightarrow> pystr \<Rightarrow> pystr \<Rightarrow> (int \<times> int) option" where
  "search_amounts pre mid post [] = match_amounts pre mid post []"
| "search_amounts pre mid post (c # cs) =
     (case match_amounts pre mid post (c # cs) of
        Some r \<Rightarrow> Some r
      | None \<Rightarrow> search_amounts pre mid post cs)"

definition tolerance_rejection :: "pystr \<Rightarrow> (int \<times> int) option" where
  "tolerance_rejection msg =
     (case search_amounts (lit ''emit asset '') (lit '' less than price limit '') [] msg of
        Some r \<Rightarrow> Some r
      | None \<Rightarrow> search_amounts (lit ''outbound amount does not meet requirements ('') (lit ''/'')
                  (lit '')'') msg)"

text \<open>\<open>i - x\<close> of an integer and a float.\<close>

fun fl_int_minus :: "int \<Rightarrow> float64 \<Rightarrow> float64" where
  "fl_int_minus i (Flt m e) =
     (if 0 \<le> e then fl_round (i - m * 2 ^ nat e) 0 else fl_round (i * 2 ^ nat (- e) - m) e)"

definition needed_bps :: "int \<Rightarrow> int \<Rightarrow> int \<Rightarrow> int option" where
  "needed_bps tolerance_bps emitted limit =
     (if limit \<noteq> 0
      then Some (fl_ceil (fl_int_minus 10000 (fl_div_int ((10000 - tolerance_bps) * emitted) limit)))
      else None)"

text \<open>\<open>msg_of\<close> is \<open>str\<close> of the error value the node sent, itself for a string.\<close>

definition explain_quote_error :: "pystr \<Rightarrow> int \<Rightarrow> pystr \<Rightarrow> abort_reason" where
  "explain_quote_error msg tolerance_bps network =
     (case tolerance_rejection msg of
        Some (emitted, limit) \<Rightarrow>
          ToleranceExceeded network tolerance_bps (needed_bps tolerance_bps emitted limit) msg
      | None \<Rightarrow> QuoteRejected network msg)"

definition require_protocol_balance ::
  "('w, 'b, 'k, 'p) protocol_source \<Rightarrow> pystr \<Rightarrow> int \<Rightarrow> pystr \<Rightarrow> ('w, 'p, unit) io" where
  "require_protocol_balance protocol_adapter address amount what =
     and_then (ps_fetch_balance protocol_adapter address) (\<lambda>held.
       raise_if (held < amount) (SwapAborted (ShortBalance what amount address held)))"

text \<open>\<open>int(mimir.get(key, 0) or 0)\<close>.\<close>

definition mimir_int :: "json \<Rightarrow> pystr \<Rightarrow> py_error + int" where
  "mimir_int mimir key =
     bind_res (jget_or mimir key (JInt 0)) (\<lambda>v. json_int (json_or v (JInt 0)))"

fun first_pause :: "json \<Rightarrow> pystr list \<Rightarrow> py_error + pystr option" where
  "first_pause mimir [] = Inr None"
| "first_pause mimir (key # keys) =
     bind_res (mimir_int mimir key) (\<lambda>n.
       if 1 \<le> n then Inr (Some key) else first_pause mimir keys)"

definition pause_keys :: "pystr \<Rightarrow> pystr list" where
  "pause_keys pool =
     [lit ''PAUSELP'', lit ''PAUSELP'' @ before_sep 46 pool,
      lit ''PAUSELPDEPOSIT-'' @ map (\<lambda>c. if c = 46 then 45 else c) pool]"

definition lp_deposit_pause_reason :: "json \<Rightarrow> pystr \<Rightarrow> py_error + pystr option" where
  "lp_deposit_pause_reason mimir pool = first_pause mimir (pause_keys pool)"

definition require_lp_open :: "('w, 'p) thornode \<Rightarrow> pystr \<Rightarrow> ('w, 'p, unit) io" where
  "require_lp_open thorchain pool =
     and_then (tn_mimir thorchain) (\<lambda>mimir.
     and_then (of_py (lp_deposit_pause_reason mimir pool)) (\<lambda>reason.
       case reason of
         None \<Rightarrow> ret ()
       | Some key \<Rightarrow> raise (SwapAborted (LpPaused (network_name thorchain) key))))"

section \<open>Swaps\<close>

definition swap_quote_request ::
  "swap_request \<Rightarrow> int \<Rightarrow> int option \<Rightarrow> int option \<Rightarrow> quote_request" where
  "swap_quote_request request tolerance_bps streaming_interval streaming_quantity =
     \<lparr>qr_from_asset = sr_from_asset request, qr_to_asset = sr_to_asset request,
      qr_amount = sr_amount request, qr_destination = Some (sr_destination request),
      qr_streaming_interval = streaming_interval, qr_streaming_quantity = streaming_quantity,
      qr_tolerance_bps = effective_tolerance_bps (Some tolerance_bps) streaming_interval\<rparr>"

definition source_check ::
  "('w, 'p) thornode \<Rightarrow> ('w, 'b, 'k, 'p) swap_source \<Rightarrow> swap_request \<Rightarrow> ('w, 'p, unit) io" where
  "source_check thorchain adapter request =
     (if ss_native_source adapter then
        raise_if (ss_home_path_prefix adapter \<noteq> None
                  \<and> ss_home_path_prefix adapter \<noteq> Some (tn_path_prefix thorchain))
          (SwapAborted (WrongHomeNetwork (tn_path_prefix thorchain) (ss_chain adapter)
             (sr_from_asset request)))
      else and_then (require_tradable thorchain (ss_chain adapter)) (\<lambda>_. ret ()))"

definition prepare_swap ::
  "(json \<Rightarrow> pystr) \<Rightarrow> ('w, 'p) thornode \<Rightarrow> ('w, 'b, 'k, 'p) swap_source \<Rightarrow> swap_request \<Rightarrow> int \<Rightarrow> int
   \<Rightarrow> int option \<Rightarrow> int option \<Rightarrow> ('w, 'p, ('b, 'k, 'p) prepared) io" where
  "prepare_swap msg_of thorchain adapter request now tolerance_bps streaming_interval streaming_quantity =
     and_then (source_check thorchain adapter request) (\<lambda>_.
     and_then (try_call
         (tn_quote_swap thorchain
            (swap_quote_request request tolerance_bps streaming_interval streaming_quantity))
         (\<lambda>exc. case exc of
            ThorchainError e \<Rightarrow>
              Some (raise (SwapAborted
                (explain_quote_error (msg_of e) tolerance_bps (network_name thorchain))))
          | _ \<Rightarrow> None)) (\<lambda>quote.
     and_then (raise_if (sr_amount request < q_recommended_min_amount_in quote)
         (SwapAborted (BelowMinimum (sr_amount request) (q_recommended_min_amount_in quote)))) (\<lambda>_.
     and_then (raise_if (\<not> json_truthy (q_memo quote))
         (SwapAborted (NoMemo (network_name thorchain)))) (\<lambda>_.
     and_then (raise_if (\<not> ss_native_source adapter \<and> \<not> json_truthy (q_inbound_address quote))
         (SwapAborted NoInboundAddress)) (\<lambda>_.
       ss_build adapter quote request now)))))"

definition memo_pool :: "pystr \<Rightarrow> pystr" where
  "memo_pool memo = (if 58 \<in> set memo then py_split 58 memo ! 1 else [])"

definition prepare_liquidity ::
  "('w, 'p) thornode \<Rightarrow> ('w, 'b, 'k, 'p) swap_source \<Rightarrow> pystr \<Rightarrow> int option \<Rightarrow> int
   \<Rightarrow> ('w, 'p, ('b, 'k, 'p) prepared) io" where
  "prepare_liquidity thorchain adapter memo amount now =
     and_then (require_tradable thorchain (ss_chain adapter)) (\<lambda>status.
     and_then (raise_if (\<not> json_truthy (cs_address status))
         (SwapAborted (NoVault (ss_chain adapter)))) (\<lambda>_.
     and_then (if prefix (lit ''+'') memo then require_lp_open thorchain (memo_pool memo) else ret ()) (\<lambda>_.
       let deposit_amount = (case amount of None \<Rightarrow> cs_dust_threshold status | Some n \<Rightarrow> n)
       in ss_build_deposit adapter (cs_address status) memo deposit_amount now)))"

definition execute_swap ::
  "('b, 'k, 'p) prepared \<Rightarrow> ('w, 'b, 'k, 'p) swap_source \<Rightarrow> bool
   \<Rightarrow> ('w, 'p, ('b, 'k, 'p) swap_result) io" where
  "execute_swap prepared adapter confirm =
     and_then (raise_if (\<not> safe prepared) (GateRefused (pr_problems prepared))) (\<lambda>_.
       if \<not> confirm
       then ret \<lparr>res_prepared = prepared, res_txid = None, res_broadcast = False\<rparr>
       else
         and_then (ss_sign adapter (pr_built prepared)) (\<lambda>raws.
         and_then (ss_broadcast adapter raws) (\<lambda>txid.
           ret \<lparr>res_prepared = prepared, res_txid = Some txid, res_broadcast = True\<rparr>)))"

section \<open>Symmetric liquidity\<close>

record ('b, 'k, 'c, 'l, 'p) symmetric_prepared =
  sym_asset :: "('b, 'k, 'p) prepared"
  sym_protocol :: "('c, 'l, 'p) prepared"
  sym_pool :: pystr
  sym_asset_amount :: int
  sym_protocol_amount :: int
  sym_asset_address :: pystr
  sym_protocol_address :: pystr
  sym_asset_memo :: pystr
  sym_protocol_memo :: pystr

definition sym_problems :: "('b, 'k, 'c, 'l, 'p) symmetric_prepared \<Rightarrow> 'p leg_problem list" where
  "sym_problems prepared =
     map AssetLeg (pr_problems (sym_asset prepared))
     @ map ProtocolLeg (pr_problems (sym_protocol prepared))"

definition sym_safe :: "('b, 'k, 'c, 'l, 'p) symmetric_prepared \<Rightarrow> bool" where
  "sym_safe prepared \<longleftrightarrow> safe (sym_asset prepared) \<and> safe (sym_protocol prepared)"

record ('b, 'k, 'c, 'l, 'p) symmetric_result =
  syr_prepared :: "('b, 'k, 'c, 'l, 'p) symmetric_prepared"
  syr_protocol_txid :: "pystr option"
  syr_asset_txid :: "pystr option"
  syr_broadcast :: bool

definition prepare_symmetric_liquidity ::
  "('w, 'p) thornode \<Rightarrow> ('w, 'b, 'k, 'p) swap_source \<Rightarrow> ('w, 'c, 'l, 'p) protocol_source \<Rightarrow> pystr
   \<Rightarrow> int \<Rightarrow> pystr \<Rightarrow> pystr \<Rightarrow> int \<Rightarrow> ('w, 'p, ('b, 'k, 'c, 'l, 'p) symmetric_prepared) io" where
  "prepare_symmetric_liquidity thorchain asset_adapter protocol_adapter pool asset_amount
     asset_address protocol_address now =
     and_then (require_lp_open thorchain pool) (\<lambda>_.
     and_then (require_tradable thorchain (ss_chain asset_adapter)) (\<lambda>status.
     and_then (raise_if (\<not> json_truthy (cs_address status))
         (SwapAborted (NoVault (ss_chain asset_adapter)))) (\<lambda>_.
     and_then (tn_pool thorchain pool) (\<lambda>depth.
     and_then (of_py (pair_amount asset_amount (pd_balance_asset depth) (pd_balance_protocol depth)))
       (\<lambda>protocol_amount.
     and_then (require_protocol_balance protocol_adapter protocol_address protocol_amount
         (lit ''the '' @ ps_symbol protocol_adapter @ lit '' leg'')) (\<lambda>_.
     and_then (of_py (symmetric_add_memo pool protocol_address)) (\<lambda>asset_memo.
     and_then (of_py (symmetric_add_memo pool asset_address)) (\<lambda>protocol_memo.
     and_then (ss_build_deposit asset_adapter (cs_address status) asset_memo asset_amount now)
       (\<lambda>asset_leg.
     and_then (ps_build_native_deposit protocol_adapter protocol_memo protocol_amount now)
       (\<lambda>protocol_leg.
       ret \<lparr>sym_asset = asset_leg, sym_protocol = protocol_leg, sym_pool = pool,
            sym_asset_amount = asset_amount, sym_protocol_amount = protocol_amount,
            sym_asset_address = asset_address, sym_protocol_address = protocol_address,
            sym_asset_memo = asset_memo, sym_protocol_memo = protocol_memo\<rparr>))))))))))"

definition execute_symmetric_liquidity ::
  "('b, 'k, 'c, 'l, 'p) symmetric_prepared \<Rightarrow> ('w, 'b, 'k, 'p) swap_source
   \<Rightarrow> ('w, 'c, 'l, 'p) protocol_source \<Rightarrow> bool
   \<Rightarrow> ('w, 'p, ('b, 'k, 'c, 'l, 'p) symmetric_result) io" where
  "execute_symmetric_liquidity prepared asset_adapter protocol_adapter confirm =
     and_then (raise_if (\<not> sym_safe prepared) (LegsRefused (sym_problems prepared))) (\<lambda>_.
       if \<not> confirm
       then ret \<lparr>syr_prepared = prepared, syr_protocol_txid = None, syr_asset_txid = None,
                 syr_broadcast = False\<rparr>
       else
         and_then (ps_sign protocol_adapter (pr_built (sym_protocol prepared))) (\<lambda>protocol_raws.
         and_then (ps_broadcast protocol_adapter protocol_raws) (\<lambda>protocol_txid.
         and_then
           (try_call
             (and_then (ss_sign asset_adapter (pr_built (sym_asset prepared))) (\<lambda>asset_raws.
                ss_broadcast asset_adapter asset_raws))
             (\<lambda>exc. Some (raise (PartialSymmetricAdd protocol_txid exc)))) (\<lambda>asset_txid.
           ret \<lparr>syr_prepared = prepared, syr_protocol_txid = Some protocol_txid,
                syr_asset_txid = Some asset_txid, syr_broadcast = True\<rparr>))))"

section \<open>Protocol-side liquidity and the protocol pools\<close>

definition prepare_protocol_only_liquidity ::
  "('w, 'p) thornode \<Rightarrow> ('w, 'c, 'l, 'p) protocol_source \<Rightarrow> pystr \<Rightarrow> int \<Rightarrow> pystr \<Rightarrow> int
   \<Rightarrow> ('w, 'p, ('c, 'l, 'p) prepared \<times> liquidity_position option) io" where
  "prepare_protocol_only_liquidity thorchain protocol_adapter pool amount protocol_address now =
     and_then (require_lp_open thorchain pool) (\<lambda>_.
     and_then (tn_liquidity_provider thorchain pool protocol_address) (\<lambda>existing.
     and_then (raise_if (case existing of None \<Rightarrow> False | Some e \<Rightarrow> lpos_units e = 0)
         (SwapAborted (PendingAdd protocol_address pool))) (\<lambda>_.
     and_then (tn_pool thorchain pool) (\<lambda>depth.
     and_then (raise_if (json_truthy (pd_status depth) \<and> pd_status depth \<noteq> JStr (lit ''Available''))
         (SwapAborted (PoolNotAvailable pool (pd_status depth) (network_name thorchain)))) (\<lambda>_.
     and_then (require_protocol_balance protocol_adapter protocol_address amount (lit ''the add'')) (\<lambda>_.
     and_then (ps_build_native_deposit protocol_adapter (add_liquidity_memo pool) amount now) (\<lambda>prepared.
       ret (prepared, existing))))))))"

definition protocol_pool_of :: "('w, 'p) thornode \<Rightarrow> ('w, 'p, protocol_pool) io" where
  "protocol_pool_of thorchain =
     (case map_of PROTOCOL_POOLS (tn_path_prefix thorchain) of
        None \<Rightarrow> raise (SwapAborted (NoProtocolPool (network_name thorchain)))
      | Some pool \<Rightarrow> ret pool)"

definition require_protocol_pool ::
  "('w, 'p) thornode \<Rightarrow> pystr \<Rightarrow> ('w, 'p, protocol_pool) io" where
  "require_protocol_pool thorchain op =
     and_then (protocol_pool_of thorchain) (\<lambda>pool.
     and_then (tn_mimir thorchain) (\<lambda>mimir.
     and_then (of_py (mimir_int mimir (pp_token pool @ lit ''POOLENABLED''))) (\<lambda>enabled.
     and_then (raise_if (enabled < 1)
         (SwapAborted (PoolDisabled (network_name thorchain) (pp_name pool)))) (\<lambda>_.
     and_then (of_py (mimir_int mimir (pp_token pool @ lit ''POOLHALT'' @ op))) (\<lambda>halt.
     and_then
       (if 0 < halt
        then and_then (tn_last_height thorchain) (\<lambda>height. ret (halt \<le> height))
        else ret False) (\<lambda>halted.
     and_then (raise_if halted
         (SwapAborted (PoolHalted (network_name thorchain) (pp_name pool) halt op))) (\<lambda>_.
       ret pool)))))))"

definition pool_maturity_blocks :: "('w, 'p) thornode \<Rightarrow> ('w, 'p, int) io" where
  "pool_maturity_blocks thorchain =
     and_then (protocol_pool_of thorchain) (\<lambda>pool.
     let key = pp_token pool @ lit ''POOLDEPOSITMATURITYBLOCKS'' in
     and_then (tn_mimir thorchain) (\<lambda>mimir.
     and_then (of_py (jhas key mimir)) (\<lambda>known.
     if known then of_py (jint_at mimir key)
     else
       and_then (tn_constants thorchain) (\<lambda>constants.
       and_then (of_py (jget_or constants (lit ''int_64_values'') (JObj []))) (\<lambda>vals.
       and_then (of_py (jget vals (pp_token pool @ lit ''PoolDepositMaturityBlocks''))) (\<lambda>constant.
       and_then (raise_if (constant = JNull)
           (SwapAborted (MaturityUnknown (pp_name pool) key))) (\<lambda>_.
         of_py (json_int constant))))))))"

definition prepare_pool_deposit ::
  "('w, 'p) thornode \<Rightarrow> ('w, 'c, 'l, 'p) protocol_source \<Rightarrow> int \<Rightarrow> pystr \<Rightarrow> int
   \<Rightarrow> ('w, 'p, ('c, 'l, 'p) prepared) io" where
  "prepare_pool_deposit thorchain protocol_adapter amount address now =
     and_then (require_protocol_pool thorchain (lit ''DEPOSIT'')) (\<lambda>pool.
     and_then (require_protocol_balance protocol_adapter address amount
         (lit ''the '' @ pp_name pool @ lit '' deposit'')) (\<lambda>_.
       ps_build_native_deposit protocol_adapter POOL_DEPOSIT_MEMO amount now))"

definition prepare_pool_withdraw ::
  "('w, 'p) thornode \<Rightarrow> ('w, 'c, 'l, 'p) protocol_source \<Rightarrow> int \<Rightarrow> pystr \<Rightarrow> int
   \<Rightarrow> ('w, 'p, ('c, 'l, 'p) prepared \<times> pool_provider_position) io" where
  "prepare_pool_withdraw thorchain protocol_adapter basis_points address now =
     and_then (of_py (pool_withdraw_memo basis_points)) (\<lambda>memo.
     and_then (require_protocol_pool thorchain (lit ''WITHDRAW'')) (\<lambda>pool.
     and_then (tn_pool_provider thorchain address) (\<lambda>found.
       case found of
         None \<Rightarrow> raise (SwapAborted (NoPoolPosition address (pp_name pool)))
       | Some position \<Rightarrow>
           and_then (pool_maturity_blocks thorchain) (\<lambda>maturity.
           and_then (tn_last_height thorchain) (\<lambda>height.
           let left = ppos_last_deposit_height position + maturity - height in
           and_then (raise_if (0 < left) (SwapAborted (NotMature (pp_name pool) left))) (\<lambda>_.
           and_then (ps_build_native_deposit protocol_adapter memo POOL_WITHDRAW_AMOUNT now)
             (\<lambda>prepared. ret (prepared, position))))))))"

section \<open>What a prepared swap has passed\<close>

lemma try_raise_Inr:
  "(\<And>e k u. h e = Some k \<Longrightarrow> \<exists>e'. fst (k u) = Inl e') \<Longrightarrow>
   try_call m h w = (Inr y, w') \<longleftrightarrow> m w = (Inr y, w')"
  by (auto simp: try_call_def split: prod.split sum.split option.split) (metis fst_conv Inr_not_Inl)+

lemma require_tradable_Inr:
  "require_tradable t c w = (Inr status, w') \<longleftrightarrow>
     (\<exists>statuses. tn_inbound_addresses t w = (Inr statuses, w') \<and>
        map_of statuses (JStr c) = Some status \<and> tradable status)"
  by (auto simp: require_tradable_def Let_def io_reached split: option.split_asm if_split_asm)

lemma source_check_Inr:
  "source_check t a r w = (Inr x, u) \<longleftrightarrow>
     (if ss_native_source a
      then w = u \<and> (ss_home_path_prefix a = None \<or> ss_home_path_prefix a = Some (tn_path_prefix t))
      else \<exists>statuses status. tn_inbound_addresses t w = (Inr statuses, u) \<and>
             map_of statuses (JStr (ss_chain a)) = Some status \<and> tradable status)"
  by (auto simp: source_check_def io_reached require_tradable_Inr)

text \<open>What a successful quote of the client asked for and was answered.\<close>

lemma client_quote_swap_Inr:
  fixes get :: "('w, 'p) fetch"
  shows "client_quote_swap get base r w = (Inr q, w') \<longleftrightarrow>
     (\<exists>resp body. get (base @ lit ''/quote/swap'') (quote_params r) w = (Inr resp, w')
        \<and> rs_status resp < 400 \<and> rs_json resp = Some body \<and> (parse_quote body :: 'p exn + quote) = Inr q)"
proof -
  let ?read = "\<lambda>resp :: response.
       if 400 \<le> rs_status resp then
         (case rs_json resp of
            None \<Rightarrow> raise HttpError
          | Some payload \<Rightarrow>
              (case jget_or payload (lit ''error'') (JStr (rs_text resp)) of
                 Inl e \<Rightarrow> raise (PyExn e)
               | Inr e \<Rightarrow> raise (ThorchainError e)))
       else and_then (resp_json resp) (\<lambda>body. of_res (parse_quote body :: 'p exn + quote))"
  have read: "?read resp u = (Inr q, w') \<longleftrightarrow> u = w' \<and> rs_status resp < 400
      \<and> (\<exists>body. rs_json resp = Some body \<and> (parse_quote body :: 'p exn + quote) = Inr q)" for resp u
    by (cases "400 \<le> rs_status resp"; cases "rs_json resp")
      (auto simp: io_reached resp_json_def of_res_def raise_def split: sum.splits)
  have "client_quote_swap get base r w = (Inr q, w') \<longleftrightarrow>
      (\<exists>resp u. get (base @ lit ''/quote/swap'') (quote_params r) w = (Inr resp, u) \<and> ?read resp u = (Inr q, w'))"
    unfolding client_quote_swap_def by (rule and_then_Inr)
  then show ?thesis unfolding read by blast
qed

lemma read_api_Inr:
  "read_api get path parse w = (Inr x, w') \<longleftrightarrow>
     (\<exists>resp body. get path [] w = (Inr resp, w') \<and> rs_status resp < 400
        \<and> rs_json resp = Some body \<and> parse body = Inr x)"
  by (auto simp: read_api_def raise_for_status_def io_reached resp_json_def split: option.splits)

text \<open>
  C8: A swap is prepared over exactly these requests and no others. The source has to be usable: an
  external chain is listed and tradable in the answer of \<open>/inbound_addresses\<close>, a native one is
  quoted by its home network without any request. The node is then asked for a quote of the pair,
  the amount and the destination of the request, with the streaming parameters that were given and
  the tolerance exactly when the swap does not stream; the quote is read from an answer that is no
  error. And the amount reaches the recommended minimum, the quote carries a memo and, for an
  external chain, a vault, and the adapter builds from that very quote.
\<close>

theorem prepare_swap_exact:
  fixes a :: "('w, 'b, 'k, 'p) swap_source"
  shows "prepare_swap msg_of (thorchain_client get network) a r now tol si sq w = (Inr p, w') \<longleftrightarrow>
     (\<exists>u resp body q v.
        (if ss_native_source a
         then u = w \<and> ss_home_path_prefix a \<in> {None, Some network}
         else json_truthy (q_inbound_address q)
           \<and> (\<exists>listing entries statuses status.
                get (network @ lit ''/inbound_addresses'') [] w = (Inr listing, u)
                \<and> rs_status listing < 400 \<and> rs_json listing = Some entries
                \<and> parse_inbound_addresses entries = Inr statuses
                \<and> map_of statuses (JStr (ss_chain a)) = Some status
                \<and> \<not> cs_halted status \<and> \<not> cs_global_trading_paused status \<and> \<not> cs_chain_trading_paused status))
      \<and> get (network @ lit ''/quote/swap'')
          ([(lit ''from_asset'', JStr (sr_from_asset r)), (lit ''to_asset'', JStr (sr_to_asset r)),
            (lit ''amount'', JInt (sr_amount r)), (lit ''destination'', JStr (sr_destination r))]
           @ opt_param (lit ''streaming_interval'') si @ opt_param (lit ''streaming_quantity'') sq
           @ (if si = None then [(lit ''tolerance_bps'', JInt tol)] else [])) u = (Inr resp, v)
      \<and> rs_status resp < 400 \<and> rs_json resp = Some body \<and> (parse_quote body :: 'p exn + quote) = Inr q
      \<and> q_recommended_min_amount_in q \<le> sr_amount r \<and> json_truthy (q_memo q)
      \<and> ss_build a q r now v = (Inr p, w'))"
proof -
  let ?t = "thorchain_client get network"
  have quoted: "try_call m (\<lambda>exc. case exc of ThorchainError e \<Rightarrow> Some (raise (f e)) | _ \<Rightarrow> None) u = (Inr y, v)
      \<longleftrightarrow> m u = (Inr y, v)" for m f u y v
    by (rule try_raise_Inr) (auto simp: raise_def split: exn.splits)
  have params: "quote_params (swap_quote_request r tol si sq) =
      [(lit ''from_asset'', JStr (sr_from_asset r)), (lit ''to_asset'', JStr (sr_to_asset r)),
       (lit ''amount'', JInt (sr_amount r)), (lit ''destination'', JStr (sr_destination r))]
      @ opt_param (lit ''streaming_interval'') si @ opt_param (lit ''streaming_quantity'') sq
      @ (if si = None then [(lit ''tolerance_bps'', JInt tol)] else [])"
    by (simp add: quote_params_def swap_quote_request_def effective_tolerance_bps_def opt_param_def)
  have quote: "tn_quote_swap ?t (swap_quote_request r tol si sq) u = (Inr q, v) \<longleftrightarrow>
      (\<exists>resp body. get (network @ lit ''/quote/swap'') (quote_params (swap_quote_request r tol si sq)) u = (Inr resp, v)
         \<and> rs_status resp < 400 \<and> rs_json resp = Some body \<and> (parse_quote body :: 'p exn + quote) = Inr q)" for u q v
    by (simp add: thorchain_client_def client_quote_swap_Inr)
  have source: "source_check ?t a r w = (Inr x, u) \<longleftrightarrow>
      (if ss_native_source a then u = w \<and> ss_home_path_prefix a \<in> {None, Some network}
       else \<exists>listing entries statuses status.
              get (network @ lit ''/inbound_addresses'') [] w = (Inr listing, u)
              \<and> rs_status listing < 400 \<and> rs_json listing = Some entries
              \<and> parse_inbound_addresses entries = Inr statuses
              \<and> map_of statuses (JStr (ss_chain a)) = Some status
              \<and> \<not> cs_halted status \<and> \<not> cs_global_trading_paused status
              \<and> \<not> cs_chain_trading_paused status)" for x u
    unfolding source_check_Inr
    by (auto simp: thorchain_client_def client_inbound_addresses_def read_api_Inr tradable_def)
  have "prepare_swap msg_of ?t a r now tol si sq w = (Inr p, w') \<longleftrightarrow>
     (\<exists>u q v. source_check ?t a r w = (Inr (), u)
      \<and> tn_quote_swap ?t (swap_quote_request r tol si sq) u = (Inr q, v)
      \<and> q_recommended_min_amount_in q \<le> sr_amount r \<and> json_truthy (q_memo q)
      \<and> (ss_native_source a \<or> json_truthy (q_inbound_address q))
      \<and> ss_build a q r now v = (Inr p, w'))"
    unfolding prepare_swap_def and_then_Inr quoted io_Inr_iff not_less by (simp; blast)
  then show ?thesis
    unfolding source quote params by (cases "ss_native_source a") (simp; blast)+
qed

text \<open>
  C14: Nothing is signed before the gate has passed and the user has confirmed. An unsafe swap is
  refused and a dry run returns, both without touching the world; a result that reports a
  broadcast comes from a safe, confirmed swap whose own transaction was signed and whose signed
  transactions were broadcast, under the id the network gave.
\<close>

theorem execute_swap_gated:
  "(\<not> safe p \<longrightarrow> execute_swap p a confirm w = (Inl (GateRefused (pr_problems p)), w))
   \<and> (safe p \<and> \<not> confirm \<longrightarrow>
        execute_swap p a confirm w
        = (Inr \<lparr>res_prepared = p, res_txid = None, res_broadcast = False\<rparr>, w))
   \<and> (execute_swap p a confirm w = (Inr res, w') \<and> res_broadcast res \<longrightarrow>
        safe p \<and> confirm \<and> res_prepared res = p \<and>
        (\<exists>raws u txid. ss_sign a (pr_built p) w = (Inr raws, u) \<and>
           ss_broadcast a raws u = (Inr txid, w') \<and> res_txid res = Some txid))"
  by (cases confirm; cases "safe p")
     (auto simp: execute_swap_def io_simps io_reached)

text \<open>A world that is the list of what happened, and an adapter that always succeeds.\<close>

definition ex_source :: "(pystr list, nat, unit, nat) swap_source" where
  "ex_source = \<lparr>ss_chain = lit ''BTC'', ss_native_source = False, ss_home_path_prefix = None,
     ss_build = \<lambda>q r now. ret \<lparr>pr_quote = Some q, pr_built = 7, pr_plan = (), pr_problems = []\<rparr>,
     ss_build_deposit = \<lambda>v m n now. ret \<lparr>pr_quote = None, pr_built = 7, pr_plan = (), pr_problems = []\<rparr>,
     ss_sign = \<lambda>b w. (Inr [lit ''raw''], w @ [lit ''sign'']),
     ss_broadcast = \<lambda>raws w. (Inr (lit ''tx''), w @ raws)\<rparr>"

lemma execute_swap_gated_witness:
  "\<exists>raws u. ss_sign ex_source 7 [] = (Inr raws, u) \<and>
     ss_broadcast ex_source raws u = (Inr (lit ''tx''), [lit ''sign'', lit ''raw''])"
proof -
  let ?p = "\<lparr>pr_quote = None, pr_built = 7 :: nat, pr_plan = (), pr_problems = [] :: nat list\<rparr>"
  let ?r = "\<lparr>res_prepared = ?p, res_txid = Some (lit ''tx''), res_broadcast = True\<rparr>"
  have run: "execute_swap ?p ex_source True [] = (Inr ?r, [lit ''sign'', lit ''raw''])"
    by (simp add: execute_swap_def safe_def ex_source_def and_then_def ret_def raise_if_def)
  have "res_broadcast ?r" by simp
  with run execute_swap_gated [of ?p ex_source True "[]" ?r "[lit ''sign'', lit ''raw'']"]
  have "\<exists>raws u txid. ss_sign ex_source (pr_built ?p) [] = (Inr raws, u) \<and>
      ss_broadcast ex_source raws u = (Inr txid, [lit ''sign'', lit ''raw'']) \<and>
      res_txid ?r = Some txid"
    by blast
  then show ?thesis by simp
qed

section \<open>The two legs of a symmetric add\<close>

text \<open>
  What \<open>execute_symmetric_liquidity\<close> promises, as a machine: the protocol leg is signed and
  broadcast first, the asset leg only after it is live, and a failure ends the run with what is
  live told in its outcome.
\<close>

datatype ('b, 'k, 'c, 'l, 'p) legs =
  Ready
| ProtocolSigned "pystr list"
| ProtocolLive pystr
| AssetSigned pystr "pystr list"
| Finished "'p exn + ('b, 'k, 'c, 'l, 'p) symmetric_result"

inductive leg_step ::
  "('b, 'k, 'c, 'l, 'p) symmetric_prepared \<Rightarrow> ('w, 'b, 'k, 'p) swap_source
   \<Rightarrow> ('w, 'c, 'l, 'p) protocol_source \<Rightarrow> bool
   \<Rightarrow> ('b, 'k, 'c, 'l, 'p) legs \<times> 'w \<Rightarrow> ('b, 'k, 'c, 'l, 'p) legs \<times> 'w \<Rightarrow> bool"
  for x a p confirm
where
  Refuse: "\<not> sym_safe x \<Longrightarrow>
    leg_step x a p confirm (Ready, w) (Finished (Inl (LegsRefused (sym_problems x))), w)"
| DryRun: "sym_safe x \<Longrightarrow> \<not> confirm \<Longrightarrow>
    leg_step x a p confirm (Ready, w)
      (Finished (Inr \<lparr>syr_prepared = x, syr_protocol_txid = None, syr_asset_txid = None,
                      syr_broadcast = False\<rparr>), w)"
| SignProtocol: "sym_safe x \<Longrightarrow> confirm \<Longrightarrow> ps_sign p (pr_built (sym_protocol x)) w = (Inr raws, w') \<Longrightarrow>
    leg_step x a p confirm (Ready, w) (ProtocolSigned raws, w')"
| SignProtocolFails: "sym_safe x \<Longrightarrow> confirm \<Longrightarrow>
    ps_sign p (pr_built (sym_protocol x)) w = (Inl e, w') \<Longrightarrow>
    leg_step x a p confirm (Ready, w) (Finished (Inl e), w')"
| SendProtocol: "ps_broadcast p raws w = (Inr t, w') \<Longrightarrow>
    leg_step x a p confirm (ProtocolSigned raws, w) (ProtocolLive t, w')"
| SendProtocolFails: "ps_broadcast p raws w = (Inl e, w') \<Longrightarrow>
    leg_step x a p confirm (ProtocolSigned raws, w) (Finished (Inl e), w')"
| SignAsset: "ss_sign a (pr_built (sym_asset x)) w = (Inr raws, w') \<Longrightarrow>
    leg_step x a p confirm (ProtocolLive t, w) (AssetSigned t raws, w')"
| SignAssetFails: "ss_sign a (pr_built (sym_asset x)) w = (Inl e, w') \<Longrightarrow>
    leg_step x a p confirm (ProtocolLive t, w) (Finished (Inl (PartialSymmetricAdd t e)), w')"
| SendAsset: "ss_broadcast a raws w = (Inr t', w') \<Longrightarrow>
    leg_step x a p confirm (AssetSigned t raws, w)
      (Finished (Inr \<lparr>syr_prepared = x, syr_protocol_txid = Some t, syr_asset_txid = Some t',
                      syr_broadcast = True\<rparr>), w')"
| SendAssetFails: "ss_broadcast a raws w = (Inl e, w') \<Longrightarrow>
    leg_step x a p confirm (AssetSigned t raws, w) (Finished (Inl (PartialSymmetricAdd t e)), w')"

inductive_cases leg_step_cases: "leg_step x a p confirm s s'"

text \<open>What is left to run from a state of the machine.\<close>

definition from_asset_signed ::
  "('b, 'k, 'c, 'l, 'p) symmetric_prepared \<Rightarrow> ('w, 'b, 'k, 'p) swap_source \<Rightarrow> pystr \<Rightarrow> pystr list
   \<Rightarrow> ('w, 'p, ('b, 'k, 'c, 'l, 'p) symmetric_result) io" where
  "from_asset_signed x a t raws w =
     (case ss_broadcast a raws w of
        (Inl e, w') \<Rightarrow> (Inl (PartialSymmetricAdd t e), w')
      | (Inr t', w') \<Rightarrow>
          (Inr \<lparr>syr_prepared = x, syr_protocol_txid = Some t, syr_asset_txid = Some t',
               syr_broadcast = True\<rparr>, w'))"

definition from_protocol_live ::
  "('b, 'k, 'c, 'l, 'p) symmetric_prepared \<Rightarrow> ('w, 'b, 'k, 'p) swap_source \<Rightarrow> pystr
   \<Rightarrow> ('w, 'p, ('b, 'k, 'c, 'l, 'p) symmetric_result) io" where
  "from_protocol_live x a t w =
     (case ss_sign a (pr_built (sym_asset x)) w of
        (Inl e, w') \<Rightarrow> (Inl (PartialSymmetricAdd t e), w')
      | (Inr raws, w') \<Rightarrow> from_asset_signed x a t raws w')"

fun resume ::
  "('b, 'k, 'c, 'l, 'p) symmetric_prepared \<Rightarrow> ('w, 'b, 'k, 'p) swap_source
   \<Rightarrow> ('w, 'c, 'l, 'p) protocol_source \<Rightarrow> bool \<Rightarrow> ('b, 'k, 'c, 'l, 'p) legs \<times> 'w
   \<Rightarrow> ('p exn + ('b, 'k, 'c, 'l, 'p) symmetric_result) \<times> 'w" where
  "resume x a p confirm (Ready, w) = execute_symmetric_liquidity x a p confirm w"
| "resume x a p confirm (ProtocolSigned raws, w) =
     and_then (ps_broadcast p raws) (from_protocol_live x a) w"
| "resume x a p confirm (ProtocolLive t, w) = from_protocol_live x a t w"
| "resume x a p confirm (AssetSigned t raws, w) = from_asset_signed x a t raws w"
| "resume x a p confirm (Finished out, w) = (out, w)"

lemma execute_symmetric_resume:
  "sym_safe x \<Longrightarrow> confirm \<Longrightarrow>
   execute_symmetric_liquidity x a p confirm
   = and_then (ps_sign p (pr_built (sym_protocol x))) (\<lambda>raws.
       and_then (ps_broadcast p raws) (from_protocol_live x a))"
  by (rule ext)
     (simp add: execute_symmetric_liquidity_def and_then_def try_call_def ret_def raise_def
        from_protocol_live_def from_asset_signed_def split: prod.split sum.split)

lemma execute_symmetric_stops:
  "\<not> sym_safe x \<Longrightarrow>
   execute_symmetric_liquidity x a p confirm w = (Inl (LegsRefused (sym_problems x)), w)"
  "sym_safe x \<Longrightarrow> \<not> confirm \<Longrightarrow>
   execute_symmetric_liquidity x a p confirm w
   = (Inr \<lparr>syr_prepared = x, syr_protocol_txid = None, syr_asset_txid = None,
          syr_broadcast = False\<rparr>, w)"
  by (simp_all add: execute_symmetric_liquidity_def io_run)

lemmas leg_run = execute_symmetric_stops execute_symmetric_resume and_then_run
  from_protocol_live_def from_asset_signed_def

lemma leg_step_resume:
  "leg_step x a p confirm s s' \<Longrightarrow> resume x a p confirm s = resume x a p confirm s'"
  by (induction rule: leg_step.induct) (simp_all add: leg_run)

lemma leg_steps_resume:
  "(leg_step x a p confirm)\<^sup>*\<^sup>* s s' \<Longrightarrow> resume x a p confirm s = resume x a p confirm s'"
  by (induction rule: rtranclp_induct) (auto dest: leg_step_resume)

lemma asset_signed_runs:
  "\<exists>out w'. (leg_step x a p confirm)\<^sup>*\<^sup>* (AssetSigned t raws, w) (Finished out, w')"
  by (cases "ss_broadcast a raws w") (metis SendAsset SendAssetFails r_into_rtranclp sumE)

lemma protocol_live_runs:
  "\<exists>out w'. (leg_step x a p confirm)\<^sup>*\<^sup>* (ProtocolLive t, w) (Finished out, w')"
  by (cases "ss_sign a (pr_built (sym_asset x)) w")
     (metis SignAsset SignAssetFails asset_signed_runs converse_rtranclp_into_rtranclp
        r_into_rtranclp sumE)

lemma protocol_signed_runs:
  "\<exists>out w'. (leg_step x a p confirm)\<^sup>*\<^sup>* (ProtocolSigned raws, w) (Finished out, w')"
  by (cases "ps_broadcast p raws w")
     (metis SendProtocol SendProtocolFails protocol_live_runs converse_rtranclp_into_rtranclp
        r_into_rtranclp sumE)

lemma legs_run: "\<exists>out w'. (leg_step x a p confirm)\<^sup>*\<^sup>* (Ready, w) (Finished out, w')"
proof (cases "sym_safe x \<and> confirm")
  case True
  then show ?thesis
    by (cases "ps_sign p (pr_built (sym_protocol x)) w")
       (metis SignProtocol SignProtocolFails protocol_signed_runs converse_rtranclp_into_rtranclp
          r_into_rtranclp sumE)
next
  case False
  then show ?thesis by (meson Refuse DryRun r_into_rtranclp)
qed

text \<open>
  C5: The two-leg add runs to its end, in its order. \<open>execute_symmetric_liquidity\<close> gives an
  outcome exactly when the machine (protocol leg signed, protocol leg live, asset leg signed,
  done) can reach it from the start, and some outcome is always reached: no run is stuck and
  none ends any other way.
\<close>

theorem symmetric_execution_steps:
  "(execute_symmetric_liquidity x a p confirm w = (out, w') \<longleftrightarrow>
      (leg_step x a p confirm)\<^sup>*\<^sup>* (Ready, w) (Finished out, w'))
   \<and> (\<exists>out w'. (leg_step x a p confirm)\<^sup>*\<^sup>* (Ready, w) (Finished out, w'))"
proof -
  have sound: "execute_symmetric_liquidity x a p confirm w = (out, w')"
    if "(leg_step x a p confirm)\<^sup>*\<^sup>* (Ready, w) (Finished out, w')" for out w'
    using leg_steps_resume [OF that] by simp
  obtain out' u where run: "(leg_step x a p confirm)\<^sup>*\<^sup>* (Ready, w) (Finished out', u)"
    using legs_run [of x a p confirm w] by blast
  then show ?thesis using sound [of out w'] sound [of out' u] by auto
qed

text \<open>The protocol leg went live under the id \<open>t\<close>, leaving the world \<open>v\<close>.\<close>

definition protocol_live ::
  "('b, 'k, 'c, 'l, 'p) symmetric_prepared \<Rightarrow> ('w, 'c, 'l, 'p) protocol_source \<Rightarrow> bool \<Rightarrow> 'w
   \<Rightarrow> pystr \<Rightarrow> 'w \<Rightarrow> bool" where
  "protocol_live x p confirm w t v \<longleftrightarrow> sym_safe x \<and> confirm \<and>
     (\<exists>rs u. ps_sign p (pr_built (sym_protocol x)) w = (Inr rs, u) \<and> ps_broadcast p rs u = (Inr t, v))"

text \<open>
  C10: No leg is live by accident, and none is forgotten. When the protocol adapter raises nothing
  of the wallet's own, a reported success means that both gates had passed, the user had
  confirmed, and the protocol leg was broadcast before the asset leg was even signed; a
  half-added position is reported exactly when the protocol leg went live and the asset leg then
  failed, with the live id and the cause; and unless the protocol leg is live, no operation of
  the asset adapter has any part in the outcome.
\<close>

theorem symmetric_add_outcome:
  assumes "\<And>b u t e v. ps_sign p b u \<noteq> (Inl (PartialSymmetricAdd t e), v)"
    and "\<And>rs u t e v. ps_broadcast p rs u \<noteq> (Inl (PartialSymmetricAdd t e), v)"
  shows "(execute_symmetric_liquidity x a p confirm w = (Inr r, w') \<and> syr_broadcast r \<longleftrightarrow>
      (\<exists>t v rs u t'. protocol_live x p confirm w t v \<and> ss_sign a (pr_built (sym_asset x)) v = (Inr rs, u) \<and>
         ss_broadcast a rs u = (Inr t', w') \<and>
         r = \<lparr>syr_prepared = x, syr_protocol_txid = Some t, syr_asset_txid = Some t', syr_broadcast = True\<rparr>))
   \<and> (execute_symmetric_liquidity x a p confirm w = (Inl (PartialSymmetricAdd t e), w') \<longleftrightarrow>
      (\<exists>v. protocol_live x p confirm w t v \<and> (ss_sign a (pr_built (sym_asset x)) v = (Inl e, w') \<or>
         (\<exists>rs u. ss_sign a (pr_built (sym_asset x)) v = (Inr rs, u) \<and> ss_broadcast a rs u = (Inl e, w')))))
   \<and> ((\<nexists>t v. protocol_live x p confirm w t v) \<longrightarrow>
      execute_symmetric_liquidity x a p confirm w = execute_symmetric_liquidity x a' p confirm w)"
proof (cases "sym_safe x \<and> confirm")
  case False
  then have "\<not> protocol_live x p confirm w t v" for t v by (auto simp: protocol_live_def)
  moreover have "execute_symmetric_liquidity x b p confirm w
      = (if sym_safe x
         then Inr \<lparr>syr_prepared = x, syr_protocol_txid = None, syr_asset_txid = None, syr_broadcast = False\<rparr>
         else Inl (LegsRefused (sym_problems x)), w)" for b
    using False by (auto simp: execute_symmetric_stops)
  ultimately show ?thesis by auto
next
  case True
  note run = execute_symmetric_resume [of x confirm _ p, OF True [THEN conjunct1] True [THEN conjunct2]]
  show ?thesis
  proof (cases "\<exists>t v. protocol_live x p confirm w t v")
    case False
    then have same: "execute_symmetric_liquidity x b p confirm w = execute_symmetric_liquidity x a p confirm w" for b
      using True unfolding run protocol_live_def
      by (auto simp: and_then_def split: prod.split sum.split)
    moreover have "execute_symmetric_liquidity x a p confirm w \<noteq> (Inr r, w')"
      and "execute_symmetric_liquidity x a p confirm w \<noteq> (Inl (PartialSymmetricAdd t e), w')"
      using False True assms(1,2) unfolding run protocol_live_def
      by (auto simp: and_then_def split: prod.splits sum.splits)
    ultimately show ?thesis using False same [of a', symmetric] by blast
  next
    case True
    then obtain s v where s: "protocol_live x p confirm w s v" by blast
    then have only: "protocol_live x p confirm w t' v' \<longleftrightarrow> t' = s \<and> v' = v" for t' v' by (auto simp: protocol_live_def)
    have "execute_symmetric_liquidity x a p confirm w = from_protocol_live x a s v"
      using s unfolding run protocol_live_def by (auto simp: and_then_def)
    with True show ?thesis
      unfolding only
      by (auto simp: from_protocol_live_def from_asset_signed_def split: prod.splits sum.splits)
  qed
qed

definition ex_protocol :: "(pystr list, nat, unit, nat) protocol_source" where
  "ex_protocol = \<lparr>ps_symbol = lit ''RUNE'', ps_decimals = 8, ps_fetch_balance = \<lambda>a. ret 10,
     ps_build_native_deposit = \<lambda>m n now.
       ret \<lparr>pr_quote = None, pr_built = 5, pr_plan = (), pr_problems = []\<rparr>,
     ps_sign = \<lambda>b w. (Inr [lit ''p-raw''], w), ps_broadcast = \<lambda>raws w. (Inr (lit ''p-tx''), w @ raws)\<rparr>"

definition ex_add :: "(nat, unit, nat, unit, nat) symmetric_prepared" where
  "ex_add = \<lparr>sym_asset = \<lparr>pr_quote = None, pr_built = 7, pr_plan = (), pr_problems = []\<rparr>,
     sym_protocol = \<lparr>pr_quote = None, pr_built = 5, pr_plan = (), pr_problems = []\<rparr>,
     sym_pool = lit ''BTC.BTC'', sym_asset_amount = 3, sym_protocol_amount = 4,
     sym_asset_address = lit ''a'', sym_protocol_address = lit ''b'',
     sym_asset_memo = [], sym_protocol_memo = []\<rparr>"

lemma symmetric_add_outcome_witness:
  "\<exists>w'. execute_symmetric_liquidity ex_add (ex_source\<lparr>ss_broadcast := \<lambda>raws w. (Inl HttpError, w)\<rparr>)
     ex_protocol True [] = (Inl (PartialSymmetricAdd (lit ''p-tx'') HttpError), w')
     \<and> lit ''p-raw'' \<in> set w'"
proof -
  let ?a = "ex_source\<lparr>ss_broadcast := \<lambda>raws w. (Inl HttpError, w)\<rparr>"
  let ?w = "[lit ''p-raw'', lit ''sign'']"
  have live: "protocol_live ex_add ex_protocol True [] (lit ''p-tx'') [lit ''p-raw'']"
    by (simp add: protocol_live_def sym_safe_def safe_def ex_add_def ex_protocol_def)
  have asset: "ss_sign ?a (pr_built (sym_asset ex_add)) [lit ''p-raw''] = (Inr [lit ''raw''], ?w)"
    "ss_broadcast ?a [lit ''raw''] ?w = (Inl HttpError, ?w)"
    by (simp_all add: ex_source_def)
  have p: "ps_sign ex_protocol b u \<noteq> (Inl (PartialSymmetricAdd t e), v)"
    "ps_broadcast ex_protocol rs u \<noteq> (Inl (PartialSymmetricAdd t e), v)" for b rs u t e v
    by (simp_all add: ex_protocol_def)
  have "execute_symmetric_liquidity ex_add ?a ex_protocol True []
      = (Inl (PartialSymmetricAdd (lit ''p-tx'') HttpError), ?w)"
    using symmetric_add_outcome [of ex_protocol ex_add ?a True "[]" undefined ?w "lit ''p-tx''" HttpError, OF p]
      live asset by blast
  then show ?thesis by simp
qed

end
