(* ===== verification/Codec.thy ===== *)
theory Codec
  imports Prelude
begin

text \<open>
  Readers that consume a prefix of their input. A reader returns the value and the unread rest,
  which stands for the position the Python readers carry along; \<open>prefix_codec\<close> is the law that
  a reader undoes its writer whatever follows, and gives repeated fields from single ones.
\<close>

text \<open>\<open>for _ in range(n)\<close> over a reader, and the writer of a list.\<close>

fun read_many :: "(bytes \<Rightarrow> 'e + ('a \<times> bytes)) \<Rightarrow> nat \<Rightarrow> bytes \<Rightarrow> 'e + ('a list \<times> bytes)" where
  "read_many rd 0 bs = Inr ([], bs)"
| "read_many rd (Suc n) bs =
     bind_res (rd bs) (\<lambda>(x, bs). bind_res (read_many rd n bs) (\<lambda>(xs, bs). Inr (x # xs, bs)))"

definition write_many :: "('a \<Rightarrow> bytes) \<Rightarrow> 'a list \<Rightarrow> bytes" where
  "write_many wr xs = concat (map wr xs)"

lemma write_many_simps [simp]:
  "write_many wr [] = []" "write_many wr (x # xs) = wr x @ write_many wr xs"
  by (simp_all add: write_many_def)

locale prefix_codec =
  fixes wr :: "'a \<Rightarrow> bytes" and rd :: "bytes \<Rightarrow> 'e + ('a \<times> bytes)" and ok :: "'a \<Rightarrow> bool"
  assumes read_write: "ok x \<Longrightarrow> rd (wr x @ rest) = Inr (x, rest)"
begin

text \<open>No encoding is a prefix of another one: what follows cannot change what was read.\<close>

lemma prefix_free: "ok x \<Longrightarrow> ok y \<Longrightarrow> wr x @ r = wr y @ s \<Longrightarrow> x = y \<and> r = s"
proof -
  assume a: "ok x" "ok y" "wr x @ r = wr y @ s"
  have "rd (wr y @ s) = Inr (x, r)" using read_write [OF a(1), of r] by (simp only: a(3))
  with read_write [OF a(2), of s] show "x = y \<and> r = s" by simp
qed

lemma write_inject: "ok x \<Longrightarrow> ok y \<Longrightarrow> wr x = wr y \<longleftrightarrow> x = y"
  using prefix_free [of x y "[]" "[]"] by auto

lemma read_many_write:
  "list_all ok xs \<Longrightarrow> read_many rd (length xs) (write_many wr xs @ rest) = Inr (xs, rest)"
  by (induction xs) (simp_all add: read_write)

end

text \<open>\<open>n\<close>-byte little-endian integers, as \<open>struct\<close> packs them.\<close>

definition read_le :: "'e \<Rightarrow> nat \<Rightarrow> bytes \<Rightarrow> 'e + (int \<times> bytes)" where
  "read_le e k bs = (if length bs < k then Inl e else Inr (le_int (take k bs), drop k bs))"

interpretation le: prefix_codec "to_le k" "read_le e k" "\<lambda>n. 0 \<le> n \<and> n < 256 ^ k" for e k
  by unfold_locales (simp add: read_le_def le_int_to_le)

text \<open>Fixed-length byte strings.\<close>

definition read_bytes :: "'e \<Rightarrow> nat \<Rightarrow> bytes \<Rightarrow> 'e + (bytes \<times> bytes)" where
  "read_bytes e k bs = (if length bs < k then Inl e else Inr (take k bs, drop k bs))"

interpretation raw: prefix_codec "\<lambda>b. b" "read_bytes e k" "\<lambda>b. length b = k" for e k
  by unfold_locales (auto simp: read_bytes_def)

end
