(* ===== verification/CosmosTx.thy ===== *)
theory CosmosTx
  imports Codec Verify PyJson
begin

text \<open>
  \<open>src/swapsack/chains/cosmos_tx.py\<close>: the hand-written protobuf writer and reader behind CACAO
  and RUNE transactions, and the two gates of \<open>verify.py\<close> that read a built body back. A position
  in the data is the suffix that is left; the field dictionary is the list of the fields in the
  order they were read (\<open>field_values\<close> is the list stored under one number).
\<close>

section \<open>Writing\<close>

definition PUBKEY_TYPE_URL :: pystr where
  "PUBKEY_TYPE_URL = lit ''/cosmos.crypto.secp256k1.PubKey''"

definition MSGSEND_TYPE_URL :: pystr where
  "MSGSEND_TYPE_URL = lit ''/cosmos.bank.v1beta1.MsgSend''"

definition MSGDEPOSIT_TYPE_URL :: pystr where
  "MSGDEPOSIT_TYPE_URL = lit ''/types.MsgDeposit''"

definition SIGN_MODE_DIRECT :: nat where
  "SIGN_MODE_DIRECT = 1"

function varint_loop :: "nat \<Rightarrow> bytes" where
  "varint_loop n =
     (let b = n AND 0x7F; n' = drop_bit 7 n in
      if n' = 0 then [byte_of b] else byte_of (b OR 0x80) # varint_loop n')"
  by pat_completeness auto
termination
  by (relation "measure id") (auto simp: drop_bit_eq_div)

declare varint_loop.simps [simp del]

definition varint :: "int \<Rightarrow> py_error + bytes" where
  "varint n = (if n < 0 then Inl ValueError else Inr (varint_loop (nat n)))"

definition tag :: "nat \<Rightarrow> nat \<Rightarrow> bytes" where
  "tag field wire = varint_loop (push_bit 3 field OR wire)"

definition delimited :: "nat \<Rightarrow> bytes \<Rightarrow> bytes" where
  "delimited field data = tag field 2 @ varint_loop (length data) @ data"

definition string_field :: "nat \<Rightarrow> pystr \<Rightarrow> bytes" where
  "string_field field val = (if val \<noteq> [] then delimited field (utf8_encode val) else [])"

definition uint64_field :: "nat \<Rightarrow> int \<Rightarrow> py_error + bytes" where
  "uint64_field field val =
     (if val \<noteq> 0 then bind_res (varint val) (\<lambda>v. Inr (tag field 0 @ v)) else Inr [])"

definition coin :: "pystr \<Rightarrow> pystr \<Rightarrow> bytes" where
  "coin denom amount = string_field 1 denom @ string_field 2 amount"

definition any_msg :: "pystr \<Rightarrow> bytes \<Rightarrow> bytes" where
  "any_msg type_url val = string_field 1 type_url @ delimited 2 val"

definition msg_send :: "pystr \<Rightarrow> pystr \<Rightarrow> pystr \<Rightarrow> pystr \<Rightarrow> bytes" where
  "msg_send from_addr to_addr denom amount =
     string_field 1 from_addr @ string_field 2 to_addr @ delimited 3 (coin denom amount)"

definition deposit_coin :: "pystr \<times> pystr \<Rightarrow> bytes" where
  "deposit_coin = (\<lambda>(asset, amount).
     let chain = fst (py_partition 46 asset);
         symbol = snd (snd (py_partition 46 asset));
         ticker = hd (py_split 45 symbol);
         asset_msg = string_field 1 chain @ string_field 2 symbol @ string_field 3 ticker;
         c = delimited 1 asset_msg @ string_field 2 amount
     in delimited 1 c)"

definition msg_deposit :: "(pystr \<times> pystr) list \<Rightarrow> pystr \<Rightarrow> bytes \<Rightarrow> bytes" where
  "msg_deposit coins memo signer_addr_bytes =
     concat (map deposit_coin coins) @ string_field 2 memo @ delimited 3 signer_addr_bytes"

definition tx_body :: "(pystr \<times> bytes) list \<Rightarrow> pystr \<Rightarrow> bytes" where
  "tx_body messages memo =
     concat (map (\<lambda>(url, val). delimited 1 (any_msg url val)) messages) @ string_field 2 memo"

definition pubkey_any :: "bytes \<Rightarrow> bytes" where
  "pubkey_any compressed_pubkey = any_msg PUBKEY_TYPE_URL (delimited 1 compressed_pubkey)"

definition mode_info_direct :: bytes where
  "mode_info_direct = delimited 1 (tag 1 0 @ varint_loop SIGN_MODE_DIRECT)"

definition signer_info :: "bytes \<Rightarrow> int \<Rightarrow> py_error + bytes" where
  "signer_info compressed_pubkey seqn =
     bind_res (uint64_field 3 seqn) (\<lambda>s.
       Inr (delimited 1 (pubkey_any compressed_pubkey) @ delimited 2 mode_info_direct @ s))"

definition fee_msg :: "(pystr \<times> pystr) list \<Rightarrow> int \<Rightarrow> py_error + bytes" where
  "fee_msg coins gas_limit =
     bind_res (uint64_field 2 gas_limit) (\<lambda>g.
       Inr (concat (map (\<lambda>(d, a). delimited 1 (coin d a)) coins) @ g))"

definition auth_info :: "bytes \<Rightarrow> int \<Rightarrow> (pystr \<times> pystr) list \<Rightarrow> int \<Rightarrow> py_error + bytes" where
  "auth_info compressed_pubkey seqn fee_coins gas_limit =
     bind_res (signer_info compressed_pubkey seqn) (\<lambda>si.
     bind_res (fee_msg fee_coins gas_limit) (\<lambda>fm.
       Inr (delimited 1 si @ delimited 2 fm)))"

definition sign_doc :: "bytes \<Rightarrow> bytes \<Rightarrow> pystr \<Rightarrow> int \<Rightarrow> py_error + bytes" where
  "sign_doc body_bytes auth_info_bytes chain_id account_number =
     bind_res (uint64_field 4 account_number) (\<lambda>n.
       Inr (delimited 1 body_bytes @ delimited 2 auth_info_bytes @ string_field 3 chain_id @ n))"

definition tx_raw :: "bytes \<Rightarrow> bytes \<Rightarrow> bytes \<Rightarrow> bytes" where
  "tx_raw body_bytes auth_info_bytes signature =
     delimited 1 body_bytes @ delimited 2 auth_info_bytes @ delimited 3 signature"

section \<open>Reading\<close>

fun read_varint_loop :: "nat \<Rightarrow> nat \<Rightarrow> bytes \<Rightarrow> py_error + (nat \<times> bytes)" where
  "read_varint_loop result shift [] = Inl IndexError"
| "read_varint_loop result shift (b # bs) =
     (let result = result OR push_bit shift (unat b AND 0x7F) in
      if unat b AND 0x80 = 0 then Inr (result, bs) else read_varint_loop result (shift + 7) bs)"

definition read_varint :: "bytes \<Rightarrow> py_error + (nat \<times> bytes)" where
  "read_varint data = read_varint_loop 0 0 data"

datatype pb_value = PbInt nat | PbBytes bytes

type_synonym pb_fields = "(nat \<times> pb_value) list"

definition read_field :: "bytes \<Rightarrow> py_error + ((nat \<times> pb_value) \<times> bytes)" where
  "read_field data =
     bind_res (read_varint data) (\<lambda>(key, data).
       let field = drop_bit 3 key; wire = key AND 7 in
       if wire = 0 then
         bind_res (read_varint data) (\<lambda>(val, data). Inr ((field, PbInt val), data))
       else if wire = 2 then
         bind_res (read_varint data) (\<lambda>(len, data).
           Inr ((field, PbBytes (take len data)), drop len data))
       else Inl ValueError)"

lemma read_varint_loop_shorter:
  "read_varint_loop r s data = Inr (v, rest) \<Longrightarrow> length rest < length data"
  by (induction r s data rule: read_varint_loop.induct) (auto simp: Let_def split: if_splits)

lemma read_field_shorter: "read_field data = Inr (fv, rest) \<Longrightarrow> length rest < length data"
  by (auto simp: read_field_def read_varint_def bind_res_eq_Inr Let_def split: if_splits
      dest!: read_varint_loop_shorter)

function read_fields :: "bytes \<Rightarrow> py_error + pb_fields" where
  "read_fields data =
     (if data = [] then Inr []
      else
        case read_field data of
          Inl e \<Rightarrow> Inl e
        | Inr (fv, rest) \<Rightarrow> bind_res (read_fields rest) (\<lambda>fs. Inr (fv # fs)))"
  by pat_completeness auto
termination
  by (relation "measure length") (auto dest: read_field_shorter)

declare read_fields.simps [simp del]

definition field_values :: "pb_fields \<Rightarrow> nat \<Rightarrow> pb_value list" where
  "field_values fs k = map snd (filter (\<lambda>(f, v). f = k) fs)"

text \<open>\<open>fields[k][0]\<close>, \<open>fields.get(k, [b""])[0]\<close>, and \<open>.decode()\<close> / \<open>_read_fields\<close> of the value.\<close>

definition first_value :: "pb_fields \<Rightarrow> nat \<Rightarrow> py_error + pb_value" where
  "first_value fs k = (case field_values fs k of [] \<Rightarrow> Inl KeyError | v # vs \<Rightarrow> Inr v)"

definition first_or_empty :: "pb_fields \<Rightarrow> nat \<Rightarrow> pb_value" where
  "first_or_empty fs k = (case field_values fs k of [] \<Rightarrow> PbBytes [] | v # vs \<Rightarrow> v)"

definition decode_text :: "pb_value \<Rightarrow> py_error + pystr" where
  "decode_text v =
     (case v of
        PbInt n \<Rightarrow> Inl AttributeError
      | PbBytes b \<Rightarrow> (case utf8_decode b of None \<Rightarrow> Inl ValueError | Some s \<Rightarrow> Inr s))"

definition sub_fields :: "pb_value \<Rightarrow> py_error + pb_fields" where
  "sub_fields v = (case v of PbInt n \<Rightarrow> Inl TypeError | PbBytes b \<Rightarrow> read_fields b)"

definition text_at :: "pb_fields \<Rightarrow> nat \<Rightarrow> py_error + pystr" where
  "text_at fs k = bind_res (first_value fs k) decode_text"

definition fields_at :: "pb_fields \<Rightarrow> nat \<Rightarrow> py_error + pb_fields" where
  "fields_at fs k = bind_res (first_value fs k) sub_fields"

record decoded_deposit =
  dd_type_url :: pystr
  dd_coins :: "(pystr \<times> pystr) list"
  dd_memo :: pystr
  dd_signer :: pb_value
  dd_outer_memo :: pystr

definition decode_deposit_coin :: "pb_value \<Rightarrow> py_error + (pystr \<times> pystr)" where
  "decode_deposit_coin v =
     bind_res (sub_fields v) (\<lambda>c.
     bind_res (fields_at c 1) (\<lambda>asset.
     bind_res (text_at asset 1) (\<lambda>chain.
     bind_res (text_at asset 2) (\<lambda>symbol.
     bind_res (text_at c 2) (\<lambda>amount.
       Inr (chain @ lit ''.'' @ symbol, amount))))))"

definition decode_msg_deposit_body :: "bytes \<Rightarrow> py_error + decoded_deposit" where
  "decode_msg_deposit_body body_bytes =
     bind_res (read_fields body_bytes) (\<lambda>body.
     bind_res (decode_text (first_or_empty body 2)) (\<lambda>outer.
     bind_res (fields_at body 1) (\<lambda>any.
     bind_res (text_at any 1) (\<lambda>type_url.
     bind_res (fields_at any 2) (\<lambda>msg.
     bind_res (map_res decode_deposit_coin (field_values msg 1)) (\<lambda>coins.
     bind_res (decode_text (first_or_empty msg 2)) (\<lambda>memo.
       Inr \<lparr>dd_type_url = type_url, dd_coins = coins, dd_memo = memo,
            dd_signer = first_or_empty msg 3, dd_outer_memo = outer\<rparr>)))))))"

record decoded_send =
  ds_type_url :: pystr
  ds_from_addr :: pystr
  ds_to_addr :: pystr
  ds_denom :: pystr
  ds_amount :: pystr
  ds_memo :: pystr

definition decode_msg_send_body :: "bytes \<Rightarrow> py_error + decoded_send" where
  "decode_msg_send_body body_bytes =
     bind_res (read_fields body_bytes) (\<lambda>body.
     bind_res (decode_text (first_or_empty body 2)) (\<lambda>memo.
     bind_res (fields_at body 1) (\<lambda>any.
     bind_res (text_at any 1) (\<lambda>type_url.
     bind_res (fields_at any 2) (\<lambda>msg.
     bind_res (fields_at msg 3) (\<lambda>c.
     bind_res (text_at msg 1) (\<lambda>from_addr.
     bind_res (text_at msg 2) (\<lambda>to_addr.
     bind_res (text_at c 1) (\<lambda>denom.
     bind_res (text_at c 2) (\<lambda>amount.
       Inr \<lparr>ds_type_url = type_url, ds_from_addr = from_addr, ds_to_addr = to_addr,
            ds_denom = denom, ds_amount = amount, ds_memo = memo\<rparr>))))))))))"

section \<open>Varints\<close>

lemma and_127: "(n :: nat) AND 127 = n mod 128"
  using take_bit_eq_mask [of 7 n] by (simp add: take_bit_eq_mod mask_eq_exp_minus_1)

lemma and_7: "(n :: nat) AND 7 = n mod 8"
  using take_bit_eq_mask [of 3 n] by (simp add: take_bit_eq_mod mask_eq_exp_minus_1)

lemma and_128: "(n :: nat) AND 128 = 0 \<longleftrightarrow> even (n div 128)"
  using and_exp_eq_0_iff_not_bit [of n 7] by (simp add: bit_iff_odd)

lemma or_push: "(r :: nat) < 2 ^ k \<Longrightarrow> r OR push_bit k x = r + x * 2 ^ k"
proof -
  assume r: "r < 2 ^ k"
  have "r AND push_bit k x = 0"
  proof (rule bit_eqI)
    fix i
    have "\<not> bit r i" if "k \<le> i"
    proof -
      have "r < 2 ^ i" using r that by (meson less_le_trans one_le_numeral power_increasing)
      then show ?thesis by (simp add: bit_iff_odd)
    qed
    then show "bit (r AND push_bit k x) i \<longleftrightarrow> bit (0 :: nat) i"
      by (auto simp: bit_simps)
  qed
  then have "r + push_bit k x = r OR push_bit k x" by (rule disjunctive_add_eq_or)
  then show ?thesis by (simp add: push_bit_eq_mult)
qed

lemma or_128: "(m :: nat) < 128 \<Longrightarrow> m OR 128 = m + 128"
  using or_push [of m 7 1] by simp

lemma read_varint_loop_varint:
  "r < 2 ^ s \<Longrightarrow> read_varint_loop r s (varint_loop n @ rest) = Inr (r + n * 2 ^ s, rest)"
proof (induction n arbitrary: r s rule: less_induct)
  case (less n)
  have low: "unat (byte_of (n mod 128)) = n mod 128" by simp
  have high: "unat (byte_of (n mod 128 + 128)) = n mod 128 + 128"
  proof -
    have "n mod 128 < 128" by simp
    then have "n mod 128 + 128 < 256" by linarith
    then show ?thesis by (rule unat_byte_of)
  qed
  have acc: "r OR push_bit s (n mod 128) = r + n mod 128 * 2 ^ s" using less.prems by (rule or_push)
  show ?case
  proof (cases "n div 128 = 0")
    case True
    then have v: "varint_loop n = [byte_of (n mod 128)]" and n: "n mod 128 = n"
      by (simp_all add: varint_loop.simps [of n] Let_def and_127 drop_bit_eq_div)
    show ?thesis
      using acc low n by (simp add: v Let_def and_127 and_128)
  next
    case False
    then have v: "varint_loop n = byte_of (n mod 128 + 128) # varint_loop (n div 128)"
      by (simp add: varint_loop.simps [of n] Let_def and_127 drop_bit_eq_div or_128)
    have lt: "n div 128 < n" using False by simp
    have "n mod 128 \<le> 127" using mod_less_divisor [of 128 n] by linarith
    then have "n mod 128 * 2 ^ s \<le> 127 * 2 ^ s" by (rule mult_le_mono1)
    with less.prems have "r + n mod 128 * 2 ^ s < 2 ^ s + 127 * 2 ^ s" by linarith
    then have b: "r + n mod 128 * 2 ^ s < 2 ^ (s + 7)" by (simp add: power_add)
    have pow: "(2 :: nat) ^ (s + 7) = 128 * 2 ^ s" by (simp add: power_add)
    have bits: "(n mod 128 + 128) mod 128 = n mod 128" "(n mod 128 + 128) div 128 = 1"
      by simp_all
    have "read_varint_loop r s (varint_loop n @ rest)
        = read_varint_loop (r + n mod 128 * 2 ^ s) (s + 7) (varint_loop (n div 128) @ rest)"
      unfolding v append_Cons read_varint_loop.simps Let_def high and_127 and_128 bits acc by simp
    also have "\<dots> = Inr (r + n mod 128 * 2 ^ s + n div 128 * 2 ^ (s + 7), rest)"
      by (rule less.IH [OF lt b])
    also have "r + n mod 128 * 2 ^ s + n div 128 * 2 ^ (s + 7) = r + (n mod 128 + n div 128 * 128) * 2 ^ s"
      by (simp only: pow distrib_right distrib_left ac_simps)
    also have "n mod 128 + n div 128 * 128 = n" by simp
    finally show ?thesis .
  qed
qed

interpretation varints: prefix_codec varint_loop read_varint "\<lambda>_. True"
  by unfold_locales (simp add: read_varint_def read_varint_loop_varint)

section \<open>Fields\<close>

text \<open>The writer of one field, and when the reader gives it back.\<close>

definition write_field :: "nat \<times> pb_value \<Rightarrow> bytes" where
  "write_field = (\<lambda>(k, v). case v of
     PbInt n \<Rightarrow> tag k 0 @ varint_loop n | PbBytes b \<Rightarrow> delimited k b)"

lemma tag_key: "w < 8 \<Longrightarrow> push_bit 3 (k::nat) OR (w::nat) = k * 8 + w"
  using or_push [of w 3 k] by (simp add: or.commute)

interpretation fields: prefix_codec write_field read_field "\<lambda>_. True"
proof
  fix fv :: "nat \<times> pb_value" and rest
  obtain k v where fv: "fv = (k, v)" by (cases fv) auto
  show "read_field (write_field fv @ rest) = Inr (fv, rest)"
  proof (cases v)
    case (PbInt n)
    have "read_varint (tag k 0 @ varint_loop n @ rest) = Inr (k * 8, varint_loop n @ rest)"
      unfolding tag_def by (simp add: varints.read_write push_bit_eq_mult)
    then show ?thesis
      by (simp add: fv PbInt write_field_def read_field_def varints.read_write and_7 drop_bit_eq_div)
  next
    case (PbBytes b)
    have "read_varint (tag k 2 @ varint_loop (length b) @ b @ rest)
        = Inr (k * 8 + 2, varint_loop (length b) @ b @ rest)"
      unfolding tag_def by (simp add: varints.read_write tag_key)
    moreover have "(k * 8 + 2) mod 8 = 2" "(k * 8 + 2) div 8 = k" by presburger+
    ultimately show ?thesis
      by (simp add: fv PbBytes write_field_def read_field_def delimited_def varints.read_write and_7
          drop_bit_eq_div)
  qed
qed

lemma write_field_neq_Nil: "write_field fv \<noteq> []"
proof
  assume "write_field fv = []"
  with fields.read_write [of fv "[]"] have "read_field [] = Inr (fv, [])" by simp
  then show False by (simp add: read_field_def read_varint_def)
qed

text \<open>Whatever list of fields was written is read back, in order.\<close>

lemma read_fields_write: "read_fields (write_many write_field fs) = Inr fs"
proof (induction fs)
  case Nil
  then show ?case by (simp add: read_fields.simps)
next
  case (Cons fv fs)
  then show ?case
    using fields.read_write [of fv "write_many write_field fs"] write_field_neq_Nil [of fv]
    by (subst read_fields.simps) simp
qed

definition text_fields :: "nat \<Rightarrow> pystr \<Rightarrow> pb_fields" where
  "text_fields k s = (if s = [] then [] else [(k, PbBytes (utf8_encode s))])"

definition int_fields :: "nat \<Rightarrow> int \<Rightarrow> pb_fields" where
  "int_fields k n = (if n = 0 then [] else [(k, PbInt (nat n))])"

lemma write_many_append: "write_many w (xs @ ys) = write_many w xs @ write_many w ys"
  by (simp add: write_many_def)

lemma string_field_fields: "string_field k s = write_many write_field (text_fields k s)"
  by (simp add: string_field_def text_fields_def write_field_def)

lemma delimited_fields: "delimited k b = write_many write_field [(k, PbBytes b)]"
  by (simp add: write_field_def)

lemma uint64_fields:
  "uint64_field k n = (if n < 0 then Inl ValueError else Inr (write_many write_field (int_fields k n)))"
  by (auto simp: uint64_field_def varint_def int_fields_def write_field_def)

lemmas writer_fields = string_field_fields delimited_fields write_many_append [symmetric]

lemma field_values_simps [simp]:
  "field_values [] k = []"
  "field_values ((j, v) # fs) k = (if j = k then v # field_values fs k else field_values fs k)"
  "field_values (fs @ gs) k = field_values fs k @ field_values gs k"
  by (simp_all add: field_values_def)

lemma field_values_text [simp]:
  "field_values (text_fields j s) k = (if j = k \<and> s \<noteq> [] then [PbBytes (utf8_encode s)] else [])"
  by (simp add: text_fields_def)

lemma text_at_text: "unicode_text s \<Longrightarrow> field_values fs k = PbBytes (utf8_encode s) # vs \<Longrightarrow> text_at fs k = Inr s"
  by (simp add: text_at_def first_value_def decode_text_def utf8_decode_encode)

lemma decode_first_or_empty:
  "unicode_text s \<Longrightarrow> field_values fs k = field_values (text_fields k s) k \<Longrightarrow>
   decode_text (first_or_empty fs k) = Inr s"
  using utf8_decode_encode [of s] utf8_decode_encode [of "[]"]
  by (cases "s = []") (simp_all add: first_or_empty_def decode_text_def)

lemma fields_at_sub:
  "field_values fs k = PbBytes (write_many write_field gs) # vs \<Longrightarrow> fields_at fs k = Inr gs"
  by (simp add: fields_at_def first_value_def sub_fields_def read_fields_write)

section \<open>The gates of verify.py over a decoded body\<close>

record cosmos_send_plan =
  csp_from_addr :: pystr
  csp_recipient :: pystr
  csp_denom :: pystr
  csp_amount :: pystr

definition verify_cosmos_send :: "decoded_send \<Rightarrow> cosmos_send_plan \<Rightarrow> problem list" where
  "verify_cosmos_send decoded plan =
     (if ds_type_url decoded \<noteq> lit ''/cosmos.bank.v1beta1.MsgSend''
      then [WrongMessageType (ds_type_url decoded)] else [])
     @ (if ds_from_addr decoded \<noteq> csp_from_addr plan
        then [WrongSender (ds_from_addr decoded) (csp_from_addr plan)] else [])
     @ (if ds_to_addr decoded \<noteq> csp_recipient plan
        then [WrongTarget (ds_to_addr decoded) (csp_recipient plan)] else [])
     @ (if ds_denom decoded \<noteq> csp_denom plan
        then [WrongDenom (ds_denom decoded) (csp_denom plan)] else [])
     @ (if ds_amount decoded \<noteq> csp_amount plan
        then [WrongAmountText (ds_amount decoded) (csp_amount plan)] else [])
     @ (if ds_memo decoded \<noteq> [] then [CarriesMemo (ds_memo decoded)] else [])"

record cosmos_deposit_plan =
  cdp_asset :: pystr
  cdp_amount :: pystr
  cdp_memo :: pystr
  cdp_destination :: pystr
  cdp_signer :: bytes
  cdp_expiry :: int

definition verify_cosmos_deposit ::
  "decoded_deposit \<Rightarrow> cosmos_deposit_plan \<Rightarrow> int \<Rightarrow> problem list" where
  "verify_cosmos_deposit decoded plan now =
     expiry_check now (cdp_expiry plan)
     @ (if dd_type_url decoded \<noteq> lit ''/types.MsgDeposit''
        then [WrongMessageType (dd_type_url decoded)] else [])
     @ (if dd_coins decoded \<noteq> [(cdp_asset plan, cdp_amount plan)]
        then [WrongDeposits (dd_coins decoded) (cdp_asset plan) (cdp_amount plan)] else [])
     @ (if dd_memo decoded \<noteq> cdp_memo plan
        then [WrongMemo (dd_memo decoded) (cdp_memo plan)] else [])
     @ (if dd_signer decoded \<noteq> PbBytes (cdp_signer plan) then [WrongSigner] else [])
     @ destination_check (cdp_destination plan) (MemoText (cdp_memo plan))"

section \<open>Bodies read back\<close>

text \<open>What the writers of messages say, as lists of fields.\<close>

lemma unicode_lit: "list_all (\<lambda>c. of_char c < (128 :: nat)) s \<Longrightarrow> unicode_text (lit s)"
  by (induction s) (auto simp: lit_def unicode_text_def unicode_scalar_def)

lemma any_msg_fields:
  "any_msg url b = write_many write_field (text_fields 1 url @ [(2, PbBytes b)])"
  unfolding any_msg_def writer_fields ..

lemma coin_fields:
  "coin d a = write_many write_field (text_fields 1 d @ text_fields 2 a)"
  unfolding coin_def writer_fields ..

lemma tx_body_fields:
  "tx_body [(url, b)] memo
   = write_many write_field ((1, PbBytes (any_msg url b)) # text_fields 2 memo)"
  by (simp add: tx_body_def string_field_fields write_field_def)

lemma msg_send_fields:
  "msg_send f t d a
   = write_many write_field (text_fields 1 f @ text_fields 2 t @ [(3, PbBytes (coin d a))])"
  unfolding msg_send_def writer_fields by simp

text \<open>
  Signing what was meant, for a plain send: a MsgSend body built from non-empty Unicode sender,
  recipient, denomination and amount is decoded into exactly those, with the memo it was built
  with (none at all included).
\<close>

lemma msg_send_roundtrip:
  assumes "unicode_text f" "unicode_text t" "unicode_text d" "unicode_text a" "unicode_text memo"
    and "f \<noteq> []" "t \<noteq> []" "d \<noteq> []" "a \<noteq> []"
  shows "decode_msg_send_body (tx_body [(MSGSEND_TYPE_URL, msg_send f t d a)] memo)
    = Inr \<lparr>ds_type_url = MSGSEND_TYPE_URL, ds_from_addr = f, ds_to_addr = t, ds_denom = d,
           ds_amount = a, ds_memo = memo\<rparr>"
proof -
  have url: "unicode_text MSGSEND_TYPE_URL" "MSGSEND_TYPE_URL \<noteq> []"
    unfolding MSGSEND_TYPE_URL_def by (rule unicode_lit) (simp_all add: lit_def)
  show ?thesis
    unfolding decode_msg_send_body_def tx_body_fields read_fields_write
    using assms url
    by (simp add: decode_first_or_empty text_at_text fields_at_sub any_msg_fields coin_fields
        msg_send_fields)
qed

text \<open>The asset of a deposited coin, as \<open>partition(".")\<close> splits it.\<close>

definition coin_ok :: "pystr \<times> pystr \<Rightarrow> bool" where
  "coin_ok = (\<lambda>(asset, amount). unicode_text asset \<and> unicode_text amount \<and> amount \<noteq> [] \<and>
     (case py_partition 46 asset of (chain, found, symbol) \<Rightarrow> found \<and> chain \<noteq> [] \<and> symbol \<noteq> []))"

definition coin_fields_of :: "pystr \<times> pystr \<Rightarrow> pb_fields" where
  "coin_fields_of = (\<lambda>(asset, amount).
     let chain = fst (py_partition 46 asset); symbol = snd (snd (py_partition 46 asset))
     in (1, PbBytes (write_many write_field
               (text_fields 1 chain @ text_fields 2 symbol @ text_fields 3 (hd (py_split 45 symbol)))))
        # text_fields 2 amount)"

lemma deposit_coin_fields:
  "deposit_coin c = write_field (1, PbBytes (write_many write_field (coin_fields_of c)))"
  by (cases c) (simp add: deposit_coin_def coin_fields_of_def Let_def string_field_fields
      write_many_append, simp add: write_field_def)

lemma decode_deposit_coin_of:
  assumes "coin_ok c"
  shows "decode_deposit_coin (PbBytes (write_many write_field (coin_fields_of c))) = Inr c"
proof -
  obtain asset amount where c: "c = (asset, amount)" by (cases c)
  obtain chain found symbol where p: "py_partition 46 asset = (chain, found, symbol)"
    by (cases "py_partition 46 asset")
  with assms c have ok: "found" "chain \<noteq> []" "symbol \<noteq> []" "amount \<noteq> []"
    and u: "unicode_text asset" "unicode_text amount"
    by (auto simp: coin_ok_def)
  with p have asset: "asset = chain @ 46 # symbol" using py_partition_join [of 46 asset] by simp
  with u have "unicode_text chain" "unicode_text symbol" by (simp_all add: unicode_text_def)
  then show ?thesis
    using p ok u asset
    by (simp add: decode_deposit_coin_def sub_fields_def read_fields_write c coin_fields_of_def
        fields_at_sub text_at_text lit_def del: write_many_simps)
qed

lemma map_res_decode:
  "list_all coin_ok cs \<Longrightarrow>
   map_res decode_deposit_coin
     (map (\<lambda>c. PbBytes (write_many write_field (coin_fields_of c))) cs) = Inr cs"
  by (induction cs) (simp_all add: decode_deposit_coin_of)

lemma msg_deposit_fields:
  "msg_deposit coins memo signer
   = write_many write_field
       (map (\<lambda>c. (1, PbBytes (write_many write_field (coin_fields_of c)))) coins
        @ text_fields 2 memo @ [(3, PbBytes signer)])"
proof -
  have "concat (map deposit_coin coins)
      = write_many write_field (map (\<lambda>c. (1, PbBytes (write_many write_field (coin_fields_of c)))) coins)"
    by (induction coins) (simp_all add: deposit_coin_fields)
  then show ?thesis
    by (simp add: msg_deposit_def write_many_append string_field_fields)
       (simp add: write_field_def)
qed

lemma field_values_const: "field_values (map (\<lambda>c. (j, f c)) cs) k = (if j = k then map f cs else [])"
  by (cases "j = k"; induction cs) simp_all

text \<open>
  Signing what was meant, for a deposit: a MsgDeposit body built from coins whose asset is
  written \<open>CHAIN.SYMBOL\<close> is decoded into the same coins in the same order, the same memo, the
  same signer and the same outer memo.
\<close>

lemma msg_deposit_roundtrip:
  assumes "list_all coin_ok coins" "unicode_text memo" "unicode_text outer"
  shows "decode_msg_deposit_body (tx_body [(MSGDEPOSIT_TYPE_URL, msg_deposit coins memo signer)] outer)
    = Inr \<lparr>dd_type_url = MSGDEPOSIT_TYPE_URL, dd_coins = coins, dd_memo = memo,
           dd_signer = PbBytes signer, dd_outer_memo = outer\<rparr>"
proof -
  have url: "unicode_text MSGDEPOSIT_TYPE_URL" "MSGDEPOSIT_TYPE_URL \<noteq> []"
    unfolding MSGDEPOSIT_TYPE_URL_def by (rule unicode_lit) (simp_all add: lit_def)
  show ?thesis
    unfolding decode_msg_deposit_body_def tx_body_fields read_fields_write
    using assms url
    by (simp add: decode_first_or_empty text_at_text fields_at_sub any_msg_fields
        msg_deposit_fields field_values_const map_res_decode first_or_empty_def
        decode_text_def utf8_decode_encode)
qed

text \<open>
  C11: Builder, decoder and gate agree. A MsgSend or MsgDeposit body written by the builder is
  always decoded, and the gate over what was decoded is silent exactly when what went into the
  bytes is the plan: the same sender, recipient, denomination and amount and no memo; or, before
  the expiry, the one planned coin, the quoted memo naming the destination, and our own account
  as the signer.
\<close>

theorem cosmos_gates_on_built:
  assumes "unicode_text f" "unicode_text t" "unicode_text d" "unicode_text a" "unicode_text memo"
    and "f \<noteq> []" "t \<noteq> []" "d \<noteq> []" "a \<noteq> []" "list_all coin_ok coins" "unicode_text outer"
  shows "(\<exists>s. decode_msg_send_body (tx_body [(MSGSEND_TYPE_URL, msg_send f t d a)] memo) = Inr s \<and>
      (verify_cosmos_send s sp = [] \<longleftrightarrow>
         f = csp_from_addr sp \<and> t = csp_recipient sp \<and> d = csp_denom sp \<and> a = csp_amount sp
       \<and> memo = []))
   \<and> (\<exists>x. decode_msg_deposit_body (tx_body [(MSGDEPOSIT_TYPE_URL, msg_deposit coins memo signer)] outer)
        = Inr x \<and>
      (verify_cosmos_deposit x dp now = [] \<longleftrightarrow>
         now < cdp_expiry dp \<and> coins = [(cdp_asset dp, cdp_amount dp)] \<and> memo = cdp_memo dp
       \<and> signer = cdp_signer dp
       \<and> memo_pays_destination (cdp_destination dp) (MemoText memo)))"
  unfolding msg_send_roundtrip [OF assms(1-9)] msg_deposit_roundtrip [OF assms(10,5,11)]
    verify_cosmos_send_def verify_cosmos_deposit_def append_is_Nil_conv gate_simps
  by (auto simp: MSGSEND_TYPE_URL_def MSGDEPOSIT_TYPE_URL_def)

lemma cosmos_gates_on_built_witness:
  "\<exists>x. decode_msg_deposit_body
     (tx_body [(MSGDEPOSIT_TYPE_URL, msg_deposit [(lit ''MAYA.CACAO'', lit ''7'')] (lit ''=:b:me'') [1, 2])] [])
     = Inr x \<and>
   verify_cosmos_deposit x \<lparr>cdp_asset = lit ''MAYA.CACAO'', cdp_amount = lit ''7'',
     cdp_memo = lit ''=:b:me'', cdp_destination = lit ''me'', cdp_signer = [1, 2], cdp_expiry = 200\<rparr> 100 = []"
proof -
  have ok: "list_all coin_ok [(lit ''MAYA.CACAO'', lit ''7'')]"
    by (simp add: coin_ok_def lit_def unicode_text_def unicode_scalar_def py_partition_def)
  have pays: "memo_pays_destination (lit ''me'') (MemoText (lit ''=:b:me''))" by code_simp
  have u: "unicode_text (lit ''=:b:me'')" "unicode_text (lit ''x'')" "unicode_text []" "lit ''x'' \<noteq> []"
    by (simp_all add: lit_def unicode_text_def unicode_scalar_def)
  show ?thesis
    using pays cosmos_gates_on_built [OF u(2,2,2,2,1) u(4,4,4,4) ok u(3), of undefined "[1, 2]"
        "\<lparr>cdp_asset = lit ''MAYA.CACAO'', cdp_amount = lit ''7'', cdp_memo = lit ''=:b:me'',
          cdp_destination = lit ''me'', cdp_signer = [1, 2], cdp_expiry = 200\<rparr>" 100]
    by fastforce
qed

section \<open>What a signature commits to\<close>

lemma sign_doc_fields:
  "sign_doc b ai c n = Inr d \<Longrightarrow>
   0 \<le> n \<and> read_fields d = Inr ([(1, PbBytes b), (2, PbBytes ai)] @ text_fields 3 c @ int_fields 4 n)"
  by (auto simp: sign_doc_def uint64_fields bind_res_eq_Inr string_field_fields delimited_fields
      write_many_append [symmetric] read_fields_write simp del: write_many_simps split: if_splits)

lemma text_fields_inject:
  "unicode_text s \<Longrightarrow> unicode_text t \<Longrightarrow> text_fields k s = text_fields k t \<longleftrightarrow> s = t"
  by (auto simp: text_fields_def utf8_encode_inject)

lemma int_fields_inject: "0 \<le> m \<Longrightarrow> 0 \<le> n \<Longrightarrow> int_fields k m = int_fields k n \<longleftrightarrow> m = n"
  by (auto simp: int_fields_def)

text \<open>
  The signature commits to everything. The bytes that are signed determine the body, the
  authorisation (key, sequence, fee), the chain id and the account number: two sign documents
  that coincide were made from the same four, so a signature for one chain or one account can
  never be presented for another. A negative account number is refused.
\<close>

theorem sign_doc_binds:
  "(sign_doc b ai c n = Inr d \<longrightarrow> 0 \<le> n)
   \<and> (sign_doc b ai c n = Inr d \<and> sign_doc b' ai' c' n' = Inr d \<and> unicode_text c \<and> unicode_text c'
      \<longrightarrow> b = b' \<and> ai = ai' \<and> c = c' \<and> n = n')"
proof (intro conjI impI)
  assume "sign_doc b ai c n = Inr d"
  then show "0 \<le> n" using sign_doc_fields by blast
next
  assume "sign_doc b ai c n = Inr d \<and> sign_doc b' ai' c' n' = Inr d \<and> unicode_text c \<and> unicode_text c'"
  then have p: "0 \<le> n" "0 \<le> n'" "unicode_text c" "unicode_text c'"
    and e: "b = b' \<and> ai = ai' \<and> text_fields 3 c @ int_fields 4 n = text_fields 3 c' @ int_fields 4 n'"
    using sign_doc_fields [of b ai c n d] sign_doc_fields [of b' ai' c' n' d] by auto
  then have "field_values (text_fields 3 c @ int_fields 4 n) 3 = field_values (text_fields 3 c' @ int_fields 4 n') 3"
    by simp
  then have "c = c'" using p(3,4)
    by (simp add: int_fields_def utf8_encode_inject split: if_splits)
  moreover from this have "n = n'" using e p(1,2) by (simp add: int_fields_inject)
  ultimately show "b = b'" "ai = ai'" "c = c'" "n = n'" using e by auto
qed

lemma sign_doc_binds_witness:
  "sign_doc [1] [2] (lit ''maya'') 7 \<noteq> sign_doc [1] [2] (lit ''thor'') 7"
proof
  assume same: "sign_doc [1] [2] (lit ''maya'') 7 = sign_doc [1] [2] (lit ''thor'') 7"
  obtain d where d: "sign_doc [1] [2] (lit ''maya'') 7 = Inr d"
    by (simp add: sign_doc_def uint64_field_def varint_def)
  have "unicode_text (lit ''maya'')" "unicode_text (lit ''thor'')"
    by (simp_all add: lit_def unicode_text_def unicode_scalar_def)
  with same d sign_doc_binds [of "[1]" "[2]" "lit ''maya''" 7 d "[1]" "[2]" "lit ''thor''" 7]
  have "lit ''maya'' = lit ''thor''" by simp
  then show False by (simp add: lit_def)
qed

end
