(* ===== verification/CosmosAdapter.thy ===== *)
theory CosmosAdapter
  imports Swap CosmosTx Bech32
begin

text \<open>
  \<open>src/swapsack/chains/cosmos.py\<close> and its two configurations \<open>maya.py\<close> and \<open>thor.py\<close>: the
  adapter of CACAO and RUNE. Key derivation, \<open>hash160\<close>, the ECDSA signature, base64 and the HTTP
  session are parameters; a mnemonic is closed over in the key derivation.
\<close>

section \<open>Configuration\<close>

record cosmos_chain =
  ch_chain :: pystr
  ch_asset :: pystr
  ch_symbol :: pystr
  ch_hrp :: pystr
  ch_denom :: pystr
  ch_decimals :: nat
  ch_default_chain_id :: pystr
  ch_default_node :: pystr
  ch_home_path_prefix :: pystr

definition maya_chain :: cosmos_chain where
  "maya_chain = \<lparr>ch_chain = lit ''MAYA'', ch_asset = lit ''MAYA.CACAO'', ch_symbol = lit ''CACAO'',
     ch_hrp = lit ''maya'', ch_denom = lit ''cacao'', ch_decimals = 10,
     ch_default_chain_id = lit ''mayachain-mainnet-v1'',
     ch_default_node = lit ''https://mayanode.mayachain.info'', ch_home_path_prefix = lit ''mayachain''\<rparr>"

definition thor_chain :: cosmos_chain where
  "thor_chain = \<lparr>ch_chain = lit ''THOR'', ch_asset = lit ''THOR.RUNE'', ch_symbol = lit ''RUNE'',
     ch_hrp = lit ''thor'', ch_denom = lit ''rune'', ch_decimals = 8,
     ch_default_chain_id = lit ''thorchain-1'',
     ch_default_node = lit ''https://gateway.liquify.com/chain/thorchain_api'',
     ch_home_path_prefix = lit ''thorchain''\<rparr>"

definition DEFAULT_GAS_LIMIT :: int where
  "DEFAULT_GAS_LIMIT = 2000000"

text \<open>The libraries and the session.\<close>

record ('w, 'p) cosmos_env =
  ce_keys :: "pystr \<Rightarrow> bytes \<times> bytes"
  ce_hash160 :: "bytes \<Rightarrow> bytes"
  ce_sign_direct :: "bytes \<Rightarrow> bytes \<Rightarrow> bytes"
  ce_b64encode :: "bytes \<Rightarrow> pystr"
  ce_get :: "pystr \<Rightarrow> ('w, 'p, response) io"
  ce_post :: "pystr \<Rightarrow> (pystr \<times> json) list \<Rightarrow> ('w, 'p, response) io"
  ce_node_url :: pystr

definition value_error :: "b32_error + 'a \<Rightarrow> py_error + 'a" where
  "value_error r = (case r of Inl e \<Rightarrow> Inl ValueError | Inr x \<Rightarrow> Inr x)"

definition derive_address :: "('w, 'p) cosmos_env \<Rightarrow> pystr \<Rightarrow> pystr \<Rightarrow> py_error + pystr" where
  "derive_address env hrp path = value_error (bech32_encode hrp (ce_hash160 env (snd (ce_keys env path))))"

section \<open>Reads\<close>

fun sum_balances :: "pystr \<Rightarrow> int \<Rightarrow> json list \<Rightarrow> py_error + int" where
  "sum_balances denom acc [] = Inr acc"
| "sum_balances denom acc (entry # entries) =
     bind_res (jget entry (lit ''denom'')) (\<lambda>d.
       if d = JStr denom
       then bind_res (jint_or entry (lit ''amount'') (JInt 0)) (\<lambda>n. sum_balances denom (acc + n) entries)
       else sum_balances denom acc entries)"

definition parse_balances :: "json \<Rightarrow> pystr \<Rightarrow> py_error + int" where
  "parse_balances payload denom =
     bind_res (jget_or payload (lit ''balances'') (JList [])) (\<lambda>bs.
     bind_res (json_iter bs) (sum_balances denom 0))"

definition fetch_balance :: "('w, 'p) cosmos_env \<Rightarrow> cosmos_chain \<Rightarrow> pystr \<Rightarrow> ('w, 'p, int) io" where
  "fetch_balance env ch address =
     and_then (ce_get env (ce_node_url env @ lit ''/cosmos/bank/v1beta1/balances/'' @ address)) (\<lambda>resp.
     and_then (raise_for_status resp) (\<lambda>_.
     and_then (resp_json resp) (\<lambda>body. of_py (parse_balances body (ch_denom ch)))))"

definition parse_account :: "json \<Rightarrow> py_error + (int \<times> int)" where
  "parse_account payload =
     bind_res (jget_or payload (lit ''account'') (JObj [])) (\<lambda>account.
     bind_res (jint_or account (lit ''account_number'') (JInt 0)) (\<lambda>account_number.
     bind_res (jint_or account (lit ''sequence'') (JInt 0)) (\<lambda>seqn.
       Inr (account_number, seqn))))"

definition fetch_account :: "('w, 'p) cosmos_env \<Rightarrow> pystr \<Rightarrow> ('w, 'p, int \<times> int) io" where
  "fetch_account env address =
     and_then (ce_get env (ce_node_url env @ lit ''/cosmos/auth/v1beta1/accounts/'' @ address)) (\<lambda>resp.
       if rs_status resp = 404 then ret (0, 0)
       else
         and_then (raise_for_status resp) (\<lambda>_.
         and_then (resp_json resp) (\<lambda>body. of_py (parse_account body))))"

fun chain_id_failure :: "'p exn \<Rightarrow> bool" where
  "chain_id_failure (PyExn e) = (e \<in> {KeyError, ValueError})"
| "chain_id_failure HttpError = True"
| "chain_id_failure _ = False"

text \<open>A network name that is no string would fail in the SignDoc writer: an AttributeError here.\<close>

definition parse_chain_id :: "json \<Rightarrow> pystr \<Rightarrow> py_error + pystr" where
  "parse_chain_id payload default_chain_id =
     bind_res (jindex payload (lit ''default_node_info'')) (\<lambda>info.
     bind_res (jindex info (lit ''network'')) (\<lambda>network.
       if \<not> json_truthy network then Inr default_chain_id
       else case network of JStr s \<Rightarrow> Inr s | _ \<Rightarrow> Inl AttributeError))"

definition fetch_chain_id :: "('w, 'p) cosmos_env \<Rightarrow> cosmos_chain \<Rightarrow> ('w, 'p, pystr) io" where
  "fetch_chain_id env ch =
     try_call
       (and_then (ce_get env (ce_node_url env @ lit ''/cosmos/base/tendermint/v1beta1/node_info'')) (\<lambda>resp.
        and_then (raise_for_status resp) (\<lambda>_.
        and_then (resp_json resp) (\<lambda>body. of_py (parse_chain_id body (ch_default_chain_id ch))))))
       (\<lambda>exc. if chain_id_failure exc then Some (ret (ch_default_chain_id ch)) else None)"

section \<open>Spending\<close>

record built_cosmos_tx =
  bc_body_bytes :: bytes
  bc_auth_info_bytes :: bytes
  bc_chain_id :: pystr
  bc_account_number :: int
  bc_private_key :: bytes

datatype cosmos_plan = CosmosSend cosmos_send_plan | CosmosDeposit cosmos_deposit_plan

definition built_tx ::
  "('w, 'p) cosmos_env \<Rightarrow> cosmos_chain \<Rightarrow> bytes \<Rightarrow> bytes \<Rightarrow> bytes \<Rightarrow> pystr \<Rightarrow> int
   \<Rightarrow> ('w, 'p, built_cosmos_tx) io" where
  "built_tx env ch body_bytes private_key public_key sender gas_limit =
     and_then (fetch_account env sender) (\<lambda>(account_number, seqn).
     and_then (of_py (auth_info public_key seqn [] gas_limit)) (\<lambda>auth_info_bytes.
     and_then (fetch_chain_id env ch) (\<lambda>chain_id.
       ret \<lparr>bc_body_bytes = body_bytes, bc_auth_info_bytes = auth_info_bytes,
            bc_chain_id = chain_id, bc_account_number = account_number,
            bc_private_key = private_key\<rparr>)))"

definition cosmos_build_and_verify_send ::
  "('w, problem) cosmos_env \<Rightarrow> cosmos_chain \<Rightarrow> pystr \<Rightarrow> int \<Rightarrow> pystr \<Rightarrow> int
   \<Rightarrow> ('w, problem, (built_cosmos_tx, cosmos_plan, problem) prepared) io" where
  "cosmos_build_and_verify_send env ch recipient amount path gas_limit =
     (let keys = ce_keys env path in
      and_then (of_py (derive_address env (ch_hrp ch) path)) (\<lambda>sender.
      let amount_str = dec_int amount;
          body_bytes = tx_body [(MSGSEND_TYPE_URL, msg_send sender recipient (ch_denom ch) amount_str)] [] in
      and_then (built_tx env ch body_bytes (fst keys) (snd keys) sender gas_limit) (\<lambda>built.
      let plan = \<lparr>csp_from_addr = sender, csp_recipient = recipient, csp_denom = ch_denom ch,
                  csp_amount = amount_str\<rparr> in
      and_then (of_py (decode_msg_send_body body_bytes)) (\<lambda>decoded.
        ret \<lparr>pr_quote = None, pr_built = built, pr_plan = CosmosSend plan,
             pr_problems = verify_cosmos_send decoded plan\<rparr>))))"

definition prepare_deposit ::
  "('w, problem) cosmos_env \<Rightarrow> cosmos_chain \<Rightarrow> pystr \<Rightarrow> int \<Rightarrow> int \<Rightarrow> pystr \<Rightarrow> int \<Rightarrow> quote option
   \<Rightarrow> pystr \<Rightarrow> int \<Rightarrow> ('w, problem, (built_cosmos_tx, cosmos_plan, problem) prepared) io" where
  "prepare_deposit env ch m amount now destination expiry q path gas_limit =
     (let keys = ce_keys env path in
      and_then (of_py (derive_address env (ch_hrp ch) path)) (\<lambda>sender.
      and_then (of_py (value_error (bech32_decode sender))) (\<lambda>(_, signer_bytes).
      let amount_str = dec_int amount;
          deposit = msg_deposit [(ch_asset ch, amount_str)] m signer_bytes;
          body_bytes = tx_body [(MSGDEPOSIT_TYPE_URL, deposit)] [] in
      and_then (built_tx env ch body_bytes (fst keys) (snd keys) sender gas_limit) (\<lambda>built.
      let plan = \<lparr>cdp_asset = ch_asset ch, cdp_amount = amount_str, cdp_memo = m,
                  cdp_destination = destination, cdp_signer = signer_bytes, cdp_expiry = expiry\<rparr> in
      and_then (of_py (decode_msg_deposit_body body_bytes)) (\<lambda>decoded.
        ret \<lparr>pr_quote = q, pr_built = built, pr_plan = CosmosDeposit plan,
             pr_problems = verify_cosmos_deposit decoded plan now\<rparr>)))))"

text \<open>\<open>quote.memo or ""\<close>: a memo that is no string has no \<open>encode\<close>.\<close>

definition memo_text :: "json \<Rightarrow> py_error + pystr" where
  "memo_text j =
     (if \<not> json_truthy j then Inr []
      else case j of JStr s \<Rightarrow> Inr s | _ \<Rightarrow> Inl AttributeError)"

definition cosmos_build_and_verify ::
  "('w, problem) cosmos_env \<Rightarrow> cosmos_chain \<Rightarrow> quote \<Rightarrow> swap_request \<Rightarrow> int \<Rightarrow> pystr \<Rightarrow> int
   \<Rightarrow> ('w, problem, (built_cosmos_tx, cosmos_plan, problem) prepared) io" where
  "cosmos_build_and_verify env ch q request now path gas_limit =
     and_then (of_py (memo_text (q_memo q))) (\<lambda>m.
       prepare_deposit env ch m (sr_amount request) now (sr_destination request) (q_expiry q)
         (Some q) path gas_limit)"

definition build_and_verify_native_deposit ::
  "('w, problem) cosmos_env \<Rightarrow> cosmos_chain \<Rightarrow> pystr \<Rightarrow> int \<Rightarrow> int \<Rightarrow> int option \<Rightarrow> pystr \<Rightarrow> int
   \<Rightarrow> ('w, problem, (built_cosmos_tx, cosmos_plan, problem) prepared) io" where
  "build_and_verify_native_deposit env ch m amount now expiry path gas_limit =
     prepare_deposit env ch m amount now []
       (case expiry of None \<Rightarrow> now + 3600 | Some e \<Rightarrow> e) None path gas_limit"

definition cosmos_sign :: "('w, 'p) cosmos_env \<Rightarrow> built_cosmos_tx \<Rightarrow> ('w, 'p, pystr list) io" where
  "cosmos_sign env built =
     and_then (of_py (sign_doc (bc_body_bytes built) (bc_auth_info_bytes built) (bc_chain_id built)
         (bc_account_number built))) (\<lambda>doc.
       let signature = ce_sign_direct env (bc_private_key built) doc;
           raw = tx_raw (bc_body_bytes built) (bc_auth_info_bytes built) signature
       in ret [ce_b64encode env raw])"

text \<open>\<open>x == 0\<close> of a JSON value; the transaction hash is passed on as it came.\<close>

fun json_zero :: "json \<Rightarrow> bool" where
  "json_zero (JInt n) = (n = 0)"
| "json_zero (JBool b) = (\<not> b)"
| "json_zero (JFloat x) = (case x of Flt m e \<Rightarrow> m = 0)"
| "json_zero _ = False"

fun cosmos_broadcast_loop ::
  "('w, 'p) cosmos_env \<Rightarrow> cosmos_chain \<Rightarrow> json \<Rightarrow> pystr list \<Rightarrow> ('w, 'p, json) io" where
  "cosmos_broadcast_loop env ch txhash [] = ret txhash"
| "cosmos_broadcast_loop env ch txhash (tx_b64 # raws) =
     and_then (ce_post env (ce_node_url env @ lit ''/cosmos/tx/v1beta1/txs'')
       [(lit ''tx_bytes'', JStr tx_b64), (lit ''mode'', JStr (lit ''BROADCAST_MODE_SYNC''))]) (\<lambda>resp.
     and_then (raise_for_status resp) (\<lambda>_.
     and_then (resp_json resp) (\<lambda>body.
     and_then (of_py (jget_or body (lit ''tx_response'') (JObj []))) (\<lambda>result.
     and_then (of_py (jget_or result (lit ''code'') (JInt 0))) (\<lambda>code.
     if \<not> json_zero code then
       and_then (of_py (jget result (lit ''raw_log''))) (\<lambda>raw_log.
         raise (BroadcastError (ch_chain ch) code raw_log))
     else
       and_then (of_py (jget_or result (lit ''txhash'') (JStr []))) (\<lambda>txhash.
         cosmos_broadcast_loop env ch txhash raws))))))"

definition cosmos_broadcast ::
  "('w, 'p) cosmos_env \<Rightarrow> cosmos_chain \<Rightarrow> pystr list \<Rightarrow> ('w, 'p, json) io" where
  "cosmos_broadcast env ch raws = cosmos_broadcast_loop env ch (JStr []) raws"

section \<open>Addresses are text\<close>

lemma charset_values_set: "charset_values cs = Some vs \<Longrightarrow> set cs \<subseteq> set charset"
  by (induction cs arbitrary: vs)
     (auto split: option.splits dest!: index_of_Some simp: charset_facts)

lemma charset_unicode: "c \<in> set charset \<Longrightarrow> unicode_scalar c"
proof -
  have "list_all unicode_scalar charset" by (simp add: charset_def lit_def unicode_scalar_def)
  then show "c \<in> set charset \<Longrightarrow> unicode_scalar c" by (simp add: list_all_iff)
qed

lemma bech32_address:
  assumes "hrp \<noteq> []" "unicode_text hrp" "bech32_encode hrp data = Inr a"
  shows "bech32_decode a = Inr (hrp, data) \<and> unicode_text a \<and> a \<noteq> []"
proof -
  obtain a' where "bech32_encode hrp data = Inr a'" "bech32_decode a' = Inr (hrp, data)"
    using b32_roundtrip [OF assms(1), of BECH32 data] by (auto simp: bech32_encode_def bech32_decode_def)
  with assms(3) have d: "bech32_decode a = Inr (hrp, data)" by simp
  then obtain vs where s: "split a = Inr (hrp, vs, BECH32)"
    by (auto simp: bech32_decode_def b32_decode_def bind_res_eq_Inr split: if_splits)
  then obtain q where a: "a = hrp @ 49 # q" "charset_values q = Some vs"
    by (rule split_Inr)
  then have "unicode_text q"
    using charset_values_set [OF a(2)] charset_unicode by (auto simp: unicode_text_def list_all_iff)
  with a assms(2) d show ?thesis by (simp add: unicode_scalar_def)
qed

section \<open>The gate accepts what the adapter built\<close>

lemma dec_int_text: "unicode_text (dec_int n) \<and> dec_int n \<noteq> []"
proof -
  have "unicode_scalar c" if "c \<in> set (dec_nat m)" for c m
    using dec_nat_digits [OF that] by (simp add: is_digit_def unicode_scalar_def)
  then show ?thesis by (auto simp: dec_int_def unicode_text_def list_all_iff unicode_scalar_def)
qed

definition known_chain :: "cosmos_chain \<Rightarrow> bool" where
  "known_chain ch \<longleftrightarrow> ch = maya_chain \<or> ch = thor_chain"

lemma known_chain_facts:
  assumes "known_chain ch"
  shows "ch_hrp ch \<noteq> []" "unicode_text (ch_hrp ch)" "unicode_text (ch_denom ch)" "ch_denom ch \<noteq> []"
    "coin_ok (ch_asset ch, dec_int n)"
  using assms dec_int_text [of n]
  by (auto simp: known_chain_def maya_chain_def thor_chain_def lit_def unicode_scalar_def
      coin_ok_def py_partition_def)

lemma derive_address_decodes:
  assumes "known_chain ch" "derive_address env (ch_hrp ch) path = Inr sender"
  shows "bech32_decode sender = Inr (ch_hrp ch, ce_hash160 env (snd (ce_keys env path)))"
    "unicode_text sender" "sender \<noteq> []"
  using bech32_address [OF known_chain_facts(1,2) [OF assms(1)]] assms(2)
  by (auto simp: derive_address_def value_error_def split: sum.splits)

lemma prepare_deposit_gate:
  assumes "known_chain ch" "unicode_text m"
    and "prepare_deposit env ch m amount now destination expiry q path gas_limit w = (Inr p, w')"
  shows "safe p \<longleftrightarrow> now < expiry \<and> memo_pays_destination destination (MemoText m)"
proof -
  from assms(3) obtain sender where s: "derive_address env (ch_hrp ch) path = Inr sender"
    by (auto simp: prepare_deposit_def Let_def io_reached)
  have coins: "list_all coin_ok [(ch_asset ch, dec_int amount)]"
    using known_chain_facts(5) [OF assms(1)] by simp
  note d = msg_deposit_roundtrip [OF coins assms(2) unicode_text_simps(1)]
  from assms(3) have "pr_problems p = verify_cosmos_deposit
      \<lparr>dd_type_url = MSGDEPOSIT_TYPE_URL, dd_coins = [(ch_asset ch, dec_int amount)], dd_memo = m,
       dd_signer = PbBytes (ce_hash160 env (snd (ce_keys env path))), dd_outer_memo = []\<rparr>
      \<lparr>cdp_asset = ch_asset ch, cdp_amount = dec_int amount, cdp_memo = m,
       cdp_destination = destination, cdp_signer = ce_hash160 env (snd (ce_keys env path)),
       cdp_expiry = expiry\<rparr> now"
    by (auto simp: prepare_deposit_def Let_def io_reached s value_error_def
        derive_address_decodes [OF assms(1) s] d)
  then show ?thesis
    unfolding safe_def verify_cosmos_deposit_def
    by (simp add: gate_simps MSGDEPOSIT_TYPE_URL_def)
qed

text \<open>
  C12: The CACAO and RUNE adapter passes its own gate. Whatever key the wallet derives, a send to a
  non-empty recipient is always found safe, a native liquidity deposit is always found safe, and
  a swap deposit is found safe exactly when the quote is unexpired and its memo names the
  destination: the address encodes and decodes to the account's hash, and the serialized body
  reads back as what was asked.
\<close>

theorem cosmos_adapter_passes:
  assumes "known_chain ch" "unicode_text recipient" "recipient \<noteq> []" "unicode_text m" "m \<noteq> []"
  shows "(cosmos_build_and_verify_send env ch recipient amount path gas_limit w = (Inr p, w') \<longrightarrow> safe p)
   \<and> (build_and_verify_native_deposit env ch m amount now None path gas_limit w = (Inr p, w') \<longrightarrow> safe p)
   \<and> (q_memo q = JStr m \<and> cosmos_build_and_verify env ch q r now path gas_limit w = (Inr p, w') \<longrightarrow>
      (safe p \<longleftrightarrow> now < q_expiry q \<and> memo_pays_destination (sr_destination r) (MemoText m)))"
proof (intro conjI impI)
  assume run: "cosmos_build_and_verify_send env ch recipient amount path gas_limit w = (Inr p, w')"
  then obtain sender where s: "derive_address env (ch_hrp ch) path = Inr sender"
    by (auto simp: cosmos_build_and_verify_send_def Let_def io_reached)
  note a = derive_address_decodes [OF assms(1) s] and k = known_chain_facts [OF assms(1)]
  note d = msg_send_roundtrip [OF a(2) assms(2) k(3) conjunct1 [OF dec_int_text] unicode_text_simps(1)
      a(3) assms(3) k(4) conjunct2 [OF dec_int_text]]
  from run have "pr_problems p = verify_cosmos_send
      \<lparr>ds_type_url = MSGSEND_TYPE_URL, ds_from_addr = sender, ds_to_addr = recipient,
       ds_denom = ch_denom ch, ds_amount = dec_int amount, ds_memo = []\<rparr>
      \<lparr>csp_from_addr = sender, csp_recipient = recipient, csp_denom = ch_denom ch,
       csp_amount = dec_int amount\<rparr>"
    by (auto simp: cosmos_build_and_verify_send_def Let_def io_reached s d)
  then show "safe p" by (simp add: safe_def verify_cosmos_send_def MSGSEND_TYPE_URL_def)
next
  assume "build_and_verify_native_deposit env ch m amount now None path gas_limit w = (Inr p, w')"
  from prepare_deposit_gate [OF assms(1,4) this [unfolded build_and_verify_native_deposit_def]]
  show "safe p" by (simp add: memo_pays_destination_def)
next
  assume "q_memo q = JStr m \<and> cosmos_build_and_verify env ch q r now path gas_limit w = (Inr p, w')"
  then have "prepare_deposit env ch m (sr_amount r) now (sr_destination r) (q_expiry q) (Some q) path
      gas_limit w = (Inr p, w')"
    using assms(5) by (auto simp: cosmos_build_and_verify_def memo_text_def io_reached)
  from prepare_deposit_gate [OF assms(1,4) this]
  show "safe p \<longleftrightarrow> now < q_expiry q \<and> memo_pays_destination (sr_destination r) (MemoText m)" .
qed

definition ex_env :: "(unit, problem) cosmos_env" where
  "ex_env = \<lparr>ce_keys = (\<lambda>path. ([1], [2])), ce_hash160 = (\<lambda>b. b @ [3]), ce_sign_direct = (\<lambda>k d. [4]),
     ce_b64encode = (\<lambda>b. []), ce_get = (\<lambda>url. ret \<lparr>rs_status = 404, rs_text = [], rs_json = None\<rparr>),
     ce_post = (\<lambda>url body. raise HttpError), ce_node_url = []\<rparr>"

lemma cosmos_adapter_passes_witness:
  "\<exists>p. build_and_verify_native_deposit ex_env thor_chain (lit ''+:BTC.BTC'') 5 100 None (lit ''m'') 7 ()
     = (Inr p, ()) \<and> safe p"
proof -
  have k: "known_chain thor_chain" by (simp add: known_chain_def)
  have m: "unicode_text (lit ''+:BTC.BTC'')" "lit ''+:BTC.BTC'' \<noteq> []"
    by (simp_all add: unicode_text_def lit_def unicode_scalar_def)
  obtain s where "bech32_encode (ch_hrp thor_chain) [2, 3] = Inr s"
    using b32_roundtrip [OF known_chain_facts(1) [OF k], of BECH32 "[2, 3]"]
    unfolding bech32_encode_def by blast
  then have s: "derive_address ex_env (ch_hrp thor_chain) (lit ''m'') = Inr s"
    by (simp add: derive_address_def value_error_def ex_env_def)
  note d = msg_deposit_roundtrip [of "[(ch_asset thor_chain, dec_int 5)]" "lit ''+:BTC.BTC''" "[]",
      OF _ m(1) unicode_text_simps(1)]
  obtain tx where tx: "\<And>b. built_tx ex_env thor_chain b [1] [2] s 7 () = (Inr (tx b), ())"
    by (atomize_elim, rule choice)
       (simp add: built_tx_def fetch_account_def fetch_chain_id_def ex_env_def and_then_def try_call_def
          ret_def raise_if_def raise_for_status_def raise_def of_py_def of_res_def auth_info_def
          signer_info_def fee_msg_def uint64_field_def varint_def)
  have keys: "ce_keys ex_env (lit ''m'') = ([1], [2])" by (simp add: ex_env_def)
  have "\<exists>p. build_and_verify_native_deposit ex_env thor_chain (lit ''+:BTC.BTC'') 5 100 None (lit ''m'') 7 ()
      = (Inr p, ())"
    using known_chain_facts(5) [OF k, of 5] derive_address_decodes [OF k s]
    by (simp add: build_and_verify_native_deposit_def prepare_deposit_def Let_def and_then_def
        of_py_def of_res_def s value_error_def keys tx d ret_def)
  then obtain p where p: "build_and_verify_native_deposit ex_env thor_chain (lit ''+:BTC.BTC'') 5 100 None
      (lit ''m'') 7 () = (Inr p, ())" ..
  from cosmos_adapter_passes [OF k m m, THEN conjunct2, THEN conjunct1, THEN mp, OF p] p
  show ?thesis by blast
qed

end
