(* ===== verification/Gated.thy ===== *)
theory Gated
  imports Swap VaultSwap Rbf
begin

text \<open>
  \<open>src/swapsack/chains/gated.py\<close> and \<open>src/swapsack/chains/utxo.py\<close>: building a UTXO transaction
  from selected coins and gating what was built. bitcoinlib is a parameter: the lock script and
  the address of an output that was added to a transaction, and the key of a derivation path. A
  mnemonic is closed over in that last one. Signing is left to bitcoinlib; the checks around it
  are not.
\<close>

section \<open>utxo.py: building\<close>

definition RBF_SEQUENCE :: int where
  "RBF_SEQUENCE = 0xFFFFFFFD"

text \<open>
  What stops a builder. Cardano's reasons are an InsufficientFunds for the first three, else a
  SwapAborted; a LibraryError is a RuntimeError of a library; \<open>NoReturn\<close> stands for a builder that
  does not come back.
\<close>

datatype ada_refusal =
  CannotPay int int
| SweepBelowFee int int
| NothingAtReceiveAddress pystr
| BinaryMemo
| FinerThanLovelace int
| BelowMinAda int
| TooManyBytes nat int
| KeyDoesNotOwn "pystr option" pystr
| CoinsElsewhere pystr

datatype build_error = Coins coins_error | ExceedsBalance int | BuildPy py_error | AdaRefused ada_refusal
  | LibraryError | NoReturn

definition coins_res :: "coins_error + 'a \<Rightarrow> build_error + 'a" where
  "coins_res r = (case r of Inl e \<Rightarrow> Inl (Coins e) | Inr x \<Rightarrow> Inr x)"

text \<open>\<open>tx.add_output(value, address=a)\<close> and \<open>tx.add_output(value, lock_script=s)\<close>.\<close>

datatype added_output = PayTo int "pystr option" | PayScript int bytes

record bitcoinlib =
  bl_script :: "added_output \<Rightarrow> bytes"
  bl_address :: "added_output \<Rightarrow> pystr option"

fun added_value :: "added_output \<Rightarrow> int" where
  "added_value (PayTo v a) = v"
| "added_value (PayScript v s) = v"

record 'key tx_input =
  ti_txid :: pystr
  ti_vout :: int
  ti_value :: int
  ti_key :: 'key
  ti_sequence :: int

record 'key built_swap =
  bs_tx_inputs :: "'key tx_input list"
  bs_tx_outputs :: "added_output list"
  bs_outputs :: "tx_output list"
  bs_fee :: int
  bs_change_address :: pystr
  bs_inputs :: "utxo list"

definition extract_output :: "bitcoinlib \<Rightarrow> added_output \<Rightarrow> coins_error + tx_output" where
  "extract_output lib out =
     (if take 1 (bl_script lib out) = [byte_of OP_RETURN_OPCODE]
      then bind_res (decode_op_return (bl_script lib out)) (\<lambda>data.
             Inr \<lparr>o_address = None, o_value = added_value out, o_data = Some data\<rparr>)
      else Inr \<lparr>o_address = bl_address lib out, o_value = added_value out, o_data = None\<rparr>)"

definition extract_outputs :: "bitcoinlib \<Rightarrow> added_output list \<Rightarrow> coins_error + tx_output list" where
  "extract_outputs lib outs = map_res (extract_output lib) outs"

definition add_inputs :: "(pystr \<Rightarrow> 'key) \<Rightarrow> pystr \<Rightarrow> utxo list \<Rightarrow> 'key tx_input list" where
  "add_inputs hdkey default_path chosen =
     map (\<lambda>u. \<lparr>ti_txid = u_txid u, ti_vout = u_vout u, ti_value = u_value u,
                ti_key = hdkey (if or_empty (u_path u) \<noteq> [] then or_empty (u_path u) else default_path),
                ti_sequence = RBF_SEQUENCE\<rparr>) chosen"

text \<open>The coins of a sweep are all of them; otherwise \<open>select_coins\<close> chooses.\<close>

definition choose_coins ::
  "utxo list \<Rightarrow> int \<Rightarrow> bytes \<Rightarrow> float64 \<Rightarrow> script_params \<Rightarrow> bool \<Rightarrow> build_error + selection" where
  "choose_coins utxos amount payload fee_rate script sweep =
     (if sweep then
        (let fee = sum_list (map u_value utxos) - amount in
         if fee < 0 then Inl (ExceedsBalance amount)
         else Inr \<lparr>s_utxos = utxos, s_fee = fee, s_change = 0\<rparr>)
      else coins_res (select_coins utxos amount fee_rate (int (length payload)) script))"

definition build_unsigned_swap ::
  "bitcoinlib \<Rightarrow> (pystr \<Rightarrow> 'key) \<Rightarrow> pystr \<Rightarrow> script_params \<Rightarrow> utxo list \<Rightarrow> pystr \<Rightarrow> int \<Rightarrow> memo option
   \<Rightarrow> float64 \<Rightarrow> pystr \<Rightarrow> bool \<Rightarrow> build_error + 'key built_swap" where
  "build_unsigned_swap lib hdkey default_path script utxos vault_address amount m fee_rate
     change_address sweep =
     (let payload = memo_bytes m in
      bind_res (choose_coins utxos amount payload fee_rate script sweep) (\<lambda>sel.
      bind_res (case m of None \<Rightarrow> Inr []
                | Some _ \<Rightarrow> bind_res (coins_res (encode_op_return payload)) (\<lambda>s. Inr [PayScript 0 s])) (\<lambda>data.
      let outs = [PayTo amount (Some vault_address)] @ data
                 @ (if 0 < s_change sel then [PayTo (s_change sel) (Some change_address)] else []) in
      bind_res (coins_res (extract_outputs lib outs)) (\<lambda>outputs.
        Inr \<lparr>bs_tx_inputs = add_inputs hdkey default_path (s_utxos sel), bs_tx_outputs = outs,
             bs_outputs = outputs, bs_fee = s_fee sel, bs_change_address = change_address,
             bs_inputs = s_utxos sel\<rparr>))))"

definition replacement_output :: "tx_output \<Rightarrow> coins_error + added_output" where
  "replacement_output out =
     (case o_data out of
        Some data \<Rightarrow> bind_res (encode_op_return data) (\<lambda>s. Inr (PayScript (o_value out) s))
      | None \<Rightarrow> Inr (PayTo (o_value out) (o_address out)))"

definition build_replacement ::
  "bitcoinlib \<Rightarrow> (pystr \<Rightarrow> 'key) \<Rightarrow> pystr \<Rightarrow> replacement \<Rightarrow> coins_error + 'key built_swap" where
  "build_replacement lib hdkey default_path r =
     bind_res (map_res replacement_output (rp_outputs r)) (\<lambda>outs.
     bind_res (extract_outputs lib outs) (\<lambda>outputs.
       Inr \<lparr>bs_tx_inputs = add_inputs hdkey default_path (rp_inputs r), bs_tx_outputs = outs,
            bs_outputs = outputs, bs_fee = rp_fee r, bs_change_address = rp_change_address r,
            bs_inputs = rp_inputs r\<rparr>))"

text \<open>\<open>sign\<close>: an input left unsigned, or a transaction that does not verify, stops the broadcast.\<close>

definition sign_built ::
  "('key built_swap \<Rightarrow> 'tx) \<Rightarrow> ('tx \<Rightarrow> bool list) \<Rightarrow> ('tx \<Rightarrow> bool) \<Rightarrow> ('tx \<Rightarrow> pystr) \<Rightarrow> 'key built_swap
   \<Rightarrow> ('w, 'p, pystr list) io" where
  "sign_built lib_sign signatures lib_verify raw_hex built =
     (let tx = lib_sign built;
          unsigned = filter (\<lambda>i. \<not> signatures tx ! i) [0..<length (signatures tx)] in
      and_then (raise_if (unsigned \<noteq> []) RuntimeError) (\<lambda>_.
      and_then (raise_if (\<not> lib_verify tx) RuntimeError) (\<lambda>_. ret [raw_hex tx])))"

section \<open>gated.py: building, then gating\<close>

text \<open>
  The hook is any builder with neutral outputs and a fee: bitcoinlib's above, or ZEC's own. Its
  arguments are the coins, the address and amount to pay, the memo, the fee rate, the change
  address and whether it sweeps.
\<close>

type_synonym 'b build_hook =
  "utxo list \<Rightarrow> pystr \<Rightarrow> int \<Rightarrow> memo option \<Rightarrow> float64 \<Rightarrow> pystr \<Rightarrow> bool \<Rightarrow> build_error + 'b"

record 'b gated_builder =
  gb_hook :: "'b build_hook"
  gb_outputs :: "'b \<Rightarrow> tx_output list"
  gb_fee :: "'b \<Rightarrow> int"
  gb_canonical :: "pystr \<Rightarrow> pystr"
  gb_memo_max_bytes :: nat

datatype utxo_plan = SwapIntent swap_plan | SendIntent send_plan | VaultIntent chainflip_vault_plan

definition owned_of :: "pystr \<Rightarrow> utxo list \<Rightarrow> pystr set" where
  "owned_of change_address utxos = {change_address} \<union> u_address ` set utxos"

text \<open>
  \<open>quote.memo or ""\<close> and the vault address. A value that is not a string, which a builder cannot
  use, is a TypeError.
\<close>

definition json_text :: "json \<Rightarrow> build_error + pystr" where
  "json_text j =
     (if \<not> json_truthy j then Inr []
      else case j of JStr s \<Rightarrow> Inr s | _ \<Rightarrow> Inl (BuildPy TypeError))"

definition build_and_verify ::
  "'b gated_builder \<Rightarrow> quote \<Rightarrow> swap_request \<Rightarrow> int \<Rightarrow> utxo list \<Rightarrow> float64 \<Rightarrow> pystr \<Rightarrow> int \<Rightarrow> bool
   \<Rightarrow> build_error + ('b, utxo_plan, problem) prepared" where
  "build_and_verify g q request now scanned_utxos fee_rate change_address max_fee sweep =
     bind_res (json_text (q_inbound_address q)) (\<lambda>inbound.
     bind_res (json_text (q_memo q)) (\<lambda>m.
     bind_res (gb_hook g scanned_utxos inbound (sr_amount request) (Some (MemoText m)) fee_rate
         change_address sweep) (\<lambda>built.
       let plan = \<lparr>sp_inbound = gb_canonical g inbound, sp_amount = sr_amount request,
                   sp_memo = MemoText m, sp_expiry = q_expiry q,
                   sp_destination = sr_destination request\<rparr>
       in Inr \<lparr>pr_quote = Some q, pr_built = built, pr_plan = SwapIntent plan,
               pr_problems = verify_btc_swap (gb_outputs g built) (gb_fee g built) plan
                 (owned_of change_address scanned_utxos) now max_fee (gb_memo_max_bytes g)\<rparr>)))"

definition build_and_verify_deposit ::
  "'b gated_builder \<Rightarrow> pystr \<Rightarrow> memo \<Rightarrow> int \<Rightarrow> int \<Rightarrow> utxo list \<Rightarrow> float64 \<Rightarrow> pystr \<Rightarrow> int \<Rightarrow> bool
   \<Rightarrow> build_error + ('b, utxo_plan, problem) prepared" where
  "build_and_verify_deposit g vault m amount now scanned_utxos fee_rate change_address max_fee sweep =
     bind_res (gb_hook g scanned_utxos vault amount (Some m) fee_rate change_address sweep) (\<lambda>built.
       let plan = \<lparr>sp_inbound = gb_canonical g vault, sp_amount = amount, sp_memo = m,
                   sp_expiry = now + 3600, sp_destination = []\<rparr>
       in Inr \<lparr>pr_quote = None, pr_built = built, pr_plan = SwapIntent plan,
               pr_problems = verify_btc_swap (gb_outputs g built) (gb_fee g built) plan
                 (owned_of change_address scanned_utxos) now max_fee (gb_memo_max_bytes g)\<rparr>)"

definition build_and_verify_vault_swap ::
  "'b gated_builder \<Rightarrow> chainflip_vault_plan \<Rightarrow> int \<Rightarrow> utxo list \<Rightarrow> float64 \<Rightarrow> pystr \<Rightarrow> int
   \<Rightarrow> build_error + ('b, utxo_plan, vault_problem) prepared" where
  "build_and_verify_vault_swap g plan now scanned_utxos fee_rate change_address max_fee =
     bind_res (gb_hook g scanned_utxos (cv_deposit_address plan) (cv_amount plan)
         (Some (MemoBytes (cv_payload plan))) fee_rate change_address False) (\<lambda>built.
       Inr \<lparr>pr_quote = None, pr_built = built, pr_plan = VaultIntent plan,
            pr_problems = verify_chainflip_vault_swap (gb_outputs g built) (gb_fee g built) plan
              (owned_of change_address scanned_utxos) now max_fee\<rparr>)"

definition build_and_verify_send ::
  "'b gated_builder \<Rightarrow> pystr \<Rightarrow> int \<Rightarrow> utxo list \<Rightarrow> float64 \<Rightarrow> pystr \<Rightarrow> int \<Rightarrow> bool
   \<Rightarrow> build_error + ('b, utxo_plan, problem) prepared" where
  "build_and_verify_send g recipient amount scanned_utxos fee_rate change_address max_fee sweep =
     bind_res (gb_hook g scanned_utxos recipient amount None fee_rate change_address sweep) (\<lambda>built.
       let plan = \<lparr>snd_recipient = gb_canonical g recipient, snd_amount = amount\<rparr>
       in Inr \<lparr>pr_quote = None, pr_built = built, pr_plan = SendIntent plan,
               pr_problems = verify_btc_send (gb_outputs g built) (gb_fee g built) plan
                 (owned_of change_address scanned_utxos) max_fee\<rparr>)"

text \<open>
  \<open>UtxoTxBuilder\<close> as such a builder: \<open>change_address or self.derive_address(...)\<close>, the identity
  as canonical form, and the OP_RETURN limit.
\<close>

definition utxo_builder ::
  "bitcoinlib \<Rightarrow> (pystr \<Rightarrow> 'key) \<Rightarrow> (pystr \<Rightarrow> pystr) \<Rightarrow> pystr \<Rightarrow> script_params \<Rightarrow> 'key built_swap gated_builder"
where
  "utxo_builder lib hdkey derive_address default_path script =
     \<lparr>gb_hook = (\<lambda>utxos vault amount m fee_rate change_address sweep.
        build_unsigned_swap lib hdkey default_path script utxos vault amount m fee_rate
          (if change_address \<noteq> [] then change_address else derive_address default_path) sweep),
      gb_outputs = bs_outputs, gb_fee = bs_fee, gb_canonical = (\<lambda>a. a),
      gb_memo_max_bytes = OP_RETURN_MAX_BYTES\<rparr>"

text \<open>The fee bump, gated with the original's own payment, memo and change.\<close>

datatype bump_problem = Gate problem | FeeMismatch int int

definition build_and_verify_replacement ::
  "bitcoinlib \<Rightarrow> (pystr \<Rightarrow> 'key) \<Rightarrow> pystr \<Rightarrow> replacement \<Rightarrow> int \<Rightarrow> int
   \<Rightarrow> coins_error + ('key built_swap, utxo_plan, bump_problem) prepared" where
  "build_and_verify_replacement lib hdkey default_path r now max_fee =
     bind_res (build_replacement lib hdkey default_path r) (\<lambda>built.
       let owned = owned_of (rp_change_address r) (rp_inputs r);
           plan = (case rp_memo r of
              None \<Rightarrow> SendIntent \<lparr>snd_recipient = rp_recipient r, snd_amount = rp_amount r\<rparr>
            | Some m \<Rightarrow> SwapIntent \<lparr>sp_inbound = rp_recipient r, sp_amount = rp_amount r,
                sp_memo = MemoBytes m, sp_expiry = now + 3600, sp_destination = []\<rparr>);
           problems = (case plan of
              SendIntent p \<Rightarrow> verify_btc_send (bs_outputs built) (bs_fee built) p owned max_fee
            | SwapIntent p \<Rightarrow>
                verify_btc_swap (bs_outputs built) (bs_fee built) p owned now max_fee OP_RETURN_MAX_BYTES
            | VaultIntent p \<Rightarrow> []);
           real_fee = sum_list (map u_value (rp_inputs r)) - sum_list (map o_value (bs_outputs built))
       in Inr \<lparr>pr_quote = None, pr_built = built, pr_plan = plan,
               pr_problems = map Gate problems
                 @ (if real_fee \<noteq> bs_fee built then [FeeMismatch real_fee (bs_fee built)] else [])\<rparr>)"

section \<open>What was built\<close>

text \<open>
  What the code relies on in bitcoinlib: an added output keeps the lock script or the address it
  was given, and the lock script of an address is not an OP_RETURN.
\<close>

definition bitcoinlib_ok :: "bitcoinlib \<Rightarrow> bool" where
  "bitcoinlib_ok lib \<longleftrightarrow>
     (\<forall>v s. bl_script lib (PayScript v s) = s) \<and> (\<forall>v a. bl_address lib (PayTo v a) = a)
     \<and> (\<forall>v a. take 1 (bl_script lib (PayTo v a)) \<noteq> [byte_of OP_RETURN_OPCODE])"

lemma encode_op_return_decodes:
  "encode_op_return data = Inr s \<Longrightarrow>
   length data \<le> 80 \<and> take 1 s = [byte_of OP_RETURN_OPCODE] \<and> decode_op_return s = Inr data"
  by (auto simp: encode_op_return_def decode_op_return_def OP_RETURN_MAX_BYTES_def OP_PUSHDATA1_def
      slice_def byte_of_inject split: if_splits)

lemma coins_res_Inr: "coins_res r = Inr x \<longleftrightarrow> r = Inr x"
  by (cases r) (simp_all add: coins_res_def)

lemma extract_pay: "bitcoinlib_ok lib \<Longrightarrow>
  extract_output lib (PayTo v a) = Inr \<lparr>o_address = a, o_value = v, o_data = None\<rparr>"
  by (simp add: extract_output_def bitcoinlib_ok_def)

lemma extract_data: "bitcoinlib_ok lib \<Longrightarrow> encode_op_return data = Inr s \<Longrightarrow>
  extract_output lib (PayScript v s) = Inr \<lparr>o_address = None, o_value = v, o_data = Some data\<rparr>"
  using encode_op_return_decodes [of data s] by (simp add: extract_output_def bitcoinlib_ok_def)

context fee_model
begin

lemma select_fee_nonneg:
  assumes "0 \<le> dst" "sane (select_order us)" "select_core us amount dst fee = Inr sel"
  shows "0 \<le> s_fee sel"
proof -
  from assms obtain d where "find (affordable amount fee) (tl (prefixes (select_order us))) = Some d"
    and sel: "sel = settle amount dst fee d"
    using select_finds [OF assms(1,2), of amount] by (auto split: option.splits)
  then have d: "affordable amount fee d" "d \<in> set (tl (prefixes (select_order us)))"
    by (auto simp: find_Some_iff)
  from d(2) have "d \<in> set (prefixes (select_order us))" by (cases "prefixes (select_order us)") auto
  then obtain e where "select_order us = d @ e" by (auto simp: prefix_def)
  with assms(2) sane_prefix [of d e] have "sane d" by simp
  then show ?thesis unfolding sel using d(1) by (rule settle_pays)
qed

end

text \<open>The fee, the coins and the outputs of whatever was built.\<close>

lemma choose_coins_result:
  assumes "choose_coins utxos amount payload rate script sweep = Inr sel" "0 < dust script"
    and "sweep \<or> vbyte_sane rate (int (length payload)) script utxos"
  shows "0 \<le> s_fee sel \<and> 0 \<le> s_change sel
    \<and> sum_list (map u_value (s_utxos sel)) = amount + s_fee sel + s_change sel"
proof (cases sweep)
  case True
  with assms(1) show ?thesis by (auto simp: choose_coins_def Let_def split: if_splits)
next
  case False
  with assms(1) have sel: "select_core utxos amount (dust script)
      (vbyte_fee rate (int (length payload)) script) = Inr sel"
    by (simp add: choose_coins_def coins_res_Inr select_coins_def)
  have "vbyte_sane rate (int (length payload)) script (select_order utxos)"
    using assms(3) False coins_ok_mset [of utxos "select_order utxos"] by (simp add: vbyte_sane_def)
  then have "0 \<le> s_fee sel"
    using vbytes.select_fee_nonneg [of "dust script" _ _ _ utxos amount sel] sel assms(2) by simp
  with select_core_sound(1,2) [OF sel] assms(2) show ?thesis by auto
qed

definition paid_output :: "int \<Rightarrow> pystr \<Rightarrow> tx_output" where
  "paid_output v a = \<lparr>o_address = Some a, o_value = v, o_data = None\<rparr>"

definition data_output :: "bytes \<Rightarrow> tx_output" where
  "data_output data = \<lparr>o_address = None, o_value = 0, o_data = Some data\<rparr>"

lemma build_result:
  assumes "build_unsigned_swap lib hdkey dpath script utxos vault amount m rate change sweep = Inr b"
    and "bitcoinlib_ok lib"
  obtains sel where "choose_coins utxos amount (memo_bytes m) rate script sweep = Inr sel"
    "bs_fee b = s_fee sel" "bs_inputs b = s_utxos sel"
    "m \<noteq> None \<longrightarrow> length (memo_bytes m) \<le> 80"
    "bs_outputs b = [paid_output amount vault] @ (if m = None then [] else [data_output (memo_bytes m)])
       @ (if 0 < s_change sel then [paid_output (s_change sel) change] else [])"
proof -
  from assms(1) obtain sel data outputs
    where sel: "choose_coins utxos amount (memo_bytes m) rate script sweep = Inr sel"
    and data: "(case m of None \<Rightarrow> Inr []
        | Some _ \<Rightarrow> bind_res (coins_res (encode_op_return (memo_bytes m))) (\<lambda>s. Inr [PayScript 0 s])) = Inr data"
    and outs: "extract_outputs lib ([PayTo amount (Some vault)] @ data
        @ (if 0 < s_change sel then [PayTo (s_change sel) (Some change)] else [])) = Inr outputs"
    and b: "bs_fee b = s_fee sel" "bs_inputs b = s_utxos sel" "bs_outputs b = outputs"
    by (auto simp: build_unsigned_swap_def Let_def bind_res_eq_Inr coins_res_Inr)
  show thesis
  proof (cases m)
    case None
    with data outs b assms(2) show ?thesis
      by (intro that [OF sel]) (auto simp: extract_outputs_def extract_pay paid_output_def split: if_splits)
  next
    case (Some x)
    with data obtain s where s: "encode_op_return (memo_bytes m) = Inr s" "data = [PayScript 0 s]"
      by (auto simp: bind_res_eq_Inr coins_res_Inr)
    with Some outs b assms(2) encode_op_return_decodes [OF s(1)] show ?thesis
      by (intro that [OF sel])
         (auto simp: extract_outputs_def extract_pay extract_data paid_output_def data_output_def
            split: if_splits)
  qed
qed

section \<open>The gate accepts what the builder made\<close>

definition built_outputs :: "int \<Rightarrow> pystr \<Rightarrow> bytes option \<Rightarrow> int \<Rightarrow> pystr \<Rightarrow> tx_output list" where
  "built_outputs amount vault data change_value change =
     [paid_output amount vault] @ (case data of None \<Rightarrow> [] | Some d \<Rightarrow> [data_output d])
     @ (if 0 < change_value then [paid_output change_value change] else [])"

text \<open>
  What an honest builder makes: the payment, the memo and change of our own, the memo before or after
  the change.
\<close>

definition honest_outputs :: "int \<Rightarrow> pystr \<Rightarrow> bytes option \<Rightarrow> pystr \<Rightarrow> tx_output list \<Rightarrow> bool" where
  "honest_outputs amount vault data change outs \<longleftrightarrow>
     (\<exists>v. outs = built_outputs amount vault data v change
        \<or> outs = built_outputs amount vault None v change @ (case data of None \<Rightarrow> [] | Some d \<Rightarrow> [data_output d]))"

lemma honest_swap_gate:
  assumes "honest_outputs amount vault (Some d) change outs"
    and "sp_inbound plan = vault" "sp_amount plan = amount" "spells d (sp_memo plan)"
    and "length d \<le> limit" "change \<in> owned" "change \<noteq> vault" "0 \<le> fee"
  shows "verify_btc_swap outs fee plan owned now max_fee limit = [] \<longleftrightarrow>
    now < sp_expiry plan \<and> memo_pays_destination (sp_destination plan) (sp_memo plan) \<and> fee \<le> max_fee"
  using assms
  unfolding verify_btc_swap_def append_is_Nil_conv gate_simps
  by (auto simp: honest_outputs_def built_outputs_def paid_output_def data_output_def)

lemma honest_send_gate:
  assumes "honest_outputs amount vault None change outs"
    and "snd_recipient plan = vault" "snd_amount plan = amount" "change \<in> owned" "change \<noteq> vault" "0 \<le> fee"
  shows "verify_btc_send outs fee plan owned max_fee = [] \<longleftrightarrow> fee \<le> max_fee"
  using assms
  unfolding verify_btc_send_def append_is_Nil_conv gate_simps
  by (auto simp: honest_outputs_def built_outputs_def paid_output_def split: if_splits)

text \<open>
  The contract of a builder: under the conditions \<open>ready\<close>, whatever its hook returns has honest outputs
  to the canonical address, a fee that is not negative and a memo within its limit. The three wrappers
  then judge quote, memo and fee only.
\<close>

locale honest_builder =
  fixes ready :: "'b gated_builder \<Rightarrow> utxo list \<Rightarrow> pystr \<Rightarrow> float64 \<Rightarrow> pystr \<Rightarrow> bool \<Rightarrow> memo option \<Rightarrow> bool"
  assumes builds: "ready g utxos vault rate change sweep m
    \<Longrightarrow> gb_hook g utxos vault n m rate change sweep = Inr b
    \<Longrightarrow> honest_outputs n (gb_canonical g vault) (if m = None then None else Some (memo_bytes m)) change
          (gb_outputs g b)
      \<and> 0 \<le> gb_fee g b \<and> length (memo_bytes m) \<le> gb_memo_max_bytes g
      \<and> change \<noteq> gb_canonical g vault"
begin

lemma swap_passes:
  assumes "ready g utxos vault rate change sweep (Some (MemoText m))" "unicode_text m"
    and "q_inbound_address q = JStr vault" "vault \<noteq> []" "q_memo q = JStr m" "m \<noteq> []"
    and "build_and_verify g q r now utxos rate change max_fee sweep = Inr p"
  shows "gb_hook g utxos vault (sr_amount r) (Some (MemoText m)) rate change sweep = Inr (pr_built p)"
    and "safe p \<longleftrightarrow> now < q_expiry q \<and> memo_pays_destination (sr_destination r) (MemoText m)
      \<and> gb_fee g (pr_built p) \<le> max_fee"
proof -
  have texts: "json_text (JStr vault) = Inr vault" "json_text (JStr m) = Inr m"
    using assms(4,6) by (simp_all add: json_text_def)
  from assms(7) obtain b where b: "pr_built p = b"
    "gb_hook g utxos vault (sr_amount r) (Some (MemoText m)) rate change sweep = Inr b"
    and problems: "pr_problems p = verify_btc_swap (gb_outputs g b) (gb_fee g b)
      \<lparr>sp_inbound = gb_canonical g vault, sp_amount = sr_amount r, sp_memo = MemoText m,
       sp_expiry = q_expiry q, sp_destination = sr_destination r\<rparr>
      (owned_of change utxos) now max_fee (gb_memo_max_bytes g)"
    by (auto simp: build_and_verify_def assms(3,5) texts bind_res_eq_Inr Let_def)
  show "gb_hook g utxos vault (sr_amount r) (Some (MemoText m)) rate change sweep = Inr (pr_built p)"
    using b by simp
  from builds [OF assms(1) b(2)] assms(2)
  show "safe p \<longleftrightarrow> now < q_expiry q \<and> memo_pays_destination (sr_destination r) (MemoText m)
      \<and> gb_fee g (pr_built p) \<le> max_fee"
    unfolding safe_def problems b(1)
    by (subst honest_swap_gate) (auto simp: owned_of_def spells_def)
qed

lemma deposit_passes:
  assumes "ready g utxos vault rate change sweep (Some (MemoText m))" "unicode_text m"
    and "build_and_verify_deposit g vault (MemoText m) amount now utxos rate change max_fee sweep = Inr p"
  shows "gb_hook g utxos vault amount (Some (MemoText m)) rate change sweep = Inr (pr_built p)"
    and "safe p \<longleftrightarrow> gb_fee g (pr_built p) \<le> max_fee"
proof -
  from assms(3) obtain b where b: "pr_built p = b"
    "gb_hook g utxos vault amount (Some (MemoText m)) rate change sweep = Inr b"
    and problems: "pr_problems p = verify_btc_swap (gb_outputs g b) (gb_fee g b)
      \<lparr>sp_inbound = gb_canonical g vault, sp_amount = amount, sp_memo = MemoText m,
       sp_expiry = now + 3600, sp_destination = []\<rparr>
      (owned_of change utxos) now max_fee (gb_memo_max_bytes g)"
    by (auto simp: build_and_verify_deposit_def bind_res_eq_Inr Let_def)
  show "gb_hook g utxos vault amount (Some (MemoText m)) rate change sweep = Inr (pr_built p)"
    using b by simp
  from builds [OF assms(1) b(2)] assms(2)
  show "safe p \<longleftrightarrow> gb_fee g (pr_built p) \<le> max_fee"
    unfolding safe_def problems b(1)
    by (subst honest_swap_gate) (auto simp: owned_of_def spells_def memo_pays_destination_def)
qed

lemma send_passes:
  assumes "ready g utxos vault rate change sweep None"
    and "build_and_verify_send g vault amount utxos rate change max_fee sweep = Inr p"
  shows "gb_hook g utxos vault amount None rate change sweep = Inr (pr_built p)"
    and "safe p \<longleftrightarrow> gb_fee g (pr_built p) \<le> max_fee"
proof -
  from assms(2) obtain b where b: "pr_built p = b"
    "gb_hook g utxos vault amount None rate change sweep = Inr b"
    and problems: "pr_problems p = verify_btc_send (gb_outputs g b) (gb_fee g b)
      \<lparr>snd_recipient = gb_canonical g vault, snd_amount = amount\<rparr> (owned_of change utxos) max_fee"
    by (auto simp: build_and_verify_send_def bind_res_eq_Inr Let_def)
  show "gb_hook g utxos vault amount None rate change sweep = Inr (pr_built p)"
    using b by simp
  from builds [OF assms(1) b(2)]
  show "safe p \<longleftrightarrow> gb_fee g (pr_built p) \<le> max_fee"
    unfolding safe_def problems b(1)
    by (subst honest_send_gate) (auto simp: owned_of_def)
qed

end

lemma honest_built [simp]: "honest_outputs amount vault data change (built_outputs amount vault data v change)"
  by (auto simp: honest_outputs_def)

lemma build_built_outputs:
  assumes "build_unsigned_swap lib hdkey dpath script utxos vault amount m rate change sweep = Inr b"
    and "bitcoinlib_ok lib" "0 < dust script"
    and "sweep \<or> vbyte_sane rate (int (length (memo_bytes m))) script utxos"
  obtains v where
    "bs_outputs b = built_outputs amount vault (if m = None then None else Some (memo_bytes m)) v change"
    "0 \<le> bs_fee b" "m \<noteq> None \<longrightarrow> length (memo_bytes m) \<le> 80"
    "sum_list (map u_value (bs_inputs b)) = sum_list (map o_value (bs_outputs b)) + bs_fee b"
proof -
  obtain sel where sel: "choose_coins utxos amount (memo_bytes m) rate script sweep = Inr sel"
    and b: "bs_fee b = s_fee sel" "bs_inputs b = s_utxos sel" "m \<noteq> None \<longrightarrow> length (memo_bytes m) \<le> 80"
      "bs_outputs b = [paid_output amount vault] @ (if m = None then [] else [data_output (memo_bytes m)])
       @ (if 0 < s_change sel then [paid_output (s_change sel) change] else [])"
    by (rule build_result [OF assms(1,2)])
  note c = choose_coins_result [OF sel assms(3,4)]
  show thesis
    using c b by (intro that [of "s_change sel"])
      (auto simp: built_outputs_def paid_output_def data_output_def)
qed

text \<open>bitcoinlib's builder is honest.\<close>

definition utxo_ready ::
  "'key built_swap gated_builder \<Rightarrow> utxo list \<Rightarrow> pystr \<Rightarrow> float64 \<Rightarrow> pystr \<Rightarrow> bool \<Rightarrow> memo option \<Rightarrow> bool" where
  "utxo_ready g utxos vault rate change sweep m \<longleftrightarrow>
     (\<exists>lib hdkey derive dpath script. g = utxo_builder lib hdkey derive dpath script
        \<and> bitcoinlib_ok lib \<and> 0 < dust script \<and> change \<noteq> [] \<and> change \<noteq> vault
        \<and> (sweep \<or> vbyte_sane rate (int (length (memo_bytes m))) script utxos))"

lemma utxo_readyI:
  assumes "bitcoinlib_ok lib" "0 < dust script" "change \<noteq> []" "change \<noteq> vault"
    and "sweep \<or> vbyte_sane rate (int (length (memo_bytes m))) script utxos"
  shows "utxo_ready (utxo_builder lib hdkey derive dpath script) utxos vault rate change sweep m"
  using assms unfolding utxo_ready_def by blast

interpretation utxo_family: honest_builder utxo_ready
proof
  fix g :: "'key built_swap gated_builder" and utxos vault rate change sweep m n b
  assume "utxo_ready g utxos vault rate change sweep m" and run: "gb_hook g utxos vault n m rate change sweep = Inr b"
  then obtain lib hdkey derive dpath script where g: "g = utxo_builder lib hdkey derive dpath script"
    and r: "bitcoinlib_ok lib" "0 < dust script" "change \<noteq> []" "change \<noteq> vault"
      "sweep \<or> vbyte_sane rate (int (length (memo_bytes m))) script utxos"
    unfolding utxo_ready_def by blast
  have "build_unsigned_swap lib hdkey dpath script utxos vault n m rate change sweep = Inr b"
    using run r(3) by (simp add: g utxo_builder_def)
  then show "honest_outputs n (gb_canonical g vault) (if m = None then None else Some (memo_bytes m)) change (gb_outputs g b)
      \<and> 0 \<le> gb_fee g b \<and> length (memo_bytes m) \<le> gb_memo_max_bytes g \<and> change \<noteq> gb_canonical g vault"
    by (rule build_built_outputs [OF _ r(1,2,5)])
       (use r(4) in \<open>cases m; simp add: g utxo_builder_def OP_RETURN_MAX_BYTES_def\<close>)
qed

text \<open>
  C3: An honest transaction is never refused, and a refused one is never the builder's own fault.
  A UTXO swap, deposit or send that was built (coins selected or swept, the memo encoded, the
  outputs read back from the transaction) pays its change to our own address, so its gate is
  silent exactly when the quote is unexpired, its memo names the destination and the fee is
  within the cap; for a deposit or a send only the fee is left to judge. And the transaction
  balances: inputs are outputs plus the fee the gate was told.
\<close>

theorem built_transactions_pass:
  assumes "bitcoinlib_ok lib" "0 < dust script" "change \<noteq> []" "change \<noteq> vault" "unicode_text m" "m \<noteq> []"
    and "sweep \<or> vbyte_sane rate (int (length (utf8_encode m))) script utxos
                 \<and> vbyte_sane rate 0 script utxos"
    and "q_inbound_address q = JStr vault" "vault \<noteq> []" "q_memo q = JStr m"
    and g_def: "g = utxo_builder lib hdkey derive dpath script"
  shows "(build_and_verify g q r now utxos rate change max_fee sweep = Inr p \<longrightarrow>
      (safe p \<longleftrightarrow> now < q_expiry q \<and> memo_pays_destination (sr_destination r) (MemoText m)
         \<and> bs_fee (pr_built p) \<le> max_fee)
    \<and> sum_list (map u_value (bs_inputs (pr_built p)))
      = sum_list (map o_value (bs_outputs (pr_built p))) + bs_fee (pr_built p))
   \<and> (build_and_verify_deposit g vault (MemoText m) amount now utxos rate change max_fee sweep = Inr p \<longrightarrow>
      (safe p \<longleftrightarrow> bs_fee (pr_built p) \<le> max_fee))
   \<and> (build_and_verify_send g vault amount utxos rate change max_fee sweep = Inr p \<longrightarrow>
      (safe p \<longleftrightarrow> bs_fee (pr_built p) \<le> max_fee))"
proof -
  have ready: "utxo_ready g utxos vault rate change sweep (Some (MemoText m))"
    "utxo_ready g utxos vault rate change sweep None"
    unfolding g_def by (rule utxo_readyI [OF assms(1-4)]; use assms(7) in auto)+
  have fee: "gb_fee g = bs_fee" by (simp add: g_def utxo_builder_def)
  have balances: "sum_list (map u_value (bs_inputs b)) = sum_list (map o_value (bs_outputs b)) + bs_fee b"
    if "gb_hook g utxos vault n (Some (MemoText m)) rate change sweep = Inr b" for n b
    by (rule build_built_outputs [of lib hdkey dpath script utxos vault n "Some (MemoText m)" rate change sweep b])
       (use that assms(1-3,7) in \<open>auto simp: g_def utxo_builder_def\<close>)
  show ?thesis
    using utxo_family.swap_passes [OF ready(1) assms(5,8,9,10,6)] balances
      utxo_family.deposit_passes(2) [OF ready(1) assms(5)] utxo_family.send_passes(2) [OF ready(2)]
    unfolding fee by blast
qed

definition ex_lib :: bitcoinlib where
  "ex_lib = \<lparr>bl_script = (\<lambda>out. case out of PayTo v a \<Rightarrow> [0] | PayScript v s \<Rightarrow> s),
     bl_address = (\<lambda>out. case out of PayTo v a \<Rightarrow> a | PayScript v s \<Rightarrow> None)\<rparr>"

definition ex_builder :: "pystr built_swap gated_builder" where
  "ex_builder = utxo_builder ex_lib (\<lambda>path. path) (\<lambda>path. path) (lit ''m/0'') P2WPKH"

definition ex_coin :: utxo where
  "ex_coin = \<lparr>u_txid = lit ''aa'', u_vout = 0, u_value = 5000, u_address = lit ''me'', u_path = None,
     u_confirmed = True, u_ancestor_deficit = 0\<rparr>"

definition ex_quote :: quote where
  "ex_quote = \<lparr>q_inbound_address = JStr (lit ''vault''), q_expected_amount_out = 1,
     q_memo = JStr (lit ''=:e:me''),
     q_fees = \<lparr>sf_asset = JNull, sf_outbound = 0, sf_affiliate = 0, sf_liquidity = 0, sf_total = 0,
       sf_slippage_bps = 0, sf_total_bps = 0\<rparr>,
     q_recommended_min_amount_in = 1, q_expiry = 200, q_dust_threshold = 0,
     q_recommended_gas_rate = 0, q_gas_rate_units = JNull, q_router = JNull,
     q_max_streaming_quantity = 0, q_streaming_swap_blocks = 0, q_total_swap_seconds = 0,
     q_raw = JNull\<rparr>"

definition ex_request :: swap_request where
  "ex_request = \<lparr>sr_from_asset = [], sr_to_asset = [], sr_amount = 4000, sr_destination = lit ''me''\<rparr>"

lemma built_transactions_pass_witness:
  "\<exists>p. build_and_verify ex_builder ex_quote ex_request 100 [ex_coin] (Flt 1 0) (lit ''mine'') 2000 True = Inr p
     \<and> safe p \<and> bs_fee (pr_built p) = 1000"
proof -
  have lib: "bitcoinlib_ok ex_lib"
    by (simp add: bitcoinlib_ok_def ex_lib_def byte_of_def OP_RETURN_OPCODE_def)
  have u: "unicode_text (lit ''=:e:me'')" "lit ''=:e:me'' \<noteq> []" "lit ''mine'' \<noteq> []" "lit ''mine'' \<noteq> lit ''vault''"
    "lit ''vault'' \<noteq> []"
    by (simp_all add: unicode_text_def lit_def unicode_scalar_def)
  have pays: "memo_pays_destination (lit ''me'') (MemoText (lit ''=:e:me''))" by code_simp
  have q: "q_inbound_address ex_quote = JStr (lit ''vault'')" "q_memo ex_quote = JStr (lit ''=:e:me'')"
    by (simp_all add: ex_quote_def)
  have "case build_and_verify ex_builder ex_quote ex_request 100 [ex_coin] (Flt 1 0) (lit ''mine'') 2000 True
      of Inl e \<Rightarrow> False | Inr p \<Rightarrow> bs_fee (pr_built p) = 1000"
    by code_simp
  then obtain p where p: "build_and_verify ex_builder ex_quote ex_request 100 [ex_coin] (Flt 1 0)
      (lit ''mine'') 2000 True = Inr p" "bs_fee (pr_built p) = 1000"
    by (auto split: sum.splits)
  have d: "0 < dust P2WPKH" by (simp add: P2WPKH_def)
  from built_transactions_pass [OF lib d u(3,4,1,2) _ q(1) u(5) q(2) ex_builder_def, of True "Flt 1 0" "[ex_coin]"
      ex_request 100 2000 p undefined] p pays
  show ?thesis by (auto simp: ex_request_def ex_quote_def)
qed

end
