(* ===== verification/Net.thy ===== *)
theory Net
  imports PyText PyFloat
begin

text \<open>
  The retry and failover of \<open>src/swapsack/net.py\<close>. One attempt at a URL ends in a transport
  failure or in an answer with a status; which one is decided by the world, a parameter that every
  attempt and every pause may change. Seconds are rationals where the code has floats (the
  backoff, doubled a few times, is exact in both).
\<close>

section \<open>The code\<close>

definition THROTTLE_STATUSES :: "int set" where
  "THROTTLE_STATUSES = {429, 503}"

definition DEFAULT_RETRIES :: nat where
  "DEFAULT_RETRIES = 2"

definition MAX_RETRY_AFTER :: rat where
  "MAX_RETRY_AFTER = 30"

text \<open>
  The outcome of one request: a transient transport failure, or a response with its status and
  the seconds its \<open>Retry-After\<close> header asks for (0 where there is none that can be read).
\<close>

datatype 'r outcome = Transient nat | Answered int rat 'r

definition retry_after :: "rat \<Rightarrow> rat" where
  "retry_after seconds = min (max seconds 0) MAX_RETRY_AFTER"

text \<open>What the walk remembers: the last failure, the last throttling status, and the wait.\<close>

record walk =
  wk_last :: "nat option"
  wk_last_status :: "int option"
  wk_wait :: rat

text \<open>The world: one request, and one pause.\<close>

record ('w, 'r) transport =
  tp_request :: "pystr \<Rightarrow> 'w \<Rightarrow> 'r outcome \<times> 'w"
  tp_sleep :: "rat \<Rightarrow> 'w \<Rightarrow> 'w"

text \<open>One lap over the interchangeable URLs: the answer with its index, or the walk to go on with.\<close>

fun try_lap ::
  "('w, 'r) transport \<Rightarrow> nat \<Rightarrow> pystr list \<Rightarrow> walk \<Rightarrow> 'w \<Rightarrow> (('r \<times> nat) + walk) \<times> 'w" where
  "try_lap tp index [] wk w = (Inr wk, w)"
| "try_lap tp index (url # urls) wk w =
     (case tp_request tp url w of
        (Transient e, w') \<Rightarrow> try_lap tp (Suc index) urls (wk\<lparr>wk_last := Some e\<rparr>) w'
      | (Answered status after resp, w') \<Rightarrow>
          if status \<in> THROTTLE_STATUSES
          then try_lap tp (Suc index) urls
                 (wk\<lparr>wk_last_status := Some status, wk_wait := max (wk_wait wk) (retry_after after)\<rparr>) w'
          else (Inl (resp, index), w'))"

text \<open>
  Giving up: a throttle outranks a transport failure. \<open>HostUnreachable None\<close> is the failed
  assertion of an empty list of URLs.
\<close>

datatype give_up = RateLimited int | HostUnreachable "nat option"

definition give_up_of :: "walk \<Rightarrow> give_up" where
  "give_up_of wk =
     (case wk_last_status wk of Some s \<Rightarrow> RateLimited s | None \<Rightarrow> HostUnreachable (wk_last wk))"

text \<open>
  The laps: the wait of a lap starts at \<open>backoff * 2^lap\<close>, and only the last lap is not followed
  by a pause. \<open>laps\<close> counts the laps that are left.
\<close>

fun try_laps ::
  "('w, 'r) transport \<Rightarrow> rat \<Rightarrow> nat \<Rightarrow> pystr list \<Rightarrow> nat \<Rightarrow> walk \<Rightarrow> 'w \<Rightarrow> (give_up + ('r \<times> nat)) \<times> 'w"
where
  "try_laps tp backoff retries urls 0 wk w = (Inl (give_up_of wk), w)"
| "try_laps tp backoff retries urls (Suc left) wk w =
     (let lap = retries - left in
      case try_lap tp 0 urls (wk\<lparr>wk_wait := backoff * 2 ^ lap\<rparr>) w of
        (Inl found, w') \<Rightarrow> (Inr found, w')
      | (Inr wk', w') \<Rightarrow>
          try_laps tp backoff retries urls left wk'
            (if lap < retries then tp_sleep tp (wk_wait wk') w' else w'))"

definition attempt ::
  "('w, 'r) transport \<Rightarrow> rat \<Rightarrow> nat \<Rightarrow> pystr list \<Rightarrow> 'w \<Rightarrow> (give_up + ('r \<times> nat)) \<times> 'w" where
  "attempt tp backoff retries urls w =
     try_laps tp backoff retries urls (retries + 1)
       \<lparr>wk_last = None, wk_last_status = None, wk_wait = 0\<rparr> w"

definition get :: "('w, 'r) transport \<Rightarrow> rat \<Rightarrow> nat \<Rightarrow> pystr \<Rightarrow> 'w \<Rightarrow> (give_up + 'r) \<times> 'w" where
  "get tp backoff retries url w =
     (case attempt tp backoff retries [url] w of
        (Inl e, w') \<Rightarrow> (Inl e, w') | (Inr (resp, index), w') \<Rightarrow> (Inr resp, w'))"

section \<open>Failover\<close>

text \<open>\<open>FailoverHttpClient\<close>: the candidates, and the endpoint that is pinned.\<close>

record failover =
  fo_candidates :: "pystr list"
  fo_base_url :: pystr

definition rstrip_slash :: "pystr \<Rightarrow> pystr" where
  "rstrip_slash s = rev (dropWhile (\<lambda>c. c = 47) (rev s))"

definition new_failover :: "pystr list \<Rightarrow> failover option" where
  "new_failover urls =
     (case map rstrip_slash urls of
        [] \<Rightarrow> None
      | u # us \<Rightarrow> Some \<lparr>fo_candidates = u # us, fo_base_url = u\<rparr>)"

fun index_in :: "'a \<Rightarrow> 'a list \<Rightarrow> nat option" where
  "index_in x [] = None"
| "index_in x (y # ys) = (if x = y then Some 0 else map_option Suc (index_in x ys))"

definition ordered :: "failover \<Rightarrow> pystr list" where
  "ordered fo =
     (let start = (case index_in (fo_base_url fo) (fo_candidates fo) of None \<Rightarrow> 0 | Some i \<Rightarrow> i)
      in drop start (fo_candidates fo) @ take start (fo_candidates fo))"

definition get_with_fallback ::
  "('w, 'r) transport \<Rightarrow> rat \<Rightarrow> nat \<Rightarrow> failover \<Rightarrow> pystr \<Rightarrow> 'w \<Rightarrow> (give_up + 'r) \<times> failover \<times> 'w" where
  "get_with_fallback tp backoff retries fo path w =
     (case attempt tp backoff retries (map (\<lambda>base. base @ [47] @ path) (ordered fo)) w of
        (Inl e, w') \<Rightarrow> (Inl e, fo, w')
      | (Inr (resp, index), w') \<Rightarrow> (Inr resp, fo\<lparr>fo_base_url := ordered fo ! index\<rparr>, w'))"

section \<open>The walk, request by request\<close>

text \<open>The same transport in a world that also keeps a log: each request with its outcome, each pause.\<close>

datatype 'r event = Requested pystr "'r outcome" | Slept rat

definition logged :: "('w, 'r) transport \<Rightarrow> ('w \<times> 'r event list, 'r) transport" where
  "logged tp =
     \<lparr>tp_request = (\<lambda>url (w, ev).
        case tp_request tp url w of (oc, w') \<Rightarrow> (oc, (w', ev @ [Requested url oc]))),
      tp_sleep = (\<lambda>s (w, ev). (tp_sleep tp s w, ev @ [Slept s]))\<rparr>"

text \<open>The outcomes that make the walk go on, and what it remembers of them.\<close>

definition goes_on :: "'r outcome \<Rightarrow> bool" where
  "goes_on oc = (case oc of Transient e \<Rightarrow> True | Answered status after resp \<Rightarrow> status \<in> THROTTLE_STATUSES)"

definition asked_wait :: "'r outcome \<Rightarrow> rat" where
  "asked_wait oc = (case oc of Transient e \<Rightarrow> 0 | Answered status after resp \<Rightarrow> retry_after after)"

definition throttles :: "'r outcome list \<Rightarrow> int list" where
  "throttles ocs = concat (map (\<lambda>oc. case oc of Transient e \<Rightarrow> [] | Answered status after resp \<Rightarrow> [status]) ocs)"

definition transients :: "'r outcome list \<Rightarrow> nat list" where
  "transients ocs = concat (map (\<lambda>oc. case oc of Transient e \<Rightarrow> [e] | Answered status after resp \<Rightarrow> []) ocs)"

definition last_of :: "'a list \<Rightarrow> 'a option" where
  "last_of xs = (if xs = [] then None else Some (last xs))"

text \<open>Why a walk over these outcomes gives up: its last throttle, or else its last transport failure.\<close>

definition gave_up :: "'r outcome list \<Rightarrow> give_up" where
  "gave_up ocs =
     (case last_of (throttles ocs) of
        Some s \<Rightarrow> RateLimited s | None \<Rightarrow> HostUnreachable (last_of (transients ocs)))"

text \<open>
  The pause after the lap number \<open>k\<close> that ended in these outcomes, and the log of whole laps, each
  with its pause: every URL in order, then the pause.
\<close>

definition lap_pause :: "rat \<Rightarrow> nat \<Rightarrow> 'r outcome list \<Rightarrow> rat" where
  "lap_pause backoff k ocs = fold max (map asked_wait ocs) (backoff * 2 ^ k)"

fun whole_laps :: "rat \<Rightarrow> pystr list \<Rightarrow> nat \<Rightarrow> 'r outcome list list \<Rightarrow> 'r event list" where
  "whole_laps backoff urls k [] = []"
| "whole_laps backoff urls k (ocs # laps) =
     map2 Requested urls ocs @ [Slept (lap_pause backoff k ocs)] @ whole_laps backoff urls (Suc k) laps"

lemma retry_after_bounds: "0 \<le> retry_after s \<and> retry_after s \<le> 30"
  by (simp add: retry_after_def MAX_RETRY_AFTER_def)

lemma fold_max_bounds:
  fixes p :: rat
  shows "p \<le> fold max (map asked_wait ocs) p \<and> fold max (map asked_wait ocs) p \<le> max p 30"
proof (induction ocs arbitrary: p)
  case Nil
  then show ?case by simp
next
  case (Cons oc ocs)
  have "asked_wait oc \<le> 30"
    using retry_after_bounds by (auto simp: asked_wait_def split: outcome.split)
  with Cons [of "max (asked_wait oc) p"] show ?case by (auto simp: max_def split: if_splits)
qed

definition remembers :: "walk \<Rightarrow> 'r outcome list \<Rightarrow> bool" where
  "remembers wk ocs \<longleftrightarrow> wk_last wk = last_of (transients ocs) \<and> wk_last_status wk = last_of (throttles ocs)"

lemma give_up_of_remembered: "remembers wk ocs \<Longrightarrow> give_up_of wk = gave_up ocs"
  by (auto simp: remembers_def give_up_of_def gave_up_def split: option.split)

lemma remembers_step:
  "remembers wk ocs \<Longrightarrow> remembers (wk\<lparr>wk_last := Some e\<rparr>) (ocs @ [Transient e])"
  "remembers wk ocs \<Longrightarrow>
     remembers (wk\<lparr>wk_last_status := Some s, wk_wait := p\<rparr>) (ocs @ [Answered s after resp])"
  by (auto simp: remembers_def last_of_def throttles_def transients_def)

definition lap_outcome ::
  "pystr list \<Rightarrow> nat \<Rightarrow> walk \<Rightarrow> 'r outcome list \<Rightarrow> ('r \<times> nat) + walk \<Rightarrow> 'r event list \<Rightarrow> bool" where
  "lap_outcome urls k wk seen res new \<longleftrightarrow>
     (\<exists>ocs. list_all goes_on ocs \<and>
       (case res of
          Inl (resp, i) \<Rightarrow> k \<le> i \<and> i < k + length urls \<and> length ocs = i - k \<and>
            (\<exists>status after. status \<notin> THROTTLE_STATUSES \<and>
               new = map2 Requested (take (Suc (i - k)) urls) (ocs @ [Answered status after resp]))
        | Inr wk' \<Rightarrow> length ocs = length urls \<and> new = map2 Requested urls ocs \<and>
            wk_wait wk' = fold max (map asked_wait ocs) (wk_wait wk) \<and> remembers wk' (seen @ ocs)))"

lemma lap_outcome_Cons:
  assumes "lap_outcome urls (Suc k) wk1 (seen @ [oc]) res new" "goes_on oc"
    and "wk_wait wk1 = max (asked_wait oc) (wk_wait wk)"
  shows "lap_outcome (url # urls) k wk seen res (Requested url oc # new)"
proof -
  from assms(1) obtain ocs where ocs: "list_all goes_on ocs"
    "case res of
          Inl (resp, i) \<Rightarrow> Suc k \<le> i \<and> i < Suc k + length urls \<and> length ocs = i - Suc k \<and>
            (\<exists>status after. status \<notin> THROTTLE_STATUSES \<and>
               new = map2 Requested (take (Suc (i - Suc k)) urls) (ocs @ [Answered status after resp]))
        | Inr wk' \<Rightarrow> length ocs = length urls \<and> new = map2 Requested urls ocs \<and>
            wk_wait wk' = fold max (map asked_wait ocs) (wk_wait wk1) \<and> remembers wk' ((seen @ [oc]) @ ocs)"
    unfolding lap_outcome_def by blast
  show ?thesis
    unfolding lap_outcome_def
  proof (intro exI [of _ "oc # ocs"] conjI)
    show "list_all goes_on (oc # ocs)" using ocs(1) assms(2) by simp
    show "case res of
          Inl (resp, i) \<Rightarrow> k \<le> i \<and> i < k + length (url # urls) \<and> length (oc # ocs) = i - k \<and>
            (\<exists>status after. status \<notin> THROTTLE_STATUSES \<and>
               Requested url oc # new
               = map2 Requested (take (Suc (i - k)) (url # urls)) ((oc # ocs) @ [Answered status after resp]))
        | Inr wk' \<Rightarrow> length (oc # ocs) = length (url # urls) \<and>
            Requested url oc # new = map2 Requested (url # urls) (oc # ocs) \<and>
            wk_wait wk' = fold max (map asked_wait (oc # ocs)) (wk_wait wk) \<and>
            remembers wk' (seen @ oc # ocs)"
      using ocs(2) assms(3)
      by (cases res) (auto simp: Suc_diff_Suc Suc_le_eq dest!: Suc_le_D, blast+)
  qed
qed

lemma try_lap_log:
  "try_lap (logged tp) k urls wk (w, ev) = (res, (w', ev')) \<Longrightarrow> 0 \<le> wk_wait wk \<Longrightarrow> remembers wk seen \<Longrightarrow>
   \<exists>new. ev' = ev @ new \<and> lap_outcome urls k wk seen res new"
proof (induction urls arbitrary: k wk w ev seen)
  case Nil
  then show ?case by (auto simp: lap_outcome_def)
next
  case (Cons url urls)
  obtain oc u where r: "tp_request tp url w = (oc, u)" by (cases "tp_request tp url w")
  show ?case
  proof (cases "goes_on oc")
    case True
    obtain wk1 where
      lap: "try_lap (logged tp) (Suc k) urls wk1 (u, ev @ [Requested url oc]) = (res, (w', ev'))"
      and wk1: "wk_wait wk1 = max (asked_wait oc) (wk_wait wk)" "remembers wk1 (seen @ [oc])"
      using Cons.prems r True
      by (cases oc) (auto simp: logged_def goes_on_def asked_wait_def max.commute remembers_step)
    have "0 \<le> wk_wait wk1" using wk1(1) Cons.prems(2) by simp
    from Cons.IH [OF lap this wk1(2)] obtain new where
      "ev' = (ev @ [Requested url oc]) @ new" "lap_outcome urls (Suc k) wk1 (seen @ [oc]) res new" by blast
    with lap_outcome_Cons [OF _ True wk1(1)] show ?thesis
      by (intro exI [of _ "Requested url oc # new"]) auto
  next
    case False
    then obtain status after resp where oc: "oc = Answered status after resp" "status \<notin> THROTTLE_STATUSES"
      by (cases oc) (auto simp: goes_on_def)
    with Cons.prems(1) r have "res = Inl (resp, k)" "ev' = ev @ [Requested url oc]"
      by (auto simp: logged_def)
    with oc show ?thesis
      by (intro exI [of _ "[Requested url oc]"]) (auto simp: lap_outcome_def intro!: exI [of _ "[]"])
  qed
qed

text \<open>An endpoint that answers whatever happened before.\<close>

definition answers :: "('w, 'r) transport \<Rightarrow> pystr \<Rightarrow> bool" where
  "answers tp url \<longleftrightarrow>
     (\<forall>w. \<exists>status after resp w'. tp_request tp url w = (Answered status after resp, w')
        \<and> status \<notin> THROTTLE_STATUSES)"

lemma answers_logged: "answers tp url \<Longrightarrow> answers (logged tp) url"
  unfolding answers_def logged_def by (auto split: prod.split) (metis Pair_inject)

lemma try_lap_live:
  "url \<in> set urls \<Longrightarrow> answers tp url \<Longrightarrow> \<exists>resp i w'. try_lap tp k urls wk w = (Inl (resp, i), w')"
proof (induction urls arbitrary: k wk w)
  case Nil
  then show ?case by simp
next
  case (Cons u urls)
  show ?case
  proof (cases "u = url")
    case True
    then obtain status after resp w' where "tp_request tp u w = (Answered status after resp, w')"
      "status \<notin> THROTTLE_STATUSES"
      using Cons.prems(2) by (metis answers_def)
    then show ?thesis by simp
  next
    case False
    then have "url \<in> set urls" using Cons.prems(1) by simp
    note ih = Cons.IH [OF this Cons.prems(2)]
    show ?thesis by (auto split: prod.split outcome.split simp: ih)
  qed
qed

text \<open>What a whole walk did: its full laps, then the last lap.\<close>

definition walk_outcome ::
  "rat \<Rightarrow> nat \<Rightarrow> pystr list \<Rightarrow> nat \<Rightarrow> 'r outcome list \<Rightarrow> 'r outcome list list \<Rightarrow> give_up + ('r \<times> nat)
   \<Rightarrow> 'r event list \<Rightarrow> bool" where
  "walk_outcome backoff left urls k seen laps res new \<longleftrightarrow>
     list_all (\<lambda>ocs. length ocs = length urls \<and> list_all goes_on ocs) laps
     \<and> (\<exists>ocs. list_all goes_on ocs \<and>
       (case res of
          Inl e \<Rightarrow> length laps = left \<and> length ocs = length urls \<and> e = gave_up (seen @ concat laps @ ocs) \<and>
            new = whole_laps backoff urls k laps @ map2 Requested urls ocs
        | Inr (resp, i) \<Rightarrow> length laps \<le> left \<and> i < length urls \<and> length ocs = i \<and>
            (\<exists>status after. status \<notin> THROTTLE_STATUSES \<and>
               new = whole_laps backoff urls k laps
                 @ map2 Requested (take (Suc i) urls) (ocs @ [Answered status after resp]))))"

lemma walk_outcome_Cons:
  assumes "walk_outcome backoff left urls (Suc k) (seen @ ocs) laps res new"
    and "length ocs = length urls" "list_all goes_on ocs"
  shows "walk_outcome backoff (Suc left) urls k seen (ocs # laps) res
    (map2 Requested urls ocs @ [Slept (lap_pause backoff k ocs)] @ new)"
  using assms unfolding walk_outcome_def by (cases res) fastforce+

lemma try_laps_log:
  "try_laps (logged tp) backoff retries urls (Suc left) wk (w, ev) = (res, (w', ev')) \<Longrightarrow>
   left \<le> retries \<Longrightarrow> 0 \<le> backoff \<Longrightarrow> remembers wk seen \<Longrightarrow>
   \<exists>laps new. ev' = ev @ new \<and> walk_outcome backoff left urls (retries - left) seen laps res new
     \<and> ((\<exists>url\<in>set urls. answers tp url) \<longrightarrow> laps = [] \<and> (\<exists>resp i. res = Inr (resp, i)))"
proof (induction left arbitrary: wk w ev seen)
  case 0
  let ?wk = "wk\<lparr>wk_wait := backoff * 2 ^ retries\<rparr>"
  obtain found u ev1 where lap: "try_lap (logged tp) 0 urls ?wk (w, ev) = (found, (u, ev1))"
    by (metis prod.exhaust)
  have wk: "0 \<le> wk_wait ?wk" "remembers ?wk seen" using 0 by (simp_all add: remembers_def)
  from try_lap_log [OF lap wk] obtain new where
    l: "ev1 = ev @ new" "lap_outcome urls 0 ?wk seen found new" by blast
  show ?case
  proof (cases found)
    case (Inl f)
    obtain resp i where f: "f = (resp, i)" by (cases f)
    have "res = Inr (resp, i)" "ev' = ev1" using 0(1) lap Inl f by (simp_all add: Let_def)
    with l Inl f show ?thesis
      by (intro exI [of _ "[]"] exI [of _ new]) (auto simp: lap_outcome_def walk_outcome_def)
  next
    case (Inr wk')
    have "res = Inl (give_up_of wk')" "ev' = ev1" using 0(1) lap Inr by (simp_all add: Let_def)
    moreover have "\<not> (\<exists>url\<in>set urls. answers tp url)"
      using try_lap_live [OF _ answers_logged, of _ urls tp 0 ?wk "(w, ev)"] lap Inr by fastforce
    ultimately show ?thesis using l Inr give_up_of_remembered
      by (intro exI [of _ "[]"] exI [of _ new]) (fastforce simp: lap_outcome_def walk_outcome_def)
  qed
next
  case (Suc left)
  let ?lap = "retries - Suc left"
  let ?wk = "wk\<lparr>wk_wait := backoff * 2 ^ ?lap\<rparr>"
  obtain found u ev1 where lap: "try_lap (logged tp) 0 urls ?wk (w, ev) = (found, (u, ev1))"
    by (metis prod.exhaust)
  have wk: "0 \<le> wk_wait ?wk" "remembers ?wk seen" using Suc.prems by (simp_all add: remembers_def)
  from try_lap_log [OF lap wk] obtain new where
    l: "ev1 = ev @ new" "lap_outcome urls 0 ?wk seen found new" by blast
  note run = Suc.prems(1) [unfolded try_laps.simps(2) [of _ _ _ _ "Suc left"] Let_def lap]
  show ?case
  proof (cases found)
    case (Inl f)
    obtain resp i where f: "f = (resp, i)" by (cases f)
    have "res = Inr (resp, i)" "ev' = ev1" using run Inl f by simp_all
    with l Inl f show ?thesis
      by (intro exI [of _ "[]"] exI [of _ new]) (auto simp: lap_outcome_def walk_outcome_def)
  next
    case (Inr wk')
    from l(2) Inr obtain ocs where ocs: "list_all goes_on ocs" "length ocs = length urls"
      "new = map2 Requested urls ocs" "wk_wait wk' = lap_pause backoff ?lap ocs" "remembers wk' (seen @ ocs)"
      by (auto simp: lap_outcome_def lap_pause_def)
    have next_lap: "try_laps (logged tp) backoff retries urls (Suc left) wk'
        (tp_sleep tp (wk_wait wk') u, ev1 @ [Slept (wk_wait wk')]) = (res, (w', ev'))"
      using run Inr Suc.prems(2) by (simp add: logged_def del: try_laps.simps)
    have k: "retries - left = Suc ?lap" using Suc.prems(2) by simp
    from Suc.IH [OF next_lap _ Suc.prems(3) ocs(5)] Suc.prems(2) obtain laps new' where
      n: "ev' = (ev1 @ [Slept (wk_wait wk')]) @ new'"
      "walk_outcome backoff left urls (Suc ?lap) (seen @ ocs) laps res new'"
      unfolding k by auto
    moreover have "\<not> (\<exists>url\<in>set urls. answers tp url)"
      using try_lap_live [OF _ answers_logged, of _ urls tp 0 ?wk "(w, ev)"] lap Inr by fastforce
    ultimately show ?thesis using walk_outcome_Cons [OF n(2) ocs(2,1)] l(1) ocs(3,4)
      by (intro exI [of _ "ocs # laps"]
          exI [of _ "map2 Requested urls ocs @ [Slept (lap_pause backoff ?lap ocs)] @ new'"]) simp
  qed
qed

text \<open>
  C13: A read is polite, request by request. Whatever the network does, the log of one read is a
  number of whole laps, at most \<open>retries\<close>, followed by one last lap without a pause. A whole lap asks
  every URL once, in the order of the list, gets a transport failure or a throttling status from
  each, and only then pauses, once: for the backoff doubled per lap, or for the longest
  \<open>Retry-After\<close> its endpoints asked for if that is longer, of which at most 30 seconds are honoured.
  An answer is the first one that neither failed nor was throttled, given by the endpoint whose
  index is returned, after which nothing more is asked; a read that gives up has asked every
  endpoint \<open>retries + 1\<close> times and reports its last throttle, or its last transport failure if nobody
  throttled. And if some endpoint answers, the read succeeds in its first lap, without a pause.
\<close>

theorem attempt_bounded:
  fixes tp :: "('w, 'r) transport"
  assumes "0 \<le> backoff" "attempt (logged tp) backoff retries urls (w, []) = (res, (w', ev))"
  shows "\<exists>laps ocs. list_all (\<lambda>ocs. length ocs = length urls \<and> list_all goes_on ocs) laps
    \<and> list_all goes_on ocs
    \<and> (case res of
         Inl e \<Rightarrow> length laps = retries \<and> length ocs = length urls
           \<and> ev = whole_laps backoff urls 0 laps @ map2 Requested urls ocs
           \<and> e = gave_up (concat laps @ ocs)
       | Inr (resp, i) \<Rightarrow> length laps \<le> retries \<and> i < length urls \<and> length ocs = i
           \<and> (\<exists>status after. status \<notin> THROTTLE_STATUSES
                \<and> ev = whole_laps backoff urls 0 laps
                    @ map2 Requested (take (Suc i) urls) (ocs @ [Answered status after resp])))
    \<and> (\<forall>k<length laps. backoff * 2 ^ k \<le> lap_pause backoff k (laps ! k)
         \<and> lap_pause backoff k (laps ! k) \<le> max (backoff * 2 ^ k) 30)
    \<and> ((\<exists>url\<in>set urls. answers tp url) \<longrightarrow> laps = [] \<and> (\<exists>resp i. res = Inr (resp, i)))"
proof -
  let ?wk = "\<lparr>wk_last = None, wk_last_status = None, wk_wait = 0\<rparr>"
  have "remembers ?wk ([] :: 'r outcome list)"
    by (simp add: remembers_def last_of_def throttles_def transients_def)
  from try_laps_log [OF assms(2) [unfolded attempt_def Suc_eq_plus1 [symmetric]] order_refl assms(1) this]
  obtain laps where laps: "walk_outcome backoff retries urls 0 [] laps res ev"
    "(\<exists>url\<in>set urls. answers tp url) \<longrightarrow> laps = [] \<and> (\<exists>resp i. res = Inr (resp, i))" by auto
  have "\<forall>k<length laps. backoff * 2 ^ k \<le> lap_pause backoff k (laps ! k)
      \<and> lap_pause backoff k (laps ! k) \<le> max (backoff * 2 ^ k) 30"
    unfolding lap_pause_def using fold_max_bounds by blast
  with laps show ?thesis
    unfolding walk_outcome_def by (intro exI [of _ laps]) (fastforce split: sum.splits)
qed

text \<open>A dead first explorer and one that throttles.\<close>

definition ex_transport :: "(unit, nat) transport" where
  "ex_transport =
     \<lparr>tp_request = (\<lambda>url w. (if url = lit ''a'' then Transient 0
                              else if url = lit ''b'' then Answered 429 3600 1 else Answered 200 0 7, w)),
      tp_sleep = (\<lambda>s w. w)\<rparr>"

lemma attempt_bounded_witness:
  "\<exists>ev w' laps ocs. attempt (logged ex_transport) 1 2 [lit ''a'', lit ''b''] ((), [])
       = (Inl (RateLimited 429), (w', ev))
     \<and> length laps = 2 \<and> Slept 30 \<in> set ev
     \<and> ev = whole_laps 1 [lit ''a'', lit ''b''] 0 laps @ map2 Requested [lit ''a'', lit ''b''] ocs"
proof -
  let ?run = "attempt (logged ex_transport) 1 2 [lit ''a'', lit ''b''] ((), [])"
  let ?lap = "[Requested (lit ''a'') (Transient 0), Requested (lit ''b'') (Answered 429 3600 (1 :: nat))]"
  let ?ev = "?lap @ [Slept 30] @ ?lap @ [Slept 30] @ ?lap"
  have run: "?run = (Inl (RateLimited 429), ((), ?ev))"
    by (simp add: attempt_def numeral_2_eq_2 logged_def ex_transport_def Let_def THROTTLE_STATUSES_def
        retry_after_def MAX_RETRY_AFTER_def give_up_of_def lit_def)
  have "(0 :: rat) \<le> 1" by simp
  from attempt_bounded [OF this run] obtain laps ocs where
    "length laps = 2" "?ev = whole_laps 1 [lit ''a'', lit ''b''] 0 laps @ map2 Requested [lit ''a'', lit ''b''] ocs"
    unfolding sum.case by blast
  moreover have "Slept 30 \<in> set ?ev" by simp
  ultimately show ?thesis using run by blast
qed

section \<open>The pinned endpoint\<close>

lemma index_in_less: "index_in x xs = Some i \<Longrightarrow> i < length xs \<and> xs ! i = x"
  by (induction xs arbitrary: i) (auto split: if_splits)

lemma length_ordered: "length (ordered fo) = length (fo_candidates fo)"
  using index_in_less [of "fo_base_url fo" "fo_candidates fo"]
  by (auto simp: ordered_def Let_def split: option.splits)

lemma set_ordered: "set (ordered fo) = set (fo_candidates fo)"
proof -
  have "set (drop n xs @ take n xs) = set xs" for n and xs :: "pystr list"
    using set_append [of "take n xs" "drop n xs"] by auto
  then show ?thesis by (simp add: ordered_def Let_def)
qed

lemma try_lap_index: "try_lap tp k urls wk w = (Inl (resp, i), w') \<Longrightarrow> i < k + length urls"
  by (induction tp k urls wk w rule: try_lap.induct)
     (fastforce split: prod.splits outcome.splits if_splits)+

lemma try_laps_index:
  "try_laps tp backoff retries urls left wk w = (Inr (resp, i), w') \<Longrightarrow> i < length urls"
  by (induction left arbitrary: wk w)
     (auto simp: Let_def split: prod.splits sum.splits dest: try_lap_index)

text \<open>
  The candidates never change, the pinned endpoint is always one of them, a failed read leaves it
  where it was, and a read starts at the pinned endpoint.
\<close>

lemma get_with_fallback_pinned:
  assumes "get_with_fallback tp backoff retries fo path w = (res, fo', w')"
    and "fo_base_url fo \<in> set (fo_candidates fo)"
  shows "fo_candidates fo' = fo_candidates fo \<and> fo_base_url fo' \<in> set (fo_candidates fo')
    \<and> (\<forall>e. res = Inl e \<longrightarrow> fo' = fo)"
proof -
  have pinned: "ordered fo ! i \<in> set (fo_candidates fo)" if "i < length (ordered fo)" for i
    using nth_mem [OF that] by (simp only: set_ordered)
  let ?urls = "map (\<lambda>base. base @ [47] @ path) (ordered fo)"
  show ?thesis
  proof (cases "fst (attempt tp backoff retries ?urls w)")
    case (Inl e)
    with assms show ?thesis by (auto simp: get_with_fallback_def split: prod.splits)
  next
    case (Inr found)
    obtain resp i where f: "found = (resp, i)" by (cases found)
    with Inr obtain u where a: "attempt tp backoff retries ?urls w = (Inr (resp, i), u)"
      by (cases "attempt tp backoff retries ?urls w") auto
    then have "i < length (ordered fo)"
      using try_laps_index [OF a [unfolded attempt_def]] by simp
    from pinned [OF this] a assms(1) show ?thesis by (auto simp: get_with_fallback_def)
  qed
qed

end
