(* ===== verification/Cow.thy ===== *)
theory Cow
  imports Thorchain
begin

text \<open>
  CoW Protocol orders: the gate of \<open>src/swapsack/verify.py\<close> over an order, and the quotes, the
  order builder, the client and the backend of \<open>src/swapsack/cow.py\<close>. An order is a decoded JSON
  object. The ISO date parser of \<open>datetime\<close> and the HTTP layer are parameters; EIP-712 signing is
  eth-account's and not modelled.
\<close>

section \<open>The gate\<close>

definition COW_ZERO_APP_DATA :: pystr where
  "COW_ZERO_APP_DATA = lit ''0x'' @ concat (replicate 32 (lit ''00''))"

definition COW_MAX_ORDER_VALIDITY :: int where
  "COW_MAX_ORDER_VALIDITY = 7200"

record cow_order_plan =
  co_sell_token :: pystr
  co_buy_token :: pystr
  co_receiver :: pystr
  co_sell_amount :: int
  co_min_buy_amount :: int
  co_expiry :: int
  co_max_validity :: int

type_synonym order = "(pystr \<times> json) list"

datatype cow_problem =
  CowSellToken json pystr
| CowBuyToken json pystr
| CowReceiver json pystr
| CowZeroReceiver
| CowSellAmount json int
| CowBuyAmount json int
| CowFee json
| CowKind json
| CowPartiallyFillable
| CowBalance pystr json
| CowAppData json
| CowExpired int int
| CowTooFarAway int int

definition addr_eq :: "json \<Rightarrow> pystr \<Rightarrow> bool" where
  "addr_eq a b = (case a of JStr s \<Rightarrow> py_lower s = py_lower b | _ \<Rightarrow> False)"

definition zero_receiver :: "json \<Rightarrow> bool" where
  "zero_receiver receiver =
     (case receiver of
        JStr s \<Rightarrow> set (py_removeprefix (lit ''0x'') (py_lower s)) \<subseteq> {48}
      | _ \<Rightarrow> False)"

definition order_int :: "order \<Rightarrow> pystr \<Rightarrow> int \<Rightarrow> py_error + int" where
  "order_int order key dflt = json_int (dget_or order key (JInt dflt))"

definition verify_cow_order :: "order \<Rightarrow> cow_order_plan \<Rightarrow> int \<Rightarrow> py_error + cow_problem list" where
  "verify_cow_order order plan now =
     (let receiver = dget order (lit ''receiver''); app_data = dget order (lit ''appData'') in
      bind_res (order_int order (lit ''sellAmount'') (- 1)) (\<lambda>sell_amount.
      bind_res (order_int order (lit ''buyAmount'') (- 1)) (\<lambda>buy_amount.
      bind_res (order_int order (lit ''feeAmount'') (- 1)) (\<lambda>fee_amount.
      bind_res (order_int order (lit ''validTo'') 0) (\<lambda>valid_to.
        Inr ((if \<not> addr_eq (dget order (lit ''sellToken'')) (co_sell_token plan)
              then [CowSellToken (dget order (lit ''sellToken'')) (co_sell_token plan)] else [])
          @ (if \<not> addr_eq (dget order (lit ''buyToken'')) (co_buy_token plan)
             then [CowBuyToken (dget order (lit ''buyToken'')) (co_buy_token plan)] else [])
          @ (if \<not> addr_eq receiver (co_receiver plan) then [CowReceiver receiver (co_receiver plan)] else [])
          @ (if zero_receiver receiver then [CowZeroReceiver] else [])
          @ (if sell_amount \<noteq> co_sell_amount plan
             then [CowSellAmount (dget order (lit ''sellAmount'')) (co_sell_amount plan)] else [])
          @ (if buy_amount < co_min_buy_amount plan
             then [CowBuyAmount (dget order (lit ''buyAmount'')) (co_min_buy_amount plan)] else [])
          @ (if fee_amount \<noteq> 0 then [CowFee (dget order (lit ''feeAmount''))] else [])
          @ (if dget order (lit ''kind'') \<noteq> JStr (lit ''sell'') then [CowKind (dget order (lit ''kind''))] else [])
          @ (if dget order (lit ''partiallyFillable'') \<noteq> JBool False then [CowPartiallyFillable] else [])
          @ concat (map (\<lambda>side. if dget order side \<noteq> JStr (lit ''erc20'')
                                then [CowBalance side (dget order side)] else [])
              [lit ''sellTokenBalance'', lit ''buyTokenBalance''])
          @ (if (case app_data of JStr s \<Rightarrow> py_lower s \<noteq> COW_ZERO_APP_DATA | _ \<Rightarrow> True)
             then [CowAppData app_data] else [])
          @ (if valid_to \<le> now then [CowExpired valid_to now]
             else if now + co_max_validity plan < valid_to
             then [CowTooFarAway valid_to (co_max_validity plan)] else [])))))))"

section \<open>Quotes\<close>

definition DEFAULT_COW_TOLERANCE_BPS :: int where
  "DEFAULT_COW_TOLERANCE_BPS = 50"

definition NATIVE_ETH :: pystr where
  "NATIVE_ETH = lit ''0xEeeeeEeeeEeEeeEeEeEeeEEEeeeeEeeeeeeeEEeE''"

definition TRACKED_TOKENS :: "(pystr \<times> pystr \<times> nat) list" where
  "TRACKED_TOKENS =
     [(lit ''USDT'', lit ''0xdac17f958d2ee523a2206206994597c13d831ec7'', 6),
      (lit ''USDC'', lit ''0xa0b86991c6218b36c1d19d4a2e9eb0ce3606eb48'', 6)]"

definition erc20_cow_assets :: "(pystr \<times> pystr \<times> nat) list \<Rightarrow> (pystr \<times> (pystr \<times> nat)) list" where
  "erc20_cow_assets tracked_tokens =
     map (\<lambda>(symbol, contract, decimals).
       (lit ''ETH.'' @ symbol @ lit ''-0X'' @ py_upper (drop 2 contract), (contract, decimals)))
       tracked_tokens"

definition COW_ASSETS :: "(pystr \<times> (pystr \<times> nat)) list" where
  "COW_ASSETS = dict_of (erc20_cow_assets TRACKED_TOKENS @ [(lit ''ETH.ETH'', (NATIVE_ETH, 18))])"

record cow_quote =
  cq_sell_token :: json
  cq_buy_token :: json
  cq_receiver :: json
  cq_sell_amount :: int
  cq_fee_amount :: int
  cq_buy_amount :: int
  cq_valid_to :: int
  cq_quote_id :: json
  cq_expiry :: int
  cq_verified :: bool
  cq_expected_amount_out :: int
  cq_fees :: swap_fees
  cq_raw :: json

definition sell_amount_total :: "cow_quote \<Rightarrow> int" where
  "sell_amount_total q = cq_sell_amount q + cq_fee_amount q"

text \<open>
  \<open>isodate\<close> is \<open>datetime.fromisoformat\<close> of a text, read as UTC, as epoch seconds; a value that is no
  string has no \<open>split\<close>.
\<close>

definition parse_expiration :: "(pystr \<Rightarrow> py_error + int) \<Rightarrow> json \<Rightarrow> py_error + int" where
  "parse_expiration isodate stamp =
     (case stamp of JStr s \<Rightarrow> isodate (before_sep 46 s) | _ \<Rightarrow> Inl AttributeError)"

definition parse_cow_quote_fields ::
  "(pystr \<Rightarrow> py_error + int) \<Rightarrow> json \<Rightarrow> pystr \<Rightarrow> nat \<Rightarrow> py_error + cow_quote" where
  "parse_cow_quote_fields isodate payload to_asset buy_decimals =
     bind_res (jindex payload (lit ''quote'')) (\<lambda>quote.
     bind_res (jint_at quote (lit ''sellAmount'')) (\<lambda>sell_amount.
     bind_res (jint_at quote (lit ''feeAmount'')) (\<lambda>fee_amount.
     bind_res (jint_at quote (lit ''buyAmount'')) (\<lambda>buy_amount.
     let buy_unit = 10 ^ buy_decimals;
         expected_out = buy_amount * THORCHAIN_UNIT div buy_unit;
         fee_in_buy = (if sell_amount \<noteq> 0 then fee_amount * buy_amount div sell_amount else 0);
         fee_out = fee_in_buy * THORCHAIN_UNIT div buy_unit;
         total_in = sell_amount + fee_amount;
         fees = \<lparr>sf_asset = JStr to_asset, sf_outbound = fee_out, sf_affiliate = 0, sf_liquidity = 0,
                  sf_total = fee_out, sf_slippage_bps = 0,
                  sf_total_bps = (if total_in \<noteq> 0 then 10000 * fee_amount div total_in else 0)\<rparr> in
     bind_res (jindex quote (lit ''sellToken'')) (\<lambda>sell_token.
     bind_res (jindex quote (lit ''buyToken'')) (\<lambda>buy_token.
     bind_res (jget_or quote (lit ''receiver'') (JStr [])) (\<lambda>receiver.
     bind_res (jint_at quote (lit ''validTo'')) (\<lambda>valid_to.
     bind_res (jget payload (lit ''id'')) (\<lambda>quote_id.
     bind_res (jindex payload (lit ''expiration'')) (\<lambda>expiration.
     bind_res (parse_expiration isodate expiration) (\<lambda>expiry.
     bind_res (jget_or payload (lit ''verified'') (JBool False)) (\<lambda>verified.
       Inr \<lparr>cq_sell_token = sell_token, cq_buy_token = buy_token, cq_receiver = receiver,
            cq_sell_amount = sell_amount, cq_fee_amount = fee_amount, cq_buy_amount = buy_amount,
            cq_valid_to = valid_to, cq_quote_id = quote_id, cq_expiry = expiry,
            cq_verified = json_truthy verified, cq_expected_amount_out = expected_out,
            cq_fees = fees, cq_raw = payload\<rparr>))))))))))))"

definition parse_cow_quote ::
  "(pystr \<Rightarrow> py_error + int) \<Rightarrow> json \<Rightarrow> pystr \<Rightarrow> nat \<Rightarrow> 'p exn + cow_quote" where
  "parse_cow_quote isodate payload to_asset buy_decimals =
     bind_res (py_res (jhas (lit ''errorType'') payload)) (\<lambda>err.
       if err then
         bind_res (py_res (jindex payload (lit ''errorType''))) (\<lambda>kind.
         bind_res (py_res (jget_or payload (lit ''description'') (JStr []))) (\<lambda>description.
           Inl (CowError (ApiError kind description))))
       else
         case parse_cow_quote_fields isodate payload to_asset buy_decimals of
           Inr q \<Rightarrow> Inr q
         | Inl e \<Rightarrow>
             Inl (if e \<in> {KeyError, TypeError, ValueError} then CowError (MalformedQuote e) else PyExn e))"

definition build_order :: "cow_quote \<Rightarrow> int \<Rightarrow> order" where
  "build_order q tolerance_bps =
     [(lit ''sellToken'', cq_sell_token q),
      (lit ''buyToken'', cq_buy_token q),
      (lit ''receiver'', cq_receiver q),
      (lit ''sellAmount'', JStr (dec_int (sell_amount_total q))),
      (lit ''buyAmount'', JStr (dec_int (cq_buy_amount q * (10000 - tolerance_bps) div 10000))),
      (lit ''validTo'', JInt (cq_valid_to q)),
      (lit ''appData'', JStr COW_ZERO_APP_DATA),
      (lit ''feeAmount'', JStr (lit ''0'')),
      (lit ''kind'', JStr (lit ''sell'')),
      (lit ''partiallyFillable'', JBool False),
      (lit ''sellTokenBalance'', JStr (lit ''erc20'')),
      (lit ''buyTokenBalance'', JStr (lit ''erc20''))]"

section \<open>The client and the backend\<close>

type_synonym ('w, 'p) post = "pystr \<Rightarrow> (pystr \<times> json) list \<Rightarrow> ('w, 'p, response) io"

definition json_or_error :: "response \<Rightarrow> ('w, 'p, json) io" where
  "json_or_error resp =
     (if 400 \<le> rs_status resp then
        (case rs_json resp of
           None \<Rightarrow> raise HttpError
         | Some payload \<Rightarrow>
             and_then (of_py (jget_or payload (lit ''errorType'') (JInt (rs_status resp)))) (\<lambda>kind.
             and_then (of_py (jget_or payload (lit ''description'') (JStr (rs_text resp)))) (\<lambda>description.
               raise (CowError (ApiError kind description)))))
      else resp_json resp)"

definition cow_client_quote ::
  "('w, 'p) post \<Rightarrow> pystr \<Rightarrow> pystr \<Rightarrow> pystr \<Rightarrow> int \<Rightarrow> pystr \<Rightarrow> pystr \<Rightarrow> ('w, 'p, json) io" where
  "cow_client_quote post base_url sell_token buy_token sell_amount from_address receiver =
     and_then (post (base_url @ lit ''/quote'')
       [(lit ''sellToken'', JStr sell_token), (lit ''buyToken'', JStr buy_token),
        (lit ''from'', JStr from_address), (lit ''receiver'', JStr receiver),
        (lit ''kind'', JStr (lit ''sell'')), (lit ''sellAmountBeforeFee'', JStr (dec_int sell_amount))])
       json_or_error"

definition cow_submit_order ::
  "('w, 'p) post \<Rightarrow> pystr \<Rightarrow> order \<Rightarrow> pystr \<Rightarrow> pystr \<Rightarrow> json \<Rightarrow> ('w, 'p, json) io" where
  "cow_submit_order post base_url order signature from_address quote_id =
     (let payload = foldl (\<lambda>d (k, v). AList.update k v d) order
            [(lit ''signingScheme'', JStr (lit ''eip712'')), (lit ''signature'', JStr signature),
             (lit ''from'', JStr from_address)];
          payload = (if quote_id \<noteq> JNull then AList.update (lit ''quoteId'') quote_id payload else payload)
      in and_then (post (base_url @ lit ''/orders'') payload) json_or_error)"

definition cow_order_status :: "('w, 'p) fetch \<Rightarrow> pystr \<Rightarrow> pystr \<Rightarrow> ('w, 'p, json) io" where
  "cow_order_status get base_url uid = and_then (get (base_url @ lit ''/orders/'' @ uid) []) json_or_error"

definition sell_units :: "int \<Rightarrow> nat \<Rightarrow> int" where
  "sell_units amount sell_decimals = amount * 10 ^ sell_decimals div THORCHAIN_UNIT"

definition quote_pair ::
  "(pystr \<Rightarrow> py_error + int) \<Rightarrow> ('w, 'p) post \<Rightarrow> pystr \<Rightarrow> pystr \<Rightarrow> pystr \<Rightarrow> int \<Rightarrow> pystr \<Rightarrow> pystr
   \<Rightarrow> ('w, 'p, cow_quote) io" where
  "quote_pair isodate post base_url from_asset to_asset amount from_address receiver =
     (case (map_of COW_ASSETS from_asset, map_of COW_ASSETS to_asset) of
        (Some (sell_contract, sell_decimals), Some (buy_contract, buy_decimals)) \<Rightarrow>
          (let sell_amount = sell_units amount sell_decimals in
           and_then (raise_if (sell_amount \<le> 0) (CowError (AmountTooSmall from_asset))) (\<lambda>_.
           and_then (cow_client_quote post base_url sell_contract buy_contract sell_amount
               from_address receiver) (\<lambda>payload.
             of_res (parse_cow_quote isodate payload to_asset buy_decimals))))
      | _ \<Rightarrow> raise (PyExn KeyError))"

definition cow_serves :: "pystr \<Rightarrow> pystr \<Rightarrow> bool" where
  "cow_serves from_asset to_asset \<longleftrightarrow>
     map_of COW_ASSETS from_asset \<noteq> None \<and> from_asset \<noteq> lit ''ETH.ETH''
     \<and> map_of COW_ASSETS to_asset \<noteq> None \<and> to_asset \<noteq> from_asset"

fun cow_quote_failure :: "'p exn \<Rightarrow> bool" where
  "cow_quote_failure (CowError r) = True"
| "cow_quote_failure HttpError = True"
| "cow_quote_failure (PyExn e) = (e \<in> {KeyError, ValueError, TypeError})"
| "cow_quote_failure _ = False"

definition cow_try_quote ::
  "(pystr \<Rightarrow> py_error + int) \<Rightarrow> ('w, 'p) post \<Rightarrow> pystr \<Rightarrow> pystr \<Rightarrow> pystr \<Rightarrow> int \<Rightarrow> pystr option
   \<Rightarrow> int option \<Rightarrow> ('w, 'p, cow_quote option) io" where
  "cow_try_quote isodate post base_url from_asset to_asset amount destination streaming_interval =
     (case destination of
        None \<Rightarrow> ret None
      | Some d \<Rightarrow>
          if streaming_interval \<noteq> None then ret None
          else if \<not> cow_serves from_asset to_asset then ret None
          else
            try_call (and_then (quote_pair isodate post base_url from_asset to_asset amount d d) (\<lambda>q. ret (Some q)))
              (\<lambda>exc. if cow_quote_failure exc then Some (ret None) else None))"

section \<open>What the gate accepts\<close>

lemma if_cow_silent: "(if b then [p] else []) = [] \<longleftrightarrow> \<not> b" "(if b then [p] else if c then [r] else []) = [] \<longleftrightarrow> \<not> b \<and> \<not> c"
  by simp_all

text \<open>
  The CoW gate binds every field. It is silent exactly when the four amounts are integers
  with the requested sell amount, at least the floor to buy, no separate fee and a validity that
  has begun to run out but not too far away; the tokens and the receiver are the plan's up to
  letter case and the receiver is not the zero address; and the order is a fill-or-kill sell of
  plain ERC-20 balances without metadata. It raises exactly when one of the four is no integer.
\<close>

theorem verify_cow_order_safe:
  "(verify_cow_order order plan now = Inr [] \<longleftrightarrow>
      order_int order (lit ''sellAmount'') (- 1) = Inr (co_sell_amount plan)
    \<and> (\<exists>b. order_int order (lit ''buyAmount'') (- 1) = Inr b \<and> co_min_buy_amount plan \<le> b)
    \<and> order_int order (lit ''feeAmount'') (- 1) = Inr 0
    \<and> (\<exists>v. order_int order (lit ''validTo'') 0 = Inr v \<and> now < v \<and> v \<le> now + co_max_validity plan)
    \<and> addr_eq (dget order (lit ''sellToken'')) (co_sell_token plan)
    \<and> addr_eq (dget order (lit ''buyToken'')) (co_buy_token plan)
    \<and> addr_eq (dget order (lit ''receiver'')) (co_receiver plan)
    \<and> \<not> zero_receiver (dget order (lit ''receiver''))
    \<and> dget order (lit ''kind'') = JStr (lit ''sell'')
    \<and> dget order (lit ''partiallyFillable'') = JBool False
    \<and> dget order (lit ''sellTokenBalance'') = JStr (lit ''erc20'')
    \<and> dget order (lit ''buyTokenBalance'') = JStr (lit ''erc20'')
    \<and> (\<exists>s. dget order (lit ''appData'') = JStr s \<and> py_lower s = COW_ZERO_APP_DATA))
   \<and> ((\<exists>e. verify_cow_order order plan now = Inl e) \<longleftrightarrow>
      (\<exists>e. Inl e \<in> {order_int order (lit ''sellAmount'') (- 1), order_int order (lit ''buyAmount'') (- 1),
         order_int order (lit ''feeAmount'') (- 1), order_int order (lit ''validTo'') 0}))"
proof -
  have app: "(case j of JStr s \<Rightarrow> py_lower s \<noteq> COW_ZERO_APP_DATA | _ \<Rightarrow> True)
      \<longleftrightarrow> \<not> (\<exists>s. j = JStr s \<and> py_lower s = COW_ZERO_APP_DATA)" for j
    by (cases j) auto
  show ?thesis
    unfolding verify_cow_order_def Let_def bind_res_eq_Inr app
    by (cases "order_int order (lit ''sellAmount'') (- 1)"; cases "order_int order (lit ''buyAmount'') (- 1)";
        cases "order_int order (lit ''feeAmount'') (- 1)"; cases "order_int order (lit ''validTo'') 0")
       (simp_all add: if_cow_silent, auto)
qed

lemma order_int_simps [simp]:
  "order_int ((k, JStr (dec_int n)) # d) k e = Inr n" "order_int ((k, JInt n) # d) k e = Inr n"
  "j \<noteq> k \<Longrightarrow> order_int ((j, v) # d) k e = order_int d k e"
  by (simp_all add: order_int_def dget_or_def py_int_dec_int)

lemma dget_simps [simp]:
  "dget ((k, v) # d) k = v" "j \<noteq> k \<Longrightarrow> dget ((j, v) # d) k = dget d k"
  by (simp_all add: dget_def)

lemma zero_app_data_lower: "py_lower COW_ZERO_APP_DATA = COW_ZERO_APP_DATA"
  by code_simp

text \<open>
  C18: Built orders and the gate. The gate never raises on an order made by \<open>build_order\<close>, and it
  is silent exactly when the quote itself is honest: both tokens and the receiver are the plan's,
  the receiver is not the zero address, what leaves the wallet (sell amount and fee together) is
  what was requested, the quoted output less the tolerance reaches the plan's floor, and the
  validity window is right. The fee is always folded in, the order always fill-or-kill.
\<close>

theorem built_order_gate:
  "(\<exists>ps. verify_cow_order (build_order q tolerance_bps) plan now = Inr ps \<and>
     (ps = [] \<longleftrightarrow>
        addr_eq (cq_sell_token q) (co_sell_token plan) \<and> addr_eq (cq_buy_token q) (co_buy_token plan)
      \<and> addr_eq (cq_receiver q) (co_receiver plan) \<and> \<not> zero_receiver (cq_receiver q)
      \<and> sell_amount_total q = co_sell_amount plan
      \<and> co_min_buy_amount plan \<le> cq_buy_amount q * (10000 - tolerance_bps) div 10000
      \<and> now < cq_valid_to q \<and> cq_valid_to q \<le> now + co_max_validity plan))"
proof -
  have zero: "JStr (lit ''0'') = JStr (dec_int 0)" by (simp add: dec_int_def dec_nat.simps lit_def)
  have i: "order_int (build_order q tolerance_bps) (lit ''sellAmount'') e = Inr (sell_amount_total q)"
    "order_int (build_order q tolerance_bps) (lit ''buyAmount'') e
       = Inr (cq_buy_amount q * (10000 - tolerance_bps) div 10000)"
    "order_int (build_order q tolerance_bps) (lit ''feeAmount'') e = Inr 0"
    "order_int (build_order q tolerance_bps) (lit ''validTo'') e = Inr (cq_valid_to q)" for e
    unfolding build_order_def zero by (simp_all add: lit_def)
  have d: "dget (build_order q tolerance_bps) (lit ''sellToken'') = cq_sell_token q"
    "dget (build_order q tolerance_bps) (lit ''buyToken'') = cq_buy_token q"
    "dget (build_order q tolerance_bps) (lit ''receiver'') = cq_receiver q"
    "dget (build_order q tolerance_bps) (lit ''kind'') = JStr (lit ''sell'')"
    "dget (build_order q tolerance_bps) (lit ''partiallyFillable'') = JBool False"
    "dget (build_order q tolerance_bps) (lit ''sellTokenBalance'') = JStr (lit ''erc20'')"
    "dget (build_order q tolerance_bps) (lit ''buyTokenBalance'') = JStr (lit ''erc20'')"
    "dget (build_order q tolerance_bps) (lit ''appData'') = JStr COW_ZERO_APP_DATA"
    unfolding build_order_def by (simp_all add: lit_def)
  show ?thesis
    unfolding verify_cow_order_def i d Let_def
    by (simp add: if_cow_silent zero_app_data_lower d) auto
qed

section \<open>A response that escapes\<close>

text \<open>
  A quote response whose expiration is not a string is not turned into a \<open>CowError\<close>:
  \<open>parse_cow_quote\<close> lets the AttributeError through, which \<open>try_quote\<close> does not catch either.
\<close>

theorem malformed_expiration_escapes:
  "(let payload = JObj [(lit ''quote'', JObj [(lit ''sellAmount'', JInt 5), (lit ''feeAmount'', JInt 1),
          (lit ''buyAmount'', JInt 4), (lit ''sellToken'', JStr (lit ''0xa'')),
          (lit ''buyToken'', JStr (lit ''0xb'')), (lit ''validTo'', JInt 9)]), (lit ''expiration'', JNull)]
    in parse_cow_quote isodate payload to_asset decimals = Inl (PyExn AttributeError))
   \<and> \<not> cow_quote_failure (PyExn AttributeError)"
  by (simp add: parse_cow_quote_def parse_cow_quote_fields_def jint_at_def jget_def dget_or_def
      Let_def py_res_def parse_expiration_def lit_def)

end
