(* ===== verification/Backends.thy ===== *)
theory Backends
  imports Swap Cow
begin

text \<open>
  \<open>src/swapsack/backends.py\<close>: the thornode-style backend, asking every backend for a quote and
  picking the best. A backend of any kind is a record of its operations.
\<close>

section \<open>The code\<close>

record quote_args =
  qa_from_asset :: pystr
  qa_to_asset :: pystr
  qa_amount :: int
  qa_destination :: "pystr option"
  qa_tolerance_bps :: "int option"
  qa_streaming_interval :: "int option"
  qa_streaming_quantity :: "int option"

datatype any_quote = ThornodeQuote quote | CowOrderQuote cow_quote

fun expected_out :: "any_quote \<Rightarrow> int" where
  "expected_out (ThornodeQuote q) = q_expected_amount_out q"
| "expected_out (CowOrderQuote q) = cq_expected_amount_out q"

record ('w, 'p) backend =
  bk_name :: pystr
  bk_executor :: pystr
  bk_serves :: "pystr \<Rightarrow> pystr \<Rightarrow> bool"
  bk_try_quote :: "quote_args \<Rightarrow> ('w, 'p, any_quote option) io"

text \<open>
  The request of a thornode backend: the tolerance always explicit, the streaming parameters only
  for a streaming swap.
\<close>

definition thornode_request :: "quote_args \<Rightarrow> quote_request" where
  "thornode_request a =
     \<lparr>qr_from_asset = qa_from_asset a, qr_to_asset = qa_to_asset a, qr_amount = qa_amount a,
      qr_destination = qa_destination a, qr_streaming_interval = qa_streaming_interval a,
      qr_streaming_quantity = (if qa_streaming_interval a \<noteq> None then qa_streaming_quantity a else None),
      qr_tolerance_bps = effective_tolerance_bps (qa_tolerance_bps a) (qa_streaming_interval a)\<rparr>"

fun thornode_failure :: "'p exn \<Rightarrow> bool" where
  "thornode_failure (ThorchainError e) = True"
| "thornode_failure HttpError = True"
| "thornode_failure _ = False"

definition thornode_try_quote ::
  "('w, 'p) thornode \<Rightarrow> quote_args \<Rightarrow> ('w, 'p, any_quote option) io" where
  "thornode_try_quote client a =
     try_call
       (and_then (tn_quote_swap client (thornode_request a)) (\<lambda>q.
          ret (if json_truthy (q_memo q) \<and> q_recommended_min_amount_in q \<le> qa_amount a
               then Some (ThornodeQuote q) else None)))
       (\<lambda>exc. if thornode_failure exc then Some (ret None) else None)"

definition thornode_backend :: "pystr \<Rightarrow> ('w, 'p) thornode \<Rightarrow> ('w, 'p) backend" where
  "thornode_backend name client =
     \<lparr>bk_name = name, bk_executor = lit ''memo-deposit'', bk_serves = (\<lambda>from_asset to_asset. True),
      bk_try_quote = thornode_try_quote client\<rparr>"

definition cow_backend ::
  "(pystr \<Rightarrow> py_error + int) \<Rightarrow> ('w, 'p) post \<Rightarrow> pystr \<Rightarrow> ('w, 'p) backend" where
  "cow_backend isodate post base_url =
     \<lparr>bk_name = lit ''cow'', bk_executor = lit ''signed-order'', bk_serves = cow_serves,
      bk_try_quote = (\<lambda>a.
        and_then (cow_try_quote isodate post base_url (qa_from_asset a) (qa_to_asset a) (qa_amount a)
            (qa_destination a) (qa_streaming_interval a))
          (\<lambda>q. ret (map_option CowOrderQuote q)))\<rparr>"

definition get_backend :: "('w, 'p) backend list \<Rightarrow> pystr \<Rightarrow> py_error + ('w, 'p) backend" where
  "get_backend backends name =
     (case find (\<lambda>b. bk_name b = name) backends of None \<Rightarrow> Inl ValueError | Some b \<Rightarrow> Inr b)"

fun gather_loop ::
  "quote_args \<Rightarrow> ('w, 'p) backend list \<Rightarrow> (('w, 'p) backend \<times> any_quote) list
   \<Rightarrow> ('w, 'p, (('w, 'p) backend \<times> any_quote) list) io" where
  "gather_loop a [] results = ret results"
| "gather_loop a (backend # backends) results =
     (if \<not> bk_serves backend (qa_from_asset a) (qa_to_asset a) then gather_loop a backends results
      else
        and_then (bk_try_quote backend a) (\<lambda>found.
          case found of
            None \<Rightarrow> gather_loop a backends results
          | Some q \<Rightarrow> gather_loop a backends (results @ [(backend, q)])))"

definition gather_quotes ::
  "('w, 'p) backend list \<Rightarrow> quote_args \<Rightarrow> ('w, 'p, (('w, 'p) backend \<times> any_quote) list) io" where
  "gather_quotes backends a = gather_loop a backends []"

text \<open>\<open>max(results, key=...)\<close>: the first of the largest; an empty list is a ValueError.\<close>

fun max_loop :: "('b \<times> any_quote) \<Rightarrow> ('b \<times> any_quote) list \<Rightarrow> 'b \<times> any_quote" where
  "max_loop best [] = best"
| "max_loop best (r # rs) =
     max_loop (if expected_out (snd best) < expected_out (snd r) then r else best) rs"

definition best_quote :: "('b \<times> any_quote) list \<Rightarrow> py_error + ('b \<times> any_quote)" where
  "best_quote results = (case results of [] \<Rightarrow> Inl ValueError | r # rs \<Rightarrow> Inr (max_loop r rs))"

section \<open>Routing\<close>

fun first_max :: "('b \<times> any_quote) \<Rightarrow> ('b \<times> any_quote) list \<Rightarrow> bool" where
  "first_max m [] = False"
| "first_max m (r # rs) =
     (m = r \<and> list_all (\<lambda>x. expected_out (snd x) \<le> expected_out (snd m)) rs
      \<or> expected_out (snd r) < expected_out (snd m) \<and> first_max m rs)"

lemma first_max_split:
  assumes "first_max m rs"
  obtains pre post where "rs = pre @ m # post"
    "list_all (\<lambda>x. expected_out (snd x) < expected_out (snd m)) pre"
    "list_all (\<lambda>x. expected_out (snd x) \<le> expected_out (snd m)) post"
  using assms
proof (induction rs arbitrary: thesis)
  case Nil
  then show ?case by simp
next
  case (Cons r rs)
  show ?case
  proof (cases "expected_out (snd r) < expected_out (snd m) \<and> first_max m rs")
    case True
    show ?thesis
    proof (rule Cons.IH)
      fix pre post
      assume "rs = pre @ m # post"
        "list_all (\<lambda>x. expected_out (snd x) < expected_out (snd m)) pre"
        "list_all (\<lambda>x. expected_out (snd x) \<le> expected_out (snd m)) post"
      with True show thesis by (intro Cons.prems(1) [of "r # pre" post]) simp_all
    qed (use True in simp)
  next
    case False
    with Cons.prems(2) show ?thesis by (intro Cons.prems(1) [of "[]" rs]) auto
  qed
qed

lemma max_loop_first: "first_max (max_loop best rs) (best # rs)"
proof (induction rs arbitrary: best)
  case Nil
  show ?case by simp
next
  case (Cons r rs)
  show ?case
    using Cons.IH [of r] Cons.IH [of best]
    by (cases "expected_out (snd best) < expected_out (snd r)") auto
qed

lemma gather_loop_served:
  "gather_loop a bs rs w = (Inr out, w') \<Longrightarrow>
   \<exists>new. out = rs @ new \<and> subseq (map fst new) bs \<and>
     (\<forall>(b, q)\<in>set new. bk_serves b (qa_from_asset a) (qa_to_asset a) \<and>
        (\<exists>u v. bk_try_quote b a u = (Inr (Some q), v)))"
proof (induction bs arbitrary: rs w)
  case Nil
  then show ?case by (auto simp: ret_def)
next
  case (Cons b bs)
  show ?case
  proof (cases "bk_serves b (qa_from_asset a) (qa_to_asset a)")
    case False
    with Cons show ?thesis by (fastforce intro: list_emb_Cons)
  next
    case True
    with Cons.prems obtain found u where f: "bk_try_quote b a w = (Inr found, u)"
      and rest: "(case found of None \<Rightarrow> gather_loop a bs rs | Some q \<Rightarrow> gather_loop a bs (rs @ [(b, q)])) u
        = (Inr out, w')"
      by (auto simp: and_then_Inr)
    show ?thesis
    proof (cases found)
      case None
      with rest Cons.IH [of rs u] show ?thesis by (fastforce intro: list_emb_Cons)
    next
      case (Some q)
      with rest Cons.IH [of "rs @ [(b, q)]" u] obtain new where
        "out = (rs @ [(b, q)]) @ new" "subseq (map fst new) bs"
        "\<forall>(b, q)\<in>set new. bk_serves b (qa_from_asset a) (qa_to_asset a) \<and>
           (\<exists>u v. bk_try_quote b a u = (Inr (Some q), v))"
        by auto
      with f Some True show ?thesis by (intro exI [of _ "(b, q) # new"]) auto
    qed
  qed
qed

text \<open>
  Price routing. The routed quote was really offered, by a backend that serves the pair; no
  quote that was gathered is better; among equals the backend listed first wins, and the quotes
  come in the order of the backends. Without any quote the choice is an error.
\<close>

theorem best_quote_routes:
  "(gather_quotes bs a w = (Inr results, w') \<and> best_quote results = Inr (b, q) \<longrightarrow>
      subseq (map fst results) bs
    \<and> bk_serves b (qa_from_asset a) (qa_to_asset a)
    \<and> (\<exists>u v. bk_try_quote b a u = (Inr (Some q), v))
    \<and> (\<exists>pre post. results = pre @ (b, q) # post
        \<and> list_all (\<lambda>r. expected_out (snd r) < expected_out q) pre
        \<and> list_all (\<lambda>r. expected_out (snd r) \<le> expected_out q) post))
   \<and> (best_quote results = Inl e \<longleftrightarrow> results = [] \<and> e = ValueError)"
proof (intro conjI impI)
  assume r: "gather_quotes bs a w = (Inr results, w') \<and> best_quote results = Inr (b, q)"
  then obtain new where new: "results = new" "subseq (map fst new) bs"
    "\<forall>(b, q)\<in>set new. bk_serves b (qa_from_asset a) (qa_to_asset a) \<and>
       (\<exists>u v. bk_try_quote b a u = (Inr (Some q), v))"
    using gather_loop_served [of a bs "[]" w results w'] by (auto simp: gather_quotes_def)
  from r obtain x xs where x: "results = x # xs" "max_loop x xs = (b, q)"
    by (auto simp: best_quote_def split: list.splits)
  with max_loop_first [of x xs] have "first_max (b, q) results" by simp
  then show "\<exists>pre post. results = pre @ (b, q) # post
        \<and> list_all (\<lambda>r. expected_out (snd r) < expected_out q) pre
        \<and> list_all (\<lambda>r. expected_out (snd r) \<le> expected_out q) post"
    by (rule first_max_split) (metis snd_conv)
  then have "(b, q) \<in> set results" by auto
  with new show "subseq (map fst results) bs" "bk_serves b (qa_from_asset a) (qa_to_asset a)"
    "\<exists>u v. bk_try_quote b a u = (Inr (Some q), v)"
    by auto
qed (auto simp: best_quote_def split: list.splits)

definition ex_args :: quote_args where
  "ex_args = \<lparr>qa_from_asset = lit ''ETH.ETH'', qa_to_asset = lit ''BTC.BTC'', qa_amount = 5,
     qa_destination = None, qa_tolerance_bps = None, qa_streaming_interval = None,
     qa_streaming_quantity = None\<rparr>"

definition ex_offer :: "int \<Rightarrow> any_quote" where
  "ex_offer n = CowOrderQuote
     \<lparr>cq_sell_token = JNull, cq_buy_token = JNull, cq_receiver = JNull, cq_sell_amount = 5,
      cq_fee_amount = 0, cq_buy_amount = n, cq_valid_to = 0, cq_quote_id = JNull, cq_expiry = 0,
      cq_verified = True, cq_expected_amount_out = n,
      cq_fees = \<lparr>sf_asset = JNull, sf_outbound = 0, sf_affiliate = 0, sf_liquidity = 0, sf_total = 0,
        sf_slippage_bps = 0, sf_total_bps = 0\<rparr>,
      cq_raw = JNull\<rparr>"

definition ex_backend :: "string \<Rightarrow> bool \<Rightarrow> any_quote option \<Rightarrow> (nat, nat) backend" where
  "ex_backend name serves offer =
     \<lparr>bk_name = lit name, bk_executor = lit ''memo-deposit'', bk_serves = (\<lambda>x y. serves),
      bk_try_quote = (\<lambda>a w. (Inr offer, Suc w))\<rparr>"

lemma best_quote_routes_witness:
  "bk_serves (ex_backend ''maya'' True (Some (ex_offer 9))) (lit ''ETH.ETH'') (lit ''BTC.BTC'')
   \<and> (\<exists>u v. bk_try_quote (ex_backend ''maya'' True (Some (ex_offer 9))) ex_args u
        = (Inr (Some (ex_offer 9)), v))"
proof -
  let ?thor = "ex_backend ''thor'' True (Some (ex_offer 7))"
  let ?maya = "ex_backend ''maya'' True (Some (ex_offer 9))"
  let ?cow = "ex_backend ''cow'' False (Some (ex_offer 11))"
  let ?none = "ex_backend ''none'' True None"
  let ?results = "[(?thor, ex_offer 7), (?maya, ex_offer 9)]"
  have "gather_quotes [?thor, ?cow, ?none, ?maya] ex_args 0 = (Inr ?results, 3)"
    by (simp add: gather_quotes_def ex_backend_def io_simps)
  moreover have "best_quote ?results = Inr (?maya, ex_offer 9)"
    by (simp add: best_quote_def ex_offer_def)
  ultimately have "bk_serves ?maya (qa_from_asset ex_args) (qa_to_asset ex_args)
     \<and> (\<exists>u v. bk_try_quote ?maya ex_args u = (Inr (Some (ex_offer 9)), v))"
    using best_quote_routes [of "[?thor, ?cow, ?none, ?maya]" ex_args 0 ?results 3 ?maya "ex_offer 9"]
    by blast
  then show ?thesis by (simp add: ex_args_def)
qed

end
