(* ===== verification/ZcashTx.thy ===== *)
theory ZcashTx
  imports Codec PyJson Bech32
begin

text \<open>
  \<open>src/swapsack/chains/zcash_tx.py\<close>: transparent v4 transactions of Zcash, their ZIP-243 digest and
  their signatures. base58check, BLAKE2b, SHA-256 and secp256k1 are parameters. The parser carries
  a position in the bytes, as the code does: a slice past the end is short and only the final
  comparison of the position with the length notices, so positions are kept here too.
\<close>

section \<open>Writers and readers with positions\<close>

text \<open>
  A writer without ambiguity: what follows a written value cannot change it. A reader with
  positions that undoes a writer gives one, and reads a sequence of fields.
\<close>

locale prefix_writer =
  fixes wr :: "'a \<Rightarrow> bytes" and ok :: "'a \<Rightarrow> bool"
  assumes prefix_free: "ok x \<Longrightarrow> ok y \<Longrightarrow> wr x @ r = wr y @ s \<Longrightarrow> x = y \<and> r = s"
    and writes: "ok x \<Longrightarrow> wr x \<noteq> []"
begin

lemma write_many_inject:
  "list_all ok xs \<Longrightarrow> list_all ok ys \<Longrightarrow> write_many wr xs = write_many wr ys \<Longrightarrow> xs = ys"
proof (induction xs arbitrary: ys)
  case Nil
  then show ?case using writes by (cases ys) auto
next
  case (Cons x xs)
  then obtain y ys' where ys: "ys = y # ys'" using writes by (cases ys) auto
  with Cons.prems have "x = y \<and> write_many wr xs = write_many wr ys'" by (intro prefix_free) auto
  with Cons ys show ?case by auto
qed

end

fun read_many_at ::
  "(bytes \<Rightarrow> nat \<Rightarrow> 'e + ('a \<times> nat)) \<Rightarrow> nat \<Rightarrow> bytes \<Rightarrow> nat \<Rightarrow> 'e + ('a list \<times> nat)" where
  "read_many_at rd 0 raw i = Inr ([], i)"
| "read_many_at rd (Suc n) raw i =
     bind_res (rd raw i) (\<lambda>(x, i). bind_res (read_many_at rd n raw i) (\<lambda>(xs, i). Inr (x # xs, i)))"

locale at_codec =
  fixes wr :: "'a \<Rightarrow> bytes" and rd :: "bytes \<Rightarrow> nat \<Rightarrow> 'e + ('a \<times> nat)" and ok :: "'a \<Rightarrow> bool"
  assumes read_at: "ok x \<Longrightarrow> rd (pre @ wr x @ rest) (length pre) = Inr (x, length pre + length (wr x))"
    and writes_some: "ok x \<Longrightarrow> wr x \<noteq> []"
begin

lemma read_many_at:
  "list_all ok xs \<Longrightarrow> read_many_at rd (length xs) (pre @ write_many wr xs @ rest) (length pre)
     = Inr (xs, length pre + length (write_many wr xs))"
proof (induction xs arbitrary: pre)
  case Nil
  show ?case by simp
next
  case (Cons x xs)
  have "read_many_at rd (length xs) ((pre @ wr x) @ write_many wr xs @ rest) (length (pre @ wr x))
      = Inr (xs, length (pre @ wr x) + length (write_many wr xs))"
    using Cons.prems by (intro Cons.IH) simp
  with read_at [of x pre "write_many wr xs @ rest"] Cons.prems show ?case
    by (simp add: add.assoc)
qed

end

sublocale at_codec < prefix_writer wr ok
proof
  fix x y r s
  assume a: "ok x" "ok y" "wr x @ r = wr y @ s"
  have "rd (wr y @ s) 0 = Inr (x, length (wr x))" using read_at [OF a(1), of "[]" r] by (simp add: a(3))
  with read_at [OF a(2), of "[]" s] show "x = y \<and> r = s" using a(3) by simp
qed (rule writes_some)

section \<open>Constants and errors\<close>

definition V4_HEADER :: int where
  "V4_HEADER = 0x80000004"

definition V4_VERSION_GROUP :: int where
  "V4_VERSION_GROUP = 0x892F2085"

definition SIGHASH_ALL :: int where
  "SIGHASH_ALL = 1"

definition PREFIX_T1 :: bytes where
  "PREFIX_T1 = [0x1c, 0xb8]"

definition PREFIX_T3 :: bytes where
  "PREFIX_T3 = [0x1c, 0xbd]"

definition TEX_HRP :: pystr where
  "TEX_HRP = lit ''tex''"

text \<open>
  \<open>ZcashTxError\<close>, which is a ValueError, by its message, and the errors of the language:
  \<open>struct.error\<close> of an integer that does not fit, an index out of range, a length that is no byte.
\<close>

datatype zec_error =
  NotTex pystr
| NotMainnetTex pystr
| NoTexForm pystr
| NotTransparent pystr
| VarintRange nat
| VarintTooLarge
| NotV4 int
| Shielded
| TrailingBytes int
| Misaligned
| NonP2pkhInput nat
| SelfCheckFailed nat
| ZecPy py_error

fun zec_py :: "zec_error \<Rightarrow> py_error" where
  "zec_py (ZecPy e) = e"
| "zec_py _ = ValueError"

text \<open>The libraries: base58check, \<open>hashlib\<close> and coincurve.\<close>

record zcash_libs =
  zl_b58encode :: "bytes \<Rightarrow> pystr"
  zl_b58decode :: "pystr \<Rightarrow> bytes option"
  zl_blake2b :: "bytes \<Rightarrow> bytes \<Rightarrow> bytes"
  zl_sha256 :: "bytes \<Rightarrow> bytes"
  zl_sign :: "bytes \<Rightarrow> bytes \<Rightarrow> bytes"
  zl_public_key :: "bytes \<Rightarrow> bytes"
  zl_verify :: "bytes \<Rightarrow> bytes \<Rightarrow> bytes \<Rightarrow> bool"

section \<open>Scripts and addresses\<close>

definition tex_hash160 :: "pystr \<Rightarrow> zec_error + bytes" where
  "tex_hash160 address =
     (case bech32m_decode address of
        Inl e \<Rightarrow> Inl (NotTex address)
      | Inr (hrp, payload) \<Rightarrow>
          if hrp \<noteq> TEX_HRP \<or> length payload \<noteq> 20 then Inl (NotMainnetTex address) else Inr payload)"

definition is_tex :: "pystr \<Rightarrow> bool" where
  "is_tex address \<longleftrightarrow> prefix (TEX_HRP @ lit ''1'') address"

definition p2pkh_script :: "bytes \<Rightarrow> bytes" where
  "p2pkh_script h = [0x76, 0xa9, 0x14] @ h @ [0x88, 0xac]"

definition p2sh_script :: "bytes \<Rightarrow> bytes" where
  "p2sh_script h = [0xa9, 0x14] @ h @ [0x87]"

definition address_to_script :: "zcash_libs \<Rightarrow> pystr \<Rightarrow> zec_error + bytes" where
  "address_to_script lib address =
     (if is_tex address then bind_res (tex_hash160 address) (\<lambda>h. Inr (p2pkh_script h))
      else
        case zl_b58decode lib address of
          None \<Rightarrow> Inl (NotTransparent address)
        | Some payload \<Rightarrow>
            let pref = take 2 payload; h = drop 2 payload in
            if length payload \<noteq> 22 then Inl (NotTransparent address)
            else if pref = PREFIX_T1 then Inr (p2pkh_script h)
            else if pref = PREFIX_T3 then Inr (p2sh_script h)
            else Inl (NotTransparent address))"

definition p2pkh_hash160 :: "bytes \<Rightarrow> bytes option" where
  "p2pkh_hash160 script =
     (if length script = 25 \<and> take 3 script = [0x76, 0xa9, 0x14] \<and> drop 23 script = [0x88, 0xac]
      then Some (slice 3 23 script) else None)"

definition p2sh_hash160 :: "bytes \<Rightarrow> bytes option" where
  "p2sh_hash160 script =
     (if length script = 23 \<and> take 2 script = [0xa9, 0x14] \<and> drop 22 script = [0x87]
      then Some (slice 2 22 script) else None)"

definition script_to_address :: "zcash_libs \<Rightarrow> bytes \<Rightarrow> pystr option" where
  "script_to_address lib script =
     (case p2pkh_hash160 script of
        Some h \<Rightarrow> Some (zl_b58encode lib (PREFIX_T1 @ h))
      | None \<Rightarrow>
          case p2sh_hash160 script of
            Some h \<Rightarrow> Some (zl_b58encode lib (PREFIX_T3 @ h))
          | None \<Rightarrow> None)"

definition tex_to_t1 :: "zcash_libs \<Rightarrow> pystr \<Rightarrow> zec_error + pystr" where
  "tex_to_t1 lib address = bind_res (tex_hash160 address) (\<lambda>h. Inr (zl_b58encode lib (PREFIX_T1 @ h)))"

definition t1_to_tex :: "zcash_libs \<Rightarrow> pystr \<Rightarrow> zec_error + pystr" where
  "t1_to_tex lib address =
     bind_res (address_to_script lib address) (\<lambda>script.
       case p2pkh_hash160 script of
         None \<Rightarrow> Inl (NoTexForm address)
       | Some h \<Rightarrow> (case bech32m_encode TEX_HRP h of Inl e \<Rightarrow> Inl (NotTex address) | Inr a \<Rightarrow> Inr a))"

definition canonical_address :: "zcash_libs \<Rightarrow> pystr \<Rightarrow> zec_error + pystr" where
  "canonical_address lib address = (if is_tex address then tex_to_t1 lib address else Inr address)"

section \<open>Transactions\<close>

record tx_in =
  zi_prev_txid :: bytes
  zi_vout :: int
  zi_script_sig :: bytes
  zi_sequence :: int

record tx_out =
  zo_value :: int
  zo_script :: bytes

record tx_v4 =
  zt_inputs :: "tx_in list"
  zt_outputs :: "tx_out list"
  zt_lock_time :: int
  zt_expiry_height :: int

text \<open>\<open>struct.pack\<close> of a \<open>k\<close>-byte unsigned little-endian integer.\<close>

definition pack_le :: "nat \<Rightarrow> int \<Rightarrow> zec_error + bytes" where
  "pack_le k n = (if 0 \<le> n \<and> n < 256 ^ k then Inr (to_le k n) else Inl (ZecPy StructError))"

definition zec_varint :: "nat \<Rightarrow> zec_error + bytes" where
  "zec_varint n =
     (if n < 0xFD then Inr [byte_of n]
      else if n \<le> 0xFFFF then bind_res (pack_le 2 (int n)) (\<lambda>v. Inr (0xfd # v))
      else Inl (VarintRange n))"

definition int_at :: "nat \<Rightarrow> bytes \<Rightarrow> nat \<Rightarrow> int" where
  "int_at k raw i = le_int (slice i (i + k) raw)"

definition zec_read_varint :: "bytes \<Rightarrow> nat \<Rightarrow> zec_error + (nat \<times> nat)" where
  "zec_read_varint b i =
     (if length b \<le> i then Inl (ZecPy IndexError)
      else
        let v = unat (b ! i) in
        if v < 0xFD then Inr (v, i + 1)
        else if v = 0xFD then Inr (nat (int_at 2 b (i + 1)), i + 3)
        else Inl VarintTooLarge)"

definition sized :: "bytes \<Rightarrow> zec_error + bytes" where
  "sized script = bind_res (zec_varint (length script)) (\<lambda>n. Inr (n @ script))"

definition write_input :: "tx_in \<Rightarrow> zec_error + bytes" where
  "write_input i =
     bind_res (pack_le 4 (zi_vout i)) (\<lambda>vout.
     bind_res (sized (zi_script_sig i)) (\<lambda>script.
     bind_res (pack_le 4 (zi_sequence i)) (\<lambda>seqn.
       Inr (zi_prev_txid i @ vout @ script @ seqn))))"

definition write_output :: "tx_out \<Rightarrow> zec_error + bytes" where
  "write_output out =
     bind_res (pack_le 8 (zo_value out)) (\<lambda>val.
     bind_res (sized (zo_script out)) (\<lambda>script. Inr (val @ script)))"

definition serialize_v4 :: "tx_v4 \<Rightarrow> zec_error + bytes" where
  "serialize_v4 tx =
     bind_res (pack_le 4 V4_HEADER) (\<lambda>header.
     bind_res (pack_le 4 V4_VERSION_GROUP) (\<lambda>group.
     bind_res (zec_varint (length (zt_inputs tx))) (\<lambda>n_in.
     bind_res (map_res write_input (zt_inputs tx)) (\<lambda>inputs.
     bind_res (zec_varint (length (zt_outputs tx))) (\<lambda>n_out.
     bind_res (map_res write_output (zt_outputs tx)) (\<lambda>outputs.
     bind_res (pack_le 4 (zt_lock_time tx)) (\<lambda>lock_time.
     bind_res (pack_le 4 (zt_expiry_height tx)) (\<lambda>expiry.
       Inr (header @ group @ n_in @ concat inputs @ n_out @ concat outputs @ lock_time @ expiry
            @ to_le 8 0 @ [0, 0, 0])))))))))"

definition read_input :: "bytes \<Rightarrow> nat \<Rightarrow> zec_error + (tx_in \<times> nat)" where
  "read_input raw i =
     (let prev_txid = slice i (i + 32) raw; vout = int_at 4 raw (i + 32) in
      bind_res (zec_read_varint raw (i + 36)) (\<lambda>(slen, i).
        Inr (\<lparr>zi_prev_txid = prev_txid, zi_vout = vout, zi_script_sig = slice i (i + slen) raw,
              zi_sequence = int_at 4 raw (i + slen)\<rparr>, i + slen + 4)))"

definition read_output :: "bytes \<Rightarrow> nat \<Rightarrow> zec_error + (tx_out \<times> nat)" where
  "read_output raw i =
     (let val = int_at 8 raw i in
      bind_res (zec_read_varint raw (i + 8)) (\<lambda>(slen, i).
        Inr (\<lparr>zo_value = val, zo_script = slice i (i + slen) raw\<rparr>, i + slen)))"

text \<open>\<open>int.from_bytes(..., signed=True)\<close> is zero exactly when the unsigned value is.\<close>

definition parse_v4 :: "bytes \<Rightarrow> zec_error + tx_v4" where
  "parse_v4 raw =
     (let header = int_at 4 raw 0; vgroup = int_at 4 raw 4 in
      if header \<noteq> V4_HEADER \<or> vgroup \<noteq> V4_VERSION_GROUP then Inl (NotV4 header)
      else
        bind_res (zec_read_varint raw 8) (\<lambda>(n_in, i).
        bind_res (read_many_at read_input n_in raw i) (\<lambda>(inputs, i).
        bind_res (zec_read_varint raw i) (\<lambda>(n_out, i).
        bind_res (read_many_at read_output n_out raw i) (\<lambda>(outputs, i).
        let lock_time = int_at 4 raw i; expiry_height = int_at 4 raw (i + 4);
            value_balance = int_at 8 raw (i + 8) in
        bind_res (zec_read_varint raw (i + 16)) (\<lambda>(n_ss, i).
        bind_res (zec_read_varint raw i) (\<lambda>(n_so, i).
        bind_res (zec_read_varint raw i) (\<lambda>(n_js, i).
          if value_balance \<noteq> 0 \<or> n_ss \<noteq> 0 \<or> n_so \<noteq> 0 \<or> n_js \<noteq> 0 then Inl Shielded
          else if i \<noteq> length raw then Inl (TrailingBytes (int (length raw) - int i))
          else Inr \<lparr>zt_inputs = inputs, zt_outputs = outputs, zt_lock_time = lock_time,
                    zt_expiry_height = expiry_height\<rparr>))))))))"

definition txid :: "zcash_libs \<Rightarrow> bytes \<Rightarrow> pystr" where
  "txid lib raw = py_hex (rev (zl_sha256 lib (zl_sha256 lib raw)))"

section \<open>The ZIP-243 digest and signing\<close>

definition ascii :: "string \<Rightarrow> bytes" where
  "ascii s = map byte_of (lit s)"

definition write_prevout :: "tx_in \<Rightarrow> zec_error + bytes" where
  "write_prevout i = bind_res (pack_le 4 (zi_vout i)) (\<lambda>vout. Inr (zi_prev_txid i @ vout))"

definition sighash_zip243 ::
  "zcash_libs \<Rightarrow> tx_v4 \<Rightarrow> nat \<Rightarrow> bytes \<Rightarrow> int \<Rightarrow> int \<Rightarrow> zec_error + bytes" where
  "sighash_zip243 lib tx index script_code val branch_id =
     bind_res (map_res write_prevout (zt_inputs tx)) (\<lambda>prevouts.
     bind_res (map_res (\<lambda>i. pack_le 4 (zi_sequence i)) (zt_inputs tx)) (\<lambda>sequences.
     bind_res (map_res write_output (zt_outputs tx)) (\<lambda>outs.
     if length (zt_inputs tx) \<le> index then Inl (ZecPy IndexError)
     else
       let inp = zt_inputs tx ! index in
       bind_res (pack_le 4 V4_HEADER) (\<lambda>header.
       bind_res (pack_le 4 V4_VERSION_GROUP) (\<lambda>group.
       bind_res (pack_le 4 (zt_lock_time tx)) (\<lambda>lock_time.
       bind_res (pack_le 4 (zt_expiry_height tx)) (\<lambda>expiry.
       bind_res (write_prevout inp) (\<lambda>outpoint.
       bind_res (sized script_code) (\<lambda>code.
       bind_res (pack_le 8 val) (\<lambda>amount.
       bind_res (pack_le 4 (zi_sequence inp)) (\<lambda>seqn.
       bind_res (pack_le 4 branch_id) (\<lambda>branch.
         let preimage = header @ group
               @ zl_blake2b lib (ascii ''ZcashPrevoutHash'') (concat prevouts)
               @ zl_blake2b lib (ascii ''ZcashSequencHash'') (concat sequences)
               @ zl_blake2b lib (ascii ''ZcashOutputsHash'') (concat outs)
               @ replicate 32 0 @ replicate 32 0 @ replicate 32 0
               @ lock_time @ expiry @ to_le 8 0 @ to_le 4 SIGHASH_ALL
               @ outpoint @ code @ amount @ seqn
         in Inr (zl_blake2b lib (ascii ''ZcashSigHash'' @ branch) preimage)))))))))))))"

definition push_byte :: "bytes \<Rightarrow> zec_error + bytes" where
  "push_byte b = (if length b < 256 then Inr (byte_of (length b) # b) else Inl (ZecPy ValueError))"

definition sign_input ::
  "zcash_libs \<Rightarrow> tx_v4 \<Rightarrow> int \<Rightarrow> nat \<Rightarrow> tx_in \<Rightarrow> bytes \<times> int \<Rightarrow> bytes \<Rightarrow> zec_error + tx_in" where
  "sign_input lib tx branch_id index inp = (\<lambda>(script_code, val) priv.
     if p2pkh_hash160 script_code = None then Inl (NonP2pkhInput index)
     else
       bind_res (sighash_zip243 lib tx index script_code val branch_id) (\<lambda>digest.
       let der = zl_sign lib priv digest; pub = zl_public_key lib priv in
       if \<not> zl_verify lib pub der digest then Inl (SelfCheckFailed index)
       else
         bind_res (push_byte (der @ [byte_of (nat SIGHASH_ALL)])) (\<lambda>sig.
         bind_res (push_byte pub) (\<lambda>key. Inr (inp\<lparr>zi_script_sig := sig @ key\<rparr>)))))"

fun sign_loop ::
  "zcash_libs \<Rightarrow> tx_v4 \<Rightarrow> int \<Rightarrow> nat \<Rightarrow> tx_in list \<Rightarrow> (bytes \<times> int) list \<Rightarrow> bytes list
   \<Rightarrow> zec_error + tx_in list" where
  "sign_loop lib tx branch_id index (inp # inps) (s # spent) (priv # privs) =
     bind_res (sign_input lib tx branch_id index inp s priv) (\<lambda>signed.
     bind_res (sign_loop lib tx branch_id (Suc index) inps spent privs) (\<lambda>rest. Inr (signed # rest)))"
| "sign_loop lib tx branch_id index _ _ _ = Inr []"

definition sign_transparent ::
  "zcash_libs \<Rightarrow> tx_v4 \<Rightarrow> (bytes \<times> int) list \<Rightarrow> bytes list \<Rightarrow> int \<Rightarrow> zec_error + tx_v4" where
  "sign_transparent lib tx spent privkeys branch_id =
     (if \<not> (length (zt_inputs tx) = length spent \<and> length spent = length privkeys) then Inl Misaligned
      else
        bind_res (sign_loop lib tx branch_id 0 (zt_inputs tx) spent privkeys) (\<lambda>signed.
          Inr (tx\<lparr>zt_inputs := signed\<rparr>)))"

section \<open>What the writers write\<close>

lemma map_res_Inr_iff:
  "map_res f xs = Inr ys \<longleftrightarrow> list_all2 (\<lambda>x y. f x = Inr y) xs ys"
proof (induction xs arbitrary: ys)
  case Nil
  then show ?case by auto
next
  case (Cons x xs)
  then show ?case by (cases ys) (auto simp: bind_res_eq_Inr)
qed

text \<open>A partial writer whose values are those of a total one on the values that fit.\<close>

lemma map_res_writer:
  assumes "\<And>x b. w x = Inr b \<longleftrightarrow> ok x \<and> b = wr x"
  shows "map_res w xs = Inr bs \<longleftrightarrow> list_all ok xs \<and> bs = map wr xs"
proof (induction xs arbitrary: bs)
  case Nil
  then show ?case by auto
next
  case (Cons x xs)
  then show ?case by (auto simp: bind_res_eq_Inr assms)
qed

lemma pack_le_Inr: "pack_le k n = Inr b \<longleftrightarrow> (0 \<le> n \<and> n < 256 ^ k) \<and> b = to_le k n"
  by (auto simp: pack_le_def)

definition varint_bytes :: "nat \<Rightarrow> bytes" where
  "varint_bytes n = (if n < 0xFD then [byte_of n] else 0xfd # to_le 2 (int n))"

lemma zec_varint_Inr: "zec_varint n = Inr b \<longleftrightarrow> n \<le> 0xFFFF \<and> b = varint_bytes n"
  by (auto simp: zec_varint_def varint_bytes_def bind_res_eq_Inr pack_le_Inr)

lemma sized_Inr: "sized d = Inr b \<longleftrightarrow> length d \<le> 0xFFFF \<and> b = varint_bytes (length d) @ d"
  by (auto simp: sized_def bind_res_eq_Inr zec_varint_Inr)

definition wf_in :: "tx_in \<Rightarrow> bool" where
  "wf_in t \<longleftrightarrow> 0 \<le> zi_vout t \<and> zi_vout t < 256 ^ 4 \<and> length (zi_script_sig t) \<le> 0xFFFF
     \<and> 0 \<le> zi_sequence t \<and> zi_sequence t < 256 ^ 4"

definition wf_out :: "tx_out \<Rightarrow> bool" where
  "wf_out t \<longleftrightarrow> 0 \<le> zo_value t \<and> zo_value t < 256 ^ 8 \<and> length (zo_script t) \<le> 0xFFFF"

definition input_bytes :: "tx_in \<Rightarrow> bytes" where
  "input_bytes t = zi_prev_txid t @ to_le 4 (zi_vout t) @ varint_bytes (length (zi_script_sig t))
     @ zi_script_sig t @ to_le 4 (zi_sequence t)"

definition output_bytes :: "tx_out \<Rightarrow> bytes" where
  "output_bytes t = to_le 8 (zo_value t) @ varint_bytes (length (zo_script t)) @ zo_script t"

definition prevout_bytes :: "tx_in \<Rightarrow> bytes" where
  "prevout_bytes t = zi_prev_txid t @ to_le 4 (zi_vout t)"

lemma write_input_Inr: "write_input t = Inr b \<longleftrightarrow> wf_in t \<and> b = input_bytes t"
  by (auto simp: write_input_def bind_res_eq_Inr pack_le_Inr sized_Inr wf_in_def input_bytes_def)

lemma write_output_Inr: "write_output t = Inr b \<longleftrightarrow> wf_out t \<and> b = output_bytes t"
  by (auto simp: write_output_def bind_res_eq_Inr pack_le_Inr sized_Inr wf_out_def output_bytes_def)

lemma write_prevout_Inr:
  "write_prevout t = Inr b \<longleftrightarrow> (0 \<le> zi_vout t \<and> zi_vout t < 256 ^ 4) \<and> b = prevout_bytes t"
  by (auto simp: write_prevout_def bind_res_eq_Inr pack_le_Inr prevout_bytes_def)

section \<open>Reading back\<close>

lemma slice_at: "i = length pre \<Longrightarrow> j = i + length mid \<Longrightarrow> slice i j (pre @ mid @ post) = mid"
  using slice_append_at [of pre mid post] by simp

lemma int_at_le: "0 \<le> n \<Longrightarrow> n < 256 ^ k \<Longrightarrow> i = length pre \<Longrightarrow> int_at k (pre @ to_le k n @ rest) i = n"
  using slice_append_at [of pre "to_le k n" rest] by (simp add: int_at_def le_int_to_le)

lemma int_at_bounds: "0 \<le> int_at k raw i \<and> int_at k raw i < 256 ^ k"
proof -
  have "int_at k raw i < 256 ^ length (slice i (i + k) raw)" unfolding int_at_def by (rule le_int_bound)
  also have "\<dots> \<le> 256 ^ k" by (rule power_increasing) simp_all
  finally show ?thesis by (simp add: int_at_def)
qed

lemma read_varint_at:
  assumes "n \<le> 0xFFFF"
  shows "zec_read_varint (pre @ varint_bytes n @ rest) (length pre)
    = Inr (n, length pre + length (varint_bytes n))"
proof (cases "n < 0xFD")
  case True
  then show ?thesis by (simp add: varint_bytes_def zec_read_varint_def)
next
  case False
  have "int_at 2 ((pre @ [0xfd]) @ to_le 2 (int n) @ rest) (length pre + 1) = int n"
    using assms by (intro int_at_le) simp_all
  with False show ?thesis by (simp add: varint_bytes_def zec_read_varint_def Let_def)
qed

interpretation varint_codec: at_codec varint_bytes zec_read_varint "\<lambda>n. n \<le> 0xFFFF"
  by (unfold_locales, erule read_varint_at) (simp add: varint_bytes_def)

lemma read_varint_at':
  "n \<le> 0xFFFF \<Longrightarrow> i = length pre \<Longrightarrow> zec_read_varint (pre @ varint_bytes n @ rest) i
    = Inr (n, i + length (varint_bytes n))"
  by (simp add: read_varint_at)

lemma read_input_at:
  assumes "wf_in t" "length (zi_prev_txid t) = 32"
  shows "read_input (pre @ input_bytes t @ rest) (length pre) = Inr (t, length pre + length (input_bytes t))"
proof -
  let ?v = "to_le 4 (zi_vout t)" and ?n = "varint_bytes (length (zi_script_sig t))"
    and ?s = "zi_script_sig t" and ?q = "to_le 4 (zi_sequence t)"
  let ?raw = "pre @ input_bytes t @ rest"
  have txid: "slice (length pre) (length pre + 32) ?raw = zi_prev_txid t"
    using slice_append_at [of pre "zi_prev_txid t"] assms(2) by (simp add: input_bytes_def)
  have vout: "int_at 4 ?raw (length pre + 32) = zi_vout t"
    using int_at_le [of "zi_vout t" 4 "length pre + 32" "pre @ zi_prev_txid t" "?n @ ?s @ ?q @ rest"] assms
    by (simp add: input_bytes_def wf_in_def)
  have n: "zec_read_varint ?raw (length pre + 36) = Inr (length ?s, length pre + 36 + length ?n)"
    using read_varint_at' [of "length ?s" "length pre + 36" "pre @ zi_prev_txid t @ ?v" "?s @ ?q @ rest"] assms
    by (simp add: input_bytes_def wf_in_def)
  have sig: "slice (length pre + 36 + length ?n) (length pre + 36 + length ?n + length ?s) ?raw = ?s"
    using slice_at [of "length pre + 36 + length ?n" "pre @ zi_prev_txid t @ ?v @ ?n" _ ?s "?q @ rest"] assms(2)
    by (simp add: input_bytes_def)
  have sq: "int_at 4 ?raw (length pre + 36 + length ?n + length ?s) = zi_sequence t"
    using int_at_le [of "zi_sequence t" 4 "length pre + 36 + length ?n + length ?s"
        "pre @ zi_prev_txid t @ ?v @ ?n @ ?s" rest] assms
    by (simp add: input_bytes_def wf_in_def)
  have len: "length (input_bytes t) = 40 + length ?n + length ?s"
    using assms(2) by (simp add: input_bytes_def)
  show ?thesis
    by (simp only: read_input_def Let_def txid vout n bind_res_simps prod.case sig sq len) simp
qed

lemma read_output_at:
  assumes "wf_out t"
  shows "read_output (pre @ output_bytes t @ rest) (length pre) = Inr (t, length pre + length (output_bytes t))"
proof -
  let ?v = "to_le 8 (zo_value t)" and ?n = "varint_bytes (length (zo_script t))" and ?s = "zo_script t"
  let ?raw = "pre @ output_bytes t @ rest"
  have val: "int_at 8 ?raw (length pre) = zo_value t"
    using int_at_le [of "zo_value t" 8 "length pre" pre "?n @ ?s @ rest"] assms
    by (simp add: output_bytes_def wf_out_def)
  have n: "zec_read_varint ?raw (length pre + 8) = Inr (length ?s, length pre + 8 + length ?n)"
    using read_varint_at' [of "length ?s" "length pre + 8" "pre @ ?v" "?s @ rest"] assms
    by (simp add: output_bytes_def wf_out_def)
  have sc: "slice (length pre + 8 + length ?n) (length pre + 8 + length ?n + length ?s) ?raw = ?s"
    using slice_at [of "length pre + 8 + length ?n" "pre @ ?v @ ?n" _ ?s rest] by (simp add: output_bytes_def)
  have len: "length (output_bytes t) = 8 + length ?n + length ?s" by (simp add: output_bytes_def)
  show ?thesis by (simp only: read_output_def Let_def val n bind_res_simps prod.case sc len) simp
qed

interpretation input_codec: at_codec input_bytes read_input "\<lambda>t. wf_in t \<and> length (zi_prev_txid t) = 32"
  by (unfold_locales, erule conjE, erule (1) read_input_at) (auto simp: input_bytes_def)

interpretation output_codec: at_codec output_bytes read_output wf_out
  by (unfold_locales, erule read_output_at) (simp add: output_bytes_def varint_bytes_def)

section \<open>Whole transactions\<close>

definition wf_v4 :: "tx_v4 \<Rightarrow> bool" where
  "wf_v4 tx \<longleftrightarrow> list_all wf_in (zt_inputs tx) \<and> length (zt_inputs tx) \<le> 0xFFFF
     \<and> list_all wf_out (zt_outputs tx) \<and> length (zt_outputs tx) \<le> 0xFFFF
     \<and> 0 \<le> zt_lock_time tx \<and> zt_lock_time tx < 256 ^ 4
     \<and> 0 \<le> zt_expiry_height tx \<and> zt_expiry_height tx < 256 ^ 4"

definition txids_ok :: "tx_v4 \<Rightarrow> bool" where
  "txids_ok tx \<longleftrightarrow> list_all (\<lambda>t. length (zi_prev_txid t) = 32) (zt_inputs tx)"

definition v4_bytes :: "tx_v4 \<Rightarrow> bytes" where
  "v4_bytes tx = to_le 4 V4_HEADER @ to_le 4 V4_VERSION_GROUP
     @ varint_bytes (length (zt_inputs tx)) @ write_many input_bytes (zt_inputs tx)
     @ varint_bytes (length (zt_outputs tx)) @ write_many output_bytes (zt_outputs tx)
     @ to_le 4 (zt_lock_time tx) @ to_le 4 (zt_expiry_height tx) @ to_le 8 0 @ [0, 0, 0]"

lemmas map_writers =
  map_res_writer [OF write_input_Inr] map_res_writer [OF write_output_Inr]
  map_res_writer [OF write_prevout_Inr]

lemma header_range: "0 \<le> V4_HEADER" "V4_HEADER < 256 ^ 4" "0 \<le> V4_VERSION_GROUP"
  "V4_VERSION_GROUP < 256 ^ 4"
  by (simp_all add: V4_HEADER_def V4_VERSION_GROUP_def)

lemmas header_small = header_range [simplified]

lemma serialize_v4_Inr: "serialize_v4 tx = Inr raw \<longleftrightarrow> wf_v4 tx \<and> raw = v4_bytes tx"
  unfolding serialize_v4_def bind_res_eq_Inr pack_le_Inr zec_varint_Inr map_writers wf_v4_def
    v4_bytes_def write_many_def
  using header_range by auto

lemma parse_v4_bytes:
  assumes "wf_v4 tx" "txids_ok tx"
  shows "parse_v4 (v4_bytes tx) = Inr tx"
proof -
  let ?raw = "v4_bytes tx" and ?h = "to_le 4 V4_HEADER" and ?g = "to_le 4 V4_VERSION_GROUP"
    and ?ni = "varint_bytes (length (zt_inputs tx))" and ?is = "write_many input_bytes (zt_inputs tx)"
    and ?no = "varint_bytes (length (zt_outputs tx))" and ?os = "write_many output_bytes (zt_outputs tx)"
    and ?l = "to_le 4 (zt_lock_time tx)" and ?e = "to_le 4 (zt_expiry_height tx)"
    and ?q = "to_le 8 0 @ [0, 0, 0]"
  let ?i1 = "8 + length ?ni" let ?i2 = "?i1 + length ?is" let ?i3 = "?i2 + length ?no"
  let ?i4 = "?i3 + length ?os"
  note b = v4_bytes_def and w = assms(1) [unfolded wf_v4_def]
  have h: "int_at 4 ?raw 0 = V4_HEADER"
    using int_at_le [OF header_range(1,2), of 0 "[]"] by (simp add: b)
  have g: "int_at 4 ?raw 4 = V4_VERSION_GROUP"
    using int_at_le [OF header_range(3,4), of 4 ?h] by (simp add: b)
  have ni: "zec_read_varint ?raw 8 = Inr (length (zt_inputs tx), ?i1)"
    using read_varint_at' [of "length (zt_inputs tx)" 8 "?h @ ?g"] w by (simp add: b)
  have is': "read_many_at read_input (length (zt_inputs tx)) ?raw ?i1 = Inr (zt_inputs tx, ?i2)"
    using input_codec.read_many_at [of "zt_inputs tx" "?h @ ?g @ ?ni" "?no @ ?os @ ?l @ ?e @ ?q"] w assms(2)
    by (simp add: b txids_ok_def list_all_iff)
  have no: "zec_read_varint ?raw ?i2 = Inr (length (zt_outputs tx), ?i3)"
    using read_varint_at' [of "length (zt_outputs tx)" ?i2 "?h @ ?g @ ?ni @ ?is"] w by (simp add: b)
  have os: "read_many_at read_output (length (zt_outputs tx)) ?raw ?i3 = Inr (zt_outputs tx, ?i4)"
    using output_codec.read_many_at [of "zt_outputs tx" "?h @ ?g @ ?ni @ ?is @ ?no" "?l @ ?e @ ?q"] w
    by (simp add: b add.assoc)
  have l: "int_at 4 ?raw ?i4 = zt_lock_time tx"
    using int_at_le [of "zt_lock_time tx" 4 ?i4 "?h @ ?g @ ?ni @ ?is @ ?no @ ?os" "?e @ ?q"] w by (simp add: b)
  have e: "int_at 4 ?raw (?i4 + 4) = zt_expiry_height tx"
    using int_at_le [of "zt_expiry_height tx" 4 "?i4 + 4" "?h @ ?g @ ?ni @ ?is @ ?no @ ?os @ ?l" ?q] w
    by (simp add: b)
  have q: "int_at 8 ?raw (?i4 + 8) = 0"
    using int_at_le [of 0 8 "?i4 + 8" "?h @ ?g @ ?ni @ ?is @ ?no @ ?os @ ?l @ ?e" "[0, 0, 0]"] by (simp add: b)
  have v0: "varint_bytes 0 = [0]" by (simp add: varint_bytes_def byte_of_def)
  let ?pre = "?h @ ?g @ ?ni @ ?is @ ?no @ ?os @ ?l @ ?e @ to_le 8 0"
  have z: "zec_read_varint ?raw (?i4 + 16) = Inr (0, ?i4 + 17)"
    "zec_read_varint ?raw (?i4 + 17) = Inr (0, ?i4 + 18)"
    "zec_read_varint ?raw (?i4 + 18) = Inr (0, ?i4 + 19)"
    using read_varint_at' [of 0 "?i4 + 16" ?pre "[0, 0]"] read_varint_at' [of 0 "?i4 + 17" "?pre @ [0]" "[0]"]
      read_varint_at' [of 0 "?i4 + 18" "?pre @ [0, 0]" "[]"]
    by (simp_all add: b v0)
  have len: "length ?raw = ?i4 + 19" by (simp add: b)
  show ?thesis
    by (simp only: parse_v4_def Let_def h g ni is' no os l e q z len bind_res_simps prod.case) simp
qed

lemma read_varint_bounds: "zec_read_varint b i = Inr (n, j) \<Longrightarrow> n \<le> 0xFFFF \<and> i \<le> j"
proof -
  assume r: "zec_read_varint b i = Inr (n, j)"
  have "int_at 2 b (i + 1) < 65536" using int_at_bounds [of 2 b "i + 1"] by simp
  with r show ?thesis
    using int_at_bounds [of 2 b "i + 1"] by (auto simp: zec_read_varint_def Let_def split: if_splits)
qed

lemma read_input_wf:
  assumes "read_input raw i = Inr (t, j)"
  shows "i \<le> j \<and> wf_in t \<and> (j \<le> length raw \<longrightarrow> length (zi_prev_txid t) = 32)"
proof -
  from assms obtain n k where n: "zec_read_varint raw (i + 36) = Inr (n, k)"
    and t: "t = \<lparr>zi_prev_txid = slice i (i + 32) raw, zi_vout = int_at 4 raw (i + 32),
      zi_script_sig = slice k (k + n) raw, zi_sequence = int_at 4 raw (k + n)\<rparr>" and j: "j = k + n + 4"
    by (auto simp: read_input_def Let_def bind_res_eq_Inr)
  from read_varint_bounds [OF n] int_at_bounds [of 4 raw "i + 32"] int_at_bounds [of 4 raw "k + n"]
  show ?thesis by (auto simp: t j wf_in_def)
qed

lemma read_output_wf:
  assumes "read_output raw i = Inr (t, j)"
  shows "i \<le> j \<and> wf_out t"
proof -
  from assms obtain n k where n: "zec_read_varint raw (i + 8) = Inr (n, k)"
    and t: "t = \<lparr>zo_value = int_at 8 raw i, zo_script = slice k (k + n) raw\<rparr>" and j: "j = k + n"
    by (auto simp: read_output_def Let_def bind_res_eq_Inr)
  from read_varint_bounds [OF n] int_at_bounds [of 8 raw i] show ?thesis by (auto simp: t j wf_out_def)
qed

lemma read_many_at_all:
  assumes "\<And>i t j. rd raw i = Inr (t, j) \<Longrightarrow> i \<le> j \<and> (j \<le> m \<longrightarrow> P t)"
  shows "read_many_at rd n raw i = Inr (ts, j) \<Longrightarrow>
    i \<le> j \<and> length ts = n \<and> (j \<le> m \<longrightarrow> list_all P ts)"
proof (induction n arbitrary: i ts)
  case 0
  then show ?case by simp
next
  case (Suc n)
  then obtain t k us where t: "rd raw i = Inr (t, k)" "read_many_at rd n raw k = Inr (us, j)" "ts = t # us"
    by (auto simp: bind_res_eq_Inr)
  with Suc.IH [OF t(2)] assms [OF t(1)] show ?case by auto
qed

lemma parse_v4_wf: "parse_v4 raw = Inr tx \<Longrightarrow> wf_v4 tx \<and> txids_ok tx"
proof -
  assume "parse_v4 raw = Inr tx"
  then obtain n_in i1 ins i2 n_out i3 outs i4 i5 i6 a b c where
    r: "zec_read_varint raw 8 = Inr (n_in, i1)" "read_many_at read_input n_in raw i1 = Inr (ins, i2)"
      "zec_read_varint raw i2 = Inr (n_out, i3)" "read_many_at read_output n_out raw i3 = Inr (outs, i4)"
      "zec_read_varint raw (i4 + 16) = Inr (a, i5)" "zec_read_varint raw i5 = Inr (b, i6)"
      "zec_read_varint raw i6 = Inr (c, length raw)"
    and tx: "tx = \<lparr>zt_inputs = ins, zt_outputs = outs, zt_lock_time = int_at 4 raw i4,
      zt_expiry_height = int_at 4 raw (i4 + 4)\<rparr>"
    by (auto simp: parse_v4_def Let_def bind_res_eq_Inr split: if_splits)
  note v = r(1,3,5,6,7) [THEN read_varint_bounds]
  have outs: "i3 \<le> i4 \<and> length outs = n_out \<and> (i4 \<le> length raw \<longrightarrow> list_all wf_out outs)"
    by (rule read_many_at_all [OF _ r(4)]) (use read_output_wf in blast)
  have ins: "i1 \<le> i2 \<and> length ins = n_in \<and>
      (i2 \<le> length raw \<longrightarrow> list_all (\<lambda>t. wf_in t \<and> length (zi_prev_txid t) = 32) ins)"
    by (rule read_many_at_all [OF _ r(2)]) (use read_input_wf in blast)
  from v outs ins int_at_bounds [of 4 raw i4] int_at_bounds [of 4 raw "i4 + 4"] show ?thesis
    by (auto simp: tx wf_v4_def txids_ok_def list_all_iff)
qed

text \<open>
  C21: Zcash bytes. A transaction serializes exactly when every number and script fits its field,
  and then, with 32-byte transaction ids, parsing gives it back unchanged. Whatever the parser
  accepts is such a transaction, so it serializes again and parses to itself: a truncated or
  longer input never gives one.
\<close>

theorem v4_roundtrip:
  "((\<exists>raw. serialize_v4 tx = Inr raw) \<longleftrightarrow> wf_v4 tx)
   \<and> (serialize_v4 tx = Inr raw \<and> txids_ok tx \<longrightarrow> parse_v4 raw = Inr tx)
   \<and> (parse_v4 data = Inr tx \<longrightarrow> wf_v4 tx \<and> txids_ok tx
        \<and> (\<exists>raw. serialize_v4 tx = Inr raw \<and> parse_v4 raw = Inr tx))"
  by (auto simp: serialize_v4_Inr parse_v4_bytes dest: parse_v4_wf)

definition ex_tx :: tx_v4 where
  "ex_tx = \<lparr>zt_inputs = [\<lparr>zi_prev_txid = replicate 32 7, zi_vout = 1, zi_script_sig = [], zi_sequence = 0xFFFFFFFF\<rparr>],
     zt_outputs = [\<lparr>zo_value = 50000, zo_script = p2pkh_script (replicate 20 9)\<rparr>],
     zt_lock_time = 0, zt_expiry_height = 3000000\<rparr>"

lemma ex_tx_wf: "wf_v4 ex_tx" "txids_ok ex_tx"
  by (simp_all add: ex_tx_def wf_v4_def wf_in_def wf_out_def txids_ok_def p2pkh_script_def)

lemma v4_roundtrip_witness: "\<exists>raw. serialize_v4 ex_tx = Inr raw \<and> parse_v4 raw = Inr ex_tx"
  using v4_roundtrip [of ex_tx] ex_tx_wf by blast

section \<open>What a signature covers\<close>

definition write_outpoint :: "bytes \<times> int \<Rightarrow> bytes" where
  "write_outpoint = (\<lambda>(txid, vout). txid @ to_le 4 vout)"

definition outpoint :: "tx_in \<Rightarrow> bytes \<times> int" where
  "outpoint t = (zi_prev_txid t, zi_vout t)"

lemma to_le_inject: "0 \<le> m \<Longrightarrow> m < 256 ^ k \<Longrightarrow> 0 \<le> n \<Longrightarrow> n < 256 ^ k \<Longrightarrow> to_le k m = to_le k n \<longleftrightarrow> m = n"
  by (metis le_int_to_le)

lemma to_le_Nil [simp]: "to_le k n = [] \<longleftrightarrow> k = 0"
  by (metis length_0_conv length_to_le)

interpretation outpoints: prefix_writer write_outpoint
  "\<lambda>(txid, vout). length txid = 32 \<and> 0 \<le> vout \<and> vout < 256 ^ 4"
  by unfold_locales (auto simp: write_outpoint_def to_le_inject [of _ 4])

interpretation sequences: prefix_writer "to_le 4" "\<lambda>n. 0 \<le> n \<and> n < 256 ^ 4"
  by unfold_locales (auto simp: to_le_inject [of _ 4])

text \<open>The four texts that are hashed, each with its personalization.\<close>

definition preimage ::
  "zcash_libs \<Rightarrow> tx_v4 \<Rightarrow> nat \<Rightarrow> bytes \<Rightarrow> int \<Rightarrow> bytes" where
  "preimage lib tx index code val =
     to_le 4 V4_HEADER @ to_le 4 V4_VERSION_GROUP
     @ zl_blake2b lib (ascii ''ZcashPrevoutHash'') (write_many write_outpoint (map outpoint (zt_inputs tx)))
     @ zl_blake2b lib (ascii ''ZcashSequencHash'') (write_many (to_le 4) (map zi_sequence (zt_inputs tx)))
     @ zl_blake2b lib (ascii ''ZcashOutputsHash'') (write_many output_bytes (zt_outputs tx))
     @ replicate 96 0 @ to_le 4 (zt_lock_time tx) @ to_le 4 (zt_expiry_height tx) @ to_le 8 0
     @ to_le 4 SIGHASH_ALL @ write_outpoint (outpoint (zt_inputs tx ! index))
     @ varint_bytes (length code) @ code @ to_le 8 val @ to_le 4 (zi_sequence (zt_inputs tx ! index))"

definition hashed ::
  "zcash_libs \<Rightarrow> tx_v4 \<Rightarrow> nat \<Rightarrow> bytes \<Rightarrow> int \<Rightarrow> int \<Rightarrow> (bytes \<times> bytes) list" where
  "hashed lib tx index code val branch_id =
     [(ascii ''ZcashPrevoutHash'', write_many write_outpoint (map outpoint (zt_inputs tx))),
      (ascii ''ZcashSequencHash'', write_many (to_le 4) (map zi_sequence (zt_inputs tx))),
      (ascii ''ZcashOutputsHash'', write_many output_bytes (zt_outputs tx)),
      (ascii ''ZcashSigHash'' @ to_le 4 branch_id, preimage lib tx index code val)]"

definition signed_range :: "tx_v4 \<Rightarrow> nat \<Rightarrow> bytes \<Rightarrow> int \<Rightarrow> int \<Rightarrow> bool" where
  "signed_range tx index code val branch_id \<longleftrightarrow>
     list_all (\<lambda>t. 0 \<le> zi_vout t \<and> zi_vout t < 256 ^ 4) (zt_inputs tx)
   \<and> list_all (\<lambda>t. 0 \<le> zi_sequence t \<and> zi_sequence t < 256 ^ 4) (zt_inputs tx)
   \<and> list_all wf_out (zt_outputs tx) \<and> index < length (zt_inputs tx) \<and> length code \<le> 0xFFFF
   \<and> 0 \<le> zt_lock_time tx \<and> zt_lock_time tx < 256 ^ 4 \<and> 0 \<le> zt_expiry_height tx \<and> zt_expiry_height tx < 256 ^ 4
   \<and> 0 \<le> val \<and> val < 256 ^ 8 \<and> 0 \<le> branch_id \<and> branch_id < 256 ^ 4"

lemma sequence_writer:
  "map_res (\<lambda>i. pack_le 4 (zi_sequence i)) ts = Inr bs \<longleftrightarrow>
   list_all (\<lambda>t. 0 \<le> zi_sequence t \<and> zi_sequence t < 256 ^ 4) ts \<and> bs = map (\<lambda>t. to_le 4 (zi_sequence t)) ts"
  by (rule map_res_writer) (auto simp: pack_le_Inr)

lemma sighash_Inr:
  "sighash_zip243 lib tx index code val branch_id = Inr d \<longleftrightarrow>
     signed_range tx index code val branch_id
   \<and> d = (case last (hashed lib tx index code val branch_id) of (person, text) \<Rightarrow> zl_blake2b lib person text)"
proof -
  have zeros: "replicate 32 (0 :: byte) @ replicate 32 0 @ replicate 32 0 @ x = replicate 96 0 @ x" for x
    by (simp flip: append_assoc replicate_add)
  have seqs: "concat (map (\<lambda>t. to_le 4 (zi_sequence t)) ts) = write_many (to_le 4) (map zi_sequence ts)" for ts
    by (simp add: write_many_def comp_def)
  have outs: "concat (map output_bytes os) = write_many output_bytes os" for os
    by (simp add: write_many_def)
  have points: "concat (map (\<lambda>t. write_outpoint (outpoint t)) ts) = write_many write_outpoint (map outpoint ts)" for ts
    by (simp add: write_many_def comp_def)
  have point: "prevout_bytes t = write_outpoint (outpoint t)" for t
    by (simp add: prevout_bytes_def write_outpoint_def outpoint_def)
  let ?ts = "zt_inputs tx"
  let ?V = "\<lambda>t. 0 \<le> zi_vout t \<and> zi_vout t < 256 ^ 4" and ?S = "\<lambda>t. 0 \<le> zi_sequence t \<and> zi_sequence t < 256 ^ 4"
  note expand = sighash_zip243_def Let_def bind_res_eq_Inr map_writers sequence_writer pack_le_Inr
    sized_Inr write_prevout_Inr signed_range_def
  show ?thesis
  proof (cases "index < length ?ts \<and> list_all ?V ?ts \<and> list_all ?S ?ts")
    case False
    then show ?thesis by (auto simp: expand split: if_splits)
  next
    case True
    then have "?V (?ts ! index)" "?S (?ts ! index)" by (auto simp: list_all_length)
    with True show ?thesis
      by (simp add: expand header_small hashed_def preimage_def zeros seqs point points outs) auto
  qed
qed

text \<open>
  C20: A Zcash signature covers the transaction. Two digests agree only when everything the
  transaction says is the same (which outputs are spent, with which sequence numbers, every output,
  the lock time and the expiry) and so are the signed input, its script, its amount and the branch
  id - or when one of the four pairs of hashed texts is a collision of BLAKE2b.
\<close>

theorem sighash_binds:
  assumes "sighash_zip243 lib tx i code v br = Inr d" "sighash_zip243 lib tx' i' code' v' br' = Inr d"
    and "txids_ok tx" "txids_ok tx'" and "\<And>p t. length (zl_blake2b lib p t) = 32"
  shows "(map outpoint (zt_inputs tx) = map outpoint (zt_inputs tx')
      \<and> map zi_sequence (zt_inputs tx) = map zi_sequence (zt_inputs tx')
      \<and> zt_outputs tx = zt_outputs tx' \<and> zt_lock_time tx = zt_lock_time tx'
      \<and> zt_expiry_height tx = zt_expiry_height tx'
      \<and> outpoint (zt_inputs tx ! i) = outpoint (zt_inputs tx' ! i') \<and> code = code' \<and> v = v' \<and> br = br')
    \<or> (\<exists>(x, y) \<in> set (zip (hashed lib tx i code v br) (hashed lib tx' i' code' v' br')).
        x \<noteq> y \<and> zl_blake2b lib (fst x) (snd x) = zl_blake2b lib (fst y) (snd y))"
proof (rule disjCI)
  assume no: "\<not> (\<exists>(x, y) \<in> set (zip (hashed lib tx i code v br) (hashed lib tx' i' code' v' br')).
        x \<noteq> y \<and> zl_blake2b lib (fst x) (snd x) = zl_blake2b lib (fst y) (snd y))"
  let ?H = "zl_blake2b lib"
  let ?ts = "zt_inputs tx" and ?us = "zt_inputs tx'"
  from assms(1,2) have r: "signed_range tx i code v br" "signed_range tx' i' code' v' br'"
    and d: "?H (ascii ''ZcashSigHash'' @ to_le 4 br) (preimage lib tx i code v)
      = ?H (ascii ''ZcashSigHash'' @ to_le 4 br') (preimage lib tx' i' code' v')"
    unfolding sighash_Inr by (simp_all add: hashed_def)
  have inj: "t = u" if "?H p t = ?H p u" "((p, t), (p, u)) \<in> set (zip (hashed lib tx i code v br)
      (hashed lib tx' i' code' v' br'))" for p t u
    using no that by fastforce
  have last: "to_le 4 br = to_le 4 br'" "preimage lib tx i code v = preimage lib tx' i' code' v'"
    using no d by (auto simp: hashed_def)
  have pts: "length (write_outpoint (outpoint (?ts ! i))) = 36" "length (write_outpoint (outpoint (?us ! i'))) = 36"
    using r assms(3,4) by (auto simp: signed_range_def txids_ok_def list_all_length write_outpoint_def outpoint_def)
  from last(2) have h: "?H (ascii ''ZcashPrevoutHash'') (write_many write_outpoint (map outpoint ?ts))
        = ?H (ascii ''ZcashPrevoutHash'') (write_many write_outpoint (map outpoint ?us))"
      "?H (ascii ''ZcashSequencHash'') (write_many (to_le 4) (map zi_sequence ?ts))
        = ?H (ascii ''ZcashSequencHash'') (write_many (to_le 4) (map zi_sequence ?us))"
      "?H (ascii ''ZcashOutputsHash'') (write_many output_bytes (zt_outputs tx))
        = ?H (ascii ''ZcashOutputsHash'') (write_many output_bytes (zt_outputs tx'))"
      "to_le 4 (zt_lock_time tx) = to_le 4 (zt_lock_time tx')"
      "to_le 4 (zt_expiry_height tx) = to_le 4 (zt_expiry_height tx')"
      "write_outpoint (outpoint (?ts ! i)) = write_outpoint (outpoint (?us ! i'))"
      "varint_bytes (length code) @ code @ to_le 8 v @ to_le 4 (zi_sequence (?ts ! i))
        = varint_bytes (length code') @ code' @ to_le 8 v' @ to_le 4 (zi_sequence (?us ! i'))"
    using assms(5) pts by (auto simp: preimage_def)
  have rest: "length code = length code' \<and> code @ to_le 8 v @ to_le 4 (zi_sequence (?ts ! i))
      = code' @ to_le 8 v' @ to_le 4 (zi_sequence (?us ! i'))"
    using r by (intro varint_codec.prefix_free [OF _ _ h(7)]) (auto simp: signed_range_def)
  then have code: "code = code'" "to_le 8 v = to_le 8 v'" by auto
  have "write_many write_outpoint (map outpoint ?ts) = write_many write_outpoint (map outpoint ?us)"
    by (rule inj [OF h(1)]) (simp add: hashed_def)
  then have points: "map outpoint ?ts = map outpoint ?us"
    by (rule outpoints.write_many_inject [rotated 2])
       (use r assms(3,4) in \<open>auto simp: signed_range_def txids_ok_def list_all_iff outpoint_def\<close>)
  have "write_many (to_le 4) (map zi_sequence ?ts) = write_many (to_le 4) (map zi_sequence ?us)"
    by (rule inj [OF h(2)]) (simp add: hashed_def)
  then have seqs: "map zi_sequence ?ts = map zi_sequence ?us"
    by (rule sequences.write_many_inject [rotated 2])
       (use r in \<open>auto simp: signed_range_def list_all_iff\<close>)
  have "write_many output_bytes (zt_outputs tx) = write_many output_bytes (zt_outputs tx')"
    by (rule inj [OF h(3)]) (simp add: hashed_def)
  then have outs: "zt_outputs tx = zt_outputs tx'"
    by (rule output_codec.write_many_inject [rotated 2]) (use r in \<open>auto simp: signed_range_def\<close>)
  have "outpoint (?ts ! i) = outpoint (?us ! i') \<and> ([] :: bytes) = []"
    by (rule outpoints.prefix_free)
       (use r assms(3,4) h(6) in \<open>auto simp: signed_range_def txids_ok_def list_all_length outpoint_def\<close>)
  then show "map outpoint ?ts = map outpoint ?us \<and> map zi_sequence ?ts = map zi_sequence ?us
      \<and> zt_outputs tx = zt_outputs tx' \<and> zt_lock_time tx = zt_lock_time tx'
      \<and> zt_expiry_height tx = zt_expiry_height tx'
      \<and> outpoint (?ts ! i) = outpoint (?us ! i') \<and> code = code' \<and> v = v' \<and> br = br'"
    using points seqs outs code h(4,5) last(1) r
    by (auto simp: signed_range_def to_le_inject [of _ 4] to_le_inject [of _ 8])
qed

text \<open>Libraries whose digests are short texts, for examples.\<close>

definition ex_libs :: zcash_libs where
  "ex_libs = \<lparr>zl_b58encode = (\<lambda>b. lit ''b'' @ py_hex b), zl_b58decode = (\<lambda>s. py_fromhex (tl s)),
     zl_blake2b = (\<lambda>p t. take 32 (rev t @ replicate 32 0)), zl_sha256 = (\<lambda>t. take 32 (t @ replicate 32 0)),
     zl_sign = (\<lambda>k d. k @ d), zl_public_key = (\<lambda>k. k), zl_verify = (\<lambda>p s d. s = p @ d)\<rparr>"

lemma sighash_binds_witness:
  "\<exists>d. sighash_zip243 ex_libs ex_tx 0 [] 5 7 = Inr d"
proof -
  have r: "signed_range ex_tx 0 [] 5 7" by (simp add: signed_range_def ex_tx_def wf_out_def p2pkh_script_def)
  then obtain d where d: "sighash_zip243 ex_libs ex_tx 0 [] 5 7 = Inr d" using sighash_Inr by blast
  have "length (zl_blake2b ex_libs p t) = 32" for p t by (simp add: ex_libs_def)
  from sighash_binds [OF d d ex_tx_wf(2) ex_tx_wf(2) this] d show ?thesis by blast
qed

text \<open>
  The digest does not read the scripts of the inputs, so the digests that were signed are those
  of the signed transaction.
\<close>

definition unsigned :: "tx_v4 \<Rightarrow> tx_v4" where
  "unsigned tx = tx\<lparr>zt_inputs := map (\<lambda>t. t\<lparr>zi_script_sig := []\<rparr>) (zt_inputs tx)\<rparr>"

lemma sighash_unsigned:
  assumes "unsigned tx = unsigned tx'"
  shows "sighash_zip243 lib tx i code v br = sighash_zip243 lib tx' i code v br"
proof -
  let ?e = "\<lambda>t. t\<lparr>zi_script_sig := []\<rparr>"
  have "zt_inputs (unsigned tx) = zt_inputs (unsigned tx')" using assms by simp
  then have e: "map ?e (zt_inputs tx) = map ?e (zt_inputs tx')" by (simp add: unsigned_def)
  have "zt_outputs (unsigned tx) = zt_outputs (unsigned tx')"
    "zt_lock_time (unsigned tx) = zt_lock_time (unsigned tx')"
    "zt_expiry_height (unsigned tx) = zt_expiry_height (unsigned tx')"
    using assms by simp_all
  then have o: "zt_outputs tx = zt_outputs tx'" "zt_lock_time tx = zt_lock_time tx'"
    "zt_expiry_height tx = zt_expiry_height tx'"
    by (simp_all add: unsigned_def)
  have len: "length (zt_inputs tx) = length (zt_inputs tx')" using e map_eq_imp_length_eq by blast
  have f: "map f (zt_inputs tx) = map f (zt_inputs tx')" if "\<And>t. f (?e t) = f t" for f :: "tx_in \<Rightarrow> 'x"
  proof -
    have "map f (map ?e (zt_inputs tx)) = map f (map ?e (zt_inputs tx'))" using e by simp
    with that show ?thesis by (simp add: comp_def)
  qed
  have m: "map_res f xs = map_res (\<lambda>r. r) (map f xs)" for f :: "tx_in \<Rightarrow> zec_error + bytes" and xs
    by (induction xs) simp_all
  have wp: "write_prevout (?e t) = write_prevout t" for t by (simp add: write_prevout_def)
  have p: "map_res write_prevout (zt_inputs tx) = map_res write_prevout (zt_inputs tx')"
    unfolding m [of write_prevout] using f [of write_prevout, OF wp] by simp
  have s: "map_res (\<lambda>i. pack_le 4 (zi_sequence i)) (zt_inputs tx)
      = map_res (\<lambda>i. pack_le 4 (zi_sequence i)) (zt_inputs tx')"
    unfolding m [of "\<lambda>i. pack_le 4 (zi_sequence i)"]
    using f [of "\<lambda>i. pack_le 4 (zi_sequence i)"] by simp
  show ?thesis
  proof (cases "i < length (zt_inputs tx)")
    case False
    then show ?thesis by (simp add: sighash_zip243_def p s o len)
  next
    case True
    then have at: "?e (zt_inputs tx ! i) = ?e (zt_inputs tx' ! i)" using e len by (metis nth_map)
    from arg_cong [OF at, of zi_prev_txid] arg_cong [OF at, of zi_vout] arg_cong [OF at, of zi_sequence]
    show ?thesis using True len by (simp add: sighash_zip243_def p s o write_prevout_def Let_def)
  qed
qed

lemma sign_input_result:
  assumes "sign_input lib tx br k t (code, v) priv = Inr t'"
  obtains h d sig where "p2pkh_hash160 code = Some h" "sighash_zip243 lib tx k code v br = Inr d"
    "sig = zl_sign lib priv d" "zl_verify lib (zl_public_key lib priv) sig d"
    "t' = t\<lparr>zi_script_sig := byte_of (Suc (length sig)) # sig @ [1]
       @ byte_of (length (zl_public_key lib priv)) # zl_public_key lib priv\<rparr>"
  using assms
  by (auto simp: sign_input_def Let_def bind_res_eq_Inr push_byte_def SIGHASH_ALL_def byte_of_def
      split: if_splits)

lemma sign_loop_result:
  "sign_loop lib tx br k ts spent privs = Inr us \<Longrightarrow> length spent = length ts \<Longrightarrow>
   length privs = length ts \<Longrightarrow>
   length us = length ts \<and> map (\<lambda>t. t\<lparr>zi_script_sig := []\<rparr>) us = map (\<lambda>t. t\<lparr>zi_script_sig := []\<rparr>) ts
   \<and> (\<forall>j < length ts. sign_input lib tx br (k + j) (ts ! j) (spent ! j) (privs ! j) = Inr (us ! j))"
proof (induction lib tx br k ts spent privs arbitrary: us rule: sign_loop.induct)
  case (1 lib tx br k t ts s spent p privs)
  from 1(2) obtain u rest where u: "sign_input lib tx br k t s p = Inr u"
    and rest: "sign_loop lib tx br (Suc k) ts spent privs = Inr rest" and us: "us = u # rest"
    by (auto simp: bind_res_eq_Inr)
  obtain code v where s: "s = (code, v)" by (cases s) auto
  have same: "u\<lparr>zi_script_sig := []\<rparr> = t\<lparr>zi_script_sig := []\<rparr>"
    by (rule sign_input_result [OF u [unfolded s]]) simp
  have ih: "length rest = length ts \<and> map (\<lambda>t. t\<lparr>zi_script_sig := []\<rparr>) rest = map (\<lambda>t. t\<lparr>zi_script_sig := []\<rparr>) ts
    \<and> (\<forall>j < length ts. sign_input lib tx br (Suc k + j) (ts ! j) (spent ! j) (privs ! j) = Inr (rest ! j))"
    using 1(1) [OF rest] 1(3,4) by simp
  show ?case
  proof (intro conjI allI impI)
    fix j assume "j < length (t # ts)"
    then show "sign_input lib tx br (k + j) ((t # ts) ! j) ((s # spent) ! j) ((p # privs) ! j) = Inr (us ! j)"
      using ih u by (cases j) (simp_all add: us)
  qed (use ih same us in simp_all)
qed auto

definition witnessed :: "zcash_libs \<Rightarrow> tx_v4 \<Rightarrow> int \<Rightarrow> nat \<Rightarrow> bytes \<times> int \<Rightarrow> bytes \<Rightarrow> bool" where
  "witnessed lib tx br k = (\<lambda>(code, v) pub.
     \<exists>h d sig. p2pkh_hash160 code = Some h \<and> sighash_zip243 lib tx k code v br = Inr d
       \<and> zl_verify lib pub sig d
       \<and> zi_script_sig (zt_inputs tx ! k)
         = byte_of (Suc (length sig)) # sig @ [1] @ byte_of (length pub) # pub)"

text \<open>
  C22: What is signed is what is sent. Signing changes nothing of a Zcash transaction but the
  scripts of its inputs, and every input then carries a signature of its own key, under SIGHASH_ALL,
  that verifies against the digest of the signed transaction itself, for the P2PKH output and the
  amount it spends. Otherwise nothing is returned.
\<close>

theorem signed_transaction_verifies:
  assumes "sign_transparent lib tx spent privkeys br = Inr tx'"
  shows "unsigned tx' = unsigned tx \<and> length spent = length (zt_inputs tx')
    \<and> length privkeys = length (zt_inputs tx')
    \<and> list_all (\<lambda>k. witnessed lib tx' br k (spent ! k) (zl_public_key lib (privkeys ! k)))
        [0..<length (zt_inputs tx')]"
proof -
  have aligned: "length (zt_inputs tx) = length spent \<and> length spent = length privkeys"
    using assms unfolding sign_transparent_def by (metis sum.distinct(1))
  then have len: "length spent = length (zt_inputs tx)" "length privkeys = length (zt_inputs tx)" by simp_all
  from assms aligned obtain us where us: "sign_loop lib tx br 0 (zt_inputs tx) spent privkeys = Inr us"
    and tx': "tx' = tx\<lparr>zt_inputs := us\<rparr>"
    unfolding sign_transparent_def by (metis (no_types, lifting) bind_res_eq_Inr sum.inject(2))
  note r = sign_loop_result [OF us len]
  have same: "unsigned tx' = unsigned tx" using r by (simp add: unsigned_def tx')
  have "witnessed lib tx' br k (spent ! k) (zl_public_key lib (privkeys ! k))" if k: "k < length us" for k
  proof -
    obtain code v where s: "spent ! k = (code, v)" by (cases "spent ! k") auto
    have "sign_input lib tx br k (zt_inputs tx ! k) (code, v) (privkeys ! k) = Inr (us ! k)"
      using r k by (simp flip: s)
    then obtain h d sig where "p2pkh_hash160 code = Some h" "sighash_zip243 lib tx k code v br = Inr d"
      "sig = zl_sign lib (privkeys ! k) d" "zl_verify lib (zl_public_key lib (privkeys ! k)) sig d"
      "us ! k = (zt_inputs tx ! k)\<lparr>zi_script_sig := byte_of (Suc (length sig)) # sig @ [1]
         @ byte_of (length (zl_public_key lib (privkeys ! k))) # zl_public_key lib (privkeys ! k)\<rparr>"
      by (rule sign_input_result)
    moreover have "zt_inputs tx' = us" by (simp add: tx')
    ultimately show ?thesis
      unfolding witnessed_def s prod.case sighash_unsigned [OF same]
      by (intro exI conjI) (assumption | simp)+
  qed
  with r len same show ?thesis by (simp add: tx' list_all_length)
qed

lemma signed_transaction_verifies_witness:
  "\<exists>tx'. sign_transparent ex_libs ex_tx [(p2pkh_script (replicate 20 9), 60000)] [replicate 32 3] 7 = Inr tx'
     \<and> unsigned tx' = unsigned ex_tx"
proof -
  let ?s = "[(p2pkh_script (replicate 20 9), 60000)]"
  have "signed_range ex_tx 0 (p2pkh_script (replicate 20 9)) 60000 7"
    by (simp add: signed_range_def ex_tx_def wf_out_def p2pkh_script_def)
  then obtain d where d: "sighash_zip243 ex_libs ex_tx 0 (p2pkh_script (replicate 20 9)) 60000 7 = Inr d"
    using sighash_Inr by blast
  then have "length d = 32" by (auto simp: sighash_Inr hashed_def ex_libs_def)
  moreover have "p2pkh_hash160 (p2pkh_script (replicate 20 9)) \<noteq> None"
    by (simp add: p2pkh_hash160_def p2pkh_script_def)
  moreover have "zl_sign ex_libs = (\<lambda>k d. k @ d)" "zl_public_key ex_libs = (\<lambda>k. k)"
    "zl_verify ex_libs = (\<lambda>p s d. s = p @ d)"
    by (simp_all add: ex_libs_def)
  moreover obtain t where "zt_inputs ex_tx = [t]" by (simp add: ex_tx_def)
  ultimately obtain tx' where "sign_transparent ex_libs ex_tx ?s [replicate 32 3] 7 = Inr tx'"
    using d by (simp add: sign_transparent_def sign_input_def push_byte_def Let_def)
  with signed_transaction_verifies [OF this] show ?thesis by blast
qed

section \<open>One script, several spellings\<close>

text \<open>
  What the code relies on in base58check, of the payloads it makes addresses of (one of the two
  prefixes and a hash of 20 bytes): decoding undoes encoding, and the address does not start like a
  TEX one.
\<close>

definition base58_ok :: "zcash_libs \<Rightarrow> bool" where
  "base58_ok lib \<longleftrightarrow> (\<forall>p\<in>{PREFIX_T1, PREFIX_T3}. \<forall>h. length h = 20 \<longrightarrow>
     zl_b58decode lib (zl_b58encode lib (p @ h)) = Some (p @ h) \<and> \<not> is_tex (zl_b58encode lib (p @ h)))"

lemma prefixes: "length PREFIX_T1 = 2" "length PREFIX_T3 = 2" "PREFIX_T1 \<noteq> PREFIX_T3" "PREFIX_T3 \<noteq> PREFIX_T1"
  by (simp_all add: PREFIX_T1_def PREFIX_T3_def)

lemma p2pkh_inv [simp]: "length h = 20 \<Longrightarrow> p2pkh_hash160 (p2pkh_script h) = Some h"
  by (simp add: p2pkh_hash160_def p2pkh_script_def slice_def)

lemma p2sh_inv [simp]:
  "length h = 20 \<Longrightarrow> p2pkh_hash160 (p2sh_script h) = None \<and> p2sh_hash160 (p2sh_script h) = Some h"
  by (simp add: p2pkh_hash160_def p2sh_hash160_def p2sh_script_def slice_def)

lemma encoded_to_script:
  assumes "base58_ok lib" "length h = 20"
  shows "address_to_script lib (zl_b58encode lib (PREFIX_T1 @ h)) = Inr (p2pkh_script h)"
    "address_to_script lib (zl_b58encode lib (PREFIX_T3 @ h)) = Inr (p2sh_script h)"
  using assms prefixes by (simp_all add: address_to_script_def base58_ok_def Let_def)

lemma address_to_script_Inr:
  assumes "address_to_script lib a = Inr s"
  obtains h where "length h = 20" "s = p2pkh_script h" "is_tex a \<longrightarrow> tex_hash160 a = Inr h"
  | h where "length h = 20" "s = p2sh_script h" "\<not> is_tex a"
proof (cases "is_tex a")
  case True
  with assms obtain h where h: "tex_hash160 a = Inr h" "s = p2pkh_script h"
    by (auto simp: address_to_script_def bind_res_eq_Inr)
  then have "length h = 20" by (auto simp: tex_hash160_def split: sum.splits if_splits)
  with h that(1) show thesis by simp
next
  case False
  with assms obtain payload where p: "length payload = 22"
    "s = p2pkh_script (drop 2 payload) \<or> s = p2sh_script (drop 2 payload)"
    by (auto simp: address_to_script_def Let_def split: option.splits if_splits)
  with that [of "drop 2 payload"] False show thesis by auto
qed

text \<open>
  The gate compares like with like. The address that is read back from an output is one that
  pays the very script the output has; for a \<open>tex1\<close> address it is its canonical form, which is what
  the gate was told to expect; and the TEX form of a \<open>t1\<close> address has that address as canonical form.
\<close>

theorem canonical_address_pays:
  assumes "base58_ok lib" "address_to_script lib a = Inr s"
  shows "(\<exists>c. script_to_address lib s = Some c \<and> address_to_script lib c = Inr s
      \<and> canonical_address lib a = Inr (if is_tex a then c else a))
    \<and> (length h = 20 \<longrightarrow> (\<exists>t. t1_to_tex lib (zl_b58encode lib (PREFIX_T1 @ h)) = Inr t
        \<and> canonical_address lib t = Inr (zl_b58encode lib (PREFIX_T1 @ h))
        \<and> address_to_script lib t = Inr (p2pkh_script h)))"
proof (intro conjI impI)
  show "\<exists>c. script_to_address lib s = Some c \<and> address_to_script lib c = Inr s
      \<and> canonical_address lib a = Inr (if is_tex a then c else a)"
    using assms(2)
    by (rule address_to_script_Inr)
       (auto simp: script_to_address_def encoded_to_script [OF assms(1)] canonical_address_def tex_to_t1_def)
next
  assume h: "length h = 20"
  have "TEX_HRP \<noteq> []" by (simp add: TEX_HRP_def lit_def)
  then obtain t where t: "bech32m_encode TEX_HRP h = Inr t" "bech32m_decode t = Inr (TEX_HRP, h)"
    using b32_roundtrip [of TEX_HRP BECH32M h] unfolding bech32m_encode_def bech32m_decode_def by blast
  then have tex: "is_tex t" by (auto simp: bech32m_encode_def b32_encode_def bind_res_eq_Inr Let_def is_tex_def)
  have th: "tex_hash160 t = Inr h" using t h by (simp add: tex_hash160_def)
  show "\<exists>t. t1_to_tex lib (zl_b58encode lib (PREFIX_T1 @ h)) = Inr t
        \<and> canonical_address lib t = Inr (zl_b58encode lib (PREFIX_T1 @ h))
        \<and> address_to_script lib t = Inr (p2pkh_script h)"
  proof (intro exI conjI)
    show "t1_to_tex lib (zl_b58encode lib (PREFIX_T1 @ h)) = Inr t"
      unfolding t1_to_tex_def encoded_to_script(1) [OF assms(1) h] using h t(1) by simp
    show "canonical_address lib t = Inr (zl_b58encode lib (PREFIX_T1 @ h))"
      "address_to_script lib t = Inr (p2pkh_script h)"
      using tex th by (simp_all add: canonical_address_def tex_to_t1_def address_to_script_def)
  qed
qed

lemma ex_libs_base58: "base58_ok ex_libs"
  by (simp add: base58_ok_def ex_libs_def py_fromhex_hex is_tex_def TEX_HRP_def lit_def)

lemma canonical_address_pays_witness:
  "\<exists>c. script_to_address ex_libs (p2sh_script (replicate 20 1)) = Some c
     \<and> address_to_script ex_libs c = Inr (p2sh_script (replicate 20 1))"
proof -
  have "address_to_script ex_libs (zl_b58encode ex_libs (PREFIX_T3 @ replicate 20 1))
      = Inr (p2sh_script (replicate 20 1))"
    by (rule encoded_to_script [OF ex_libs_base58]) simp
  from canonical_address_pays [OF ex_libs_base58 this] show ?thesis by blast
qed

end
