(* ===== verification/Zcash.thy ===== *)
theory Zcash
  imports ZcashTx CosmosTx Gated
begin

text \<open>
  \<open>src/swapsack/chains/zcash.py\<close>: the messages of lightwalletd and the ZEC adapter, which plugs its
  own builder into the gate wrappers of \<open>Gated\<close>. Key derivation, like the libraries of \<open>ZcashTx\<close>, is
  a parameter; the replies of the two RPCs a build makes are its arguments, since a failed one
  raises and nothing is built.
\<close>

section \<open>lightwalletd messages\<close>

text \<open>\<open>fields.get(k, [0])[0]\<close>.\<close>

definition first_or_zero :: "pb_fields \<Rightarrow> nat \<Rightarrow> pb_value" where
  "first_or_zero fs k = (case field_values fs k of [] \<Rightarrow> PbInt 0 | v # vs \<Rightarrow> v)"

definition encode_address_list :: "pystr list \<Rightarrow> bytes" where
  "encode_address_list addresses = concat (map (string_field 1) addresses)"

definition decode_balance :: "bytes \<Rightarrow> py_error + pb_value" where
  "decode_balance data = bind_res (read_fields data) (\<lambda>fs. Inr (first_or_zero fs 1))"

definition decode_block_id_height :: "bytes \<Rightarrow> py_error + pb_value" where
  "decode_block_id_height data = bind_res (read_fields data) (\<lambda>fs. Inr (first_or_zero fs 1))"

definition encode_block_filter :: "pystr \<Rightarrow> int \<Rightarrow> int \<Rightarrow> py_error + bytes" where
  "encode_block_filter address start_height end_height =
     bind_res (uint64_field 1 start_height) (\<lambda>s.
     bind_res (uint64_field 1 end_height) (\<lambda>e.
       Inr (string_field 1 address @ delimited 2 (delimited 1 s @ delimited 2 e))))"

definition encode_utxos_arg :: "pystr \<Rightarrow> int \<Rightarrow> py_error + bytes" where
  "encode_utxos_arg address start_height =
     bind_res (uint64_field 2 start_height) (\<lambda>s. Inr (string_field 1 address @ s))"

text \<open>
  The value of a field that is used as a number or as bytes. A field of the other wire type is a
  TypeError here; Python carries it on until it is first used as what it is not.
\<close>

definition as_int :: "pb_value \<Rightarrow> py_error + int" where
  "as_int v = (case v of PbInt n \<Rightarrow> Inr (int n) | PbBytes b \<Rightarrow> Inl TypeError)"

definition as_bytes :: "pb_value \<Rightarrow> py_error + bytes" where
  "as_bytes v = (case v of PbInt n \<Rightarrow> Inl TypeError | PbBytes b \<Rightarrow> Inr b)"

definition decode_utxo :: "pystr \<Rightarrow> pb_value \<Rightarrow> py_error + utxo" where
  "decode_utxo address entry =
     bind_res (sub_fields entry) (\<lambda>fs.
     bind_res (bind_res (first_value fs 1) as_bytes) (\<lambda>txid.
     bind_res (as_int (first_or_zero fs 2)) (\<lambda>vout.
     bind_res (bind_res (first_value fs 4) as_int) (\<lambda>val.
       Inr \<lparr>u_txid = py_hex (rev txid), u_vout = vout, u_value = val, u_address = address,
            u_path = None, u_confirmed = True, u_ancestor_deficit = 0\<rparr>))))"

definition decode_utxos_reply :: "bytes \<Rightarrow> pystr \<Rightarrow> py_error + utxo list" where
  "decode_utxos_reply data address =
     bind_res (read_fields data) (\<lambda>fs. map_res (decode_utxo address) (field_values fs 1))"

definition decode_branch_id :: "bytes \<Rightarrow> py_error + int" where
  "decode_branch_id data =
     bind_res (read_fields data) (\<lambda>fs.
     bind_res (text_at fs 6) (\<lambda>t.
       case py_int16 t of None \<Rightarrow> Inl ValueError | Some n \<Rightarrow> Inr n))"

text \<open>The error message is decoded leniently; only whether there is a code matters.\<close>

definition decode_send_response :: "(bytes \<Rightarrow> pystr) \<Rightarrow> bytes \<Rightarrow> py_error + (pb_value \<times> pystr)" where
  "decode_send_response decode_replace data =
     bind_res (read_fields data) (\<lambda>fs.
       case first_or_empty fs 2 of
         PbInt n \<Rightarrow> Inl AttributeError
       | PbBytes b \<Rightarrow> Inr (first_or_zero fs 1, decode_replace b))"

section \<open>The adapter\<close>

definition EXPIRY_DELTA :: int where
  "EXPIRY_DELTA = 40"

definition ZEC_DEFAULT_DERIVATION :: pystr where
  "ZEC_DEFAULT_DERIVATION = lit ''m/44'/133'/0'/0/0''"

record zec_built =
  zb_tx :: tx_v4
  zb_spent :: "(bytes \<times> int) list"
  zb_privkeys :: "bytes list"
  zb_outputs :: "tx_output list"
  zb_fee :: int
  zb_change_address :: pystr
  zb_branch_id :: int

definition zec_res :: "zec_error + 'a \<Rightarrow> build_error + 'a" where
  "zec_res r = (case r of Inl e \<Rightarrow> Inl (BuildPy (zec_py e)) | Inr x \<Rightarrow> Inr x)"

definition build_py :: "py_error + 'a \<Rightarrow> build_error + 'a" where
  "build_py r = (case r of Inl e \<Rightarrow> Inl (BuildPy e) | Inr x \<Rightarrow> Inr x)"

definition choose_zec_coins :: "utxo list \<Rightarrow> int \<Rightarrow> bytes \<Rightarrow> bool \<Rightarrow> build_error + selection" where
  "choose_zec_coins utxos amount payload sweep =
     (if sweep then
        (let fee = sum_list (map u_value utxos) - amount in
         if fee < 0 then Inl (ExceedsBalance amount)
         else Inr \<lparr>s_utxos = utxos, s_fee = fee, s_change = 0\<rparr>)
      else coins_res (select_coins_zip317 utxos amount (int (length payload)) DUST_ZEC))"

definition zec_outputs ::
  "zcash_libs \<Rightarrow> pystr \<Rightarrow> int \<Rightarrow> memo option \<Rightarrow> pystr \<Rightarrow> int \<Rightarrow> build_error + tx_out list" where
  "zec_outputs lib vault_address amount m change_address change =
     bind_res (zec_res (address_to_script lib vault_address)) (\<lambda>vault.
     bind_res (case m of None \<Rightarrow> Inr []
               | Some _ \<Rightarrow> bind_res (coins_res (encode_op_return (memo_bytes m))) (\<lambda>s.
                   Inr [\<lparr>zo_value = 0, zo_script = s\<rparr>])) (\<lambda>data.
     bind_res (if 0 < change
               then bind_res (zec_res (address_to_script lib change_address)) (\<lambda>s.
                      Inr [\<lparr>zo_value = change, zo_script = s\<rparr>])
               else Inr []) (\<lambda>rest.
       Inr (\<lparr>zo_value = amount, zo_script = vault\<rparr> # data @ rest))))"

definition zec_input :: "utxo \<Rightarrow> build_error + tx_in" where
  "zec_input u =
     (case py_fromhex (u_txid u) of
        None \<Rightarrow> Inl (BuildPy ValueError)
      | Some b \<Rightarrow> Inr \<lparr>zi_prev_txid = rev b, zi_vout = u_vout u, zi_script_sig = [],
                      zi_sequence = 0xFFFFFFFF\<rparr>)"

definition zec_spent :: "zcash_libs \<Rightarrow> utxo \<Rightarrow> build_error + (bytes \<times> int)" where
  "zec_spent lib u =
     bind_res (zec_res (address_to_script lib (u_address u))) (\<lambda>s. Inr (s, u_value u))"

text \<open>An output as the gate sees it, decoded from the bytes that were serialized.\<close>

definition neutral_output :: "zcash_libs \<Rightarrow> tx_out \<Rightarrow> build_error + tx_output" where
  "neutral_output lib out =
     (if take 1 (zo_script out) = [0x6a]
      then bind_res (coins_res (decode_op_return (zo_script out))) (\<lambda>data.
             Inr \<lparr>o_address = script_to_address lib (zo_script out), o_value = zo_value out,
                  o_data = Some data\<rparr>)
      else Inr \<lparr>o_address = script_to_address lib (zo_script out), o_value = zo_value out,
                o_data = None\<rparr>)"

definition zec_build_unsigned_swap ::
  "zcash_libs \<Rightarrow> (pystr \<Rightarrow> bytes) \<Rightarrow> bytes \<Rightarrow> bytes \<Rightarrow> utxo list \<Rightarrow> pystr \<Rightarrow> int \<Rightarrow> memo option
   \<Rightarrow> pystr \<Rightarrow> bool \<Rightarrow> build_error + zec_built" where
  "zec_build_unsigned_swap lib privkey latest_block lightd_info utxos vault_address amount m
     change_address sweep =
     bind_res (choose_zec_coins utxos amount (memo_bytes m) sweep) (\<lambda>sel.
     bind_res (zec_outputs lib vault_address amount m change_address (s_change sel)) (\<lambda>outputs.
     bind_res (map_res zec_input (s_utxos sel)) (\<lambda>inputs.
     bind_res (build_py (bind_res (decode_block_id_height latest_block) as_int)) (\<lambda>height.
     let tx = \<lparr>zt_inputs = inputs, zt_outputs = outputs, zt_lock_time = 0,
               zt_expiry_height = height + EXPIRY_DELTA\<rparr> in
     bind_res (map_res (zec_spent lib) (s_utxos sel)) (\<lambda>spent.
     bind_res (zec_res (bind_res (serialize_v4 tx) parse_v4)) (\<lambda>parsed.
     bind_res (map_res (neutral_output lib) (zt_outputs parsed)) (\<lambda>neutral.
     bind_res (build_py (decode_branch_id lightd_info)) (\<lambda>branch_id.
       Inr \<lparr>zb_tx = tx, zb_spent = spent,
            zb_privkeys = map (\<lambda>u. privkey (if or_empty (u_path u) \<noteq> [] then or_empty (u_path u)
                                            else ZEC_DEFAULT_DERIVATION)) (s_utxos sel),
            zb_outputs = neutral, zb_fee = s_fee sel, zb_change_address = change_address,
            zb_branch_id = branch_id\<rparr>))))))))"

text \<open>
  The adapter as a builder for the gate wrappers. Its canonical form is only asked for once a
  transaction to the address was built, and then there is one.
\<close>

definition zec_builder ::
  "zcash_libs \<Rightarrow> (pystr \<Rightarrow> bytes) \<Rightarrow> bytes \<Rightarrow> bytes \<Rightarrow> zec_built gated_builder" where
  "zec_builder lib privkey latest_block lightd_info =
     \<lparr>gb_hook = (\<lambda>utxos vault amount m fee_rate change_address sweep.
        zec_build_unsigned_swap lib privkey latest_block lightd_info utxos vault amount m
          change_address sweep),
      gb_outputs = zb_outputs, gb_fee = zb_fee,
      gb_canonical = (\<lambda>a. case canonical_address lib a of Inr c \<Rightarrow> c | Inl e \<Rightarrow> a),
      gb_memo_max_bytes = OP_RETURN_MAX_BYTES\<rparr>"

definition zec_display_address :: "zcash_libs \<Rightarrow> pystr \<Rightarrow> pystr" where
  "zec_display_address lib address =
     (case t1_to_tex lib address of
        Inr t \<Rightarrow> address @ lit '' (tex1'' @ [8230] @ lit '' form: '' @ t @ lit '')''
      | Inl e \<Rightarrow> address)"

definition zec_sweep_send_amount :: "int \<Rightarrow> int \<Rightarrow> int \<Rightarrow> coins_error + (int \<times> int)" where
  "zec_sweep_send_amount tot n_inputs memo_len = sweep_amount_zip317 tot n_inputs memo_len DUST_ZEC"

definition zec_sign :: "zcash_libs \<Rightarrow> zec_built \<Rightarrow> zec_error + pystr list" where
  "zec_sign lib built =
     bind_res (sign_transparent lib (zb_tx built) (zb_spent built) (zb_privkeys built)
         (zb_branch_id built)) (\<lambda>signed.
     bind_res (serialize_v4 signed) (\<lambda>raw. Inr [py_hex raw]))"

text \<open>An RPC is a method name and a request; a failed one is a RuntimeError.\<close>

type_synonym ('w, 'p) unary = "pystr \<Rightarrow> bytes \<Rightarrow> ('w, 'p, bytes) io"

definition zec_fetch_utxos :: "('w, 'p) unary \<Rightarrow> pystr \<Rightarrow> ('w, 'p, utxo list) io" where
  "zec_fetch_utxos unary address =
     and_then (of_py (encode_utxos_arg address 1)) (\<lambda>arg.
     and_then (unary (lit ''GetAddressUtxos'') arg) (\<lambda>resp. of_py (decode_utxos_reply resp address)))"

fun zec_broadcast_loop ::
  "zcash_libs \<Rightarrow> ('w, 'p) unary \<Rightarrow> (bytes \<Rightarrow> pystr) \<Rightarrow> pystr \<Rightarrow> pystr list \<Rightarrow> ('w, 'p, pystr) io" where
  "zec_broadcast_loop lib unary decode_replace tx_id [] = ret tx_id"
| "zec_broadcast_loop lib unary decode_replace tx_id (raw # raws) =
     (case py_fromhex raw of
        None \<Rightarrow> raise (PyExn ValueError)
      | Some data \<Rightarrow>
          and_then (unary (lit ''SendTransaction'') (delimited 1 data)) (\<lambda>resp.
          and_then (of_py (decode_send_response decode_replace resp)) (\<lambda>(code, message).
            if code \<noteq> PbInt 0 then raise RuntimeError
            else zec_broadcast_loop lib unary decode_replace (txid lib data) raws)))"

definition zec_broadcast ::
  "zcash_libs \<Rightarrow> ('w, 'p) unary \<Rightarrow> (bytes \<Rightarrow> pystr) \<Rightarrow> pystr list \<Rightarrow> ('w, 'p, pystr) io" where
  "zec_broadcast lib unary decode_replace raws = zec_broadcast_loop lib unary decode_replace [] raws"

section \<open>What was built\<close>

lemma zec_res_Inr: "zec_res r = Inr x \<longleftrightarrow> r = Inr x"
  by (cases r) (simp_all add: zec_res_def)

lemma build_py_Inr: "build_py r = Inr x \<longleftrightarrow> r = Inr x"
  by (cases r) (simp_all add: build_py_def)

lemma choose_zec_result:
  assumes "choose_zec_coins utxos amount payload sweep = Inr sel"
    and "sweep \<or> zip317_sane (int (length payload)) utxos"
  shows "0 \<le> s_fee sel \<and> 0 \<le> s_change sel \<and> set (s_utxos sel) \<subseteq> set utxos
    \<and> sum_list (map u_value (s_utxos sel)) = amount + s_fee sel + s_change sel"
proof (cases sweep)
  case True
  with assms(1) show ?thesis by (auto simp: choose_zec_coins_def Let_def split: if_splits)
next
  case False
  with assms(1) have sel: "select_core utxos amount DUST_ZEC (zip317_model (int (length payload))) = Inr sel"
    by (simp add: choose_zec_coins_def coins_res_Inr select_coins_zip317_def)
  have "zip317_sane (int (length payload)) (select_order utxos)"
    using assms(2) False coins_ok_mset [of utxos "select_order utxos"] by (simp add: zip317_sane_def)
  then have "0 \<le> s_fee sel"
    using zip317.select_fee_nonneg [of DUST_ZEC _ utxos amount sel] sel by (simp add: DUST_ZEC_def)
  moreover have "set (select_order utxos) = set utxos" by (metis mset_select_order set_mset_mset)
  moreover obtain rest where "select_order utxos = s_utxos sel @ rest" using select_core_sound(3) [OF sel] ..
  ultimately have "set utxos = set (s_utxos sel) \<union> set rest" "0 \<le> s_fee sel" by (metis set_append, simp)
  moreover have "0 \<le> s_change sel" using select_core_sound(2) [OF sel] by (auto simp: DUST_ZEC_def)
  ultimately show ?thesis using select_core_sound(1) [OF sel] by auto
qed

text \<open>
  An address whose spelling the extraction reproduces: a TEX address, or a \<open>t1\<close> or \<open>t3\<close> address as
  base58check spells it.
\<close>

definition spelled :: "zcash_libs \<Rightarrow> pystr \<Rightarrow> bool" where
  "spelled lib a \<longleftrightarrow> is_tex a
     \<or> (\<exists>p h. p \<in> {PREFIX_T1, PREFIX_T3} \<and> length h = 20 \<and> a = zl_b58encode lib (p @ h))"

lemma script_first:
  "address_to_script lib a = Inr s \<Longrightarrow> take 1 s \<noteq> [0x6a]"
  by (erule address_to_script_Inr) (simp_all add: p2pkh_script_def p2sh_script_def)

lemma spelled_extracted:
  assumes "base58_ok lib" "spelled lib a" "address_to_script lib a = Inr s"
  shows "\<exists>c. script_to_address lib s = Some c \<and> canonical_address lib a = Inr c"
proof (cases "is_tex a")
  case True
  with assms(3) show ?thesis
    by (auto elim!: address_to_script_Inr simp: script_to_address_def canonical_address_def tex_to_t1_def)
next
  case False
  with assms(2) obtain p h where a: "p \<in> {PREFIX_T1, PREFIX_T3}" "length h = 20" "a = zl_b58encode lib (p @ h)"
    by (auto simp: spelled_def)
  with assms(1,3) have "s = (if p = PREFIX_T1 then p2pkh_script h else p2sh_script h)"
    using encoded_to_script [OF assms(1) a(2)] by (auto split: if_splits)
  with False a show ?thesis by (auto simp: script_to_address_def canonical_address_def)
qed

lemma neutral_address:
  assumes "address_to_script lib a = Inr s" "script_to_address lib s = Some c"
  shows "neutral_output lib \<lparr>zo_value = v, zo_script = s\<rparr> = Inr (paid_output v c)"
  using script_first [OF assms(1)] assms(2) by (simp add: neutral_output_def paid_output_def)

lemma neutral_data:
  assumes "encode_op_return d = Inr s"
  shows "neutral_output lib \<lparr>zo_value = 0, zo_script = s\<rparr> = Inr (data_output d)"
proof -
  note e = encode_op_return_decodes [OF assms]
  then obtain t where s: "s = 0x6a # t" by (cases s) (auto simp: OP_RETURN_OPCODE_def byte_of_def)
  then have "script_to_address lib s = None"
    by (simp add: script_to_address_def p2pkh_hash160_def p2sh_hash160_def)
  with e s show ?thesis by (simp add: neutral_output_def data_output_def coins_res_def)
qed

lemma zec_inputs_ok:
  assumes "map_res zec_input us = Inr ts"
    and "list_all (\<lambda>u. \<exists>b. py_fromhex (u_txid u) = Some b \<and> length b = 32) us"
  shows "list_all (\<lambda>t. length (zi_prev_txid t) = 32) ts"
  using assms
proof (induction us arbitrary: ts)
  case Nil
  then show ?case by simp
next
  case (Cons u us)
  then show ?case by (auto simp: bind_res_eq_Inr zec_input_def)
qed

lemma zec_build_result:
  assumes "zec_build_unsigned_swap lib privkey latest info utxos vault amount m change sweep = Inr b"
    and "base58_ok lib" "spelled lib vault" "length hc = 20" "change = zl_b58encode lib (PREFIX_T1 @ hc)"
    and "list_all (\<lambda>u. \<exists>b. py_fromhex (u_txid u) = Some b \<and> length b = 32) utxos"
    and "sweep \<or> zip317_sane (int (length (memo_bytes m))) utxos"
  obtains v c where "canonical_address lib vault = Inr c"
    "zb_outputs b = built_outputs amount c (if m = None then None else Some (memo_bytes m)) v change"
    "0 \<le> zb_fee b" "m \<noteq> None \<longrightarrow> length (memo_bytes m) \<le> 80"
    "sum_list (map snd (zb_spent b)) = sum_list (map o_value (zb_outputs b)) + zb_fee b"
proof -
  from assms(1) obtain sel outs ins height raw parsed spent where
    sel: "choose_zec_coins utxos amount (memo_bytes m) sweep = Inr sel"
    and outs: "zec_outputs lib vault amount m change (s_change sel) = Inr outs"
    and ins: "map_res zec_input (s_utxos sel) = Inr ins"
    and spent: "map_res (zec_spent lib) (s_utxos sel) = Inr spent"
    and raw: "serialize_v4 \<lparr>zt_inputs = ins, zt_outputs = outs, zt_lock_time = 0,
        zt_expiry_height = height + EXPIRY_DELTA\<rparr> = Inr raw" "parse_v4 raw = Inr parsed"
    and neutral: "map_res (neutral_output lib) (zt_outputs parsed) = Inr (zb_outputs b)"
    and b: "zb_fee b = s_fee sel" "zb_spent b = spent"
    by (auto simp: zec_build_unsigned_swap_def Let_def bind_res_eq_Inr build_py_Inr zec_res_Inr)
  note c = choose_zec_result [OF sel assms(7)]
  have "list_all (\<lambda>u. \<exists>b. py_fromhex (u_txid u) = Some b \<and> length b = 32) (s_utxos sel)"
    using assms(6) c by (auto simp: list_all_iff)
  then have ids: "txids_ok \<lparr>zt_inputs = ins, zt_outputs = outs, zt_lock_time = 0,
      zt_expiry_height = height + EXPIRY_DELTA\<rparr>"
    using zec_inputs_ok [OF ins] by (simp add: txids_ok_def)
  have "parsed = \<lparr>zt_inputs = ins, zt_outputs = outs, zt_lock_time = 0,
      zt_expiry_height = height + EXPIRY_DELTA\<rparr>"
    using raw parse_v4_bytes [OF _ ids] by (simp add: serialize_v4_Inr)
  then have shown: "map_res (neutral_output lib) outs = Inr (zb_outputs b)" using neutral by simp
  from outs obtain vs ds where vs: "address_to_script lib vault = Inr vs"
    and ds: "m \<noteq> None \<longrightarrow> encode_op_return (memo_bytes m) = Inr ds"
    and o: "outs = \<lparr>zo_value = amount, zo_script = vs\<rparr>
      # (if m = None then [] else [\<lparr>zo_value = 0, zo_script = ds\<rparr>])
      @ (if 0 < s_change sel then [\<lparr>zo_value = s_change sel, zo_script = p2pkh_script hc\<rparr>] else [])"
    by (auto simp: zec_outputs_def bind_res_eq_Inr zec_res_Inr coins_res_Inr assms(5)
        encoded_to_script [OF assms(2,4)] split: option.splits if_splits)
  obtain c' where c': "script_to_address lib vs = Some c'" "canonical_address lib vault = Inr c'"
    using spelled_extracted [OF assms(2,3) vs] by blast
  have "script_to_address lib (p2pkh_script hc) = Some change"
    using assms(4,5) by (simp add: script_to_address_def)
  note change = neutral_address [OF encoded_to_script(1) [OF assms(2,4)] this]
  have built: "zb_outputs b = built_outputs amount c' (if m = None then None else Some (memo_bytes m))
      (s_change sel) change"
    using shown ds unfolding o built_outputs_def
    by (cases "m = None") (auto simp: neutral_address [OF vs c'(1)] change neutral_data split: if_splits)
  have sums: "map snd spent = map u_value us" if "map_res (zec_spent lib) us = Inr spent" for us spent
    using that
  proof (induction us arbitrary: spent)
    case Nil
    then show ?case by simp
  next
    case (Cons u us)
    then show ?case by (auto simp: bind_res_eq_Inr zec_spent_def)
  qed
  show thesis
  proof (rule that [OF c'(2) built])
    show "0 \<le> zb_fee b" using c b by simp
    show "m \<noteq> None \<longrightarrow> length (memo_bytes m) \<le> 80" using ds encode_op_return_decodes by blast
    show "sum_list (map snd (zb_spent b)) = sum_list (map o_value (zb_outputs b)) + zb_fee b"
      using c b sums [OF spent]
      by (auto simp: built built_outputs_def paid_output_def data_output_def)
  qed
qed

text \<open>The amounts the inputs are signed for are what the outputs get and the fee.\<close>

definition spent_for_outputs :: "zec_built \<Rightarrow> bool" where
  "spent_for_outputs b \<longleftrightarrow>
     sum_list (map snd (zb_spent b)) = sum_list (map o_value (zb_outputs b)) + zb_fee b"

text \<open>The ZEC builder is honest.\<close>

definition zec_ready ::
  "zec_built gated_builder \<Rightarrow> utxo list \<Rightarrow> pystr \<Rightarrow> float64 \<Rightarrow> pystr \<Rightarrow> bool \<Rightarrow> memo option \<Rightarrow> bool" where
  "zec_ready g utxos vault rate change sweep m \<longleftrightarrow>
     (\<exists>lib privkey latest info hc. g = zec_builder lib privkey latest info
        \<and> base58_ok lib \<and> spelled lib vault \<and> length hc = 20 \<and> change = zl_b58encode lib (PREFIX_T1 @ hc)
        \<and> canonical_address lib vault \<noteq> Inr change
        \<and> list_all (\<lambda>u. \<exists>b. py_fromhex (u_txid u) = Some b \<and> length b = 32) utxos
        \<and> (sweep \<or> zip317_sane (int (length (memo_bytes m))) utxos))"

interpretation zec_family: honest_builder zec_ready
proof
  fix g utxos vault rate change sweep m n b
  assume "zec_ready g utxos vault rate change sweep m" and run: "gb_hook g utxos vault n m rate change sweep = Inr b"
  then obtain lib privkey latest info hc where g: "g = zec_builder lib privkey latest info"
    and r: "base58_ok lib" "spelled lib vault" "length hc = 20" "change = zl_b58encode lib (PREFIX_T1 @ hc)"
      "list_all (\<lambda>u. \<exists>b. py_fromhex (u_txid u) = Some b \<and> length b = 32) utxos"
      "sweep \<or> zip317_sane (int (length (memo_bytes m))) utxos"
    and apart: "canonical_address lib vault \<noteq> Inr change"
    unfolding zec_ready_def by blast
  have "zec_build_unsigned_swap lib privkey latest info utxos vault n m change sweep = Inr b"
    using run by (simp add: g zec_builder_def)
  then show "honest_outputs n (gb_canonical g vault) (if m = None then None else Some (memo_bytes m)) change (gb_outputs g b)
      \<and> 0 \<le> gb_fee g b \<and> length (memo_bytes m) \<le> gb_memo_max_bytes g \<and> change \<noteq> gb_canonical g vault"
    by (rule zec_build_result [OF _ r])
       (use apart in \<open>cases m; simp add: g zec_builder_def OP_RETURN_MAX_BYTES_def\<close>)
qed

lemma zec_readyI:
  assumes "base58_ok lib" "spelled lib vault" "length hc = 20" "change = zl_b58encode lib (PREFIX_T1 @ hc)"
    and "canonical_address lib vault \<noteq> Inr change"
    and "list_all (\<lambda>u. \<exists>b. py_fromhex (u_txid u) = Some b \<and> length b = 32) utxos"
    and "sweep \<or> zip317_sane (int (length (memo_bytes m))) utxos"
  shows "zec_ready (zec_builder lib privkey latest info) utxos vault rate change sweep m"
  using assms unfolding zec_ready_def by blast

text \<open>
  C19: ZEC passes the shared gate. A Zcash swap, deposit or send that was built is read back, out of
  the bytes that were serialized, as a payment of the vault's canonical address with the memo and
  change to our own address. So its gate is silent exactly when the quote is unexpired, its memo
  names the destination and the fee is within the cap (of a deposit or a send: when the fee is
  within the cap), also for a vault that is given as a TEX address; and in each of the three the
  amounts that the inputs are signed for are the outputs plus the fee.
\<close>

theorem zec_transactions_pass:
  assumes "base58_ok lib" "spelled lib vault" "length hc = 20" "change = zl_b58encode lib (PREFIX_T1 @ hc)"
    and "canonical_address lib vault \<noteq> Inr change"
    and "list_all (\<lambda>u. \<exists>b. py_fromhex (u_txid u) = Some b \<and> length b = 32) utxos"
    and "sweep \<or> zip317_sane (int (length (utf8_encode m))) utxos \<and> zip317_sane 0 utxos"
    and "unicode_text m" "q_inbound_address q = JStr vault" "vault \<noteq> []" "q_memo q = JStr m" "m \<noteq> []"
    and g: "g = zec_builder lib privkey latest info"
  shows "(build_and_verify g q r now utxos rate change max_fee sweep = Inr p \<longrightarrow>
      (safe p \<longleftrightarrow> now < q_expiry q \<and> memo_pays_destination (sr_destination r) (MemoText m)
         \<and> zb_fee (pr_built p) \<le> max_fee)
    \<and> spent_for_outputs (pr_built p))
   \<and> (build_and_verify_deposit g vault (MemoText m) amount now utxos rate change max_fee sweep = Inr p \<longrightarrow>
      (safe p \<longleftrightarrow> zb_fee (pr_built p) \<le> max_fee) \<and> spent_for_outputs (pr_built p))
   \<and> (build_and_verify_send g vault amount utxos rate change max_fee sweep = Inr p \<longrightarrow>
      (safe p \<longleftrightarrow> zb_fee (pr_built p) \<le> max_fee) \<and> spent_for_outputs (pr_built p))"
proof -
  have ready: "zec_ready g utxos vault rate change sweep (Some (MemoText m))"
    "zec_ready g utxos vault rate change sweep None"
    unfolding g by (rule zec_readyI [OF assms(1-6)]; use assms(7) in auto)+
  have fee: "gb_fee g = zb_fee" by (simp add: g zec_builder_def)
  have balances: "spent_for_outputs b"
    if "gb_hook g utxos vault n m' rate change sweep = Inr b" "m' = Some (MemoText m) \<or> m' = None" for n m' b
  proof -
    have "zec_build_unsigned_swap lib privkey latest info utxos vault n m' change sweep = Inr b"
      using that(1) by (simp add: g zec_builder_def)
    then show ?thesis unfolding spent_for_outputs_def
      by (rule zec_build_result [OF _ assms(1-4,6)]) (use assms(7) that(2) in auto)
  qed
  note swap = zec_family.swap_passes [OF ready(1) assms(8,9,10,11,12)]
    and deposit = zec_family.deposit_passes [OF ready(1) assms(8)]
    and send = zec_family.send_passes [OF ready(2)]
  show ?thesis
  proof (intro conjI impI)
    assume run: "build_and_verify g q r now utxos rate change max_fee sweep = Inr p"
    show "safe p \<longleftrightarrow> now < q_expiry q \<and> memo_pays_destination (sr_destination r) (MemoText m)
        \<and> zb_fee (pr_built p) \<le> max_fee"
      using swap(2) [OF run] fee by simp
    show "spent_for_outputs (pr_built p)" using balances [OF swap(1) [OF run]] by simp
  next
    assume run: "build_and_verify_deposit g vault (MemoText m) amount now utxos rate change max_fee sweep = Inr p"
    show "safe p \<longleftrightarrow> zb_fee (pr_built p) \<le> max_fee" using deposit(2) [OF run] fee by simp
    show "spent_for_outputs (pr_built p)" using balances [OF deposit(1) [OF run]] by simp
  next
    assume run: "build_and_verify_send g vault amount utxos rate change max_fee sweep = Inr p"
    show "safe p \<longleftrightarrow> zb_fee (pr_built p) \<le> max_fee" using send(2) [OF run] fee by simp
    show "spent_for_outputs (pr_built p)" using balances [OF send(1) [OF run]] by simp
  qed
qed

definition ex_zec_quote :: quote where
  "ex_zec_quote = ex_quote\<lparr>q_inbound_address := JStr (zl_b58encode ex_libs (PREFIX_T1 @ replicate 20 5)),
     q_memo := JStr (lit ''=:e:me'')\<rparr>"

definition ex_zec_coin :: utxo where
  "ex_zec_coin = \<lparr>u_txid = py_hex (replicate 32 8), u_vout = 0, u_value = 60000,
     u_address = zl_b58encode ex_libs (PREFIX_T1 @ replicate 20 6), u_path = None, u_confirmed = True,
     u_ancestor_deficit = 0\<rparr>"

definition ex_zec_builder :: "zec_built gated_builder" where
  "ex_zec_builder = zec_builder ex_libs (\<lambda>p. []) [8, 100] (delimited 6 (ascii ''5510e7c8''))"

lemma zec_transactions_pass_witness:
  "\<exists>p. build_and_verify ex_zec_builder ex_zec_quote ex_request 100 [ex_zec_coin] (Flt 0 0)
       (zl_b58encode ex_libs (PREFIX_T1 @ replicate 20 6)) 60000 True = Inr p
     \<and> zb_branch_id (pr_built p) = 0x5510e7c8 \<and> (safe p \<longleftrightarrow> zb_fee (pr_built p) \<le> 60000)"
proof -
  let ?change = "zl_b58encode ex_libs (PREFIX_T1 @ replicate 20 6)"
  let ?vault = "zl_b58encode ex_libs (PREFIX_T1 @ replicate 20 5)"
  let ?run = "build_and_verify ex_zec_builder ex_zec_quote ex_request 100 [ex_zec_coin] (Flt 0 0) ?change 60000 True"
  have "case ?run of Inl e \<Rightarrow> False | Inr p \<Rightarrow> zb_branch_id (pr_built p) = 0x5510e7c8"
    by code_simp
  then obtain p where p: "?run = Inr p" "zb_branch_id (pr_built p) = 0x5510e7c8"
    by (auto split: sum.splits)
  have v: "canonical_address ex_libs ?vault \<noteq> Inr ?change" by code_simp
  have sp: "spelled ex_libs ?vault" unfolding spelled_def
    by (intro disjI2 exI [of _ PREFIX_T1] exI [of _ "replicate 20 5"]) simp
  have ids: "list_all (\<lambda>u. \<exists>b. py_fromhex (u_txid u) = Some b \<and> length b = 32) [ex_zec_coin]"
    by (simp add: ex_zec_coin_def py_fromhex_hex)
  have m: "unicode_text (lit ''=:e:me'')" "lit ''=:e:me'' \<noteq> []"
    by (simp_all add: unicode_text_def lit_def unicode_scalar_def)
  have q: "q_inbound_address ex_zec_quote = JStr ?vault" "q_memo ex_zec_quote = JStr (lit ''=:e:me'')"
    by (simp_all add: ex_zec_quote_def)
  have ne: "?vault \<noteq> []" by (simp add: ex_libs_def lit_def)
  have pays: "memo_pays_destination (sr_destination ex_request) (MemoText (lit ''=:e:me''))" "100 < q_expiry ex_zec_quote"
    by code_simp+
  have "length (replicate 20 (6 :: byte)) = 20" by simp
  from zec_transactions_pass [OF ex_libs_base58 sp this refl v ids _ m(1) q(1) ne q(2) m(2) ex_zec_builder_def,
      of True ex_request 100 "Flt 0 0" 60000 p undefined] p pays
  show ?thesis by simp
qed

end
