(* ===== verification/PyUrl.thy ===== *)
theory PyUrl
  imports PyText
begin

text \<open>
  The parts of \<open>urllib.parse\<close> the wallet uses on payment URIs: \<open>unquote\<close> and \<open>parse_qsl\<close>, with
  UTF-8 that is decoded leniently (\<open>errors="replace"\<close>).
\<close>

section \<open>Lenient UTF-8\<close>

text \<open>
  The length of the maximal well-formed beginning of a sequence that is not well-formed as a
  whole: it is replaced by one U+FFFD.
\<close>

definition second_ok :: "nat \<Rightarrow> byte \<Rightarrow> bool" where
  "second_ok n b \<longleftrightarrow>
     (if n = 0xE0 then 0xA0 else if n = 0xF0 then 0x90 else 0x80) \<le> unat b
     \<and> unat b < (if n = 0xED then 0xA0 else if n = 0xF4 then 0x90 else 0xC0)"

fun bad_prefix :: "bytes \<Rightarrow> nat" where
  "bad_prefix [] = 0"
| "bad_prefix (b # bs) =
     (let n = unat b in
      if n < 0xE0 \<or> 0xF5 \<le> n then 1
      else
        case bs of
          [] \<Rightarrow> 1
        | b1 # r \<Rightarrow>
            if \<not> second_ok n b1 then 1
            else if n < 0xF0 then 2
            else case r of [] \<Rightarrow> 2 | b2 # s \<Rightarrow> if utf8_cont b2 then 3 else 2)"

lemma bad_prefix_pos: "bs \<noteq> [] \<Longrightarrow> 0 < bad_prefix bs"
  by (cases bs rule: bad_prefix.cases) (auto simp: Let_def split: list.splits)

function utf8_replace :: "bytes \<Rightarrow> pystr" where
  "utf8_replace bs =
     (if bs = [] then []
      else
        case utf8_next bs of
          Some (c, r) \<Rightarrow> c # utf8_replace r
        | None \<Rightarrow> 0xFFFD # utf8_replace (drop (bad_prefix bs) bs))"
  by pat_completeness auto
termination
  by (relation "measure length") (auto dest: utf8_next_shorter intro: diff_less bad_prefix_pos)

declare utf8_replace.simps [simp del]

text \<open>Text that is well-formed is read as the strict decoder reads it.\<close>

lemma utf8_replace_encode: "unicode_text s \<Longrightarrow> utf8_replace (utf8_encode s) = s"
proof (induction s)
  case Nil
  show ?case by (simp add: utf8_replace.simps)
next
  case (Cons c s)
  then have "utf8_next (utf8_encode (c # s)) = Some (c, utf8_encode s)"
    by (simp add: utf8_next_char)
  with Cons show ?case by (simp add: utf8_replace.simps [of "utf8_char c @ utf8_encode s"])
qed

section \<open>Percent-encoding\<close>

fun pct_bytes :: "pystr \<Rightarrow> bytes" where
  "pct_bytes (c # a # b # cs) =
     (if c = 37 then
        (case (hex_value a, hex_value b) of
           (Some h, Some l) \<Rightarrow> byte_of (16 * h + l) # pct_bytes cs
         | _ \<Rightarrow> byte_of c # pct_bytes (a # b # cs))
      else byte_of c # pct_bytes (a # b # cs))"
| "pct_bytes cs = map byte_of cs"

text \<open>Each run of ASCII characters is decoded by itself; the other characters stay.\<close>

function unquote_runs :: "pystr \<Rightarrow> pystr" where
  "unquote_runs s =
     (case s of
        [] \<Rightarrow> []
      | c # cs \<Rightarrow>
          if c < 128
          then utf8_replace (pct_bytes (takeWhile (\<lambda>x. x < 128) s)) @ unquote_runs (dropWhile (\<lambda>x. x < 128) s)
          else c # unquote_runs cs)"
  by pat_completeness auto
termination
  by (relation "measure length") (auto simp: less_Suc_eq_le intro: length_dropWhile_le)

declare unquote_runs.simps [simp del]

definition py_unquote :: "pystr \<Rightarrow> pystr" where
  "py_unquote s = (if 37 \<in> set s then unquote_runs s else s)"

lemma py_unquote_plain: "37 \<notin> set s \<Longrightarrow> py_unquote s = s"
  by (simp add: py_unquote_def)

text \<open>\<open>dict(parse_qsl(query))\<close>: pairs without a value are left out, \<open>+\<close> is a space.\<close>

definition plus_space :: "pystr \<Rightarrow> pystr" where
  "plus_space s = map (\<lambda>c. if c = 43 then 32 else c) s"

definition parse_qsl :: "pystr \<Rightarrow> (pystr \<times> pystr) list" where
  "parse_qsl query =
     concat (map (\<lambda>item.
       let (name, eq, val) = py_partition 61 item in
       if val = [] then [] else [(py_unquote (plus_space name), py_unquote (plus_space val))])
       (py_split 38 query))"

end
