(* ===== verification/Addresses.thy ===== *)
theory Addresses
  imports PyUrl PyJson Bech32
begin

text \<open>
  \<open>src/swapsack/addresses.py\<close> and \<open>src/swapsack/evm.py\<close>: whether a destination address is
  plausible for its chain. A shape rule stands for its regular expression: a choice of
  beginnings, then a run of characters of one class with a least and a greatest length. base58
  and keccak are parameters.
\<close>

section \<open>Shapes\<close>

record shape =
  sh_starts :: "pystr list"
  sh_class :: "nat \<Rightarrow> bool"
  sh_min :: nat
  sh_max :: nat

definition b58_char :: "nat \<Rightarrow> bool" where
  "b58_char c \<longleftrightarrow>
     c \<in> set (lit ''123456789ABCDEFGHJKLMNPQRSTUVWXYZabcdefghijkmnopqrstuvwxyz'')"

definition b32_char :: "nat \<Rightarrow> bool" where
  "b32_char c \<longleftrightarrow> 97 \<le> c \<and> c \<le> 122 \<or> 48 \<le> c \<and> c \<le> 57"

definition hex_char :: "nat \<Rightarrow> bool" where
  "hex_char c \<longleftrightarrow> hex_value c \<noteq> None"

definition b58_shape :: "string list \<Rightarrow> nat \<Rightarrow> nat \<Rightarrow> shape" where
  "b58_shape starts least most =
     \<lparr>sh_starts = map lit starts, sh_class = b58_char, sh_min = least, sh_max = most\<rparr>"

definition b32_shape :: "string list \<Rightarrow> nat \<Rightarrow> nat \<Rightarrow> shape" where
  "b32_shape starts least most =
     \<lparr>sh_starts = map lit starts, sh_class = b32_char, sh_min = least, sh_max = most\<rparr>"

definition evm_shape :: shape where
  "evm_shape = \<lparr>sh_starts = [lit ''0x''], sh_class = hex_char, sh_min = 40, sh_max = 40\<rparr>"

definition RULES :: "(pystr \<times> shape list) list" where
  "RULES =
     [(lit ''BTC'', [b32_shape [''bc1''] 11 71, b58_shape [''1'', ''3''] 24 34]),
      (lit ''LTC'', [b32_shape [''ltc1''] 11 71, b58_shape [''L'', ''M'', ''3''] 24 34]),
      (lit ''DOGE'', [b58_shape [''D'', ''A'', ''9''] 24 34]),
      (lit ''BCH'', [b32_shape [''bitcoincash:q'', ''bitcoincash:p'', ''q'', ''p''] 40 60,
                   b58_shape [''bitcoincash:1'', ''bitcoincash:3'', ''1'', ''3''] 24 34]),
      (lit ''DASH'', [b58_shape [''X'', ''7''] 24 34]),
      (lit ''ZEC'', [b58_shape [''t1'', ''t3''] 32 34]),
      (lit ''ETH'', [evm_shape]), (lit ''ARB'', [evm_shape]), (lit ''AVAX'', [evm_shape]),
      (lit ''BSC'', [evm_shape]),
      (lit ''TRON'', [b58_shape [''T''] 33 33]),
      (lit ''MAYA'', [b32_shape [''maya1''] 37 58]),
      (lit ''THOR'', [b32_shape [''thor1''] 37 58]),
      (lit ''GAIA'', [b32_shape [''cosmos1''] 37 58]),
      (lit ''XRP'', [b58_shape [''r''] 24 34]),
      (lit ''ADA'', [b32_shape [''addr1''] 50 110])]"

definition has_shape :: "shape \<Rightarrow> pystr \<Rightarrow> bool" where
  "has_shape sh s \<longleftrightarrow>
     list_ex (\<lambda>p. prefix p s \<and> (let rest = drop (length p) s in
        sh_min sh \<le> length rest \<and> length rest \<le> sh_max sh \<and> list_all (sh_class sh) rest))
       (sh_starts sh)"

text \<open>\<open>$\<close> also matches in front of a final line feed.\<close>

definition rule_match :: "shape list \<Rightarrow> pystr \<Rightarrow> bool" where
  "rule_match shapes s \<longleftrightarrow>
     list_ex (\<lambda>sh. has_shape sh s \<or> s \<noteq> [] \<and> last s = 10 \<and> has_shape sh (butlast s)) shapes"

section \<open>Payment URIs\<close>

definition URI_SCHEMES :: "(pystr \<times> pystr) list" where
  "URI_SCHEMES =
     [(lit ''bitcoin'', lit ''BTC''), (lit ''litecoin'', lit ''LTC''), (lit ''dogecoin'', lit ''DOGE''),
      (lit ''dash'', lit ''DASH''), (lit ''zcash'', lit ''ZEC''), (lit ''bitcoincash'', lit ''BCH''),
      (lit ''ethereum'', lit ''ETH''), (lit ''tron'', lit ''TRON'')]"

definition KEEP_SCHEME :: "pystr list" where
  "KEEP_SCHEME = [lit ''bitcoincash'']"

definition parse_payment_uri :: "pystr \<Rightarrow> pystr \<times> (pystr \<times> pystr) list" where
  "parse_payment_uri text =
     (let text = py_strip text;
          (scheme, sep, rest) = py_partition 58 text in
      if \<not> sep \<or> map_of URI_SCHEMES (py_lower scheme) = None then (text, [])
      else
        let (body, q, query) = py_partition 63 rest;
            body = before_sep 47 (before_sep 64 body);
            address = py_strip (py_unquote body);
            address = (if py_lower scheme \<in> set KEEP_SCHEME
                       then py_lower scheme @ [58] @ address else address)
        in (address, dict_of (parse_qsl query)))"

definition uri_chain :: "pystr \<Rightarrow> pystr option" where
  "uri_chain text = map_of URI_SCHEMES (py_lower (fst (py_partition 58 (py_strip text))))"

section \<open>Checksums\<close>

datatype alphabet = BITCOIN_ALPHABET | XRP_ALPHABET

definition SEGWIT_HRP :: "(pystr \<times> pystr) list" where
  "SEGWIT_HRP = [(lit ''BTC'', lit ''bc''), (lit ''LTC'', lit ''ltc'')]"

definition PLAIN_BECH32_HRP :: "(pystr \<times> pystr) list" where
  "PLAIN_BECH32_HRP =
     [(lit ''MAYA'', lit ''maya''), (lit ''THOR'', lit ''thor''), (lit ''GAIA'', lit ''cosmos''),
      (lit ''ADA'', lit ''addr'')]"

definition EVM_CHAINS :: "pystr list" where
  "EVM_CHAINS = [lit ''ETH'', lit ''ARB'', lit ''AVAX'', lit ''BSC'']"

definition BASE58CHECK_ALPHABET :: "(pystr \<times> alphabet) list" where
  "BASE58CHECK_ALPHABET =
     [(lit ''BTC'', BITCOIN_ALPHABET), (lit ''LTC'', BITCOIN_ALPHABET), (lit ''DOGE'', BITCOIN_ALPHABET),
      (lit ''BCH'', BITCOIN_ALPHABET), (lit ''DASH'', BITCOIN_ALPHABET), (lit ''ZEC'', BITCOIN_ALPHABET),
      (lit ''TRON'', BITCOIN_ALPHABET), (lit ''XRP'', XRP_ALPHABET)]"

definition CASHADDR_GENERATOR :: "int list" where
  "CASHADDR_GENERATOR = [0x98F2BC8E61, 0x79B76D99E2, 0xF33E5FB3C4, 0xAE2EABE2A8, 0x1E4F43E470]"

definition is_evm_chain :: "pystr \<Rightarrow> bool" where
  "is_evm_chain chain \<longleftrightarrow> chain \<in> set EVM_CHAINS"

definition cashaddr_step :: "int \<Rightarrow> int \<Rightarrow> int" where
  "cashaddr_step checksum val =
     (let topbits = drop_bit 35 checksum;
          checksum = push_bit 5 (checksum AND 0x07FFFFFFFF) XOR val
      in foldl (\<lambda>c (i, generator). if drop_bit i topbits AND 1 = 0 then c else c XOR generator)
           checksum (enumerate 0 CASHADDR_GENERATOR))"

definition cashaddr_prefix :: "pystr \<Rightarrow> int list" where
  "cashaddr_prefix p =
     map (\<lambda>c. int c AND 0x1F) (if p \<noteq> [] then p else lit ''bitcoincash'') @ [0]"

definition cashaddr_ok :: "pystr \<Rightarrow> bool" where
  "cashaddr_ok address =
     (let (p, sep, body) = py_rpartition 58 address in
      case charset_values body of
        None \<Rightarrow> False
      | Some vs \<Rightarrow> foldl cashaddr_step 1 (cashaddr_prefix p @ vs) XOR 1 = 0)"

text \<open>The one mixed-case spelling of lower-case hex digits.\<close>

definition eip55_case :: "(bytes \<Rightarrow> bytes) \<Rightarrow> pystr \<Rightarrow> pystr" where
  "eip55_case keccak256 lower =
     map2 (\<lambda>c d. if 97 \<le> c \<and> 8 \<le> the (hex_value d) then upper_cp c else c)
       lower (py_hex (keccak256 (utf8_encode lower)))"

definition checksum_of_bytes :: "(bytes \<Rightarrow> bytes) \<Rightarrow> bytes \<Rightarrow> pystr" where
  "checksum_of_bytes keccak256 raw = lit ''0x'' @ eip55_case keccak256 (py_hex raw)"

text \<open>
  \<open>to_checksum_address\<close> of a text: None is the ValueError of text that is no hex. A digest is 32
  bytes, so the \<open>zip\<close> ends with the address.
\<close>

definition to_checksum_address :: "(bytes \<Rightarrow> bytes) \<Rightarrow> pystr \<Rightarrow> pystr option" where
  "to_checksum_address keccak256 addr =
     (case py_fromhex (if py_lower (take 2 addr) = lit ''0x'' then drop 2 addr else addr) of
        None \<Rightarrow> None
      | Some raw \<Rightarrow>
          Some (checksum_of_bytes keccak256 raw))"

definition eip55_ok :: "(bytes \<Rightarrow> bytes) \<Rightarrow> pystr \<Rightarrow> py_error + bool" where
  "eip55_ok keccak256 address =
     (let body = drop 2 address in
      if body = py_lower body \<or> body = py_upper body then Inr True
      else
        case to_checksum_address keccak256 address of
          None \<Rightarrow> Inl ValueError
        | Some a \<Rightarrow> Inr (a = address))"

datatype address_problem =
  AddressEmpty
| UriOfOtherChain pystr pystr pystr
| BadShape pystr pystr
| BadChecksum pystr pystr

text \<open>Whether the address fails the checksum its chain and form call for.\<close>

definition checksum_ok ::
  "(alphabet \<Rightarrow> pystr \<Rightarrow> bytes option) \<Rightarrow> (bytes \<Rightarrow> bytes) \<Rightarrow> pystr \<Rightarrow> pystr \<Rightarrow> py_error + bool" where
  "checksum_ok b58decode_check keccak256 chain address =
     (case map_of SEGWIT_HRP chain of
        Some hrp \<Rightarrow>
          if prefix (hrp @ lit ''1'') address then Inr (segwit_ok address hrp)
          else Inr (case map_of BASE58CHECK_ALPHABET chain of
            None \<Rightarrow> True | Some a \<Rightarrow> b58decode_check a address \<noteq> None)
      | None \<Rightarrow>
          case map_of PLAIN_BECH32_HRP chain of
            Some hrp \<Rightarrow>
              Inr (case bech32_decode address of Inl e \<Rightarrow> False | Inr (got, data) \<Rightarrow> got = hrp)
          | None \<Rightarrow>
              if chain = lit ''BCH'' \<and> \<not> (prefix (lit ''1'') address \<or> prefix (lit ''3'') address)
              then Inr (cashaddr_ok address)
              else if chain \<in> set EVM_CHAINS then eip55_ok keccak256 address
              else Inr (case map_of BASE58CHECK_ALPHABET chain of
                None \<Rightarrow> True | Some a \<Rightarrow> b58decode_check a address \<noteq> None))"

definition checksum_problem ::
  "(alphabet \<Rightarrow> pystr \<Rightarrow> bytes option) \<Rightarrow> (bytes \<Rightarrow> bytes) \<Rightarrow> pystr \<Rightarrow> pystr
   \<Rightarrow> py_error + address_problem option" where
  "checksum_problem b58decode_check keccak256 chain address =
     bind_res (checksum_ok b58decode_check keccak256 chain address) (\<lambda>ok.
       Inr (if ok then None else Some (BadChecksum address chain)))"

definition validate_destination_address ::
  "(alphabet \<Rightarrow> pystr \<Rightarrow> bytes option) \<Rightarrow> (bytes \<Rightarrow> bytes) \<Rightarrow> pystr \<Rightarrow> pystr
   \<Rightarrow> py_error + address_problem option" where
  "validate_destination_address b58decode_check keccak256 chain address =
     (if address = [] then Inr (Some AddressEmpty)
      else
        case uri_chain address of
          Some named \<Rightarrow>
            if named \<noteq> chain
            then Inr (Some (UriOfOtherChain (fst (py_partition 58 address)) named chain))
            else
              let a = fst (parse_payment_uri address) in
              if a = [] then Inr (Some AddressEmpty)
              else (case map_of RULES chain of
                 None \<Rightarrow> Inr None
               | Some rule \<Rightarrow>
                   if \<not> rule_match rule a then Inr (Some (BadShape a chain))
                   else checksum_problem b58decode_check keccak256 chain a)
        | None \<Rightarrow>
            let a = fst (parse_payment_uri address) in
            if a = [] then Inr (Some AddressEmpty)
            else (case map_of RULES chain of
               None \<Rightarrow> Inr None
             | Some rule \<Rightarrow>
                 if \<not> rule_match rule a then Inr (Some (BadShape a chain))
                 else checksum_problem b58decode_check keccak256 chain a))"

section \<open>The cashaddr checksum\<close>

lemma cashaddr_low_symbols:
  "list_all (\<lambda>t. take_bit 5 (bch_mix 0 CASHADDR_GENERATOR t) \<noteq> (0::int)) [1..31]"
  by code_simp

interpretation cashaddr: bch_code "bch_shift 35 CASHADDR_GENERATOR" 8
  by (rule bch_shift_code) (simp_all add: cashaddr_low_symbols, simp add: CASHADDR_GENERATOR_def)

lemma cashaddr_step_shift: "cashaddr_step c v = bch_shift 35 CASHADDR_GENERATOR c XOR v"
proof -
  have "cashaddr_step c v = bch_feedback CASHADDR_GENERATOR (drop_bit 35 c)
          (push_bit 5 (c AND (2 ^ 35 - 1)) XOR v)"
    by (simp add: cashaddr_step_def bch_feedback_def Let_def)
  then show ?thesis by (simp add: bch_shift_def bch_feedback_mix ac_simps)
qed

lemma cashaddr_fold:
  "foldl cashaddr_step a vs = foldl (\<lambda>c v. bch_shift 35 CASHADDR_GENERATOR c XOR v) a vs"
proof -
  have "cashaddr_step = (\<lambda>c v. bch_shift 35 CASHADDR_GENERATOR c XOR v)"
    by (intro ext) (rule cashaddr_step_shift)
  then show ?thesis by simp
qed

lemma py_rpartition_last: "c \<notin> set q \<Longrightarrow> py_rpartition c (p @ c # q) = (p, True, q)"
proof -
  assume "c \<notin> set q"
  then have "takeWhile (\<lambda>x. x \<noteq> c) (rev q @ c # rev p) = rev q"
    "dropWhile (\<lambda>x. x \<noteq> c) (rev q @ c # rev p) = c # rev p"
    by (subst takeWhile_append2 dropWhile_append2; auto)+
  then show ?thesis by (simp add: py_rpartition_def)
qed

lemma cashaddr_ok_body:
  assumes "58 \<notin> set q" "a = q \<and> p = [] \<or> a = p @ 58 # q"
  shows "cashaddr_ok a \<longleftrightarrow>
    (\<exists>vs. charset_values q = Some vs \<and> foldl cashaddr_step 1 (cashaddr_prefix p @ vs) = 1)"
proof -
  have "py_rpartition 58 a = (p, True, q) \<or> py_rpartition 58 a = (p, False, q)"
    using assms(2)
  proof
    assume "a = q \<and> p = []"
    then show ?thesis using assms(1) by (simp add: py_rpartition_def)
  next
    assume "a = p @ 58 # q"
    then show ?thesis using py_rpartition_last [OF assms(1)] by simp
  qed
  then show ?thesis
    by (elim disjE) (simp_all add: cashaddr_ok_def xor_int_eq_0 split: option.splits)
qed

text \<open>
  A Bitcoin Cash address whose cashaddr checksum is right stops being accepted as soon as
  any one character of its body is replaced by another (the colon apart, which would move the
  prefix), whatever its prefix and length.
\<close>

theorem cashaddr_typo_detected:
  assumes "cashaddr_ok a"
    and "rfind_char 58 a < int i" "i < length a" "c \<noteq> a ! i" "c \<noteq> 58"
  shows "\<not> cashaddr_ok (a[i := c])"
proof
  assume typo: "cashaddr_ok (a[i := c])"
  obtain p q k where a: "a = q \<and> p = [] \<and> k = 0 \<or> a = p @ 58 # q \<and> k = Suc (length p)"
    and q: "58 \<notin> set q" and k: "k \<le> i"
  proof (cases "0 \<le> rfind_char 58 a")
    case True
    then obtain p q where "a = p @ 58 # q" "58 \<notin> set q" "rfind_char 58 a = int (length p)"
      by (rule rfind_char_split)
    then show ?thesis using assms(2) by (intro that [of q p "Suc (length p)"]) auto
  next
    case False
    then have "58 \<notin> set a"
      by (metis of_nat_0_le_iff rfind_char_at split_list_last)
    then show ?thesis by (intro that [of a "[]" 0]) auto
  qed
  then obtain j where i: "i = k + j" by (metis le_Suc_ex)
  have j: "j < length q" and cj: "c \<noteq> q ! j"
    and upd: "a[i := c] = q[j := c] \<and> p = [] \<or> a[i := c] = p @ 58 # q[j := c]"
    using a assms(3,4) by (auto simp: i nth_append list_update_append)
  have q': "58 \<notin> set (q[j := c])" using q assms(5) set_update_subset_insert by fastforce
  obtain vs where vs: "charset_values q = Some vs"
    "foldl cashaddr_step 1 (cashaddr_prefix p @ vs) = 1"
    using assms(1) cashaddr_ok_body [OF q] a by metis
  obtain us where us: "charset_values (q[j := c]) = Some us"
    "foldl cashaddr_step 1 (cashaddr_prefix p @ us) = 1"
    using typo cashaddr_ok_body [OF q' upd] by metis
  note u = charset_values_update [OF vs(1) j, of c]
  obtain m where m: "index_of c charset = Some m" and us': "us = vs[j := int m]"
    using u us(1) by (cases "index_of c charset") auto
  have lv: "length vs = length q" and dv: "digits 5 vs" using charset_values_props [OF vs(1)] by auto
  have ne: "int m \<noteq> vs ! j" using u m cj index_of_Some by (metis nat_int)
  have s: "symbol32 (vs ! j)" "symbol32 (int m)"
    using dv j lv index_of_Some [OF m] charset_facts
    by (auto simp: symbol32_digits list_all_length symbol32_def)
  have "vs = take j vs @ vs ! j # drop (Suc j) vs"
    "us = take j vs @ int m # drop (Suc j) vs"
    using j lv us' by (simp_all add: id_take_nth_drop upd_conv_take_nth_drop)
  then show False
    using cashaddr.one_symbol_detected [OF s ne [symmetric], of 1 "cashaddr_prefix p @ take j vs"]
      vs(2) us(2) unfolding cashaddr_fold by (metis append.assoc)
qed

text \<open>The first test vector of the cashaddr specification, with its first \<open>p\<close> mistyped as \<open>q\<close>.\<close>

lemma cashaddr_typo_detected_witness:
  "\<not> cashaddr_ok ((lit ''bitcoincash:qpm2qsznhks23z7629mms6s4cwef74vcwvy22gdx6a'')[13 := 113])"
proof -
  have "cashaddr_ok (lit ''bitcoincash:qpm2qsznhks23z7629mms6s4cwef74vcwvy22gdx6a'')" by code_simp
  then show ?thesis
    by (rule cashaddr_typo_detected) (simp_all add: rfind_char_def lit_def)
qed

section \<open>EIP-55\<close>

lemma hex_char_range:
  "hex_char c \<longleftrightarrow> 48 \<le> c \<and> c \<le> 57 \<or> 97 \<le> c \<and> c \<le> 102 \<or> 65 \<le> c \<and> c \<le> 70"
  by (auto simp: hex_char_def hex_value_def)

lemma hex_chars_lower [simp]: "list_all hex_char (py_lower s) = list_all hex_char s"
  by (simp add: list_all_iff py_lower_def hex_char_def)

lemma hex_digit_value: "hex_value c = Some h \<Longrightarrow> h < 16 \<and> hex_digit h = lower_cp c"
  by (auto simp: hex_value_def hex_digit_def lower_cp_def split: if_splits)

lemma fromhex_hex_chars:
  assumes "list_all hex_char s" "even (length s)"
  obtains raw where "py_fromhex s = Some raw" "py_hex raw = py_lower s"
proof -
  have "\<exists>raw. py_fromhex s = Some raw \<and> py_hex raw = py_lower s" using assms
  proof (induction s rule: py_fromhex.induct)
    case 1
    then show ?case by (simp add: py_lower_def)
  next
    case (2 c)
    then show ?case by simp
  next
    case (3 c d cs)
    then have nsp: "\<not> hex_space c" by (auto simp: hex_char_range hex_space_def)
    obtain h l where hl: "hex_value c = Some h" "hex_value d = Some l"
      using 3 by (auto simp: hex_char_def)
    then have lt: "h < 16" "l < 16" using hex_digit_value by blast+
    then have "unat (byte_of (16 * h + l)) = 16 * h + l" by (simp add: unat_byte_of)
    moreover have "(16 * h + l) div 16 = h" "(16 * h + l) mod 16 = l" using lt by simp_all
    moreover obtain raw where "py_fromhex cs = Some raw" "py_hex raw = py_lower cs"
      using 3 nsp hl by auto
    ultimately show ?case
      using nsp hl hex_digit_value [OF hl(1)] hex_digit_value [OF hl(2)] by (simp add: py_lower_def)
  qed
  with that show ?thesis by blast
qed

lemma to_checksum_hex:
  assumes "list_all hex_char s" "even (length s)"
  shows "to_checksum_address keccak256 (lit ''0x'' @ s) = Some (lit ''0x'' @ eip55_case keccak256 (py_lower s))"
proof -
  obtain raw where "py_fromhex s = Some raw" "py_hex raw = py_lower s"
    by (rule fromhex_hex_chars [OF assms])
  then show ?thesis
    by (simp add: to_checksum_address_def checksum_of_bytes_def lit_def py_lower_def lower_cp_def Let_def)
qed

lemma lower_eip55_case:
  assumes "list_all hex_char s" "length s \<le> 2 * length (keccak256 (utf8_encode (py_lower s)))"
  shows "py_lower (eip55_case keccak256 (py_lower s)) = py_lower s"
proof -
  have "map lower_cp (map2 (\<lambda>c d. if 97 \<le> c \<and> 8 \<le> the (hex_value d) then upper_cp c else c) t h) = t"
    if "list_all (\<lambda>c. hex_char c \<and> lower_cp c = c) t" "length t \<le> length h" for t h
    using that
  proof (induction t arbitrary: h)
    case (Cons c t)
    then obtain d g where "h = d # g" by (cases h) auto
    with Cons show ?case by (auto simp: hex_char_range lower_cp_def upper_cp_def split: if_splits)
  qed simp
  moreover have "list_all (\<lambda>c. hex_char c \<and> lower_cp c = c) (py_lower s)"
    using assms(1) by (auto simp: list_all_iff py_lower_def hex_char_def)
  ultimately show ?thesis using assms(2) by (simp add: eip55_case_def py_lower_def)
qed

text \<open>
  For the 40 hex digits of an EVM address the checksummed spelling exists, differs from what
  was typed at most in case, and does not depend on the case that was typed; and of all the
  spellings of the same address the check accepts exactly three: that one, the all-lower-case and
  the all-upper-case one (which carry no checksum).
\<close>

theorem eip55_spellings:
  assumes digits: "list_all hex_char s" "length s = 40"
    and digest: "length (keccak256 (utf8_encode (py_lower s))) = 32"
  shows "\<exists>t. length t = 40 \<and> py_lower t = py_lower s \<and>
    (\<forall>u. py_lower u = py_lower s \<longrightarrow>
       to_checksum_address keccak256 (lit ''0x'' @ u) = Some (lit ''0x'' @ t) \<and>
       eip55_ok keccak256 (lit ''0x'' @ u) = Inr (u = t \<or> u = py_lower u \<or> u = py_upper u))"
proof (intro exI conjI allI impI)
  let ?t = "eip55_case keccak256 (py_lower s)"
  show low: "py_lower ?t = py_lower s" using digits digest by (intro lower_eip55_case) simp_all
  from arg_cong [OF low, of length] show "length ?t = 40" using digits by simp
  fix u
  assume u: "py_lower u = py_lower s"
  have "list_all hex_char u" using digits(1) u hex_chars_lower by metis
  moreover have "length u = 40" using arg_cong [OF u, of length] digits by simp
  ultimately show cs: "to_checksum_address keccak256 (lit ''0x'' @ u) = Some (lit ''0x'' @ ?t)"
    by (simp add: to_checksum_hex u)
  show "eip55_ok keccak256 (lit ''0x'' @ u) = Inr (u = ?t \<or> u = py_lower u \<or> u = py_upper u)"
    unfolding eip55_ok_def cs by (auto simp: lit_def Let_def)
qed

text \<open>The address \<open>abab...ab\<close> under a constant digest that asks for upper case everywhere.\<close>

lemma eip55_spellings_witness:
  "\<exists>t. length t = 40 \<and> py_lower t = py_lower (concat (replicate 20 (lit ''aB''))) \<and>
    eip55_ok (\<lambda>_. replicate 32 0xFF) (lit ''0x'' @ t) = Inr True"
proof -
  have "list_all hex_char (concat (replicate 20 (lit ''aB'')))" by code_simp
  moreover have "length (concat (replicate 20 (lit ''aB''))) = 40" by code_simp
  ultimately show ?thesis
    using eip55_spellings [of "concat (replicate 20 (lit ''aB''))" "\<lambda>_. replicate 32 0xFF"] by auto
qed

section \<open>Payment URIs and bare addresses\<close>

definition alnum :: "nat \<Rightarrow> bool" where
  "alnum c \<longleftrightarrow> 48 \<le> c \<and> c \<le> 57 \<or> 65 \<le> c \<and> c \<le> 90 \<or> 97 \<le> c \<and> c \<le> 122"

lemma alnum_plain: "alnum c \<Longrightarrow> \<not> py_space c \<and> c \<noteq> 37 \<and> c \<noteq> 47 \<and> c \<noteq> 58 \<and> c \<noteq> 63 \<and> c \<noteq> 64"
  by (auto simp: alnum_def py_space_def)

lemma alnum_absent:
  "list_all alnum s \<Longrightarrow> list_all (\<lambda>c. \<not> py_space c) s \<and> 37 \<notin> set s \<and> 58 \<notin> set s"
  "list_all alnum s \<Longrightarrow> takeWhile (\<lambda>x. x \<noteq> 47) s = s \<and> takeWhile (\<lambda>x. x \<noteq> 64) s = s"
  using alnum_plain by (auto simp: list_all_iff takeWhile_eq_all_conv)

lemma uri_schemes_facts:
  "list_all (\<lambda>(s, n). s \<noteq> [] \<and> length s \<le> 11 \<and> list_all (\<lambda>c. 97 \<le> c \<and> c \<le> 122) s
     \<and> (s \<in> set KEEP_SCHEME \<longleftrightarrow> n = lit ''BCH'')) URI_SCHEMES"
  by code_simp

lemma uri_scheme:
  assumes "map_of URI_SCHEMES (py_lower s) = Some n"
  shows "s \<noteq> [] \<and> length s \<le> 11 \<and> list_all alnum s
    \<and> (py_lower s \<in> set KEEP_SCHEME \<longleftrightarrow> n = lit ''BCH'')"
proof -
  have "(py_lower s, n) \<in> set URI_SCHEMES" using assms by (rule map_of_SomeD)
  then have f: "py_lower s \<noteq> [] \<and> length (py_lower s) \<le> 11
     \<and> list_all (\<lambda>c. 97 \<le> c \<and> c \<le> 122) (py_lower s)
     \<and> (py_lower s \<in> set KEEP_SCHEME \<longleftrightarrow> n = lit ''BCH'')"
    using uri_schemes_facts by (auto simp: list_all_iff)
  then have "list_all (\<lambda>c. 97 \<le> lower_cp c \<and> lower_cp c \<le> 122) s"
    by (simp add: py_lower_def list_all_iff)
  moreover have "97 \<le> lower_cp c \<and> lower_cp c \<le> 122 \<Longrightarrow> alnum c" for c
    by (auto simp: lower_cp_def alnum_def split: if_splits)
  ultimately have "list_all alnum s" unfolding list_all_iff by blast
  with f show ?thesis by simp
qed

text \<open>Stripping cannot touch a beginning without white space.\<close>

lemma py_strip_keeps:
  assumes "p \<noteq> []" "list_all (\<lambda>c. \<not> py_space c) p"
  obtains q' where "py_strip (p @ q) = p @ q'" "q' = [] \<or> q \<noteq> [] \<and> hd q' = hd q"
proof -
  let ?q = "rev (dropWhile py_space (rev q))"
  have "dropWhile py_space (p @ q) = p @ q" using assms by (cases p) auto
  moreover have "dropWhile py_space (rev p) = rev p"
    using assms by (cases p rule: rev_cases) (auto simp: list_all_iff)
  then have "dropWhile py_space (rev q @ rev p) = dropWhile py_space (rev q) @ rev p"
    by (auto simp: dropWhile_append dropWhile_eq_Nil_conv)
  ultimately have "py_strip (p @ q) = p @ ?q" by (simp add: py_strip_def)
  moreover have "q = ?q @ rev (takeWhile py_space (rev q))"
    by (metis rev_append rev_rev_ident takeWhile_dropWhile_id)
  then have "?q = [] \<or> q \<noteq> [] \<and> hd ?q = hd q" by (metis append_is_Nil_conv hd_append2)
  ultimately show ?thesis by (rule that)
qed

text \<open>What may follow the address in a URI: nothing, a chain id, a function, a query.\<close>

definition uri_tail :: "pystr \<Rightarrow> bool" where
  "uri_tail q \<longleftrightarrow> q = [] \<or> hd q \<in> {64, 47, 63}"

lemma uri_body:
  assumes "list_all alnum addr" "uri_tail q"
  shows "before_sep 47 (before_sep 64 (fst (py_partition 63 (addr @ q)))) = addr"
proof -
  have w: "takeWhile (\<lambda>x. x \<noteq> c) (addr @ t) = addr @ takeWhile (\<lambda>x. x \<noteq> c) t"
    if "c \<in> {47, 63, 64}" for c t
    using that assms(1) alnum_plain by (intro takeWhile_append2) (auto simp: list_all_iff)
  have "takeWhile (\<lambda>x. x \<noteq> c) addr = addr" if "c \<in> {47, 63, 64}" for c
    using w [OF that, of "[]"] by simp
  then have n: "takeWhile (\<lambda>x. x \<noteq> 47) addr = addr" "takeWhile (\<lambda>x. x \<noteq> 63) addr = addr"
    "takeWhile (\<lambda>x. x \<noteq> 64) addr = addr" by blast+
  show ?thesis
  proof (cases q)
    case Nil
    then show ?thesis by (simp add: before_sep_def py_partition_def n del: takeWhile_eq_all_conv)
  next
    case (Cons c r)
    then have "c = 64 \<or> c = 47 \<or> c = 63" using assms(2) by (simp add: uri_tail_def)
    then show ?thesis
      using Cons by (auto simp: before_sep_def py_partition_def w n simp del: takeWhile_eq_all_conv)
  qed
qed

lemma payment_uri_parse:
  assumes s: "map_of URI_SCHEMES (py_lower scheme) = Some named"
    and a: "list_all alnum addr" and t: "uri_tail q"
  shows "uri_chain (scheme @ 58 # addr @ q) = Some named"
    and "fst (parse_payment_uri (scheme @ 58 # addr @ q))
         = (if named = lit ''BCH'' then py_lower scheme @ 58 # addr else addr)"
proof -
  note sc = uri_scheme [OF s]
  have nsp: "list_all (\<lambda>c. \<not> py_space c) ((scheme @ [58]) @ addr)"
    using alnum_absent(1) [OF a] alnum_absent(1) [of scheme] sc by (simp add: py_space_def)
  obtain q' where q': "py_strip (((scheme @ [58]) @ addr) @ q) = ((scheme @ [58]) @ addr) @ q'"
    "q' = [] \<or> q \<noteq> [] \<and> hd q' = hd q"
    by (rule py_strip_keeps [OF _ nsp]) simp_all
  then have st: "py_strip (scheme @ 58 # addr @ q) = scheme @ 58 # addr @ q'" by simp
  have t': "uri_tail q'" using q'(2) t by (auto simp: uri_tail_def)
  have "58 \<notin> set scheme" using alnum_absent(1) [of scheme] sc by blast
  then have pt: "py_partition 58 (scheme @ 58 # addr @ q') = (scheme, True, addr @ q')" by simp
  show "uri_chain (scheme @ 58 # addr @ q) = Some named"
    unfolding uri_chain_def st pt by (simp add: s)
  obtain b q1 q2 where p63: "py_partition 63 (addr @ q') = (b, q1, q2)"
    using prod_cases3 by blast
  then have b: "before_sep 47 (before_sep 64 b) = addr" using uri_body [OF a t'] by simp
  have "py_unquote addr = addr" "py_strip addr = addr"
    using alnum_absent(1) [OF a] by (simp_all add: py_unquote_plain py_strip_no_space)
  then show "fst (parse_payment_uri (scheme @ 58 # addr @ q))
         = (if named = lit ''BCH'' then py_lower scheme @ 58 # addr else addr)"
    unfolding parse_payment_uri_def st pt Let_def split_conv p63 b using s sc by simp
qed

lemma bare_address_parse:
  assumes a: "list_all alnum addr" and len: "11 < length addr"
  shows "uri_chain addr = None" and "parse_payment_uri addr = (addr, [])"
proof -
  have "py_strip addr = addr" "py_partition 58 addr = (addr, False, [])"
    using alnum_absent(1) [OF a] by (simp_all add: py_strip_no_space py_partition_none)
  moreover have "map_of URI_SCHEMES (py_lower addr) = None"
    using uri_scheme [of addr] len by (cases "map_of URI_SCHEMES (py_lower addr)") fastforce+
  ultimately show "uri_chain addr = None" and "parse_payment_uri addr = (addr, [])"
    by (simp_all add: uri_chain_def parse_payment_uri_def)
qed

text \<open>
  A payment URI of a chain's scheme, in any case and with any chain id, function or query
  behind the address, is judged exactly as the bare address is on that chain, and is refused on
  every other chain (\<open>bitcoincash:\<close> apart, which stays part of the address).
\<close>

theorem payment_uri_same_verdict:
  assumes "map_of URI_SCHEMES (py_lower scheme) = Some named" "named \<noteq> lit ''BCH''"
    and "list_all alnum addr" "11 < length addr" "uri_tail q"
  shows "validate_destination_address b58 keccak256 chain (scheme @ 58 # addr @ q)
       = (if chain = named then validate_destination_address b58 keccak256 named addr
          else Inr (Some (UriOfOtherChain scheme named chain)))"
proof -
  note u = payment_uri_parse [OF assms(1,3,5)]
  note b = bare_address_parse [OF assms(3,4)]
  have "58 \<notin> set scheme" using alnum_absent(1) [of scheme] uri_scheme [OF assms(1)] by blast
  then have s: "fst (py_partition 58 (scheme @ 58 # addr @ q)) = scheme" by simp
  show ?thesis
    using assms(2,4) unfolding validate_destination_address_def u b s by auto
qed

text \<open>An Ethereum URI with a chain id and an amount: good for Ethereum, refused for TRON.\<close>

lemma payment_uri_same_verdict_witness:
  "\<forall>b58 keccak256.
     validate_destination_address b58 keccak256 (lit ''ETH'')
       (lit ''Ethereum'' @ 58 # lit ''0x00112233445566778899aabbccddeeff00112233'' @ lit ''@1?value=1'')
     = validate_destination_address b58 keccak256 (lit ''ETH'')
         (lit ''0x00112233445566778899aabbccddeeff00112233'')
   \<and> validate_destination_address b58 keccak256 (lit ''TRON'')
       (lit ''Ethereum'' @ 58 # lit ''0x00112233445566778899aabbccddeeff00112233'' @ lit ''@1?value=1'')
     = Inr (Some (UriOfOtherChain (lit ''Ethereum'') (lit ''ETH'') (lit ''TRON'')))"
proof -
  have a: "map_of URI_SCHEMES (py_lower (lit ''Ethereum'')) = Some (lit ''ETH'')" by code_simp
  have b: "lit ''ETH'' \<noteq> lit ''BCH''" by code_simp
  have c: "list_all alnum (lit ''0x00112233445566778899aabbccddeeff00112233'')" by code_simp
  have d: "11 < length (lit ''0x00112233445566778899aabbccddeeff00112233'')" by code_simp
  have e: "uri_tail (lit ''@1?value=1'')" by (simp add: uri_tail_def lit_def)
  have f: "(lit ''TRON'' = lit ''ETH'') = False" by code_simp
  show ?thesis unfolding payment_uri_same_verdict [OF a b c d e] f by simp
qed

section \<open>What the check decides\<close>

lemma fromhex_hex_line:
  "list_all hex_char s \<Longrightarrow> even (length s) \<Longrightarrow> py_fromhex s \<noteq> None \<and> py_fromhex (s @ [10]) \<noteq> None"
proof (induction s rule: py_fromhex.induct)
  case 1
  then show ?case by (simp add: hex_space_def)
next
  case (2 c)
  then show ?case by simp
next
  case (3 c d cs)
  then have "\<not> hex_space c" by (auto simp: hex_char_range hex_space_def)
  moreover obtain h l where "hex_value c = Some h" "hex_value d = Some l"
    using 3 by (auto simp: hex_char_def)
  ultimately show ?case using 3 by auto
qed

lemma evm_rule:
  assumes "chain \<in> set EVM_CHAINS" "map_of RULES chain = Some rule"
  shows "rule = [evm_shape]"
  using assms by (auto simp: EVM_CHAINS_def RULES_def lit_def)

lemma evm_checksum_total:
  assumes "rule_match [evm_shape] a"
  shows "\<exists>ok. eip55_ok keccak256 a = Inr ok"
proof -
  obtain s where s: "list_all hex_char s" "length s = 40" "a = lit ''0x'' @ s \<or> a = lit ''0x'' @ s @ [10]"
  proof -
    have "has_shape evm_shape t \<Longrightarrow> \<exists>s. list_all hex_char s \<and> length s = 40 \<and> t = lit ''0x'' @ s" for t
      by (auto simp: has_shape_def evm_shape_def prefix_def Let_def)
    moreover have "a \<noteq> [] \<and> last a = 10 \<Longrightarrow> a = butlast a @ [10]"
      by (metis append_butlast_last_id)
    then have "has_shape evm_shape a \<or> has_shape evm_shape (butlast a) \<and> a = butlast a @ [10]"
      using assms by (auto simp: rule_match_def)
    ultimately have "(\<exists>s. list_all hex_char s \<and> length s = 40 \<and> a = lit ''0x'' @ s)
        \<or> (\<exists>s. list_all hex_char s \<and> length s = 40 \<and> a = (lit ''0x'' @ s) @ [10])" by metis
    with that show ?thesis by (auto simp only: append_assoc)
  qed
  have "py_fromhex s \<noteq> None \<and> py_fromhex (s @ [10]) \<noteq> None"
    using s by (intro fromhex_hex_line) simp_all
  moreover have "take 2 a = lit ''0x''" "drop 2 a = s \<or> drop 2 a = s @ [10]"
    using s(3) by (auto simp: lit_def)
  moreover have "py_lower (lit ''0x'') = lit ''0x''" by code_simp
  ultimately have "to_checksum_address keccak256 a \<noteq> None"
    by (auto simp: to_checksum_address_def Let_def split: option.split)
  then show ?thesis by (auto simp: eip55_ok_def Let_def)
qed

text \<open>
  C34: The destination check never raises, on any text and for any chain, and it accepts exactly
  the texts that do not name another chain and whose address is not empty and, where the chain
  has a rule, has the chain's shape and does not fail the checksum of its form.
\<close>

theorem validate_decides:
  "\<exists>verdict. validate_destination_address b58 keccak256 chain text = Inr verdict \<and>
     (verdict = None \<longleftrightarrow>
        uri_chain text \<in> {None, Some chain} \<and> text \<noteq> [] \<and>
        (let a = fst (parse_payment_uri text) in
         a \<noteq> [] \<and> (case map_of RULES chain of
           None \<Rightarrow> True
         | Some rule \<Rightarrow> rule_match rule a \<and> checksum_ok b58 keccak256 chain a = Inr True)))"
proof -
  let ?a = "fst (parse_payment_uri text)"
  have checked: "\<exists>ok. checksum_ok b58 keccak256 chain ?a = Inr ok"
    if "map_of RULES chain = Some rule" "rule_match rule ?a" for rule
  proof (cases "chain \<in> set EVM_CHAINS")
    case True
    then have "map_of SEGWIT_HRP chain = None" "map_of PLAIN_BECH32_HRP chain = None"
      "chain \<noteq> lit ''BCH''"
      by (auto simp: EVM_CHAINS_def SEGWIT_HRP_def PLAIN_BECH32_HRP_def lit_def)
    then show ?thesis
      using True that evm_checksum_total [of ?a keccak256] evm_rule [OF True] by (simp add: checksum_ok_def)
  next
    case False
    then show ?thesis by (simp add: checksum_ok_def split: option.split)
  qed
  show ?thesis
  proof (cases "map_of RULES chain")
    case None
    then show ?thesis
      by (auto simp: validate_destination_address_def Let_def split: option.split)
  next
    case (Some rule)
    show ?thesis
    proof (cases "rule_match rule ?a")
      case True
      then obtain ok where "checksum_ok b58 keccak256 chain ?a = Inr ok" using checked Some by blast
      then show ?thesis using Some True
        by (auto simp: validate_destination_address_def checksum_problem_def Let_def split: option.split)
    next
      case False
      then show ?thesis using Some
        by (auto simp: validate_destination_address_def Let_def split: option.split)
    qed
  qed
qed

text \<open>
  A legacy Bitcoin Cash address whose base58 checksum is right is accepted as it is, and
  refused for its checksum as soon as it is written with the \<open>bitcoincash:\<close> scheme that the shape
  rule allows in front of it: the prefixed form is always read as a cashaddr.
\<close>

theorem bch_legacy_uri_refused:
  assumes addr: "addr = 49 # body" "list_all b58_char body" "24 \<le> length body" "length body \<le> 34"
    and good: "b58 BITCOIN_ALPHABET addr \<noteq> None"
  shows "validate_destination_address b58 keccak256 (lit ''BCH'') addr = Inr None
       \<and> rule_match (the (map_of RULES (lit ''BCH''))) (lit ''bitcoincash'' @ 58 # addr)
       \<and> validate_destination_address b58 keccak256 (lit ''BCH'') (lit ''bitcoincash'' @ 58 # addr)
         = Inr (Some (BadChecksum (lit ''bitcoincash'' @ 58 # addr) (lit ''BCH'')))"
proof -
  let ?uri = "lit ''bitcoincash'' @ 58 # addr"
  have "b58_char c \<Longrightarrow> alnum c" for c
  proof -
    have "list_all alnum (lit ''123456789ABCDEFGHJKLMNPQRSTUVWXYZabcdefghijkmnopqrstuvwxyz'')"
      by code_simp
    then show "b58_char c \<Longrightarrow> alnum c" by (auto simp: b58_char_def list_all_iff)
  qed
  then have an: "list_all alnum addr" using addr by (auto simp: list_all_iff alnum_def)
  have "11 < length addr" using addr by simp
  note bare = bare_address_parse [OF an this]
  have low: "py_lower (lit ''bitcoincash'') = lit ''bitcoincash''" by code_simp
  have "map_of URI_SCHEMES (py_lower (lit ''bitcoincash'')) = Some (lit ''BCH'')" by code_simp
  from payment_uri_parse [OF this an, of "[]"]
  have uri: "uri_chain ?uri = Some (lit ''BCH'')" "fst (parse_payment_uri ?uri) = ?uri"
    by (simp_all add: uri_tail_def low)
  let ?l = "b58_shape [''bitcoincash:1'', ''bitcoincash:3'', ''1'', ''3''] 24 34"
  have rule: "map_of RULES (lit ''BCH'')
      = Some [b32_shape [''bitcoincash:q'', ''bitcoincash:p'', ''q'', ''p''] 40 60, ?l]"
    by (simp add: RULES_def lit_def)
  have shapes: "has_shape ?l addr" "has_shape ?l ?uri"
    using addr by (simp_all add: has_shape_def b58_shape_def lit_def Let_def)
  have "58 \<notin> set addr" using alnum_absent(1) [OF an] by blast
  moreover have "charset_values addr = None" using addr by (simp add: charset_def lit_def)
  ultimately have ca: "\<not> cashaddr_ok ?uri"
    using cashaddr_ok_body [of addr ?uri "lit ''bitcoincash''"] by simp
  have ck: "checksum_ok b58 keccak256 (lit ''BCH'') addr = Inr True"
    "checksum_ok b58 keccak256 (lit ''BCH'') ?uri = Inr False"
    using addr good ca
    by (simp_all add: checksum_ok_def SEGWIT_HRP_def PLAIN_BECH32_HRP_def EVM_CHAINS_def
        BASE58CHECK_ALPHABET_def lit_def)
  show ?thesis
    using shapes ck \<open>11 < length addr\<close> unfolding validate_destination_address_def bare uri rule
    by (auto simp: rule_match_def checksum_problem_def lit_def)
qed

lemma bch_legacy_uri_refused_witness:
  "\<forall>keccak256. validate_destination_address (\<lambda>_ _. Some []) keccak256 (lit ''BCH'')
     (lit ''bitcoincash'' @ 58 # lit ''1BpEi6DfDAUFd7GtittLSdBeYJvcoaVggu'')
   = Inr (Some (BadChecksum (lit ''bitcoincash'' @ 58 # lit ''1BpEi6DfDAUFd7GtittLSdBeYJvcoaVggu'')
       (lit ''BCH'')))"
proof -
  let ?b = "lit ''BpEi6DfDAUFd7GtittLSdBeYJvcoaVggu''"
  have a: "lit ''1BpEi6DfDAUFd7GtittLSdBeYJvcoaVggu'' = 49 # ?b" by (simp add: lit_def)
  have b: "list_all b58_char ?b" by code_simp
  have c: "24 \<le> length ?b" "length ?b \<le> 34" by code_simp+
  show ?thesis using bch_legacy_uri_refused [OF a b c, of "\<lambda>_ _. Some []"] by simp
qed

end
