(* ===== verification/History.thy ===== *)
theory History
  imports ChainBase "HOL-Library.Multiset"
begin

text \<open>
  \<open>src/swapsack/chains/history.py\<close>: the wallet's transactions and outputs, assembled from the
  transactions of its addresses. The paged fetch is a parameter that acts on a world; the thread
  pool keeps the order of its arguments.
\<close>

section \<open>Records\<close>

record address_txs =
  at_transactions :: "tx_summary list"
  at_truncated :: bool

record wallet_output =
  wo_txid :: pystr
  wo_vout :: nat
  wo_value :: int
  wo_address :: pystr
  wo_path :: pystr
  wo_confirmed :: bool
  wo_block_height :: "int option"
  wo_block_time :: "int option"
  wo_spent_by :: "pystr option"

definition wo_outpoint :: "wallet_output \<Rightarrow> pystr" where
  "wo_outpoint out = wo_txid out @ [58] @ dec_nat (wo_vout out)"

definition wo_spent :: "wallet_output \<Rightarrow> bool" where
  "wo_spent out \<longleftrightarrow> wo_spent_by out \<noteq> None"

record wallet_tx =
  wt_txid :: pystr
  wt_confirmed :: bool
  wt_block_height :: "int option"
  wt_block_time :: "int option"
  wt_fee :: int
  wt_received :: int
  wt_sent :: int
  wt_has_op_return :: bool
  wt_memo :: "bytes option"
  wt_counterparties :: "pystr list"

definition wt_net :: "wallet_tx \<Rightarrow> int" where
  "wt_net t = wt_received t - wt_sent t"

definition wt_outgoing :: "wallet_tx \<Rightarrow> bool" where
  "wt_outgoing t \<longleftrightarrow> 0 < wt_sent t"

record history =
  hi_transactions :: "wallet_tx list"
  hi_outputs :: "wallet_output list"
  hi_truncated :: "pystr list"

definition hi_unspent :: "history \<Rightarrow> wallet_output list" where
  "hi_unspent h = filter (\<lambda>out. \<not> wo_spent out) (hi_outputs h)"

definition unspent_total :: "history \<Rightarrow> int" where
  "unspent_total h = sum_list (map wo_value (hi_unspent h))"

definition spent_total :: "history \<Rightarrow> int" where
  "spent_total h = sum_list (map wo_value (filter wo_spent (hi_outputs h)))"

section \<open>Walking the pages\<close>

definition DEFAULT_TX_LIMIT :: nat where
  "DEFAULT_TX_LIMIT = 500"

text \<open>What a fetch ends in: a page with the next cursor, the throttle that cuts the walk, another exception.\<close>

datatype ('c, 'e) page = Page "tx_summary list" "'c option" | Throttled | PageRaises 'e

definition unseen :: "pystr set \<Rightarrow> tx_summary list \<Rightarrow> tx_summary list" where
  "unseen seen ts = filter (\<lambda>tx. ts_txid tx \<notin> seen) ts"

function collect_loop ::
  "('c option \<Rightarrow> 'w \<Rightarrow> ('c, 'e) page \<times> 'w) \<Rightarrow> nat \<Rightarrow> pystr set \<Rightarrow> tx_summary list \<Rightarrow> 'c option \<Rightarrow> 'w
   \<Rightarrow> ('e + address_txs) \<times> 'w" where
  "collect_loop fetch_page limit seen txs cursor w =
     (case fetch_page cursor w of
        (Throttled, w') \<Rightarrow> (Inr \<lparr>at_transactions = txs, at_truncated = True\<rparr>, w')
      | (PageRaises e, w') \<Rightarrow> (Inl e, w')
      | (Page ts cursor', w') \<Rightarrow>
          let new_txs = unseen seen ts; txs' = txs @ new_txs in
          if limit \<le> length txs'
          then (Inr \<lparr>at_transactions = take limit txs', at_truncated = True\<rparr>, w')
          else if cursor' = None \<or> new_txs = []
          then (Inr \<lparr>at_transactions = txs', at_truncated = False\<rparr>, w')
          else collect_loop fetch_page limit (seen \<union> ts_txid ` set new_txs) txs' cursor' w')"
  by pat_completeness auto
termination
  by (relation "measure (\<lambda>(fetch_page, limit, seen, txs, cursor, w). limit - length txs)")
     (auto simp: neq_Nil_conv)

declare collect_loop.simps [simp del]

definition collect_pages ::
  "('c option \<Rightarrow> 'w \<Rightarrow> ('c, 'e) page \<times> 'w) \<Rightarrow> nat \<Rightarrow> 'w \<Rightarrow> ('e + address_txs) \<times> 'w" where
  "collect_pages fetch_page limit w = collect_loop fetch_page limit {} [] None w"

section \<open>Assembling\<close>

definition tx_sort_key :: "bool \<Rightarrow> int option \<Rightarrow> int \<times> int" where
  "tx_sort_key confirmed height =
     (if \<not> confirmed then (0, 0) else (1, - (case height of None \<Rightarrow> 0 | Some h \<Rightarrow> h)))"

definition owned_paths :: "(pystr \<times> pystr) list \<Rightarrow> (pystr \<times> pystr) list" where
  "owned_paths records = dict_of (map (\<lambda>(path, address). (address, path)) records)"

text \<open>\<open>txs.setdefault(tx.txid, tx)\<close> over all the batches: the first of each id, in order.\<close>

definition merge_txs :: "address_txs list \<Rightarrow> tx_summary list" where
  "merge_txs fetched =
     foldl (\<lambda>txs tx. if ts_txid tx \<in> ts_txid ` set txs then txs else txs @ [tx]) []
       (concat (map at_transactions fetched))"

fun outpoint_of :: "tx_entry \<Rightarrow> (pystr \<times> int) option" where
  "outpoint_of i = (case (te_txid i, te_vout i) of (Some t, Some v) \<Rightarrow> Some (t, v) | _ \<Rightarrow> None)"

definition spends_of :: "tx_summary \<Rightarrow> ((pystr \<times> int) \<times> pystr) list" where
  "spends_of tx =
     concat (map (\<lambda>i. case outpoint_of i of None \<Rightarrow> [] | Some p \<Rightarrow> [(p, ts_txid tx)]) (ts_inputs tx))"

definition spenders :: "tx_summary list \<Rightarrow> pystr \<times> int \<Rightarrow> pystr option" where
  "spenders txs = map_of (rev (concat (map spends_of txs)))"

definition is_ours :: "(pystr \<times> pystr) list \<Rightarrow> tx_entry \<Rightarrow> bool" where
  "is_ours owned e \<longleftrightarrow> (case te_address e of None \<Rightarrow> False | Some a \<Rightarrow> map_of owned a \<noteq> None)"

text \<open>\<open>dict.fromkeys\<close>: each key once, in the order of first occurrence.\<close>

definition first_seen :: "'a list \<Rightarrow> 'a list" where
  "first_seen xs = rev (remdups (rev xs))"

definition counterparties :: "(pystr \<times> pystr) list \<Rightarrow> tx_summary \<Rightarrow> pystr list" where
  "counterparties owned tx =
     first_seen (concat (map (\<lambda>out. case te_address out of
       None \<Rightarrow> [] | Some a \<Rightarrow> if a \<noteq> [] \<and> map_of owned a = None then [a] else []) (ts_outputs tx)))"

definition summary_memo :: "tx_summary \<Rightarrow> bytes option" where
  "summary_memo tx =
     (case find (\<lambda>out. te_op_return out \<and> te_op_return_data out \<noteq> None \<and> te_op_return_data out \<noteq> Some [])
        (ts_outputs tx) of
        None \<Rightarrow> None | Some out \<Rightarrow> te_op_return_data out)"

definition wallet_tx_of :: "(pystr \<times> pystr) list \<Rightarrow> tx_summary \<Rightarrow> wallet_tx" where
  "wallet_tx_of owned tx =
     \<lparr>wt_txid = ts_txid tx, wt_confirmed = ts_confirmed tx, wt_block_height = ts_block_height tx,
      wt_block_time = ts_block_time tx, wt_fee = ts_fee tx,
      wt_received = sum_list (map te_value (filter (is_ours owned) (ts_outputs tx))),
      wt_sent = sum_list (map te_value (filter (is_ours owned) (ts_inputs tx))),
      wt_has_op_return = has_op_return tx, wt_memo = summary_memo tx,
      wt_counterparties = counterparties owned tx\<rparr>"

text \<open>A spender that the source names is believed over the one found in the set.\<close>

definition spent_by :: "tx_summary list \<Rightarrow> tx_summary \<Rightarrow> nat \<Rightarrow> tx_entry \<Rightarrow> pystr option" where
  "spent_by txs tx vout out =
     (if te_spent_by out \<noteq> None \<and> te_spent_by out \<noteq> Some [] then te_spent_by out
      else spenders txs (ts_txid tx, int vout))"

definition output_row ::
  "(pystr \<times> pystr) list \<Rightarrow> tx_summary list \<Rightarrow> tx_summary \<Rightarrow> nat \<times> tx_entry \<Rightarrow> wallet_output list" where
  "output_row owned txs tx = (\<lambda>(vout, out).
     case te_address out of
       None \<Rightarrow> []
     | Some address \<Rightarrow>
         (case map_of owned address of
            None \<Rightarrow> []
          | Some path \<Rightarrow>
              [\<lparr>wo_txid = ts_txid tx, wo_vout = vout, wo_value = te_value out, wo_address = address,
                wo_path = path, wo_confirmed = ts_confirmed tx, wo_block_height = ts_block_height tx,
                wo_block_time = ts_block_time tx, wo_spent_by = spent_by txs tx vout out\<rparr>]))"

definition output_rows :: "(pystr \<times> pystr) list \<Rightarrow> tx_summary list \<Rightarrow> tx_summary \<Rightarrow> wallet_output list" where
  "output_rows owned txs tx = concat (map (output_row owned txs tx) (enumerate 0 (ts_outputs tx)))"

definition assemble :: "(pystr \<times> pystr) list \<Rightarrow> address_txs list \<Rightarrow> history" where
  "assemble owned fetched =
     (let txs = merge_txs fetched in
      \<lparr>hi_transactions = sort_key (\<lambda>t. tx_sort_key (wt_confirmed t) (wt_block_height t))
         (map (wallet_tx_of owned) txs),
       hi_outputs = sort_key (\<lambda>out. tx_sort_key (wo_confirmed out) (wo_block_height out))
         (concat (map (output_rows owned txs) txs)),
       hi_truncated = map fst (filter (\<lambda>(address, batch). at_truncated batch)
         (zip (map fst owned) fetched))\<rparr>)"

definition wallet_history ::
  "(pystr \<times> pystr) list \<Rightarrow> (pystr \<Rightarrow> 'e + address_txs) \<Rightarrow> 'e + history" where
  "wallet_history records address_txs =
     (let owned = owned_paths records; addresses = map fst owned in
      if addresses = [] then Inr \<lparr>hi_transactions = [], hi_outputs = [], hi_truncated = []\<rparr>
      else bind_res (map_res address_txs addresses) (\<lambda>fetched. Inr (assemble owned fetched)))"

section \<open>The walk ends\<close>

fun page_txs :: "('c, 'e) page \<Rightarrow> tx_summary list" where
  "page_txs (Page ts c) = ts"
| "page_txs _ = []"

text \<open>A fetch that also records the cursors it was asked with and the pages it gave.\<close>

definition logged ::
  "('c option \<Rightarrow> 'w \<Rightarrow> ('c, 'e) page \<times> 'w)
   \<Rightarrow> 'c option \<Rightarrow> 'w \<times> ('c option \<times> ('c, 'e) page) list
   \<Rightarrow> ('c, 'e) page \<times> 'w \<times> ('c option \<times> ('c, 'e) page) list" where
  "logged fetch c = (\<lambda>(w, asks). case fetch c w of (p, w') \<Rightarrow> (p, w', asks @ [(c, p)]))"

text \<open>What the pages of a walk amount to: every transaction whose id no earlier page had.\<close>

definition keep_new :: "tx_summary list \<Rightarrow> ('c, 'e) page \<Rightarrow> tx_summary list" where
  "keep_new txs p = txs @ unseen (ts_txid ` set txs) (page_txs p)"

definition kept :: "('c, 'e) page list \<Rightarrow> tx_summary list" where
  "kept pages = foldl keep_new [] pages"

text \<open>
  A walk follows the cursors: each page but the last names the next one, adds something and leaves
  room below the limit, and the next request is made with exactly the cursor it named.
\<close>

fun follows ::
  "nat \<Rightarrow> tx_summary list \<Rightarrow> 'c option \<Rightarrow> ('c option \<times> ('c, 'e) page) list \<Rightarrow> bool" where
  "follows limit txs cursor [] \<longleftrightarrow> False"
| "follows limit txs cursor [(asked, p)] \<longleftrightarrow> asked = cursor"
| "follows limit txs cursor ((asked, Page ts next_cursor) # req # asks) \<longleftrightarrow>
     asked = cursor \<and> next_cursor \<noteq> None \<and> unseen (ts_txid ` set txs) ts \<noteq> []
     \<and> length (txs @ unseen (ts_txid ` set txs) ts) < limit
     \<and> follows limit (txs @ unseen (ts_txid ` set txs) ts) next_cursor (req # asks)"
| "follows limit txs cursor ((asked, p) # req # asks) \<longleftrightarrow> False"

text \<open>How a walk ends, given the last page and what all the pages amount to.\<close>

definition walk_ends ::
  "nat \<Rightarrow> tx_summary list \<Rightarrow> tx_summary list \<Rightarrow> ('c, 'e) page \<Rightarrow> 'e + address_txs \<Rightarrow> bool" where
  "walk_ends limit before txs p r \<longleftrightarrow>
     (case r of
        Inl e \<Rightarrow> p = PageRaises e
      | Inr a \<Rightarrow> at_transactions a = take limit txs
          \<and> (at_truncated a \<longleftrightarrow> p = Throttled \<or> limit \<le> length txs)
          \<and> (at_truncated a \<or> (\<exists>ts c. p = Page ts c \<and> (c = None \<or> unseen (ts_txid ` set before) ts = []))))"

lemma set_unseen: "set (unseen seen ts) = {tx \<in> set ts. ts_txid tx \<notin> seen}"
  by (simp add: unseen_def)

lemma unseen_union:
  "ts_txid ` (set txs \<union> set (unseen (ts_txid ` set txs) ts)) = ts_txid ` (set txs \<union> set ts)"
  by (auto simp: set_unseen)

lemma foldl_keep_new_ids:
  "ts_txid ` set (foldl keep_new txs pages) = ts_txid ` (set txs \<union> set (concat (map page_txs pages)))"
proof (induction pages arbitrary: txs)
  case Nil
  then show ?case by simp
next
  case (Cons p pages)
  have "ts_txid ` set (keep_new txs p) = ts_txid ` (set txs \<union> set (page_txs p))"
    by (auto simp: keep_new_def set_unseen)
  then show ?case by (simp add: Cons image_Un Un_assoc del: set_concat)
qed

lemma follows_length:
  "follows limit txs cursor asks \<Longrightarrow> asks \<noteq> [] \<and> length asks \<le> max 1 (limit - length txs)"
proof (induction limit txs cursor asks rule: follows.induct)
  case (3 limit txs cursor asked ts next_cursor req asks)
  let ?u = "unseen (ts_txid ` set txs) ts"
  from 3(2) have u: "0 < length ?u" "length txs + length ?u < limit" by simp_all
  from 3 have "length (req # asks) \<le> max 1 (limit - length (txs @ ?u))" by auto
  also have "max 1 (limit - length (txs @ ?u)) < max 1 (limit - length txs)"
    using u unfolding length_append by linarith
  finally show ?case by simp
qed auto

lemma collect_loop_follows:
  "collect_loop (logged fetch) limit (ts_txid ` set txs) txs cursor (w, hist) = (r, w', hist')
   \<Longrightarrow> length txs \<le> limit \<Longrightarrow> \<exists>asks. hist' = hist @ asks \<and> follows limit txs cursor asks
     \<and> walk_ends limit (foldl keep_new txs (map snd (butlast asks))) (foldl keep_new txs (map snd asks))
         (snd (last asks)) r"
proof (induction "limit - length txs" arbitrary: txs cursor w hist rule: less_induct)
  case less
  let ?F = "logged fetch"
  obtain p u where f: "fetch cursor w = (p, u)" by fastforce
  then have lf: "?F cursor (w, hist) = (p, u, hist @ [(cursor, p)])" by (simp add: logged_def)
  note unf = less.prems(1) [unfolded collect_loop.simps [of ?F limit _ txs] lf]
  show ?case
  proof (cases p)
    case (Page ts c)
    let ?u = "unseen (ts_txid ` set txs) ts"
    note res = unf [unfolded Page, simplified, unfolded Let_def]
    show ?thesis
    proof (cases "limit \<le> length (txs @ ?u) \<or> c = None \<or> ?u = []")
      case True
      then have "r = Inr \<lparr>at_transactions = take limit (txs @ ?u), at_truncated = limit \<le> length (txs @ ?u)\<rparr>
          \<and> hist' = hist @ [(cursor, p)]"
        using res by (auto simp: Page split: if_splits)
      then show ?thesis using True
        by (intro exI [of _ "[(cursor, p)]"]) (auto simp: walk_ends_def keep_new_def Page)
    next
      case more: False
      then have rec: "collect_loop ?F limit (ts_txid ` set (txs @ ?u)) (txs @ ?u) c (u, hist @ [(cursor, p)])
          = (r, w', hist')"
        using res by (auto simp: Page image_Un)
      have "0 < length ?u" using more by simp
      then have "limit - length (txs @ ?u) < limit - length txs"
        using more unfolding length_append by linarith
      from less.hyps [OF this rec] more obtain asks where
        asks: "hist' = (hist @ [(cursor, p)]) @ asks" "follows limit (txs @ ?u) c asks"
        "walk_ends limit (foldl keep_new (txs @ ?u) (map snd (butlast asks)))
           (foldl keep_new (txs @ ?u) (map snd asks)) (snd (last asks)) r" by auto
      from asks(2) obtain req rest where cons: "asks = req # rest" by (cases asks) auto
      have "keep_new txs p = txs @ ?u" by (simp add: keep_new_def Page)
      then show ?thesis using asks more
        by (intro exI [of _ "(cursor, p) # asks"]) (auto simp: Page cons)
    qed
  next
    case Throttled
    then show ?thesis using unf less.prems(2)
      by (intro exI [of _ "[(cursor, p)]"]) (auto simp: walk_ends_def keep_new_def unseen_def)
  next
    case (PageRaises e)
    then show ?thesis using unf
      by (intro exI [of _ "[(cursor, p)]"]) (auto simp: walk_ends_def)
  qed
qed

text \<open>
  C39: The walk over an address's pages ends, and what ends it decides the mark. However the
  explorer answers, at most \<open>limit\<close> pages are asked for (one, when the limit is 0): the first one
  without a cursor and each further one with the cursor of the page before it, as long as pages
  name a next one, add a transaction and leave room below the limit. An error is the one the last
  page raised. Otherwise the result is what the pages amount to, cut at the limit: every id that
  was on one of them, the earliest occurrence kept. It is marked as cut short exactly when the last
  request was throttled or the limit was reached; so an unmarked result has every id of every page
  asked for, and its last page named no next one or brought nothing that was not known (an explorer
  that repeats itself).
\<close>

theorem collect_pages_ends:
  "\<exists>r w' asks. collect_pages (logged fetch) limit (w, []) = (r, w', asks)
     \<and> asks \<noteq> [] \<and> length asks \<le> max 1 limit \<and> follows limit [] None asks
     \<and> (case r of
          Inl e \<Rightarrow> snd (last asks) = PageRaises e
        | Inr a \<Rightarrow> at_transactions a = take limit (kept (map snd asks))
            \<and> (at_truncated a \<longleftrightarrow> snd (last asks) = Throttled \<or> limit \<le> length (kept (map snd asks)))
            \<and> (at_truncated a
               \<or> ts_txid ` set (at_transactions a) = ts_txid ` set (concat (map (page_txs \<circ> snd) asks))
                 \<and> (\<exists>ts c. snd (last asks) = Page ts c
                      \<and> (c = None \<or> unseen (ts_txid ` set (kept (map snd (butlast asks)))) ts = []))))"
proof -
  obtain r w' asks where run: "collect_pages (logged fetch) limit (w, []) = (r, w', asks)"
    using prod_cases3 by blast
  from collect_loop_follows [of fetch limit "[]" None w "[]" r w' asks] run
  have asks: "follows limit [] None asks"
    "walk_ends limit (kept (map snd (butlast asks))) (kept (map snd asks)) (snd (last asks)) r"
    by (auto simp: collect_pages_def kept_def)
  have ids: "ts_txid ` set (kept (map snd asks)) = ts_txid ` set (concat (map (page_txs \<circ> snd) asks))"
    using foldl_keep_new_ids [of "[]" "map snd asks"] by (simp add: kept_def o_def del: set_concat)
  have "case r of
          Inl e \<Rightarrow> snd (last asks) = PageRaises e
        | Inr a \<Rightarrow> at_transactions a = take limit (kept (map snd asks))
            \<and> (at_truncated a \<longleftrightarrow> snd (last asks) = Throttled \<or> limit \<le> length (kept (map snd asks)))
            \<and> (at_truncated a
               \<or> ts_txid ` set (at_transactions a) = ts_txid ` set (concat (map (page_txs \<circ> snd) asks))
                 \<and> (\<exists>ts c. snd (last asks) = Page ts c
                      \<and> (c = None \<or> unseen (ts_txid ` set (kept (map snd (butlast asks)))) ts = [])))"
  proof (cases r)
    case (Inl e)
    with asks(2) show ?thesis by (simp add: walk_ends_def)
  next
    case (Inr a)
    have a: "at_transactions a = take limit (kept (map snd asks))"
      "at_truncated a \<longleftrightarrow> snd (last asks) = Throttled \<or> limit \<le> length (kept (map snd asks))"
      "at_truncated a \<or> (\<exists>ts c. snd (last asks) = Page ts c
         \<and> (c = None \<or> unseen (ts_txid ` set (kept (map snd (butlast asks)))) ts = []))"
      using asks(2) [unfolded walk_ends_def Inr sum.case] by blast+
    have "at_truncated a
        \<or> ts_txid ` set (at_transactions a) = ts_txid ` set (concat (map (page_txs \<circ> snd) asks))"
      using a(1,2) ids by (cases "at_truncated a") (simp_all del: set_concat)
    with a show ?thesis unfolding Inr sum.case by blast
  qed
  with run asks(1) follows_length [OF asks(1)] show ?thesis by auto
qed

section \<open>What the history shows\<close>

lemma merge_txs_from:
  assumes "distinct (map ts_txid acc)"
  shows "distinct (map ts_txid (foldl (\<lambda>txs tx. if ts_txid tx \<in> ts_txid ` set txs then txs else txs @ [tx]) acc ts))
    \<and> ts_txid ` set (foldl (\<lambda>txs tx. if ts_txid tx \<in> ts_txid ` set txs then txs else txs @ [tx]) acc ts)
      = ts_txid ` (set acc \<union> set ts)"
  using assms by (induction ts arbitrary: acc) (auto simp: image_Un insert_absorb)

lemma merge_txs_props:
  "distinct (map ts_txid (merge_txs fetched))"
  "ts_txid ` set (merge_txs fetched) = ts_txid ` set (concat (map at_transactions fetched))"
  using merge_txs_from [of "[]" "concat (map at_transactions fetched)"] by (simp_all add: merge_txs_def)

lemma sum_list_sort_key: "sum_list (map f (sort_key k xs)) = (sum_list (map f xs) :: int)"
  by (metis mset_map mset_sort sum_mset_sum_list)

definition row_key :: "wallet_output \<Rightarrow> pystr \<times> int" where
  "row_key r = (wo_txid r, int (wo_vout r))"

definition row_of ::
  "tx_summary list \<Rightarrow> tx_summary \<Rightarrow> nat \<Rightarrow> pystr \<Rightarrow> pystr \<Rightarrow> wallet_output" where
  "row_of txs tx v address path =
     \<lparr>wo_txid = ts_txid tx, wo_vout = v, wo_value = te_value (ts_outputs tx ! v), wo_address = address,
      wo_path = path, wo_confirmed = ts_confirmed tx, wo_block_height = ts_block_height tx,
      wo_block_time = ts_block_time tx, wo_spent_by = spent_by txs tx v (ts_outputs tx ! v)\<rparr>"

lemma output_rows_iff:
  "r \<in> set (output_rows owned txs tx) \<longleftrightarrow>
    (\<exists>v address path. v < length (ts_outputs tx) \<and> te_address (ts_outputs tx ! v) = Some address
       \<and> map_of owned address = Some path \<and> r = row_of txs tx v address path)"
proof -
  have "r \<in> set (output_rows owned txs tx) \<longleftrightarrow>
      (\<exists>v < length (ts_outputs tx). r \<in> set (output_row owned txs tx (v, ts_outputs tx ! v)))"
    by (force simp: output_rows_def in_set_enumerate_eq)
  then show ?thesis by (auto simp: output_row_def row_of_def split: option.splits)
qed

lemma row_values:
  "sum_list (map wo_value (concat (map (output_row owned txs tx) (enumerate n outs))))
   = sum_list (map te_value (filter (is_ours owned) outs))"
  by (induction outs arbitrary: n) (auto simp: output_row_def is_ours_def split: option.splits)

lemma output_rows_values:
  "sum_list (map wo_value (output_rows owned txs tx))
   = sum_list (map te_value (filter (is_ours owned) (ts_outputs tx)))"
  by (simp add: output_rows_def row_values)

lemma keyed_cons:
  "h = [] \<or> h = [(t, int n)] \<Longrightarrow> distinct r \<Longrightarrow> \<forall>k \<in> set r. fst k = t \<and> int (Suc n) \<le> snd k
   \<Longrightarrow> distinct (h @ r) \<and> (\<forall>k \<in> set (h @ r). fst k = t \<and> int n \<le> snd k)"
  by fastforce

lemma row_keys_from:
  "distinct (map row_key (concat (map (output_row owned txs tx) (enumerate n outs))))
   \<and> (\<forall>k \<in> set (map row_key (concat (map (output_row owned txs tx) (enumerate n outs)))).
        fst k = ts_txid tx \<and> int n \<le> snd k)"
proof (induction outs arbitrary: n)
  case Nil
  then show ?case by simp
next
  case (Cons out outs)
  let ?head = "map row_key (output_row owned txs tx (n, out))"
  let ?rest = "map row_key (concat (map (output_row owned txs tx) (enumerate (Suc n) outs)))"
  have all: "map row_key (concat (map (output_row owned txs tx) (enumerate n (out # outs)))) = ?head @ ?rest"
    by simp
  have head: "?head = [] \<or> ?head = [(ts_txid tx, int n)]"
    by (auto simp: output_row_def row_key_def split: option.split)
  have rest: "distinct ?rest" "\<forall>k \<in> set ?rest. fst k = ts_txid tx \<and> int (Suc n) \<le> snd k"
    using Cons by blast+
  then show ?case unfolding all using keyed_cons [OF head] by blast
qed

lemma output_rows_keys:
  "distinct (map row_key (output_rows owned txs tx))"
  "r \<in> set (output_rows owned txs tx) \<Longrightarrow> wo_txid r = ts_txid tx"
  using row_keys_from [of owned txs tx 0 "ts_outputs tx"]
  by (auto simp: output_rows_def row_key_def image_subset_iff)

lemma all_rows_keys:
  "distinct (map ts_txid ts) \<Longrightarrow> distinct (map row_key (concat (map (output_rows owned txs) ts)))"
proof (induction ts)
  case Nil
  then show ?case by simp
next
  case (Cons t ts)
  have "row_key r \<noteq> row_key r'"
    if "r \<in> set (output_rows owned txs t)" "t' \<in> set ts" "r' \<in> set (output_rows owned txs t')" for r r' t'
    using that Cons.prems output_rows_keys(2) by (force simp: row_key_def)
  with Cons show ?case by (fastforce simp: output_rows_keys)
qed

section \<open>Spends\<close>

definition all_inputs :: "tx_summary list \<Rightarrow> tx_entry list" where
  "all_inputs txs = concat (map ts_inputs txs)"

definition outpoints :: "tx_entry list \<Rightarrow> (pystr \<times> int) list" where
  "outpoints inputs = concat (map (\<lambda>i. case outpoint_of i of None \<Rightarrow> [] | Some p \<Rightarrow> [p]) inputs)"

lemma outpoints_iff: "p \<in> set (outpoints inputs) \<longleftrightarrow> (\<exists>i \<in> set inputs. outpoint_of i = Some p)"
  by (auto simp: outpoints_def split: option.splits)

lemma spenders_iff: "spenders txs p \<noteq> None \<longleftrightarrow> p \<in> set (outpoints (all_inputs txs))"
proof -
  have "fst ` set (concat (map spends_of txs)) = set (outpoints (all_inputs txs))"
    by (force simp: spends_of_def outpoints_def all_inputs_def split: option.splits)
  then show ?thesis unfolding spenders_def by (simp add: map_of_eq_None_iff)
qed

lemma outpoints_distinct:
  assumes "distinct (outpoints inputs)" "\<And>i. i \<in> set inputs \<Longrightarrow> P i \<Longrightarrow> outpoint_of i \<noteq> None"
  shows "distinct (map (\<lambda>i. the (outpoint_of i)) (filter P inputs))"
  using assms
proof (induction inputs)
  case Nil
  then show ?case by simp
next
  case (Cons i inputs)
  have "distinct (outpoints inputs)" using Cons.prems(1) by (simp add: outpoints_def)
  then have rest: "distinct (map (\<lambda>i. the (outpoint_of i)) (filter P inputs))" using Cons by simp
  show ?case
  proof (cases "P i")
    case True
    then obtain p where p: "outpoint_of i = Some p" using Cons.prems(2) [of i] by auto
    then have "p \<notin> set (outpoints inputs)" using Cons.prems(1) by (simp add: outpoints_def)
    then have "the (outpoint_of j) \<noteq> p" if "j \<in> set inputs" "P j" for j
      using that Cons.prems(2) [of j] by (force simp: outpoints_iff)
    then show ?thesis using rest True p by auto
  next
    case False
    then show ?thesis using rest by simp
  qed
qed

text \<open>
  What the explorers report fits together: no output is spent twice; an input of ours spends an
  output of the set with its address and amount; an output of ours is spent by an input that is
  known as ours; and a reported spender is one of the set.
\<close>

definition coherent :: "(pystr \<times> pystr) list \<Rightarrow> tx_summary list \<Rightarrow> bool" where
  "coherent owned txs \<longleftrightarrow>
     distinct (outpoints (all_inputs txs))
     \<and> (\<forall>i \<in> set (all_inputs txs). is_ours owned i \<longrightarrow>
          (\<exists>t \<in> set txs. \<exists>v < length (ts_outputs t). outpoint_of i = Some (ts_txid t, int v)
             \<and> te_address (ts_outputs t ! v) = te_address i \<and> te_value (ts_outputs t ! v) = te_value i))
     \<and> (\<forall>i \<in> set (all_inputs txs). \<forall>t \<in> set txs. \<forall>v < length (ts_outputs t).
          outpoint_of i = Some (ts_txid t, int v) \<longrightarrow> is_ours owned (ts_outputs t ! v) \<longrightarrow> is_ours owned i)
     \<and> (\<forall>t \<in> set txs. \<forall>v < length (ts_outputs t).
          is_ours owned (ts_outputs t ! v) \<longrightarrow> te_spent_by (ts_outputs t ! v) \<notin> {None, Some []} \<longrightarrow>
          (ts_txid t, int v) \<in> set (outpoints (all_inputs txs)))"

lemma sum_list_by_key:
  assumes "distinct (map k xs)" "distinct (map l ys)" "k ` set xs = l ` set ys"
    and "\<And>x y. x \<in> set xs \<Longrightarrow> y \<in> set ys \<Longrightarrow> k x = l y \<Longrightarrow> f x = g y"
  shows "sum_list (map f xs) = (sum_list (map g ys) :: int)"
proof -
  have dx: "distinct xs" "inj_on k (set xs)" and dy: "distinct ys" "inj_on l (set ys)"
    using assms by (simp_all add: distinct_map)
  let ?F = "\<lambda>p. f (inv_into (set xs) k p)"
  have "sum f (set xs) = sum ?F (k ` set xs)"
    using dx(2) by (simp add: sum.reindex)
  also have "\<dots> = sum ?F (l ` set ys)" using assms(3) by simp
  also have "\<dots> = sum (\<lambda>y. ?F (l y)) (set ys)" using dy(2) by (simp add: sum.reindex)
  also have "\<dots> = sum g (set ys)"
  proof (rule sum.cong)
    fix y
    assume y: "y \<in> set ys"
    then have "l y \<in> k ` set xs" using assms(3) by blast
    then have "inv_into (set xs) k (l y) \<in> set xs" "k (inv_into (set xs) k (l y)) = l y"
      by (simp_all add: inv_into_into f_inv_into_f)
    then show "?F (l y) = g y" using assms(4) y by blast
  qed simp
  finally show ?thesis using dx(1) dy(1) by (simp add: sum_list_distinct_conv_sum_set)
qed

lemma row_spent_iff:
  assumes "coherent owned txs" "t \<in> set txs" "v < length (ts_outputs t)" "is_ours owned (ts_outputs t ! v)"
  shows "spent_by txs t v (ts_outputs t ! v) \<noteq> None \<longleftrightarrow> (ts_txid t, int v) \<in> set (outpoints (all_inputs txs))"
proof -
  have "te_spent_by (ts_outputs t ! v) \<notin> {None, Some []} \<longrightarrow>
      (ts_txid t, int v) \<in> set (outpoints (all_inputs txs))"
    using assms unfolding coherent_def by blast
  then show ?thesis using spenders_iff [of txs "(ts_txid t, int v)"] by (auto simp: spent_by_def)
qed

text \<open>What left the wallet is what the spent rows held.\<close>

lemma spent_rows_total:
  assumes coh: "coherent owned txs" and dist: "distinct (map ts_txid txs)"
  shows "sum_list (map wo_value (filter wo_spent (concat (map (output_rows owned txs) txs))))
       = sum_list (map te_value (filter (is_ours owned) (all_inputs txs)))"
proof (rule sum_list_by_key)
  let ?R = "concat (map (output_rows owned txs) txs)"
  let ?I = "filter (is_ours owned) (all_inputs txs)"
  have origin: "\<exists>t \<in> set txs. \<exists>v < length (ts_outputs t). outpoint_of i = Some (ts_txid t, int v)
      \<and> te_address (ts_outputs t ! v) = te_address i \<and> te_value (ts_outputs t ! v) = te_value i"
    if "i \<in> set ?I" for i
    using coh that unfolding coherent_def by auto
  have row: "\<exists>t \<in> set txs. \<exists>v < length (ts_outputs t). \<exists>a p. te_address (ts_outputs t ! v) = Some a
      \<and> map_of owned a = Some p \<and> r = row_of txs t v a p" if "r \<in> set ?R" for r
    using that by (auto simp: output_rows_iff)
  show "distinct (map row_key (filter wo_spent ?R))"
    using all_rows_keys [OF dist] by (rule distinct_map_filter)
  have "distinct (outpoints (all_inputs txs))" using coh by (simp add: coherent_def)
  then show "distinct (map (\<lambda>i. the (outpoint_of i)) ?I)"
    using origin by (intro outpoints_distinct) fastforce+
  show "row_key ` set (filter wo_spent ?R) = (\<lambda>i. the (outpoint_of i)) ` set ?I"
  proof (intro equalityI subsetI)
    fix k
    assume "k \<in> row_key ` set (filter wo_spent ?R)"
    then obtain q where q: "q \<in> set ?R" "wo_spent q" "k = row_key q" by auto
    obtain t v a p where r: "t \<in> set txs" "v < length (ts_outputs t)"
      "te_address (ts_outputs t ! v) = Some a" "map_of owned a = Some p" "q = row_of txs t v a p"
      using row [OF q(1)] by blast
    then have k: "k = (ts_txid t, int v)" and sp: "spent_by txs t v (ts_outputs t ! v) \<noteq> None"
      using q by (simp_all add: row_key_def row_of_def wo_spent_def)
    have ours: "is_ours owned (ts_outputs t ! v)" using r by (simp add: is_ours_def)
    then have kin: "k \<in> set (outpoints (all_inputs txs))"
      using row_spent_iff [OF coh r(1,2)] sp k by simp
    obtain i where i: "i \<in> set (all_inputs txs)" "outpoint_of i = Some k"
      using kin outpoints_iff by metis
    then have "is_ours owned i" using coh r k ours unfolding coherent_def by blast
    with i show "k \<in> (\<lambda>i. the (outpoint_of i)) ` set ?I" by force
  next
    fix k
    assume "k \<in> (\<lambda>i. the (outpoint_of i)) ` set ?I"
    then obtain i where i: "i \<in> set ?I" "k = the (outpoint_of i)" by auto
    then obtain t v where t: "t \<in> set txs" "v < length (ts_outputs t)"
      "outpoint_of i = Some (ts_txid t, int v)" "te_address (ts_outputs t ! v) = te_address i"
      using origin by blast
    from i obtain a p where a: "te_address i = Some a" "map_of owned a = Some p"
      by (auto simp: is_ours_def split: option.splits)
    have "is_ours owned (ts_outputs t ! v)" using t a by (simp add: is_ours_def)
    moreover have "(ts_txid t, int v) \<in> set (outpoints (all_inputs txs))"
      using i t by (auto simp: outpoints_iff)
    ultimately have "wo_spent (row_of txs t v a p)"
      using row_spent_iff [OF coh t(1,2)] by (simp add: wo_spent_def row_of_def)
    moreover have "row_of txs t v a p \<in> set ?R" using t a by (auto simp: output_rows_iff)
    moreover have "row_key (row_of txs t v a p) = k" using i t by (simp add: row_key_def row_of_def)
    ultimately show "k \<in> row_key ` set (filter wo_spent ?R)" by force
  qed
  show "wo_value r = te_value i"
    if r: "r \<in> set (filter wo_spent ?R)" and i: "i \<in> set ?I" and k: "row_key r = the (outpoint_of i)" for r i
  proof -
    obtain t v where t: "t \<in> set txs" "v < length (ts_outputs t)"
      "outpoint_of i = Some (ts_txid t, int v)" "te_value (ts_outputs t ! v) = te_value i"
      using origin [OF i] by blast
    obtain u w a p where u: "u \<in> set txs" "r = row_of txs u w a p" using row r by fastforce
    then have "ts_txid u = ts_txid t" "w = v"
      using k t by (simp_all add: row_key_def row_of_def)
    then have "u = t" using dist u(1) t(1) by (auto simp: distinct_map inj_on_def)
    with u \<open>w = v\<close> t show ?thesis by (simp add: row_of_def)
  qed
qed

section \<open>The promises of the listing\<close>

text \<open>
  C38: The listing is complete and in order. Every transaction id that any address reported appears
  exactly once, the newest first with the unconfirmed ones ahead of all blocks; the outputs are
  exactly the outputs of those transactions that pay an address of ours, with its path, each once
  and in the same order; and an output is shown as spent exactly when its source says by whom, or
  a transaction of the set takes it as an input.
\<close>

theorem history_complete:
  assumes "map_res address_txs (map fst (owned_paths records)) = Inr fetched" "owned_paths records \<noteq> []"
  shows "\<exists>h. wallet_history records address_txs = Inr h
    \<and> distinct (map wt_txid (hi_transactions h))
    \<and> set (map wt_txid (hi_transactions h)) = ts_txid ` set (concat (map at_transactions fetched))
    \<and> sorted (map (\<lambda>t. tx_sort_key (wt_confirmed t) (wt_block_height t)) (hi_transactions h))
    \<and> sorted (map (\<lambda>out. tx_sort_key (wo_confirmed out) (wo_block_height out)) (hi_outputs h))
    \<and> distinct (map row_key (hi_outputs h))
    \<and> set (hi_outputs h) = {row_of (merge_txs fetched) t v a p |t v a p. t \<in> set (merge_txs fetched)
         \<and> v < length (ts_outputs t) \<and> te_address (ts_outputs t ! v) = Some a
         \<and> map_of (owned_paths records) a = Some p}
    \<and> list_all (\<lambda>t. list_all (\<lambda>v. spent_by (merge_txs fetched) t v (ts_outputs t ! v) \<noteq> None \<longleftrightarrow>
          te_spent_by (ts_outputs t ! v) \<notin> {None, Some []}
          \<or> (ts_txid t, int v) \<in> set (outpoints (all_inputs (merge_txs fetched))))
        [0..<length (ts_outputs t)]) (merge_txs fetched)"
proof (intro exI conjI)
  let ?o = "owned_paths records" and ?txs = "merge_txs fetched"
  let ?R = "concat (map (output_rows ?o ?txs) ?txs)"
  show "wallet_history records address_txs = Inr (assemble ?o fetched)"
    using assms by (simp add: wallet_history_def)
  note m = merge_txs_props [of fetched]
  have t: "mset (map wt_txid (hi_transactions (assemble ?o fetched))) = mset (map ts_txid ?txs)"
    by (simp add: assemble_def Let_def wallet_tx_of_def multiset.map_comp o_def)
  then show "distinct (map wt_txid (hi_transactions (assemble ?o fetched)))"
    using m(1) mset_eq_imp_distinct_iff by blast
  show "set (map wt_txid (hi_transactions (assemble ?o fetched)))
      = ts_txid ` set (concat (map at_transactions fetched))"
    using m(2) mset_eq_setD [OF t] by simp
  show "sorted (map (\<lambda>t. tx_sort_key (wt_confirmed t) (wt_block_height t)) (hi_transactions (assemble ?o fetched)))"
    by (simp add: assemble_def Let_def)
  show "sorted (map (\<lambda>out. tx_sort_key (wo_confirmed out) (wo_block_height out)) (hi_outputs (assemble ?o fetched)))"
    by (simp add: assemble_def Let_def)
  have "mset (map row_key (hi_outputs (assemble ?o fetched))) = mset (map row_key ?R)"
    by (simp add: assemble_def Let_def)
  then show "distinct (map row_key (hi_outputs (assemble ?o fetched)))"
    using all_rows_keys [OF m(1)] mset_eq_imp_distinct_iff by blast
  have "set (hi_outputs (assemble ?o fetched)) = set ?R" by (simp add: assemble_def Let_def)
  also have "\<dots> = {row_of ?txs t v a p |t v a p. t \<in> set ?txs \<and> v < length (ts_outputs t)
      \<and> te_address (ts_outputs t ! v) = Some a \<and> map_of ?o a = Some p}"
    unfolding set_concat set_map UN_simps by (rule set_eqI) (simp add: output_rows_iff, blast)
  finally show "set (hi_outputs (assemble ?o fetched)) = \<dots>" .
  show "list_all (\<lambda>t. list_all (\<lambda>v. spent_by ?txs t v (ts_outputs t ! v) \<noteq> None \<longleftrightarrow>
          te_spent_by (ts_outputs t ! v) \<notin> {None, Some []}
          \<or> (ts_txid t, int v) \<in> set (outpoints (all_inputs ?txs)))
        [0..<length (ts_outputs t)]) ?txs"
    using spenders_iff [of ?txs] by (auto simp: list_all_iff spent_by_def)
qed

text \<open>
  C37: The two views agree. When what the explorers reported fits together, the value of the outputs
  that are shown as unspent is the sum of the net amounts of the listed transactions, and the value
  of the spent ones is what the listed transactions sent.
\<close>

theorem history_balances:
  assumes "map_res address_txs (map fst (owned_paths records)) = Inr fetched" "owned_paths records \<noteq> []"
    and "coherent (owned_paths records) (merge_txs fetched)"
    and h: "wallet_history records address_txs = Inr h"
  shows "unspent_total h = sum_list (map wt_net (hi_transactions h))
       \<and> spent_total h = sum_list (map wt_sent (hi_transactions h))"
proof -
  let ?o = "owned_paths records" and ?txs = "merge_txs fetched"
  let ?R = "concat (map (output_rows ?o ?txs) ?txs)"
  have h': "h = assemble ?o fetched" using h assms(1,2) by (simp add: wallet_history_def)
  have unspent: "unspent_total h = sum_list (map wo_value (filter (\<lambda>r. \<not> wo_spent r) ?R))"
    by (simp add: h' unspent_total_def hi_unspent_def assemble_def Let_def filter_sort sum_list_sort_key)
  have spent: "spent_total h = sum_list (map wo_value (filter wo_spent ?R))"
    by (simp add: h' spent_total_def assemble_def Let_def filter_sort sum_list_sort_key)
  have both: "sum_list (map wo_value rs)
      = sum_list (map wo_value (filter wo_spent rs)) + sum_list (map wo_value (filter (\<lambda>r. \<not> wo_spent r) rs))"
    for rs by (induction rs) auto
  have received: "sum_list (map wo_value (concat (map (output_rows ?o all) ts)))
      = sum_list (map (\<lambda>t. wt_received (wallet_tx_of ?o t)) ts)" for all ts
    by (induction ts) (simp_all add: output_rows_values wallet_tx_of_def)
  have sent: "sum_list (map te_value (filter (is_ours ?o) (all_inputs ts)))
      = sum_list (map (\<lambda>t. wt_sent (wallet_tx_of ?o t)) ts)" for ts
    unfolding all_inputs_def by (induction ts) (simp_all add: wallet_tx_of_def)
  have totals: "sum_list (map f (hi_transactions h)) = sum_list (map (\<lambda>t. f (wallet_tx_of ?o t)) ?txs)"
    for f :: "wallet_tx \<Rightarrow> int"
    by (simp add: h' assemble_def Let_def sum_list_sort_key o_def)
  have net: "sum_list (map (\<lambda>t. wt_net (wallet_tx_of ?o t)) ts)
      = sum_list (map (\<lambda>t. wt_received (wallet_tx_of ?o t)) ts) - sum_list (map (\<lambda>t. wt_sent (wallet_tx_of ?o t)) ts)"
    for ts
    by (simp add: wt_net_def sum_list_subtractf)
  show ?thesis
    using spent_rows_total [OF assms(3) merge_txs_props(1)] unspent spent both [of ?R]
      received [of ?txs ?txs] sent [of ?txs]
    unfolding totals net by linarith
qed

text \<open>A wallet that received 50000, then sent 20000 of it away with 29000 of change.\<close>

definition ex_entry :: "int \<Rightarrow> string \<Rightarrow> (string \<times> int) option \<Rightarrow> tx_entry" where
  "ex_entry v a spends =
     \<lparr>te_value = v, te_address = Some (lit a), te_op_return = False,
      te_txid = map_option (lit \<circ> fst) spends, te_vout = map_option snd spends, te_sequence = None,
      te_op_return_data = None, te_spent_by = None\<rparr>"

definition ex_history :: "address_txs list" where
  "ex_history =
     (let t = \<lparr>ts_txid = lit ''t'', ts_confirmed = True, ts_block_height = Some 7, ts_fee = 500, ts_vsize = 200,
                ts_inputs = [ex_entry 50500 ''x'' (Some (''s'', 0))], ts_outputs = [ex_entry 50000 ''a'' None],
                ts_block_time = None\<rparr>;
          u = \<lparr>ts_txid = lit ''u'', ts_confirmed = False, ts_block_height = None, ts_fee = 1000, ts_vsize = 200,
                ts_inputs = [ex_entry 50000 ''a'' (Some (''t'', 0))],
                ts_outputs = [ex_entry 20000 ''y'' None, ex_entry 29000 ''b'' None], ts_block_time = None\<rparr>
      in [\<lparr>at_transactions = [u, t], at_truncated = False\<rparr>, \<lparr>at_transactions = [u], at_truncated = False\<rparr>])"

definition ex_address_txs :: "pystr \<Rightarrow> unit + address_txs" where
  "ex_address_txs a = Inr (ex_history ! (if a = lit ''a'' then 0 else 1))"

lemma ex_records: "owned_paths [(lit ''0/0'', lit ''a''), (lit ''1/0'', lit ''b'')]
    = [(lit ''a'', lit ''0/0''), (lit ''b'', lit ''1/0'')]"
  by (simp add: owned_paths_def dict_of_def lit_def)

lemma ex_fetched: "map_res ex_address_txs (map fst [(lit ''a'', lit ''0/0''), (lit ''b'', lit ''1/0'')]) = Inr ex_history"
  by (simp add: ex_address_txs_def ex_history_def lit_def Let_def)

lemma history_complete_witness:
  "\<exists>h. wallet_history [(lit ''0/0'', lit ''a''), (lit ''1/0'', lit ''b'')] ex_address_txs = Inr h
    \<and> distinct (map wt_txid (hi_transactions h))"
  using history_complete [of ex_address_txs "[(lit ''0/0'', lit ''a''), (lit ''1/0'', lit ''b'')]" ex_history]
  unfolding ex_records ex_fetched by blast

lemma ex_coherent: "coherent [(lit ''a'', lit ''0/0''), (lit ''b'', lit ''1/0'')] (merge_txs ex_history)"
  by (simp add: coherent_def ex_history_def merge_txs_def ex_entry_def lit_def Let_def all_inputs_def
      outpoints_def is_ours_def All_less_Suc Ex_less_Suc)

lemma history_balances_witness:
  "unspent_total (assemble [(lit ''a'', lit ''0/0''), (lit ''b'', lit ''1/0'')] ex_history)
   = sum_list (map wt_net (hi_transactions (assemble [(lit ''a'', lit ''0/0''), (lit ''b'', lit ''1/0'')] ex_history)))"
proof -
  have "wallet_history [(lit ''0/0'', lit ''a''), (lit ''1/0'', lit ''b'')] ex_address_txs
      = Inr (assemble [(lit ''a'', lit ''0/0''), (lit ''b'', lit ''1/0'')] ex_history)"
    unfolding wallet_history_def ex_records Let_def ex_fetched by simp
  from history_balances [OF _ _ _ this, of ex_history]
  show ?thesis unfolding ex_records using ex_fetched ex_coherent by simp
qed

end
