(* ===== verification/Chainflip.thy ===== *)
theory Chainflip
  imports Thorchain
begin

text \<open>
  \<open>src/swapsack/chainflip.py\<close>, the half that prices: quotes and their fee legs, the price floor, the
  status of a swap, the quote client and the backend. \<open>str\<close> of a float, list or dict and \<open>float\<close>
  of a text are parameters (\<open>py_libs\<close>).
\<close>

section \<open>Assets\<close>

definition CHAINFLIP_ASSETS :: "(pystr \<times> (pystr \<times> pystr \<times> nat)) list" where
  "CHAINFLIP_ASSETS =
     [(lit ''BTC.BTC'', (lit ''Bitcoin'', lit ''BTC'', 8)),
      (lit ''ETH.ETH'', (lit ''Ethereum'', lit ''ETH'', 18)),
      (lit ''ETH.USDC-0XA0B86991C6218B36C1D19D4A2E9EB0CE3606EB48'', (lit ''Ethereum'', lit ''USDC'', 6)),
      (lit ''ETH.USDT-0XDAC17F958D2EE523A2206206994597C13D831EC7'', (lit ''Ethereum'', lit ''USDT'', 6)),
      (lit ''ARB.ETH'', (lit ''Arbitrum'', lit ''ETH'', 18)),
      (lit ''ARB.USDC-0XAF88D065E77C8CC2239327C5EDB3A432268E5831'', (lit ''Arbitrum'', lit ''USDC'', 6)),
      (lit ''TRON.TRX'', (lit ''Tron'', lit ''TRX'', 6)),
      (lit ''TRON.USDT-TR7NHQJEKQXGTCI8Q8ZY4PL8OTSZGJLJ6T'', (lit ''Tron'', lit ''USDT'', 6))]"

definition cf_asset :: "pystr \<Rightarrow> py_error + (pystr \<times> pystr \<times> nat)" where
  "cf_asset asset = (case map_of CHAINFLIP_ASSETS asset of None \<Rightarrow> Inl KeyError | Some a \<Rightarrow> Inr a)"

definition cf_pair :: "pystr \<times> pystr \<times> nat \<Rightarrow> pystr \<times> pystr" where
  "cf_pair a = (fst a, fst (snd a))"

definition cf_decimals :: "pystr \<times> pystr \<times> nat \<Rightarrow> nat" where
  "cf_decimals a = snd (snd a)"

definition asset_decimals :: "pystr \<Rightarrow> pystr \<Rightarrow> nat option" where
  "asset_decimals chain asset =
     map_option (cf_decimals \<circ> snd) (find (\<lambda>e. cf_pair (snd e) = (chain, asset)) CHAINFLIP_ASSETS)"

section \<open>Conversions\<close>

record py_libs =
  pl_repr :: "json \<Rightarrow> pystr"
  pl_float :: "pystr \<Rightarrow> py_error + float64"

fun py_str :: "py_libs \<Rightarrow> json \<Rightarrow> pystr" where
  "py_str lib JNull = lit ''None''"
| "py_str lib (JBool b) = (if b then lit ''True'' else lit ''False'')"
| "py_str lib (JInt n) = dec_int n"
| "py_str lib (JStr s) = s"
| "py_str lib j = pl_repr lib j"

text \<open>\<open>str(x or "")\<close>.\<close>

definition str_or_empty :: "py_libs \<Rightarrow> json \<Rightarrow> pystr" where
  "str_or_empty lib j = (if json_truthy j then py_str lib j else [])"

fun json_float :: "py_libs \<Rightarrow> json \<Rightarrow> py_error + float64" where
  "json_float lib (JInt n) = Inr (fl_of_int n)"
| "json_float lib (JBool b) = Inr (fl_of_int (if b then 1 else 0))"
| "json_float lib (JFloat x) = Inr x"
| "json_float lib (JStr s) = pl_float lib s"
| "json_float lib _ = Inl TypeError"

text \<open>\<open>round(x)\<close>: to the nearest integer, ties to even.\<close>

fun fl_nearest :: "float64 \<Rightarrow> int" where
  "fl_nearest (Flt m e) =
     (if 0 \<le> e then m * 2 ^ nat e else sgn m * int (round_shift (nat \<bar>m\<bar>) (nat (- e))))"

text \<open>\<open>int(str(x))\<close>, or None: the text of no other value than an integer or a string is one.\<close>

fun int_or_none :: "json \<Rightarrow> int option" where
  "int_or_none (JInt n) = Some n"
| "int_or_none (JStr s) = py_int s"
| "int_or_none _ = None"

section \<open>Quotes\<close>

record chainflip_fees = swap_fees +
  cf_ingress :: int
  cf_network :: int
  cf_egress :: int

record fee_legs =
  leg_ingress :: int
  leg_network :: int
  leg_egress :: int
  leg_other :: int

record chainflip_quote =
  cfq_expected_amount_out :: int
  cfq_fees :: chainflip_fees
  cfq_egress_amount :: int
  cfq_deposit_amount :: int
  cfq_intermediate_amount :: "int option"
  cfq_estimated_duration_seconds :: int
  cfq_low_liquidity_warning :: bool
  cfq_recommended_slippage_bps :: int
  cfq_raw :: json
  cfq_ingress_fee :: int
  cfq_egress_fee :: int
  cfq_unusable :: "unusable_legs option"

fun is_object :: "json \<Rightarrow> bool" where
  "is_object (JObj d) = True"
| "is_object _ = False"

fun is_regular :: "json \<Rightarrow> bool" where
  "is_regular (JObj d) = (dget d (lit ''type'') = JStr (lit ''REGULAR''))"
| "is_regular _ = False"

definition select_quote :: "json \<Rightarrow> cf_reason + json" where
  "select_quote payload =
     (case payload of
        JObj d \<Rightarrow> Inr payload
      | JList (first # rest) \<Rightarrow>
          (case find is_regular (first # rest) of
             Some entry \<Rightarrow> Inr entry
           | None \<Rightarrow> if \<not> is_object first then Inl (CfNoQuote payload) else Inr first)
      | _ \<Rightarrow> Inl (CfNoQuote payload))"

definition add_leg :: "pystr \<Rightarrow> int \<Rightarrow> fee_legs \<Rightarrow> fee_legs" where
  "add_leg kind amount legs =
     (if kind = lit ''INGRESS'' then legs\<lparr>leg_ingress := leg_ingress legs + amount\<rparr>
      else if kind = lit ''NETWORK'' then legs\<lparr>leg_network := leg_network legs + amount\<rparr>
      else if kind = lit ''EGRESS'' then legs\<lparr>leg_egress := leg_egress legs + amount\<rparr>
      else legs\<lparr>leg_other := leg_other legs + amount\<rparr>)"

text \<open>The asset the floor's arithmetic takes a leg to be in.\<close>

definition denominated :: "pystr \<times> pystr \<Rightarrow> pystr \<times> pystr \<Rightarrow> pystr \<Rightarrow> (pystr \<times> pystr) option" where
  "denominated ingress_asset egress_asset kind =
     (if kind = lit ''INGRESS'' then Some ingress_asset
      else if kind = lit ''EGRESS'' then Some egress_asset else None)"

definition note_leg ::
  "pystr \<times> pystr \<Rightarrow> pystr \<times> pystr \<Rightarrow> pystr \<Rightarrow> pystr \<times> pystr \<Rightarrow> unusable_legs option \<Rightarrow> unusable_legs option" where
  "note_leg ingress_asset egress_asset kind stated unusable =
     (case denominated ingress_asset egress_asset kind of
        Some expected \<Rightarrow>
          if stated \<noteq> expected \<and> unusable = None
          then Some (LegCharged kind (snd stated) (fst stated) (snd expected) (fst expected))
          else unusable
      | None \<Rightarrow> unusable)"

fun native_fee_loop ::
  "py_libs \<Rightarrow> pystr \<times> pystr \<Rightarrow> pystr \<times> pystr \<Rightarrow> json list \<Rightarrow> fee_legs \<Rightarrow> unusable_legs option
   \<Rightarrow> py_error + (fee_legs \<times> unusable_legs option)" where
  "native_fee_loop lib ingress_asset egress_asset [] legs unusable = Inr (legs, unusable)"
| "native_fee_loop lib ingress_asset egress_asset (fee # fees) legs unusable =
     bind_res (jget_or fee (lit ''type'') (JStr [])) (\<lambda>kind.
     bind_res (jget_or fee (lit ''chain'') (JStr [])) (\<lambda>chain.
     bind_res (jget_or fee (lit ''asset'') (JStr [])) (\<lambda>asset.
     let kind = py_str lib kind;
         unusable' = note_leg ingress_asset egress_asset kind (py_str lib chain, py_str lib asset) unusable in
     bind_res (jint_at fee (lit ''amount'')) (\<lambda>amount.
       native_fee_loop lib ingress_asset egress_asset fees (add_leg kind amount legs) unusable'))))"

definition native_fee_legs ::
  "py_libs \<Rightarrow> json \<Rightarrow> pystr \<times> pystr \<Rightarrow> pystr \<times> pystr \<Rightarrow> py_error + (fee_legs \<times> unusable_legs option)" where
  "native_fee_legs lib included ingress_asset egress_asset =
     bind_res (json_iter included) (\<lambda>fees.
     bind_res (native_fee_loop lib ingress_asset egress_asset fees
         \<lparr>leg_ingress = 0, leg_network = 0, leg_egress = 0, leg_other = 0\<rparr> None) (\<lambda>(legs, unusable).
       Inr (legs, if leg_other legs \<noteq> 0 \<and> unusable = None then Some (UnknownLeg (leg_other legs)) else unusable)))"

definition convert_fees :: "fee_legs \<Rightarrow> pystr \<Rightarrow> int \<Rightarrow> int \<Rightarrow> int \<Rightarrow> int option \<Rightarrow> chainflip_fees" where
  "convert_fees native to_asset dest_unit egress deposit intermediate =
     (let at_deposit_rate = (\<lambda>amount. if deposit \<noteq> 0 then amount * egress div deposit else 0);
          ingress = at_deposit_rate (leg_ingress native);
          network = (case intermediate of
              Some i \<Rightarrow> if i \<noteq> 0 then leg_network native * egress div i else leg_network native
            | None \<Rightarrow> leg_network native) + at_deposit_rate (leg_other native);
          scale = (\<lambda>v. v * THORCHAIN_UNIT div dest_unit);
          total_fee = scale ingress + scale network + scale (leg_egress native);
          gross = egress * THORCHAIN_UNIT div dest_unit + total_fee
      in \<lparr>sf_asset = JStr to_asset, sf_outbound = scale (leg_egress native), sf_affiliate = 0,
          sf_liquidity = scale ingress + scale network, sf_total = total_fee, sf_slippage_bps = 0,
          sf_total_bps = (if gross \<noteq> 0 then 10000 * total_fee div gross else 0),
          cf_ingress = scale ingress, cf_network = scale network, cf_egress = scale (leg_egress native)\<rparr>)"

definition parse_chainflip_fields ::
  "py_libs \<Rightarrow> json \<Rightarrow> pystr \<Rightarrow> pystr \<Rightarrow> py_error + chainflip_quote" where
  "parse_chainflip_fields lib quote from_asset to_asset =
     bind_res (cf_asset to_asset) (\<lambda>dst.
     let dest_unit = 10 ^ cf_decimals dst in
     bind_res (jint_at quote (lit ''egressAmount'')) (\<lambda>egress.
     bind_res (jint_at quote (lit ''depositAmount'')) (\<lambda>deposit.
     bind_res (jget quote (lit ''intermediateAmount'')) (\<lambda>inter.
     bind_res (if inter = JNull then Inr None else map_sum id Some (json_int inter)) (\<lambda>intermediate.
     bind_res (jindex quote (lit ''includedFees'')) (\<lambda>included.
     bind_res (cf_asset from_asset) (\<lambda>src.
     bind_res (native_fee_legs lib included (cf_pair src) (cf_pair dst)) (\<lambda>(native, unusable).
     bind_res (jget quote (lit ''recommendedSlippageTolerancePercent'')) (\<lambda>slip.
     bind_res (json_float lib (json_or slip (JInt 0))) (\<lambda>slippage_pct.
     bind_res (jget quote (lit ''estimatedDurationSeconds'')) (\<lambda>dur.
     bind_res (json_int (json_or dur (JInt 0))) (\<lambda>duration.
     bind_res (jget_or quote (lit ''lowLiquidityWarning'') (JBool False)) (\<lambda>low.
       Inr \<lparr>cfq_expected_amount_out = egress * THORCHAIN_UNIT div dest_unit,
            cfq_fees = convert_fees native to_asset dest_unit egress deposit intermediate,
            cfq_egress_amount = egress, cfq_deposit_amount = deposit,
            cfq_intermediate_amount = intermediate, cfq_estimated_duration_seconds = duration,
            cfq_low_liquidity_warning = json_truthy low,
            cfq_recommended_slippage_bps = fl_nearest (fl_mul_int 100 slippage_pct),
            cfq_raw = quote, cfq_ingress_fee = leg_ingress native, cfq_egress_fee = leg_egress native,
            cfq_unusable = unusable\<rparr>)))))))))))))"

text \<open>What the parser turns into a ChainflipError; another exception passes through it.\<close>

definition cf_caught :: "py_error \<Rightarrow> bool" where
  "cf_caught e \<longleftrightarrow> e \<in> {KeyError, TypeError, ValueError}"

definition cf_guard :: "(py_error \<Rightarrow> cf_reason) \<Rightarrow> py_error + 'a \<Rightarrow> 'p exn + 'a" where
  "cf_guard reason r =
     (case r of
        Inr x \<Rightarrow> Inr x
      | Inl e \<Rightarrow> Inl (if cf_caught e then ChainflipError (reason e) else PyExn e))"

definition parse_chainflip_quote ::
  "py_libs \<Rightarrow> json \<Rightarrow> pystr \<Rightarrow> pystr \<Rightarrow> 'p exn + chainflip_quote" where
  "parse_chainflip_quote lib payload from_asset to_asset =
     (case select_quote payload of
        Inl r \<Rightarrow> Inl (ChainflipError r)
      | Inr quote \<Rightarrow>
          bind_res (py_res (jhas (lit ''message'') quote)) (\<lambda>has_message.
          bind_res (py_res (jhas (lit ''egressAmount'') quote)) (\<lambda>has_egress.
          if has_message \<and> \<not> has_egress
          then bind_res (py_res (jindex quote (lit ''message''))) (\<lambda>m. Inl (ChainflipError (CfApiMessage m)))
          else cf_guard CfMalformedQuote (parse_chainflip_fields lib quote from_asset to_asset))))"

definition deposit_units :: "int \<Rightarrow> nat \<Rightarrow> int" where
  "deposit_units amount decimals = amount * 10 ^ decimals div THORCHAIN_UNIT"

section \<open>The status of a swap\<close>

record swap_status =
  st_state :: pystr
  st_swap_id :: pystr
  st_src_chain :: pystr
  st_src_asset :: pystr
  st_dest_chain :: pystr
  st_dest_asset :: pystr
  st_dest_address :: pystr
  st_deposit_amount :: int
  st_deposit_txid :: pystr
  st_output_amount :: "int option"
  st_egress_txid :: pystr
  st_witnessed_at :: "int option"
  st_aborted_reason :: pystr
  st_refund_amount :: "int option"
  st_refund_txid :: pystr

definition settled :: "swap_status \<Rightarrow> bool" where
  "settled s \<longleftrightarrow> py_upper (st_state s) = lit ''COMPLETED''"

definition aborted :: "swap_status \<Rightarrow> bool" where
  "aborted s \<longleftrightarrow> st_aborted_reason s \<noteq> []"

definition refunded :: "swap_status \<Rightarrow> bool" where
  "refunded s \<longleftrightarrow> st_refund_amount s \<noteq> None \<or> st_refund_txid s \<noteq> []"

text \<open>\<open>payload.get(k) or {}\<close>, which must then have \<open>get\<close>.\<close>

definition sub_object :: "(pystr \<times> json) list \<Rightarrow> string \<Rightarrow> json" where
  "sub_object d k = json_or (dget d (lit k)) (JObj [])"

definition parse_swap_status :: "py_libs \<Rightarrow> (pystr \<times> json) list \<Rightarrow> py_error + swap_status" where
  "parse_swap_status lib payload =
     (let text = (\<lambda>k. str_or_empty lib (dget_or payload (lit k) (JStr [])));
          deposit = sub_object payload ''deposit'';
          egress = sub_object payload ''swapEgress'';
          refund = sub_object payload ''refundEgress'' in
      bind_res (jget deposit (lit ''amount'')) (\<lambda>deposit_amount.
      bind_res (jget_or deposit (lit ''txRef'') (JStr [])) (\<lambda>deposit_ref.
      bind_res (jget egress (lit ''amount'')) (\<lambda>egress_amount.
      bind_res (jget_or egress (lit ''txRef'') (JStr [])) (\<lambda>egress_ref.
      bind_res (jget deposit (lit ''witnessedAt'')) (\<lambda>witnessed.
      bind_res (jget refund (lit ''amount'')) (\<lambda>refund_amount.
      bind_res (jget_or refund (lit ''txRef'') (JStr [])) (\<lambda>refund_ref.
        Inr \<lparr>st_state = text ''state'', st_swap_id = text ''swapId'', st_src_chain = text ''srcChain'',
             st_src_asset = text ''srcAsset'', st_dest_chain = text ''destChain'',
             st_dest_asset = text ''destAsset'', st_dest_address = text ''destAddress'',
             st_deposit_amount = (case int_or_none deposit_amount of None \<Rightarrow> 0 | Some n \<Rightarrow> n),
             st_deposit_txid = str_or_empty lib deposit_ref,
             st_output_amount = int_or_none egress_amount, st_egress_txid = str_or_empty lib egress_ref,
             st_witnessed_at = int_or_none witnessed, st_aborted_reason = text ''abortedReason'',
             st_refund_amount = int_or_none refund_amount, st_refund_txid = str_or_empty lib refund_ref\<rparr>))))))))"

section \<open>The client\<close>

definition cf_quote_params :: "pystr \<times> pystr \<Rightarrow> pystr \<times> pystr \<Rightarrow> int \<Rightarrow> params" where
  "cf_quote_params src dst amount =
     [(lit ''srcChain'', JStr (fst src)), (lit ''srcAsset'', JStr (snd src)),
      (lit ''destChain'', JStr (fst dst)), (lit ''destAsset'', JStr (snd dst)),
      (lit ''amount'', JStr (dec_int amount))]"

definition cf_client_quote ::
  "('w, 'p) fetch \<Rightarrow> pystr \<Rightarrow> pystr \<times> pystr \<Rightarrow> pystr \<times> pystr \<Rightarrow> int \<Rightarrow> ('w, 'p, json) io" where
  "cf_client_quote get base_url src dst amount =
     and_then (get (base_url @ lit ''/quote'') (cf_quote_params src dst amount)) (\<lambda>resp.
       if 400 \<le> rs_status resp then
         (case rs_json resp of
            None \<Rightarrow> raise HttpError
          | Some payload \<Rightarrow>
              if json_truthy payload
              then and_then (of_py (jget_or payload (lit ''message'') payload)) (\<lambda>m. raise (ChainflipError (CfApiMessage m)))
              else raise (ChainflipError (CfApiMessage (JStr (rs_text resp)))))
       else resp_json resp)"

definition cf_client_swap_status ::
  "py_libs \<Rightarrow> ('w, 'p) fetch \<Rightarrow> pystr \<Rightarrow> pystr \<Rightarrow> ('w, 'p, swap_status option) io" where
  "cf_client_swap_status lib get base_url txid =
     and_then (get (base_url @ lit ''/swaps/'' @ txid) []) (\<lambda>resp.
       if rs_status resp = 404 then ret None
       else and_then (raise_for_status resp) (\<lambda>_.
         and_then (resp_json resp) (\<lambda>payload.
           case payload of
             JObj d \<Rightarrow> of_py (map_sum id Some (parse_swap_status lib d))
           | _ \<Rightarrow> raise (ChainflipError (CfMalformedStatus txid)))))"

section \<open>The backend\<close>

definition VAULT_SWAP_ASSET_IDS :: "(pystr \<times> nat) list" where
  "VAULT_SWAP_ASSET_IDS =
     [(lit ''ETH.ETH'', 1),
      (lit ''ETH.USDC-0XA0B86991C6218B36C1D19D4A2E9EB0CE3606EB48'', 3),
      (lit ''BTC.BTC'', 5),
      (lit ''ARB.ETH'', 6),
      (lit ''ARB.USDC-0XAF88D065E77C8CC2239327C5EDB3A432268E5831'', 7),
      (lit ''ETH.USDT-0XDAC17F958D2EE523A2206206994597C13D831EC7'', 8)]"

definition VAULT_SWAP_ASSETS_BY_ID :: "(nat \<times> pystr) list" where
  "VAULT_SWAP_ASSETS_BY_ID = map (\<lambda>(asset, asset_id). (asset_id, asset)) VAULT_SWAP_ASSET_IDS"

definition VAULT_SWAP_CHAIN_IDS :: "(pystr \<times> nat) list" where
  "VAULT_SWAP_CHAIN_IDS = [(lit ''Ethereum'', 1), (lit ''Bitcoin'', 3), (lit ''Arbitrum'', 4)]"

definition EVM_VAULT_CHAINS :: "pystr list" where
  "EVM_VAULT_CHAINS = [lit ''Ethereum'', lit ''Arbitrum'']"

definition EVM_CHAIN_IDS :: "(pystr \<times> int) list" where
  "EVM_CHAIN_IDS = [(lit ''Ethereum'', 1), (lit ''Arbitrum'', 42161)]"

definition vault_chain :: "pystr \<Rightarrow> pystr" where
  "vault_chain asset = (case map_of CHAINFLIP_ASSETS asset of None \<Rightarrow> [] | Some a \<Rightarrow> fst a)"

definition can_settle_vault_swap :: "pystr \<Rightarrow> pystr \<Rightarrow> bool" where
  "can_settle_vault_swap from_asset to_asset \<longleftrightarrow>
     map_of VAULT_SWAP_ASSET_IDS to_asset \<noteq> None \<and>
     (if vault_chain from_asset = lit ''Bitcoin'' then vault_chain to_asset \<in> set EVM_VAULT_CHAINS
      else vault_chain from_asset \<in> set EVM_VAULT_CHAINS)"

definition cf_serves :: "pystr \<Rightarrow> pystr \<Rightarrow> bool" where
  "cf_serves from_asset to_asset \<longleftrightarrow>
     map_of CHAINFLIP_ASSETS from_asset \<noteq> None \<and> map_of CHAINFLIP_ASSETS to_asset \<noteq> None
     \<and> from_asset \<noteq> to_asset"

definition cf_can_execute :: "pystr \<Rightarrow> pystr \<Rightarrow> bool" where
  "cf_can_execute from_asset to_asset \<longleftrightarrow>
     cf_serves from_asset to_asset \<and> can_settle_vault_swap from_asset to_asset"

fun cf_quote_failure :: "'p exn \<Rightarrow> bool" where
  "cf_quote_failure (ChainflipError r) = True"
| "cf_quote_failure HttpError = True"
| "cf_quote_failure (PyExn e) = (e \<in> {KeyError, ValueError, TypeError})"
| "cf_quote_failure _ = False"

definition cf_try_quote ::
  "py_libs \<Rightarrow> ('w, 'p) fetch \<Rightarrow> pystr \<Rightarrow> pystr \<Rightarrow> pystr \<Rightarrow> int \<Rightarrow> int option \<Rightarrow> ('w, 'p, chainflip_quote option) io"
where
  "cf_try_quote lib get base_url from_asset to_asset amount streaming_interval =
     (if streaming_interval \<noteq> None \<or> \<not> cf_serves from_asset to_asset then ret None
      else
        case (map_of CHAINFLIP_ASSETS from_asset, map_of CHAINFLIP_ASSETS to_asset) of
          (Some src, Some dst) \<Rightarrow>
            (let native = deposit_units amount (cf_decimals src) in
             if native \<le> 0 then ret None
             else
               try_call
                 (and_then (cf_client_quote get base_url (cf_pair src) (cf_pair dst) native) (\<lambda>payload.
                  and_then (of_res (parse_chainflip_quote lib payload from_asset to_asset)) (\<lambda>q. ret (Some q))))
                 (\<lambda>exc. if cf_quote_failure exc then Some (ret None) else None))
        | _ \<Rightarrow> ret None)"

section \<open>The floor\<close>

definition min_output_amount :: "chainflip_quote \<Rightarrow> int option \<Rightarrow> cf_reason + int" where
  "min_output_amount quote bps =
     (let bps = (case bps of None \<Rightarrow> cfq_recommended_slippage_bps quote | Some b \<Rightarrow> b) in
      if \<not> (0 \<le> bps \<and> bps < 10000) then Inl (CfTolerance bps)
      else Inr (cfq_egress_amount quote * (10000 - bps) div 10000))"

definition PRICE_FRACTIONAL_BITS :: nat where
  "PRICE_FRACTIONAL_BITS = 128"

definition min_price :: "chainflip_quote \<Rightarrow> int option \<Rightarrow> cf_reason + (int \<times> int)" where
  "min_price quote bps =
     (case cfq_unusable quote of
        Some u \<Rightarrow> Inl (CfNoFloor u)
      | None \<Rightarrow>
          bind_res (min_output_amount quote bps) (\<lambda>floor_amount.
          let swap_input = cfq_deposit_amount quote - cfq_ingress_fee quote in
          if swap_input \<le> 0 then Inl (CfIngressSwallows (cfq_ingress_fee quote) (cfq_deposit_amount quote))
          else
            let numerator = push_bit PRICE_FRACTIONAL_BITS (floor_amount + cfq_egress_fee quote) in
            Inr (- (- numerator div swap_input), floor_amount)))"

section \<open>What the floor protects\<close>

lemma ceil_div:
  assumes "0 < (d::int)"
  shows "x = - (- n div d) \<longleftrightarrow> (x - 1) * d < n \<and> n \<le> x * d"
proof -
  have "- n = (- n div d) * d + - n mod d" by (simp only: div_mult_mod_eq)
  moreover have "0 \<le> - n mod d" "- n mod d < d" using assms by simp_all
  moreover have "(- (- n div d) - 1) * d = - ((- n div d) * d) - d"
    "(- (- n div d)) * d = - ((- n div d) * d)"
    by (simp_all add: left_diff_distrib)
  ultimately have low: "(- (- n div d) - 1) * d < n" and up: "n \<le> (- (- n div d)) * d"
    by linarith+
  show ?thesis
  proof
    assume "x = - (- n div d)"
    with low up show "(x - 1) * d < n \<and> n \<le> x * d" by blast
  next
    assume x: "(x - 1) * d < n \<and> n \<le> x * d"
    from x up have "(x - 1) * d < - (- n div d) * d" by linarith
    then have "x - 1 < - (- n div d)" using assms by (simp only: mult_less_cancel_right_pos)
    moreover from x low have "(- (- n div d) - 1) * d < x * d" by linarith
    then have "- (- n div d) - 1 < x" using assms by (simp only: mult_less_cancel_right_pos)
    ultimately show "x = - (- n div d)" by linarith
  qed
qed

text \<open>
  C35: The price floor does what it says. A price is given exactly when the fee legs can be used as
  arithmetic, the tolerance is in range and the ingress fee leaves something to swap, and then it
  is the least rate, in units of \<open>2 ^ -128\<close>, at which what goes into the pools buys the floor and
  the egress fee. So a swap of the deposit less the ingress fee that the protocol fills at this rate or a better
  one delivers at least the floor after the egress fee.
\<close>

theorem min_price_guarantees:
  "(min_price q bps = Inr (price, floor_amount) \<longleftrightarrow>
      cfq_unusable q = None \<and> min_output_amount q bps = Inr floor_amount
      \<and> cfq_ingress_fee q < cfq_deposit_amount q
      \<and> (price - 1) * (cfq_deposit_amount q - cfq_ingress_fee q) < (floor_amount + cfq_egress_fee q) * 2 ^ 128
      \<and> (floor_amount + cfq_egress_fee q) * 2 ^ 128 \<le> price * (cfq_deposit_amount q - cfq_ingress_fee q))
   \<and> (min_price q bps = Inr (price, floor_amount)
      \<and> price * (cfq_deposit_amount q - cfq_ingress_fee q) \<le> out * 2 ^ 128 \<longrightarrow>
      floor_amount \<le> out - cfq_egress_fee q)"
proof -
  let ?i = "cfq_deposit_amount q - cfq_ingress_fee q"
  let ?n = "(floor_amount + cfq_egress_fee q) * 2 ^ 128"
  have exact: "min_price q bps = Inr (price, floor_amount) \<longleftrightarrow>
      cfq_unusable q = None \<and> min_output_amount q bps = Inr floor_amount
      \<and> cfq_ingress_fee q < cfq_deposit_amount q \<and> (price - 1) * ?i < ?n \<and> ?n \<le> price * ?i"
  proof (cases "cfq_ingress_fee q < cfq_deposit_amount q")
    case True
    then have "price = - (- ?n div ?i) \<longleftrightarrow> (price - 1) * ?i < ?n \<and> ?n \<le> price * ?i"
      by (intro ceil_div) simp
    with True show ?thesis
      by (auto simp: min_price_def bind_res_eq_Inr Let_def PRICE_FRACTIONAL_BITS_def push_bit_eq_mult
          split: option.splits)
  next
    case False
    then show ?thesis by (auto simp: min_price_def bind_res_eq_Inr Let_def split: option.splits)
  qed
  moreover have "floor_amount \<le> out - cfq_egress_fee q"
    if "min_price q bps = Inr (price, floor_amount)" "price * ?i \<le> out * 2 ^ 128"
  proof -
    have "?n \<le> out * 2 ^ 128" using that exact by linarith
    then show ?thesis by simp
  qed
  ultimately show ?thesis by blast
qed

text \<open>The stated kind, asset and amount of a fee, and the sum of the legs of one kind.\<close>

definition fee_kind :: "py_libs \<Rightarrow> json \<Rightarrow> pystr" where
  "fee_kind lib fee = (case jget_or fee (lit ''type'') (JStr []) of Inl e \<Rightarrow> [] | Inr k \<Rightarrow> py_str lib k)"

definition fee_asset :: "py_libs \<Rightarrow> json \<Rightarrow> pystr \<times> pystr" where
  "fee_asset lib fee =
     (case (jget_or fee (lit ''chain'') (JStr []), jget_or fee (lit ''asset'') (JStr [])) of
        (Inr c, Inr a) \<Rightarrow> (py_str lib c, py_str lib a) | _ \<Rightarrow> ([], []))"

definition fee_amount :: "json \<Rightarrow> int" where
  "fee_amount fee = (case jint_at fee (lit ''amount'') of Inl e \<Rightarrow> 0 | Inr n \<Rightarrow> n)"

definition legs_sum :: "py_libs \<Rightarrow> (pystr \<Rightarrow> bool) \<Rightarrow> json list \<Rightarrow> int" where
  "legs_sum lib P fees = sum_list (map fee_amount (filter (\<lambda>f. P (fee_kind lib f)) fees))"

definition known_leg :: "pystr \<Rightarrow> bool" where
  "known_leg k \<longleftrightarrow> k \<in> {lit ''INGRESS'', lit ''NETWORK'', lit ''EGRESS''}"

lemma leg_names:
  "lit ''INGRESS'' \<noteq> lit ''NETWORK''" "lit ''INGRESS'' \<noteq> lit ''EGRESS''" "lit ''NETWORK'' \<noteq> lit ''EGRESS''"
  by (simp_all add: lit_def)

lemma native_fee_loop_legs:
  assumes "native_fee_loop lib src dst fees legs unusable = Inr (legs', unusable')"
  shows "leg_ingress legs' = leg_ingress legs + legs_sum lib (\<lambda>k. k = lit ''INGRESS'') fees
    \<and> leg_network legs' = leg_network legs + legs_sum lib (\<lambda>k. k = lit ''NETWORK'') fees
    \<and> leg_egress legs' = leg_egress legs + legs_sum lib (\<lambda>k. k = lit ''EGRESS'') fees
    \<and> leg_other legs' = leg_other legs + legs_sum lib (\<lambda>k. \<not> known_leg k) fees
    \<and> (unusable' = None \<longrightarrow> unusable = None
        \<and> list_all (\<lambda>f. denominated src dst (fee_kind lib f) \<in> {None, Some (fee_asset lib f)}) fees)"
  using assms
proof (induction fees arbitrary: legs unusable)
  case Nil
  then show ?case by (simp add: legs_sum_def)
next
  case (Cons fee fees)
  then obtain k c a n where f: "jget_or fee (lit ''type'') (JStr []) = Inr k"
    "jget_or fee (lit ''chain'') (JStr []) = Inr c" "jget_or fee (lit ''asset'') (JStr []) = Inr a"
    "jint_at fee (lit ''amount'') = Inr n"
    by (auto simp: bind_res_eq_Inr Let_def)
  let ?k = "py_str lib k"
  have kind: "fee_kind lib fee = ?k" "fee_asset lib fee = (py_str lib c, py_str lib a)" "fee_amount fee = n"
    using f by (simp_all add: fee_kind_def fee_asset_def fee_amount_def)
  let ?u = "note_leg src dst ?k (fee_asset lib fee) unusable"
  have rest: "native_fee_loop lib src dst fees (add_leg ?k n legs) ?u = Inr (legs', unusable')"
    using Cons.prems f kind by (simp add: bind_res_def Let_def)
  have sums: "legs_sum lib P (fee # fees) = (if P ?k then n else 0) + legs_sum lib P fees" for P
    using kind by (simp add: legs_sum_def)
  have ok: "?u = None \<longleftrightarrow> unusable = None \<and> denominated src dst ?k \<in> {None, Some (fee_asset lib fee)}"
    by (auto simp: note_leg_def split: option.splits)
  show ?case
    using Cons.IH [OF rest] ok leg_names kind(1)
    by (auto simp: sums add_leg_def known_leg_def)
qed

text \<open>
  C36: The floor rests on fees that are what it takes them for. When a parsed quote gives a price
  floor, every fee it was computed from was stated in the source asset (ingress) or the destination
  asset (egress), the amounts are their sums, and the fees of types the wallet does not know sum to
  nothing.
\<close>

theorem floor_rests_on_stated_fees:
  assumes "parse_chainflip_quote lib payload from_asset to_asset = (Inr q :: 'p exn + chainflip_quote)"
    and "min_price q bps = Inr p"
  shows "\<exists>src dst included fees. map_of CHAINFLIP_ASSETS from_asset = Some src
    \<and> map_of CHAINFLIP_ASSETS to_asset = Some dst
    \<and> jindex (cfq_raw q) (lit ''includedFees'') = Inr included \<and> json_iter included = Inr fees
    \<and> list_all (\<lambda>f. (fee_kind lib f \<noteq> lit ''INGRESS'' \<or> fee_asset lib f = cf_pair src)
         \<and> (fee_kind lib f \<noteq> lit ''EGRESS'' \<or> fee_asset lib f = cf_pair dst)) fees
    \<and> cfq_ingress_fee q = legs_sum lib (\<lambda>k. k = lit ''INGRESS'') fees
    \<and> cfq_egress_fee q = legs_sum lib (\<lambda>k. k = lit ''EGRESS'') fees
    \<and> legs_sum lib (\<lambda>k. \<not> known_leg k) fees = 0"
proof -
  obtain quote where quote: "parse_chainflip_fields lib quote from_asset to_asset = Inr q"
    using assms(1)
    by (auto simp: parse_chainflip_quote_def cf_guard_def bind_res_eq_Inr py_res_def
        split: sum.splits if_splits)
  then obtain src dst included native unusable where f: "cf_asset from_asset = Inr src" "cf_asset to_asset = Inr dst"
    "jindex quote (lit ''includedFees'') = Inr included"
    "native_fee_legs lib included (cf_pair src) (cf_pair dst) = Inr (native, unusable)"
    and q: "cfq_raw q = quote" "cfq_ingress_fee q = leg_ingress native"
      "cfq_egress_fee q = leg_egress native" "cfq_unusable q = unusable"
    unfolding parse_chainflip_fields_def Let_def
    by (auto simp: bind_res_eq_Inr)
  obtain price fl where "p = (price, fl)" by fastforce
  then have "unusable = None" using assms(2) min_price_guarantees [of q bps price fl 0] q(4) by simp
  with f(4) obtain fees where fees: "json_iter included = Inr fees"
    "native_fee_loop lib (cf_pair src) (cf_pair dst) fees
        \<lparr>leg_ingress = 0, leg_network = 0, leg_egress = 0, leg_other = 0\<rparr> None = Inr (native, None)"
    "leg_other native = 0"
    by (auto simp: native_fee_legs_def bind_res_eq_Inr split: if_splits)
  note legs = native_fee_loop_legs [OF fees(2)]
  have "list_all (\<lambda>f. (fee_kind lib f \<noteq> lit ''INGRESS'' \<or> fee_asset lib f = cf_pair src)
         \<and> (fee_kind lib f \<noteq> lit ''EGRESS'' \<or> fee_asset lib f = cf_pair dst)) fees"
    using legs leg_names by (auto simp: list_all_iff denominated_def split: if_splits)
  moreover have "map_of CHAINFLIP_ASSETS from_asset = Some src" "map_of CHAINFLIP_ASSETS to_asset = Some dst"
    using f(1,2) by (auto simp: cf_asset_def split: option.splits)
  ultimately show ?thesis using q f(3) fees(1,3) legs by simp
qed

text \<open>A Bitcoin quote: 100000 in, 20000 out, 1000 and 50 of fees in their own assets.\<close>

definition ex_fee :: "string \<Rightarrow> string \<Rightarrow> string \<Rightarrow> int \<Rightarrow> json" where
  "ex_fee kind chain asset amount =
     JObj [(lit ''type'', JStr (lit kind)), (lit ''chain'', JStr (lit chain)),
           (lit ''asset'', JStr (lit asset)), (lit ''amount'', JStr (dec_int amount))]"

definition ex_cf_object :: "json list \<Rightarrow> json" where
  "ex_cf_object fees =
     JObj [(lit ''type'', JStr (lit ''REGULAR'')), (lit ''egressAmount'', JStr (dec_int 20000)),
       (lit ''depositAmount'', JStr (dec_int 100000)), (lit ''includedFees'', JList fees)]"

definition ex_cf_body :: "json list \<Rightarrow> json" where
  "ex_cf_body fees = JList [ex_cf_object fees]"

definition ex_cf_fees :: chainflip_fees where
  "ex_cf_fees =
     \<lparr>sf_asset = JStr (lit ''ETH.ETH''), sf_outbound = 0, sf_affiliate = 0, sf_liquidity = 0, sf_total = 0,
      sf_slippage_bps = 0, sf_total_bps = 0, cf_ingress = 0, cf_network = 0, cf_egress = 0\<rparr>"

definition ex_cf_quote :: chainflip_quote where
  "ex_cf_quote =
     \<lparr>cfq_expected_amount_out = 0, cfq_fees = ex_cf_fees, cfq_egress_amount = 20000,
      cfq_deposit_amount = 100000, cfq_intermediate_amount = None, cfq_estimated_duration_seconds = 0,
      cfq_low_liquidity_warning = False, cfq_recommended_slippage_bps = 100,
      cfq_raw = ex_cf_body [], cfq_ingress_fee = 1000, cfq_egress_fee = 50, cfq_unusable = None\<rparr>"

lemma min_price_guarantees_witness:
  "\<exists>price. min_price ex_cf_quote None = Inr (price, 19800)
     \<and> (price * 99000 \<le> 19850 * 2 ^ 128 \<longrightarrow> 19800 \<le> (19850 :: int) - 50)"
proof -
  have m: "min_price ex_cf_quote None = Inr (- (- (19850 * 2 ^ 128) div 99000), 19800)"
    by (simp add: min_price_def min_output_amount_def ex_cf_quote_def Let_def PRICE_FRACTIONAL_BITS_def
        push_bit_eq_mult)
  then show ?thesis
    using min_price_guarantees [of ex_cf_quote None "- (- (19850 * 2 ^ 128) div 99000)" 19800 19850]
    by (intro exI) (auto simp: ex_cf_quote_def)
qed

lemma ex_assets:
  "map_of CHAINFLIP_ASSETS (lit ''BTC.BTC'') = Some (lit ''Bitcoin'', lit ''BTC'', 8)"
  "map_of CHAINFLIP_ASSETS (lit ''ETH.ETH'') = Some (lit ''Ethereum'', lit ''ETH'', 18)"
  "cf_asset (lit ''BTC.BTC'') = Inr (lit ''Bitcoin'', lit ''BTC'', 8)"
  "cf_asset (lit ''ETH.ETH'') = Inr (lit ''Ethereum'', lit ''ETH'', 18)"
  by (simp_all add: cf_asset_def CHAINFLIP_ASSETS_def lit_def)

definition ex_cf_libs :: py_libs where
  "ex_cf_libs = \<lparr>pl_repr = (\<lambda>_. []), pl_float = (\<lambda>_. Inl ValueError)\<rparr>"

lemma ex_cf_reads:
  "jint_at (ex_cf_object fees) (lit ''egressAmount'') = Inr 20000"
  "jint_at (ex_cf_object fees) (lit ''depositAmount'') = Inr 100000"
  "jget (ex_cf_object fees) (lit ''intermediateAmount'') = Inr JNull"
  "jindex (ex_cf_object fees) (lit ''includedFees'') = Inr (JList fees)"
  "jget (ex_cf_object fees) (lit ''recommendedSlippageTolerancePercent'') = Inr JNull"
  "jget (ex_cf_object fees) (lit ''estimatedDurationSeconds'') = Inr JNull"
  "jget_or (ex_cf_object fees) (lit ''lowLiquidityWarning'') (JBool False) = Inr (JBool False)"
  "jhas (lit ''message'') (ex_cf_object fees) = Inr False"
  "jhas (lit ''egressAmount'') (ex_cf_object fees) = Inr True"
  "select_quote (ex_cf_object fees) = Inr (ex_cf_object fees)"
  "select_quote (ex_cf_body fees) = Inr (ex_cf_object fees)"
  by (simp_all add: ex_cf_object_def ex_cf_body_def jint_at_def jget_def dget_or_def select_quote_def
      dget_def lit_def py_int_dec_int)

lemma ex_cf_legs:
  "native_fee_legs ex_cf_libs
     (JList [ex_fee ''INGRESS'' ''Bitcoin'' ''BTC'' 1000, ex_fee ''EGRESS'' ''Ethereum'' ''ETH'' 50])
     (cf_pair (lit ''Bitcoin'', lit ''BTC'', 8)) (cf_pair (lit ''Ethereum'', lit ''ETH'', 18))
   = Inr (\<lparr>leg_ingress = 1000, leg_network = 0, leg_egress = 50, leg_other = 0\<rparr>, None)"
proof -
  have "jget_or (ex_fee k c a n) (lit ''type'') (JStr []) = Inr (JStr (lit k))"
    "jget_or (ex_fee k c a n) (lit ''chain'') (JStr []) = Inr (JStr (lit c))"
    "jget_or (ex_fee k c a n) (lit ''asset'') (JStr []) = Inr (JStr (lit a))"
    "jint_at (ex_fee k c a n) (lit ''amount'') = Inr n" for k c a n
    by (simp_all add: ex_fee_def dget_or_def jint_at_def py_int_dec_int) (simp_all add: lit_def)
  then show ?thesis
    by (simp add: native_fee_legs_def note_leg_def denominated_def cf_pair_def add_leg_def)
       (simp add: lit_def)
qed

lemma ex_cf_parse:
  "\<exists>q. (parse_chainflip_quote ex_cf_libs
       (ex_cf_object [ex_fee ''INGRESS'' ''Bitcoin'' ''BTC'' 1000, ex_fee ''EGRESS'' ''Ethereum'' ''ETH'' 50])
       (lit ''BTC.BTC'') (lit ''ETH.ETH'') :: unit exn + chainflip_quote) = Inr q
     \<and> (\<exists>p. min_price q (Some 100) = Inr p)"
  by (simp add: parse_chainflip_quote_def cf_guard_def parse_chainflip_fields_def py_res_def ex_assets
      ex_cf_reads ex_cf_legs json_or_def min_price_def min_output_amount_def Let_def)

lemma floor_rests_on_stated_fees_witness:
  "\<exists>q. (parse_chainflip_quote ex_cf_libs
       (ex_cf_object [ex_fee ''INGRESS'' ''Bitcoin'' ''BTC'' 1000, ex_fee ''EGRESS'' ''Ethereum'' ''ETH'' 50])
       (lit ''BTC.BTC'') (lit ''ETH.ETH'') :: unit exn + chainflip_quote) = Inr q
     \<and> (\<exists>fees. cfq_ingress_fee q
          = legs_sum ex_cf_libs (\<lambda>k. k = lit ''INGRESS'') fees)"
proof -
  obtain q p where "(parse_chainflip_quote ex_cf_libs
       (ex_cf_object [ex_fee ''INGRESS'' ''Bitcoin'' ''BTC'' 1000, ex_fee ''EGRESS'' ''Ethereum'' ''ETH'' 50])
       (lit ''BTC.BTC'') (lit ''ETH.ETH'') :: unit exn + chainflip_quote) = Inr q"
    "min_price q (Some 100) = Inr p"
    using ex_cf_parse by blast
  then show ?thesis using floor_rests_on_stated_fees by blast
qed

lemma malformed_fee_parse:
  "parse_chainflip_quote lib (ex_cf_body [JStr s]) (lit ''BTC.BTC'') (lit ''ETH.ETH'') = Inl (PyExn AttributeError)"
proof -
  have f: "parse_chainflip_fields lib (ex_cf_object [JStr s]) (lit ''BTC.BTC'') (lit ''ETH.ETH'') = Inl AttributeError"
    by (simp add: parse_chainflip_fields_def native_fee_legs_def ex_assets ex_cf_reads)
  show ?thesis
    using f by (simp add: parse_chainflip_quote_def ex_cf_reads cf_guard_def cf_caught_def py_res_def)
qed

text \<open>
  A fee that is no object takes the whole venue comparison down. The parser promises a clean
  abort on a surprising body, but reading such a fee raises AttributeError, which neither the
  parser nor the backend catches.
\<close>

theorem malformed_fee_escapes:
  "cf_try_quote lib
     (\<lambda>url params. ret \<lparr>rs_status = 200, rs_text = [], rs_json = Some (ex_cf_body [JStr s])\<rparr>)
     base_url (lit ''BTC.BTC'') (lit ''ETH.ETH'') 100000 None w = (Inl (PyExn AttributeError), w)"
proof -
  have "cf_serves (lit ''BTC.BTC'') (lit ''ETH.ETH'')"
    by (simp add: cf_serves_def ex_assets) (simp add: lit_def)
  then show ?thesis
    by (simp add: cf_try_quote_def ex_assets deposit_units_def THORCHAIN_UNIT_def cf_decimals_def
        cf_client_quote_def try_call_def and_then_def ret_def of_res_def resp_json_def malformed_fee_parse)
qed

end
