(* ===== verification/ChainflipVault.thy ===== *)
theory ChainflipVault
  imports Chainflip EvmVault Addresses Gated
begin

text \<open>
  The vault swap half of \<open>src/swapsack/chainflip.py\<close>: the State Chain's JSON-RPC, the vault
  addresses it publishes, the request of an encoding from one broker after another, and the two
  functions that check an encoding before a transaction is built around it. A call of the RPC is
  a parameter of them, \<open>rpc_call\<close> is the one of \<open>ChainflipRpc\<close>.
\<close>

section \<open>The RPC\<close>

type_synonym ('w, 'p) cf_rpc = "pystr \<Rightarrow> json list \<Rightarrow> ('w, 'p, json) io"

definition rpc_call ::
  "(pystr \<Rightarrow> (pystr \<times> json) list \<Rightarrow> ('w, 'p, response) io) \<Rightarrow> pystr \<Rightarrow> ('w, 'p) cf_rpc" where
  "rpc_call post base_url rpc_method args =
     and_then (post base_url [(lit ''jsonrpc'', JStr (lit ''2.0'')), (lit ''id'', JInt 1),
       (lit ''method'', JStr rpc_method), (lit ''params'', JList args)]) (\<lambda>resp.
     and_then (raise_for_status resp) (\<lambda>_.
     and_then (resp_json resp) (\<lambda>payload.
       case payload of
         JObj d \<Rightarrow>
           (case map_of d (lit ''error'') of
              Some err \<Rightarrow>
                raise (ChainflipError (CfRpcRejected rpc_method
                  (case err of JObj e \<Rightarrow> dget_or e (lit ''message'') err | _ \<Rightarrow> err)))
            | None \<Rightarrow>
                (case map_of d (lit ''result'') of
                   None \<Rightarrow> raise (ChainflipError (CfRpcNoResult rpc_method))
                 | Some r \<Rightarrow> ret r))
       | _ \<Rightarrow> raise (ChainflipError (CfRpcMalformed rpc_method)))))"

text \<open>\<open>str(exc)\<close> of the errors that \<open>call\<close> raises itself.\<close>

fun rpc_error_text :: "py_libs \<Rightarrow> cf_reason \<Rightarrow> pystr" where
  "rpc_error_text lib (CfRpcRejected m err) = m @ lit '': '' @ py_str lib err"
| "rpc_error_text lib (CfRpcMalformed m) = lit ''malformed RPC response for '' @ m"
| "rpc_error_text lib (CfRpcNoResult m) = lit ''RPC response for '' @ m @ lit '' carries no result''"
| "rpc_error_text lib _ = []"

definition of_cf :: "cf_reason + 'a \<Rightarrow> ('w, 'p, 'a) io" where
  "of_cf r = of_res (map_sum ChainflipError id r)"

section \<open>The published vaults\<close>

text \<open>
  \<open>bytes(x)\<close>: of a list of integers below 256, of a count (so many zeros, when it fits an index),
  and of the keys of an object, which are strings and so only of the empty one.
\<close>

fun byte_item :: "json \<Rightarrow> py_error + byte" where
  "byte_item (JInt n) = (if 0 \<le> n \<and> n < 256 then Inr (byte_of (nat n)) else Inl ValueError)"
| "byte_item (JBool b) = Inr (if b then 1 else 0)"
| "byte_item _ = Inl TypeError"

fun json_bytes :: "json \<Rightarrow> py_error + bytes" where
  "json_bytes (JInt n) =
     (if n < - (2 ^ 63) \<or> 2 ^ 63 \<le> n then Inl OverflowError
      else if n < 0 then Inl ValueError else Inr (replicate (nat n) 0))"
| "json_bytes (JBool b) = Inr (if b then [0] else [])"
| "json_bytes (JList xs) = map_res byte_item xs"
| "json_bytes (JObj d) = (if d = [] then Inr [] else Inl TypeError)"
| "json_bytes _ = Inl TypeError"

definition vault_entry :: "json \<Rightarrow> py_error + pystr" where
  "vault_entry e =
     bind_res (json_iter e) (\<lambda>parts.
     if length parts \<noteq> 2 then Inl ValueError
     else
       bind_res (jindex (parts ! 1) (lit ''Btc'')) (\<lambda>address.
       bind_res (json_bytes address) (\<lambda>raw.
         case utf8_decode raw of None \<Rightarrow> Inl ValueError | Some s \<Rightarrow> Inr s)))"

definition parse_bitcoin_vaults :: "json \<Rightarrow> py_error + pystr set" where
  "parse_bitcoin_vaults result =
     bind_res (jindex result (lit ''bitcoin'')) (\<lambda>entries.
     bind_res (json_iter entries) (\<lambda>es.
     bind_res (map_res vault_entry es) (\<lambda>addresses. Inr (set addresses))))"

definition bitcoin_vault_addresses :: "('w, 'p) cf_rpc \<Rightarrow> ('w, 'p, pystr set) io" where
  "bitcoin_vault_addresses call =
     and_then (call (lit ''cf_get_vault_addresses'') []) (\<lambda>result.
       of_res (cf_guard CfMalformedVaults (parse_bitcoin_vaults result)))"

definition EVM_VAULT_KEYS :: "(pystr \<times> (pystr \<times> pystr)) list" where
  "EVM_VAULT_KEYS =
     [(lit ''Ethereum'', (lit ''ethereum'', lit ''Eth'')), (lit ''Arbitrum'', (lit ''arbitrum'', lit ''Arb''))]"

text \<open>\<open>d[key]\<close> of a table of the code.\<close>

definition index_dict :: "('a \<times> 'b) list \<Rightarrow> 'a \<Rightarrow> py_error + 'b" where
  "index_dict d k = (case map_of d k of None \<Rightarrow> Inl KeyError | Some v \<Rightarrow> Inr v)"

definition parse_evm_vault :: "pystr \<Rightarrow> json \<Rightarrow> py_error + bytes" where
  "parse_evm_vault chain result =
     bind_res (index_dict EVM_VAULT_KEYS chain) (\<lambda>(key, label).
     bind_res (jindex result key) (\<lambda>entry.
     bind_res (jindex entry label) json_bytes))"

definition evm_vault_addresses ::
  "(bytes \<Rightarrow> bytes) \<Rightarrow> ('w, 'p) cf_rpc \<Rightarrow> pystr \<Rightarrow> ('w, 'p, pystr set) io" where
  "evm_vault_addresses keccak256 call chain =
     and_then (call (lit ''cf_get_vault_addresses'') []) (\<lambda>result.
     and_then (of_res (cf_guard (CfMalformedVaultsOf chain) (parse_evm_vault chain result))) (\<lambda>raw.
     if length raw \<noteq> 20 then raise (ChainflipError (CfVaultLength chain (length raw)))
     else ret {py_lower (checksum_of_bytes keccak256 raw)}))"

section \<open>What is asked of a broker\<close>

definition DEFAULT_RETRY_DURATION_BLOCKS :: int where
  "DEFAULT_RETRY_DURATION_BLOCKS = 100"

definition DEFAULT_BROKER_ACCOUNTS :: "pystr list" where
  "DEFAULT_BROKER_ACCOUNTS =
     [lit ''cFLRQDfEdmnv6d2XfHJNRBQHi4fruPMReLSfvB8WWD2ENbqj7'',
      lit ''cFNx21kQWmr9wsqq29zWM7RpDBKv4bctudEUE6J22Hd4NUUHR'',
      lit ''cFL4To8Uow6B1hk4dNrhWhvKpkBtnUTrVdWCEKCaXiXMMztjM'',
      lit ''cFKpid38PmmZ8V81AHaZAhHzzpRbsf7Xw5PYt5ajTXAUvHoTQ'',
      lit ''cFNwtr2mPhpUEB5AyJq38DqMKMkSdzaL9548hajN2DRTwh7Mq'']"

definition BROKER_REFUSALS :: "pystr list" where
  "BROKER_REFUSALS = [lit ''Broker commission is too low'', lit ''NoPrivateChannelExistsForBroker'']"

definition VAULT_SWAP_PLAN_TTL :: int where
  "VAULT_SWAP_PLAN_TTL = 600"

definition destination_bytes :: "pystr \<Rightarrow> pystr \<Rightarrow> cf_reason + bytes" where
  "destination_bytes asset address =
     (if map_of VAULT_SWAP_ASSET_IDS asset = None then Inl (CfUnverifiable asset)
      else if vault_chain asset = lit ''Bitcoin'' then
        (if list_all (\<lambda>c. c < 128) address then Inr (map byte_of address) else Inl (CfNotAscii address))
      else if \<not> prefix (lit ''0x'') (py_lower address) then Inl (CfNoHexPrefix asset address)
      else
        case py_fromhex (drop 2 address) of
          None \<Rightarrow> Inl (CfNotHex address)
        | Some raw \<Rightarrow>
            if length raw \<noteq> 20 then Inl (CfDestinationLength address (length raw)) else Inr raw)"

definition bitcoin_extra_parameters :: "int \<Rightarrow> json" where
  "bitcoin_extra_parameters floor_amount =
     JObj [(lit ''chain'', JStr (lit ''Bitcoin'')), (lit ''min_output_amount'', JStr (hex_int floor_amount)),
       (lit ''retry_duration'', JInt DEFAULT_RETRY_DURATION_BLOCKS)]"

definition evm_extra_parameters :: "pystr \<Rightarrow> int \<Rightarrow> pystr \<Rightarrow> int \<Rightarrow> json" where
  "evm_extra_parameters chain input_amount refund_address price_floor =
     JObj [(lit ''chain'', JStr chain), (lit ''input_amount'', JStr (hex_int input_amount)),
       (lit ''refund_parameters'',
        JObj [(lit ''retry_duration'', JInt DEFAULT_RETRY_DURATION_BLOCKS),
          (lit ''refund_address'', JStr refund_address), (lit ''min_price'', JStr (hex_int price_floor))])]"

definition asset_object :: "pystr \<times> pystr \<Rightarrow> json" where
  "asset_object a = JObj [(lit ''chain'', JStr (fst a)), (lit ''asset'', JStr (snd a))]"

definition encode_params :: "pystr \<Rightarrow> pystr \<Rightarrow> pystr \<Rightarrow> pystr \<Rightarrow> json \<Rightarrow> py_error + json list" where
  "encode_params account from_asset to_asset destination extra =
     bind_res (cf_asset from_asset) (\<lambda>src.
     bind_res (cf_asset to_asset) (\<lambda>dst.
       Inr [JStr account, asset_object (cf_pair src), asset_object (cf_pair dst), JStr destination,
         JInt 0, extra]))"

definition broker_refuses :: "py_libs \<Rightarrow> cf_reason \<Rightarrow> bool" where
  "broker_refuses lib reason = list_ex (\<lambda>refusal. py_in refusal (rpc_error_text lib reason)) BROKER_REFUSALS"

definition ask_broker ::
  "('w, 'p) cf_rpc \<Rightarrow> pystr \<Rightarrow> pystr \<Rightarrow> pystr \<Rightarrow> json \<Rightarrow> pystr \<Rightarrow> ('w, 'p, json) io" where
  "ask_broker call from_asset to_asset destination extra account =
     and_then (of_py (encode_params account from_asset to_asset destination extra))
       (call (lit ''cf_request_swap_parameter_encoding''))"

fun request_encoding ::
  "py_libs \<Rightarrow> (pystr \<Rightarrow> ('w, 'p, json) io) \<Rightarrow> (pystr \<times> cf_reason) list \<Rightarrow> pystr list \<Rightarrow> ('w, 'p, json) io" where
  "request_encoding lib ask refusals [] = raise (ChainflipError (CfNoBroker refusals))"
| "request_encoding lib ask refusals (account # accounts) =
     try_call (ask account) (\<lambda>exc.
       case exc of
         ChainflipError reason \<Rightarrow>
           if broker_refuses lib reason
           then Some (request_encoding lib ask (refusals @ [(account, reason)]) accounts)
           else None
       | _ \<Rightarrow> None)"

section \<open>A vault swap from Bitcoin\<close>

record vault_swap =
  vsw_deposit_address :: pystr
  vsw_payload :: bytes
  vsw_known_vaults :: "pystr set"
  vsw_destination_asset_id :: nat
  vsw_destination_bytes :: bytes
  vsw_min_output_amount :: int

definition deny :: "bool \<Rightarrow> 'e \<Rightarrow> 'e + unit" where
  "deny c e = (if c then Inl e else Inr ())"

text \<open>The three fields a skim could hide in, in the order the code looks at them.\<close>

definition no_skim :: "int \<Rightarrow> int \<Rightarrow> int \<Rightarrow> cf_reason + unit" where
  "no_skim broker_fee boost_fee affiliates =
     (case find (\<lambda>(fee, label). fee \<noteq> 0)
        [(broker_fee, lit ''broker fee''), (boost_fee, lit ''boost fee''),
         (affiliates, lit ''affiliate fee entries'')] of
        None \<Rightarrow> Inr () | Some (fee, label) \<Rightarrow> Inl (CfCarriesFee fee label))"

definition parse_vault_encoding :: "py_libs \<Rightarrow> json \<Rightarrow> py_error + (pystr \<times> bytes)" where
  "parse_vault_encoding lib result =
     bind_res (jindex result (lit ''deposit_address'')) (\<lambda>deposit.
     bind_res (jindex result (lit ''nulldata_payload'')) (\<lambda>nulldata.
     let raw = py_str lib nulldata in
     case py_fromhex (if prefix (lit ''0x'') (py_lower raw) then drop 2 raw else raw) of
       None \<Rightarrow> Inl ValueError
     | Some payload \<Rightarrow> Inr (py_str lib deposit, payload)))"

definition check_vault_encoding ::
  "pystr set \<Rightarrow> pystr \<Rightarrow> bytes \<Rightarrow> pystr \<Rightarrow> bytes \<Rightarrow> nat \<Rightarrow> int \<Rightarrow> cf_reason + unit" where
  "check_vault_encoding vaults deposit_address payload destination expected_dest asset_id floor_amount =
     bind_res (deny (deposit_address \<notin> vaults) (CfDepositNotVault deposit_address)) (\<lambda>_.
     case decode_vault_swap_payload payload of
       None \<Rightarrow> Inl (CfPayloadLength (length payload))
     | Some decoded \<Rightarrow>
         bind_res (deny (vs_destination decoded \<noteq> expected_dest)
           (CfPaysDestination (vs_destination decoded) destination)) (\<lambda>_.
         bind_res (deny (vs_asset_id decoded \<noteq> asset_id) (CfPaysAsset (vs_asset_id decoded) asset_id)) (\<lambda>_.
         bind_res (deny (vs_min_output_amount decoded < floor_amount)
           (CfMinOutput (vs_min_output_amount decoded) floor_amount)) (\<lambda>_.
           no_skim (int (vs_broker_fee decoded)) (int (vs_boost_fee decoded)) (int (vs_affiliates decoded))))))"

definition prepare_vault_swap ::
  "py_libs \<Rightarrow> ('w, 'p) cf_rpc \<Rightarrow> pystr \<Rightarrow> pystr \<Rightarrow> pystr \<Rightarrow> chainflip_quote \<Rightarrow> int option
   \<Rightarrow> ('w, 'p, vault_swap) io" where
  "prepare_vault_swap lib call from_asset to_asset destination quote bps =
     and_then (raise_if (vault_chain from_asset \<noteq> lit ''Bitcoin'')
       (ChainflipError (CfNotBitcoinSource from_asset))) (\<lambda>_.
     and_then (raise_if (vault_chain to_asset \<notin> set EVM_VAULT_CHAINS)
       (ChainflipError (CfNotTwentyBytes to_asset))) (\<lambda>_.
     and_then (of_cf (destination_bytes to_asset destination)) (\<lambda>expected_dest.
     and_then (of_py (index_dict VAULT_SWAP_ASSET_IDS to_asset)) (\<lambda>asset_id.
     and_then (of_cf (min_output_amount quote bps)) (\<lambda>floor_amount.
     and_then (bitcoin_vault_addresses call) (\<lambda>vaults.
     and_then (request_encoding lib
       (ask_broker call from_asset to_asset destination (bitcoin_extra_parameters floor_amount)) []
       DEFAULT_BROKER_ACCOUNTS) (\<lambda>result.
     and_then (of_res (cf_guard CfMalformedEncoding (parse_vault_encoding lib result))) (\<lambda>(deposit_address, payload).
     and_then (of_cf (check_vault_encoding vaults deposit_address payload destination expected_dest
       asset_id floor_amount)) (\<lambda>_.
       ret \<lparr>vsw_deposit_address = deposit_address, vsw_payload = payload, vsw_known_vaults = vaults,
            vsw_destination_asset_id = asset_id, vsw_destination_bytes = expected_dest,
            vsw_min_output_amount = floor_amount\<rparr>)))))))))"

section \<open>A vault swap from an EVM chain\<close>

record evm_vault_swap =
  evs_vault_contract :: pystr
  evs_calldata :: bytes
  evs_value :: int
  evs_source_token :: pystr
  evs_source_amount :: int
  evs_known_vaults :: "pystr set"
  evs_destination_chain_id :: nat
  evs_destination_asset_id :: nat
  evs_destination_bytes :: bytes
  evs_refund_address :: pystr
  evs_min_price :: int
  evs_retry_duration :: int
  evs_min_output_amount :: int
  evs_source_chain_id :: int

definition token_contract :: "pystr \<Rightarrow> pystr" where
  "token_contract asset = (case py_partition 45 asset of (_, _, contract) \<Rightarrow> py_lower contract)"

definition parse_evm_encoding :: "py_libs \<Rightarrow> json \<Rightarrow> py_error + (pystr \<times> bytes \<times> int \<times> pystr)" where
  "parse_evm_encoding lib result =
     bind_res (jindex result (lit ''to'')) (\<lambda>to.
     bind_res (jindex result (lit ''calldata'')) (\<lambda>raw.
     case py_fromhex (py_removeprefix (lit ''0X'') (py_removeprefix (lit ''0x'') (py_str lib raw))) of
       None \<Rightarrow> Inl ValueError
     | Some calldata \<Rightarrow>
         bind_res (jindex result (lit ''value'')) (\<lambda>v.
         case py_int16 (py_str lib v) of
           None \<Rightarrow> Inl ValueError
         | Some amount \<Rightarrow>
             bind_res (jget result (lit ''source_token_address'')) (\<lambda>token.
               Inr (py_lower (py_str lib to), calldata, amount, py_lower (str_or_empty lib token))))))"

definition check_evm_parameters :: "bytes \<Rightarrow> pystr \<Rightarrow> int \<Rightarrow> int \<Rightarrow> cf_reason + unit" where
  "check_evm_parameters parameters refund_address price_floor retry_duration =
     (case decode_evm_vault_parameters parameters of
        None \<Rightarrow> Inl (CfParamsLength (length parameters))
      | Some decoded \<Rightarrow>
          bind_res (deny (py_hex (ep_refund_address decoded) \<noteq> py_removeprefix (lit ''0x'') (py_lower refund_address))
            (CfRefundsTo (ep_refund_address decoded) refund_address)) (\<lambda>_.
          bind_res (deny (ep_min_price decoded < price_floor) (CfMinPrice (ep_min_price decoded) price_floor)) (\<lambda>_.
          bind_res (deny (ep_retry_duration decoded \<noteq> retry_duration)
            (CfRetryDuration (ep_retry_duration decoded) retry_duration)) (\<lambda>_.
            no_skim (ep_broker_fee decoded) (int (ep_boost_fee decoded)) (int (ep_affiliates decoded))))))"

definition check_evm_call ::
  "bytes \<Rightarrow> int \<Rightarrow> int \<Rightarrow> pystr \<Rightarrow> pystr \<Rightarrow> bytes \<Rightarrow> nat \<Rightarrow> nat \<Rightarrow> pystr \<Rightarrow> int \<Rightarrow> int \<Rightarrow> cf_reason + unit" where
  "check_evm_call calldata amount input_amount token destination expected_dest asset_id chain_id
     refund_address price_floor retry_duration =
     (case decode_evm_vault_call calldata of
        None \<Rightarrow> Inl CfUnreadableCall
      | Some call \<Rightarrow>
          let moved = (if token \<noteq> [] then int (ec_source_amount call) else amount);
              idle = (if token \<noteq> [] then amount else int (ec_source_amount call)) in
          bind_res (deny (ec_source_token call \<noteq> token) (CfCallToken (ec_source_token call) token)) (\<lambda>_.
          bind_res (deny (moved \<noteq> input_amount \<or> idle \<noteq> 0) (CfCallMoves moved idle input_amount)) (\<lambda>_.
          bind_res (deny (ec_destination call \<noteq> expected_dest) (CfPaysDestination (ec_destination call) destination)) (\<lambda>_.
          bind_res (deny (ec_destination_asset_id call \<noteq> asset_id) (CfPaysAsset (ec_destination_asset_id call) asset_id)) (\<lambda>_.
          bind_res (deny (ec_destination_chain_id call \<noteq> chain_id) (CfPaysChain (ec_destination_chain_id call) chain_id)) (\<lambda>_.
            check_evm_parameters (ec_parameters call) refund_address price_floor retry_duration))))))"

definition prepare_evm_vault_swap ::
  "py_libs \<Rightarrow> (bytes \<Rightarrow> bytes) \<Rightarrow> ('w, 'p) cf_rpc \<Rightarrow> pystr \<Rightarrow> pystr \<Rightarrow> pystr \<Rightarrow> pystr \<Rightarrow> int \<Rightarrow> chainflip_quote
   \<Rightarrow> int option \<Rightarrow> ('w, 'p, evm_vault_swap) io" where
  "prepare_evm_vault_swap lib keccak256 call from_asset to_asset destination refund_address input_amount quote bps =
     (let source_chain = vault_chain from_asset; expected_token = token_contract from_asset in
     and_then (raise_if (source_chain \<notin> set EVM_VAULT_CHAINS) (ChainflipError (CfNotEvmSource from_asset))) (\<lambda>_.
     and_then (raise_if (input_amount \<le> 0) (ChainflipError (CfInputAmount input_amount))) (\<lambda>_.
     and_then (raise_if (cfq_deposit_amount quote \<noteq> input_amount)
       (ChainflipError (CfQuoteDeposit (cfq_deposit_amount quote) input_amount))) (\<lambda>_.
     and_then (of_cf (destination_bytes to_asset destination)) (\<lambda>expected_dest.
     and_then (of_py (index_dict VAULT_SWAP_ASSET_IDS to_asset)) (\<lambda>asset_id.
     and_then (of_py (index_dict VAULT_SWAP_CHAIN_IDS (vault_chain to_asset))) (\<lambda>chain_id.
     and_then (of_cf (min_price quote bps)) (\<lambda>(price_floor, output_floor).
     and_then (evm_vault_addresses keccak256 call source_chain) (\<lambda>vaults.
     and_then (request_encoding lib
       (ask_broker call from_asset to_asset destination
         (evm_extra_parameters source_chain input_amount refund_address price_floor)) []
       DEFAULT_BROKER_ACCOUNTS) (\<lambda>result.
     and_then (of_res (cf_guard CfMalformedEncoding (parse_evm_encoding lib result))) (\<lambda>(to, calldata, amount, token).
     and_then (raise_if (to \<notin> vaults) (ChainflipError (CfNotTheVault to source_chain))) (\<lambda>_.
     and_then (raise_if (token \<noteq> expected_token) (ChainflipError (CfSpendsToken token expected_token))) (\<lambda>_.
     and_then (of_cf (check_evm_call calldata amount input_amount expected_token destination expected_dest
       asset_id chain_id refund_address price_floor DEFAULT_RETRY_DURATION_BLOCKS)) (\<lambda>_.
     and_then (of_py (index_dict EVM_CHAIN_IDS source_chain)) (\<lambda>source_chain_id.
       ret \<lparr>evs_vault_contract = to, evs_calldata = calldata, evs_value = amount,
            evs_source_token = expected_token, evs_source_amount = input_amount, evs_known_vaults = vaults,
            evs_destination_chain_id = chain_id, evs_destination_asset_id = asset_id,
            evs_destination_bytes = expected_dest, evs_refund_address = refund_address,
            evs_min_price = price_floor, evs_retry_duration = DEFAULT_RETRY_DURATION_BLOCKS,
            evs_min_output_amount = output_floor, evs_source_chain_id = source_chain_id\<rparr>)))))))))))))))"

section \<open>The plans of \<open>cli.py\<close>\<close>

text \<open>
  \<open>_swap_via_chainflip\<close> and \<open>_swap_via_chainflip_evm\<close> turn what was prepared into the plan of the
  gate, with the amount that is sent, the address of ours that refunds go to, and the deadline.
\<close>

definition vault_plan :: "vault_swap \<Rightarrow> int \<Rightarrow> int \<Rightarrow> chainflip_vault_plan" where
  "vault_plan vs amount now =
     \<lparr>cv_deposit_address = vsw_deposit_address vs, cv_amount = amount, cv_payload = vsw_payload vs,
      cv_expiry = now + VAULT_SWAP_PLAN_TTL, cv_destination_asset_id = vsw_destination_asset_id vs,
      cv_destination_bytes = vsw_destination_bytes vs, cv_min_output_amount = vsw_min_output_amount vs,
      cv_known_vaults = vsw_known_vaults vs\<rparr>"

definition evm_vault_plan :: "evm_vault_swap \<Rightarrow> pystr \<Rightarrow> int \<Rightarrow> chainflip_evm_vault_plan" where
  "evm_vault_plan evs from_address now =
     \<lparr>ev_vault_contract = evs_vault_contract evs, ev_calldata = evs_calldata evs, ev_value = evs_value evs,
      ev_source_token = evs_source_token evs, ev_source_amount = evs_source_amount evs,
      ev_expiry = now + VAULT_SWAP_PLAN_TTL, ev_chain_id = evs_source_chain_id evs,
      ev_destination_chain_id = evs_destination_chain_id evs,
      ev_destination_asset_id = evs_destination_asset_id evs,
      ev_destination_bytes = evs_destination_bytes evs, ev_refund_address = from_address,
      ev_min_price = evs_min_price evs, ev_retry_duration = evs_retry_duration evs,
      ev_known_vaults = evs_known_vaults evs\<rparr>"

section \<open>What was checked\<close>

lemma cf_reached:
  "of_cf r w = (Inr x, w') \<longleftrightarrow> r = Inr x \<and> w' = w"
  "of_res s w = (Inr x, w') \<longleftrightarrow> s = Inr x \<and> w' = w"
  "cf_guard f t = Inr x \<longleftrightarrow> t = Inr x"
  "index_dict d k = Inr x \<longleftrightarrow> map_of d k = Some x"
  by (auto simp: of_cf_def of_res_def cf_guard_def index_dict_def split: sum.split option.split)
     (cases r; simp)

lemma deny_Inr [simp]: "deny c e = Inr u \<longleftrightarrow> \<not> c"
  by (simp add: deny_def)

lemma no_skim_Inr [simp]: "no_skim a b c = Inr u \<longleftrightarrow> a = 0 \<and> b = 0 \<and> c = 0"
  by (simp add: no_skim_def)

lemma check_vault_encoding_Inr:
  "check_vault_encoding vaults deposit payload dest expected asset_id m = Inr u \<longleftrightarrow>
     deposit \<in> vaults \<and> (\<exists>d. decode_vault_swap_payload payload = Some d
       \<and> vs_destination d = expected \<and> vs_asset_id d = asset_id \<and> m \<le> vs_min_output_amount d
       \<and> vs_broker_fee d = 0 \<and> vs_boost_fee d = 0 \<and> vs_affiliates d = 0)"
  by (auto simp: check_vault_encoding_def bind_res_eq_Inr not_less split: option.split)

lemma check_evm_parameters_Inr:
  "check_evm_parameters ps refund m r = Inr u \<longleftrightarrow>
     (\<exists>d. decode_evm_vault_parameters ps = Some d
       \<and> py_hex (ep_refund_address d) = py_removeprefix (lit ''0x'') (py_lower refund)
       \<and> m \<le> ep_min_price d \<and> ep_retry_duration d = r
       \<and> ep_broker_fee d = 0 \<and> ep_boost_fee d = 0 \<and> ep_affiliates d = 0)"
  by (auto simp: check_evm_parameters_def bind_res_eq_Inr not_less split: option.split)

lemma check_evm_call_Inr:
  "check_evm_call calldata amount input token dest expected asset_id chain_id refund m r = Inr u \<longleftrightarrow>
     (\<exists>c. decode_evm_vault_call calldata = Some c \<and> ec_source_token c = token
       \<and> (if token \<noteq> [] then int (ec_source_amount c) = input \<and> amount = 0
          else amount = input \<and> ec_source_amount c = 0)
       \<and> ec_destination c = expected \<and> ec_destination_asset_id c = asset_id
       \<and> ec_destination_chain_id c = chain_id
       \<and> check_evm_parameters (ec_parameters c) refund m r = Inr ())"
  by (auto simp: check_evm_call_def bind_res_eq_Inr Let_def split: option.split if_splits)

lemma bitcoin_vault_addresses_Inr:
  "bitcoin_vault_addresses call w = (Inr vaults, w') \<longleftrightarrow>
     (\<exists>result. call (lit ''cf_get_vault_addresses'') [] w = (Inr result, w')
        \<and> parse_bitcoin_vaults result = Inr vaults)"
  by (auto simp: bitcoin_vault_addresses_def and_then_Inr cf_reached)

lemma and_thenE:
  assumes "and_then m f w = (Inr y, w')"
  obtains x u where "m w = (Inr x, u)" "f x u = (Inr y, w')"
  using assms unfolding and_then_Inr by blast

lemma prepare_vault_swap_Inr:
  assumes "prepare_vault_swap lib call from_asset to_asset dest q bps w = (Inr vs, w')"
  obtains d where "vault_chain from_asset = lit ''Bitcoin''" "vault_chain to_asset \<in> set EVM_VAULT_CHAINS"
    "destination_bytes to_asset dest = Inr (vsw_destination_bytes vs)"
    "map_of VAULT_SWAP_ASSET_IDS to_asset = Some (vsw_destination_asset_id vs)"
    "min_output_amount q bps = Inr (vsw_min_output_amount vs)"
    "\<exists>w1. bitcoin_vault_addresses call w = (Inr (vsw_known_vaults vs), w1)"
    "vsw_deposit_address vs \<in> vsw_known_vaults vs"
    "decode_vault_swap_payload (vsw_payload vs) = Some d"
    "vs_destination d = vsw_destination_bytes vs" "vs_asset_id d = vsw_destination_asset_id vs"
    "vsw_min_output_amount vs \<le> vs_min_output_amount d"
    "vs_broker_fee d = 0" "vs_boost_fee d = 0" "vs_affiliates d = 0"
proof -
  from assms obtain expected asset_id m vaults w1 enc
    where r: "vault_chain from_asset = lit ''Bitcoin''" "vault_chain to_asset \<in> set EVM_VAULT_CHAINS"
      "destination_bytes to_asset dest = Inr expected" "map_of VAULT_SWAP_ASSET_IDS to_asset = Some asset_id"
      "min_output_amount q bps = Inr m" "bitcoin_vault_addresses call w = (Inr vaults, w1)"
      "check_vault_encoding vaults (fst enc) (snd enc) dest expected asset_id m = Inr ()"
    and vs: "vs = \<lparr>vsw_deposit_address = fst enc, vsw_payload = snd enc, vsw_known_vaults = vaults,
        vsw_destination_asset_id = asset_id, vsw_destination_bytes = expected, vsw_min_output_amount = m\<rparr>"
    unfolding prepare_vault_swap_def split_beta
    by - (elim and_thenE, simp only: io_Inr_iff cf_reached not_not, elim conjE, rule that,
          (assumption | erule sym | simp)+)
  from r(7) obtain d where "fst enc \<in> vaults" "decode_vault_swap_payload (snd enc) = Some d"
    "vs_destination d = expected" "vs_asset_id d = asset_id" "m \<le> vs_min_output_amount d"
    "vs_broker_fee d = 0" "vs_boost_fee d = 0" "vs_affiliates d = 0"
    unfolding check_vault_encoding_Inr by blast
  with r show thesis by (intro that [of d]) (auto simp: vs)
qed
section \<open>A prepared vault swap and the gate\<close>

text \<open>What the coin selection of a vault swap leaves for the change: nothing, or no dust.\<close>

lemma vault_build_change:
  assumes "build_unsigned_swap bl hdkey dpath P2WPKH utxos vault amount (Some (MemoBytes d)) rate change False = Inr b"
    and "bitcoinlib_ok bl" "vbyte_sane rate (int (length d)) P2WPKH utxos"
  obtains v where "bs_outputs b = built_outputs amount vault (Some d) v change" "0 \<le> bs_fee b" "length d \<le> 80"
    "v = 0 \<or> 294 \<le> v"
proof -
  obtain sel where sel: "choose_coins utxos amount (memo_bytes (Some (MemoBytes d))) rate P2WPKH False = Inr sel"
    and b: "bs_fee b = s_fee sel" "length d \<le> 80"
      "bs_outputs b = built_outputs amount vault (Some d) (s_change sel) change"
    by (rule build_result [OF assms(1,2)]) (auto simp: built_outputs_def)
  have dust: "0 < dust P2WPKH" "dust P2WPKH = 294" by (simp_all add: P2WPKH_def)
  have "0 \<le> s_fee sel" using choose_coins_result [OF sel dust(1)] assms(3) by simp
  moreover have "s_change sel = 0 \<or> 294 \<le> s_change sel"
    using sel select_core_sound(2) [of utxos amount 294 _ sel]
    by (auto simp: choose_coins_def coins_res_Inr select_coins_def dust(2))
  ultimately show thesis using that [OF b(3)] b by simp
qed

lemma vault_plan_simps [simp]:
  "cv_deposit_address (vault_plan vs n t) = vsw_deposit_address vs" "cv_amount (vault_plan vs n t) = n"
  "cv_payload (vault_plan vs n t) = vsw_payload vs" "cv_expiry (vault_plan vs n t) = t + 600"
  "cv_destination_asset_id (vault_plan vs n t) = vsw_destination_asset_id vs"
  "cv_destination_bytes (vault_plan vs n t) = vsw_destination_bytes vs"
  "cv_min_output_amount (vault_plan vs n t) = vsw_min_output_amount vs"
  "cv_known_vaults (vault_plan vs n t) = vsw_known_vaults vs"
  by (simp_all add: vault_plan_def VAULT_SWAP_PLAN_TTL_def)

lemma built_refund_check:
  "change \<noteq> vault \<Longrightarrow> v = 0 \<or> 294 \<le> v \<Longrightarrow>
   refund_check (built_outputs n vault (Some d) v change) vault = [] \<longleftrightarrow> 0 < v"
  by (auto simp: refund_check_silent vault_change_def built_outputs_def paid_output_def data_output_def)

text \<open>
  C15: A vault swap from Bitcoin that was prepared is what the user asked for, and its transaction
  is refused only for reasons the preparation leaves to the gate. The payload decodes to the
  destination and the asset of the request with a floor at least the quote's less the tolerance; it
  gives no broker, no affiliate and no booster a share; and it goes to a vault the chain published.
  The transaction that the builder makes of it pays the amount to that vault, then carries the
  payload, then returns any change (no dust) to us. It passes the gate exactly when it is in time,
  its fee is within the cap, the payload has version 1 and a single chunk, and it has that change
  output, the address a refund would go to: a swap without change is refused.
\<close>

theorem vault_swap_passes:
  assumes prep: "prepare_vault_swap lib call from_asset to_asset dest q bps w = (Inr vs, w')"
    and built: "build_and_verify_vault_swap (utxo_builder bl hdkey derive dpath P2WPKH) (vault_plan vs amount t)
      now utxos rate change max_fee = Inr p"
    and bl: "bitcoinlib_ok bl" and change: "change \<noteq> []" "change \<notin> vsw_known_vaults vs"
    and sane: "vbyte_sane rate 48 P2WPKH utxos"
  shows "\<exists>d m. decode_vault_swap_payload (vsw_payload vs) = Some d
    \<and> destination_bytes to_asset dest = Inr (vs_destination d)
    \<and> map_of VAULT_SWAP_ASSET_IDS to_asset = Some (vs_asset_id d)
    \<and> min_output_amount q bps = Inr m \<and> m \<le> vs_min_output_amount d
    \<and> vs_broker_fee d = 0 \<and> vs_boost_fee d = 0 \<and> vs_affiliates d = 0
    \<and> (\<exists>vaults w1. bitcoin_vault_addresses call w = (Inr vaults, w1) \<and> vsw_deposit_address vs \<in> vaults)
    \<and> (\<exists>v. bs_outputs (pr_built p)
           = built_outputs amount (vsw_deposit_address vs) (Some (vsw_payload vs)) v change
         \<and> (v = 0 \<or> 294 \<le> v)
         \<and> (safe p \<longleftrightarrow> now < t + 600 \<and> bs_fee (pr_built p) \<le> max_fee
              \<and> length (bs_outputs (pr_built p)) = 3 \<and> vs_version d = 1 \<and> vs_dca_chunks d = 1))"
proof -
  from prep obtain d where d: "destination_bytes to_asset dest = Inr (vsw_destination_bytes vs)"
    "map_of VAULT_SWAP_ASSET_IDS to_asset = Some (vsw_destination_asset_id vs)"
    "min_output_amount q bps = Inr (vsw_min_output_amount vs)"
    "\<exists>w1. bitcoin_vault_addresses call w = (Inr (vsw_known_vaults vs), w1)"
    "vsw_deposit_address vs \<in> vsw_known_vaults vs"
    "decode_vault_swap_payload (vsw_payload vs) = Some d"
    "vs_destination d = vsw_destination_bytes vs" "vs_asset_id d = vsw_destination_asset_id vs"
    "vsw_min_output_amount vs \<le> vs_min_output_amount d"
    "vs_broker_fee d = 0" "vs_boost_fee d = 0" "vs_affiliates d = 0"
    by (rule prepare_vault_swap_Inr)
  have len: "length (vsw_payload vs) = 48"
    using decode_vault_payload_inv [OF d(6)] length_vault_payload [of d] by metis
  from built obtain b where b: "pr_built p = b"
    "build_unsigned_swap bl hdkey dpath P2WPKH utxos (vsw_deposit_address vs) amount
       (Some (MemoBytes (vsw_payload vs))) rate change False = Inr b"
    and problems: "pr_problems p = verify_chainflip_vault_swap (bs_outputs b) (bs_fee b) (vault_plan vs amount t)
        (owned_of change utxos) now max_fee"
    using change(1) by (auto simp: build_and_verify_vault_swap_def utxo_builder_def bind_res_eq_Inr)
  obtain v where o: "bs_outputs b = built_outputs amount (vsw_deposit_address vs) (Some (vsw_payload vs)) v change"
    and f: "0 \<le> bs_fee b" and v: "v = 0 \<or> 294 \<le> v"
    using vault_build_change [OF b(2) bl] sane len by auto
  have ch: "change \<noteq> vsw_deposit_address vs" using change(2) d(5) by auto
  have btc: "verify_btc_swap (bs_outputs b) (bs_fee b)
       \<lparr>sp_inbound = vsw_deposit_address vs, sp_amount = amount, sp_memo = MemoBytes (vsw_payload vs),
        sp_expiry = t + 600, sp_destination = []\<rparr> (owned_of change utxos) now max_fee memo_limit = []
      \<longleftrightarrow> now < t + 600 \<and> bs_fee b \<le> max_fee"
    unfolding o memo_limit_def
    using ch f len
    by (subst honest_swap_gate [OF honest_built])
       (simp_all add: spells_def owned_of_def memo_pays_destination_def OP_RETURN_MAX_BYTES_def)
  have pay: "payload_check d (vault_plan vs amount t) = [] \<longleftrightarrow> vs_version d = 1 \<and> vs_dca_chunks d = 1"
    unfolding payload_check_silent using d(7-12) by simp
  have three: "length (bs_outputs b) = 3 \<longleftrightarrow> 0 < v" by (simp add: o built_outputs_def)
  have "safe p \<longleftrightarrow> now < t + 600 \<and> bs_fee b \<le> max_fee \<and> 0 < v \<and> vs_version d = 1 \<and> vs_dca_chunks d = 1"
    unfolding safe_def problems verify_chainflip_vault_swap_def append_is_Nil_conv vault_plan_simps
      map_is_Nil_conv btc d(6) option.case pay
    using d(5) built_refund_check [OF ch v, of amount "vsw_payload vs"] by (auto simp: o)
  then have safe: "safe p \<longleftrightarrow> now < t + 600 \<and> bs_fee (pr_built p) \<le> max_fee
      \<and> length (bs_outputs (pr_built p)) = 3 \<and> vs_version d = 1 \<and> vs_dca_chunks d = 1"
    unfolding b(1) three by simp
  show ?thesis
    by (rule exI [of _ d], rule exI [of _ "vsw_min_output_amount vs"]) (use d safe o v b(1) in \<open>simp, blast?\<close>)
qed

section \<open>The brokers\<close>

text \<open>A call that also records what was asked and what came back.\<close>

type_synonym 'p asked = "(pystr \<times> json list) \<times> ('p exn + json)"

definition noted :: "('w, 'p) cf_rpc \<Rightarrow> ('w \<times> 'p asked list, 'p) cf_rpc" where
  "noted call m ps = (\<lambda>(w, asked). case call m ps w of (r, w') \<Rightarrow> (r, w', asked @ [((m, ps), r)]))"

fun refused :: "py_libs \<Rightarrow> 'p exn + json \<Rightarrow> bool" where
  "refused lib (Inl (ChainflipError reason)) = broker_refuses lib reason"
| "refused lib _ = False"

definition broker_request :: "pystr \<times> pystr \<times> nat \<Rightarrow> pystr \<times> pystr \<times> nat \<Rightarrow> pystr \<Rightarrow> json \<Rightarrow> pystr \<Rightarrow> pystr \<times> json list" where
  "broker_request src dst dest extra account =
     (lit ''cf_request_swap_parameter_encoding'',
      [JStr account, asset_object (cf_pair src), asset_object (cf_pair dst), JStr dest, JInt 0, extra])"

lemma ask_broker_noted:
  assumes "cf_asset from_asset = Inr src" "cf_asset to_asset = Inr dst"
  shows "ask_broker (noted call) from_asset to_asset dest extra account (w, asked) =
    (case call (fst (broker_request src dst dest extra account)) (snd (broker_request src dst dest extra account)) w
     of (r, w') \<Rightarrow> (r, w', asked @ [(broker_request src dst dest extra account, r)]))"
  by (simp add: ask_broker_def encode_params_def assms noted_def broker_request_def)

lemma request_encoding_asks:
  assumes "cf_asset from_asset = Inr src" "cf_asset to_asset = Inr dst"
  shows "\<exists>r w' asked. request_encoding lib (ask_broker (noted call) from_asset to_asset dest extra) refusals accounts
      (w, before) = (r, w', before @ asked)
    \<and> map fst asked = map (broker_request src dst dest extra) (take (length asked) accounts)
    \<and> list_all (refused lib) (map snd (butlast asked))
    \<and> (asked \<noteq> [] \<and> \<not> refused lib (snd (last asked)) \<and> r = snd (last asked)
       \<or> length asked = length accounts \<and> list_all (refused lib) (map snd asked)
         \<and> (\<exists>rs. r = Inl (ChainflipError (CfNoBroker (refusals @ rs))) \<and> map fst rs = accounts))"
proof (induction accounts arbitrary: refusals w before)
  case Nil
  show ?case by (intro exI [of _ "[]"] exI) (simp add: raise_def)
next
  case (Cons account accounts)
  let ?q = "broker_request src dst dest extra account"
  obtain o1 w1 where o1: "call (fst ?q) (snd ?q) w = (o1, w1)" by force
  have run: "ask_broker (noted call) from_asset to_asset dest extra account (w, before)
      = (o1, w1, before @ [(?q, o1)])"
    by (simp add: ask_broker_noted [OF assms] o1)
  show ?case
  proof (cases "refused lib o1")
    case True
    then obtain reason where r: "o1 = Inl (ChainflipError reason)" "broker_refuses lib reason"
      by (cases "(lib, o1)" rule: refused.cases) auto
    obtain r w' asked where IH: "request_encoding lib (ask_broker (noted call) from_asset to_asset dest extra)
        (refusals @ [(account, reason)]) accounts (w1, before @ [(?q, o1)]) = (r, w', (before @ [(?q, o1)]) @ asked)"
      "map fst asked = map (broker_request src dst dest extra) (take (length asked) accounts)"
      "list_all (refused lib) (map snd (butlast asked))"
      "asked \<noteq> [] \<and> \<not> refused lib (snd (last asked)) \<and> r = snd (last asked)
       \<or> length asked = length accounts \<and> list_all (refused lib) (map snd asked)
         \<and> (\<exists>rs. r = Inl (ChainflipError (CfNoBroker ((refusals @ [(account, reason)]) @ rs))) \<and> map fst rs = accounts)"
      using Cons.IH [of "refusals @ [(account, reason)]" w1 "before @ [(?q, o1)]"] by blast
    have step: "request_encoding lib (ask_broker (noted call) from_asset to_asset dest extra) refusals
        (account # accounts) (w, before) = (r, w', before @ (?q, o1) # asked)"
      using IH(1) by (simp add: try_call_def run r)
    let ?asked = "(?q, o1) # asked"
    have ends: "\<not> refused lib (snd (last ?asked)) \<and> r = snd (last ?asked)
         \<or> length ?asked = length (account # accounts) \<and> list_all (refused lib) (map snd ?asked)
         \<and> (\<exists>rs. r = Inl (ChainflipError (CfNoBroker (refusals @ rs))) \<and> map fst rs = account # accounts)"
    proof (cases "asked \<noteq> [] \<and> \<not> refused lib (snd (last asked)) \<and> r = snd (last asked)")
      case False
      with IH(4) obtain rs where "length asked = length accounts" "list_all (refused lib) (map snd asked)"
        "r = Inl (ChainflipError (CfNoBroker ((refusals @ [(account, reason)]) @ rs)))" "map fst rs = accounts"
        by blast
      with True show ?thesis
        by (intro disjI2 conjI exI [of _ "(account, reason) # rs"]) simp_all
    qed simp
    have but: "list_all (refused lib) (map snd (butlast ?asked))" using IH(3) True by simp
    show ?thesis
      by (rule exI [of _ r], rule exI [of _ w'], rule exI [of _ ?asked])
         (use step IH(2) but ends in \<open>simp del: butlast.simps last.simps\<close>)
  next
    case False
    have "request_encoding lib (ask_broker (noted call) from_asset to_asset dest extra) refusals
        (account # accounts) (w, before) = (o1, w1, before @ [(?q, o1)])"
      using False by (cases "(lib, o1)" rule: refused.cases)
        (auto simp: try_call_def run split: exn.splits)
    with False show ?thesis
      by (intro exI [of _ o1] exI [of _ w1] exI [of _ "[(?q, o1)]"]) simp
  qed
qed

text \<open>
  The brokers are asked one after another, in the order of the list, each at most once and each
  for a commission of zero, and only as long as they refuse in one of the two known ways. The first
  answer that is no such refusal ends the search: an encoding is returned as it is and any other
  error is raised as it is. When all of them refuse, the error lists every account.
\<close>

theorem brokers_in_order:
  assumes "cf_asset from_asset = Inr src" "cf_asset to_asset = Inr dst"
  shows "\<exists>r w' asked. request_encoding lib (ask_broker (noted call) from_asset to_asset dest extra) [] accounts
      (w, []) = (r, w', asked)
    \<and> map fst asked = map (broker_request src dst dest extra) (take (length asked) accounts)
    \<and> list_all (refused lib) (map snd (butlast asked))
    \<and> (asked \<noteq> [] \<and> \<not> refused lib (snd (last asked)) \<and> r = snd (last asked)
       \<or> length asked = length accounts \<and> list_all (refused lib) (map snd asked)
         \<and> (\<exists>rs. r = Inl (ChainflipError (CfNoBroker rs)) \<and> map fst rs = accounts))"
  using request_encoding_asks [OF assms, of lib call dest extra "[]" accounts w "[]"] by simp

section \<open>A run\<close>

text \<open>A chain on which the first broker wants a commission and the others encode.\<close>

definition ex_fields :: decoded_vault_swap where
  "ex_fields = \<lparr>vs_version = 1, vs_asset_id = 1, vs_destination = replicate 20 0x11, vs_retry_duration = 100,
     vs_min_output_amount = 19800, vs_oracle_slippage = 255, vs_dca_chunks = 1, vs_dca_interval = 2,
     vs_boost_fee = 0, vs_broker_fee = 0, vs_affiliates = 0\<rparr>"

definition ex_state_chain :: "(unit, unit) cf_rpc" where
  "ex_state_chain m ps w =
     (if m = lit ''cf_get_vault_addresses'' then
        Inr (JObj [(lit ''bitcoin'', JList [JList [JStr (lit ''account''),
          JObj [(lit ''Btc'', JList [JInt 98, JInt 99])]]])])
      else if ps ! 0 = JStr (hd DEFAULT_BROKER_ACCOUNTS) then
        Inl (ChainflipError (CfRpcRejected m (JStr (lit ''Broker commission is too low''))))
      else
        Inr (JObj [(lit ''deposit_address'', JStr (lit ''bc'')),
          (lit ''nulldata_payload'', JStr (lit ''0x'' @ py_hex (vault_payload ex_fields)))]), w)"

lemma brokers_in_order_witness:
  "\<exists>r w' asked. request_encoding ex_cf_libs
      (ask_broker (noted ex_state_chain) (lit ''BTC.BTC'') (lit ''ETH.ETH'') ex_owned JNull) []
      DEFAULT_BROKER_ACCOUNTS ((), []) = (r, w', asked)
    \<and> length asked \<le> 5 \<and> (length asked = 2 \<longrightarrow> \<not> refused ex_cf_libs (snd (last asked)))"
proof -
  obtain r w' asked where a: "request_encoding ex_cf_libs
      (ask_broker (noted ex_state_chain) (lit ''BTC.BTC'') (lit ''ETH.ETH'') ex_owned JNull) []
      DEFAULT_BROKER_ACCOUNTS ((), []) = (r, w', asked)"
    "map fst asked = map (broker_request (lit ''Bitcoin'', lit ''BTC'', 8) (lit ''Ethereum'', lit ''ETH'', 18)
        ex_owned JNull) (take (length asked) DEFAULT_BROKER_ACCOUNTS)"
    "asked \<noteq> [] \<and> \<not> refused ex_cf_libs (snd (last asked)) \<and> r = snd (last asked)
       \<or> length asked = length DEFAULT_BROKER_ACCOUNTS"
    using brokers_in_order [OF ex_assets(3,4), of ex_cf_libs ex_state_chain ex_owned JNull
        DEFAULT_BROKER_ACCOUNTS "()"] by blast
  have five: "length DEFAULT_BROKER_ACCOUNTS = 5" by (simp add: DEFAULT_BROKER_ACCOUNTS_def)
  have "length asked \<le> 5" using arg_cong [OF a(2), of length] five by simp
  then show ?thesis using a(1,3) five by (intro exI conjI) auto
qed

definition ex_encoding :: json where
  "ex_encoding = JObj [(lit ''deposit_address'', JStr (lit ''bc'')),
     (lit ''nulldata_payload'', JStr (lit ''0x'' @ py_hex (vault_payload ex_fields)))]"

lemma ex_ask:
  "ask_broker ex_state_chain (lit ''BTC.BTC'') (lit ''ETH.ETH'') dest extra account w =
     (if account = hd DEFAULT_BROKER_ACCOUNTS
      then Inl (ChainflipError (CfRpcRejected (lit ''cf_request_swap_parameter_encoding'')
        (JStr (lit ''Broker commission is too low'')))) else Inr ex_encoding, w)"
proof -
  have "lit ''cf_request_swap_parameter_encoding'' \<noteq> lit ''cf_get_vault_addresses''" by (simp add: lit_def)
  then show ?thesis
    by (simp add: ask_broker_def encode_params_def ex_assets ex_state_chain_def ex_encoding_def)
qed

lemma ex_refusal:
  "broker_refuses ex_cf_libs (CfRpcRejected m (JStr (lit ''Broker commission is too low'')))"
  by (simp add: broker_refuses_def BROKER_REFUSALS_def py_in_def suffix_imp_sublist suffix_def)

lemma ex_encoded:
  "request_encoding ex_cf_libs (ask_broker ex_state_chain (lit ''BTC.BTC'') (lit ''ETH.ETH'') dest extra) []
     DEFAULT_BROKER_ACCOUNTS w = (Inr ex_encoding, w)"
proof -
  let ?D = DEFAULT_BROKER_ACCOUNTS
  have "?D = hd ?D # hd (tl ?D) # tl (tl ?D)" "hd (tl ?D) \<noteq> hd ?D"
    by (simp_all add: DEFAULT_BROKER_ACCOUNTS_def lit_def)
  then obtain a b rest where acc: "?D = a # b # rest" "b \<noteq> a" by blast
  have hd: "hd ?D = a" by (simp only: acc list.sel)
  have "request_encoding ex_cf_libs (ask_broker ex_state_chain (lit ''BTC.BTC'') (lit ''ETH.ETH'') dest extra) []
     (a # b # rest) w = (Inr ex_encoding, w)"
    using acc(2) by (simp add: try_call_def ex_ask hd ex_refusal)
  then show ?thesis by (simp only: acc(1))
qed

definition ex_swap_change :: pystr where
  "ex_swap_change = lit ''mine''"

definition ex_prepared_swap :: vault_swap where
  "ex_prepared_swap = \<lparr>vsw_deposit_address = lit ''bc'', vsw_payload = vault_payload ex_fields,
     vsw_known_vaults = {lit ''bc''}, vsw_destination_asset_id = 1,
     vsw_destination_bytes = replicate 20 0x11, vsw_min_output_amount = 19800\<rparr>"

definition ex_big_coin :: utxo where
  "ex_big_coin = ex_coin\<lparr>u_value := 200000\<rparr>"

lemma ex_prepared:
  "prepare_vault_swap ex_cf_libs ex_state_chain (lit ''BTC.BTC'') (lit ''ETH.ETH'') ex_owned ex_cf_quote None ()
   = (Inr ex_prepared_swap, ())"
proof -
  have c: "vault_chain (lit ''BTC.BTC'') = lit ''Bitcoin''" "vault_chain (lit ''ETH.ETH'') = lit ''Ethereum''"
    by (simp_all add: vault_chain_def ex_assets)
  have evm: "lit ''Ethereum'' \<in> set EVM_VAULT_CHAINS" by (simp add: EVM_VAULT_CHAINS_def)
  have asset_id: "index_dict VAULT_SWAP_ASSET_IDS (lit ''ETH.ETH'') = Inr 1"
    by (simp add: index_dict_def VAULT_SWAP_ASSET_IDS_def)
  have dest: "destination_bytes (lit ''ETH.ETH'') ex_owned = Inr (replicate 20 0x11)" by code_simp
  have m: "min_output_amount ex_cf_quote None = Inr 19800"
    by (simp add: min_output_amount_def ex_cf_quote_def)
  have vaults: "bitcoin_vault_addresses ex_state_chain () = (Inr {lit ''bc''}, ())" by code_simp
  have parsed: "parse_vault_encoding ex_cf_libs ex_encoding = Inr (lit ''bc'', vault_payload ex_fields)"
    by code_simp
  have ok: "vault_fields_ok ex_fields" by (simp add: vault_fields_ok_def ex_fields_def)
  have check: "check_vault_encoding {lit ''bc''} (lit ''bc'') (vault_payload ex_fields) ex_owned (replicate 20 0x11) 1 19800
      = Inr ()"
    unfolding check_vault_encoding_Inr using decode_vault_payload [OF ok]
    by (auto simp: ex_fields_def)
  show ?thesis
    unfolding prepare_vault_swap_def and_then_def raise_if_def of_cf_def of_res_def of_py_def c dest m asset_id vaults
    by (simp del: One_nat_def add: evm vaults ret_def ex_encoded parsed cf_guard_def check ex_prepared_swap_def)
qed

lemma vault_swap_passes_witness:
  "\<exists>p. build_and_verify_vault_swap (utxo_builder ex_lib (\<lambda>path. path) (\<lambda>path. path) (lit ''m/0'') P2WPKH)
      (vault_plan ex_prepared_swap 100000 100) 200 [ex_big_coin] (Flt 1 0) ex_swap_change 2000 = Inr p
    \<and> (safe p \<longleftrightarrow> length (bs_outputs (pr_built p)) = 3)"
proof -
  let ?run = "build_and_verify_vault_swap (utxo_builder ex_lib (\<lambda>path. path) (\<lambda>path. path) (lit ''m/0'') P2WPKH)
      (vault_plan ex_prepared_swap 100000 100) 200 [ex_big_coin] (Flt 1 0) ex_swap_change 2000"
  have "case ?run of Inl e \<Rightarrow> False | Inr p \<Rightarrow> bs_fee (pr_built p) \<le> 2000" by code_simp
  then obtain p where p: "?run = Inr p" "bs_fee (pr_built p) \<le> 2000" by (cases ?run) auto
  have lib: "bitcoinlib_ok ex_lib"
    by (simp add: bitcoinlib_ok_def ex_lib_def byte_of_def OP_RETURN_OPCODE_def)
  have ch: "ex_swap_change \<noteq> []" "ex_swap_change \<notin> vsw_known_vaults ex_prepared_swap"
    by (simp_all add: ex_swap_change_def ex_prepared_swap_def lit_def)
  have sane: "vbyte_sane (Flt 1 0) 48 P2WPKH [ex_big_coin]"
    by (simp add: vbyte_sane_def coins_ok_def P2WPKH_def ex_big_coin_def ex_coin_def)
  have dec: "decode_vault_swap_payload (vsw_payload ex_prepared_swap) = Some ex_fields"
    by (simp add: ex_prepared_swap_def decode_vault_payload vault_fields_ok_def ex_fields_def)
  show ?thesis
    using vault_swap_passes [OF ex_prepared p(1) lib ch sane] p dec by (auto simp: ex_fields_def)
qed

end
