(* ===== verification/Explorer.thy ===== *)
theory Explorer
  imports History Swap Net
begin

text \<open>
  What the explorer clients of the adapters share: reads of decoded JSON, entries of a transaction,
  and the pages of a history. A field whose type is not the one its use needs (a transaction id that
  is no text, a height that is no integer) is a TypeError here; Python raises where it is used.
\<close>

section \<open>Reads\<close>

text \<open>\<open>x[0]\<close> of a decoded value; its objects have no key 0.\<close>

fun jhead :: "json \<Rightarrow> py_error + json" where
  "jhead (JList (x # xs)) = Inr x"
| "jhead (JList []) = Inl IndexError"
| "jhead (JStr (c # cs)) = Inr (JStr [c])"
| "jhead (JStr []) = Inl IndexError"
| "jhead (JObj d) = Inl KeyError"
| "jhead _ = Inl TypeError"

fun jtext :: "json \<Rightarrow> py_error + pystr" where
  "jtext (JStr s) = Inr s"
| "jtext _ = Inl TypeError"

fun jtext_opt :: "json \<Rightarrow> py_error + pystr option" where
  "jtext_opt (JStr s) = Inr (Some s)"
| "jtext_opt JNull = Inr None"
| "jtext_opt _ = Inl TypeError"

fun jnum :: "json \<Rightarrow> py_error + int" where
  "jnum (JInt n) = Inr n"
| "jnum (JBool b) = Inr (of_bool b)"
| "jnum _ = Inl TypeError"

fun jnum_opt :: "json \<Rightarrow> py_error + int option" where
  "jnum_opt (JInt n) = Inr (Some n)"
| "jnum_opt (JBool b) = Inr (Some (of_bool b))"
| "jnum_opt JNull = Inr None"
| "jnum_opt _ = Inl TypeError"

text \<open>\<open>bytes.fromhex(x)\<close>.\<close>

fun json_fromhex :: "json \<Rightarrow> py_error + bytes" where
  "json_fromhex (JStr s) = (case py_fromhex s of None \<Rightarrow> Inl ValueError | Some b \<Rightarrow> Inr b)"
| "json_fromhex _ = Inl TypeError"

text \<open>\<open>int(x, 16)\<close>, which takes text only.\<close>

fun json_int16 :: "json \<Rightarrow> py_error + int" where
  "json_int16 (JStr s) = (case py_int16 s of None \<Rightarrow> Inl ValueError | Some n \<Rightarrow> Inr n)"
| "json_int16 _ = Inl TypeError"

text \<open>\<open>f(x.get(k))\<close> and \<open>f(x.get(k, v))\<close>.\<close>

definition jfield :: "json \<Rightarrow> string \<Rightarrow> (json \<Rightarrow> py_error + 'a) \<Rightarrow> py_error + 'a" where
  "jfield x k read = bind_res (jget x (lit k)) read"

definition jfield_or :: "json \<Rightarrow> string \<Rightarrow> json \<Rightarrow> (json \<Rightarrow> py_error + 'a) \<Rightarrow> py_error + 'a" where
  "jfield_or x k v read = bind_res (jget_or x (lit k) v) read"

text \<open>\<open>[f(x) for x in xs]\<close>.\<close>

definition jlist :: "(json \<Rightarrow> py_error + 'a) \<Rightarrow> json \<Rightarrow> py_error + 'a list" where
  "jlist f xs = bind_res (json_iter xs) (map_res f)"

section \<open>Entries\<close>

definition value_entry :: "int \<Rightarrow> pystr option \<Rightarrow> tx_entry" where
  "value_entry n addr =
     \<lparr>te_value = n, te_address = addr, te_op_return = False, te_txid = None, te_vout = None, te_sequence = None,
      te_op_return_data = None, te_spent_by = None\<rparr>"

definition data_entry :: "int \<Rightarrow> pystr option \<Rightarrow> bytes option \<Rightarrow> tx_entry" where
  "data_entry n addr data = (value_entry n addr)\<lparr>te_op_return := True, te_op_return_data := data\<rparr>"

text \<open>\<open>decode_op_return(bytes.fromhex(script))\<close> under \<open>except ValueError\<close>: what cannot be read is None.\<close>

fun op_return_of :: "json \<Rightarrow> py_error + bytes option" where
  "op_return_of (JStr s) =
     (case py_fromhex s of
        None \<Rightarrow> Inr None
      | Some script \<Rightarrow> (case decode_op_return script of Inl _ \<Rightarrow> Inr None | Inr d \<Rightarrow> Inr (Some d)))"
| "op_return_of _ = Inl TypeError"

section \<open>Pages\<close>

text \<open>
  One page of a history: the GET of the HTTP client, which gives up in the two ways of \<open>Net\<close>, then
  \<open>raise_for_status\<close>, the JSON body and its parse. Only a throttle is not an exception to the walk.
\<close>

datatype read_failure =
  Unreachable "nat option"
| RefusedStatus int
| NotJson
| Unreadable py_error

type_synonym 'w getter = "pystr \<Rightarrow> params \<Rightarrow> 'w \<Rightarrow> (give_up + response) \<times> 'w"

fun answered_page :: "(json \<Rightarrow> py_error + (tx_summary list \<times> 'c option)) \<Rightarrow> response \<Rightarrow> ('c, read_failure) page" where
  "answered_page parse resp =
     (if 400 \<le> rs_status resp then PageRaises (RefusedStatus (rs_status resp))
      else case rs_json resp of
        None \<Rightarrow> PageRaises NotJson
      | Some body \<Rightarrow> (case parse body of Inl e \<Rightarrow> PageRaises (Unreadable e) | Inr (txs, cursor) \<Rightarrow> Page txs cursor))"

definition fetched_page ::
  "('w \<Rightarrow> (give_up + response) \<times> 'w) \<Rightarrow> (json \<Rightarrow> py_error + (tx_summary list \<times> 'c option)) \<Rightarrow> 'w
   \<Rightarrow> ('c, read_failure) page \<times> 'w" where
  "fetched_page request parse w =
     (case request w of
        (Inl (RateLimited status), w') \<Rightarrow> (Throttled, w')
      | (Inl (HostUnreachable e), w') \<Rightarrow> (PageRaises (Unreachable e), w')
      | (Inr resp, w') \<Rightarrow> (answered_page parse resp, w'))"

end
