(* ===== verification/EvmAdapter.thy ===== *)
theory EvmAdapter
  imports ChainflipVault Swap Explorer
begin

text \<open>
  The EVM adapters, \<open>src/swapsack/chains/eth.py\<close> with \<open>arb.py\<close>, \<open>avax.py\<close> and \<open>bsc.py\<close>: reads over
  JSON-RPC, building, gating, signing and broadcast. \<open>eth_abi\<close>, \<open>eth_account\<close> and keccak are the
  fields of \<open>eth_libs\<close>; a call of the node is a parameter, \<open>eth_rpc\<close> is the one of the code.
\<close>

section \<open>Constants\<close>

definition DEFAULT_ETH_DERIVATION :: pystr where
  "DEFAULT_ETH_DERIVATION = lit ''m/44'' @ [39] @ lit ''/60'' @ [39] @ lit ''/0'' @ [39] @ lit ''/0/0''"

definition DECIMALS_SELECTOR :: pystr where
  "DECIMALS_SELECTOR = lit ''313ce567''"

definition BALANCEOF_SELECTOR :: pystr where
  "BALANCEOF_SELECTOR = lit ''70a08231''"

definition ALLOWANCE_SELECTOR :: pystr where
  "ALLOWANCE_SELECTOR = lit ''dd62ed3e''"

definition TRANSFER_SELECTOR :: pystr where
  "TRANSFER_SELECTOR = lit ''a9059cbb''"

definition APPROVE_GAS :: int where
  "APPROVE_GAS = 70000"

definition TOKEN_DEPOSIT_GAS :: int where
  "TOKEN_DEPOSIT_GAS = 200000"

definition VAULT_SWAP_GAS :: int where
  "VAULT_SWAP_GAS = 120000"

definition VAULT_SWAP_TOKEN_GAS :: int where
  "VAULT_SWAP_TOKEN_GAS = 250000"

definition NATIVE_SEND_GAS :: int where
  "NATIVE_SEND_GAS = 21000"

definition TOKEN_TRANSFER_GAS :: int where
  "TOKEN_TRANSFER_GAS = 65000"

section \<open>The chains\<close>

record evm_chain =
  ec_chain :: pystr
  ec_asset :: pystr
  ec_native_symbol :: pystr
  ec_native_label :: pystr
  ec_token_suffix :: pystr
  ec_tracked_tokens :: "(pystr \<times> pystr \<times> nat) list"
  ec_native_send_gas :: int
  ec_chain_id :: int

text \<open>\<open>known_token_decimals\<close>: the tracked tokens by their contract, in lower case with \<open>0x\<close>.\<close>

definition token_key :: "pystr \<Rightarrow> pystr" where
  "token_key token = lit ''0x'' @ py_removeprefix (lit ''0x'') (py_lower token)"

definition known_token_decimals :: "evm_chain \<Rightarrow> pystr \<Rightarrow> nat option" where
  "known_token_decimals ch = map_of (map (\<lambda>(symbol, contract, decimals). (token_key contract, decimals)) (ec_tracked_tokens ch))"

definition eth_chain :: evm_chain where
  "eth_chain =
     \<lparr>ec_chain = lit ''ETH'', ec_asset = lit ''ETH.ETH'', ec_native_symbol = lit ''ETH'', ec_native_label = lit ''ETH'',
      ec_token_suffix = lit ''ETH'',
      ec_tracked_tokens = [(lit ''USDT'', lit ''0xdac17f958d2ee523a2206206994597c13d831ec7'', 6),
        (lit ''USDC'', lit ''0xa0b86991c6218b36c1d19d4a2e9eb0ce3606eb48'', 6)],
      ec_native_send_gas = NATIVE_SEND_GAS, ec_chain_id = 1\<rparr>"

definition arb_chain :: evm_chain where
  "arb_chain =
     \<lparr>ec_chain = lit ''ARB'', ec_asset = lit ''ARB.ETH'', ec_native_symbol = lit ''ETH'', ec_native_label = lit ''ETH-ARB'',
      ec_token_suffix = lit ''ARB'',
      ec_tracked_tokens = [(lit ''USDC'', lit ''0xaf88d065e77c8cc2239327c5edb3a432268e5831'', 6)],
      ec_native_send_gas = 30000, ec_chain_id = 42161\<rparr>"

definition avax_chain :: evm_chain where
  "avax_chain =
     \<lparr>ec_chain = lit ''AVAX'', ec_asset = lit ''AVAX.AVAX'', ec_native_symbol = lit ''AVAX'', ec_native_label = lit ''AVAX'',
      ec_token_suffix = lit ''AVAX'',
      ec_tracked_tokens = [(lit ''USDC'', lit ''0xb97ef9ef8734c71904d8002f8b6bc66dd9c48a6e'', 6),
        (lit ''USDT'', lit ''0x9702230a8ea53601f5cd2dc00fdbc13d4df4a8c7'', 6)],
      ec_native_send_gas = NATIVE_SEND_GAS, ec_chain_id = 43114\<rparr>"

definition bsc_chain :: evm_chain where
  "bsc_chain =
     \<lparr>ec_chain = lit ''BSC'', ec_asset = lit ''BSC.BNB'', ec_native_symbol = lit ''BNB'', ec_native_label = lit ''BNB'',
      ec_token_suffix = lit ''BSC'',
      ec_tracked_tokens = [(lit ''USDT'', lit ''0x55d398326f99059ff775485246999027b3197955'', 18),
        (lit ''USDC'', lit ''0x8ac76a51cc950d9822d68b83fe1ad97b32cd580d'', 18)],
      ec_native_send_gas = NATIVE_SEND_GAS, ec_chain_id = 56\<rparr>"

section \<open>The libraries\<close>

text \<open>
  A transaction dict of type 2: what the gates read, the nonce and the tip. \<open>el_key\<close> derives the
  private key and the address of a path; \<open>el_encode_call\<close> is \<open>abi_encode\<close> of an address and an
  amount, \<open>el_encode_deposit\<close> of the router's five arguments, None is its \<open>EncodingError\<close>.
\<close>

record evm_tx = eth_tx +
  tx_nonce :: int
  tx_priority_fee :: int

record 'k eth_libs =
  el_keccak :: "bytes \<Rightarrow> bytes"
  el_key :: "pystr \<Rightarrow> 'k \<times> pystr"
  el_encode_call :: "pystr \<Rightarrow> int \<Rightarrow> bytes option"
  el_decode_call :: "bytes \<Rightarrow> (pystr \<times> int) option"
  el_encode_deposit :: "pystr \<Rightarrow> pystr \<Rightarrow> int \<Rightarrow> pystr \<Rightarrow> int \<Rightarrow> bytes option"
  el_decode_deposit :: "bytes \<Rightarrow> (pystr \<times> pystr \<times> int \<times> pystr \<times> int) option"
  el_sign :: "evm_tx \<Rightarrow> 'k \<Rightarrow> bytes"

definition checksummed :: "'k eth_libs \<Rightarrow> pystr \<Rightarrow> 'p exn + pystr" where
  "checksummed lib addr =
     (case to_checksum_address (el_keccak lib) addr of None \<Rightarrow> Inl (PyExn ValueError) | Some a \<Rightarrow> Inr a)"

definition encoded :: "pystr \<Rightarrow> bytes option \<Rightarrow> 'p exn + pystr" where
  "encoded selector args =
     (case args of None \<Rightarrow> Inl EncodingError | Some a \<Rightarrow> Inr (lit ''0x'' @ selector @ py_hex a))"

definition encode_approve :: "'k eth_libs \<Rightarrow> pystr \<Rightarrow> int \<Rightarrow> 'p exn + pystr" where
  "encode_approve lib router amount = encoded APPROVE_SELECTOR (el_encode_call lib router amount)"

definition encode_transfer :: "'k eth_libs \<Rightarrow> pystr \<Rightarrow> int \<Rightarrow> 'p exn + pystr" where
  "encode_transfer lib to amount = encoded TRANSFER_SELECTOR (el_encode_call lib to amount)"

definition encode_deposit :: "'k eth_libs \<Rightarrow> pystr \<Rightarrow> pystr \<Rightarrow> int \<Rightarrow> pystr \<Rightarrow> int \<Rightarrow> 'p exn + pystr" where
  "encode_deposit lib vault token amount m expiry =
     encoded DEPOSIT_SELECTOR (el_encode_deposit lib vault token amount m expiry)"

section \<open>Reading the chain\<close>

definition eth_rpc ::
  "(pystr \<Rightarrow> (pystr \<times> json) list \<Rightarrow> ('w, 'p, response) io) \<Rightarrow> pystr \<Rightarrow> ('w, 'p) cf_rpc" where
  "eth_rpc post rpc_url rpc_method args =
     and_then (post rpc_url [(lit ''jsonrpc'', JStr (lit ''2.0'')), (lit ''id'', JInt 1),
       (lit ''method'', JStr rpc_method), (lit ''params'', JList args)]) (\<lambda>resp.
     and_then (raise_for_status resp) (\<lambda>_.
     and_then (resp_json resp) (\<lambda>payload.
     and_then (of_py (jget payload (lit ''error''))) (\<lambda>err.
     and_then (raise_if (json_truthy err) (RpcRaised (RpcError rpc_method err))) (\<lambda>_.
       case payload of
         JObj d \<Rightarrow>
           (case map_of d (lit ''result'') of
              None \<Rightarrow> raise (RpcRaised (RpcNoResult rpc_method payload))
            | Some r \<Rightarrow> ret r)
       | _ \<Rightarrow> raise (PyExn AttributeError))))))"

definition rpc_int :: "('w, 'p) cf_rpc \<Rightarrow> string \<Rightarrow> json list \<Rightarrow> ('w, 'p, int) io" where
  "rpc_int rpc m args = and_then (rpc (lit m) args) (\<lambda>r. of_py (json_int16 r))"

definition get_nonce :: "('w, 'p) cf_rpc \<Rightarrow> pystr \<Rightarrow> ('w, 'p, int) io" where
  "get_nonce rpc address = rpc_int rpc ''eth_getTransactionCount'' [JStr address, JStr (lit ''pending'')]"

definition evm_fetch_balance :: "('w, 'p) cf_rpc \<Rightarrow> pystr \<Rightarrow> ('w, 'p, int) io" where
  "evm_fetch_balance rpc address = rpc_int rpc ''eth_getBalance'' [JStr address, JStr (lit ''latest'')]"

definition eth_call :: "('w, 'p) cf_rpc \<Rightarrow> pystr \<Rightarrow> pystr \<Rightarrow> ('w, 'p, int) io" where
  "eth_call rpc contract data =
     rpc_int rpc ''eth_call'' [JObj [(lit ''to'', JStr contract), (lit ''data'', JStr data)], JStr (lit ''latest'')]"

definition fetch_token_decimals :: "('w, 'p) cf_rpc \<Rightarrow> pystr \<Rightarrow> ('w, 'p, int) io" where
  "fetch_token_decimals rpc token = eth_call rpc token (lit ''0x'' @ DECIMALS_SELECTOR)"

definition token_decimals :: "evm_chain \<Rightarrow> ('w, 'p) cf_rpc \<Rightarrow> pystr \<Rightarrow> ('w, 'p, int) io" where
  "token_decimals ch rpc token =
     (case known_token_decimals ch (token_key token) of
        Some decimals \<Rightarrow> ret (int decimals)
      | None \<Rightarrow> fetch_token_decimals rpc token)"

text \<open>An address as a 32-byte argument: \<open>to_checksum_address(a)[2:].lower().rjust(64, "0")\<close>.\<close>

definition address_word :: "'k eth_libs \<Rightarrow> pystr \<Rightarrow> 'p exn + pystr" where
  "address_word lib addr =
     bind_res (checksummed lib addr) (\<lambda>a.
       let owner = py_lower (drop 2 a) in Inr (replicate (64 - length owner) 48 @ owner))"

definition fetch_token_balance :: "'k eth_libs \<Rightarrow> ('w, 'p) cf_rpc \<Rightarrow> pystr \<Rightarrow> pystr \<Rightarrow> ('w, 'p, int) io" where
  "fetch_token_balance lib rpc token address =
     and_then (of_res (address_word lib address)) (\<lambda>owner.
       eth_call rpc token (lit ''0x'' @ BALANCEOF_SELECTOR @ owner))"

definition fetch_token_allowance ::
  "'k eth_libs \<Rightarrow> ('w, 'p) cf_rpc \<Rightarrow> pystr \<Rightarrow> pystr \<Rightarrow> pystr \<Rightarrow> ('w, 'p, int) io" where
  "fetch_token_allowance lib rpc token owner spender =
     and_then (of_res (address_word lib owner)) (\<lambda>o1.
     and_then (of_res (address_word lib spender)) (\<lambda>s1.
       eth_call rpc token (lit ''0x'' @ ALLOWANCE_SELECTOR @ o1 @ s1)))"

definition evm_wallet_balance :: "'k eth_libs \<Rightarrow> evm_chain \<Rightarrow> ('w, 'p) cf_rpc \<Rightarrow> ('w, 'p, balance_report) io" where
  "evm_wallet_balance lib ch rpc =
     (let address = snd (el_key lib DEFAULT_ETH_DERIVATION) in
      and_then (evm_fetch_balance rpc address) (\<lambda>confirmed.
        ret \<lparr>br_symbol = ec_native_label ch, br_confirmed = confirmed, br_decimals = 18, br_pending = 0,
             br_note = lit ''('' @ address @ lit '')'', br_addresses = [address]\<rparr>))"

fun token_balance_loop ::
  "'k eth_libs \<Rightarrow> evm_chain \<Rightarrow> ('w, 'p) cf_rpc \<Rightarrow> pystr \<Rightarrow> (pystr \<times> pystr \<times> nat) list \<Rightarrow> ('w, 'p, balance_report list) io"
where
  "token_balance_loop lib ch rpc address [] = ret []"
| "token_balance_loop lib ch rpc address ((symbol, contract, decimals) # tokens) =
     and_then (fetch_token_balance lib rpc contract address) (\<lambda>confirmed.
     and_then (token_balance_loop lib ch rpc address tokens) (\<lambda>rest.
       ret (\<lparr>br_symbol = symbol @ lit ''-'' @ ec_token_suffix ch, br_confirmed = confirmed,
             br_decimals = int decimals, br_pending = 0, br_note = [], br_addresses = [address]\<rparr> # rest)))"

definition token_balances :: "'k eth_libs \<Rightarrow> evm_chain \<Rightarrow> ('w, 'p) cf_rpc \<Rightarrow> ('w, 'p, balance_report list) io" where
  "token_balances lib ch rpc =
     token_balance_loop lib ch rpc (snd (el_key lib DEFAULT_ETH_DERIVATION)) (ec_tracked_tokens ch)"

definition fetch_fees :: "('w, 'p) cf_rpc \<Rightarrow> ('w, 'p, int \<times> int) io" where
  "fetch_fees rpc =
     and_then (rpc_int rpc ''eth_maxPriorityFeePerGas'' []) (\<lambda>tip.
     and_then (rpc (lit ''eth_getBlockByNumber'') [JStr (lit ''latest''), JBool False]) (\<lambda>block.
     and_then (of_py (bind_res (jindex block (lit ''baseFeePerGas'')) json_int16)) (\<lambda>base.
       ret (base * 2 + tip, tip))))"

section \<open>What is built\<close>

record 'k eth_built_swap =
  ebs_tx :: evm_tx
  ebs_key :: 'k
  ebs_to :: pystr
  ebs_value :: int
  ebs_data :: pystr
  ebs_chain_id :: int
  ebs_gas :: int
  ebs_max_fee :: int

record 'k eth_token_swap =
  etk_approve :: evm_tx
  etk_deposit :: evm_tx
  etk_key :: 'k
  etk_token :: pystr
  etk_router :: pystr
  etk_vault :: pystr
  etk_native_amount :: int
  etk_memo :: pystr
  etk_expiry :: int
  etk_chain_id :: int

record 'k eth_vault_swap_built =
  evb_swap :: evm_tx
  evb_key :: 'k
  evb_approve :: "evm_tx option"

record 'k eth_approvals_built =
  eab_txs :: "evm_tx list"
  eab_key :: 'k
  eab_token :: pystr
  eab_spender :: pystr
  eab_amount :: int
  eab_chain_id :: int

datatype 'k evm_built =
  NativeBuilt "'k eth_built_swap"
| TokenBuilt "'k eth_token_swap"
| VaultBuilt "'k eth_vault_swap_built"
| ApprovalsBuilt "'k eth_approvals_built"

fun evm_txs :: "'k evm_built \<Rightarrow> evm_tx list" where
  "evm_txs (NativeBuilt b) = [ebs_tx b]"
| "evm_txs (TokenBuilt b) = [etk_approve b, etk_deposit b]"
| "evm_txs (VaultBuilt b) = (case evb_approve b of None \<Rightarrow> [evb_swap b] | Some a \<Rightarrow> [a, evb_swap b])"
| "evm_txs (ApprovalsBuilt b) = eab_txs b"

fun evm_key :: "'k evm_built \<Rightarrow> 'k" where
  "evm_key (NativeBuilt b) = ebs_key b"
| "evm_key (TokenBuilt b) = etk_key b"
| "evm_key (VaultBuilt b) = evb_key b"
| "evm_key (ApprovalsBuilt b) = eab_key b"

definition evm_fee :: "'k evm_built \<Rightarrow> int" where
  "evm_fee b = txs_fee (map eth_tx.truncate (evm_txs b))"

datatype evm_plan =
  EvmSwapIntent eth_swap_plan
| EvmSendIntent eth_send_plan
| EvmTokenSendIntent eth_token_send_plan
| EvmTokenIntent eth_token_built
| EvmVaultIntent chainflip_evm_vault_plan
| EvmApprovalIntent eth_approvals

datatype evm_gate = NativeGate problem | TokenGate evm_problem | TransferUndecodable

type_synonym 'k evm_prepared = "('k evm_built, evm_plan, evm_gate) prepared"

definition mk_tx :: "evm_chain \<Rightarrow> int \<Rightarrow> pystr \<Rightarrow> int \<Rightarrow> int \<Rightarrow> int \<Rightarrow> int \<Rightarrow> pystr \<Rightarrow> evm_tx" where
  "mk_tx ch nonce to amount gas max_fee_per_gas priority data =
     \<lparr>tx_to = to, tx_value = amount, tx_chain_id = ec_chain_id ch, tx_gas = gas, tx_max_fee = max_fee_per_gas,
      tx_data = data, tx_nonce = nonce, tx_priority_fee = priority\<rparr>"

text \<open>\<open>memo.encode()\<close>, which refuses lone surrogates.\<close>

definition py_encode :: "pystr \<Rightarrow> 'p exn + bytes" where
  "py_encode s = (if unicode_text s then Inr (utf8_encode s) else Inl (PyExn ValueError))"

definition evm_build_unsigned_swap ::
  "'k eth_libs \<Rightarrow> evm_chain \<Rightarrow> pystr \<Rightarrow> pystr \<Rightarrow> int \<Rightarrow> pystr \<Rightarrow> int \<Rightarrow> int \<Rightarrow> int \<Rightarrow> int
   \<Rightarrow> 'p exn + 'k eth_built_swap" where
  "evm_build_unsigned_swap lib ch path vault_address amount m nonce gas max_fee_per_gas priority =
     bind_res (checksummed lib vault_address) (\<lambda>to.
     bind_res (py_encode m) (\<lambda>payload.
       let val = amount * WEI_PER_THORCHAIN_UNIT; data = lit ''0x'' @ py_hex payload in
       Inr \<lparr>ebs_tx = mk_tx ch nonce to val gas max_fee_per_gas priority data, ebs_key = fst (el_key lib path),
            ebs_to = to, ebs_value = val, ebs_data = data, ebs_chain_id = ec_chain_id ch, ebs_gas = gas,
            ebs_max_fee = max_fee_per_gas\<rparr>))"

definition build_token_deposit ::
  "'k eth_libs \<Rightarrow> evm_chain \<Rightarrow> pystr \<Rightarrow> pystr \<Rightarrow> pystr \<Rightarrow> int \<Rightarrow> pystr \<Rightarrow> int \<Rightarrow> int \<Rightarrow> int \<Rightarrow> int
   \<Rightarrow> 'p exn + 'k eth_token_swap" where
  "build_token_deposit lib ch token router vault native m expiry nonce max_fee_per_gas priority =
     bind_res (checksummed lib token) (\<lambda>token.
     bind_res (checksummed lib router) (\<lambda>router.
     bind_res (checksummed lib vault) (\<lambda>vault.
     bind_res (encode_approve lib router native) (\<lambda>approve_data.
     bind_res (encode_deposit lib vault token native m expiry) (\<lambda>deposit_data.
       Inr \<lparr>etk_approve = mk_tx ch nonce token 0 APPROVE_GAS max_fee_per_gas priority approve_data,
            etk_deposit = mk_tx ch (nonce + 1) router 0 TOKEN_DEPOSIT_GAS max_fee_per_gas priority deposit_data,
            etk_key = fst (el_key lib DEFAULT_ETH_DERIVATION), etk_token = token, etk_router = router,
            etk_vault = vault, etk_native_amount = native, etk_memo = m, etk_expiry = expiry,
            etk_chain_id = ec_chain_id ch\<rparr>)))))"

text \<open>What the token gate reads of it.\<close>

definition token_view :: "'k eth_token_swap \<Rightarrow> eth_token_built" where
  "token_view b =
     \<lparr>tb_approve = eth_tx.truncate (etk_approve b), tb_deposit = eth_tx.truncate (etk_deposit b),
      tb_token = etk_token b, tb_router = etk_router b, tb_vault = etk_vault b,
      tb_native_amount = etk_native_amount b, tb_memo = etk_memo b, tb_expiry = etk_expiry b,
      tb_chain_id = etk_chain_id b\<rparr>"

text \<open>
  \<open>amount * 10**decimals // 10**8\<close>; a negative count of decimals makes it a float, which the
  encoder refuses.
\<close>

definition native_units :: "int \<Rightarrow> int \<Rightarrow> 'p exn + int" where
  "native_units amount decimals =
     (if decimals < 0 then Inl EncodingError else Inr (amount * 10 ^ nat decimals div 10 ^ 8))"

text \<open>A text field of a quote: \<open>x or ""\<close>, and an address, which must be there.\<close>

fun quote_address :: "json \<Rightarrow> 'p exn + pystr" where
  "quote_address (JStr s) = Inr s"
| "quote_address _ = Inl (PyExn AttributeError)"

definition quote_text :: "'p exn \<Rightarrow> json \<Rightarrow> 'p exn + pystr" where
  "quote_text e j = (if \<not> json_truthy j then Inr [] else case j of JStr s \<Rightarrow> Inr s | _ \<Rightarrow> Inl e)"

definition after_dash :: "pystr \<Rightarrow> pystr" where
  "after_dash asset = (case py_partition 45 asset of (_, _, rest) \<Rightarrow> rest)"

definition build_token_swap ::
  "'k eth_libs \<Rightarrow> evm_chain \<Rightarrow> swap_request \<Rightarrow> quote \<Rightarrow> int \<Rightarrow> int \<Rightarrow> int \<Rightarrow> int \<Rightarrow> 'p exn + 'k eth_token_swap" where
  "build_token_swap lib ch request q nonce max_fee_per_gas priority decimals =
     bind_res (native_units (sr_amount request) decimals) (\<lambda>native.
     bind_res (quote_text (PyExn AttributeError) (q_router q)) (\<lambda>router.
     bind_res (quote_address (q_inbound_address q)) (\<lambda>vault.
     bind_res (quote_text EncodingError (q_memo q)) (\<lambda>m.
       build_token_deposit lib ch (after_dash (sr_from_asset request)) router vault native m (q_expiry q)
         nonce max_fee_per_gas priority))))"

section \<open>Building and gating\<close>

definition token_prepared ::
  "'k eth_libs \<Rightarrow> quote option \<Rightarrow> 'k eth_token_swap \<Rightarrow> pystr \<Rightarrow> int \<Rightarrow> int \<Rightarrow> 'k evm_prepared" where
  "token_prepared lib q b destination now max_fee_wei =
     \<lparr>pr_quote = q, pr_built = TokenBuilt b, pr_plan = EvmTokenIntent (token_view b),
      pr_problems = map TokenGate
        (verify_eth_token_swap (el_decode_call lib) (el_decode_deposit lib) (token_view b) destination now max_fee_wei)\<rparr>"

definition native_prepared ::
  "quote option \<Rightarrow> 'k eth_built_swap \<Rightarrow> eth_swap_plan \<Rightarrow> int \<Rightarrow> int \<Rightarrow> 'k evm_prepared" where
  "native_prepared q b plan now max_fee_wei =
     \<lparr>pr_quote = q, pr_built = NativeBuilt b, pr_plan = EvmSwapIntent plan,
      pr_problems = map NativeGate
        (verify_eth_swap (ebs_to b) (ebs_value b) (ebs_data b) (ebs_chain_id b) (ebs_gas b) (ebs_max_fee b) plan
          now max_fee_wei)\<rparr>"

definition evm_build_and_verify ::
  "'k eth_libs \<Rightarrow> evm_chain \<Rightarrow> ('w, 'p) cf_rpc \<Rightarrow> quote \<Rightarrow> swap_request \<Rightarrow> int \<Rightarrow> int \<Rightarrow> int \<Rightarrow> int \<Rightarrow> int \<Rightarrow> int
   \<Rightarrow> ('w, 'p, 'k evm_prepared) io" where
  "evm_build_and_verify lib ch rpc q request now nonce gas max_fee_per_gas priority max_fee_wei =
     (if 45 \<in> set (sr_from_asset request) then
        and_then (token_decimals ch rpc (after_dash (sr_from_asset request))) (\<lambda>decimals.
        and_then (of_res (build_token_swap lib ch request q nonce max_fee_per_gas priority decimals)) (\<lambda>b.
          ret (token_prepared lib (Some q) b (sr_destination request) now max_fee_wei)))
      else
        and_then (of_res (quote_address (q_inbound_address q))) (\<lambda>inbound.
        and_then (of_res (quote_text (PyExn AttributeError) (q_memo q))) (\<lambda>m.
        and_then (of_res (evm_build_unsigned_swap lib ch DEFAULT_ETH_DERIVATION inbound (sr_amount request) m
          nonce gas max_fee_per_gas priority)) (\<lambda>b.
          ret (native_prepared (Some q) b
            \<lparr>esp_inbound = inbound, esp_amount_wei = sr_amount request * WEI_PER_THORCHAIN_UNIT, esp_memo = m,
             esp_expiry = q_expiry q, esp_chain_id = ec_chain_id ch, esp_destination = sr_destination request\<rparr>
            now max_fee_wei)))))"

text \<open>\<open>memo.split(":")[1]\<close> of a memo without a colon raises.\<close>

definition names_token_pool :: "pystr \<Rightarrow> py_error + bool" where
  "names_token_pool m =
     (if take 1 m \<noteq> [43] then Inr False
      else case py_split 58 m of _ # pool # _ \<Rightarrow> Inr (45 \<in> set pool) | _ \<Rightarrow> Inl IndexError)"

definition evm_build_and_verify_deposit ::
  "'k eth_libs \<Rightarrow> evm_chain \<Rightarrow> ('w, 'p) cf_rpc \<Rightarrow> pystr \<Rightarrow> pystr \<Rightarrow> int \<Rightarrow> int \<Rightarrow> int \<Rightarrow> int \<Rightarrow> int \<Rightarrow> int \<Rightarrow> int
   \<Rightarrow> pystr option \<Rightarrow> pystr option \<Rightarrow> ('w, 'p, 'k evm_prepared) io" where
  "evm_build_and_verify_deposit lib ch rpc vault m amount now nonce gas max_fee_per_gas priority max_fee_wei
     router token =
     (case token of
        Some t \<Rightarrow>
          and_then (raise_if (router = None \<or> router = Some []) (SwapAborted TokenNeedsRouter)) (\<lambda>_.
          and_then (token_decimals ch rpc t) (\<lambda>decimals.
          and_then (of_res (native_units amount decimals)) (\<lambda>native.
          and_then (of_res (build_token_deposit lib ch t (the router) vault native m (now + 3600) nonce
            max_fee_per_gas priority)) (\<lambda>b.
            ret (token_prepared lib None b [] now max_fee_wei)))))
      | None \<Rightarrow>
          and_then (of_py (names_token_pool m)) (\<lambda>pool.
          and_then (raise_if pool (SwapAborted PoolNeedsToken)) (\<lambda>_.
          and_then (of_res (evm_build_unsigned_swap lib ch DEFAULT_ETH_DERIVATION vault amount m nonce gas
            max_fee_per_gas priority)) (\<lambda>b.
            ret (native_prepared None b
              \<lparr>esp_inbound = vault, esp_amount_wei = amount * WEI_PER_THORCHAIN_UNIT, esp_memo = m,
               esp_expiry = now + 3600, esp_chain_id = ec_chain_id ch, esp_destination = []\<rparr>
              now max_fee_wei)))))"

definition evm_build_and_verify_token_send ::
  "'k eth_libs \<Rightarrow> evm_chain \<Rightarrow> ('w, 'p) cf_rpc \<Rightarrow> pystr \<Rightarrow> int \<Rightarrow> pystr \<Rightarrow> int \<Rightarrow> int \<Rightarrow> int \<Rightarrow> int \<Rightarrow> pystr
   \<Rightarrow> ('w, 'p, 'k evm_prepared) io" where
  "evm_build_and_verify_token_send lib ch rpc recipient amount asset nonce max_fee_per_gas priority max_fee_wei path =
     and_then (of_res (checksummed lib (after_dash asset))) (\<lambda>token.
     and_then (of_res (checksummed lib recipient)) (\<lambda>to.
     and_then (token_decimals ch rpc token) (\<lambda>decimals.
     and_then (of_res (native_units amount decimals)) (\<lambda>native.
     and_then (of_res (encode_transfer lib to native)) (\<lambda>data.
       let b = \<lparr>ebs_tx = mk_tx ch nonce token 0 TOKEN_TRANSFER_GAS max_fee_per_gas priority data,
                ebs_key = fst (el_key lib path), ebs_to = token, ebs_value = 0, ebs_data = data,
                ebs_chain_id = ec_chain_id ch, ebs_gas = TOKEN_TRANSFER_GAS, ebs_max_fee = max_fee_per_gas\<rparr>;
           plan = \<lparr>ets_token = token, ets_recipient = to, ets_amount = native, ets_chain_id = ec_chain_id ch\<rparr> in
       ret \<lparr>pr_quote = None, pr_built = NativeBuilt b, pr_plan = EvmTokenSendIntent plan,
            pr_problems =
              (case decode_call (el_decode_call lib) data TRANSFER_SELECTOR of
                 None \<Rightarrow> [TransferUndecodable]
               | Some (d_recipient, d_amount) \<Rightarrow>
                   map NativeGate (verify_eth_token_send (ebs_to b) (ebs_value b) (ebs_chain_id b) d_recipient
                     d_amount (ebs_gas b) (ebs_max_fee b) plan max_fee_wei))\<rparr>)))))"

definition evm_build_and_verify_send ::
  "'k eth_libs \<Rightarrow> evm_chain \<Rightarrow> ('w, 'p) cf_rpc \<Rightarrow> pystr \<Rightarrow> int \<Rightarrow> pystr \<Rightarrow> int \<Rightarrow> int \<Rightarrow> int \<Rightarrow> int \<Rightarrow> pystr
   \<Rightarrow> ('w, 'p, 'k evm_prepared) io" where
  "evm_build_and_verify_send lib ch rpc recipient amount asset nonce max_fee_per_gas priority max_fee_wei path =
     (if 45 \<in> set asset then
        evm_build_and_verify_token_send lib ch rpc recipient amount asset nonce max_fee_per_gas priority max_fee_wei path
      else
        and_then (of_res (evm_build_unsigned_swap lib ch path recipient amount [] nonce (ec_native_send_gas ch)
          max_fee_per_gas priority)) (\<lambda>b.
          let plan = \<lparr>esn_recipient = ebs_to b, esn_amount_wei = amount * WEI_PER_THORCHAIN_UNIT,
                      esn_chain_id = ec_chain_id ch\<rparr> in
          ret \<lparr>pr_quote = None, pr_built = NativeBuilt b, pr_plan = EvmSendIntent plan,
               pr_problems = map NativeGate (verify_eth_send (ebs_to b) (ebs_value b) (ebs_data b) (ebs_chain_id b)
                 (ebs_gas b) (ebs_max_fee b) plan max_fee_wei)\<rparr>))"

text \<open>The approvals of the CoW path: none, one, or a reset to zero first.\<close>

definition approval_amounts :: "int \<Rightarrow> int \<Rightarrow> int list" where
  "approval_amounts current_allowance amount =
     (if current_allowance < amount then (if 0 < current_allowance then [0, amount] else [amount]) else [])"

fun approval_txs ::
  "'k eth_libs \<Rightarrow> evm_chain \<Rightarrow> pystr \<Rightarrow> pystr \<Rightarrow> int \<Rightarrow> int \<Rightarrow> int \<Rightarrow> int list \<Rightarrow> 'p exn + evm_tx list" where
  "approval_txs lib ch token spender nonce max_fee_per_gas priority [] = Inr []"
| "approval_txs lib ch token spender nonce max_fee_per_gas priority (n # ns) =
     bind_res (encode_approve lib spender n) (\<lambda>data.
     bind_res (approval_txs lib ch token spender (nonce + 1) max_fee_per_gas priority ns) (\<lambda>txs.
       Inr (mk_tx ch nonce token 0 APPROVE_GAS max_fee_per_gas priority data # txs)))"

definition approvals_view :: "'k eth_approvals_built \<Rightarrow> eth_approvals" where
  "approvals_view b =
     \<lparr>ap_txs = map eth_tx.truncate (eab_txs b), ap_token = eab_token b, ap_spender = eab_spender b,
      ap_amount = eab_amount b, ap_chain_id = eab_chain_id b\<rparr>"

definition build_and_verify_approvals ::
  "'k eth_libs \<Rightarrow> evm_chain \<Rightarrow> pystr \<Rightarrow> pystr \<Rightarrow> int \<Rightarrow> int \<Rightarrow> int \<Rightarrow> int \<Rightarrow> int \<Rightarrow> int \<Rightarrow> pystr
   \<Rightarrow> 'p exn + 'k evm_prepared" where
  "build_and_verify_approvals lib ch token spender amount current_allowance nonce max_fee_per_gas priority
     max_fee_wei path =
     bind_res (checksummed lib token) (\<lambda>token.
     bind_res (checksummed lib spender) (\<lambda>spender.
     bind_res (approval_txs lib ch token spender nonce max_fee_per_gas priority
       (approval_amounts current_allowance amount)) (\<lambda>txs.
       let b = \<lparr>eab_txs = txs, eab_key = fst (el_key lib path), eab_token = token, eab_spender = spender,
                eab_amount = amount, eab_chain_id = ec_chain_id ch\<rparr> in
       Inr \<lparr>pr_quote = None, pr_built = ApprovalsBuilt b, pr_plan = EvmApprovalIntent (approvals_view b),
            pr_problems = map TokenGate (verify_eth_approvals (el_decode_call lib) (approvals_view b) max_fee_wei)\<rparr>)))"

definition vault_approve ::
  "'k eth_libs \<Rightarrow> evm_chain \<Rightarrow> chainflip_evm_vault_plan \<Rightarrow> int \<Rightarrow> int \<Rightarrow> int \<Rightarrow> 'p exn + evm_tx option" where
  "vault_approve lib ch plan nonce max_fee_per_gas priority =
     (if ev_source_token plan = [] then Inr None
      else
        bind_res (checksummed lib (ev_source_token plan)) (\<lambda>token.
        bind_res (checksummed lib (ev_vault_contract plan)) (\<lambda>spender.
        bind_res (encode_approve lib spender (ev_source_amount plan)) (\<lambda>data.
          Inr (Some (mk_tx ch nonce token 0 APPROVE_GAS max_fee_per_gas priority data))))))"

definition vault_call_tx ::
  "evm_chain \<Rightarrow> chainflip_evm_vault_plan \<Rightarrow> pystr \<Rightarrow> int \<Rightarrow> int \<Rightarrow> int \<Rightarrow> evm_tx option \<Rightarrow> evm_tx" where
  "vault_call_tx ch plan vault nonce max_fee_per_gas priority approve =
     mk_tx ch (if approve = None then nonce else nonce + 1) vault (ev_value plan)
       (if ev_source_token plan = [] then VAULT_SWAP_GAS else VAULT_SWAP_TOKEN_GAS)
       max_fee_per_gas priority (lit ''0x'' @ py_hex (ev_calldata plan))"

text \<open>The gate of a vault swap may raise on calldata that is no hex.\<close>

definition evm_build_and_verify_vault_swap ::
  "'k eth_libs \<Rightarrow> evm_chain \<Rightarrow> chainflip_evm_vault_plan \<Rightarrow> int \<Rightarrow> int \<Rightarrow> int \<Rightarrow> int \<Rightarrow> int \<Rightarrow> pystr
   \<Rightarrow> 'p exn + 'k evm_prepared" where
  "evm_build_and_verify_vault_swap lib ch plan now nonce max_fee_per_gas priority max_fee_wei path =
     bind_res (vault_approve lib ch plan nonce max_fee_per_gas priority) (\<lambda>approve.
     bind_res (checksummed lib (ev_vault_contract plan)) (\<lambda>vault.
       let swap = vault_call_tx ch plan vault nonce max_fee_per_gas priority approve in
       case verify_chainflip_evm_vault_swap (el_decode_call lib) (eth_tx.truncate swap)
           (map_option eth_tx.truncate approve) plan now max_fee_wei (snd (el_key lib path)) of
         None \<Rightarrow> Inl (PyExn ValueError)
       | Some problems \<Rightarrow>
           Inr \<lparr>pr_quote = None,
                pr_built = VaultBuilt \<lparr>evb_swap = swap, evb_key = fst (el_key lib path), evb_approve = approve\<rparr>,
                pr_plan = EvmVaultIntent plan, pr_problems = map TokenGate problems\<rparr>))"

section \<open>Signing and broadcast\<close>

definition evm_sign :: "'k eth_libs \<Rightarrow> 'k evm_built \<Rightarrow> pystr list" where
  "evm_sign lib b = map (\<lambda>tx. lit ''0x'' @ py_hex (el_sign lib tx (evm_key b))) (evm_txs b)"

text \<open>\<open>except RuntimeError\<close>: what the node refused becomes a broadcast error, what the transport raised does not.\<close>

definition rejected_broadcast :: "'p exn \<Rightarrow> ('w, 'p, 'a) io option" where
  "rejected_broadcast exc = (case exc of RpcRaised r \<Rightarrow> Some (raise (RpcBroadcast r)) | _ \<Rightarrow> None)"

fun evm_broadcast_loop :: "('w, 'p) cf_rpc \<Rightarrow> json \<Rightarrow> pystr list \<Rightarrow> ('w, 'p, json) io" where
  "evm_broadcast_loop rpc txhash [] = ret txhash"
| "evm_broadcast_loop rpc txhash (raw # raws) =
     and_then (try_call (rpc (lit ''eth_sendRawTransaction'') [JStr raw]) rejected_broadcast) (\<lambda>txhash.
       evm_broadcast_loop rpc txhash raws)"

definition evm_broadcast :: "py_libs \<Rightarrow> ('w, 'p) cf_rpc \<Rightarrow> pystr list \<Rightarrow> ('w, 'p, pystr) io" where
  "evm_broadcast pl rpc raws = and_then (evm_broadcast_loop rpc (JStr []) raws) (\<lambda>r. ret (py_str pl r))"

section \<open>What is relied on\<close>

text \<open>
  \<open>eth_abi\<close> decodes what it encoded, an address up to letter case; a digest is 32 bytes.
\<close>

definition eth_abi_ok :: "'k eth_libs \<Rightarrow> bool" where
  "eth_abi_ok lib \<longleftrightarrow>
     (\<forall>a n bs. prefix (lit ''0x'') a \<and> el_encode_call lib a n = Some bs \<longrightarrow>
        (\<exists>a'. el_decode_call lib bs = Some (a', n) \<and> py_lower a' = py_lower a))
   \<and> (\<forall>v t n m e bs. prefix (lit ''0x'') v \<and> prefix (lit ''0x'') t \<and> el_encode_deposit lib v t n m e = Some bs \<longrightarrow>
        (\<exists>v' t'. el_decode_deposit lib bs = Some (v', t', n, m, e) \<and> py_lower v' = py_lower v
           \<and> py_lower t' = py_lower t))
   \<and> (\<forall>b. length (el_keccak lib b) = 32)"

text \<open>A 20-byte address as the APIs write it.\<close>

definition hex_address :: "pystr \<Rightarrow> bool" where
  "hex_address a \<longleftrightarrow> (\<exists>s. a = lit ''0x'' @ s \<and> list_all hex_char s \<and> length s = 40)"

lemma checksummed_Inr: "checksummed lib a = Inr c \<longleftrightarrow> to_checksum_address (el_keccak lib) a = Some c"
  by (simp add: checksummed_def split: option.split)

lemma encoded_Inr:
  "encoded selector args = Inr data \<longleftrightarrow> (\<exists>bs. args = Some bs \<and> data = lit ''0x'' @ selector @ py_hex bs)"
  by (auto simp: encoded_def split: option.split)

lemma checksummed_prefix: "to_checksum_address keccak a = Some c \<Longrightarrow> prefix (lit ''0x'') c"
  by (auto simp: to_checksum_address_def checksum_of_bytes_def Let_def split: option.splits)

lemma checksummed_lower:
  assumes "eth_abi_ok lib" "hex_address a" "to_checksum_address (el_keccak lib) a = Some c"
  shows "py_lower c = py_lower a"
proof -
  obtain s where a: "a = lit ''0x'' @ s" "list_all hex_char s" "length s = 40"
    using assms(2) unfolding hex_address_def by blast
  have "length s \<le> 2 * length (el_keccak lib (utf8_encode (py_lower s)))"
    using assms(1) a(3) by (simp add: eth_abi_ok_def)
  note low = lower_eip55_case [of s "el_keccak lib", OF a(2) this]
  have "c = lit ''0x'' @ eip55_case (el_keccak lib) (py_lower s)"
    using to_checksum_hex [of s "el_keccak lib"] a assms(3) by simp
  then show ?thesis using low by (simp add: a(1) py_lower_def)
qed

lemma selectors:
  "APPROVE_SELECTOR = py_hex [0x09, 0x5e, 0xa7, 0xb3]" "DEPOSIT_SELECTOR = py_hex [0x44, 0xbc, 0x93, 0x7b]"
  "TRANSFER_SELECTOR = py_hex [0xa9, 0x05, 0x9c, 0xbb]"
  by code_simp+

lemma decode_encoded:
  assumes "selector = py_hex sb" "length sb = 4"
  shows "decode_call dec (lit ''0x'' @ selector @ py_hex bs) selector = dec bs"
proof -
  have "selector @ py_hex bs = py_hex (sb @ bs)" by (simp add: assms(1) py_hex_def)
  then show ?thesis
    using assms(2) by (simp add: decode_call_def py_removeprefix_def py_fromhex_hex slice_def assms(1))
qed

lemmas decode_calls = selectors [THEN decode_encoded, simplified]

lemma abi_call:
  assumes "eth_abi_ok lib" "el_encode_call lib a n = Some bs" "prefix (lit ''0x'') a"
  obtains a' where "el_decode_call lib bs = Some (a', n)" "py_lower a' = py_lower a"
  using assms unfolding eth_abi_ok_def by blast

lemma abi_deposit:
  assumes "eth_abi_ok lib" "el_encode_deposit lib v t n m e = Some bs" "prefix (lit ''0x'') v" "prefix (lit ''0x'') t"
  obtains v' t' where "el_decode_deposit lib bs = Some (v', t', n, m, e)" "py_lower v' = py_lower v"
    "py_lower t' = py_lower t"
  using assms unfolding eth_abi_ok_def by blast

section \<open>What was built passes its gate\<close>

lemma truncate_mk [simp]:
  "eth_tx.truncate (mk_tx ch nonce to amount gas mf pr data) =
     \<lparr>tx_to = to, tx_value = amount, tx_chain_id = ec_chain_id ch, tx_gas = gas, tx_max_fee = mf, tx_data = data\<rparr>"
  by (simp add: mk_tx_def eth_tx.truncate_def)

lemma native_gate:
  assumes "eth_abi_ok lib" "hex_address v"
    and "evm_build_unsigned_swap lib ch path v n m nonce gas mf pr = Inr b"
  shows "pr_problems (native_prepared q b \<lparr>esp_inbound = v, esp_amount_wei = n * WEI_PER_THORCHAIN_UNIT,
      esp_memo = m, esp_expiry = e, esp_chain_id = ec_chain_id ch, esp_destination = d\<rparr> now cap) = []
    \<longleftrightarrow> now < e \<and> memo_pays_destination d (MemoText m) \<and> evm_fee (NativeBuilt b) \<le> cap"
proof -
  from assms(3) obtain to where to: "to_checksum_address (el_keccak lib) v = Some to"
    and b: "ebs_tx b = mk_tx ch nonce to (n * WEI_PER_THORCHAIN_UNIT) gas mf pr (lit ''0x'' @ py_hex (utf8_encode m))"
      "ebs_to b = to" "ebs_value b = n * WEI_PER_THORCHAIN_UNIT" "ebs_data b = lit ''0x'' @ py_hex (utf8_encode m)"
      "ebs_chain_id b = ec_chain_id ch" "ebs_gas b = gas" "ebs_max_fee b = mf"
    by (auto simp: evm_build_unsigned_swap_def bind_res_eq_Inr py_encode_def checksummed_Inr Let_def split: if_splits)
  note low = checksummed_lower [OF assms(1,2) to]
  have "py_lower (lit ''0x'' @ py_hex bs) = lit ''0x'' @ py_hex bs" for bs
    using py_lower_0x py_lower_hex [of bs] by (simp add: py_lower_def)
  then show ?thesis
    by (simp add: native_prepared_def verify_eth_swap_silent b low evm_fee_def txs_fee_def)
qed

lemma token_gate:
  assumes "eth_abi_ok lib" "build_token_deposit lib ch t r v n m e nonce mf pr = Inr b"
  shows "pr_problems (token_prepared lib q b d now cap) = []
    \<longleftrightarrow> now < e \<and> memo_pays_destination d (MemoText m) \<and> evm_fee (TokenBuilt b) \<le> cap"
proof -
  from assms(2) obtain t1 r1 v1 ab db where c: "to_checksum_address (el_keccak lib) t = Some t1"
      "to_checksum_address (el_keccak lib) r = Some r1" "to_checksum_address (el_keccak lib) v = Some v1"
      "el_encode_call lib r1 n = Some ab" "el_encode_deposit lib v1 t1 n m e = Some db"
    and b: "etk_approve b = mk_tx ch nonce t1 0 APPROVE_GAS mf pr (lit ''0x'' @ APPROVE_SELECTOR @ py_hex ab)"
      "etk_deposit b = mk_tx ch (nonce + 1) r1 0 TOKEN_DEPOSIT_GAS mf pr (lit ''0x'' @ DEPOSIT_SELECTOR @ py_hex db)"
      "etk_token b = t1" "etk_router b = r1" "etk_vault b = v1" "etk_native_amount b = n" "etk_memo b = m"
      "etk_expiry b = e" "etk_chain_id b = ec_chain_id ch"
    by (auto simp: build_token_deposit_def bind_res_eq_Inr checksummed_Inr encode_approve_def encode_deposit_def
        encoded_Inr)
  note px = c(1-3) [THEN checksummed_prefix]
  obtain a' where a: "el_decode_call lib ab = Some (a', n)" "py_lower a' = py_lower r1"
    by (rule abi_call [OF assms(1) c(4) px(2)])
  obtain v' t' where dep: "el_decode_deposit lib db = Some (v', t', n, m, e)"
    "py_lower v' = py_lower v1" "py_lower t' = py_lower t1"
    by (rule abi_deposit [OF assms(1) c(5) px(3,1)])
  show ?thesis
    by (simp add: token_prepared_def verify_eth_token_swap_safe token_view_def b decode_calls a dep evm_fee_def)
qed

lemma native_send_gate:
  assumes "evm_build_unsigned_swap lib ch path v n [] nonce gas mf pr = Inr b"
  shows "verify_eth_send (ebs_to b) (ebs_value b) (ebs_data b) (ebs_chain_id b) (ebs_gas b) (ebs_max_fee b)
      \<lparr>esn_recipient = ebs_to b, esn_amount_wei = n * WEI_PER_THORCHAIN_UNIT, esn_chain_id = ec_chain_id ch\<rparr> cap = []
    \<longleftrightarrow> evm_fee (NativeBuilt b) \<le> cap"
  using assms
  by (auto simp: evm_build_unsigned_swap_def bind_res_eq_Inr py_encode_def Let_def verify_eth_send_def
      gas_check_silent evm_fee_def txs_fee_def utf8_encode_def split: if_splits)

lemma token_send_gate:
  assumes "eth_abi_ok lib" "to_checksum_address (el_keccak lib) recipient = Some to"
    and "el_encode_call lib to native = Some bs"
  obtains d where "el_decode_call lib bs = Some (d, native)"
    "verify_eth_token_send token 0 (ec_chain_id ch) d native TOKEN_TRANSFER_GAS mf
      \<lparr>ets_token = token, ets_recipient = to, ets_amount = native, ets_chain_id = ec_chain_id ch\<rparr> cap = []
     \<longleftrightarrow> TOKEN_TRANSFER_GAS * mf \<le> cap"
proof -
  obtain d where d: "el_decode_call lib bs = Some (d, native)" "py_lower d = py_lower to"
    by (rule abi_call [OF assms(1,3) checksummed_prefix [OF assms(2)]])
  show thesis by (rule that [OF d(1)]) (simp add: verify_eth_token_send_def gas_check_silent d(2))
qed

lemma approvals_gate:
  assumes "eth_abi_ok lib" "prefix (lit ''0x'') spender"
    and "approval_txs lib ch token spender nonce mf pr (approval_amounts cur amount) = Inr txs"
  shows "verify_eth_approvals (el_decode_call lib)
      (approvals_view \<lparr>eab_txs = txs, eab_key = k, eab_token = token, eab_spender = spender, eab_amount = amount,
         eab_chain_id = ec_chain_id ch\<rparr>) cap = []
    \<longleftrightarrow> txs_fee (map eth_tx.truncate txs) \<le> cap"
proof -
  have reads: "\<exists>a'. el_decode_call lib bs = Some (a', n) \<and> py_lower a' = py_lower spender"
    if "el_encode_call lib spender n = Some bs" for n bs
    using abi_call [OF assms(1) that assms(2)] by blast
  consider "approval_amounts cur amount = []" | "approval_amounts cur amount = [amount]"
    | "approval_amounts cur amount = [0, amount]"
    by (cases "cur < amount"; cases "0 < cur") (auto simp: approval_amounts_def)
  then show ?thesis
  proof cases
    case 1
    with assms(3) show ?thesis by (simp add: verify_eth_approvals_safe approvals_view_def)
  next
    case 2
    with assms(3) obtain bs where "el_encode_call lib spender amount = Some bs"
      "txs = [mk_tx ch nonce token 0 APPROVE_GAS mf pr (lit ''0x'' @ APPROVE_SELECTOR @ py_hex bs)]"
      by (auto simp: bind_res_eq_Inr encode_approve_def encoded_Inr)
    with reads show ?thesis
      by (fastforce simp: verify_eth_approvals_safe approvals_view_def decode_calls)
  next
    case 3
    with assms(3) obtain b0 b1 where "el_encode_call lib spender 0 = Some b0" "el_encode_call lib spender amount = Some b1"
      "txs = [mk_tx ch nonce token 0 APPROVE_GAS mf pr (lit ''0x'' @ APPROVE_SELECTOR @ py_hex b0),
              mk_tx ch (nonce + 1) token 0 APPROVE_GAS mf pr (lit ''0x'' @ APPROVE_SELECTOR @ py_hex b1)]"
      by (auto simp: bind_res_eq_Inr encode_approve_def encoded_Inr)
    with reads show ?thesis
      by (fastforce simp: verify_eth_approvals_safe approvals_view_def decode_calls)
  qed
qed

text \<open>
  C17: The EVM adapter never makes what its gate refuses, except for reasons that are not its own.
  With \<open>eth_abi\<close> inverse on what it encodes, a swap that was built, native or from a token, is
  safe exactly when the quote is unexpired, its memo names the destination and the worst-case gas
  of all its transactions is within the cap; for a liquidity deposit, a send of the coin or of a
  token, and a batch of approvals, only the gas is left to judge.
\<close>

theorem evm_transactions_pass:
  assumes "eth_abi_ok lib"
  shows "(q_inbound_address q = JStr v \<and> hex_address v \<and> q_memo q = JStr m
      \<and> evm_build_and_verify lib ch rpc q r now nonce gas mf pr cap w = (Inr p, w')
      \<longrightarrow> (safe p \<longleftrightarrow> now < q_expiry q \<and> memo_pays_destination (sr_destination r) (MemoText m)
             \<and> evm_fee (pr_built p) \<le> cap))
   \<and> (hex_address v \<and> evm_build_and_verify_deposit lib ch rpc v m n now nonce gas mf pr cap router token w = (Inr p, w')
      \<longrightarrow> (safe p \<longleftrightarrow> evm_fee (pr_built p) \<le> cap))
   \<and> (evm_build_and_verify_send lib ch rpc v n asset nonce mf pr cap path w = (Inr p, w')
      \<longrightarrow> (safe p \<longleftrightarrow> evm_fee (pr_built p) \<le> cap))
   \<and> (build_and_verify_approvals lib ch contract spender n allowance nonce mf pr cap path = Inr p
      \<longrightarrow> (safe p \<longleftrightarrow> evm_fee (pr_built p) \<le> cap))"
proof (intro conjI impI; (elim conjE)?)
  assume q: "q_inbound_address q = JStr v" "q_memo q = JStr m" and v: "hex_address v"
    and run: "evm_build_and_verify lib ch rpc q r now nonce gas mf pr cap w = (Inr p, w')"
  have memo: "quote_text e (JStr m) = Inr x \<longleftrightarrow> x = m" for e :: "'b exn" and x
    by (auto simp: quote_text_def)
  show "safe p \<longleftrightarrow> now < q_expiry q \<and> memo_pays_destination (sr_destination r) (MemoText m)
      \<and> evm_fee (pr_built p) \<le> cap"
  proof (cases "45 \<in> set (sr_from_asset r)")
    case True
    with run obtain decimals b where "build_token_swap lib ch r q nonce mf pr decimals = (Inr b :: 'b exn + _)"
      and p: "p = token_prepared lib (Some q) b (sr_destination r) now cap"
      by (auto simp: evm_build_and_verify_def io_reached cf_reached)
    then obtain t r1 native where "build_token_deposit lib ch t r1 v native m (q_expiry q) nonce mf pr = (Inr b :: 'b exn + _)"
      by (auto simp: build_token_swap_def bind_res_eq_Inr q memo)
    from token_gate [OF assms this] show ?thesis unfolding safe_def p by (simp add: token_prepared_def)
  next
    case False
    with run obtain b where "evm_build_unsigned_swap lib ch DEFAULT_ETH_DERIVATION v (sr_amount r) m nonce gas mf pr
        = (Inr b :: 'b exn + _)"
      and p: "p = native_prepared (Some q) b \<lparr>esp_inbound = v,
        esp_amount_wei = sr_amount r * WEI_PER_THORCHAIN_UNIT, esp_memo = m, esp_expiry = q_expiry q,
        esp_chain_id = ec_chain_id ch, esp_destination = sr_destination r\<rparr> now cap"
      by (auto simp: evm_build_and_verify_def io_reached cf_reached q memo)
    from native_gate [OF assms v this(1)] show ?thesis unfolding safe_def p by (simp add: native_prepared_def)
  qed
next
  assume v: "hex_address v"
    and run: "evm_build_and_verify_deposit lib ch rpc v m n now nonce gas mf pr cap router token w = (Inr p, w')"
  show "safe p \<longleftrightarrow> evm_fee (pr_built p) \<le> cap"
  proof (cases token)
    case (Some t)
    with run obtain native b where
      "build_token_deposit lib ch t (the router) v native m (now + 3600) nonce mf pr = (Inr b :: 'b exn + _)"
      and p: "p = token_prepared lib None b [] now cap"
      by (auto simp: evm_build_and_verify_deposit_def io_reached cf_reached split: if_splits)
    from token_gate [OF assms this(1)] show ?thesis
      unfolding safe_def p by (simp add: token_prepared_def memo_pays_destination_def)
  next
    case None
    with run obtain b where "evm_build_unsigned_swap lib ch DEFAULT_ETH_DERIVATION v n m nonce gas mf pr
        = (Inr b :: 'b exn + _)"
      and p: "p = native_prepared None b \<lparr>esp_inbound = v, esp_amount_wei = n * WEI_PER_THORCHAIN_UNIT,
        esp_memo = m, esp_expiry = now + 3600, esp_chain_id = ec_chain_id ch, esp_destination = []\<rparr> now cap"
      by (auto simp: evm_build_and_verify_deposit_def io_reached cf_reached split: if_splits)
    from native_gate [OF assms v this(1)] show ?thesis
      unfolding safe_def p by (simp add: native_prepared_def memo_pays_destination_def)
  qed
next
  assume run: "evm_build_and_verify_send lib ch rpc v n asset nonce mf pr cap path w = (Inr p, w')"
  show "safe p \<longleftrightarrow> evm_fee (pr_built p) \<le> cap"
  proof (cases "45 \<in> set asset")
    case True
    with run obtain t to native bs b where c: "to_checksum_address (el_keccak lib) v = Some to"
        "el_encode_call lib to native = Some bs"
      and b: "b = \<lparr>ebs_tx = mk_tx ch nonce t 0 TOKEN_TRANSFER_GAS mf pr
          (lit ''0x'' @ TRANSFER_SELECTOR @ py_hex bs), ebs_key = fst (el_key lib path), ebs_to = t, ebs_value = 0,
          ebs_data = lit ''0x'' @ TRANSFER_SELECTOR @ py_hex bs, ebs_chain_id = ec_chain_id ch,
          ebs_gas = TOKEN_TRANSFER_GAS, ebs_max_fee = mf\<rparr>"
      and p: "pr_built p = NativeBuilt b"
        "pr_problems p = (case el_decode_call lib bs of None \<Rightarrow> [TransferUndecodable]
           | Some (d_recipient, d_amount) \<Rightarrow>
               map NativeGate (verify_eth_token_send (ebs_to b) (ebs_value b) (ebs_chain_id b) d_recipient d_amount
                 (ebs_gas b) (ebs_max_fee b)
                 \<lparr>ets_token = t, ets_recipient = to, ets_amount = native, ets_chain_id = ec_chain_id ch\<rparr> cap))"
      by (auto simp: evm_build_and_verify_send_def evm_build_and_verify_token_send_def io_reached cf_reached
          checksummed_Inr encode_transfer_def encoded_Inr Let_def decode_calls)
    obtain d where d: "el_decode_call lib bs = Some (d, native)"
      "verify_eth_token_send t 0 (ec_chain_id ch) d native TOKEN_TRANSFER_GAS mf
        \<lparr>ets_token = t, ets_recipient = to, ets_amount = native, ets_chain_id = ec_chain_id ch\<rparr> cap = []
       \<longleftrightarrow> TOKEN_TRANSFER_GAS * mf \<le> cap"
      by (rule token_send_gate [OF assms c])
    show ?thesis unfolding safe_def p by (simp add: b d evm_fee_def txs_fee_def)
  next
    case False
    with run obtain b where b: "evm_build_unsigned_swap lib ch path v n [] nonce (ec_native_send_gas ch) mf pr
        = (Inr b :: 'b exn + _)"
      and p: "pr_built p = NativeBuilt b" "pr_problems p = map NativeGate (verify_eth_send (ebs_to b) (ebs_value b)
        (ebs_data b) (ebs_chain_id b) (ebs_gas b) (ebs_max_fee b) \<lparr>esn_recipient = ebs_to b,
        esn_amount_wei = n * WEI_PER_THORCHAIN_UNIT, esn_chain_id = ec_chain_id ch\<rparr> cap)"
      by (auto simp: evm_build_and_verify_send_def io_reached cf_reached Let_def)
    show ?thesis unfolding safe_def p using native_send_gate [OF b] by simp
  qed
next
  assume "build_and_verify_approvals lib ch contract spender n allowance nonce mf pr cap path = Inr p"
  then obtain t sp txs where sp: "to_checksum_address (el_keccak lib) spender = Some sp"
    and txs: "approval_txs lib ch t sp nonce mf pr (approval_amounts allowance n) = (Inr txs :: 'e exn + _)"
    and p: "pr_built p = ApprovalsBuilt \<lparr>eab_txs = txs, eab_key = fst (el_key lib path), eab_token = t,
        eab_spender = sp, eab_amount = n, eab_chain_id = ec_chain_id ch\<rparr>"
      "pr_problems p = map TokenGate (verify_eth_approvals (el_decode_call lib) (approvals_view
        \<lparr>eab_txs = txs, eab_key = fst (el_key lib path), eab_token = t,
        eab_spender = sp, eab_amount = n, eab_chain_id = ec_chain_id ch\<rparr>) cap)"
    by (auto simp: build_and_verify_approvals_def bind_res_eq_Inr checksummed_Inr Let_def)
  show "safe p \<longleftrightarrow> evm_fee (pr_built p) \<le> cap"
    unfolding safe_def p using approvals_gate [OF assms checksummed_prefix [OF sp] txs] by (simp add: evm_fee_def)
qed

section \<open>A prepared vault swap and its transaction\<close>

lemma prepare_evm_vault_swap_Inr:
  assumes "prepare_evm_vault_swap pl keccak call from_asset to_asset dest refund n q bps w = (Inr evs, w')"
  obtains price m raw where "vault_chain from_asset \<in> set EVM_VAULT_CHAINS" "0 < n" "cfq_deposit_amount q = n"
    "destination_bytes to_asset dest = Inr (evs_destination_bytes evs)"
    "map_of VAULT_SWAP_ASSET_IDS to_asset = Some (evs_destination_asset_id evs)"
    "map_of VAULT_SWAP_CHAIN_IDS (vault_chain to_asset) = Some (evs_destination_chain_id evs)"
    "min_price q bps = Inr (price, m)" "evs_min_price evs = price"
    "length raw = 20" "evs_known_vaults evs = {py_lower (checksum_of_bytes keccak raw)}"
    "evs_vault_contract evs \<in> evs_known_vaults evs" "evs_source_token evs = token_contract from_asset"
    "evs_source_amount evs = n" "evs_retry_duration evs = 100"
    "map_of EVM_CHAIN_IDS (vault_chain from_asset) = Some (evs_source_chain_id evs)"
    "check_evm_call (evs_calldata evs) (evs_value evs) n (token_contract from_asset) dest (evs_destination_bytes evs)
       (evs_destination_asset_id evs) (evs_destination_chain_id evs) refund price 100 = Inr ()"
proof -
  from assms obtain expected asset_id chain_id floors vaults w1 w2 u source_chain_id and enc :: "pystr \<times> bytes \<times> int \<times> pystr"
    where r: "vault_chain from_asset \<in> set EVM_VAULT_CHAINS" "\<not> n \<le> 0" "cfq_deposit_amount q = n"
      "destination_bytes to_asset dest = Inr expected" "map_of VAULT_SWAP_ASSET_IDS to_asset = Some asset_id"
      "map_of VAULT_SWAP_CHAIN_IDS (vault_chain to_asset) = Some chain_id" "min_price q bps = Inr floors"
      "evm_vault_addresses keccak call (vault_chain from_asset) w1 = (Inr vaults, w2)"
      "fst enc \<in> vaults" 
      "check_evm_call (fst (snd enc)) (fst (snd (snd enc))) n (token_contract from_asset) dest expected
         asset_id chain_id refund (fst floors) DEFAULT_RETRY_DURATION_BLOCKS = Inr u"
      "map_of EVM_CHAIN_IDS (vault_chain from_asset) = Some source_chain_id"
    and evs: "evs = \<lparr>evs_vault_contract = fst enc, evs_calldata = fst (snd enc), evs_value = fst (snd (snd enc)),
            evs_source_token = token_contract from_asset, evs_source_amount = n, evs_known_vaults = vaults,
            evs_destination_chain_id = chain_id, evs_destination_asset_id = asset_id,
            evs_destination_bytes = expected, evs_refund_address = refund,
            evs_min_price = fst floors, evs_retry_duration = DEFAULT_RETRY_DURATION_BLOCKS,
            evs_min_output_amount = snd floors, evs_source_chain_id = source_chain_id\<rparr>"
    unfolding prepare_evm_vault_swap_def split_beta Let_def
    by - (elim and_thenE, simp only: io_Inr_iff cf_reached not_not, elim conjE, rule that,
          (assumption | erule sym)+)
  from r(8) obtain raw where "length raw = 20" "vaults = {py_lower (checksum_of_bytes keccak raw)}"
    by (auto simp: evm_vault_addresses_def and_then_Inr cf_reached io_Inr_iff split: if_splits)
  with r show thesis
    by (intro that [of "fst floors" "snd floors" raw]) (auto simp: evs DEFAULT_RETRY_DURATION_BLOCKS_def)
qed

lemma published_vault:
  assumes "eth_abi_ok lib" "length raw = 20"
  shows "py_lower (checksum_of_bytes (el_keccak lib) raw) = lit ''0x'' @ py_hex raw"
    "hex_address (lit ''0x'' @ py_hex raw)"
proof -
  have h: "list_all hex_char (py_hex raw)" "length (py_hex raw) = 40"
    using assms(2) by (auto simp: py_hex_def list_all_iff hex_char_def less_mult_imp_div_less unat_byte_lt length_concat o_def sum_list_triv)
  have "py_lower (eip55_case (el_keccak lib) (py_lower (py_hex raw))) = py_lower (py_hex raw)"
    by (rule lower_eip55_case) (use h assms(1) in \<open>simp_all add: eth_abi_ok_def\<close>)
  then have low: "py_lower (eip55_case (el_keccak lib) (py_hex raw)) = py_hex raw" by simp
  have app: "py_lower (s @ t) = py_lower s @ py_lower t" for s t by (simp add: py_lower_def)
  show "py_lower (checksum_of_bytes (el_keccak lib) raw) = lit ''0x'' @ py_hex raw"
    unfolding checksum_of_bytes_def app low by simp
  show "hex_address (lit ''0x'' @ py_hex raw)" using h unfolding hex_address_def by blast
qed

lemma listed_tokens:
  assumes "vault_chain a \<in> set EVM_VAULT_CHAINS" "token_contract a \<noteq> []"
  shows "hex_address (token_contract a)"
proof -
  have all: "list_all (\<lambda>a. vault_chain a \<notin> set EVM_VAULT_CHAINS \<or> token_contract a = []
      \<or> take 2 (token_contract a) = lit ''0x'' \<and> list_all hex_char (drop 2 (token_contract a))
         \<and> length (drop 2 (token_contract a)) = 40) (map fst CHAINFLIP_ASSETS)"
    by code_simp
  obtain x where "map_of CHAINFLIP_ASSETS a = Some x"
    using assms(1) by (auto simp: vault_chain_def EVM_VAULT_CHAINS_def lit_def split: option.splits)
  then have "a \<in> set (map fst CHAINFLIP_ASSETS)" by (force dest: map_of_SomeD)
  with all assms have t: "take 2 (token_contract a) = lit ''0x''" "list_all hex_char (drop 2 (token_contract a))"
    "length (drop 2 (token_contract a)) = 40"
    by (auto simp: list_all_iff)
  have "token_contract a = lit ''0x'' @ drop 2 (token_contract a)"
    using t(1) append_take_drop_id [of 2 "token_contract a"] by metis
  with t show ?thesis unfolding hex_address_def by blast
qed

text \<open>What the gate says of a transaction whose calldata can be read.\<close>

lemma evm_vault_gate:
  assumes "tx_data swap = lit ''0x'' @ py_hex (ev_calldata plan)" "decode_evm_vault_call (ev_calldata plan) = Some call"
  shows "\<exists>problems. verify_chainflip_evm_vault_swap abi swap approve plan now cap owned = Some problems
    \<and> (problems = [] \<longleftrightarrow> now < ev_expiry plan \<and> py_lower (ev_vault_contract plan) \<in> ev_known_vaults plan
      \<and> py_lower (tx_to swap) = py_lower (ev_vault_contract plan) \<and> tx_value swap = ev_value plan
      \<and> (ev_source_token plan \<noteq> [] \<longrightarrow> ev_value plan = 0) \<and> tx_chain_id swap = ev_chain_id plan
      \<and> py_lower (ev_refund_address plan) = py_lower owned
      \<and> verify_vault_approve abi approve plan = [] \<and> call_check call swap plan = []
      \<and> txs_fee (vault_swap_txs approve swap) \<le> cap)"
proof -
  have "py_fromhex (py_removeprefix (lit ''0x'') (tx_data swap)) = Some (ev_calldata plan)"
    by (simp add: assms(1) py_removeprefix_def py_fromhex_hex)
  then show ?thesis
    unfolding verify_chainflip_evm_vault_swap_def Let_def
    by (simp add: assms not_less)
qed

lemma evm_vault_plan_simps [simp]:
  "ev_vault_contract (evm_vault_plan evs a t) = evs_vault_contract evs"
  "ev_calldata (evm_vault_plan evs a t) = evs_calldata evs" "ev_value (evm_vault_plan evs a t) = evs_value evs"
  "ev_source_token (evm_vault_plan evs a t) = evs_source_token evs"
  "ev_source_amount (evm_vault_plan evs a t) = evs_source_amount evs" "ev_expiry (evm_vault_plan evs a t) = t + 600"
  "ev_chain_id (evm_vault_plan evs a t) = evs_source_chain_id evs"
  "ev_destination_chain_id (evm_vault_plan evs a t) = evs_destination_chain_id evs"
  "ev_destination_asset_id (evm_vault_plan evs a t) = evs_destination_asset_id evs"
  "ev_destination_bytes (evm_vault_plan evs a t) = evs_destination_bytes evs"
  "ev_refund_address (evm_vault_plan evs a t) = a" "ev_min_price (evm_vault_plan evs a t) = evs_min_price evs"
  "ev_retry_duration (evm_vault_plan evs a t) = evs_retry_duration evs"
  "ev_known_vaults (evm_vault_plan evs a t) = evs_known_vaults evs"
  by (simp_all add: evm_vault_plan_def VAULT_SWAP_PLAN_TTL_def)

text \<open>
  C16: A vault swap from an EVM chain that was prepared is what the user asked for, and its
  transaction is refused only for reasons the preparation leaves to the gate. The calldata decodes
  to the destination, the asset and the chain of the request and to the source token and amount,
  its parameters refund to the given address at a price at least the floor of the quote, with no
  fees. And the transactions that the adapter makes of it, with the approve a token needs, pass the
  gate exactly when they are in time, on the chain of the swap, the refund address is that of
  the signing key, the gas is within the cap, and the parameters have version 1 and no cross-chain
  message, oracle limit or DCA.
\<close>

theorem evm_vault_swap_passes:
  assumes abi: "eth_abi_ok lib"
    and prep: "prepare_evm_vault_swap pl (el_keccak lib) call from_asset to_asset dest refund n q bps w = (Inr evs, w')"
    and built: "evm_build_and_verify_vault_swap lib ch (evm_vault_plan evs refund t) now nonce mf pr cap path = Inr p"
  shows "\<exists>c d price m. decode_evm_vault_call (evs_calldata evs) = Some c
    \<and> decode_evm_vault_parameters (ec_parameters c) = Some d
    \<and> destination_bytes to_asset dest = Inr (ec_destination c)
    \<and> map_of VAULT_SWAP_ASSET_IDS to_asset = Some (ec_destination_asset_id c)
    \<and> map_of VAULT_SWAP_CHAIN_IDS (vault_chain to_asset) = Some (ec_destination_chain_id c)
    \<and> ec_source_token c = token_contract from_asset
    \<and> (if token_contract from_asset = [] then evs_value evs else int (ec_source_amount c)) = n
    \<and> min_price q bps = Inr (price, m) \<and> price \<le> ep_min_price d
    \<and> py_hex (ep_refund_address d) = py_removeprefix (lit ''0x'') (py_lower refund)
    \<and> ep_broker_fee d = 0 \<and> ep_boost_fee d = 0 \<and> ep_affiliates d = 0
    \<and> (safe p \<longleftrightarrow> now < t + 600 \<and> map_of EVM_CHAIN_IDS (vault_chain from_asset) = Some (ec_chain_id ch)
         \<and> py_lower refund = py_lower (snd (el_key lib path)) \<and> evm_fee (pr_built p) \<le> cap
         \<and> ep_version d = 1 \<and> ep_ccm d = 0 \<and> ep_oracle_slippage d = 0 \<and> ep_dca d = 0)"
proof -
  from prep obtain price m raw where e: "vault_chain from_asset \<in> set EVM_VAULT_CHAINS"
    "destination_bytes to_asset dest = Inr (evs_destination_bytes evs)"
    "map_of VAULT_SWAP_ASSET_IDS to_asset = Some (evs_destination_asset_id evs)"
    "map_of VAULT_SWAP_CHAIN_IDS (vault_chain to_asset) = Some (evs_destination_chain_id evs)"
    "min_price q bps = Inr (price, m)" "evs_min_price evs = price"
    "length raw = 20" "evs_known_vaults evs = {py_lower (checksum_of_bytes (el_keccak lib) raw)}"
    "evs_vault_contract evs \<in> evs_known_vaults evs" "evs_source_token evs = token_contract from_asset"
    "evs_source_amount evs = n" "evs_retry_duration evs = 100"
    "map_of EVM_CHAIN_IDS (vault_chain from_asset) = Some (evs_source_chain_id evs)"
    "check_evm_call (evs_calldata evs) (evs_value evs) n (token_contract from_asset) dest (evs_destination_bytes evs)
       (evs_destination_asset_id evs) (evs_destination_chain_id evs) refund price 100 = Inr ()"
    by (rule prepare_evm_vault_swap_Inr)
  let ?token = "token_contract from_asset" and ?plan = "evm_vault_plan evs refund t"
  from e(14) obtain c where c: "decode_evm_vault_call (evs_calldata evs) = Some c" "ec_source_token c = ?token"
      "if ?token \<noteq> [] then int (ec_source_amount c) = n \<and> evs_value evs = 0
       else evs_value evs = n \<and> ec_source_amount c = 0"
      "ec_destination c = evs_destination_bytes evs" "ec_destination_asset_id c = evs_destination_asset_id evs"
      "ec_destination_chain_id c = evs_destination_chain_id evs"
      "check_evm_parameters (ec_parameters c) refund price 100 = Inr ()"
    unfolding check_evm_call_Inr by blast
  from c(7) obtain d where d: "decode_evm_vault_parameters (ec_parameters c) = Some d"
    "py_hex (ep_refund_address d) = py_removeprefix (lit ''0x'') (py_lower refund)"
    "price \<le> ep_min_price d" "ep_retry_duration d = 100" "ep_broker_fee d = 0" "ep_boost_fee d = 0" "ep_affiliates d = 0"
    unfolding check_evm_parameters_Inr by blast
  note vault = published_vault [OF abi e(7)]
  have contract: "evs_vault_contract evs = lit ''0x'' @ py_hex raw" using e(8,9) vault(1) by simp
  from built obtain approve to where
    ap: "vault_approve lib ch ?plan nonce mf pr = (Inr approve :: 'd exn + _)"
    and to: "to_checksum_address (el_keccak lib) (evs_vault_contract evs) = Some to"
    and run: "(case verify_chainflip_evm_vault_swap (el_decode_call lib)
        (eth_tx.truncate (vault_call_tx ch ?plan to nonce mf pr approve))
        (map_option eth_tx.truncate approve) ?plan now cap (snd (el_key lib path)) of
         None \<Rightarrow> Inl (PyExn ValueError)
       | Some problems \<Rightarrow>
           Inr \<lparr>pr_quote = None,
                pr_built = VaultBuilt \<lparr>evb_swap = vault_call_tx ch ?plan to nonce mf pr approve,
                  evb_key = fst (el_key lib path), evb_approve = approve\<rparr>,
                pr_plan = EvmVaultIntent ?plan, pr_problems = map TokenGate problems\<rparr>) = (Inr p :: 'd exn + _)"
    unfolding evm_build_and_verify_vault_swap_def bind_res_eq_Inr checksummed_Inr Let_def evm_vault_plan_simps
    by blast
  define swap where "swap = eth_tx.truncate (vault_call_tx ch ?plan to nonce mf pr approve)"
  from run obtain problems where g: "verify_chainflip_evm_vault_swap (el_decode_call lib) swap
      (map_option eth_tx.truncate approve) ?plan now cap (snd (el_key lib path)) = Some problems"
    and p: "pr_problems p = map TokenGate problems"
      "pr_built p = VaultBuilt \<lparr>evb_swap = vault_call_tx ch ?plan to nonce mf pr approve,
          evb_key = fst (el_key lib path), evb_approve = approve\<rparr>"
    unfolding swap_def by (auto split: option.splits)
  have low: "py_lower to = evs_vault_contract evs"
    using checksummed_lower [OF abi vault(2)] to contract py_lower_0x by simp
  have sw: "tx_data swap = lit ''0x'' @ py_hex (ev_calldata ?plan)" "tx_to swap = to" "tx_value swap = evs_value evs"
    "tx_chain_id swap = ec_chain_id ch"
    by (simp_all add: swap_def vault_call_tx_def)
  have dec: "decode_evm_vault_call (ev_calldata ?plan) = Some c" using c(1) by simp
  have fee: "txs_fee (vault_swap_txs (map_option eth_tx.truncate approve) swap) = evm_fee (pr_built p)"
    by (cases approve) (simp_all add: p(2) evm_fee_def vault_swap_txs_def swap_def)
  have cc: "call_check c swap ?plan = [] \<longleftrightarrow>
      ep_version d = 1 \<and> ep_ccm d = 0 \<and> ep_oracle_slippage d = 0 \<and> ep_dca d = 0"
  proof -
    note inv = decode_evm_params_inv [OF d(1)]
    have "verify_vault_parameters (ec_parameters c) ?plan = [] \<longleftrightarrow>
      ep_version d = 1 \<and> ep_ccm d = 0 \<and> ep_oracle_slippage d = 0 \<and> ep_dca d = 0"
      unfolding verify_vault_parameters_def d(1) option.case append_is_Nil_conv gate_simps Let_def
        EVM_VAULT_PARAMS_VERSION_def evm_vault_plan_simps
      using d(2-7) e(6,12) by auto
    then show ?thesis using c(2-6) e(10,11) sw(3) unfolding call_check_silent by (auto split: if_splits)
  qed
  have apv: "verify_vault_approve (el_decode_call lib) (map_option eth_tx.truncate approve) ?plan = []"
    if chain: "ec_chain_id ch = evs_source_chain_id evs"
  proof (cases "?token = []")
    case True
    then show ?thesis using ap by (simp add: verify_vault_approve_silent vault_approve_def e(10))
  next
    case False
    with ap obtain tk bs where t: "to_checksum_address (el_keccak lib) ?token = Some tk"
        "el_encode_call lib to n = Some bs"
        "approve = Some (mk_tx ch nonce tk 0 APPROVE_GAS mf pr (lit ''0x'' @ APPROVE_SELECTOR @ py_hex bs))"
      by (auto simp: vault_approve_def bind_res_eq_Inr checksummed_Inr encode_approve_def encoded_Inr e(10,11) to)
    obtain a' where "el_decode_call lib bs = Some (a', n)" "py_lower a' = py_lower to"
      by (rule abi_call [OF abi t(2) checksummed_prefix [OF to]])
    then show ?thesis
      using False low checksummed_lower [OF abi listed_tokens [OF e(1) False] t(1)]
      by (simp add: verify_vault_approve_silent t(3) e(10,11) decode_calls chain contract)
  qed
  have "safe p \<longleftrightarrow> now < t + 600 \<and> ec_chain_id ch = evs_source_chain_id evs
         \<and> py_lower refund = py_lower (snd (el_key lib path)) \<and> evm_fee (pr_built p) \<le> cap
         \<and> ep_version d = 1 \<and> ep_ccm d = 0 \<and> ep_oracle_slippage d = 0 \<and> ep_dca d = 0"
  proof -
    have "py_lower (evs_vault_contract evs) \<in> evs_known_vaults evs" using e(8,9) by simp
    moreover have "?token \<noteq> [] \<longrightarrow> evs_value evs = 0" using c(3) by simp
    moreover have "py_lower to = py_lower (evs_vault_contract evs)" using low by (metis py_lower_idem)
    ultimately show ?thesis
      using evm_vault_gate [OF sw(1) dec, of "el_decode_call lib" "map_option eth_tx.truncate approve" now cap
          "snd (el_key lib path)"] g apv
      unfolding safe_def p(1) cc fee sw evm_vault_plan_simps e(10) by auto
  qed
  then have "safe p \<longleftrightarrow> now < t + 600 \<and> map_of EVM_CHAIN_IDS (vault_chain from_asset) = Some (ec_chain_id ch)
         \<and> py_lower refund = py_lower (snd (el_key lib path)) \<and> evm_fee (pr_built p) \<le> cap
         \<and> ep_version d = 1 \<and> ep_ccm d = 0 \<and> ep_oracle_slippage d = 0 \<and> ep_dca d = 0"
    unfolding e(13) option.inject by (simp only: eq_commute [of "ec_chain_id ch"])
  then show ?thesis
    by (intro exI [of _ c] exI [of _ d] exI [of _ price] exI [of _ m] conjI) (use c d e in \<open>simp_all\<close>)
qed

section \<open>A run\<close>

text \<open>
  An instance of the libraries, so that the hypotheses can be met: the ABI of Solidity for the three
  calls, and a digest of zeros.
\<close>

definition abi_address :: "pystr \<Rightarrow> bytes option" where
  "abi_address a =
     (if take 2 a = lit ''0x'' \<and> length a = 42 \<and> list_all hex_char (drop 2 a)
      then map_option ((@) (replicate 12 0)) (py_fromhex (drop 2 a)) else None)"

definition abi_uint :: "int \<Rightarrow> bytes option" where
  "abi_uint n = (if 0 \<le> n \<and> n < 2 ^ 256 then Some (be_bytes 32 n) else None)"

definition read_address :: "bytes \<Rightarrow> nat \<Rightarrow> pystr" where
  "read_address bs i = lit ''0x'' @ py_hex (slice (32 * i + 12) (32 * i + 32) bs)"

definition abi_encode_call :: "pystr \<Rightarrow> int \<Rightarrow> bytes option" where
  "abi_encode_call a n =
     (case (abi_address a, abi_uint n) of (Some a', Some n') \<Rightarrow> Some (a' @ n') | _ \<Rightarrow> None)"

definition abi_decode_call :: "bytes \<Rightarrow> (pystr \<times> int) option" where
  "abi_decode_call bs = (if length bs = 64 then Some (read_address bs 0, int (abi_word bs 1)) else None)"

definition abi_encode_deposit :: "pystr \<Rightarrow> pystr \<Rightarrow> int \<Rightarrow> pystr \<Rightarrow> int \<Rightarrow> bytes option" where
  "abi_encode_deposit v t n m e =
     (case (abi_address v, abi_address t, abi_uint n, abi_uint e) of
        (Some v', Some t', Some n', Some e') \<Rightarrow>
          (if unicode_text m \<and> length (utf8_encode m) < 2 ^ 256
           then Some (v' @ t' @ n' @ be_bytes 32 160 @ e' @ abi_tail (utf8_encode m)) else None)
      | _ \<Rightarrow> None)"

definition abi_decode_deposit :: "bytes \<Rightarrow> (pystr \<times> pystr \<times> int \<times> pystr \<times> int) option" where
  "abi_decode_deposit bs =
     (case map_option utf8_decode (abi_bytes bs (abi_word bs 3) 5) of
        Some (Some m) \<Rightarrow>
          Some (read_address bs 0, read_address bs 1, int (abi_word bs 2), m, int (abi_word bs 4))
      | _ \<Rightarrow> None)"

definition ex_eth_libs :: "unit eth_libs" where
  "ex_eth_libs =
     \<lparr>el_keccak = (\<lambda>_. replicate 32 0), el_key = (\<lambda>_. ((), ex_owned)), el_encode_call = abi_encode_call,
      el_decode_call = abi_decode_call, el_encode_deposit = abi_encode_deposit,
      el_decode_deposit = abi_decode_deposit, el_sign = (\<lambda>_ _. [])\<rparr>"

lemma abi_address_Some:
  assumes "abi_address a = Some bs"
  obtains raw where "bs = replicate 12 0 @ raw" "length raw = 20" "py_lower a = lit ''0x'' @ py_hex raw"
proof -
  from assms obtain raw0 where h: "take 2 a = lit ''0x''" "length a = 42" "list_all hex_char (drop 2 a)"
      "py_fromhex (drop 2 a) = Some raw0" "bs = replicate 12 0 @ raw0"
    by (auto simp: abi_address_def split: if_splits)
  have "even (length (drop 2 a))" using h(2) by simp
  from fromhex_hex_chars [OF h(3) this] h(4) have raw: "py_hex raw0 = py_lower (drop 2 a)" by auto
  have "py_lower a = py_lower (take 2 a) @ py_lower (drop 2 a)"
    unfolding py_lower_def by (metis append_take_drop_id map_append)
  then have low: "py_lower a = lit ''0x'' @ py_hex raw0" unfolding h(1) raw by simp
  have "length (py_hex raw0) = 2 * length raw0" by (simp add: py_hex_def length_concat o_def sum_list_triv)
  moreover have "length (py_hex raw0) = 40" using raw h(2) by (simp add: py_lower_def)
  ultimately show thesis using that [OF h(5) _ low] by simp
qed

lemma abi_uint_Some: "abi_uint n = Some bs \<longleftrightarrow> 0 \<le> n \<and> n < 2 ^ 256 \<and> bs = be_bytes 32 n"
  by (auto simp: abi_uint_def)

lemma read_address_at:
  assumes "length pre = 32 * i" "length raw = 20"
  shows "read_address (pre @ replicate 12 0 @ raw @ post) i = lit ''0x'' @ py_hex raw"
proof -
  have "slice (32 * i + 12) (32 * i + 32) ((pre @ replicate 12 0) @ raw @ post) = raw"
    using assms by (intro slice_append_exact) auto
  then show ?thesis by (simp add: read_address_def)
qed

lemma abi_deposit_decodes:
  assumes "length v = 20" "length t = 20" "0 \<le> n" "n < 2 ^ 256" "0 \<le> e" "e < 2 ^ 256"
    and "unicode_text m" "length (utf8_encode m) < 2 ^ 256"
  shows "abi_decode_deposit ((replicate 12 0 @ v) @ (replicate 12 0 @ t) @ be_bytes 32 n @ be_bytes 32 160
      @ be_bytes 32 e @ abi_tail (utf8_encode m))
    = Some (lit ''0x'' @ py_hex v, lit ''0x'' @ py_hex t, n, m, e)"
proof -
  let ?v = "replicate 12 0 @ v" and ?t = "replicate 12 0 @ t" and ?tail = "abi_tail (utf8_encode m)"
  let ?bs = "?v @ ?t @ be_bytes 32 n @ be_bytes 32 160 @ be_bytes 32 e @ ?tail"
  have w: "abi_word ?bs 2 = nat n" "abi_word ?bs 3 = 160" "abi_word ?bs 4 = nat e"
    using abi_word_at [of "?v @ ?t" 2 n "be_bytes 32 160 @ be_bytes 32 e @ ?tail"]
      abi_word_at [of "?v @ ?t @ be_bytes 32 n" 3 160 "be_bytes 32 e @ ?tail"]
      abi_word_at [of "?v @ ?t @ be_bytes 32 n @ be_bytes 32 160" 4 e ?tail] assms
    by simp_all
  have "abi_bytes ?bs 160 5 = Some (utf8_encode m)"
    using abi_bytes_tail [of 5 "?v @ ?t @ be_bytes 32 n @ be_bytes 32 160 @ be_bytes 32 e" "utf8_encode m" "[]"]
      assms by simp
  moreover have "read_address ?bs 0 = lit ''0x'' @ py_hex v" "read_address ?bs 1 = lit ''0x'' @ py_hex t"
    using read_address_at [of "[]" 0 v "?t @ be_bytes 32 n @ be_bytes 32 160 @ be_bytes 32 e @ ?tail"]
      read_address_at [of ?v 1 t "be_bytes 32 n @ be_bytes 32 160 @ be_bytes 32 e @ ?tail"] assms(1,2)
    by simp_all
  ultimately show ?thesis
    using assms unfolding abi_decode_deposit_def w by (simp add: utf8_decode_encode)
qed

lemma ex_eth_abi: "eth_abi_ok ex_eth_libs"
proof -
  have call: "\<exists>a'. abi_decode_call bs = Some (a', n) \<and> py_lower a' = py_lower a"
    if enc: "abi_encode_call a n = Some bs" for a n bs
  proof -
    from enc obtain a1 where a1: "abi_address a = Some a1" "abi_uint n = Some (be_bytes 32 n)"
        "bs = a1 @ be_bytes 32 n" "0 \<le> n" "n < 2 ^ 256"
      by (auto simp: abi_encode_call_def abi_uint_Some split: option.splits)
    obtain raw where raw: "a1 = replicate 12 0 @ raw" "length raw = 20" "py_lower a = lit ''0x'' @ py_hex raw"
      by (rule abi_address_Some [OF a1(1)])
    have "abi_decode_call bs = Some (lit ''0x'' @ py_hex raw, n)"
      using read_address_at [of "[]" 0 raw "be_bytes 32 n"] abi_word_at [of a1 1 n "[]"] a1(3-5) raw
      by (simp add: abi_decode_call_def)
    then show ?thesis using raw(3) by (metis py_lower_idem)
  qed
  have dep: "\<exists>v' t'. abi_decode_deposit bs = Some (v', t', n, m, e) \<and> py_lower v' = py_lower v
           \<and> py_lower t' = py_lower t"
    if enc: "abi_encode_deposit v t n m e = Some bs" for v t n m e bs
  proof -
    from enc obtain v1 t1 where a: "abi_address v = Some v1" "abi_address t = Some t1" "0 \<le> n" "n < 2 ^ 256"
        "0 \<le> e" "e < 2 ^ 256" "unicode_text m" "length (utf8_encode m) < 2 ^ 256"
        "bs = v1 @ t1 @ be_bytes 32 n @ be_bytes 32 160 @ be_bytes 32 e @ abi_tail (utf8_encode m)"
      by (auto simp: abi_encode_deposit_def abi_uint_Some split: option.splits if_splits)
    obtain v2 where v2: "v1 = replicate 12 0 @ v2" "length v2 = 20" "py_lower v = lit ''0x'' @ py_hex v2"
      by (rule abi_address_Some [OF a(1)])
    obtain t2 where t2: "t1 = replicate 12 0 @ t2" "length t2 = 20" "py_lower t = lit ''0x'' @ py_hex t2"
      by (rule abi_address_Some [OF a(2)])
    have "abi_decode_deposit bs = Some (lit ''0x'' @ py_hex v2, lit ''0x'' @ py_hex t2, n, m, e)"
      using abi_deposit_decodes [OF v2(2) t2(2) a(3-8)] by (simp only: a(9) v2(1) t2(1))
    then show ?thesis using v2(3) t2(3) by (metis py_lower_idem)
  qed
  show ?thesis unfolding eth_abi_ok_def by (simp add: ex_eth_libs_def call dep)
qed

text \<open>A node that is never asked.\<close>

definition ex_no_node :: "(unit, unit) cf_rpc" where
  "ex_no_node m ps = raise (PyExn ValueError)"

lemma evm_transactions_pass_witness:
  "\<exists>p q. evm_build_and_verify_send ex_eth_libs eth_chain ex_no_node ex_owned 5 (lit ''ETH.ETH'')
       7 10 1 210000 DEFAULT_ETH_DERIVATION () = (Inr p, ()) \<and> safe p
    \<and> build_and_verify_approvals ex_eth_libs eth_chain (lit ''0xdac17f958d2ee523a2206206994597c13d831ec7'') ex_owned
       1000 20 7 10 1 1400000 DEFAULT_ETH_DERIVATION = (Inr q :: unit exn + _) \<and> safe q"
proof -
  let ?send = "evm_build_and_verify_send ex_eth_libs eth_chain ex_no_node ex_owned 5
       (lit ''ETH.ETH'') 7 10 1 210000 DEFAULT_ETH_DERIVATION ()"
  let ?approve = "build_and_verify_approvals ex_eth_libs eth_chain
       (lit ''0xdac17f958d2ee523a2206206994597c13d831ec7'') ex_owned 1000 20 7 10 1 1400000 DEFAULT_ETH_DERIVATION
       :: unit exn + _"
  have "case fst ?send of Inl e \<Rightarrow> False | Inr p \<Rightarrow> evm_fee (pr_built p) \<le> 210000" by code_simp
  then obtain p where p: "?send = (Inr p, ())" "evm_fee (pr_built p) \<le> 210000"
    by (cases "fst ?send") (auto simp: prod_eq_iff)
  have "case ?approve of Inl e \<Rightarrow> False | Inr q \<Rightarrow> evm_fee (pr_built q) \<le> 1400000" by code_simp
  then obtain q where q: "?approve = Inr q" "evm_fee (pr_built q) \<le> 1400000" by (cases ?approve) auto
  have "safe p"
    using evm_transactions_pass [OF ex_eth_abi, THEN conjunct2, THEN conjunct2, THEN conjunct1, rule_format, OF p(1)]
      p(2) by simp
  moreover have "safe q"
    using evm_transactions_pass [OF ex_eth_abi, THEN conjunct2, THEN conjunct2, THEN conjunct2, rule_format, OF q(1)]
      q(2) by simp
  ultimately show ?thesis using p(1) q(1) by blast
qed

text \<open>A swap of ether for ether on Arbitrum.\<close>

definition ex_price :: int where
  "ex_price = - (- (19850 * 2 ^ 128) div 99000)"

definition ex_refund_params :: decoded_evm_vault_parameters where
  "ex_refund_params = ex_params\<lparr>ep_min_price := ex_price\<rparr>"

definition ex_calldata :: bytes where
  "ex_calldata = xswap_native 4 (replicate 20 0x11) 6 (evm_params ex_refund_params)"

definition ex_contract :: pystr where
  "ex_contract = lit ''0x'' @ py_hex (replicate 20 0xab)"

definition ex_evm_encoding :: json where
  "ex_evm_encoding = JObj [(lit ''to'', JStr ex_contract), (lit ''calldata'', JStr (lit ''0x'' @ py_hex ex_calldata)),
     (lit ''value'', JStr (hex_int 100000))]"

definition ex_evm_state_chain :: "(unit, unit) cf_rpc" where
  "ex_evm_state_chain m ps w =
     (Inr (if m = lit ''cf_get_vault_addresses''
           then JObj [(lit ''ethereum'', JObj [(lit ''Eth'', JList (replicate 20 (JInt 0xab)))])]
           else ex_evm_encoding), w)"

definition ex_prepared_evm :: evm_vault_swap where
  "ex_prepared_evm = \<lparr>evs_vault_contract = ex_contract, evs_calldata = ex_calldata, evs_value = 100000,
     evs_source_token = [], evs_source_amount = 100000, evs_known_vaults = {ex_contract},
     evs_destination_chain_id = 4, evs_destination_asset_id = 6, evs_destination_bytes = replicate 20 0x11,
     evs_refund_address = ex_owned, evs_min_price = ex_price, evs_retry_duration = 100,
     evs_min_output_amount = 19800, evs_source_chain_id = 1\<rparr>"

lemma ex_refund_params: "evm_params_ok ex_refund_params"
  by (simp add: evm_params_ok_def ex_refund_params_def ex_params_def ex_price_def)

lemma ex_call:
  "decode_evm_vault_call ex_calldata
   = Some \<lparr>ec_destination_chain_id = 4, ec_destination = replicate 20 0x11, ec_destination_asset_id = 6,
       ec_source_token = [], ec_source_amount = 0, ec_parameters = evm_params ex_refund_params\<rparr>"
  using length_evm_params [OF ex_refund_params] by (simp add: ex_calldata_def xswap_native_decodes)

lemma ex_checks:
  "check_evm_call ex_calldata 100000 100000 [] ex_owned (replicate 20 0x11) 6 4 ex_owned ex_price 100 = Inr ()"
proof -
  have "py_hex (ep_refund_address ex_refund_params) = py_removeprefix (lit ''0x'') (py_lower ex_owned)"
    by code_simp
  then show ?thesis
    unfolding check_evm_call_Inr check_evm_parameters_Inr
    by (simp add: ex_call decode_evm_params [OF ex_refund_params]) (simp add: ex_refund_params_def ex_params_def)
qed

lemma ex_contract_lower: "py_lower ex_contract = ex_contract"
  by code_simp

lemma ex_prepared_evm:
  "prepare_evm_vault_swap ex_cf_libs (\<lambda>_. replicate 32 0) ex_evm_state_chain (lit ''ETH.ETH'') (lit ''ARB.ETH'')
     ex_owned ex_owned 100000 ex_cf_quote None () = (Inr ex_prepared_evm, ())"
proof -
  have c: "vault_chain (lit ''ETH.ETH'') = lit ''Ethereum''" "vault_chain (lit ''ARB.ETH'') = lit ''Arbitrum''"
    "token_contract (lit ''ETH.ETH'') = []"
    "index_dict VAULT_SWAP_ASSET_IDS (lit ''ARB.ETH'') = Inr 6"
    "index_dict VAULT_SWAP_CHAIN_IDS (lit ''Arbitrum'') = Inr 4"
    "index_dict EVM_CHAIN_IDS (lit ''Ethereum'') = Inr 1"
    by code_simp+
  have dest: "destination_bytes (lit ''ARB.ETH'') ex_owned = Inr (replicate 20 0x11)"
    unfolding destination_bytes_def by code_simp
  have m: "min_price ex_cf_quote None = Inr (ex_price, 19800)"
    by (simp add: min_price_def min_output_amount_def ex_cf_quote_def Let_def PRICE_FRACTIONAL_BITS_def
        push_bit_eq_mult ex_price_def)
  have vaults: "evm_vault_addresses (\<lambda>_. replicate 32 0) ex_evm_state_chain (lit ''Ethereum'') () = (Inr {ex_contract}, ())"
    by code_simp
  have not: "lit ''cf_request_swap_parameter_encoding'' \<noteq> lit ''cf_get_vault_addresses''" by (simp add: lit_def)
  have "encode_params account (lit ''ETH.ETH'') (lit ''ARB.ETH'') ex_owned extra
     = Inr [JStr account, asset_object (lit ''Ethereum'', lit ''ETH''), asset_object (lit ''Arbitrum'', lit ''ETH''),
         JStr ex_owned, JInt 0, extra]" for account extra
    by (simp add: encode_params_def cf_asset_def CHAINFLIP_ASSETS_def cf_pair_def) (simp add: lit_def)
  then have ask: "ask_broker ex_evm_state_chain (lit ''ETH.ETH'') (lit ''ARB.ETH'') ex_owned extra account ()
     = (Inr ex_evm_encoding, ())" for account extra
    by (simp add: ask_broker_def ex_evm_state_chain_def not)
  have enc: "request_encoding ex_cf_libs (ask_broker ex_evm_state_chain (lit ''ETH.ETH'') (lit ''ARB.ETH'') ex_owned extra)
     [] DEFAULT_BROKER_ACCOUNTS () = (Inr ex_evm_encoding, ())" for extra
    unfolding DEFAULT_BROKER_ACCOUNTS_def by (simp add: try_call_def ask)
  have parsed: "parse_evm_encoding ex_cf_libs ex_evm_encoding = Inr (ex_contract, ex_calldata, 100000, [])"
  proof -
    have reads: "jindex ex_evm_encoding (lit ''to'') = Inr (JStr ex_contract)"
      "jindex ex_evm_encoding (lit ''calldata'') = Inr (JStr (lit ''0x'' @ py_hex ex_calldata))"
      "jindex ex_evm_encoding (lit ''value'') = Inr (JStr (hex_int 100000))"
      "jget ex_evm_encoding (lit ''source_token_address'') = Inr JNull"
      by (simp_all add: ex_evm_encoding_def dget_def jget_def dget_or_def) (simp_all add: lit_def)
    have "88 \<notin> set (py_hex ex_calldata)" by (auto simp: py_hex_def hex_digit_def)
    then have "\<not> prefix (lit ''0X'') (py_hex ex_calldata)" by (auto simp: prefix_def lit_def)
    then have "py_removeprefix (lit ''0X'') (py_removeprefix (lit ''0x'') (lit ''0x'' @ py_hex ex_calldata))
        = py_hex ex_calldata"
      by (simp add: py_removeprefix_def)
    then show ?thesis
      by (simp add: parse_evm_encoding_def reads py_int16_hex_int py_fromhex_hex ex_contract_lower str_or_empty_def)
  qed
  show ?thesis
    unfolding prepare_evm_vault_swap_def and_then_def raise_if_def of_cf_def of_res_def of_py_def Let_def c dest m vaults
    by (simp add: EVM_VAULT_CHAINS_def ret_def enc vaults dest m parsed cf_guard_def c ex_checks ex_prepared_evm_def
        ex_cf_quote_def DEFAULT_RETRY_DURATION_BLOCKS_def)
qed

lemma evm_vault_swap_passes_witness:
  "\<exists>p. evm_build_and_verify_vault_swap ex_eth_libs eth_chain (evm_vault_plan ex_prepared_evm ex_owned 100) 200 7 10 1
      1200000 DEFAULT_ETH_DERIVATION = (Inr p :: unit exn + _) \<and> (safe p \<longleftrightarrow> evm_fee (pr_built p) \<le> 1200000)"
proof -
  let ?plan = "evm_vault_plan ex_prepared_evm ex_owned 100"
  have approve: "vault_approve ex_eth_libs eth_chain ?plan 7 10 1 = (Inr None :: unit exn + _)"
    by (simp add: vault_approve_def ex_prepared_evm_def)
  have vault: "checksummed ex_eth_libs (ev_vault_contract ?plan) = (Inr ex_contract :: unit exn + _)" by code_simp
  have call: "decode_evm_vault_call (ev_calldata ?plan)
     = Some \<lparr>ec_destination_chain_id = 4, ec_destination = replicate 20 0x11, ec_destination_asset_id = 6,
       ec_source_token = [], ec_source_amount = 0, ec_parameters = evm_params ex_refund_params\<rparr>"
    by (simp add: ex_prepared_evm_def ex_call)
  have refund: "snd (el_key ex_eth_libs DEFAULT_ETH_DERIVATION) = ex_owned" by (simp add: ex_eth_libs_def)
  have data: "tx_data (eth_tx.truncate (vault_call_tx eth_chain ?plan ex_contract 7 10 1 None))
     = lit ''0x'' @ py_hex (ev_calldata ?plan)"
    by (simp add: vault_call_tx_def)
  have "\<exists>problems. verify_chainflip_evm_vault_swap (el_decode_call ex_eth_libs)
      (eth_tx.truncate (vault_call_tx eth_chain ?plan ex_contract 7 10 1 None)) None ?plan 200 1200000 ex_owned = Some problems"
    using evm_vault_gate [OF data call] by blast
  then obtain p where p: "evm_build_and_verify_vault_swap ex_eth_libs eth_chain ?plan 200 7 10 1 1200000
      DEFAULT_ETH_DERIVATION = (Inr p :: unit exn + _)"
    by (auto simp: evm_build_and_verify_vault_swap_def approve vault [simplified] refund)
  have keccak: "el_keccak ex_eth_libs = (\<lambda>_. replicate 32 0)" by (simp add: ex_eth_libs_def)
  have source: "map_of EVM_CHAIN_IDS (vault_chain (lit ''ETH.ETH'')) = Some (ec_chain_id eth_chain)" by code_simp
  have fields: "ep_version ex_refund_params = 1" "ep_ccm ex_refund_params = 0"
    "ep_oracle_slippage ex_refund_params = 0" "ep_dca ex_refund_params = 0"
    by (simp_all add: ex_refund_params_def ex_params_def)
  show ?thesis
    using evm_vault_swap_passes [OF ex_eth_abi ex_prepared_evm [folded keccak] p] p
    by (auto simp: call [simplified] decode_evm_params [OF ex_refund_params] source refund fields)
qed

end
