(* ===== verification/CardanoTx.thy ===== *)
theory CardanoTx
  imports Bech32 PyJson "HOL-Library.List_Lexorder" "HOL-Library.Multiset"
begin

text \<open>
  \<open>src/swapsack/chains/cardano_tx.py\<close>: the transactions of Cardano, their fees and minimum outputs, the
  CIP-20 memo, and the reader the gate works from. CBOR (\<open>cbor2\<close>) and BLAKE2b are the fields of
  \<open>cardano_libs\<close>; a value that \<open>cbor2\<close> writes or returns is a \<open>cbor\<close>.
\<close>

section \<open>CBOR values\<close>

text \<open>
  \<open>CSet\<close> is what a decoder may make of a list tagged 258: a \<open>frozenset\<close>, in some order. \<open>COther\<close> is any
  value of a type the code does not ask for. A sequence inside a set is a tuple in Python, which is
  read like a list.
\<close>

datatype cbor =
  CInt int
| CBytes bytes
| CText pystr
| CBool bool
| CNull
| CList "cbor list"
| CMap "(cbor \<times> cbor) list"
| CTag nat cbor
| CSet "cbor list"
| COther

text \<open>\<open>cd_decode\<close> reads one item from the front and says how many bytes it took; None is an error.\<close>

record cardano_libs =
  cd_dumps :: "cbor \<Rightarrow> bytes"
  cd_decode :: "bytes \<Rightarrow> (cbor \<times> nat) option"
  cd_blake2b_256 :: "bytes \<Rightarrow> bytes"

section \<open>Constants and records\<close>

definition SET_TAG :: nat where
  "SET_TAG = 258"

definition CIP20_LABEL :: int where
  "CIP20_LABEL = 674"

definition METADATA_CHUNK :: nat where
  "METADATA_CHUNK = 64"

definition MAINNET :: byte where
  "MAINNET = 1"

definition UTXO_ENTRY_OVERHEAD :: int where
  "UTXO_ENTRY_OVERHEAD = 160"

definition LONGEST_ADDRESS :: bytes where
  "LONGEST_ADDRESS = MAINNET # replicate 56 0"

record protocol_params =
  pp_min_fee_a :: int
  pp_min_fee_b :: int
  pp_coins_per_utxo_byte :: int
  pp_max_tx_size :: int

record ada_in =
  ai_txid :: bytes
  ai_index :: int

record ada_out =
  ao_address :: bytes
  ao_lovelace :: int

record unsigned_tx =
  ut_inputs :: "ada_in list"
  ut_outputs :: "ada_out list"
  ut_fee :: int
  ut_ttl :: int
  ut_memo :: "pystr option"

section \<open>Addresses\<close>

definition of_b32 :: "b32_error + 'a \<Rightarrow> py_error + 'a" where
  "of_b32 r = (case r of Inl e \<Rightarrow> Inl ValueError | Inr x \<Rightarrow> Inr x)"

definition ADDR :: pystr where
  "ADDR = lit ''addr''"

definition address_bytes :: "pystr \<Rightarrow> py_error + bytes" where
  "address_bytes address =
     bind_res (of_b32 (bech32_decode address)) (\<lambda>(hrp, raw).
       if hrp \<noteq> ADDR \<or> raw = [] \<or> hd raw AND 0x0F \<noteq> MAINNET then Inl ValueError else Inr raw)"

definition address_string :: "bytes \<Rightarrow> py_error + pystr" where
  "address_string raw = of_b32 (bech32_encode ADDR raw)"

definition payment_key_hash :: "bytes \<Rightarrow> py_error + bytes" where
  "payment_key_hash raw =
     (if raw = [] then Inl IndexError
      else if drop_bit 4 (hd raw) \<notin> {0, 2, 4, 6} then Inl ValueError
      else Inr (slice 1 29 raw))"

section \<open>The memo\<close>

text \<open>\<open>encode()\<close> of a text with a lone surrogate raises.\<close>

fun chunk_loop :: "pystr \<Rightarrow> pystr \<Rightarrow> py_error + pystr list" where
  "chunk_loop current [] = Inr [current]"
| "chunk_loop current (c # cs) =
     (if current = [] then chunk_loop [c] cs
      else if \<not> unicode_text (current @ [c]) then Inl ValueError
      else if METADATA_CHUNK < length (utf8_encode (current @ [c]))
      then bind_res (chunk_loop [c] cs) (\<lambda>chunks. Inr (current # chunks))
      else chunk_loop (current @ [c]) cs)"

definition memo_chunks :: "pystr \<Rightarrow> py_error + pystr list" where
  "memo_chunks m = chunk_loop [] m"

definition MSG :: cbor where
  "MSG = CText (lit ''msg'')"

definition metadata_for_memo :: "pystr \<Rightarrow> py_error + cbor" where
  "metadata_for_memo m =
     bind_res (memo_chunks m) (\<lambda>chunks. Inr (CMap [(CInt CIP20_LABEL, CMap [(MSG, CList (map CText chunks))])]))"

fun join_texts :: "cbor list \<Rightarrow> py_error + pystr" where
  "join_texts [] = Inr []"
| "join_texts (CText t # vs) = bind_res (join_texts vs) (\<lambda>r. Inr (t @ r))"
| "join_texts (_ # vs) = Inl TypeError"

definition memo_from_metadata :: "cbor \<Rightarrow> py_error + bytes option" where
  "memo_from_metadata metadata =
     (case metadata of
        CMap kvs \<Rightarrow>
          (case map_of kvs (CInt CIP20_LABEL) of
             Some (CMap message) \<Rightarrow>
               (case map_of message MSG of
                  Some (CList texts) \<Rightarrow>
                    bind_res (join_texts texts) (\<lambda>m.
                      if unicode_text m then Inr (Some (utf8_encode m)) else Inl ValueError)
                | _ \<Rightarrow> Inr None)
           | _ \<Rightarrow> Inr None)
      | _ \<Rightarrow> Inr None)"

section \<open>Serialization\<close>

text \<open>\<open>dumps\<close> of a text with a lone surrogate raises, so a memo that has one is never written.\<close>

definition encode_aux :: "cardano_libs \<Rightarrow> pystr \<Rightarrow> py_error + bytes" where
  "encode_aux lib m =
     bind_res (metadata_for_memo m) (\<lambda>metadata.
       if unicode_text m then Inr (cd_dumps lib metadata) else Inl ValueError)"

definition input_items :: "ada_in list \<Rightarrow> cbor list" where
  "input_items inputs =
     map (\<lambda>(t, i). CList [CBytes t, CInt i]) (sort (map (\<lambda>i. (ai_txid i, ai_index i)) inputs))"

definition output_item :: "ada_out \<Rightarrow> cbor" where
  "output_item out = CList [CBytes (ao_address out), CInt (ao_lovelace out)]"

definition body_map :: "unsigned_tx \<Rightarrow> bytes option \<Rightarrow> (cbor \<times> cbor) list" where
  "body_map tx aux_hash =
     [(CInt 0, CTag SET_TAG (CList (input_items (ut_inputs tx)))),
      (CInt 1, CList (map output_item (ut_outputs tx))),
      (CInt 2, CInt (ut_fee tx)),
      (CInt 3, CInt (ut_ttl tx))]
     @ (case aux_hash of None \<Rightarrow> [] | Some h \<Rightarrow> [(CInt 7, CBytes h)])"

definition encode_body :: "cardano_libs \<Rightarrow> unsigned_tx \<Rightarrow> py_error + bytes" where
  "encode_body lib tx =
     (case ut_memo tx of
        None \<Rightarrow> Inr (cd_dumps lib (CMap (body_map tx None)))
      | Some m \<Rightarrow>
          bind_res (encode_aux lib m) (\<lambda>aux.
            Inr (cd_dumps lib (CMap (body_map tx (Some (cd_blake2b_256 lib aux)))))))"

definition ada_txid :: "cardano_libs \<Rightarrow> unsigned_tx \<Rightarrow> py_error + bytes" where
  "ada_txid lib tx = bind_res (encode_body lib tx) (\<lambda>body. Inr (cd_blake2b_256 lib body))"

definition witness_map :: "(bytes \<times> bytes) list \<Rightarrow> cbor" where
  "witness_map witnesses =
     CMap [(CInt 0, CTag SET_TAG (CList (map (\<lambda>(k, s). CList [CBytes k, CBytes s]) (sort witnesses))))]"

definition ada_serialize :: "cardano_libs \<Rightarrow> unsigned_tx \<Rightarrow> (bytes \<times> bytes) list \<Rightarrow> py_error + bytes" where
  "ada_serialize lib tx witnesses =
     bind_res (case ut_memo tx of None \<Rightarrow> Inr (cd_dumps lib CNull) | Some m \<Rightarrow> encode_aux lib m) (\<lambda>aux.
     bind_res (encode_body lib tx) (\<lambda>body.
       Inr (0x84 # body @ cd_dumps lib (witness_map witnesses) @ cd_dumps lib (CBool True) @ aux)))"

section \<open>Fees and minimum outputs\<close>

definition min_fee :: "int \<Rightarrow> protocol_params \<Rightarrow> int" where
  "min_fee n params = pp_min_fee_a params * n + pp_min_fee_b params"

definition min_lovelace :: "cardano_libs \<Rightarrow> ada_out \<Rightarrow> protocol_params \<Rightarrow> int" where
  "min_lovelace lib out params =
     (UTXO_ENTRY_OVERHEAD + int (length (cd_dumps lib (output_item out)))) * pp_coins_per_utxo_byte params"

text \<open>\<open>bytes([i])\<close> raises for \<open>i > 255\<close>.\<close>

definition dummy_witnesses :: "nat \<Rightarrow> py_error + (bytes \<times> bytes) list" where
  "dummy_witnesses n =
     (if 256 < n then Inl ValueError
      else Inr (map (\<lambda>i. (replicate 32 (byte_of i), replicate 64 0)) [0..<n]))"

text \<open>The loop of \<open>required_fee\<close>; None is a loop that does not end.\<close>

partial_function (option) fee_loop ::
  "cardano_libs \<Rightarrow> unsigned_tx \<Rightarrow> (bytes \<times> bytes) list \<Rightarrow> protocol_params \<Rightarrow> int \<Rightarrow> (py_error + int) option" where
  "fee_loop lib tx dummy params fee =
     (case ada_serialize lib (tx\<lparr>ut_fee := fee\<rparr>) dummy of
        Inl e \<Rightarrow> Some (Inl e)
      | Inr raw \<Rightarrow>
          let needed = min_fee (int (length raw)) params in
          if needed \<le> fee then Some (Inr fee) else fee_loop lib tx dummy params needed)"

definition required_fee ::
  "cardano_libs \<Rightarrow> unsigned_tx \<Rightarrow> nat \<Rightarrow> protocol_params \<Rightarrow> (py_error + int) option" where
  "required_fee lib tx n_witnesses params =
     (case dummy_witnesses n_witnesses of
        Inl e \<Rightarrow> Some (Inl e)
      | Inr dummy \<Rightarrow> fee_loop lib tx dummy params 0)"

section \<open>The neutral reader\<close>

record parsed_tx =
  pt_txid :: bytes
  pt_inputs :: "(bytes \<times> cbor) list"
  pt_outputs :: "(pystr \<times> int) list"
  pt_fee :: cbor
  pt_memo :: "bytes option"
  pt_witnesses :: "(bytes \<times> bytes) list"

text \<open>Iteration, indexing by a small number, \<open>in\<close>, and \<open>bytes()\<close>, on whatever was decoded.\<close>

fun citer :: "cbor \<Rightarrow> py_error + cbor list" where
  "citer (CList vs) = Inr vs"
| "citer (CSet vs) = Inr vs"
| "citer (CMap kvs) = Inr (map fst kvs)"
| "citer (CBytes b) = Inr (map (\<lambda>x. CInt (uint x)) b)"
| "citer (CText t) = Inr (map (\<lambda>c. CText [c]) t)"
| "citer _ = Inl TypeError"

fun cindex :: "cbor \<Rightarrow> nat \<Rightarrow> py_error + cbor" where
  "cindex (CMap kvs) k = (case map_of kvs (CInt (int k)) of None \<Rightarrow> Inl KeyError | Some v \<Rightarrow> Inr v)"
| "cindex (CList vs) k = (if k < length vs then Inr (vs ! k) else Inl IndexError)"
| "cindex (CBytes b) k = (if k < length b then Inr (CInt (uint (b ! k))) else Inl IndexError)"
| "cindex (CText t) k = (if k < length t then Inr (CText [t ! k]) else Inl IndexError)"
| "cindex _ k = Inl TypeError"

fun chas :: "cbor \<Rightarrow> cbor \<Rightarrow> py_error + bool" where
  "chas k (CText t) = Inl TypeError"
| "chas k v = bind_res (citer v) (\<lambda>vs. Inr (k \<in> set vs))"

fun cget :: "cbor \<Rightarrow> cbor \<Rightarrow> py_error + cbor option" where
  "cget (CMap kvs) k = Inr (map_of kvs k)"
| "cget _ k = Inl AttributeError"

fun cint :: "cbor \<Rightarrow> int option" where
  "cint (CInt n) = Some n"
| "cint (CBool b) = Some (of_bool b)"
| "cint _ = None"

definition cbyte :: "cbor \<Rightarrow> py_error + byte" where
  "cbyte v =
     (case cint v of
        None \<Rightarrow> Inl TypeError
      | Some n \<Rightarrow> if 0 \<le> n \<and> n < 256 then Inr (byte_of (nat n)) else Inl ValueError)"

fun py_bytes :: "cbor \<Rightarrow> py_error + bytes" where
  "py_bytes (CBytes b) = Inr b"
| "py_bytes (CText t) = Inl TypeError"
| "py_bytes v =
     (case cint v of
        Some n \<Rightarrow> if n < 0 then Inl ValueError else Inr (replicate (nat n) 0)
      | None \<Rightarrow> bind_res (citer v) (map_res cbyte))"

fun set_items :: "cbor \<Rightarrow> py_error + cbor list" where
  "set_items (CTag t v) = citer (if t = SET_TAG then v else CTag t v)"
| "set_items v = citer v"

definition unpack2 :: "cbor \<Rightarrow> py_error + (cbor \<times> cbor)" where
  "unpack2 v = bind_res (citer v) (\<lambda>vs. case vs of [a, b] \<Rightarrow> Inr (a, b) | _ \<Rightarrow> Inl ValueError)"

definition parsed_output :: "cbor \<Rightarrow> py_error + (pystr \<times> int)" where
  "parsed_output out =
     (case out of
        CList [CBytes a, v] \<Rightarrow>
          (case cint v of
             None \<Rightarrow> Inl ValueError
           | Some n \<Rightarrow> bind_res (address_string a) (\<lambda>s. Inr (s, n)))
      | _ \<Rightarrow> Inl ValueError)"

definition parsed_input :: "cbor \<Rightarrow> py_error + (bytes \<times> cbor)" where
  "parsed_input v = bind_res (unpack2 v) (\<lambda>(t, i). bind_res (py_bytes t) (\<lambda>t. Inr (t, i)))"

definition parsed_witness :: "cbor \<Rightarrow> py_error + (bytes \<times> bytes)" where
  "parsed_witness v =
     bind_res (unpack2 v) (\<lambda>(k, s). bind_res (py_bytes k) (\<lambda>k. bind_res (py_bytes s) (\<lambda>s. Inr (k, s))))"

definition body_outputs :: "cbor \<Rightarrow> py_error + (pystr \<times> int) list" where
  "body_outputs body = bind_res (bind_res (cindex body 1) citer) (map_res parsed_output)"

definition body_inputs :: "cbor \<Rightarrow> py_error + (bytes \<times> cbor) list" where
  "body_inputs body = bind_res (bind_res (cindex body 0) set_items) (map_res parsed_input)"

definition read_witnesses :: "cbor \<Rightarrow> py_error + (bytes \<times> bytes) list" where
  "read_witnesses witness_set = bind_res (bind_res (cindex witness_set 0) set_items) (map_res parsed_witness)"

definition decode_at :: "cardano_libs \<Rightarrow> bytes \<Rightarrow> nat \<Rightarrow> py_error + (cbor \<times> nat)" where
  "decode_at lib raw i =
     (case cd_decode lib (drop i raw) of None \<Rightarrow> Inl ValueError | Some (v, n) \<Rightarrow> Inr (v, i + n))"

definition bound_memo :: "cardano_libs \<Rightarrow> cbor \<Rightarrow> cbor \<Rightarrow> bytes \<Rightarrow> py_error + bytes option" where
  "bound_memo lib body aux aux_bytes =
     (if aux \<noteq> CNull then
        bind_res (cget body (CInt 7)) (\<lambda>h.
          if h \<noteq> Some (CBytes (cd_blake2b_256 lib aux_bytes)) then Inl ValueError
          else memo_from_metadata aux)
      else bind_res (chas (CInt 7) body) (\<lambda>b. if b then Inl ValueError else Inr None))"

definition ada_parse :: "cardano_libs \<Rightarrow> bytes \<Rightarrow> py_error + parsed_tx" where
  "ada_parse lib raw =
     (if take 1 raw \<noteq> [0x84] then Inl ValueError
      else
        bind_res (decode_at lib raw 1) (\<lambda>(body, body_end).
        bind_res (decode_at lib raw body_end) (\<lambda>(witness_set, witness_end).
        bind_res (decode_at lib raw witness_end) (\<lambda>(valid, aux_start).
        bind_res (decode_at lib raw aux_start) (\<lambda>(aux, aux_end).
        bind_res (bound_memo lib body aux (slice aux_start aux_end raw)) (\<lambda>m.
        bind_res (body_outputs body) (\<lambda>outputs.
        bind_res (body_inputs body) (\<lambda>inputs.
        bind_res (cindex body 2) (\<lambda>fee.
        bind_res (read_witnesses witness_set) (\<lambda>witnesses.
          Inr \<lparr>pt_txid = cd_blake2b_256 lib (slice 1 body_end raw), pt_inputs = inputs,
               pt_outputs = outputs, pt_fee = fee, pt_memo = m, pt_witnesses = witnesses\<rparr>))))))))))"

section \<open>Memo chunks\<close>

lemma utf8_char_length: "length (utf8_encode [c]) \<le> 4"
  by (simp add: utf8_encode_def utf8_char_def)

definition too_long :: "pystr \<Rightarrow> pystr \<Rightarrow> bool" where
  "too_long a b \<longleftrightarrow> METADATA_CHUNK < length (utf8_encode (a @ [hd b]))"

definition chunked :: "pystr \<Rightarrow> pystr list \<Rightarrow> bool" where
  "chunked m chunks \<longleftrightarrow>
     concat chunks = m \<and> list_all (\<lambda>c. length (utf8_encode c) \<le> METADATA_CHUNK) chunks
     \<and> successively too_long chunks"

lemma chunk_loop_chunked:
  assumes "unicode_text (current @ cs)" "length (utf8_encode current) \<le> METADATA_CHUNK"
  shows "\<exists>chunks. chunk_loop current cs = Inr chunks \<and> chunked (current @ cs) chunks \<and> chunks \<noteq> []
    \<and> (current \<noteq> [] \<longrightarrow> [] \<notin> set chunks \<and> hd (hd chunks) = hd current)"
  using assms
proof (induction current cs rule: chunk_loop.induct)
  case (1 current)
  then show ?case by (simp add: chunked_def)
next
  case (2 current c cs)
  have one: "length (utf8_encode [c]) \<le> METADATA_CHUNK"
    using utf8_char_length [of c] by (simp add: METADATA_CHUNK_def)
  consider "current = []" | "current \<noteq> []" "METADATA_CHUNK < length (utf8_encode (current @ [c]))"
    | "current \<noteq> []" "\<not> METADATA_CHUNK < length (utf8_encode (current @ [c]))" by blast
  then show ?case
  proof cases
    case 1
    with 2 one show ?thesis by auto
  next
    case 2
    with "2.IH"(2) "2.prems" one obtain chunks where
      r: "chunk_loop [c] cs = Inr chunks" "chunked (c # cs) chunks" "chunks \<noteq> []" "[] \<notin> set chunks" "hd (hd chunks) = c"
      by auto
    have "chunked (current @ c # cs) (current # chunks)"
      using r 2 "2.prems"(2) by (cases chunks) (auto simp: chunked_def too_long_def)
    with r 2 "2.prems"(1) show ?thesis by auto
  next
    case 3
    with "2.IH"(3) "2.prems" show ?thesis by auto
  qed
qed

text \<open>
  A memo is cut into chunks that together are the memo, each at most 64 bytes long in UTF-8 and
  none cut inside a character, and no chunk could have taken the next character too. Only the
  empty memo has an empty chunk. The bytes of the chunks, one after the other, are those of the memo.
\<close>

theorem memo_chunks_exact:
  assumes "unicode_text m"
  shows "\<exists>chunks. memo_chunks m = Inr chunks \<and> concat chunks = m
    \<and> (\<forall>c \<in> set chunks. length (utf8_encode c) \<le> 64 \<and> (m \<noteq> [] \<longrightarrow> c \<noteq> []))
    \<and> (\<forall>i. Suc i < length chunks \<longrightarrow> 64 < length (utf8_encode (chunks ! i @ [hd (chunks ! Suc i)])))
    \<and> concat (map utf8_encode chunks) = utf8_encode m"
proof (cases m)
  case Nil
  then show ?thesis by (simp add: memo_chunks_def)
next
  case (Cons c cs)
  have "length (utf8_encode [c]) \<le> METADATA_CHUNK"
    using utf8_char_length [of c] by (simp add: METADATA_CHUNK_def)
  then obtain chunks where r: "chunk_loop [c] cs = Inr chunks" "chunked m chunks" "[] \<notin> set chunks"
    using chunk_loop_chunked [of "[c]" cs] assms Cons by auto
  have enc: "concat (map utf8_encode xs) = utf8_encode (concat xs)" for xs :: "pystr list"
    by (induction xs) simp_all
  show ?thesis
    using r Cons unfolding chunked_def successively_conv_nth too_long_def METADATA_CHUNK_def
    by (auto simp: memo_chunks_def enc list_all_iff)
qed

lemma memo_chunks_exact_witness:
  "\<exists>chunks. memo_chunks (replicate 65 97) = Inr chunks \<and> concat chunks = replicate 65 97
    \<and> (\<forall>c \<in> set chunks. length (utf8_encode c) \<le> 64)"
proof -
  have "unicode_text (replicate 65 97)" by (simp add: unicode_text_def unicode_scalar_def list_all_iff)
  from memo_chunks_exact [OF this] show ?thesis by blast
qed

section \<open>The fee loop\<close>

text \<open>
  What is relied on: a value takes the room it takes in CBOR wherever it stands in a map, and
  a number of up to 64 bits takes at most nine bytes, a smaller one no more than a larger.
\<close>

definition cbor_sizes :: "cardano_libs \<Rightarrow> bool" where
  "cbor_sizes lib \<longleftrightarrow>
     (\<forall>pre k v w post. length (cd_dumps lib (CMap (pre @ (k, v) # post))) + length (cd_dumps lib w)
        = length (cd_dumps lib (CMap (pre @ (k, w) # post))) + length (cd_dumps lib v))
   \<and> (\<forall>m n. 0 \<le> m \<and> m \<le> n \<and> n < 2 ^ 64 \<longrightarrow> length (cd_dumps lib (CInt m)) \<le> length (cd_dumps lib (CInt n)))
   \<and> (\<forall>n. 0 \<le> n \<and> n < 2 ^ 64 \<longrightarrow> length (cd_dumps lib (CInt n)) \<le> 9)"

abbreviation int_size :: "cardano_libs \<Rightarrow> int \<Rightarrow> nat" where
  "int_size lib n \<equiv> length (cd_dumps lib (CInt n))"

lemma serialize_fee:
  assumes "cbor_sizes lib" "ada_serialize lib (tx\<lparr>ut_fee := f\<rparr>) ws = Inr raw"
  shows "\<exists>raw'. ada_serialize lib (tx\<lparr>ut_fee := g\<rparr>) ws = Inr raw'
    \<and> length raw' + int_size lib f = length raw + int_size lib g"
proof -
  let ?inputs = "(CInt 0, CTag SET_TAG (CList (input_items (ut_inputs tx))))"
  let ?outputs = "(CInt 1, CList (map output_item (ut_outputs tx)))"
  have size: "length (cd_dumps lib (CMap (body_map (tx\<lparr>ut_fee := g\<rparr>) h))) + int_size lib f
     = length (cd_dumps lib (CMap (body_map (tx\<lparr>ut_fee := f\<rparr>) h))) + int_size lib g" for h
  proof -
    let ?post = "(CInt 3, CInt (ut_ttl tx)) # (case h of None \<Rightarrow> [] | Some h \<Rightarrow> [(CInt 7, CBytes h)])"
    have "body_map (tx\<lparr>ut_fee := x\<rparr>) h = [?inputs, ?outputs] @ (CInt 2, CInt x) # ?post" for x
      by (simp add: body_map_def)
    then show ?thesis using assms(1) unfolding cbor_sizes_def by presburger
  qed
  show ?thesis
  proof (cases "ut_memo tx")
    case None
    with assms(2) size [of None] show ?thesis by (auto simp: ada_serialize_def encode_body_def)
  next
    case (Some m)
    with assms(2) obtain aux where "encode_aux lib m = Inr aux"
      by (auto simp: ada_serialize_def bind_res_eq_Inr)
    with assms(2) Some size [of "Some (cd_blake2b_256 lib aux)"] show ?thesis
      by (auto simp: ada_serialize_def encode_body_def)
  qed
qed

text \<open>The least fee from \<open>f\<close> on that pays for its own size, found by the loop.\<close>

definition pays_own_size ::
  "cardano_libs \<Rightarrow> unsigned_tx \<Rightarrow> (bytes \<times> bytes) list \<Rightarrow> protocol_params \<Rightarrow> int \<Rightarrow> bool" where
  "pays_own_size lib tx ws params h \<longleftrightarrow>
     (\<exists>raw. ada_serialize lib (tx\<lparr>ut_fee := h\<rparr>) ws = Inr raw \<and> min_fee (int (length raw)) params \<le> h)"

lemma fee_loop_step:
  assumes "ada_serialize lib (tx\<lparr>ut_fee := f\<rparr>) ws = Inr raw"
  shows "fee_loop lib tx ws params f =
    (let needed = min_fee (int (length raw)) params in
     if needed \<le> f then Some (Inr f) else fee_loop lib tx ws params needed)"
  by (subst fee_loop.simps) (simp add: assms)

lemma fee_loop_least:
  assumes lib: "cbor_sizes lib" and ab: "0 \<le> pp_min_fee_a params" "0 \<le> pp_min_fee_b params"
    and zero: "ada_serialize lib (tx\<lparr>ut_fee := 0\<rparr>) ws = Inr raw0"
    and fits: "min_fee (int (length raw0) + 9) params < 2 ^ 64"
    and f: "0 \<le> f" "f < 2 ^ 64" "ada_serialize lib (tx\<lparr>ut_fee := f\<rparr>) ws = Inr raw"
      "f \<le> min_fee (int (length raw)) params"
  shows "\<exists>g raw. fee_loop lib tx ws params f = Some (Inr g) \<and> f \<le> g
    \<and> ada_serialize lib (tx\<lparr>ut_fee := g\<rparr>) ws = Inr raw \<and> g = min_fee (int (length raw)) params
    \<and> (\<forall>h \<ge> f. pays_own_size lib tx ws params h \<longrightarrow> g \<le> h)"
  using f
proof (induction "9 - int_size lib f" arbitrary: f raw rule: less_induct)
  case less
  let ?len = "\<lambda>h. int (length raw0) - int (int_size lib 0) + int (int_size lib h)"
  let ?need = "\<lambda>h. min_fee (?len h) params"
  have ser: "\<exists>raw. ada_serialize lib (tx\<lparr>ut_fee := h\<rparr>) ws = Inr raw \<and> int (length raw) = ?len h" for h
    using serialize_fee [OF lib zero, of h] by auto
  have sizes: "int_size lib g \<le> int_size lib h" "int_size lib h \<le> 9" if "0 \<le> g" "g \<le> h" "h < 2 ^ 64" for g h
    using lib that order_trans [OF that(1,2)] unfolding cbor_sizes_def by blast+
  have up: "min_fee m params \<le> min_fee n params" if "m \<le> n" for m n
    using that ab by (simp add: min_fee_def mult_left_mono)
  have len: "int (length raw) = ?len f" using ser [of f] less.prems(3) by auto
  have small: "?need f < 2 ^ 64"
    using sizes(2) [of f f] less.prems(1,2) up [of "?len f" "int (length raw0) + 9"] fits by linarith
  have least: "?need f \<le> h" if "f \<le> h" "pays_own_size lib tx ws params h" for h
  proof (cases "h < 2 ^ 64")
    case True
    have "?need f \<le> ?need h" using sizes(1) [OF less.prems(1) that(1) True] by (intro up) simp
    moreover have "?need h \<le> h" using that(2) ser [of h] by (auto simp: pays_own_size_def)
    ultimately show ?thesis by simp
  next
    case False
    then show ?thesis using small by simp
  qed
  have step: "fee_loop lib tx ws params f = (if ?need f \<le> f then Some (Inr f) else fee_loop lib tx ws params (?need f))"
    using fee_loop_step [OF less.prems(3)] by (simp add: len)
  obtain raw' where raw': "ada_serialize lib (tx\<lparr>ut_fee := ?need f\<rparr>) ws = Inr raw'" "int (length raw') = ?len (?need f)"
    using ser by blast
  have f_le: "f \<le> ?need f" using less.prems(4) by (simp add: len)
  have grows: "int_size lib f \<le> int_size lib (?need f)" by (rule sizes(1) [OF less.prems(1) f_le small])
  consider "?need f = f" | "f < ?need f" "int_size lib (?need f) = int_size lib f"
    | "f < ?need f" "int_size lib f < int_size lib (?need f)"
    using f_le grows by linarith
  then show ?case
  proof cases
    case 1
    with step less.prems least len show ?thesis by (intro exI [of _ f] exI [of _ raw]) auto
  next
    case 2
    have "fee_loop lib tx ws params (?need f) = Some (Inr (?need f))"
      using fee_loop_step [OF raw'(1)] raw'(2) 2 by simp
    with step 2 raw' least show ?thesis by (intro exI [of _ "?need f"] exI [of _ raw']) auto
  next
    case 3
    have m: "9 - int_size lib (?need f) < 9 - int_size lib f"
      using 3 sizes(2) [OF _ order_refl small] less.prems(1) by linarith
    have le: "?need f \<le> min_fee (int (length raw')) params"
      unfolding raw'(2) using grows by (intro up) simp
    have pos: "0 \<le> ?need f" using f_le less.prems(1) by linarith
    obtain g raw'' where g: "fee_loop lib tx ws params (?need f) = Some (Inr g)" "?need f \<le> g"
        "ada_serialize lib (tx\<lparr>ut_fee := g\<rparr>) ws = Inr raw''" "g = min_fee (int (length raw'')) params"
        "\<And>h. ?need f \<le> h \<Longrightarrow> pays_own_size lib tx ws params h \<Longrightarrow> g \<le> h"
      using less.hyps [OF m pos small raw'(1) le] by blast
    have "fee_loop lib tx ws params f = Some (Inr g)" using step 3(1) g(1) by simp
    moreover have "f \<le> g" using f_le g(2) by linarith
    ultimately show ?thesis using g(3,4) g(5) [OF least] by blast
  qed
qed

text \<open>
  C33: The fee of a transaction is found: the loop ends, although the fee is part of the size it pays
  for, and it returns the least fee that is enough for the transaction that carries it and the given
  number of signatures. The fee is then not above what the rule asks for that size but exactly it.
  The protocol's parameters must not be negative and the fee must fit 64 bits; up to 256 keys can sign.
\<close>

theorem required_fee_least:
  assumes "cbor_sizes lib" "0 \<le> pp_min_fee_a params" "0 \<le> pp_min_fee_b params" "n \<le> 256"
    and "dummy_witnesses n = Inr ws" "ada_serialize lib (tx\<lparr>ut_fee := 0\<rparr>) ws = Inr raw0"
    and "min_fee (int (length raw0) + 9) params < 2 ^ 64"
  shows "\<exists>fee raw. required_fee lib tx n params = Some (Inr fee)
    \<and> ada_serialize lib (tx\<lparr>ut_fee := fee\<rparr>) ws = Inr raw \<and> fee = min_fee (int (length raw)) params
    \<and> (\<forall>h \<ge> 0. pays_own_size lib tx ws params h \<longrightarrow> fee \<le> h)"
  using fee_loop_least [OF assms(1-3,6,7) order_refl _ assms(6)] assms(2,3)
  by (auto simp: required_fee_def assms(5) min_fee_def)

section \<open>What is relied on of CBOR\<close>

text \<open>
  What \<open>loads(dumps(v))\<close> may be: \<open>v\<close> again, but a list tagged as a set may come back as a set, in
  any order and without repetitions.
\<close>

inductive reads_as :: "cbor \<Rightarrow> cbor \<Rightarrow> bool" where
  r_null: "reads_as CNull CNull"
| r_int: "reads_as (CInt n) (CInt n)"
| r_bytes: "reads_as (CBytes b) (CBytes b)"
| r_text: "reads_as (CText t) (CText t)"
| r_bool: "reads_as (CBool b) (CBool b)"
| r_list: "list_all2 reads_as vs ws \<Longrightarrow> reads_as (CList vs) (CList ws)"
| r_map: "list_all2 (\<lambda>e f. fst e = fst f \<and> reads_as (snd e) (snd f)) kvs kws \<Longrightarrow> reads_as (CMap kvs) (CMap kws)"
| r_tag: "reads_as v w \<Longrightarrow> reads_as (CTag t v) (CTag t w)"
| r_set: "list_all2 reads_as vs ws \<Longrightarrow> set xs = set ws \<Longrightarrow> distinct xs \<Longrightarrow> reads_as (CTag SET_TAG (CList vs)) (CSet xs)"

inductive_cases reads_as_atom:
  "reads_as CNull w" "reads_as (CInt n) w" "reads_as (CBytes b) w" "reads_as (CText t) w" "reads_as (CBool b) w"
inductive_cases reads_as_list: "reads_as (CList vs) w"
inductive_cases reads_as_map: "reads_as (CMap kvs) w"
inductive_cases reads_as_tag: "reads_as (CTag t v) w"

text \<open>
  What is written here: numbers of at most 64 bits, texts without lone surrogates, at most \<open>d\<close> levels
  deep, dictionaries without repeated keys, and no tag but that of sets.
\<close>

fun writable :: "nat \<Rightarrow> cbor \<Rightarrow> bool" where
  "writable d (CInt n) \<longleftrightarrow> 0 \<le> n \<and> n < 2 ^ 64"
| "writable d (CBytes b) \<longleftrightarrow> length b < 2 ^ 64"
| "writable d (CText t) \<longleftrightarrow> unicode_text t \<and> length (utf8_encode t) < 2 ^ 64"
| "writable d (CBool b) \<longleftrightarrow> True"
| "writable d CNull \<longleftrightarrow> True"
| "writable 0 v \<longleftrightarrow> False"
| "writable (Suc d) (CList vs) \<longleftrightarrow> length vs < 2 ^ 64 \<and> list_all (writable d) vs"
| "writable (Suc d) (CMap kvs) \<longleftrightarrow> length kvs < 2 ^ 64 \<and> distinct (map fst kvs)
     \<and> list_all (\<lambda>e. writable d (fst e) \<and> writable d (snd e)) kvs"
| "writable (Suc d) (CTag t v) \<longleftrightarrow> t = SET_TAG \<and> writable d v"
| "writable (Suc d) v \<longleftrightarrow> False"

lemma writable_pos:
  "0 < d \<Longrightarrow> writable d (CList vs) \<longleftrightarrow> length vs < 2 ^ 64 \<and> list_all (writable (d - 1)) vs"
  "0 < d \<Longrightarrow> writable d (CMap kvs) \<longleftrightarrow> length kvs < 2 ^ 64 \<and> distinct (map fst kvs)
     \<and> list_all (\<lambda>e. writable (d - 1) (fst e) \<and> writable (d - 1) (snd e)) kvs"
  "0 < d \<Longrightarrow> writable d (CTag t v) \<longleftrightarrow> t = SET_TAG \<and> writable (d - 1) v"
  by (cases d; simp)+

text \<open>
  A decoder reads the item that was written and no further, whatever follows; and a digest has
  32 bytes.
\<close>

definition cardano_ok :: "cardano_libs \<Rightarrow> bool" where
  "cardano_ok lib \<longleftrightarrow>
     (\<forall>v rest. writable 6 v \<longrightarrow>
        (\<exists>w. cd_decode lib (cd_dumps lib v @ rest) = Some (w, length (cd_dumps lib v)) \<and> reads_as v w))
   \<and> (\<forall>b. length (cd_blake2b_256 lib b) = 32)"

lemma decode_written:
  assumes "cardano_ok lib" "writable 6 v" "length pre = i"
  obtains w where "decode_at lib (pre @ cd_dumps lib v @ rest) i = Inr (w, i + length (cd_dumps lib v))" "reads_as v w"
proof -
  obtain w where "cd_decode lib (cd_dumps lib v @ rest) = Some (w, length (cd_dumps lib v))" "reads_as v w"
    using assms(1,2) unfolding cardano_ok_def by blast
  with assms(3) show thesis by (intro that) (simp_all add: decode_at_def)
qed

section \<open>Reading what was written\<close>

definition ada_tx_ok :: "unsigned_tx \<Rightarrow> bool" where
  "ada_tx_ok tx \<longleftrightarrow>
     length (ut_inputs tx) < 2 ^ 64 \<and> length (ut_outputs tx) < 2 ^ 64
   \<and> list_all (\<lambda>i. length (ai_txid i) < 2 ^ 64 \<and> 0 \<le> ai_index i \<and> ai_index i < 2 ^ 64) (ut_inputs tx)
   \<and> list_all (\<lambda>t. length (ao_address t) < 2 ^ 64 \<and> 0 \<le> ao_lovelace t \<and> ao_lovelace t < 2 ^ 64) (ut_outputs tx)
   \<and> 0 \<le> ut_fee tx \<and> ut_fee tx < 2 ^ 64 \<and> 0 \<le> ut_ttl tx \<and> ut_ttl tx < 2 ^ 64
   \<and> (\<forall>m. ut_memo tx = Some m \<longrightarrow> unicode_text m \<and> length (utf8_encode m) < 2 ^ 60)"

definition witnesses_ok :: "(bytes \<times> bytes) list \<Rightarrow> bool" where
  "witnesses_ok ws \<longleftrightarrow>
     length ws < 2 ^ 64 \<and> list_all (\<lambda>(k, s). length k < 2 ^ 64 \<and> length s < 2 ^ 64) ws"

lemma SET_TAG_items:
  assumes "reads_as (CTag SET_TAG (CList vs)) w"
  obtains ws xs where "list_all2 reads_as vs ws" "set_items w = Inr xs" "set xs = set ws"
    "distinct ws \<longrightarrow> mset xs = mset ws"
  using assms
proof (rule reads_as_tag)
  fix u assume u: "w = CTag SET_TAG u" "reads_as (CList vs) u"
  from u(2) obtain ws where "u = CList ws" "list_all2 reads_as vs ws" by (rule reads_as_list)
  with u(1) show thesis by (intro that [of ws ws]) simp_all
next
  fix vs' ws xs
  assume "w = CSet xs" "CList vs = CList vs'" "list_all2 reads_as vs' ws" "set xs = set ws" "distinct xs"
  then show thesis by (intro that [of ws xs]) (auto simp: set_eq_iff_mset_eq_distinct)
qed

lemma pair_reads:
  assumes "list_all2 reads_as (map (\<lambda>p. CList [f p, g p]) ps) ws"
    and "\<And>p w. reads_as (f p) w \<Longrightarrow> w = f p" "\<And>p w. reads_as (g p) w \<Longrightarrow> w = g p"
  shows "ws = map (\<lambda>p. CList [f p, g p]) ps"
  using assms(1)
proof (induction ps arbitrary: ws)
  case Nil
  then show ?case by simp
next
  case (Cons p ps)
  then obtain w ws' where ws: "ws = w # ws'" "reads_as (CList [f p, g p]) w"
      "list_all2 reads_as (map (\<lambda>p. CList [f p, g p]) ps) ws'"
    by (auto simp: list_all2_Cons1)
  have "\<exists>x y. w = CList [x, y] \<and> reads_as (f p) x \<and> reads_as (g p) y"
    using ws(2) by (rule reads_as_list) (auto simp: list_all2_Cons1)
  then obtain x y where "w = CList [x, y]" "reads_as (f p) x" "reads_as (g p) y" by blast
  with ws Cons.IH [OF ws(3)] assms(2,3) show ?case by simp
qed

lemma map_res_projr:
  "(\<And>x. x \<in> set xs \<Longrightarrow> rd x = Inr (r x)) \<Longrightarrow> map_res rd xs = Inr (map r xs)"
  by (induction xs) simp_all

lemma set_of_pairs:
  assumes "reads_as (CTag SET_TAG (CList (map (\<lambda>p. CList [f p, g p]) ps))) w"
    and "\<And>p w. reads_as (f p) w \<Longrightarrow> w = f p" "\<And>p w. reads_as (g p) w \<Longrightarrow> w = g p"
    and "\<And>p. rd (CList [f p, g p]) = Inr (r p)" "inj r"
  obtains ys where "bind_res (set_items w) (map_res rd) = Inr ys" "set ys = r ` set ps"
    "distinct ps \<longrightarrow> mset ys = image_mset r (mset ps)"
proof -
  let ?h = "\<lambda>p. CList [f p, g p]"
  obtain ws xs where x: "list_all2 reads_as (map ?h ps) ws" "set_items w = Inr xs" "set xs = set ws"
    "distinct ws \<longrightarrow> mset xs = mset ws"
    by (rule SET_TAG_items [OF assms(1)])
  have ws: "ws = map ?h ps" by (rule pair_reads [OF x(1) assms(2,3)])
  have inj: "inj ?h"
  proof (rule injI)
    fix p q assume "?h p = ?h q"
    then have "rd (?h p) = rd (?h q)" by (rule arg_cong)
    then show "p = q" using assms(4,5) by (simp add: inj_eq)
  qed
  have un: "inv ?h (CList [f p, g p]) = p" for p using inv_f_f [OF inj, of p] by simp
  have a: "map_res rd xs = Inr (map (r \<circ> inv ?h) xs)"
    by (rule map_res_projr) (use x(3) ws assms(4) un in auto)
  have b: "set (map (r \<circ> inv ?h) xs) = r ` set ps"
    using x(3) ws un by (auto simp: image_image)
  have c: "distinct ps \<longrightarrow> mset (map (r \<circ> inv ?h) xs) = image_mset r (mset ps)"
  proof
    assume "distinct ps"
    then have "mset xs = image_mset ?h (mset ps)"
      using x(4) ws inj by (simp add: distinct_map inj_on_subset [OF inj])
    then show "mset (map (r \<circ> inv ?h) xs) = image_mset r (mset ps)"
      using un by (simp add: multiset.map_comp o_def)
  qed
  show thesis by (rule that [OF _ b c]) (simp add: x(2) a)
qed

lemma atoms_read: "reads_as (CInt n) w \<Longrightarrow> w = CInt n" "reads_as (CBytes b) w \<Longrightarrow> w = CBytes b"
  "reads_as (CBool c) w \<Longrightarrow> w = CBool c" "reads_as CNull w \<Longrightarrow> w = CNull" "reads_as (CText t) w \<Longrightarrow> w = CText t"
  by (auto elim: reads_as_atom)

lemma map_reads:
  assumes "reads_as (CMap ((k, v) # kvs)) w"
  obtains u kws where "w = CMap ((k, u) # kws)" "reads_as v u" "reads_as (CMap kvs) (CMap kws)"
proof -
  have "\<exists>u kws. w = CMap ((k, u) # kws) \<and> reads_as v u \<and> reads_as (CMap kvs) (CMap kws)"
    using assms by (rule reads_as_map) (auto simp: list_all2_Cons1 intro: r_map)
  then show thesis using that by blast
qed

lemma map_reads_Nil: "reads_as (CMap []) w \<Longrightarrow> w = CMap []"
  by (erule reads_as_map) simp

lemma address_string_total: "\<exists>s. address_string raw = Inr s"
proof -
  have "ADDR \<noteq> []" by (simp add: ADDR_def lit_def)
  then obtain a where "b32_encode ADDR raw BECH32 = Inr a" by (rule b32_roundtrip [of ADDR BECH32 raw]) simp
  then show ?thesis by (simp add: address_string_def of_b32_def bech32_encode_def)
qed

definition shown_output :: "ada_out \<Rightarrow> pystr \<times> int" where
  "shown_output out = (case address_string (ao_address out) of Inl e \<Rightarrow> [] | Inr s \<Rightarrow> s, ao_lovelace out)"

lemma parsed_output_item: "parsed_output (output_item out) = Inr (shown_output out)"
  using address_string_total [of "ao_address out"] by (auto simp: parsed_output_def output_item_def shown_output_def)

lemma map_res_map: "(\<And>x. rd (f x) = Inr (r x)) \<Longrightarrow> map_res rd (map f xs) = Inr (map r xs)"
  by (induction xs) simp_all

lemma outputs_read:
  assumes "reads_as (CList (map output_item outs)) w"
  shows "bind_res (citer w) (map_res parsed_output) = Inr (map shown_output outs)"
proof -
  obtain ws where w: "w = CList ws" "list_all2 reads_as (map output_item outs) ws"
    using assms by (rule reads_as_list)
  have items: "map output_item outs = map (\<lambda>t. CList [CBytes (ao_address t), CInt (ao_lovelace t)]) outs"
    by (simp add: output_item_def)
  have "ws = map output_item outs"
    using pair_reads [of "\<lambda>t. CBytes (ao_address t)" "\<lambda>t. CInt (ao_lovelace t)" outs ws, OF w(2) [unfolded items]]
    by (simp add: atoms_read items)
  then show ?thesis
    by (simp add: w(1) map_res_map [of parsed_output output_item shown_output, OF parsed_output_item])
qed

definition listed_input :: "ada_in \<Rightarrow> bytes \<times> cbor" where
  "listed_input i = (ai_txid i, CInt (ai_index i))"

lemma inputs_read:
  assumes "reads_as (CTag SET_TAG (CList (input_items inputs))) w"
  obtains ys where "bind_res (set_items w) (map_res parsed_input) = Inr ys"
    "set ys = listed_input ` set inputs" "distinct inputs \<longrightarrow> mset ys = image_mset listed_input (mset inputs)"
proof -
  let ?key = "\<lambda>i :: ada_in. (ai_txid i, ai_index i)"
  let ?ps = "sort (map ?key inputs)"
  have items: "input_items inputs = map (\<lambda>p. CList [CBytes (fst p), CInt (snd p)]) ?ps"
    by (simp add: input_items_def case_prod_beta)
  have key: "inj ?key"
  proof (rule injI)
    fix i j :: ada_in
    assume "?key i = ?key j"
    then show "i = j" by (cases i, cases j) simp
  qed
  obtain ys where ys: "bind_res (set_items w) (map_res parsed_input) = Inr ys"
      "set ys = (\<lambda>p. (fst p, CInt (snd p))) ` set ?ps"
      "distinct ?ps \<longrightarrow> mset ys = image_mset (\<lambda>p. (fst p, CInt (snd p))) (mset ?ps)"
    using assms unfolding items
    by (rule set_of_pairs [where r = "\<lambda>p. (fst p, CInt (snd p))" and rd = parsed_input])
       (auto simp: atoms_read parsed_input_def unpack2_def intro: injI)
  have listed: "listed_input = (\<lambda>i. (ai_txid i, CInt (ai_index i)))" by (simp add: fun_eq_iff listed_input_def)
  show thesis
    by (rule that [OF ys(1)])
       (use ys(2,3) key in \<open>auto simp: listed image_image distinct_map inj_on_subset [OF key] multiset.map_comp o_def\<close>)
qed

lemma witnesses_read:
  assumes "reads_as (witness_map ws) w"
  obtains v ys where "cindex w 0 = Inr v" "bind_res (set_items v) (map_res parsed_witness) = Inr ys"
    "set ys = set ws" "distinct ws \<longrightarrow> mset ys = mset ws"
proof -
  have items: "map (\<lambda>(k, s). CList [CBytes k, CBytes s]) (sort ws)
      = map (\<lambda>p. CList [CBytes (fst p), CBytes (snd p)]) (sort ws)"
    by (simp add: case_prod_beta)
  obtain v kws where v: "w = CMap ((CInt 0, v) # kws)"
      "reads_as (CTag SET_TAG (CList (map (\<lambda>p. CList [CBytes (fst p), CBytes (snd p)]) (sort ws)))) v"
    using assms unfolding witness_map_def items by (rule map_reads)
  obtain ys where ys: "bind_res (set_items v) (map_res parsed_witness) = Inr ys" "set ys = id ` set (sort ws)"
      "distinct (sort ws) \<longrightarrow> mset ys = image_mset id (mset (sort ws))"
    using v(2)
    by (rule set_of_pairs [where r = id and rd = parsed_witness])
       (auto simp: atoms_read parsed_witness_def unpack2_def)
  show thesis by (rule that [OF _ ys(1)]) (use v(1) ys(2,3) in simp_all)
qed

lemma body_read:
  assumes "reads_as (CMap (body_map tx h)) w"
  obtains ins outs rest where
    "w = CMap ([(CInt 0, ins), (CInt 1, outs), (CInt 2, CInt (ut_fee tx)), (CInt 3, CInt (ut_ttl tx))]
       @ (case h of None \<Rightarrow> [] | Some h \<Rightarrow> [(CInt 7, CBytes h)]))"
    "reads_as (CTag SET_TAG (CList (input_items (ut_inputs tx)))) ins"
    "reads_as (CList (map output_item (ut_outputs tx))) outs"
proof -
  from assms obtain ins outs fee ttl kws where
    w: "w = CMap ((CInt 0, ins) # (CInt 1, outs) # (CInt 2, fee) # (CInt 3, ttl) # kws)"
    "reads_as (CTag SET_TAG (CList (input_items (ut_inputs tx)))) ins"
    "reads_as (CList (map output_item (ut_outputs tx))) outs"
    "reads_as (CInt (ut_fee tx)) fee" "reads_as (CInt (ut_ttl tx)) ttl"
    "reads_as (CMap (case h of None \<Rightarrow> [] | Some h \<Rightarrow> [(CInt 7, CBytes h)])) (CMap kws)"
    unfolding body_map_def append.simps by (elim map_reads) blast
  have "kws = (case h of None \<Rightarrow> [] | Some h \<Rightarrow> [(CInt 7, CBytes h)])"
    using w(6) by (cases h) (auto elim!: map_reads dest: map_reads_Nil atoms_read)
  with w that show thesis by (simp add: atoms_read)
qed

lemma join_texts_map: "join_texts (map CText ts) = Inr (concat ts)"
  by (induction ts) simp_all

lemma texts_read: "list_all2 reads_as (map CText ts) ws \<Longrightarrow> ws = map CText ts"
  by (induction ts arbitrary: ws) (auto simp: list_all2_Cons1 dest: atoms_read)

lemma chunks_of:
  assumes "unicode_text m" "length (utf8_encode m) < 2 ^ 60"
  obtains chunks where "memo_chunks m = Inr chunks" "concat chunks = m" "length chunks < 2 ^ 64"
    "list_all (\<lambda>c. unicode_text c \<and> length (utf8_encode c) < 2 ^ 64) chunks"
proof -
  obtain chunks where c: "memo_chunks m = Inr chunks" "chunked m chunks" "m \<noteq> [] \<longrightarrow> [] \<notin> set chunks" "m = [] \<longrightarrow> chunks = [[]]"
  proof (cases m)
    case Nil
    then show thesis by (intro that [of "[[]]"]) (simp_all add: memo_chunks_def chunked_def)
  next
    case (Cons c cs)
    have "length (utf8_encode [c]) \<le> METADATA_CHUNK"
      using utf8_char_length [of c] by (simp add: METADATA_CHUNK_def)
    then obtain chunks where "chunk_loop [c] cs = Inr chunks" "chunked m chunks" "[] \<notin> set chunks"
      using chunk_loop_chunked [of "[c]" cs] assms Cons by auto
    with Cons show thesis by (intro that) (simp_all add: memo_chunks_def)
  qed
  have count: "length xs \<le> length (concat xs)" if "[] \<notin> set xs" for xs :: "pystr list"
    using that
  proof (induction xs)
    case (Cons x xs)
    then have "0 < length x" "length xs \<le> length (concat xs)" by (cases x; simp)+
    then show ?case by (simp del: length_greater_0_conv)
  qed simp
  have enc: "length s \<le> length (utf8_encode s)" for s
  proof (induction s)
    case (Cons c s)
    have "length (utf8_char c) \<noteq> 0" by simp
    with Cons show ?case unfolding utf8_encode_simps length_append list.size by linarith
  qed simp
  have "length chunks < 2 ^ 64"
    using count [of chunks] c(2-4) enc [of m] assms(2) by (cases "m = []") (auto simp: chunked_def)
  moreover have "list_all (\<lambda>c. unicode_text c \<and> length (utf8_encode c) < 2 ^ 64) chunks"
    using c(2) assms(1) by (auto simp: chunked_def list_all_iff METADATA_CHUNK_def unicode_text_def)
  ultimately show thesis using that [OF c(1)] c(2) by (simp add: chunked_def)
qed

lemma metadata_read:
  assumes "unicode_text m" "length (utf8_encode m) < 2 ^ 60"
  obtains v where "metadata_for_memo m = Inr v" "writable 6 v"
    "\<And>w. reads_as v w \<Longrightarrow> w \<noteq> CNull \<and> memo_from_metadata w = Inr (Some (utf8_encode m))"
proof -
  obtain chunks where c: "memo_chunks m = Inr chunks" "concat chunks = m" "length chunks < 2 ^ 64"
    "list_all (\<lambda>c. unicode_text c \<and> length (utf8_encode c) < 2 ^ 64) chunks"
    by (rule chunks_of [OF assms])
  let ?v = "CMap [(CInt CIP20_LABEL, CMap [(MSG, CList (map CText chunks))])]"
  have "writable 6 ?v"
    using c(3,4) by (simp add: writable_pos CIP20_LABEL_def MSG_def list_all_iff) (simp add: unicode_text_def unicode_scalar_def lit_def utf8_encode_def utf8_char_def)
  moreover have "w \<noteq> CNull \<and> memo_from_metadata w = Inr (Some (utf8_encode m))" if w: "reads_as ?v w" for w
  proof -
    from w obtain u kws where u: "w = CMap ((CInt CIP20_LABEL, u) # kws)" "reads_as (CMap [(MSG, CList (map CText chunks))]) u"
      by (rule map_reads)
    from u(2) obtain t kws' where t: "u = CMap ((MSG, t) # kws')" "reads_as (CList (map CText chunks)) t"
      by (rule map_reads)
    from t(2) obtain ws where "t = CList ws" "list_all2 reads_as (map CText chunks) ws" by (rule reads_as_list)
    then have "t = CList (map CText chunks)" by (simp add: texts_read)
    with u(1) t(1) c(2) assms(1) show ?thesis by (simp add: memo_from_metadata_def join_texts_map)
  qed
  ultimately show thesis using that [of ?v] c(1) by (simp add: metadata_for_memo_def)
qed

lemma body_writable:
  assumes "ada_tx_ok tx" "\<And>h. aux_hash = Some h \<Longrightarrow> length h = 32"
  shows "writable 6 (CMap (body_map tx aux_hash))"
proof -
  have ins: "list_all (writable 3) (input_items (ut_inputs tx))"
    using assms(1) by (auto simp: ada_tx_ok_def input_items_def list_all_iff writable_pos)
  have outs: "list_all (writable 4) (map output_item (ut_outputs tx))"
    using assms(1) by (auto simp: ada_tx_ok_def output_item_def list_all_iff writable_pos)
  have len: "length (input_items (ut_inputs tx)) = length (ut_inputs tx)" by (simp add: input_items_def)
  show ?thesis
    using assms ins outs
    by (cases aux_hash) (simp_all add: body_map_def writable_pos len ada_tx_ok_def SET_TAG_def)
qed

lemma witness_writable:
  assumes "witnesses_ok ws"
  shows "writable 6 (witness_map ws)"
  using assms
  by (auto simp: witness_map_def witnesses_ok_def list_all_iff writable_pos SET_TAG_def split: prod.splits)

text \<open>The four parts of what was serialized, and what reading the last one gives.\<close>

lemma serialize_parts:
  assumes "ada_tx_ok tx" "ada_serialize lib tx ws = Inr raw"
  obtains h aux auxv where "encode_body lib tx = Inr (cd_dumps lib (CMap (body_map tx h)))"
    "aux = cd_dumps lib auxv" "writable 6 auxv"
    "raw = 0x84 # cd_dumps lib (CMap (body_map tx h)) @ cd_dumps lib (witness_map ws) @ cd_dumps lib (CBool True) @ aux"
    "h = map_option (\<lambda>m. cd_blake2b_256 lib aux) (ut_memo tx)"
    "\<And>w. reads_as auxv w \<Longrightarrow> (w = CNull \<longleftrightarrow> ut_memo tx = None)
        \<and> (ut_memo tx \<noteq> None \<longrightarrow> memo_from_metadata w = Inr (map_option utf8_encode (ut_memo tx)))"
proof (cases "ut_memo tx")
  case None
  with assms(2) show thesis
    by (intro that [of None "cd_dumps lib CNull" CNull])
       (auto simp: ada_serialize_def encode_body_def dest: atoms_read intro: r_null)
next
  case (Some m)
  with assms(1) have m: "unicode_text m" "length (utf8_encode m) < 2 ^ 60" by (simp_all add: ada_tx_ok_def)
  obtain v where v: "metadata_for_memo m = Inr v" "writable 6 v"
    "\<And>w. reads_as v w \<Longrightarrow> w \<noteq> CNull \<and> memo_from_metadata w = Inr (Some (utf8_encode m))"
    by (rule metadata_read [OF m]) blast
  have "encode_aux lib m = Inr (cd_dumps lib v)" by (simp add: encode_aux_def v(1) m(1))
  with Some assms(2) v show thesis
    by (intro that [of "Some (cd_blake2b_256 lib (cd_dumps lib v))" "cd_dumps lib v" v])
       (auto simp: ada_serialize_def encode_body_def)
qed

lemma serialized_parses:
  assumes ok: "cardano_ok lib" "ada_tx_ok tx" "witnesses_ok ws" and raw: "ada_serialize lib tx ws = Inr raw"
  shows "\<exists>p. ada_parse lib raw = Inr p \<and> ada_txid lib tx = Inr (pt_txid p)
    \<and> set (pt_inputs p) = listed_input ` set (ut_inputs tx)
    \<and> (distinct (ut_inputs tx) \<longrightarrow> mset (pt_inputs p) = image_mset listed_input (mset (ut_inputs tx)))
    \<and> pt_outputs p = map shown_output (ut_outputs tx) \<and> pt_fee p = CInt (ut_fee tx)
    \<and> pt_memo p = map_option utf8_encode (ut_memo tx)
    \<and> set (pt_witnesses p) = set ws \<and> (distinct ws \<longrightarrow> mset (pt_witnesses p) = mset ws)"
proof -
  obtain h aux auxv where
    body: "encode_body lib tx = Inr (cd_dumps lib (CMap (body_map tx h)))"
    and aux: "aux = cd_dumps lib auxv" "writable 6 auxv"
    and raw_eq: "raw = 0x84 # cd_dumps lib (CMap (body_map tx h)) @ cd_dumps lib (witness_map ws)
        @ cd_dumps lib (CBool True) @ aux"
    and h: "h = map_option (\<lambda>m. cd_blake2b_256 lib aux) (ut_memo tx)"
    and memo: "\<And>w. reads_as auxv w \<Longrightarrow> (w = CNull \<longleftrightarrow> ut_memo tx = None)
        \<and> (ut_memo tx \<noteq> None \<longrightarrow> memo_from_metadata w = Inr (map_option utf8_encode (ut_memo tx)))"
    by (rule serialize_parts [OF ok(2) raw]) blast
  let ?body = "cd_dumps lib (CMap (body_map tx h))" and ?wit = "cd_dumps lib (witness_map ws)"
    and ?valid = "cd_dumps lib (CBool True)"
  let ?e1 = "1 + length ?body" and ?e2 = "1 + length ?body + length ?wit"
    and ?e3 = "1 + length ?body + length ?wit + length ?valid"
  have wb: "writable 6 (CMap (body_map tx h))"
    by (rule body_writable [OF ok(2)]) (use ok(1) h in \<open>auto simp: cardano_ok_def\<close>)
  obtain b where b: "decode_at lib raw 1 = Inr (b, ?e1)" "reads_as (CMap (body_map tx h)) b"
    using decode_written [OF ok(1) wb, of "[0x84]" 1 "?wit @ ?valid @ aux"] raw_eq by auto
  obtain v where v: "decode_at lib raw ?e1 = Inr (v, ?e2)" "reads_as (witness_map ws) v"
    using decode_written [OF ok(1) witness_writable [OF ok(3)], of "0x84 # ?body" ?e1 "?valid @ aux"] raw_eq by auto
  have "writable 6 (CBool True)" by simp
  from decode_written [OF ok(1) this, of "0x84 # ?body @ ?wit" ?e2 aux]
  obtain c where c: "decode_at lib raw ?e2 = Inr (c, ?e3)" using raw_eq by auto
  obtain a where a: "decode_at lib raw ?e3 = Inr (a, ?e3 + length aux)" "reads_as auxv a"
    using decode_written [OF ok(1) aux(2), of "0x84 # ?body @ ?wit @ ?valid" ?e3 "[]"] raw_eq aux(1) by auto
  have cut: "slice 1 ?e1 raw = ?body" "slice ?e3 (?e3 + length aux) raw = aux"
    by (simp_all add: raw_eq slice_def)
  obtain ins outs rest where w: "b = CMap ([(CInt 0, ins), (CInt 1, outs), (CInt 2, CInt (ut_fee tx)),
        (CInt 3, CInt (ut_ttl tx))] @ (case h of None \<Rightarrow> [] | Some h \<Rightarrow> [(CInt 7, CBytes h)]))"
    "reads_as (CTag SET_TAG (CList (input_items (ut_inputs tx)))) ins"
    "reads_as (CList (map output_item (ut_outputs tx))) outs"
    by (rule body_read [OF b(2)])
  have fields: "cindex b 0 = Inr ins" "cindex b 1 = Inr outs" "cindex b 2 = Inr (CInt (ut_fee tx))"
    by (simp_all add: w(1))
  have m: "bound_memo lib b a aux = Inr (map_option utf8_encode (ut_memo tx))"
    using memo [OF a(2)] by (cases "ut_memo tx") (auto simp: bound_memo_def w(1) h)
  obtain inps where i: "bind_res (set_items ins) (map_res parsed_input) = Inr inps"
    "set inps = listed_input ` set (ut_inputs tx)"
    "distinct (ut_inputs tx) \<longrightarrow> mset inps = image_mset listed_input (mset (ut_inputs tx))"
    by (rule inputs_read [OF w(2)])
  obtain u ys where y: "cindex v 0 = Inr u" "bind_res (set_items u) (map_res parsed_witness) = Inr ys"
    "set ys = set ws" "distinct ws \<longrightarrow> mset ys = mset ws"
    by (rule witnesses_read [OF v(2)])
  have parts: "body_outputs b = Inr (map shown_output (ut_outputs tx))" "body_inputs b = Inr inps" "read_witnesses v = Inr ys"
    by (simp_all del: One_nat_def add: body_outputs_def body_inputs_def read_witnesses_def fields i(1) y(1,2) outputs_read [OF w(3)])
  have "take 1 raw = [0x84]" by (simp add: raw_eq)
  then have "ada_parse lib raw = Inr \<lparr>pt_txid = cd_blake2b_256 lib ?body, pt_inputs = inps,
      pt_outputs = map shown_output (ut_outputs tx), pt_fee = CInt (ut_fee tx),
      pt_memo = map_option utf8_encode (ut_memo tx), pt_witnesses = ys\<rparr>"
    unfolding ada_parse_def
    by (simp only: b(1) v(1) c a(1) cut m fields(3) parts bind_res_simps
        prod.case simp_thms if_False)
  then show ?thesis
    using i(2,3) y(3,4) body by (simp add: ada_txid_def)
qed

text \<open>
  C31: A transaction that was serialized is read back by the neutral reader as what it was: the id that
  was signed, the same inputs and the same witnesses (as sets: the ledger has them in no order, and none
  is lost when they are distinct), the outputs in their order under their addresses, the fee, and
  the memo, which the reader joins from its chunks and finds bound to the body.
\<close>

theorem tx_reads_back:
  assumes ok: "cardano_ok lib" "ada_tx_ok tx" "witnesses_ok ws" and raw: "ada_serialize lib tx ws = Inr raw"
  shows "\<exists>p. ada_parse lib raw = Inr p \<and> ada_txid lib tx = Inr (pt_txid p)
    \<and> set (pt_inputs p) = listed_input ` set (ut_inputs tx)
    \<and> (distinct (ut_inputs tx) \<longrightarrow> mset (pt_inputs p) = image_mset listed_input (mset (ut_inputs tx)))
    \<and> pt_outputs p = map shown_output (ut_outputs tx) \<and> pt_fee p = CInt (ut_fee tx)
    \<and> pt_memo p = map_option utf8_encode (ut_memo tx)
    \<and> set (pt_witnesses p) = set ws \<and> (distinct ws \<longrightarrow> mset (pt_witnesses p) = mset ws)"
  by (rule serialized_parses [OF assms])

section \<open>What a transaction id binds\<close>

text \<open>A decoder looks at the bytes of its item only.\<close>

definition decoder_local :: "cardano_libs \<Rightarrow> bool" where
  "decoder_local lib \<longleftrightarrow>
     (\<forall>bs v n. cd_decode lib bs = Some (v, n) \<longrightarrow> n \<le> length bs \<and> (\<forall>r. cd_decode lib (take n bs @ r) = Some (v, n)))"

text \<open>
  The two texts of a serialized transaction that are hashed when it is read: its body, for the id,
  and its auxiliary data, for the commitment of the body.
\<close>

definition hashed_parts :: "cardano_libs \<Rightarrow> bytes \<Rightarrow> bytes list" where
  "hashed_parts lib raw =
     (case bind_res (decode_at lib raw 1) (\<lambda>(body, body_end).
           bind_res (decode_at lib raw body_end) (\<lambda>(witness_set, witness_end).
           bind_res (decode_at lib raw witness_end) (\<lambda>(valid, aux_start).
           bind_res (decode_at lib raw aux_start) (\<lambda>(aux, aux_end).
             Inr [slice 1 body_end raw, slice aux_start aux_end raw])))) of
        Inl e \<Rightarrow> []
      | Inr parts \<Rightarrow> parts)"

lemma decode_at_inject:
  assumes "decoder_local lib" "decode_at lib raw i = Inr (v, j)" "decode_at lib raw' i' = Inr (v', j')"
    and "slice i j raw = slice i' j' raw'"
  shows "v = v'"
proof -
  have d: "cd_decode lib (slice i j raw) = Some (v, j - i)" if "decode_at lib raw i = Inr (v, j)" for raw i v j
  proof -
    from that obtain n where n: "cd_decode lib (drop i raw) = Some (v, n)" "j = i + n"
      by (auto simp: decode_at_def split: option.splits)
    with assms(1) have "cd_decode lib (take n (drop i raw) @ []) = Some (v, n)"
      unfolding decoder_local_def by blast
    with n(2) show ?thesis by (simp add: slice_def)
  qed
  from d [OF assms(2)] d [OF assms(3)] assms(4) show ?thesis by simp
qed

lemma bound_memo_agrees:
  assumes "bound_memo lib b aux bs = Inr m" "bound_memo lib b aux' bs' = Inr m'"
    and "cd_blake2b_256 lib bs = cd_blake2b_256 lib bs' \<Longrightarrow> bs = bs'"
    and "bs = bs' \<Longrightarrow> aux = aux'"
  shows "m = m'"
proof -
  have committed: "chas (CInt 7) b = Inr True" if "cget b (CInt 7) = Inr (Some h)" for h
    using that by (cases b) (auto dest: map_of_SomeD intro: rev_image_eqI)
  have same: "cd_blake2b_256 lib bs = cd_blake2b_256 lib bs' \<Longrightarrow> aux = aux'"
    using assms(3,4) by blast
  show ?thesis
    using assms(1,2) committed same by (auto simp: bound_memo_def bind_res_eq_Inr split: if_splits)
qed

text \<open>
  C32: The transaction id that the keys sign fixes what is paid. Two serialized transactions that the
  reader accepts under one id have the same inputs, outputs, fee and memo, whatever else their bytes
  are - or their two bodies, or their two pieces of auxiliary data, are different texts with one
  BLAKE2b digest. The memo is fixed too, although it lies outside the signed body.
\<close>

theorem txid_binds:
  assumes "decoder_local lib" "ada_parse lib raw = Inr p" "ada_parse lib raw' = Inr p'" "pt_txid p = pt_txid p'"
  shows "(pt_inputs p = pt_inputs p' \<and> pt_outputs p = pt_outputs p' \<and> pt_fee p = pt_fee p' \<and> pt_memo p = pt_memo p')
    \<or> (\<exists>(x, y) \<in> set (zip (hashed_parts lib raw) (hashed_parts lib raw')).
         x \<noteq> y \<and> cd_blake2b_256 lib x = cd_blake2b_256 lib y)"
proof (rule disjCI)
  assume no: "\<not> (\<exists>(x, y) \<in> set (zip (hashed_parts lib raw) (hashed_parts lib raw')).
         x \<noteq> y \<and> cd_blake2b_256 lib x = cd_blake2b_256 lib y)"
  have parts: "\<exists>b e a s t. decode_at lib raw 1 = Inr (b, e) \<and> decode_at lib raw s = Inr (a, t)
      \<and> hashed_parts lib raw = [slice 1 e raw, slice s t raw]
      \<and> pt_txid p = cd_blake2b_256 lib (slice 1 e raw) \<and> bound_memo lib b a (slice s t raw) = Inr (pt_memo p)
      \<and> body_outputs b = Inr (pt_outputs p)
      \<and> body_inputs b = Inr (pt_inputs p)
      \<and> cindex b 2 = Inr (pt_fee p)"
    if run: "ada_parse lib raw = Inr p" for raw p
    using run by (auto simp: ada_parse_def hashed_parts_def bind_res_eq_Inr split: if_splits) blast
  obtain b e a s t where x: "decode_at lib raw 1 = Inr (b, e)" "decode_at lib raw s = Inr (a, t)"
      "pt_txid p = cd_blake2b_256 lib (slice 1 e raw)" "bound_memo lib b a (slice s t raw) = Inr (pt_memo p)"
      "body_outputs b = Inr (pt_outputs p)"
      "body_inputs b = Inr (pt_inputs p)" "cindex b 2 = Inr (pt_fee p)"
      "hashed_parts lib raw = [slice 1 e raw, slice s t raw]"
    using parts [OF assms(2)] by blast
  obtain b' e' a' s' t' where y: "decode_at lib raw' 1 = Inr (b', e')" "decode_at lib raw' s' = Inr (a', t')"
      "pt_txid p' = cd_blake2b_256 lib (slice 1 e' raw')" "bound_memo lib b' a' (slice s' t' raw') = Inr (pt_memo p')"
      "body_outputs b' = Inr (pt_outputs p')"
      "body_inputs b' = Inr (pt_inputs p')"
      "cindex b' 2 = Inr (pt_fee p')"
      "hashed_parts lib raw' = [slice 1 e' raw', slice s' t' raw']"
    using parts [OF assms(3)] by blast
  have body: "slice 1 e raw = slice 1 e' raw'"
    and aux: "cd_blake2b_256 lib (slice s t raw) = cd_blake2b_256 lib (slice s' t' raw')
      \<Longrightarrow> slice s t raw = slice s' t' raw'"
    using no x(3,8) y(3,8) assms(4) by auto
  from body have "b = b'" by (rule decode_at_inject [OF assms(1) x(1) y(1)])
  moreover have "pt_memo p = pt_memo p'"
    using bound_memo_agrees [OF x(4) _ aux, of a'] y(4) calculation
      decode_at_inject [OF assms(1) x(2) y(2)] by blast
  ultimately show "pt_inputs p = pt_inputs p' \<and> pt_outputs p = pt_outputs p' \<and> pt_fee p = pt_fee p' \<and> pt_memo p = pt_memo p'"
    using x(5-7) y(5-7) by simp
qed

section \<open>A run\<close>

text \<open>
  The libraries instantiated, so that the hypotheses can be met: CBOR with every head in its nine-byte
  form, and a digest that keeps 32 bytes of the text it is given.
\<close>

definition cbor_head :: "nat \<Rightarrow> nat \<Rightarrow> bytes" where
  "cbor_head major n = byte_of (32 * major + 27) # rev (to_le 8 (int n))"

fun cbor_enc :: "cbor \<Rightarrow> bytes" where
  "cbor_enc (CInt n) = cbor_head 0 (nat n)"
| "cbor_enc (CBytes b) = cbor_head 2 (length b) @ b"
| "cbor_enc (CText t) = cbor_head 3 (length (utf8_encode t)) @ utf8_encode t"
| "cbor_enc (CList vs) = cbor_head 4 (length vs) @ concat (map cbor_enc vs)"
| "cbor_enc (CMap kvs) = cbor_head 5 (length kvs) @ concat (map (\<lambda>(k, v). cbor_enc k @ cbor_enc v) kvs)"
| "cbor_enc (CTag t v) = cbor_head 6 t @ cbor_enc v"
| "cbor_enc (CBool b) = [if b then 0xf5 else 0xf4]"
| "cbor_enc CNull = [0xf6]"
| "cbor_enc v = [0xf7]"

type_synonym 'a taker = "bytes \<Rightarrow> ('a \<times> bytes) option"

definition take_bytes :: "nat \<Rightarrow> bytes taker" where
  "take_bytes n bs = (if length bs < n then None else Some (take n bs, drop n bs))"

definition then_take :: "'a taker \<Rightarrow> ('a \<Rightarrow> 'b taker) \<Rightarrow> 'b taker" where
  "then_take f g bs = (case f bs of None \<Rightarrow> None | Some (x, r) \<Rightarrow> g x r)"

definition give :: "'a \<Rightarrow> 'a taker" where
  "give x bs = Some (x, bs)"

fun take_many :: "'a taker \<Rightarrow> nat \<Rightarrow> 'a list taker" where
  "take_many f 0 = give []"
| "take_many f (Suc n) = then_take f (\<lambda>x. then_take (take_many f n) (\<lambda>xs. give (x # xs)))"

definition take_pair :: "cbor taker \<Rightarrow> (cbor \<times> cbor) taker" where
  "take_pair f = then_take f (\<lambda>k. then_take f (\<lambda>v. give (k, v)))"

definition take_body :: "cbor taker \<Rightarrow> nat \<Rightarrow> nat \<Rightarrow> cbor taker" where
  "take_body f major n =
     (if major = 0 then give (CInt (int n))
      else if major = 2 then then_take (take_bytes n) (\<lambda>b. give (CBytes b))
      else if major = 3 then then_take (take_bytes n) (\<lambda>b r. map_option (\<lambda>t. (CText t, r)) (utf8_decode b))
      else if major = 4 then then_take (take_many f n) (\<lambda>vs. give (CList vs))
      else if major = 5 then then_take (take_many (take_pair f) n) (\<lambda>kvs. give (CMap kvs))
      else if major = 6 then then_take f (\<lambda>v. give (CTag n v))
      else (\<lambda>_. None))"

definition take_item :: "cbor taker \<Rightarrow> cbor taker" where
  "take_item f =
     then_take (take_bytes 1) (\<lambda>h.
       if h = [0xf5] then give (CBool True) else if h = [0xf4] then give (CBool False)
       else if h = [0xf6] then give CNull
       else if unat (hd h) mod 32 \<noteq> 27 then (\<lambda>_. None)
       else then_take (take_bytes 8) (\<lambda>n. take_body f (unat (hd h) div 32) (nat (be_int n))))"

fun cbor_dec :: "nat \<Rightarrow> cbor taker" where
  "cbor_dec 0 = take_item (\<lambda>_. None)"
| "cbor_dec (Suc d) = take_item (cbor_dec d)"

definition ex_cardano :: cardano_libs where
  "ex_cardano =
     \<lparr>cd_dumps = cbor_enc,
      cd_decode = (\<lambda>bs. map_option (\<lambda>(v, r). (v, length bs - length r)) (cbor_dec 6 bs)),
      cd_blake2b_256 = (\<lambda>b. take 32 (b @ replicate 32 0))\<rparr>"

lemma then_take_give [simp]: "then_take f (\<lambda>x. give (g x)) bs = map_option (\<lambda>(x, r). (g x, r)) (f bs)"
  by (simp add: then_take_def give_def split: option.split)

lemma take_bytes_append [simp]: "length b = n \<Longrightarrow> take_bytes n (b @ r) = Some (b, r)"
  by (simp add: take_bytes_def)

lemma take_many_written:
  assumes "\<And>x r. x \<in> set xs \<Longrightarrow> f (enc x @ r) = Some (x, r)"
  shows "take_many f (length xs) (concat (map enc xs) @ r) = Some (xs, r)"
  using assms by (induction xs) (simp_all add: then_take_def give_def)

lemma take_item_head:
  assumes "major < 7" "n < 2 ^ 64"
  shows "take_item f (cbor_head major n @ r) = take_body f major n r"
proof -
  have "unat (byte_of (32 * major + 27)) = 32 * major + 27" using assms(1) by (simp add: unat_byte_of)
  then have b: "unat (byte_of (32 * major + 27)) div 32 = major" "unat (byte_of (32 * major + 27)) mod 32 = 27"
    by (simp_all only:) simp_all
  have "byte_of (32 * major + 27) \<noteq> x" if "unat x mod 32 \<noteq> 27" for x :: byte
    using that b(2) by auto
  then have "[byte_of (32 * major + 27)] \<notin> {[0xf4], [0xf5], [0xf6]}" by simp
  moreover have "be_int (rev (to_le 8 (int n))) = int n" using assms(2) by (simp add: be_int_def le_int_to_le)
  ultimately show ?thesis
    unfolding take_item_def cbor_head_def append.simps
    by (subst then_take_def, subst take_bytes_def) (simp add: b, simp add: then_take_def take_bytes_def)
qed

lemma take_item_simple:
  "take_item f (0xf5 # r) = Some (CBool True, r)" "take_item f (0xf4 # r) = Some (CBool False, r)"
  "take_item f (0xf6 # r) = Some (CNull, r)"
  by (simp_all add: take_item_def then_take_def take_bytes_def give_def)

lemma take_body_simps:
  "take_body f 0 n = give (CInt (int n))"
  "take_body f 2 n = then_take (take_bytes n) (\<lambda>b. give (CBytes b))"
  "take_body f 3 n = then_take (take_bytes n) (\<lambda>b r. map_option (\<lambda>t. (CText t, r)) (utf8_decode b))"
  "take_body f 4 n = then_take (take_many f n) (\<lambda>vs. give (CList vs))"
  "take_body f 5 n = then_take (take_many (take_pair f) n) (\<lambda>kvs. give (CMap kvs))"
  "take_body f 6 n = then_take f (\<lambda>v. give (CTag n v))"
  by (simp_all add: take_body_def)

text \<open>A leaf is read whatever reads what is nested.\<close>

lemma leaf_written:
  assumes "writable d v" "\<not> (\<exists>vs kvs t u. v \<in> {CList vs, CMap kvs, CTag t u})"
  shows "take_item f (cbor_enc v @ r) = Some (v, r) \<and> reads_as v v"
proof (cases v)
  case (CInt n)
  with assms have n: "0 \<le> n" "nat n < 2 ^ 64" by (simp_all add: nat_less_iff)
  then show ?thesis
    by (simp only: CInt cbor_enc.simps) (simp add: take_item_head take_body_simps give_def r_int)
next
  case (CBytes b)
  with assms show ?thesis by (simp add: take_item_head take_body_simps r_bytes)
next
  case (CText t)
  with assms have "unicode_text t" "length (utf8_encode t) < 2 ^ 64" by simp_all
  then show ?thesis
    by (simp add: CText take_item_head take_body_simps then_take_def utf8_decode_encode r_text)
next
  case (CBool b)
  then show ?thesis by (simp add: take_item_simple r_bool)
next
  case CNull
  then show ?thesis by (simp add: take_item_simple r_null)
qed (use assms in \<open>cases d; simp\<close>)+

lemma reads_as_written:
  "writable d v \<Longrightarrow> cbor_dec d (cbor_enc v @ r) = Some (v, r) \<and> reads_as v v"
proof (induction d arbitrary: v r)
  case 0
  then have "\<not> (\<exists>vs kvs t u. v \<in> {CList vs, CMap kvs, CTag t u})" by auto
  from leaf_written [OF 0 this] show ?case by simp
next
  case (Suc d)
  consider vs where "v = CList vs" | kvs where "v = CMap kvs" | t u where "v = CTag t u"
    | "\<not> (\<exists>vs kvs t u. v \<in> {CList vs, CMap kvs, CTag t u})"
    by blast
  then show ?case
  proof cases
    case 1
    with Suc.prems have w: "list_all (writable d) vs" "length vs < 2 ^ 64" by simp_all
    have "take_many (cbor_dec d) (length vs) (concat (map cbor_enc vs) @ r) = Some (vs, r)"
      by (rule take_many_written) (use w(1) Suc.IH in \<open>auto simp: list_all_iff\<close>)
    moreover have "list_all2 reads_as vs vs" using w(1) Suc.IH by (auto simp: list_all_iff intro: list.rel_refl_strong)
    ultimately show ?thesis using 1 w(2) by (simp add: take_item_head take_body_simps r_list)
  next
    case 2
    with Suc.prems have w: "list_all (\<lambda>e. writable d (fst e) \<and> writable d (snd e)) kvs" "length kvs < 2 ^ 64" by simp_all
    have "take_many (take_pair (cbor_dec d)) (length kvs) (concat (map (\<lambda>(k, v). cbor_enc k @ cbor_enc v) kvs) @ r)
        = Some (kvs, r)"
      by (rule take_many_written) (use w(1) Suc.IH in \<open>auto simp: list_all_iff take_pair_def then_take_def give_def\<close>)
    moreover have "list_all2 (\<lambda>e f. fst e = fst f \<and> reads_as (snd e) (snd f)) kvs kvs"
      using w(1) Suc.IH by (auto simp: list_all_iff intro!: list.rel_refl_strong)
    ultimately show ?thesis using 2 w(2) by (simp add: take_item_head take_body_simps r_map)
  next
    case 3
    with Suc show ?thesis by (simp add: take_item_head take_body_simps SET_TAG_def r_tag)
  next
    case 4
    from leaf_written [OF Suc.prems this] show ?thesis by simp
  qed
qed

lemma ex_cardano_ok: "cardano_ok ex_cardano"
  using reads_as_written [of 6] by (fastforce simp: cardano_ok_def ex_cardano_def)

lemma ex_cardano_sizes: "cbor_sizes ex_cardano"
  by (simp add: cbor_sizes_def ex_cardano_def cbor_head_def)

definition ex_ada_tx :: unsigned_tx where
  "ex_ada_tx = \<lparr>ut_inputs = [\<lparr>ai_txid = replicate 32 7, ai_index = 1\<rparr>],
     ut_outputs = [\<lparr>ao_address = LONGEST_ADDRESS, ao_lovelace = 5000000\<rparr>], ut_fee = 200000, ut_ttl = 9000,
     ut_memo = Some (lit ''=:BTC.BTC'')\<rparr>"

definition ex_ada_witnesses :: "(bytes \<times> bytes) list" where
  "ex_ada_witnesses = [(replicate 32 0, replicate 64 0)]"

lemma ex_ada_tx_ok: "ada_tx_ok ex_ada_tx"
proof -
  have "unicode_text (lit ''=:BTC.BTC'') \<and> length (utf8_encode (lit ''=:BTC.BTC'')) = 9"
    by (simp add: unicode_text_def unicode_scalar_def lit_def utf8_encode_def utf8_char_def)
  then show ?thesis by (simp add: ada_tx_ok_def ex_ada_tx_def LONGEST_ADDRESS_def)
qed

lemma ex_ada_serialized: "\<exists>raw. ada_serialize ex_cardano (ex_ada_tx\<lparr>ut_fee := f\<rparr>) ws = Inr raw"
proof -
  obtain v where "metadata_for_memo (lit ''=:BTC.BTC'') = Inr v"
    using metadata_read [of "lit ''=:BTC.BTC''"] ex_ada_tx_ok by (auto simp: ada_tx_ok_def ex_ada_tx_def)
  moreover have "unicode_text (lit ''=:BTC.BTC'')"
    using ex_ada_tx_ok by (simp add: ada_tx_ok_def ex_ada_tx_def)
  ultimately show ?thesis
    by (simp add: ada_serialize_def encode_body_def encode_aux_def ex_ada_tx_def)
qed

lemma tx_reads_back_witness:
  "\<exists>raw p. ada_serialize ex_cardano ex_ada_tx ex_ada_witnesses = Inr raw \<and> ada_parse ex_cardano raw = Inr p
    \<and> pt_fee p = CInt 200000 \<and> pt_memo p = Some (utf8_encode (lit ''=:BTC.BTC''))"
proof -
  have same: "ex_ada_tx\<lparr>ut_fee := 200000\<rparr> = ex_ada_tx" by (simp add: ex_ada_tx_def)
  obtain raw where raw: "ada_serialize ex_cardano ex_ada_tx ex_ada_witnesses = Inr raw"
    using ex_ada_serialized [of 200000 ex_ada_witnesses] unfolding same by blast
  have "witnesses_ok ex_ada_witnesses" by (simp add: witnesses_ok_def ex_ada_witnesses_def)
  from tx_reads_back [OF ex_cardano_ok ex_ada_tx_ok this raw] raw show ?thesis
    by (auto simp: ex_ada_tx_def)
qed

definition ex_plain_tx :: unsigned_tx where
  "ex_plain_tx = ex_ada_tx\<lparr>ut_memo := None\<rparr>"

lemma required_fee_least_witness:
  "\<exists>fee. required_fee ex_cardano ex_plain_tx 1 \<lparr>pp_min_fee_a = 44, pp_min_fee_b = 155381,
      pp_coins_per_utxo_byte = 4310, pp_max_tx_size = 16384\<rparr> = Some (Inr fee)"
proof -
  let ?params = "\<lparr>pp_min_fee_a = 44, pp_min_fee_b = 155381, pp_coins_per_utxo_byte = 4310, pp_max_tx_size = 16384\<rparr>"
  have ws: "dummy_witnesses 1 = Inr ex_ada_witnesses"
    by (simp add: dummy_witnesses_def ex_ada_witnesses_def byte_of_def)
  obtain raw where raw: "ada_serialize ex_cardano (ex_plain_tx\<lparr>ut_fee := 0\<rparr>) ex_ada_witnesses = Inr raw"
      "length raw < 1000"
    by (simp add: ada_serialize_def encode_body_def ex_plain_tx_def ex_ada_tx_def ex_cardano_def body_map_def
        input_items_def output_item_def witness_map_def ex_ada_witnesses_def cbor_head_def LONGEST_ADDRESS_def)
  show ?thesis
    using required_fee_least [OF ex_cardano_sizes _ _ _ ws raw(1), of ?params] raw(2) by (auto simp: min_fee_def)
qed

definition local_taker :: "'a taker \<Rightarrow> bool" where
  "local_taker f \<longleftrightarrow> (\<forall>bs x r. f bs = Some (x, r) \<longrightarrow> (\<exists>p. bs = p @ r \<and> (\<forall>q. f (p @ q) = Some (x, q))))"

lemma local_then_take:
  assumes "local_taker f" "\<And>x. local_taker (g x)"
  shows "local_taker (then_take f g)"
  unfolding local_taker_def
proof (intro allI impI)
  fix bs y r assume "then_take f g bs = Some (y, r)"
  then obtain x s where "f bs = Some (x, s)" "g x s = Some (y, r)"
    by (auto simp: then_take_def split: option.splits)
  with assms obtain p p' where "bs = p @ s" "\<forall>q. f (p @ q) = Some (x, q)" "s = p' @ r" "\<forall>q. g x (p' @ q) = Some (y, q)"
    unfolding local_taker_def by meson
  then show "\<exists>p. bs = p @ r \<and> (\<forall>q. then_take f g (p @ q) = Some (y, q))"
    by (intro exI [of _ "p @ p'"]) (simp add: then_take_def)
qed

lemma local_take_bytes: "local_taker (take_bytes n)"
  unfolding local_taker_def
proof (intro allI impI)
  fix bs x r assume "take_bytes n bs = Some (x, r)"
  then have "bs = take n bs @ r" "x = take n bs" "length (take n bs) = n"
    by (auto simp: take_bytes_def split: if_splits)
  then show "\<exists>p. bs = p @ r \<and> (\<forall>q. take_bytes n (p @ q) = Some (x, q))"
    by (intro exI [of _ "take n bs"]) simp
qed

lemma local_simple: "local_taker (give x)" "local_taker (\<lambda>_. None)"
  "local_taker (\<lambda>r. map_option (\<lambda>t. (h t, r)) u)"
  by (auto simp: local_taker_def give_def)

lemmas local_takers = local_simple local_take_bytes

lemma local_take_many: "local_taker f \<Longrightarrow> local_taker (take_many f n)"
  by (induction n) (auto intro!: local_takers local_then_take)

lemma local_take_item: "local_taker f \<Longrightarrow> local_taker (take_item f)"
  unfolding take_item_def take_body_def take_pair_def
  by (intro local_then_take local_takers) (auto intro!: local_takers local_then_take local_take_many)

lemma ex_cardano_local: "decoder_local ex_cardano"
proof -
  have "local_taker (cbor_dec d)" for d
    by (induction d) (simp_all add: local_take_item local_takers)
  then have "cbor_dec 6 bs = Some (v, r) \<Longrightarrow> \<exists>p. bs = p @ r \<and> (\<forall>q. cbor_dec 6 (p @ q) = Some (v, q))" for bs v r
    unfolding local_taker_def by blast
  then show ?thesis by (fastforce simp: decoder_local_def ex_cardano_def)
qed

lemma txid_binds_witness:
  "\<exists>raw raw' p p'. ada_parse ex_cardano raw = Inr p \<and> ada_parse ex_cardano raw' = Inr p' \<and> raw \<noteq> raw'
    \<and> ((\<exists>(x, y) \<in> set (zip (hashed_parts ex_cardano raw) (hashed_parts ex_cardano raw')).
           x \<noteq> y \<and> cd_blake2b_256 ex_cardano x = cd_blake2b_256 ex_cardano y)
         \<or> pt_outputs p = pt_outputs p' \<and> pt_memo p = pt_memo p')"
proof -
  have ok: "ada_tx_ok ex_plain_tx" using ex_ada_tx_ok by (simp add: ada_tx_ok_def ex_plain_tx_def)
  have wok: "witnesses_ok ex_ada_witnesses" "witnesses_ok []"
    by (simp_all add: witnesses_ok_def ex_ada_witnesses_def)
  obtain raw raw' where raw: "ada_serialize ex_cardano ex_plain_tx ex_ada_witnesses = Inr raw"
      "ada_serialize ex_cardano ex_plain_tx [] = Inr raw'"
    by (simp add: ada_serialize_def encode_body_def ex_plain_tx_def)
  obtain p p' where p: "ada_parse ex_cardano raw = Inr p" "ada_txid ex_cardano ex_plain_tx = Inr (pt_txid p)"
      "set (pt_witnesses p) = set ex_ada_witnesses"
      "ada_parse ex_cardano raw' = Inr p'" "ada_txid ex_cardano ex_plain_tx = Inr (pt_txid p')" "set (pt_witnesses p') = {}"
    using serialized_parses [OF ex_cardano_ok ok wok(1) raw(1)] serialized_parses [OF ex_cardano_ok ok wok(2) raw(2)] by auto
  have "raw \<noteq> raw'" using p by (auto simp: ex_ada_witnesses_def)
  moreover have "pt_txid p = pt_txid p'" using p(2,5) by simp
  ultimately show ?thesis
    using txid_binds [OF ex_cardano_local p(1,4)] p(1,4) by blast
qed

end
