(* ===== verification/CardanoKeys.thy ===== *)
theory CardanoKeys
  imports CardanoTx
begin

text \<open>
  \<open>src/swapsack/chains/cardano_keys.py\<close>: the Icarus master key, BIP32-Ed25519 derivation, the
  signature of an extended key and Shelley base addresses. libsodium's scalars and points, SHA-512,
  HMAC, PBKDF2, BLAKE2b and the mnemonic's entropy are the fields of \<open>ed_libs\<close>.
\<close>

section \<open>Keys\<close>

text \<open>\<open>el_base\<close> is None where libsodium refuses a scalar that is 0 modulo the group order.\<close>

record ed_libs =
  el_reduce :: "bytes \<Rightarrow> bytes"
  el_base :: "bytes \<Rightarrow> bytes option"
  el_scalar_add :: "bytes \<Rightarrow> bytes \<Rightarrow> bytes"
  el_scalar_mul :: "bytes \<Rightarrow> bytes \<Rightarrow> bytes"
  el_sha512 :: "bytes \<Rightarrow> bytes"
  el_hmac_sha512 :: "bytes \<Rightarrow> bytes \<Rightarrow> bytes"
  el_pbkdf2_sha512 :: "bytes \<Rightarrow> bytes \<Rightarrow> int \<Rightarrow> nat \<Rightarrow> bytes"
  el_verify :: "bytes \<Rightarrow> bytes \<Rightarrow> bytes \<Rightarrow> bool"
  el_entropy :: "pystr \<Rightarrow> bytes option"
  el_blake2b_224 :: "bytes \<Rightarrow> bytes"

datatype key_error = KeyPy py_error | LibsodiumRefused | BadSignature

definition key_py :: "py_error + 'a \<Rightarrow> key_error + 'a" where
  "key_py r = (case r of Inl e \<Rightarrow> Inl (KeyPy e) | Inr x \<Rightarrow> Inr x)"

definition HARDENED :: int where
  "HARDENED = 0x80000000"

definition ICARUS_ITERATIONS :: int where
  "ICARUS_ITERATIONS = 4096"

definition BASE_ADDRESS_MAINNET :: byte where
  "BASE_ADDRESS_MAINNET = 1"

definition ADDRESS_HRP :: pystr where
  "ADDRESS_HRP = lit ''addr''"

definition scalar_reduce :: "ed_libs \<Rightarrow> bytes \<Rightarrow> bytes" where
  "scalar_reduce lib scalar = el_reduce lib (scalar @ replicate (64 - length scalar) 0)"

definition base_point :: "ed_libs \<Rightarrow> bytes \<Rightarrow> key_error + bytes" where
  "base_point lib scalar = (case el_base lib scalar of None \<Rightarrow> Inl LibsodiumRefused | Some p \<Rightarrow> Inr p)"

definition key_point :: "ed_libs \<Rightarrow> bytes \<Rightarrow> key_error + bytes" where
  "key_point lib scalar = base_point lib (scalar_reduce lib scalar)"

record extended_key =
  ek_kl :: bytes
  ek_kr :: bytes
  ek_chain_code :: bytes

definition public_key :: "ed_libs \<Rightarrow> extended_key \<Rightarrow> key_error + bytes" where
  "public_key lib k = key_point lib (ek_kl k)"

text \<open>The two digests of a child: from the private key for a hardened index, else from the public one.\<close>

definition child_digests :: "ed_libs \<Rightarrow> extended_key \<Rightarrow> int \<Rightarrow> key_error + (bytes \<times> bytes)" where
  "child_digests lib k index =
     (let i = to_le 4 index; digest = el_hmac_sha512 lib (ek_chain_code k) in
      if HARDENED \<le> index then
        (let data = ek_kl k @ ek_kr k @ i in Inr (digest (0 # data), digest (1 # data)))
      else bind_res (public_key lib k) (\<lambda>public.
        let data = public @ i in Inr (digest (2 # data), digest (3 # data))))"

definition child :: "ed_libs \<Rightarrow> extended_key \<Rightarrow> int \<Rightarrow> key_error + extended_key" where
  "child lib k index =
     (if index < 0 \<or> 2 ^ 32 \<le> index then Inl (KeyPy OverflowError)
      else bind_res (child_digests lib k index) (\<lambda>(z, c).
        let kl = 8 * le_int (take 28 z) + le_int (ek_kl k) in
        if 2 ^ 256 \<le> kl then Inl (KeyPy ValueError)
        else
          let kr = (le_int (drop 32 z) + le_int (ek_kr k)) mod 2 ^ 256 in
          Inr \<lparr>ek_kl = to_le 32 kl, ek_kr = to_le 32 kr, ek_chain_code = drop 32 c\<rparr>))"

definition key_sign :: "ed_libs \<Rightarrow> extended_key \<Rightarrow> bytes \<Rightarrow> key_error + bytes" where
  "key_sign lib k message =
     bind_res (public_key lib k) (\<lambda>public.
     let r = scalar_reduce lib (el_sha512 lib (ek_kr k @ message)) in
     bind_res (base_point lib r) (\<lambda>big_r.
     let h = scalar_reduce lib (el_sha512 lib (big_r @ public @ message));
         s = el_scalar_add lib r (el_scalar_mul lib h (scalar_reduce lib (ek_kl k)));
         signature = big_r @ s in
     if el_verify lib public message signature then Inr signature else Inl BadSignature))"

text \<open>The clamping of the master scalar: a multiple of 8 with its two top bits set to 01 and bit 5 of the last byte clear.\<close>

definition clamp :: "bytes \<Rightarrow> bytes" where
  "clamp data =
     (let data = data[0 := data ! 0 AND 0xF8];
          data = data[31 := data ! 31 AND 0x1F] in
      data[31 := data ! 31 OR 0x40])"

definition root_key :: "ed_libs \<Rightarrow> pystr \<Rightarrow> pystr \<Rightarrow> key_error + extended_key" where
  "root_key lib mnemonic passphrase =
     (case el_entropy lib mnemonic of
        None \<Rightarrow> Inl (KeyPy ValueError)
      | Some entropy \<Rightarrow>
          if \<not> unicode_text passphrase then Inl (KeyPy ValueError)
          else
            let data = clamp (el_pbkdf2_sha512 lib (utf8_encode passphrase) entropy ICARUS_ITERATIONS 96) in
            Inr \<lparr>ek_kl = take 32 data, ek_kr = slice 32 64 data, ek_chain_code = drop 64 data\<rparr>)"

section \<open>Paths\<close>

definition parse_index :: "pystr \<Rightarrow> py_error + int" where
  "parse_index part =
     (let hardened = part \<noteq> [] \<and> last part \<in> set (lit [CHR 0x27, CHR ''h'']) in
      case py_int (if hardened then butlast part else part) of
        None \<Rightarrow> Inl ValueError
      | Some index \<Rightarrow> Inr (if hardened then index + HARDENED else index))"

definition parse_path :: "pystr \<Rightarrow> py_error + int list" where
  "parse_path path =
     (let parts = py_split (of_char CHR ''/'') path in
      if hd parts \<noteq> lit ''m'' then Inl ValueError else map_res parse_index (tl parts))"

fun derive_loop :: "ed_libs \<Rightarrow> extended_key \<Rightarrow> int list \<Rightarrow> key_error + extended_key" where
  "derive_loop lib key [] = Inr key"
| "derive_loop lib key (index # indices) =
     bind_res (child lib key index) (\<lambda>key. derive_loop lib key indices)"

definition derive :: "ed_libs \<Rightarrow> extended_key \<Rightarrow> pystr \<Rightarrow> key_error + extended_key" where
  "derive lib master path = bind_res (key_py (parse_path path)) (derive_loop lib master)"

definition base_address :: "ed_libs \<Rightarrow> bytes \<Rightarrow> bytes \<Rightarrow> key_error + pystr" where
  "base_address lib payment_pub stake_pub =
     key_py (of_b32 (bech32_encode ADDRESS_HRP
       (BASE_ADDRESS_MAINNET # el_blake2b_224 lib payment_pub @ el_blake2b_224 lib stake_pub)))"

section \<open>Derived keys\<close>

text \<open>
  What is relied on of libsodium and the hashes: scalars are 32 little-endian bytes taken modulo the
  group order, \<open>pt n\<close> is the encoding of the n-fold base point, which is refused for n = 0 only, and
  digests have their lengths.
\<close>

definition ED_ORDER :: int where
  "ED_ORDER = 2 ^ 252 + 27742317777372353535851937790883648493"

definition ed_ok :: "ed_libs \<Rightarrow> (int \<Rightarrow> bytes) \<Rightarrow> bool" where
  "ed_ok lib pt \<longleftrightarrow>
     (\<forall>b. length b = 64 \<longrightarrow> el_reduce lib b = to_le 32 (le_int b mod ED_ORDER))
   \<and> (\<forall>s. length s = 32 \<longrightarrow>
        el_base lib s = (if le_int s mod ED_ORDER = 0 then None else Some (pt (le_int s mod ED_ORDER))))
   \<and> (\<forall>a b. el_scalar_add lib a b = to_le 32 ((le_int a + le_int b) mod ED_ORDER))
   \<and> (\<forall>a b. el_scalar_mul lib a b = to_le 32 ((le_int a * le_int b) mod ED_ORDER))
   \<and> (\<forall>n. length (pt n) = 32)
   \<and> (\<forall>b. length (el_sha512 lib b) = 64) \<and> (\<forall>k b. length (el_hmac_sha512 lib k b) = 64)
   \<and> (\<forall>p s i n. length (el_pbkdf2_sha512 lib p s i n) = n) \<and> (\<forall>b. length (el_blake2b_224 lib b) = 28)"

text \<open>
  A key n levels below the master key. Its scalar is a multiple of the cofactor 8 and has bit 254
  set; each level adds less than \<open>2 ^ 227\<close> to it.
\<close>

definition usable_key :: "nat \<Rightarrow> extended_key \<Rightarrow> bool" where
  "usable_key n k \<longleftrightarrow>
     length (ek_kl k) = 32 \<and> length (ek_kr k) = 32 \<and> length (ek_chain_code k) = 32
   \<and> 8 dvd le_int (ek_kl k) \<and> 2 ^ 254 \<le> le_int (ek_kl k)
   \<and> le_int (ek_kl k) < 2 ^ 254 + 2 ^ 253 + int n * 2 ^ 227"

definition MAX_DEPTH :: nat where
  "MAX_DEPTH = 2 ^ 26"

lemma le_int_append: "le_int (a @ b) = le_int a + 256 ^ length a * le_int b"
  by (induction a) (simp_all add: algebra_simps)

lemma le_int_zeros [simp]: "le_int (replicate n 0) = 0"
  by (induction n) simp_all

lemma ED_ORDER_pos: "0 < ED_ORDER" "ED_ORDER < 256 ^ 32" "ED_ORDER mod 8 = 5" "2 ^ 255 < 8 * ED_ORDER"
  by (simp_all add: ED_ORDER_def)

lemma reduced: "ed_ok lib pt \<Longrightarrow> length s \<le> 64 \<Longrightarrow> scalar_reduce lib s = to_le 32 (le_int s mod ED_ORDER)"
  by (simp add: ed_ok_def scalar_reduce_def le_int_append)

lemma order_scalar [simp]: "le_int (to_le 32 (n mod ED_ORDER)) = n mod ED_ORDER"
proof -
  have "0 \<le> n mod ED_ORDER" "n mod ED_ORDER < 256 ^ 32"
    using pos_mod_sign [OF ED_ORDER_pos(1), of n] pos_mod_bound [OF ED_ORDER_pos(1), of n] ED_ORDER_pos(2) by linarith+
  then show ?thesis by (rule le_int_to_le)
qed

text \<open>A scalar below \<open>2 ^ 255\<close> that is a multiple of 8 is not 0 in the group, unless it is 0.\<close>

lemma cofactor_nonzero:
  assumes "8 dvd n" "0 < n" "n < 2 ^ 255"
  shows "n mod ED_ORDER \<noteq> 0"
proof
  assume "n mod ED_ORDER = 0"
  then obtain q where q: "n = ED_ORDER * q" by auto
  have "(ED_ORDER mod 8) * q mod 8 = 0" using assms(1) by (simp add: q mod_mult_left_eq)
  then have "8 dvd q" by (simp add: ED_ORDER_pos(3)) presburger
  moreover have "0 < q" using assms(2) ED_ORDER_pos(1) by (simp add: q zero_less_mult_iff)
  ultimately have "8 \<le> q" by (auto dest: zdvd_imp_le)
  then have "ED_ORDER * 8 \<le> n" using ED_ORDER_pos(1) by (simp add: q mult_left_mono)
  with assms(3) ED_ORDER_pos(4) show False by simp
qed

text \<open>The bounds of a child's scalar and of the master scalar, by the numbers alone.\<close>

lemma child_scalar:
  fixes x k m :: int
  assumes "0 \<le> x" "x < 256 ^ 28" "2 ^ 254 \<le> k" "k < 2 ^ 254 + 2 ^ 253 + m * 2 ^ 227" "m \<le> 2 ^ 26 - 1"
  shows "8 * x + k < 2 ^ 254 + 2 ^ 253 + (m + 1) * 2 ^ 227" "8 * x + k < 2 ^ 256" "2 ^ 254 \<le> 8 * x + k"
  using assms by simp_all

lemma root_scalar:
  fixes x m y :: int
  assumes "0 \<le> x" "x < 256" "0 \<le> m" "m < 256 ^ 30" "0x40 \<le> y" "y < 0x60"
  shows "2 ^ 254 \<le> x + 256 * (m + 256 ^ 30 * y)" "x + 256 * (m + 256 ^ 30 * y) < 2 ^ 254 + 2 ^ 253"
  using assms by simp_all

lemma public_key_exists:
  assumes "ed_ok lib pt" "usable_key n k" "n \<le> MAX_DEPTH"
  shows "public_key lib k = Inr (pt (le_int (ek_kl k) mod ED_ORDER))" "le_int (ek_kl k) mod ED_ORDER \<noteq> 0"
proof -
  have "int n * 2 ^ 227 \<le> 2 ^ 26 * 2 ^ 227" using assms(3) by (simp add: MAX_DEPTH_def)
  then have "le_int (ek_kl k) < 2 ^ 255" using assms(2) by (simp add: usable_key_def)
  then show nz: "le_int (ek_kl k) mod ED_ORDER \<noteq> 0"
    using assms(2) by (intro cofactor_nonzero) (simp_all add: usable_key_def)
  have "scalar_reduce lib (ek_kl k) = to_le 32 (le_int (ek_kl k) mod ED_ORDER)"
    using assms(1,2) by (simp add: reduced usable_key_def)
  moreover have "el_base lib (to_le 32 (le_int (ek_kl k) mod ED_ORDER)) = Some (pt (le_int (ek_kl k) mod ED_ORDER))"
    using assms(1) nz by (simp add: ed_ok_def)
  ultimately show "public_key lib k = Inr (pt (le_int (ek_kl k) mod ED_ORDER))"
    by (simp add: public_key_def key_point_def base_point_def)
qed

lemma child_usable:
  assumes "ed_ok lib pt" "usable_key n k" "n < MAX_DEPTH" "0 \<le> index" "index < 2 ^ 32"
  obtains c where "child lib k index = Inr c" "usable_key (Suc n) c"
proof -
  obtain z c where zc: "child_digests lib k index = Inr (z, c)" "length z = 64" "length c = 64"
  proof -
    have "length (el_hmac_sha512 lib a b) = 64" for a b using assms(1) by (simp add: ed_ok_def)
    moreover have "\<exists>z c. child_digests lib k index = Inr (z, c) \<and> (\<exists>a b a' b'. z = el_hmac_sha512 lib a b \<and> c = el_hmac_sha512 lib a' b')"
      using public_key_exists(1) [OF assms(1,2)] assms(3) by (auto simp: child_digests_def Let_def)
    ultimately show thesis using that by auto
  qed
  let ?kl = "8 * le_int (take 28 z) + le_int (ek_kl k)" and ?kr = "(le_int (drop 32 z) + le_int (ek_kr k)) mod 2 ^ 256"
  have "le_int (take 28 z) < 256 ^ 28" using le_int_bound [of "take 28 z"] zc(2) by simp
  moreover have "int n \<le> 2 ^ 26 - 1" using assms(3) by (simp add: MAX_DEPTH_def)
  ultimately have kl: "?kl < 2 ^ 254 + 2 ^ 253 + int (Suc n) * 2 ^ 227" "?kl < 2 ^ 256" "2 ^ 254 \<le> ?kl" "8 dvd ?kl"
    using child_scalar [of "le_int (take 28 z)" "le_int (ek_kl k)" "int n"] assms(2)
    by (simp_all add: usable_key_def algebra_simps)
  have reads: "le_int (to_le 32 ?kl) = ?kl" using kl(2) by (intro le_int_to_le) simp_all
  have made: "child lib k index = Inr \<lparr>ek_kl = to_le 32 ?kl, ek_kr = to_le 32 ?kr, ek_chain_code = drop 32 c\<rparr>"
    using assms(4,5) kl(2) by (simp add: child_def zc(1) Let_def)
  show thesis
    by (rule that [OF made]) (use kl reads zc(3) in \<open>simp add: usable_key_def\<close>)
qed

lemma derive_loop_usable:
  assumes "ed_ok lib pt" "usable_key n k" "n + length indices \<le> MAX_DEPTH" "\<forall>i \<in> set indices. 0 \<le> i \<and> i < 2 ^ 32"
  obtains c where "derive_loop lib k indices = Inr c" "usable_key (n + length indices) c"
  using assms(2-4)
proof (induction indices arbitrary: n k thesis)
  case Nil
  then show ?case by simp
next
  case (Cons i indices)
  obtain c where c: "child lib k i = Inr c" "usable_key (Suc n) c"
    by (rule child_usable [OF assms(1) Cons.prems(2), of i]) (use Cons.prems in auto)
  show ?case
    by (rule Cons.IH [OF _ c(2)]) (use Cons.prems c in auto)
qed

lemma and_low3: "uint (b AND 0xF8 :: byte) mod 8 = 0"
proof -
  have "take_bit 3 (uint b AND 0xF8) = (0 :: int)" by (simp add: take_bit_and)
  then show ?thesis by (simp add: uint_and take_bit_eq_mod)
qed

lemma top_bits: "0x40 \<le> uint ((b AND 0x1F) OR 0x40 :: byte)" "uint ((b AND 0x1F) OR 0x40 :: byte) < 0x60"
proof -
  let ?n = "uint b AND 0x1F"
  have "?n = take_bit 5 (uint b)" by (simp add: take_bit_eq_mask mask_eq_exp_minus_1)
  then have n: "0 \<le> ?n" "?n < 32" by (simp_all add: take_bit_eq_mod)
  have "?n AND 0x40 = 0" by (simp add: and.assoc)
  then have "?n OR 0x40 = ?n + 0x40" using plus_and_or [of ?n "0x40"] by simp
  moreover have "uint ((b AND 0x1F) OR 0x40) = ?n OR 0x40" by (simp add: uint_or uint_and)
  ultimately show "0x40 \<le> uint ((b AND 0x1F) OR 0x40 :: byte)" "uint ((b AND 0x1F) OR 0x40 :: byte) < 0x60"
    using n by simp_all
qed

lemma clamp_parts:
  assumes "length data = 96"
  obtains x mid y rest where "clamp data = (x AND 0xF8) # mid @ ((y AND 0x1F) OR 0x40) # rest"
    "length mid = 30" "length rest = 64"
proof -
  obtain x t where x: "data = x # t" using assms by (cases data) auto
  let ?mid = "take 30 t" and ?y = "t ! 30" and ?rest = "drop 31 t"
  have t: "t = ?mid @ ?y # ?rest" "length ?mid = 30" "length ?rest = 64"
    using id_take_nth_drop [of 30 t] assms x by simp_all
  have "clamp data = (x AND 0xF8) # (?mid @ ?y # ?rest)[30 := (?y AND 0x1F) OR 0x40]"
    using t(1) assms by (simp add: clamp_def x Let_def)
  also have "(?mid @ ?y # ?rest)[30 := (?y AND 0x1F) OR 0x40] = ?mid @ ((?y AND 0x1F) OR 0x40) # ?rest"
    using t(2) by (simp add: list_update_append)
  finally show thesis using that t(2,3) by blast
qed

lemma root_key_usable:
  assumes "ed_ok lib pt" "root_key lib mnemonic passphrase = Inr k"
  shows "usable_key 0 k"
proof -
  obtain d where d: "length d = 96" "k = \<lparr>ek_kl = take 32 (clamp d), ek_kr = slice 32 64 (clamp d), ek_chain_code = drop 64 (clamp d)\<rparr>"
  proof -
    have "length (el_pbkdf2_sha512 lib a b i 96) = 96" for a b i using assms(1) by (simp add: ed_ok_def)
    with assms(2) that show thesis by (fastforce simp: root_key_def Let_def split: option.splits if_splits)
  qed
  obtain x mid y rest where c: "clamp d = (x AND 0xF8) # mid @ ((y AND 0x1F) OR 0x40) # rest"
      "length mid = 30" "length rest = 64"
    by (rule clamp_parts [OF d(1)])
  have kl: "ek_kl k = (x AND 0xF8) # mid @ [(y AND 0x1F) OR 0x40]" by (simp add: d(2) c)
  have "le_int mid < 256 ^ 30" using le_int_bound [of mid] c(2) by simp
  moreover have "le_int (ek_kl k) = uint (x AND 0xF8) + 256 * (le_int mid + 256 ^ 30 * uint ((y AND 0x1F) OR 0x40))"
    by (simp add: kl le_int_append c(2))
  ultimately have "2 ^ 254 \<le> le_int (ek_kl k)" "le_int (ek_kl k) < 2 ^ 254 + 2 ^ 253"
    using root_scalar [OF uint_ge_0 uint_byte_lt le_int_nonneg _ top_bits] by simp_all
  moreover have "8 dvd le_int (ek_kl k)"
  proof -
    have "8 dvd uint (x AND 0xF8)" using and_low3 [of x] by presburger
    moreover have "le_int (ek_kl k) = uint (x AND 0xF8) + 8 * (32 * le_int (mid @ [(y AND 0x1F) OR 0x40]))"
      by (simp add: kl)
    ultimately show ?thesis by (metis dvd_add dvd_triv_left)
  qed
  ultimately show ?thesis using c d(2) by (simp add: usable_key_def slice_def)
qed

text \<open>
  C30: A derivation path never fails half-way and never yields an unusable key. From a master key,
  which is clamped, every path of at most \<open>2 ^ 26\<close> components within range is derived: the scalar grows
  by less than \<open>2 ^ 227\<close> a level, so the check for an overflow is never met, it stays a multiple of the
  cofactor with bit 254 set, and since it is below 8 times the group order it is never 0 in the group,
  so the key has a public key.
\<close>

theorem derived_key_usable:
  assumes "ed_ok lib pt" "root_key lib mnemonic passphrase = Inr master" "parse_path path = Inr indices"
    and "length indices \<le> MAX_DEPTH" "\<forall>i \<in> set indices. 0 \<le> i \<and> i < 2 ^ 32"
  shows "\<exists>k public. derive lib master path = Inr k \<and> usable_key (length indices) k
    \<and> public_key lib k = Inr public \<and> length public = 32"
proof -
  obtain k where k: "derive_loop lib master indices = Inr k" "usable_key (0 + length indices) k"
    by (rule derive_loop_usable [OF assms(1) root_key_usable [OF assms(1,2)]]) (use assms(4,5) in auto)
  then have k': "usable_key (length indices) k" by simp
  have "length (pt n) = 32" for n using assms(1) by (simp add: ed_ok_def)
  then show ?thesis
    using k(1) k' public_key_exists(1) [OF assms(1) k' assms(4)] by (simp add: derive_def key_py_def assms(3))
qed

section \<open>Signatures\<close>

text \<open>
  The group of Ed25519 and its verification: a signature whose equation \<open>S B = R + H(R A M) A\<close> holds is
  accepted, for a key and a nonce that are not 0.
\<close>

definition ed_group :: "ed_libs \<Rightarrow> (int \<Rightarrow> bytes) \<Rightarrow> (bytes \<Rightarrow> bytes \<Rightarrow> bytes) \<Rightarrow> (int \<Rightarrow> bytes \<Rightarrow> bytes) \<Rightarrow> bool" where
  "ed_group lib pt padd pmul \<longleftrightarrow>
     (\<forall>m n. padd (pt (m mod ED_ORDER)) (pt (n mod ED_ORDER)) = pt ((m + n) mod ED_ORDER))
   \<and> (\<forall>h n. pmul h (pt (n mod ED_ORDER)) = pt (h * n mod ED_ORDER))
   \<and> (\<forall>a r s message. a mod ED_ORDER \<noteq> 0 \<longrightarrow> r mod ED_ORDER \<noteq> 0 \<longrightarrow>
        pt (s mod ED_ORDER) = padd (pt (r mod ED_ORDER))
          (pmul (le_int (el_sha512 lib (pt (r mod ED_ORDER) @ pt (a mod ED_ORDER) @ message)) mod ED_ORDER)
             (pt (a mod ED_ORDER))) \<longrightarrow>
        el_verify lib (pt (a mod ED_ORDER)) message (pt (r mod ED_ORDER) @ to_le 32 (s mod ED_ORDER)))"

definition nonce :: "ed_libs \<Rightarrow> extended_key \<Rightarrow> bytes \<Rightarrow> int" where
  "nonce lib k message = le_int (el_sha512 lib (ek_kr k @ message)) mod ED_ORDER"

text \<open>
  A derived key signs: the signature it computes from \<open>kL\<close> and \<open>kR\<close> is an ordinary Ed25519 signature
  that verifies under its public key, so its self-check never refuses. Only a nonce digest that
  is 0 modulo the group order is refused, by libsodium.
\<close>

lemma key_sign_verifies:
  assumes "ed_ok lib pt" "ed_group lib pt padd pmul" "usable_key n k" "n \<le> MAX_DEPTH"
  shows "nonce lib k message = 0 \<Longrightarrow> key_sign lib k message = Inl LibsodiumRefused"
    and "nonce lib k message \<noteq> 0 \<Longrightarrow>
      \<exists>public sig. public_key lib k = Inr public \<and> key_sign lib k message = Inr sig
        \<and> length sig = 64 \<and> el_verify lib public message sig"
proof -
  let ?a = "le_int (ek_kl k)" and ?r = "le_int (el_sha512 lib (ek_kr k @ message))"
  note public = public_key_exists [OF assms(1,3,4)]
  have ok: "length (el_sha512 lib b) = 64" "length (pt j) = 32" for b j using assms(1) by (simp_all add: ed_ok_def)
  have base: "el_base lib (to_le 32 (j mod ED_ORDER))
      = (if j mod ED_ORDER = 0 then None else Some (pt (j mod ED_ORDER)))" for j
    using assms(1) by (simp add: ed_ok_def)
  have r: "scalar_reduce lib (el_sha512 lib (ek_kr k @ message)) = to_le 32 (?r mod ED_ORDER)"
    by (simp add: reduced [OF assms(1)] ok)
  show "key_sign lib k message = Inl LibsodiumRefused" if "nonce lib k message = 0"
  proof -
    have "el_base lib (to_le 32 0) = None" using base [of 0] by simp
    with that show ?thesis by (simp add: key_sign_def public(1) r base_point_def nonce_def Let_def)
  qed
  show "\<exists>public sig. public_key lib k = Inr public \<and> key_sign lib k message = Inr sig
      \<and> length sig = 64 \<and> el_verify lib public message sig" if nz: "nonce lib k message \<noteq> 0"
  proof -
    let ?R = "pt (?r mod ED_ORDER)" and ?A = "pt (?a mod ED_ORDER)"
    let ?h = "le_int (el_sha512 lib (?R @ ?A @ message))"
    have nz: "?r mod ED_ORDER \<noteq> 0" using nz by (simp add: nonce_def)
    have h: "scalar_reduce lib (el_sha512 lib (?R @ ?A @ message)) = to_le 32 (?h mod ED_ORDER)"
      by (simp add: reduced [OF assms(1)] ok)
    have a: "scalar_reduce lib (ek_kl k) = to_le 32 (?a mod ED_ORDER)"
      using assms(3) by (simp add: reduced [OF assms(1)] usable_key_def)
    let ?s = "?r + ?h * ?a"
    have s: "el_scalar_add lib (to_le 32 (?r mod ED_ORDER)) (el_scalar_mul lib (to_le 32 (?h mod ED_ORDER))
        (to_le 32 (?a mod ED_ORDER))) = to_le 32 (?s mod ED_ORDER)"
      using assms(1) by (simp add: ed_ok_def mod_simps)
    have "pt (?s mod ED_ORDER) = padd ?R (pmul (?h mod ED_ORDER) ?A)"
      using assms(2) by (simp add: ed_group_def mod_simps)
    then have "el_verify lib ?A message (?R @ to_le 32 (?s mod ED_ORDER))"
      using assms(2) public(2) nz unfolding ed_group_def by blast
    then show ?thesis
      using nz by (simp add: key_sign_def public(1) r base_point_def base h a s Let_def ok)
  qed
qed

section \<open>A run\<close>

text \<open>The libraries instantiated: the group of the integers modulo the order, whose points are numbers.\<close>

definition ex_pt :: "int \<Rightarrow> bytes" where
  "ex_pt n = to_le 32 (n mod ED_ORDER)"

definition ex_digest :: "bytes \<Rightarrow> bytes" where
  "ex_digest b = take 64 (b @ replicate 64 7)"

definition ex_sha512 :: "bytes \<Rightarrow> bytes" where
  "ex_sha512 b = to_le 64 (int (length b) mod 1000 + 1)"

definition ex_ed :: ed_libs where
  "ex_ed =
     \<lparr>el_reduce = (\<lambda>b. to_le 32 (le_int b mod ED_ORDER)),
      el_base = (\<lambda>s. if le_int s mod ED_ORDER = 0 then None else Some (ex_pt (le_int s))),
      el_scalar_add = (\<lambda>a b. to_le 32 ((le_int a + le_int b) mod ED_ORDER)),
      el_scalar_mul = (\<lambda>a b. to_le 32 (le_int a * le_int b mod ED_ORDER)),
      el_sha512 = ex_sha512,
      el_hmac_sha512 = (\<lambda>k b. ex_digest (drop 1 b)),
      el_pbkdf2_sha512 = (\<lambda>password salt iterations n. take n (salt @ replicate n 9)),
      el_verify = (\<lambda>A message sig. le_int (drop 32 sig) mod ED_ORDER
         = (le_int (take 32 sig) + le_int (ex_sha512 (take 32 sig @ A @ message)) * le_int A) mod ED_ORDER),
      el_entropy = (\<lambda>mnemonic. Some (replicate 16 5)),
      el_blake2b_224 = (\<lambda>b. take 28 (b @ replicate 28 0))\<rparr>"

lemma ex_ed_ok: "ed_ok ex_ed ex_pt"
  by (auto simp: ed_ok_def ex_ed_def ex_pt_def ex_digest_def ex_sha512_def min_def)

lemma ex_ed_group:
  "ed_group ex_ed ex_pt (\<lambda>p q. ex_pt (le_int p + le_int q)) (\<lambda>h p. ex_pt (h * le_int p))"
proof -
  have pt: "le_int (ex_pt n) = n mod ED_ORDER" "length (ex_pt n) = 32"
      "ex_pt (m mod ED_ORDER) = ex_pt m" for n m b
    by (simp_all add: ex_pt_def)
  have same: "m mod ED_ORDER = n mod ED_ORDER" if "ex_pt m = ex_pt n" for m n
    using that pt(1) by metis
  have sha: "el_sha512 ex_ed = ex_sha512" by (simp add: ex_ed_def)
  have verify: "el_verify ex_ed A message (ex_pt r @ to_le 32 (s mod ED_ORDER))
      \<longleftrightarrow> s mod ED_ORDER = (r + le_int (ex_sha512 (ex_pt r @ A @ message)) * le_int A) mod ED_ORDER" for A message r s
    by (simp add: ex_ed_def pt mod_simps)
  show ?thesis
    unfolding ed_group_def
  proof (intro conjI allI impI)
    fix a r s message
    let ?h = "le_int (el_sha512 ex_ed (ex_pt (r mod ED_ORDER) @ ex_pt (a mod ED_ORDER) @ message))"
    assume "ex_pt (s mod ED_ORDER) = ex_pt (le_int (ex_pt (r mod ED_ORDER))
        + le_int (ex_pt (?h mod ED_ORDER * le_int (ex_pt (a mod ED_ORDER)))))"
    then have "s mod ED_ORDER = (r + ?h * a) mod ED_ORDER" by (auto simp: pt(1,3) mod_simps dest: same)
    moreover have "(r + ?h * (a mod ED_ORDER)) mod ED_ORDER = (r + ?h * a) mod ED_ORDER"
      by (metis mod_add_right_eq mod_mult_right_eq)
    ultimately show "el_verify ex_ed (ex_pt (a mod ED_ORDER)) message (ex_pt (r mod ED_ORDER) @ to_le 32 (s mod ED_ORDER))"
      by (simp add: verify pt(1,3) sha mod_simps)
  qed (simp_all add: pt mod_simps ex_pt_def)
qed

lemma ex_nonce: "nonce ex_ed k message \<noteq> 0"
proof -
  define n where "n = int (length (ek_kr k @ message)) mod 1000 + 1"
  have n: "0 < n" "n < ED_ORDER" "n < 256 ^ 64"
    using pos_mod_bound [of 1000 "int (length (ek_kr k @ message))"] pos_mod_sign [of 1000 "int (length (ek_kr k @ message))"]
    by (simp_all add: n_def ED_ORDER_def)
  have "el_sha512 ex_ed (ek_kr k @ message) = to_le 64 n" by (simp add: ex_ed_def ex_sha512_def n_def)
  then have "nonce ex_ed k message = n mod ED_ORDER" using n by (simp add: nonce_def le_int_to_le)
  then show ?thesis using n by simp
qed

lemma ex_path: "parse_path (lit ''m/1852'/1815'/0'/0/7'') = Inr [HARDENED + 1852, HARDENED + 1815, HARDENED, 0, 7]"
  by (simp add: parse_path_def parse_index_def lit_def py_int_def Let_def HARDENED_def py_strip_def
      py_space_def is_digit_def)

lemma derived_key_usable_witness:
  "\<exists>master k public. root_key ex_ed [] [] = Inr master \<and> derive ex_ed master (lit ''m/1852'/1815'/0'/0/7'') = Inr k
    \<and> usable_key 5 k \<and> public_key ex_ed k = Inr public \<and> length public = 32"
proof -
  obtain master where m: "root_key ex_ed [] [] = Inr master"
    by (simp add: root_key_def ex_ed_def Let_def)
  let ?indices = "[HARDENED + 1852, HARDENED + 1815, HARDENED, 0, 7]"
  have len: "length ?indices = 5" by simp
  have "\<forall>i \<in> set ?indices. 0 \<le> i \<and> i < 2 ^ 32" by (simp add: HARDENED_def)
  moreover have "length ?indices \<le> MAX_DEPTH" unfolding len by (simp add: MAX_DEPTH_def)
  ultimately show ?thesis
    using m derived_key_usable [OF ex_ed_ok m ex_path] unfolding len by blast
qed

end
