(* ===== verification/Cardano.thy ===== *)
theory Cardano
  imports CardanoKeys Gated Explorer
begin

text \<open>
  \<open>src/swapsack/chains/cardano.py\<close>: the Koios client and the ADA adapter, which plugs its own builder
  into the gate wrappers of \<open>Gated\<close>. Amounts are in 1e-8 ADA on the adapter's surface and in lovelace
  (1e-6 ADA) inside a transaction. The libraries are those of \<open>CardanoTx\<close> and \<open>CardanoKeys\<close>; the HTTP
  session is the record \<open>ada_env\<close>. A build gets the protocol parameters and the tip as arguments, since
  it asks for them once and a failed request raises before anything is built.
\<close>

section \<open>Constants\<close>

definition ADA_ACCOUNT :: pystr where
  "ADA_ACCOUNT = lit ''m/1852'/1815'/0'' @ [of_char (CHR 0x27)]"

definition ADA_DEFAULT_DERIVATION :: pystr where
  "ADA_DEFAULT_DERIVATION = ADA_ACCOUNT @ lit ''/0/0''"

definition ADA_CHANGE_PATH :: pystr where
  "ADA_CHANGE_PATH = ADA_ACCOUNT @ lit ''/1/0''"

definition STAKE_ROLE_INDEX :: pystr where
  "STAKE_ROLE_INDEX = lit ''2/0''"

definition LOVELACE_TO_UNITS :: int where
  "LOVELACE_TO_UNITS = 100"

definition TTL_SLOTS :: int where
  "TTL_SLOTS = 7200"

definition MEMO_MAX_BYTES :: nat where
  "MEMO_MAX_BYTES = 250"

definition ADA_DEFAULT_MAX_FEE :: int where
  "ADA_DEFAULT_MAX_FEE = 50000000"

section \<open>Koios\<close>

definition parse_address_info :: "json \<Rightarrow> py_error + address_info" where
  "parse_address_info rows =
     (if \<not> json_truthy rows then Inr \<lparr>ai_has_history = False, ai_confirmed = 0, ai_pending = 0\<rparr>
      else bind_res (bind_res (jhead rows) (\<lambda>row. jint_at row (lit ''balance''))) (\<lambda>n.
        Inr \<lparr>ai_has_history = True, ai_confirmed = n * LOVELACE_TO_UNITS, ai_pending = 0\<rparr>))"

record ('w, 'p) ada_env =
  ae_get :: "pystr \<Rightarrow> params \<Rightarrow> ('w, 'p, response) io"
  ae_post_query :: "pystr \<Rightarrow> json \<Rightarrow> ('w, 'p, response) io"
  ae_post :: "pystr \<Rightarrow> bytes \<Rightarrow> ('w, 'p, response) io"
  ae_api_url :: pystr

definition koios_answer :: "response \<Rightarrow> ('w, 'p, json) io" where
  "koios_answer resp = and_then (raise_for_status resp) (\<lambda>_. resp_json resp)"

definition koios_query :: "('w, 'p) ada_env \<Rightarrow> pystr \<Rightarrow> json \<Rightarrow> ('w, 'p, json) io" where
  "koios_query env endpoint body =
     and_then (ae_post_query env (ae_api_url env @ lit ''/'' @ endpoint) body) koios_answer"

definition koios_fetch :: "('w, 'p) ada_env \<Rightarrow> pystr \<Rightarrow> params \<Rightarrow> ('w, 'p, json) io" where
  "koios_fetch env endpoint query =
     and_then (ae_get env (ae_api_url env @ lit ''/'' @ endpoint) query) koios_answer"

definition address_rows :: "('w, 'p) ada_env \<Rightarrow> pystr \<Rightarrow> ('w, 'p, json) io" where
  "address_rows env address =
     koios_query env (lit ''address_info'') (JObj [(lit ''_addresses'', JList [JStr address])])"

definition ada_address_info :: "('w, 'p) ada_env \<Rightarrow> pystr \<Rightarrow> ('w, 'p, address_info) io" where
  "ada_address_info env address = and_then (address_rows env address) (\<lambda>rows. of_py (parse_address_info rows))"

definition tip_slot :: "('w, 'p) ada_env \<Rightarrow> ('w, 'p, int) io" where
  "tip_slot env =
     and_then (koios_fetch env (lit ''tip'') []) (\<lambda>body.
       of_py (bind_res (jhead body) (\<lambda>row. jint_at row (lit ''abs_slot''))))"

text \<open>\<open>epoch - 1\<close>. An epoch that is no integer is a TypeError here, also the float Python would accept.\<close>

fun epoch_before :: "json \<Rightarrow> py_error + json" where
  "epoch_before (JInt n) = Inr (JInt (n - 1))"
| "epoch_before (JBool b) = Inr (JInt (of_bool b - 1))"
| "epoch_before _ = Inl TypeError"

definition parse_params :: "json \<Rightarrow> py_error + protocol_params" where
  "parse_params rows =
     bind_res (jhead rows) (\<lambda>row.
     bind_res (jint_at row (lit ''min_fee_a'')) (\<lambda>a.
     bind_res (jint_at row (lit ''min_fee_b'')) (\<lambda>b.
     bind_res (jint_at row (lit ''coins_per_utxo_size'')) (\<lambda>c.
     bind_res (jint_at row (lit ''max_tx_size'')) (\<lambda>m.
       Inr \<lparr>pp_min_fee_a = a, pp_min_fee_b = b, pp_coins_per_utxo_byte = c, pp_max_tx_size = m\<rparr>)))))"

text \<open>What is cached comes in; what comes out is cached.\<close>

definition protocol_params_of ::
  "('w, 'p) ada_env \<Rightarrow> protocol_params option \<Rightarrow> ('w, 'p, protocol_params) io" where
  "protocol_params_of env cached =
     (case cached of
        Some p \<Rightarrow> ret p
      | None \<Rightarrow>
          and_then (koios_fetch env (lit ''tip'') []) (\<lambda>tip.
          and_then (of_py (bind_res (jhead tip) (\<lambda>row. jindex row (lit ''epoch_no'')))) (\<lambda>epoch.
          and_then (koios_fetch env (lit ''epoch_params'') [(lit ''_epoch_no'', epoch)]) (\<lambda>rows.
          and_then (if json_truthy rows then ret rows
                    else and_then (of_py (epoch_before epoch)) (\<lambda>e.
                           koios_fetch env (lit ''epoch_params'') [(lit ''_epoch_no'', e)])) (\<lambda>rows.
            of_py (parse_params rows))))))"

text \<open>A transaction id that is no string, which a builder cannot use, is a TypeError.\<close>

definition parse_ada_utxo :: "pystr \<Rightarrow> json \<Rightarrow> py_error + utxo option" where
  "parse_ada_utxo address u =
     bind_res (jget u (lit ''asset_list'')) (\<lambda>assets.
     if json_truthy assets then Inr None
     else
       bind_res (jget u (lit ''reference_script'')) (\<lambda>script.
       if json_truthy script then Inr None
       else
         bind_res (jindex u (lit ''tx_hash'')) (\<lambda>h.
         bind_res (jint_at u (lit ''tx_index'')) (\<lambda>vout.
         bind_res (jint_at u (lit ''value'')) (\<lambda>n.
           case h of
             JStr txid \<Rightarrow> Inr (Some \<lparr>u_txid = txid, u_vout = vout, u_value = n * LOVELACE_TO_UNITS,
               u_address = address, u_path = None, u_confirmed = True, u_ancestor_deficit = 0\<rparr>)
           | _ \<Rightarrow> Inl TypeError)))))"

definition parse_ada_utxos :: "pystr \<Rightarrow> json \<Rightarrow> py_error + utxo list" where
  "parse_ada_utxos address rows =
     bind_res (json_iter rows) (\<lambda>rows.
     bind_res (map_res (\<lambda>row.
         bind_res (jget_or row (lit ''utxo_set'') (JList [])) (\<lambda>us.
         bind_res (json_iter us) (map_res (parse_ada_utxo address)))) rows) (\<lambda>found.
       Inr (List.map_filter id (concat found))))"

definition ada_fetch_utxos :: "('w, 'p) ada_env \<Rightarrow> pystr \<Rightarrow> ('w, 'p, utxo list) io" where
  "ada_fetch_utxos env address =
     and_then (address_rows env address) (\<lambda>rows. of_py (parse_ada_utxos address rows))"

definition ada_fetch_fee_rate :: float64 where
  "ada_fetch_fee_rate = Flt 0 0"

section \<open>Keys and addresses\<close>

fun join_slash :: "pystr list \<Rightarrow> pystr" where
  "join_slash [] = []"
| "join_slash [p] = p"
| "join_slash (p # q # ps) = p @ of_char CHR ''/'' # join_slash (q # ps)"

text \<open>\<open>path.rsplit("/", 2)[0]\<close>.\<close>

definition account_of :: "pystr \<Rightarrow> pystr" where
  "account_of path =
     (let parts = py_split (of_char CHR ''/'') path in join_slash (take (max 1 (length parts - 2)) parts))"

definition ada_derive_address :: "ed_libs \<Rightarrow> pystr \<Rightarrow> pystr \<Rightarrow> pystr \<Rightarrow> key_error + pystr" where
  "ada_derive_address ed passphrase mnemonic path =
     bind_res (key_py (parse_path path)) (\<lambda>indices.
     if length indices \<noteq> 5 then Inl (KeyPy ValueError)
     else
       bind_res (root_key ed mnemonic passphrase) (\<lambda>master.
       bind_res (bind_res (derive ed master path) (public_key ed)) (\<lambda>payment.
       bind_res (bind_res (derive ed master (account_of path @ lit ''/'' @ STAKE_ROLE_INDEX)) (public_key ed)) (\<lambda>stake.
         base_address ed payment stake))))"

definition ada_wallet_balance ::
  "(pystr \<Rightarrow> pystr) \<Rightarrow> (pystr \<Rightarrow> address_info) \<Rightarrow> pystr \<Rightarrow> balance_report option" where
  "ada_wallet_balance derive_address probe account =
     wallet_balance_from_scan derive_address probe account (lit ''ADA'') 8"

definition key_res :: "key_error + 'a \<Rightarrow> build_error + 'a" where
  "key_res r =
     (case r of
        Inl (KeyPy e) \<Rightarrow> Inl (BuildPy e)
      | Inl e \<Rightarrow> Inl LibraryError
      | Inr x \<Rightarrow> Inr x)"

definition ada_py :: "py_error + 'a \<Rightarrow> build_error + 'a" where
  "ada_py r = (case r of Inl e \<Rightarrow> Inl (BuildPy e) | Inr x \<Rightarrow> Inr x)"

definition input_path :: "utxo \<Rightarrow> pystr" where
  "input_path u = (if or_empty (u_path u) \<noteq> [] then or_empty (u_path u) else ADA_DEFAULT_DERIVATION)"

fun signing_loop ::
  "ed_libs \<Rightarrow> extended_key \<Rightarrow> (bytes \<times> extended_key) list \<Rightarrow> utxo list \<Rightarrow> build_error + extended_key list" where
  "signing_loop ed master keys [] = Inr (map snd keys)"
| "signing_loop ed master keys (u # us) =
     bind_res (key_res (derive ed master (input_path u))) (\<lambda>key.
     bind_res (ada_py (bind_res (address_bytes (u_address u)) payment_key_hash)) (\<lambda>owner.
     bind_res (key_res (public_key ed key)) (\<lambda>public.
     if owner \<noteq> el_blake2b_224 ed public then Inl (AdaRefused (KeyDoesNotOwn (u_path u) (u_address u)))
     else signing_loop ed master (AList.update public key keys) us)))"

definition signing_keys :: "ed_libs \<Rightarrow> pystr \<Rightarrow> pystr \<Rightarrow> utxo list \<Rightarrow> build_error + extended_key list" where
  "signing_keys ed passphrase mnemonic chosen =
     bind_res (key_res (root_key ed mnemonic passphrase)) (\<lambda>master. signing_loop ed master [] chosen)"

section \<open>Choosing coins\<close>

definition lovelace_total :: "utxo list \<Rightarrow> int" where
  "lovelace_total us = sum_list (map u_value us) div LOVELACE_TO_UNITS"

text \<open>
  \<open>_select\<close>: the inputs chosen so far, and the first selection that covered amount and fee without
  change. A builder whose fee loop does not come back does not come back.
\<close>

fun ada_select_loop ::
  "(utxo list \<Rightarrow> ada_out list \<Rightarrow> build_error + int) \<Rightarrow> (ada_out \<Rightarrow> int) \<Rightarrow> ada_out \<Rightarrow> bytes \<Rightarrow> int
   \<Rightarrow> utxo list \<Rightarrow> (utxo list \<times> int) option \<Rightarrow> utxo list \<Rightarrow> build_error + (utxo list \<times> ada_out list \<times> int)" where
  "ada_select_loop fee_for min_of recipient change_raw spendable chosen folded [] =
     (case folded of
        None \<Rightarrow> Inl (AdaRefused (CannotPay (ao_lovelace recipient) spendable))
      | Some (coins, fee) \<Rightarrow> Inr (coins, [recipient], fee))"
| "ada_select_loop fee_for min_of recipient change_raw spendable chosen folded (u # us) =
     (let chosen = chosen @ [u];
          tot = lovelace_total chosen;
          amount = ao_lovelace recipient;
          out = (\<lambda>v. \<lparr>ao_address = change_raw, ao_lovelace = v\<rparr>) in
      bind_res (fee_for chosen [recipient, out tot]) (\<lambda>fee.
      bind_res (fee_for chosen [recipient, out (tot - amount - fee)]) (\<lambda>exact.
      bind_res (fee_for chosen [recipient, out (tot - amount - exact)]) (\<lambda>settled.
      let (fee, change) = (if settled \<le> exact then (exact, out (tot - amount - exact)) else (fee, out (tot - amount - fee))) in
      if min_of change \<le> ao_lovelace change then Inr (chosen, [recipient, change], fee)
      else
        bind_res (fee_for chosen [recipient]) (\<lambda>alone.
          ada_select_loop fee_for min_of recipient change_raw spendable chosen
            (if folded = None \<and> alone \<le> tot - amount then Some (chosen, tot - amount) else folded) us)))))"

definition ada_select ::
  "(utxo list \<Rightarrow> ada_out list \<Rightarrow> build_error + int) \<Rightarrow> (ada_out \<Rightarrow> int) \<Rightarrow> ada_out \<Rightarrow> bytes \<Rightarrow> utxo list
   \<Rightarrow> build_error + (utxo list \<times> ada_out list \<times> int)" where
  "ada_select fee_for min_of recipient change_raw pool =
     ada_select_loop fee_for min_of recipient change_raw (sum_list (map u_value pool)) [] None pool"

definition fee_res :: "(py_error + int) option \<Rightarrow> build_error + int" where
  "fee_res r = (case r of None \<Rightarrow> Inl NoReturn | Some x \<Rightarrow> ada_py x)"

section \<open>Building\<close>

record ada_built =
  ab_tx :: unsigned_tx
  ab_keys :: "extended_key list"
  ab_outputs :: "tx_output list"
  ab_fee :: int
  ab_change_address :: pystr
  ab_inputs :: "utxo list"
  ab_folded :: "int option"

text \<open>A fee that is no number, which \<open>parse\<close> may return, is a TypeError here.\<close>

definition neutral_view :: "cardano_libs \<Rightarrow> bytes \<Rightarrow> py_error + (tx_output list \<times> int)" where
  "neutral_view lib raw =
     bind_res (ada_parse lib raw) (\<lambda>parsed.
     case cint (pt_fee parsed) of
       None \<Rightarrow> Inl TypeError
     | Some fee \<Rightarrow>
         Inr (map (\<lambda>(address, lovelace). \<lparr>o_address = Some address, o_value = lovelace * LOVELACE_TO_UNITS,
                                          o_data = None\<rparr>) (pt_outputs parsed)
              @ (case pt_memo parsed of
                   None \<Rightarrow> []
                 | Some m \<Rightarrow> [\<lparr>o_address = None, o_value = 0, o_data = Some m\<rparr>]),
              fee * LOVELACE_TO_UNITS))"

definition ada_input :: "utxo \<Rightarrow> build_error + ada_in" where
  "ada_input u =
     (case py_fromhex (u_txid u) of
        None \<Rightarrow> Inl (BuildPy ValueError)
      | Some t \<Rightarrow> Inr \<lparr>ai_txid = t, ai_index = u_vout u\<rparr>)"

definition ada_unsigned ::
  "int \<Rightarrow> pystr option \<Rightarrow> utxo list \<Rightarrow> ada_out list \<Rightarrow> int \<Rightarrow> build_error + unsigned_tx" where
  "ada_unsigned ttl m chosen outputs fee =
     bind_res (map_res ada_input chosen) (\<lambda>inputs.
       Inr \<lparr>ut_inputs = inputs, ut_outputs = outputs, ut_fee = fee, ut_ttl = ttl, ut_memo = m\<rparr>)"

definition n_addresses :: "utxo list \<Rightarrow> nat" where
  "n_addresses chosen = card (set (map u_address chosen))"

definition ada_fee_for ::
  "cardano_libs \<Rightarrow> protocol_params \<Rightarrow> int \<Rightarrow> pystr option \<Rightarrow> utxo list \<Rightarrow> ada_out list \<Rightarrow> build_error + int" where
  "ada_fee_for lib ps ttl m chosen outputs =
     bind_res (ada_unsigned ttl m chosen outputs 0) (\<lambda>tx. fee_res (required_fee lib tx (n_addresses chosen) ps))"

definition ada_choose ::
  "cardano_libs \<Rightarrow> protocol_params \<Rightarrow> int \<Rightarrow> pystr option \<Rightarrow> ada_out \<Rightarrow> bytes \<Rightarrow> utxo list \<Rightarrow> bool
   \<Rightarrow> build_error + (utxo list \<times> ada_out list \<times> int)" where
  "ada_choose lib ps ttl m recipient change_raw utxos sweep =
     (let pool = sort_key (\<lambda>u. - u_value u) utxos in
      if sweep then
        (let fee = lovelace_total pool - ao_lovelace recipient in
         bind_res (ada_fee_for lib ps ttl m pool [recipient]) (\<lambda>least.
           if fee < least then Inl (AdaRefused (SweepBelowFee (ao_lovelace recipient) fee))
           else Inr (pool, [recipient], fee)))
      else ada_select (ada_fee_for lib ps ttl m) (\<lambda>out. min_lovelace lib out ps) recipient change_raw pool)"

text \<open>From the chosen coins to the built transaction.\<close>

definition ada_assemble ::
  "cardano_libs \<Rightarrow> ed_libs \<Rightarrow> pystr \<Rightarrow> pystr \<Rightarrow> protocol_params \<Rightarrow> int \<Rightarrow> pystr option \<Rightarrow> pystr \<Rightarrow> bool
   \<Rightarrow> utxo list \<times> ada_out list \<times> int \<Rightarrow> build_error + ada_built" where
  "ada_assemble lib ed passphrase mnemonic ps ttl m change_address sweep choice =
     (case choice of (chosen, outputs, fee) \<Rightarrow>
        bind_res (ada_unsigned ttl m chosen outputs fee) (\<lambda>tx.
        bind_res (ada_py (dummy_witnesses (n_addresses chosen))) (\<lambda>dummy.
        bind_res (ada_py (ada_serialize lib tx dummy)) (\<lambda>sized.
        if pp_max_tx_size ps < int (length sized)
        then Inl (AdaRefused (TooManyBytes (length sized) (pp_max_tx_size ps)))
        else
          bind_res (ada_py (bind_res (ada_serialize lib tx []) (neutral_view lib))) (\<lambda>(neutral, neutral_fee).
          bind_res (ada_fee_for lib ps ttl m chosen outputs) (\<lambda>least.
          bind_res (signing_keys ed passphrase mnemonic chosen) (\<lambda>keys.
            Inr \<lparr>ab_tx = tx, ab_keys = keys, ab_outputs = neutral, ab_fee = neutral_fee,
                 ab_change_address = change_address, ab_inputs = chosen,
                 ab_folded = (if 0 < fee - least \<and> \<not> sweep then Some (fee - least) else None)\<rparr>)))))))"

definition text_of_memo :: "memo option \<Rightarrow> build_error + pystr option" where
  "text_of_memo m =
     (case m of
        None \<Rightarrow> Inr None
      | Some (MemoText t) \<Rightarrow> Inr (Some t)
      | Some (MemoBytes b) \<Rightarrow> Inl (AdaRefused BinaryMemo))"

definition ada_build_unsigned_swap ::
  "cardano_libs \<Rightarrow> ed_libs \<Rightarrow> pystr \<Rightarrow> pystr \<Rightarrow> protocol_params \<Rightarrow> int \<Rightarrow> utxo list \<Rightarrow> pystr \<Rightarrow> int \<Rightarrow> memo option
   \<Rightarrow> pystr \<Rightarrow> bool \<Rightarrow> build_error + ada_built" where
  "ada_build_unsigned_swap lib ed passphrase mnemonic ps slot utxos vault_address amount m change_address sweep =
     bind_res (text_of_memo m) (\<lambda>text_memo.
     if amount mod LOVELACE_TO_UNITS \<noteq> 0 then Inl (AdaRefused (FinerThanLovelace amount))
     else
       let ttl = slot + TTL_SLOTS;
           lovelace = amount div LOVELACE_TO_UNITS in
       bind_res (ada_py (address_bytes vault_address)) (\<lambda>vault.
       let recipient = \<lparr>ao_address = vault, ao_lovelace = lovelace\<rparr>;
           least = min_lovelace lib recipient ps in
       if lovelace < least then Inl (AdaRefused (BelowMinAda least))
       else
         bind_res (ada_py (address_bytes change_address)) (\<lambda>change_raw.
         bind_res (ada_choose lib ps ttl text_memo recipient change_raw utxos sweep)
           (ada_assemble lib ed passphrase mnemonic ps ttl text_memo change_address sweep))))"

definition ada_builder ::
  "cardano_libs \<Rightarrow> ed_libs \<Rightarrow> pystr \<Rightarrow> pystr \<Rightarrow> protocol_params \<Rightarrow> int \<Rightarrow> ada_built gated_builder" where
  "ada_builder lib ed passphrase mnemonic ps slot =
     \<lparr>gb_hook = (\<lambda>utxos vault amount m fee_rate change_address sweep.
        ada_build_unsigned_swap lib ed passphrase mnemonic ps slot utxos vault amount m change_address sweep),
      gb_outputs = ab_outputs, gb_fee = ab_fee, gb_canonical = (\<lambda>a. a),
      gb_memo_max_bytes = MEMO_MAX_BYTES\<rparr>"

text \<open>
  \<open>sweep_send_amount\<close>, in 1e-8 ADA. Its InsufficientFunds is the sweep's of \<open>Coins\<close>.
\<close>

definition sweep_dummy :: "int \<Rightarrow> nat \<Rightarrow> nat \<Rightarrow> unsigned_tx" where
  "sweep_dummy lovelace n_inputs memo_len =
     \<lparr>ut_inputs = map (\<lambda>i. \<lparr>ai_txid = rev (to_le 32 (int i)), ai_index = int i\<rparr>) [0..<n_inputs],
      ut_outputs = [\<lparr>ao_address = LONGEST_ADDRESS, ao_lovelace = lovelace\<rparr>], ut_fee = 0, ut_ttl = 2 ^ 32 - 1,
      ut_memo = (if memo_len = 0 then None else Some (replicate memo_len (of_char CHR ''x'')))\<rparr>"

definition ada_sweep_send_amount ::
  "cardano_libs \<Rightarrow> protocol_params \<Rightarrow> int \<Rightarrow> nat \<Rightarrow> nat \<Rightarrow> build_error + (int \<times> int)" where
  "ada_sweep_send_amount lib ps tot n_inputs memo_len =
     (let lovelace = tot div LOVELACE_TO_UNITS in
      bind_res (fee_res (required_fee lib (sweep_dummy lovelace n_inputs memo_len) n_inputs ps)) (\<lambda>fee.
      let amount = lovelace - fee in
      if amount < min_lovelace lib \<lparr>ao_address = LONGEST_ADDRESS, ao_lovelace = amount\<rparr> ps
      then Inl (Coins (CannotSweep tot fee))
      else Inr (amount * LOVELACE_TO_UNITS, fee * LOVELACE_TO_UNITS)))"

section \<open>Deposits\<close>

datatype ada_problem = GateProblem problem | SpendsFrom "pystr list"

definition ada_build_and_verify_deposit ::
  "cardano_libs \<Rightarrow> ed_libs \<Rightarrow> pystr \<Rightarrow> pystr \<Rightarrow> protocol_params \<Rightarrow> int \<Rightarrow> pystr \<Rightarrow> memo \<Rightarrow> int \<Rightarrow> int
   \<Rightarrow> utxo list \<Rightarrow> float64 \<Rightarrow> int \<Rightarrow> bool \<Rightarrow> build_error + (ada_built, utxo_plan, ada_problem) prepared" where
  "ada_build_and_verify_deposit lib ed passphrase mnemonic ps slot vault m amount now scanned_utxos fee_rate max_fee sweep =
     bind_res (key_res (ada_derive_address ed passphrase mnemonic ADA_DEFAULT_DERIVATION)) (\<lambda>lp_address.
     let utxos = filter (\<lambda>u. u_address u = lp_address) scanned_utxos in
     if utxos = [] then Inl (AdaRefused (NothingAtReceiveAddress lp_address))
     else if sweep \<and> length utxos \<noteq> length scanned_utxos then Inl (AdaRefused (CoinsElsewhere lp_address))
     else
       bind_res (build_and_verify_deposit (ada_builder lib ed passphrase mnemonic ps slot) vault m amount now utxos
           fee_rate lp_address max_fee sweep) (\<lambda>prepared.
       let stray = sort (remdups (filter (\<lambda>a. a \<noteq> lp_address) (map u_address (ab_inputs (pr_built prepared))))) in
       Inr \<lparr>pr_quote = pr_quote prepared, pr_built = pr_built prepared, pr_plan = pr_plan prepared,
            pr_problems = map GateProblem (pr_problems prepared) @ (if stray = [] then [] else [SpendsFrom stray])\<rparr>))"

section \<open>Signing and broadcast\<close>

datatype sign_error = SignPy py_error | SignKey key_error | ReadBackFailed

definition sign_py :: "py_error + 'a \<Rightarrow> sign_error + 'a" where
  "sign_py r = (case r of Inl e \<Rightarrow> Inl (SignPy e) | Inr x \<Rightarrow> Inr x)"

definition sign_key :: "key_error + 'a \<Rightarrow> sign_error + 'a" where
  "sign_key r = (case r of Inl e \<Rightarrow> Inl (SignKey e) | Inr x \<Rightarrow> Inr x)"

definition witness_of :: "ed_libs \<Rightarrow> bytes \<Rightarrow> extended_key \<Rightarrow> sign_error + (bytes \<times> bytes)" where
  "witness_of ed digest key =
     bind_res (sign_key (public_key ed key)) (\<lambda>public.
     bind_res (sign_key (key_sign ed key digest)) (\<lambda>signature. Inr (public, signature)))"

definition ada_sign :: "cardano_libs \<Rightarrow> ed_libs \<Rightarrow> ada_built \<Rightarrow> sign_error + pystr list" where
  "ada_sign lib ed built =
     bind_res (sign_py (ada_txid lib (ab_tx built))) (\<lambda>digest.
     bind_res (map_res (witness_of ed digest) (ab_keys built)) (\<lambda>witnesses.
     bind_res (sign_py (ada_serialize lib (ab_tx built) witnesses)) (\<lambda>raw.
     bind_res (sign_py (ada_parse lib raw)) (\<lambda>parsed.
     bind_res (sign_py (neutral_view lib raw)) (\<lambda>(outputs, fee).
     if pt_txid parsed \<noteq> digest \<or> length (pt_witnesses parsed) \<noteq> length (ab_keys built)
        \<or> outputs \<noteq> ab_outputs built \<or> fee \<noteq> ab_fee built
     then Inl ReadBackFailed else Inr [py_hex raw])))))"

definition strip_quotes :: "pystr \<Rightarrow> pystr" where
  "strip_quotes s = (let q = (\<lambda>c. c = 34) in rev (dropWhile q (rev (dropWhile q s))))"

fun ada_broadcast_loop ::
  "cardano_libs \<Rightarrow> ('w, 'p) ada_env \<Rightarrow> pystr \<Rightarrow> pystr list \<Rightarrow> ('w, 'p, pystr) io" where
  "ada_broadcast_loop lib env tx_id [] = ret tx_id"
| "ada_broadcast_loop lib env tx_id (raw # raws) =
     (case py_fromhex raw of
        None \<Rightarrow> raise (PyExn ValueError)
      | Some data \<Rightarrow>
          and_then (ae_post env (ae_api_url env @ lit ''/submittx'') data) (\<lambda>resp.
          and_then (of_py (ada_parse lib data)) (\<lambda>parsed.
          let tx_id = py_hex (pt_txid parsed) in
          and_then (raise_if (400 \<le> rs_status resp) RuntimeError) (\<lambda>_.
          and_then (raise_if (strip_quotes (py_strip (rs_text resp)) \<noteq> tx_id) RuntimeError) (\<lambda>_.
            ada_broadcast_loop lib env tx_id raws)))))"

definition ada_broadcast :: "cardano_libs \<Rightarrow> ('w, 'p) ada_env \<Rightarrow> pystr list \<Rightarrow> ('w, 'p, pystr) io" where
  "ada_broadcast lib env raws = ada_broadcast_loop lib env [] raws"

section \<open>What a fee pays for\<close>

text \<open>
  A fee that was found pays for its own transaction, and is at most any fee that does, when larger
  numbers are not written shorter.
\<close>

definition cbor_grows :: "cardano_libs \<Rightarrow> bool" where
  "cbor_grows lib \<longleftrightarrow>
     cbor_sizes lib
   \<and> (\<forall>m n. 0 \<le> m \<and> m \<le> n \<longrightarrow> int_size lib m \<le> int_size lib n)
   \<and> (\<forall>pre v w post. length (cd_dumps lib (CList (pre @ v # post))) + length (cd_dumps lib w)
        = length (cd_dumps lib (CList (pre @ w # post))) + length (cd_dumps lib v))"

lemma fee_loop_pays:
  assumes "fee_loop lib tx ws ps f = Some (Inr g)"
  shows "f \<le> g \<and> pays_own_size lib tx ws ps g"
proof -
  have "\<forall>g. r = Inr g \<longrightarrow> f \<le> g \<and> pays_own_size lib tx ws ps g" if "fee_loop lib tx ws ps f = Some r" for r
  proof (rule fee_loop.raw_induct
      [where P = "\<lambda>lib tx ws ps f r. \<forall>g. r = Inr g \<longrightarrow> f \<le> g \<and> pays_own_size lib tx ws ps g", OF _ that])
    fix loop lib tx ws ps f r
    assume ind: "\<And>lib tx ws ps f r. loop lib tx ws ps f = Some r \<Longrightarrow>
        \<forall>g. r = Inr g \<longrightarrow> f \<le> g \<and> pays_own_size lib tx ws ps g"
      and run: "(case ada_serialize lib (tx\<lparr>ut_fee := f\<rparr>) ws of Inl e \<Rightarrow> Some (Inl e)
        | Inr raw \<Rightarrow> let needed = min_fee (int (length raw)) ps in
            if needed \<le> f then Some (Inr f) else loop lib tx ws ps needed) = Some r"
    show "\<forall>g. r = Inr g \<longrightarrow> f \<le> g \<and> pays_own_size lib tx ws ps g"
      using run ind by (fastforce simp: pays_own_size_def Let_def split: sum.splits if_splits)
  qed
  with assms show ?thesis by blast
qed

text \<open>The least one: needs that the size does not shrink when the fee grows.\<close>

lemma fee_loop_minimal:
  assumes "cbor_grows lib" "0 \<le> pp_min_fee_a ps"
    and "fee_loop lib tx ws ps f = Some (Inr g)" "0 \<le> f" "f \<le> h" "pays_own_size lib tx ws ps h"
  shows "g \<le> h"
proof -
  have "\<forall>g. r = Inr g \<longrightarrow> cbor_grows lib \<longrightarrow> 0 \<le> pp_min_fee_a ps \<longrightarrow> 0 \<le> f \<longrightarrow> f \<le> h \<longrightarrow> pays_own_size lib tx ws ps h
      \<longrightarrow> g \<le> h"
    if "fee_loop lib tx ws ps f = Some r" for r
  proof (rule fee_loop.raw_induct
      [where P = "\<lambda>lib tx ws ps f r. \<forall>g. r = Inr g \<longrightarrow> cbor_grows lib \<longrightarrow> 0 \<le> pp_min_fee_a ps \<longrightarrow> 0 \<le> f \<longrightarrow> f \<le> h
          \<longrightarrow> pays_own_size lib tx ws ps h \<longrightarrow> g \<le> h", OF _ that], intro allI impI)
    fix loop lib tx ws ps f r g
    assume ind: "\<And>lib tx ws ps f r. loop lib tx ws ps f = Some r \<Longrightarrow>
        \<forall>g. r = Inr g \<longrightarrow> cbor_grows lib \<longrightarrow> 0 \<le> pp_min_fee_a ps \<longrightarrow> 0 \<le> f \<longrightarrow> f \<le> h \<longrightarrow> pays_own_size lib tx ws ps h
          \<longrightarrow> g \<le> h"
      and run: "(case ada_serialize lib (tx\<lparr>ut_fee := f\<rparr>) ws of Inl e \<Rightarrow> Some (Inl e)
        | Inr raw \<Rightarrow> let needed = min_fee (int (length raw)) ps in
            if needed \<le> f then Some (Inr f) else loop lib tx ws ps needed) = Some r"
      and r: "r = Inr g" and lib: "cbor_grows lib" "0 \<le> pp_min_fee_a ps"
      and h: "0 \<le> f" "f \<le> h" "pays_own_size lib tx ws ps h"
    obtain raw where raw: "ada_serialize lib (tx\<lparr>ut_fee := f\<rparr>) ws = Inr raw"
      using run r by (auto split: sum.splits)
    obtain raw' where raw': "ada_serialize lib (tx\<lparr>ut_fee := h\<rparr>) ws = Inr raw'" "min_fee (int (length raw')) ps \<le> h"
      using h(3) by (auto simp: pays_own_size_def)
    have "cbor_sizes lib" "int_size lib f \<le> int_size lib h" using lib(1) h(1,2) by (simp_all add: cbor_grows_def)
    then have "length raw \<le> length raw'" using serialize_fee [OF _ raw, of h] raw'(1) by auto
    then have need: "min_fee (int (length raw)) ps \<le> h"
      using raw'(2) lib(2) mult_left_mono [of "int (length raw)" "int (length raw')" "pp_min_fee_a ps"]
      by (simp add: min_fee_def)
    show "g \<le> h"
    proof (cases "min_fee (int (length raw)) ps \<le> f")
      case True
      with run r raw h(2) show ?thesis by simp
    next
      case False
      with run r raw have "loop lib tx ws ps (min_fee (int (length raw)) ps) = Some (Inr g)" by (simp add: Let_def)
      from ind [OF this] lib need h False show ?thesis by simp
    qed
  qed
  with assms show ?thesis by blast
qed

lemma required_fee_found:
  assumes "required_fee lib tx n ps = Some (Inr g)"
  obtains ws where "dummy_witnesses n = Inr ws" "fee_loop lib tx ws ps 0 = Some (Inr g)" "0 \<le> g" "pays_own_size lib tx ws ps g"
  using assms fee_loop_pays [of lib tx _ ps 0 g] by (auto simp: required_fee_def split: sum.splits)

text \<open>A transaction that differs in one output by a smaller amount needs no larger fee.\<close>

lemma serialize_output:
  assumes lib: "cbor_grows lib" and v: "0 \<le> v" "v \<le> w"
    and raw: "ada_serialize lib (tx\<lparr>ut_outputs := outs @ [\<lparr>ao_address = a, ao_lovelace = w\<rparr>]\<rparr>) ws = Inr raw"
  shows "\<exists>raw'. ada_serialize lib (tx\<lparr>ut_outputs := outs @ [\<lparr>ao_address = a, ao_lovelace = v\<rparr>]\<rparr>) ws = Inr raw'
    \<and> length raw' \<le> length raw"
proof -
  let ?tx = "\<lambda>x. tx\<lparr>ut_outputs := outs @ [\<lparr>ao_address = a, ao_lovelace = x\<rparr>]\<rparr>"
  let ?list = "\<lambda>x. CList (map output_item outs @ [CList [CBytes a, CInt x]])"
  let ?size = "\<lambda>p. length (cd_dumps lib p)"
  have in_list: "?size (CList (pre @ [p])) \<le> ?size (CList (pre @ [q]))" if "?size p \<le> ?size q" for pre p q
  proof -
    have "?size (CList (pre @ p # [])) + ?size q = ?size (CList (pre @ q # [])) + ?size p"
      using lib unfolding cbor_grows_def by blast
    with that show ?thesis by simp
  qed
  have in_map: "?size (CMap (pre @ (k, p) # post)) \<le> ?size (CMap (pre @ (k, q) # post))" if "?size p \<le> ?size q" for pre k p q post
  proof -
    have "?size (CMap (pre @ (k, p) # post)) + ?size q = ?size (CMap (pre @ (k, q) # post)) + ?size p"
      using lib unfolding cbor_grows_def cbor_sizes_def by blast
    with that show ?thesis by simp
  qed
  have "?size (CInt v) \<le> ?size (CInt w)" using lib v by (simp add: cbor_grows_def)
  then have "?size (CList ([CBytes a] @ [CInt v])) \<le> ?size (CList ([CBytes a] @ [CInt w]))" by (rule in_list)
  then have outs: "?size (?list v) \<le> ?size (?list w)" by (intro in_list) simp
  have "body_map (?tx x) h = [(CInt 0, CTag SET_TAG (CList (input_items (ut_inputs tx))))]
      @ (CInt 1, ?list x) # [(CInt 2, CInt (ut_fee tx)), (CInt 3, CInt (ut_ttl tx))]
      @ (case h of None \<Rightarrow> [] | Some h \<Rightarrow> [(CInt 7, CBytes h)])" for x h
    by (simp add: body_map_def output_item_def)
  then have size: "?size (CMap (body_map (?tx v) h)) \<le> ?size (CMap (body_map (?tx w) h))" for h
    by (simp only: in_map [OF outs])
  show ?thesis
  proof (cases "ut_memo tx")
    case None
    with raw size [of None] show ?thesis by (auto simp: ada_serialize_def encode_body_def)
  next
    case (Some m)
    with raw obtain aux where "encode_aux lib m = Inr aux"
      by (auto simp: ada_serialize_def bind_res_eq_Inr)
    with raw Some size [of "Some (cd_blake2b_256 lib aux)"] show ?thesis
      by (auto simp: ada_serialize_def encode_body_def)
  qed
qed

lemma fee_res_Inr: "fee_res r = Inr f \<longleftrightarrow> r = Some (Inr f)"
  by (cases r) (auto simp: fee_res_def ada_py_def split: sum.splits)

lemma ada_py_Inr: "ada_py r = Inr x \<longleftrightarrow> r = Inr x"
  by (cases r) (simp_all add: ada_py_def)

lemma fee_for_Inr:
  "ada_fee_for lib ps ttl m us outs = Inr f \<longleftrightarrow>
     (\<exists>tx. ada_unsigned ttl m us outs 0 = Inr tx \<and> required_fee lib tx (n_addresses us) ps = Some (Inr f))"
  by (auto simp: ada_fee_for_def bind_res_eq_Inr fee_res_Inr)

lemma fee_for_nonneg: "ada_fee_for lib ps ttl m us outs = Inr f \<Longrightarrow> 0 \<le> f"
  by (auto simp: fee_for_Inr elim: required_fee_found)

lemma fee_for_mono:
  assumes "cbor_grows lib" "0 \<le> pp_min_fee_a ps" "0 \<le> v" "v \<le> w"
    and "ada_fee_for lib ps ttl m us [r, \<lparr>ao_address = c, ao_lovelace = v\<rparr>] = Inr a"
    and "ada_fee_for lib ps ttl m us [r, \<lparr>ao_address = c, ao_lovelace = w\<rparr>] = Inr b"
  shows "a \<le> b"
proof -
  let ?out = "\<lambda>x. [r] @ [\<lparr>ao_address = c, ao_lovelace = x\<rparr>]"
  obtain tx where tx: "ada_unsigned ttl m us [] 0 = Inr tx"
    using assms(5) by (auto simp: fee_for_Inr ada_unsigned_def bind_res_eq_Inr)
  then have txs: "ada_unsigned ttl m us (?out x) 0 = Inr (tx\<lparr>ut_outputs := ?out x\<rparr>)" for x
    by (auto simp: ada_unsigned_def bind_res_eq_Inr)
  have req: "required_fee lib (tx\<lparr>ut_outputs := ?out v\<rparr>) (n_addresses us) ps = Some (Inr a)"
    "required_fee lib (tx\<lparr>ut_outputs := ?out w\<rparr>) (n_addresses us) ps = Some (Inr b)"
    using assms(5,6) txs [of v] txs [of w] by (auto simp: fee_for_Inr)
  obtain ws where ws: "dummy_witnesses (n_addresses us) = Inr ws"
      "fee_loop lib (tx\<lparr>ut_outputs := ?out v\<rparr>) ws ps 0 = Some (Inr a)"
    by (rule required_fee_found [OF req(1)])
  obtain ws' where ws': "dummy_witnesses (n_addresses us) = Inr ws'" "0 \<le> b"
      "pays_own_size lib (tx\<lparr>ut_outputs := ?out w\<rparr>) ws' ps b"
    by (rule required_fee_found [OF req(2)])
  have swap: "tx\<lparr>ut_outputs := t, ut_fee := b\<rparr> = tx\<lparr>ut_fee := b, ut_outputs := t\<rparr>" for t
    by (cases tx) simp
  from ws' obtain raw where raw: "ada_serialize lib ((tx\<lparr>ut_fee := b\<rparr>)\<lparr>ut_outputs := ?out w\<rparr>) ws = Inr raw"
      "min_fee (int (length raw)) ps \<le> b"
    using ws(1) by (auto simp: pays_own_size_def swap)
  obtain raw' where raw': "ada_serialize lib ((tx\<lparr>ut_fee := b\<rparr>)\<lparr>ut_outputs := ?out v\<rparr>) ws = Inr raw'"
      "length raw' \<le> length raw"
    using serialize_output [OF assms(1,3,4) raw(1)] by blast
  have "min_fee (int (length raw')) ps \<le> b"
    using raw(2) raw'(2) assms(2) mult_left_mono [of "int (length raw')" "int (length raw)" "pp_min_fee_a ps"]
    by (simp add: min_fee_def)
  then have "pays_own_size lib (tx\<lparr>ut_outputs := ?out v\<rparr>) ws ps b" using raw'(1) by (auto simp: pays_own_size_def swap)
  then show ?thesis using fee_loop_minimal [OF assms(1,2) ws(2) order_refl ws'(2)] by simp
qed

section \<open>What is chosen\<close>

text \<open>
  A choice that is right: the first coins of the pool, the payment and at most one change output that
  holds what an output must, no lovelace lost, and a fee that is enough.
\<close>

definition sound_choice ::
  "(utxo list \<Rightarrow> ada_out list \<Rightarrow> build_error + int) \<Rightarrow> (ada_out \<Rightarrow> int) \<Rightarrow> ada_out \<Rightarrow> bytes \<Rightarrow> utxo list
   \<Rightarrow> utxo list \<times> ada_out list \<times> int \<Rightarrow> bool" where
  "sound_choice fee_for min_of recipient change_raw pool choice \<longleftrightarrow>
     (case choice of (coins, outs, fee) \<Rightarrow>
        prefix coins pool
      \<and> (outs = [recipient] \<or> (\<exists>v. outs = [recipient, \<lparr>ao_address = change_raw, ao_lovelace = v\<rparr>]
           \<and> min_of \<lparr>ao_address = change_raw, ao_lovelace = v\<rparr> \<le> v))
      \<and> lovelace_total coins = sum_list (map ao_lovelace outs) + fee
      \<and> (\<exists>least. fee_for coins outs = Inr least \<and> 0 \<le> least \<and> least \<le> fee))"

lemma ada_select_loop_sound:
  assumes mono: "\<And>us v w a b. fee_for us [recipient, \<lparr>ao_address = c, ao_lovelace = v\<rparr>] = Inr a
      \<Longrightarrow> fee_for us [recipient, \<lparr>ao_address = c, ao_lovelace = w\<rparr>] = Inr b \<Longrightarrow> 0 \<le> v \<Longrightarrow> v \<le> w \<Longrightarrow> a \<le> b"
    and pos: "\<And>us outs f. fee_for us outs = Inr f \<Longrightarrow> 0 \<le> f" "0 \<le> ao_lovelace recipient" "\<And>t. 0 \<le> min_of t"
    and run: "ada_select_loop fee_for min_of recipient c spendable chosen folded pool = Inr choice"
    and folded: "\<And>cs f. folded = Some (cs, f) \<Longrightarrow> sound_choice fee_for min_of recipient c (chosen @ pool) (cs, [recipient], f)"
  shows "sound_choice fee_for min_of recipient c (chosen @ pool) choice"
  using run folded
proof (induction pool arbitrary: chosen folded)
  case Nil
  then show ?case by (auto split: option.splits)
next
  case (Cons u us)
  let ?cs = "chosen @ [u]" and ?out = "\<lambda>v. \<lparr>ao_address = c, ao_lovelace = v\<rparr>"
  let ?tot = "lovelace_total ?cs" and ?amount = "ao_lovelace recipient"
  obtain fee exact settled where
    fees: "fee_for ?cs [recipient, ?out ?tot] = Inr fee"
      "fee_for ?cs [recipient, ?out (?tot - ?amount - fee)] = Inr exact"
      "fee_for ?cs [recipient, ?out (?tot - ?amount - exact)] = Inr settled"
    and run: "(let (fee, change) = (if settled \<le> exact then (exact, ?out (?tot - ?amount - exact))
          else (fee, ?out (?tot - ?amount - fee))) in
        if min_of change \<le> ao_lovelace change then Inr (?cs, [recipient, change], fee)
        else bind_res (fee_for ?cs [recipient]) (\<lambda>alone.
          ada_select_loop fee_for min_of recipient c spendable ?cs
            (if folded = None \<and> alone \<le> ?tot - ?amount then Some (?cs, ?tot - ?amount) else folded) us)) = Inr choice"
    using Cons.prems(1) by (auto simp: Let_def bind_res_eq_Inr)
  define paid where "paid = (if settled \<le> exact then exact else fee)"
  define left where "left = ?tot - ?amount - paid"
  have run': "(if min_of (?out left) \<le> left then Inr (?cs, [recipient, ?out left], paid)
        else bind_res (fee_for ?cs [recipient]) (\<lambda>alone.
          ada_select_loop fee_for min_of recipient c spendable ?cs
            (if folded = None \<and> alone \<le> ?tot - ?amount then Some (?cs, ?tot - ?amount) else folded) us)) = Inr choice"
    using run by (auto simp: left_def paid_def Let_def split: if_splits)
  show ?case
  proof (cases "min_of (?out left) \<le> left")
    case True
    then have "0 \<le> left" using pos(3) [of "?out left"] by simp
    have enough: "\<exists>least. fee_for ?cs [recipient, ?out left] = Inr least \<and> 0 \<le> least \<and> least \<le> paid"
    proof (cases "settled \<le> exact")
      case True
      with fees(3) pos(1) [OF fees(3)] show ?thesis by (simp add: left_def paid_def)
    next
      case False
      have "left \<le> ?tot" using pos(1) [OF fees(1)] pos(2) False by (simp add: left_def paid_def)
      with False mono [OF fees(2,1)] \<open>0 \<le> left\<close> have "exact \<le> fee" by (simp add: left_def paid_def)
      with False fees(2) pos(1) [OF fees(2)] show ?thesis by (simp add: left_def paid_def)
    qed
    with True run' show ?thesis by (auto simp: sound_choice_def left_def)
  next
    case False
    with run' obtain alone where alone: "fee_for ?cs [recipient] = Inr alone"
      and rest: "ada_select_loop fee_for min_of recipient c spendable ?cs
            (if folded = None \<and> alone \<le> ?tot - ?amount then Some (?cs, ?tot - ?amount) else folded) us = Inr choice"
      by (auto simp: bind_res_eq_Inr)
    have "sound_choice fee_for min_of recipient c (?cs @ us) choice"
    proof (rule Cons.IH [OF rest])
      fix cs f
      assume "(if folded = None \<and> alone \<le> ?tot - ?amount then Some (?cs, ?tot - ?amount) else folded) = Some (cs, f)"
      then consider "folded = Some (cs, f)" | "cs = ?cs" "f = ?tot - ?amount" "alone \<le> ?tot - ?amount"
        by (auto split: if_splits)
      then show "sound_choice fee_for min_of recipient c (?cs @ us) (cs, [recipient], f)"
      proof cases
        case 1
        with Cons.prems(2) show ?thesis by simp
      next
        case 2
        with alone pos(1) [OF alone] show ?thesis by (auto simp: sound_choice_def)
      qed
    qed
    then show ?thesis by simp
  qed
qed

definition sane_params :: "protocol_params \<Rightarrow> bool" where
  "sane_params ps \<longleftrightarrow> 0 \<le> pp_min_fee_a ps \<and> 0 \<le> pp_min_fee_b ps \<and> 0 < pp_coins_per_utxo_byte ps"

lemma min_lovelace_pos: "sane_params ps \<Longrightarrow> 0 < min_lovelace lib t ps"
  by (simp add: sane_params_def min_lovelace_def UTXO_ENTRY_OVERHEAD_def add_pos_nonneg)

lemma ada_choose_sound:
  assumes "cbor_grows lib" "sane_params ps" "0 \<le> ao_lovelace recipient"
    and "ada_choose lib ps ttl m recipient c utxos sweep = Inr choice"
  shows "sound_choice (ada_fee_for lib ps ttl m) (\<lambda>t. min_lovelace lib t ps) recipient c
    (sort_key (\<lambda>u. - u_value u) utxos) choice"
proof (cases sweep)
  case True
  with assms(4) show ?thesis
    by (auto simp: ada_choose_def Let_def bind_res_eq_Inr sound_choice_def split: if_splits dest: fee_for_nonneg)
next
  case False
  let ?fee_for = "ada_fee_for lib ps ttl m" and ?pool = "sort_key (\<lambda>u. - u_value u) utxos"
  have a: "0 \<le> pp_min_fee_a ps" using assms(2) by (simp add: sane_params_def)
  from False assms(4) have run: "ada_select_loop ?fee_for (\<lambda>t. min_lovelace lib t ps) recipient c
      (sum_list (map u_value ?pool)) [] None ?pool = Inr choice"
    by (simp add: ada_choose_def ada_select_def Let_def)
  have "sound_choice ?fee_for (\<lambda>t. min_lovelace lib t ps) recipient c ([] @ ?pool) choice"
  proof (rule ada_select_loop_sound [OF _ _ assms(3) _ run])
    show "0 \<le> min_lovelace lib t ps" for t using min_lovelace_pos [OF assms(2), of lib t] by simp
  qed (erule (3) fee_for_mono [OF assms(1) a, rotated 2] | erule fee_for_nonneg | simp)+
  then show ?thesis by simp
qed

section \<open>What was built\<close>

lemma unsigned_fields:
  "ada_unsigned ttl m us outs fee = Inr tx \<Longrightarrow> map_res ada_input us = Inr (ut_inputs tx) \<and> ut_outputs tx = outs
     \<and> ut_fee tx = fee \<and> ut_ttl tx = ttl \<and> ut_memo tx = m"
  by (cases tx) (auto simp: ada_unsigned_def bind_res_eq_Inr)

lemma ada_built_parts:
  assumes "ada_build_unsigned_swap lib ed passphrase mnemonic ps slot utxos vault amount m change sweep = Inr b"
  obtains va cr chosen outs fee text_memo ws sized raw where
    "address_bytes vault = Inr va" "address_bytes change = Inr cr" "amount mod 100 = 0"
    "min_lovelace lib \<lparr>ao_address = va, ao_lovelace = amount div 100\<rparr> ps \<le> amount div 100"
    "text_of_memo m = Inr text_memo"
    "ada_choose lib ps (slot + TTL_SLOTS) text_memo \<lparr>ao_address = va, ao_lovelace = amount div 100\<rparr> cr utxos sweep
       = Inr (chosen, outs, fee)"
    "ada_unsigned (slot + TTL_SLOTS) text_memo chosen outs fee = Inr (ab_tx b)"
    "dummy_witnesses (n_addresses chosen) = Inr ws" "ada_serialize lib (ab_tx b) ws = Inr sized"
    "int (length sized) \<le> pp_max_tx_size ps"
    "ada_serialize lib (ab_tx b) [] = Inr raw" "neutral_view lib raw = Inr (ab_outputs b, ab_fee b)"
    "signing_keys ed passphrase mnemonic chosen = Inr (ab_keys b)" "ab_inputs b = chosen" "ab_change_address b = change"
proof -
  have units: "LOVELACE_TO_UNITS = 100" by (simp add: LOVELACE_TO_UNITS_def)
  from assms obtain va cr chosen outs fee text_memo where
    parts: "address_bytes vault = Inr va" "address_bytes change = Inr cr" "amount mod 100 = 0"
      "min_lovelace lib \<lparr>ao_address = va, ao_lovelace = amount div 100\<rparr> ps \<le> amount div 100"
      "ada_choose lib ps (slot + TTL_SLOTS) text_memo \<lparr>ao_address = va, ao_lovelace = amount div 100\<rparr> cr utxos sweep
       = Inr (chosen, outs, fee)" "text_of_memo m = Inr text_memo"
    and made: "ada_assemble lib ed passphrase mnemonic ps (slot + TTL_SLOTS) text_memo change sweep (chosen, outs, fee) = Inr b"
    by (auto simp: ada_build_unsigned_swap_def units bind_res_eq_Inr ada_py_Inr Let_def split: if_splits)
  from made obtain tx ws sized raw neutral nfee keys where
    t: "ada_unsigned (slot + TTL_SLOTS) text_memo chosen outs fee = Inr tx"
      "dummy_witnesses (n_addresses chosen) = Inr ws" "ada_serialize lib tx ws = Inr sized"
      "int (length sized) \<le> pp_max_tx_size ps" "ada_serialize lib tx [] = Inr raw"
      "neutral_view lib raw = Inr (neutral, nfee)" "signing_keys ed passphrase mnemonic chosen = Inr keys"
      "ab_tx b = tx" "ab_outputs b = neutral" "ab_fee b = nfee" "ab_keys b = keys" "ab_inputs b = chosen"
      "ab_change_address b = change"
    by (auto simp: ada_assemble_def bind_res_eq_Inr ada_py_Inr split: if_splits)
  show thesis
    by (rule that [OF parts(1-4,6,5)]) (use t in simp_all)
qed

lemma ada_built_amount:
  assumes "sane_params ps"
    and "ada_build_unsigned_swap lib ed passphrase mnemonic ps slot utxos vault amount m change sweep = Inr b"
  shows "0 \<le> amount div 100"
proof -
  obtain va where "min_lovelace lib \<lparr>ao_address = va, ao_lovelace = amount div 100\<rparr> ps \<le> amount div 100"
    by (rule ada_built_parts [OF assms(2)])
  with min_lovelace_pos [OF assms(1)] show ?thesis by (meson less_imp_le less_le_trans)
qed

lemma ada_built_inputs:
  assumes "cbor_grows lib" "sane_params ps"
    and "ada_build_unsigned_swap lib ed passphrase mnemonic ps slot utxos vault amount m change sweep = Inr b"
  shows "set (ab_inputs b) \<subseteq> set utxos" "length (ab_inputs b) \<le> length utxos" "ab_change_address b = change"
proof -
  obtain va cr chosen outs fee text_memo where
    p: "ada_choose lib ps (slot + TTL_SLOTS) text_memo \<lparr>ao_address = va, ao_lovelace = amount div 100\<rparr> cr utxos sweep
       = Inr (chosen, outs, fee)" "ab_inputs b = chosen" "ab_change_address b = change"
    by (rule ada_built_parts [OF assms(3)])
  have "sound_choice (ada_fee_for lib ps (slot + TTL_SLOTS) text_memo) (\<lambda>t. min_lovelace lib t ps)
      \<lparr>ao_address = va, ao_lovelace = amount div 100\<rparr> cr (sort_key (\<lambda>u. - u_value u) utxos) (chosen, outs, fee)"
    by (rule ada_choose_sound [OF assms(1,2) _ p(1)]) (use ada_built_amount [OF assms(2,3)] in simp)
  then have "prefix chosen (sort_key (\<lambda>u. - u_value u) utxos)" by (simp add: sound_choice_def)
  then show "set (ab_inputs b) \<subseteq> set utxos" "length (ab_inputs b) \<le> length utxos" "ab_change_address b = change"
    using set_mono_prefix prefix_length_le p(2,3) by fastforce+
qed

text \<open>
  The width of a fee: a number of 17 to 32 bits takes five bytes in CBOR.
\<close>

definition cbor_widths :: "cardano_libs \<Rightarrow> bool" where
  "cbor_widths lib \<longleftrightarrow>
     (\<forall>m n. 2 ^ 16 \<le> m \<and> m < 2 ^ 32 \<and> 2 ^ 16 \<le> n \<and> n < 2 ^ 32 \<longrightarrow> int_size lib m = int_size lib n)"

text \<open>A fee above the least one still pays for the transaction that carries it.\<close>

lemma larger_fee_pays:
  assumes "cbor_grows lib" "cbor_widths lib" "sane_params ps" "2 ^ 16 \<le> pp_min_fee_b ps" "fee < 2 ^ 32"
    and "ada_fee_for lib ps ttl m us outs = Inr least" "least \<le> fee"
    and "ada_unsigned ttl m us outs fee = Inr tx" "dummy_witnesses (n_addresses us) = Inr ws"
    and "ada_serialize lib tx ws = Inr raw"
  shows "min_fee (int (length raw)) ps \<le> fee"
proof -
  obtain t0 where t0: "ada_unsigned ttl m us outs 0 = Inr t0" "required_fee lib t0 (n_addresses us) ps = Some (Inr least)"
    using assms(6) by (auto simp: fee_for_Inr)
  have tx: "tx = t0\<lparr>ut_fee := fee\<rparr>" using t0(1) assms(8) by (auto simp: ada_unsigned_def bind_res_eq_Inr)
  obtain ws' where "dummy_witnesses (n_addresses us) = Inr ws'" "pays_own_size lib t0 ws' ps least"
    by (rule required_fee_found [OF t0(2)])
  then obtain raw0 where raw0: "ada_serialize lib (t0\<lparr>ut_fee := least\<rparr>) ws = Inr raw0" "min_fee (int (length raw0)) ps \<le> least"
    using assms(9) by (auto simp: pays_own_size_def)
  have "0 \<le> pp_min_fee_a ps * int (length raw0)" using assms(3) by (simp add: sane_params_def)
  then have "2 ^ 16 \<le> least" using raw0(2) assms(4) by (simp add: min_fee_def)
  then have "int_size lib least = int_size lib fee" using assms(2,5,7) unfolding cbor_widths_def by (meson le_less_trans order_trans)
  moreover have "cbor_sizes lib" using assms(1) by (simp add: cbor_grows_def)
  ultimately have "length raw = length raw0"
    using serialize_fee [OF _ raw0(1), of fee] assms(10) by (auto simp: tx)
  with raw0(2) assms(7) show ?thesis by simp
qed

text \<open>
  C23: What the Cardano builder makes is worth what it spends and will be taken for its fee. It spends
  coins of the wallet; the first output is the payment, a second one the change, and there is no
  other; every output holds the minimum ADA; inputs are the outputs plus the fee, to the lovelace; and
  the fee is at least the protocol's minimum for the transaction with one signature per input
  address, which is within the size limit. So also a fee that swallowed a small change, or a sweep's,
  whose own digits are part of the size it pays for. The flat part of the fee must be above \<open>2 ^ 16\<close>
  (on mainnet it is 155381) and the fee below \<open>2 ^ 32\<close> lovelace.
\<close>

theorem ada_built_sound:
  assumes "cbor_grows lib" "cbor_widths lib" "sane_params ps" "2 ^ 16 \<le> pp_min_fee_b ps"
    and "ada_build_unsigned_swap lib ed passphrase mnemonic ps slot utxos vault amount m change sweep = Inr b"
    and "ut_fee (ab_tx b) < 2 ^ 32"
  shows "set (ab_inputs b) \<subseteq> set utxos
    \<and> (\<exists>va cr v. address_bytes vault = Inr va \<and> address_bytes change = Inr cr
        \<and> (let pay = \<lparr>ao_address = va, ao_lovelace = amount div 100\<rparr> in
           ut_outputs (ab_tx b) \<in> {[pay], [pay, \<lparr>ao_address = cr, ao_lovelace = v\<rparr>]}))
    \<and> (\<forall>t \<in> set (ut_outputs (ab_tx b)). min_lovelace lib t ps \<le> ao_lovelace t)
    \<and> lovelace_total (ab_inputs b) = sum_list (map ao_lovelace (ut_outputs (ab_tx b))) + ut_fee (ab_tx b)
    \<and> (\<exists>ws raw. dummy_witnesses (n_addresses (ab_inputs b)) = Inr ws \<and> ada_serialize lib (ab_tx b) ws = Inr raw
        \<and> min_fee (int (length raw)) ps \<le> ut_fee (ab_tx b) \<and> int (length raw) \<le> pp_max_tx_size ps)"
proof -
  obtain va cr chosen outs fee text_memo ws sized raw where
    p: "address_bytes vault = Inr va" "address_bytes change = Inr cr"
      "min_lovelace lib \<lparr>ao_address = va, ao_lovelace = amount div 100\<rparr> ps \<le> amount div 100"
      "ada_choose lib ps (slot + TTL_SLOTS) text_memo \<lparr>ao_address = va, ao_lovelace = amount div 100\<rparr> cr utxos sweep
       = Inr (chosen, outs, fee)"
      "ada_unsigned (slot + TTL_SLOTS) text_memo chosen outs fee = Inr (ab_tx b)"
      "dummy_witnesses (n_addresses chosen) = Inr ws" "ada_serialize lib (ab_tx b) ws = Inr sized"
      "int (length sized) \<le> pp_max_tx_size ps" "ab_inputs b = chosen"
    by (rule ada_built_parts [OF assms(5)])
  have tx: "ut_outputs (ab_tx b) = outs" "ut_fee (ab_tx b) = fee"
    using unsigned_fields [OF p(5)] by simp_all
  have "sound_choice (ada_fee_for lib ps (slot + TTL_SLOTS) text_memo) (\<lambda>t. min_lovelace lib t ps)
      \<lparr>ao_address = va, ao_lovelace = amount div 100\<rparr> cr (sort_key (\<lambda>u. - u_value u) utxos) (chosen, outs, fee)"
    by (rule ada_choose_sound [OF assms(1,3) _ p(4)]) (use ada_built_amount [OF assms(3,5)] in simp)
  then obtain least where s: "prefix chosen (sort_key (\<lambda>u. - u_value u) utxos)"
      "lovelace_total chosen = sum_list (map ao_lovelace outs) + fee"
      "ada_fee_for lib ps (slot + TTL_SLOTS) text_memo chosen outs = Inr least" "least \<le> fee"
    and shape: "outs = [\<lparr>ao_address = va, ao_lovelace = amount div 100\<rparr>] \<or> (\<exists>v. outs =
        [\<lparr>ao_address = va, ao_lovelace = amount div 100\<rparr>, \<lparr>ao_address = cr, ao_lovelace = v\<rparr>]
        \<and> min_lovelace lib \<lparr>ao_address = cr, ao_lovelace = v\<rparr> ps \<le> v)"
    unfolding sound_choice_def by auto
  have "set chosen \<subseteq> set utxos" using set_mono_prefix [OF s(1)] by simp
  moreover have "min_fee (int (length sized)) ps \<le> fee"
    using larger_fee_pays [OF assms(1-4) _ s(3,4) p(5,6,7)] assms(6) tx by simp
  moreover have "\<forall>t \<in> set outs. min_lovelace lib t ps \<le> ao_lovelace t" using shape p(3) by auto
  ultimately show ?thesis using s(2) p(1,2,6,7,8,9) shape tx by (auto simp: Let_def)
qed

section \<open>The gate accepts what was built\<close>

text \<open>An address as the reader spells it, and coins with whole transaction ids and amounts that fit.\<close>

definition ada_address :: "pystr \<Rightarrow> bool" where
  "ada_address a \<longleftrightarrow> (\<exists>raw. address_bytes a = Inr raw \<and> address_string raw = Inr a \<and> length raw < 2 ^ 64)"

definition ada_coins :: "utxo list \<Rightarrow> bool" where
  "ada_coins utxos \<longleftrightarrow>
     list_all (\<lambda>u. (\<exists>t. py_fromhex (u_txid u) = Some t \<and> length t = 32) \<and> 0 \<le> u_vout u \<and> u_vout u < 2 ^ 64
       \<and> 0 \<le> u_value u) utxos
   \<and> length utxos < 2 ^ 64 \<and> lovelace_total utxos < 2 ^ 64"

definition ada_memo :: "memo option \<Rightarrow> bool" where
  "ada_memo m \<longleftrightarrow> (\<forall>t. m = Some (MemoText t) \<longrightarrow> unicode_text t \<and> length (utf8_encode t) \<le> MEMO_MAX_BYTES)"

text \<open>The neutral view of a transaction, signed or not.\<close>

definition shown_tx :: "unsigned_tx \<Rightarrow> tx_output list \<times> int" where
  "shown_tx tx =
     (map (\<lambda>t. paid_output (snd (shown_output t) * 100) (fst (shown_output t))) (ut_outputs tx)
      @ (case ut_memo tx of None \<Rightarrow> [] | Some m \<Rightarrow> [data_output (utf8_encode m)]),
      ut_fee tx * 100)"

lemma neutral_view_shown:
  assumes "cardano_ok lib" "ada_tx_ok tx" "witnesses_ok ws" "ada_serialize lib tx ws = Inr raw"
  shows "neutral_view lib raw = Inr (shown_tx tx)"
proof -
  obtain p where "ada_parse lib raw = Inr p" "pt_outputs p = map shown_output (ut_outputs tx)"
      "pt_fee p = CInt (ut_fee tx)" "pt_memo p = map_option utf8_encode (ut_memo tx)"
    using serialized_parses [OF assms] by blast
  then show ?thesis
    by (cases "ut_memo tx")
       (auto simp: neutral_view_def shown_tx_def paid_output_def data_output_def LOVELACE_TO_UNITS_def case_prod_beta)
qed

lemma lovelace_prefix:
  assumes "prefix chosen (sort_key f utxos)" "list_all (\<lambda>u. 0 \<le> u_value u) utxos"
  shows "lovelace_total chosen \<le> lovelace_total utxos" "length chosen \<le> length utxos"
proof -
  obtain rest where rest: "sort_key f utxos = chosen @ rest" using assms(1) by (auto simp: prefix_def)
  have m: "mset utxos = mset chosen + mset rest" by (metis rest mset_append mset_sort)
  then have "sum_list (map u_value utxos) = sum_list (map u_value chosen) + sum_list (map u_value rest)"
    by (metis mset_map sum_mset_sum_list image_mset_union sum_mset.union)
  moreover have "0 \<le> sum_list (map u_value rest)"
  proof (rule sum_list_nonneg)
    fix x assume "x \<in> set (map u_value rest)"
    moreover have "set rest \<subseteq> set utxos" by (metis m set_mset_mset set_mset_union Un_upper2)
    ultimately show "0 \<le> x" using assms(2) by (auto simp: list_all_iff)
  qed
  ultimately show "lovelace_total chosen \<le> lovelace_total utxos"
    by (simp add: lovelace_total_def LOVELACE_TO_UNITS_def zdiv_mono1)
  show "length chosen \<le> length utxos" using m by (metis size_mset size_union le_add1)
qed

lemma ada_inputs_ok:
  assumes "map_res ada_input us = Inr ts"
    and "list_all (\<lambda>u. (\<exists>t. py_fromhex (u_txid u) = Some t \<and> length t = 32) \<and> 0 \<le> u_vout u \<and> u_vout u < 2 ^ 64) us"
  shows "length ts = length us
    \<and> list_all (\<lambda>i :: ada_in. length (ai_txid i) < 2 ^ 64 \<and> 0 \<le> ai_index i \<and> ai_index i < 2 ^ 64) ts"
  using assms by (induction us arbitrary: ts) (auto simp: bind_res_eq_Inr ada_input_def)

text \<open>The built transaction fits the wire, and its outputs are the payment and change of our own.\<close>

lemma ada_built_honest:
  assumes lib: "cardano_ok lib" "cbor_grows lib" "sane_params ps"
    and args: "0 \<le> slot" "slot < 2 ^ 63" "ada_coins utxos" "ada_address vault" "ada_address change" "ada_memo m"
    and run: "ada_build_unsigned_swap lib ed passphrase mnemonic ps slot utxos vault amount m change sweep = Inr b"
  shows "ada_tx_ok (ab_tx b)" "(ab_outputs b, ab_fee b) = shown_tx (ab_tx b)" "0 \<le> ab_fee b"
    "honest_outputs amount vault (if m = None then None else Some (memo_bytes m)) change (ab_outputs b)"
    "length (memo_bytes m) \<le> MEMO_MAX_BYTES"
proof -
  obtain va cr chosen outs fee text_memo raw where
    p: "address_bytes vault = Inr va" "address_bytes change = Inr cr" "amount mod 100 = 0"
      "text_of_memo m = Inr text_memo"
      "ada_choose lib ps (slot + TTL_SLOTS) text_memo \<lparr>ao_address = va, ao_lovelace = amount div 100\<rparr> cr utxos sweep
       = Inr (chosen, outs, fee)"
      "ada_unsigned (slot + TTL_SLOTS) text_memo chosen outs fee = Inr (ab_tx b)"
      "ada_serialize lib (ab_tx b) [] = Inr raw" "neutral_view lib raw = Inr (ab_outputs b, ab_fee b)"
    by (rule ada_built_parts [OF run])
  note f = unsigned_fields [OF p(6)]
  note amount = ada_built_amount [OF lib(3) run]
  have "sound_choice (ada_fee_for lib ps (slot + TTL_SLOTS) text_memo) (\<lambda>t. min_lovelace lib t ps)
      \<lparr>ao_address = va, ao_lovelace = amount div 100\<rparr> cr (sort_key (\<lambda>u. - u_value u) utxos) (chosen, outs, fee)"
    by (rule ada_choose_sound [OF lib(2,3) _ p(5)]) (use amount in simp)
  then have s: "prefix chosen (sort_key (\<lambda>u. - u_value u) utxos)" "0 \<le> fee"
      "lovelace_total chosen = sum_list (map ao_lovelace outs) + fee"
    and shape: "outs = [\<lparr>ao_address = va, ao_lovelace = amount div 100\<rparr>] \<or> (\<exists>v. 0 < v \<and> outs =
        [\<lparr>ao_address = va, ao_lovelace = amount div 100\<rparr>, \<lparr>ao_address = cr, ao_lovelace = v\<rparr>])"
    using min_lovelace_pos [OF lib(3), of lib] unfolding sound_choice_def
    by (auto intro: less_le_trans)
  have coins: "list_all (\<lambda>u. 0 \<le> u_value u) utxos" "lovelace_total utxos < 2 ^ 64" "length utxos < 2 ^ 64"
    using args(3) by (auto simp: ada_coins_def list_all_iff)
  note small = lovelace_prefix [OF s(1) coins(1)]
  have "list_all (\<lambda>u. (\<exists>t. py_fromhex (u_txid u) = Some t \<and> length t = 32) \<and> 0 \<le> u_vout u \<and> u_vout u < 2 ^ 64) chosen"
    using args(3) set_mono_prefix [OF s(1)] unfolding ada_coins_def list_all_iff by auto
  note ins = ada_inputs_ok [OF conjunct1 [OF f] this]
  have addresses: "address_string va = Inr vault" "length va < 2 ^ 64" "address_string cr = Inr change" "length cr < 2 ^ 64"
    using args(4,5) p(1,2) by (auto simp: ada_address_def)
  have memo: "text_memo = (case m of Some (MemoText t) \<Rightarrow> Some t | _ \<Rightarrow> None)" "\<forall>x. m \<noteq> Some (MemoBytes x)"
    using p(4) by (auto simp: text_of_memo_def split: option.splits memo.splits)
  then show len: "length (memo_bytes m) \<le> MEMO_MAX_BYTES"
    using args(6) by (cases m rule: memo_bytes.cases) (auto simp: ada_memo_def)
  have mok: "unicode_text t \<and> length (utf8_encode t) < 2 ^ 60" if "text_memo = Some t" for t
    using that memo args(6) by (cases m rule: memo_bytes.cases) (auto simp: ada_memo_def MEMO_MAX_BYTES_def)
  have outs_ok: "list_all (\<lambda>t. length (ao_address t) < 2 ^ 64 \<and> 0 \<le> ao_lovelace t \<and> ao_lovelace t < 2 ^ 64) outs"
      "length outs < 2 ^ 64" "fee < 2 ^ 64"
    using shape addresses amount s(2,3) small coins by auto
  show ok: "ada_tx_ok (ab_tx b)"
    unfolding ada_tx_ok_def using f ins outs_ok s(2) small(2) coins(3) args(1,2) mok by (auto simp: TTL_SLOTS_def)
  have "witnesses_ok []" by (simp add: witnesses_ok_def)
  then show shown: "(ab_outputs b, ab_fee b) = shown_tx (ab_tx b)"
    using neutral_view_shown [OF lib(1) ok _ p(7)] p(8) by simp
  have built: "ab_outputs b = map (\<lambda>t. paid_output (snd (shown_output t) * 100) (fst (shown_output t))) outs
      @ (case text_memo of None \<Rightarrow> [] | Some m \<Rightarrow> [data_output (utf8_encode m)])" "ab_fee b = fee * 100"
    using shown f by (simp_all add: shown_tx_def)
  then show "0 \<le> ab_fee b" using s(2) by simp
  have whole: "amount div 100 * 100 = amount" using p(3) by (metis add.right_neutral div_mult_mod_eq)
  have data: "(case text_memo of None \<Rightarrow> [] | Some m \<Rightarrow> [data_output (utf8_encode m)])
      = (case (if m = None then None else Some (memo_bytes m)) of None \<Rightarrow> [] | Some d \<Rightarrow> [data_output d])"
    using memo by (cases m rule: memo_bytes.cases) simp_all
  from shape obtain v where "map (\<lambda>t. paid_output (snd (shown_output t) * 100) (fst (shown_output t))) outs
      = built_outputs amount vault None v change"
  proof
    assume "outs = [\<lparr>ao_address = va, ao_lovelace = amount div 100\<rparr>]"
    then show thesis by (intro that [of 0]) (simp add: shown_output_def addresses built_outputs_def whole)
  next
    assume "\<exists>v. 0 < v \<and> outs = [\<lparr>ao_address = va, ao_lovelace = amount div 100\<rparr>, \<lparr>ao_address = cr, ao_lovelace = v\<rparr>]"
    then obtain v where "0 < v"
        "outs = [\<lparr>ao_address = va, ao_lovelace = amount div 100\<rparr>, \<lparr>ao_address = cr, ao_lovelace = v\<rparr>]" by blast
    then show thesis by (intro that [of "v * 100"]) (simp add: shown_output_def addresses built_outputs_def whole)
  qed
  then show "honest_outputs amount vault (if m = None then None else Some (memo_bytes m)) change (ab_outputs b)"
    unfolding built(1) data honest_outputs_def by blast
qed

text \<open>The ADA builder is honest.\<close>

definition ada_ready ::
  "ada_built gated_builder \<Rightarrow> utxo list \<Rightarrow> pystr \<Rightarrow> float64 \<Rightarrow> pystr \<Rightarrow> bool \<Rightarrow> memo option \<Rightarrow> bool" where
  "ada_ready g utxos vault rate change sweep m \<longleftrightarrow>
     (\<exists>lib ed passphrase mnemonic ps slot. g = ada_builder lib ed passphrase mnemonic ps slot
        \<and> cardano_ok lib \<and> cbor_grows lib \<and> sane_params ps \<and> 0 \<le> slot \<and> slot < 2 ^ 63
        \<and> ada_coins utxos \<and> ada_address vault \<and> ada_address change \<and> change \<noteq> vault \<and> ada_memo m)"

lemma ada_readyI:
  assumes "cardano_ok lib" "cbor_grows lib" "sane_params ps" "0 \<le> slot" "slot < 2 ^ 63"
    and "ada_coins utxos" "ada_address vault" "ada_address change" "change \<noteq> vault" "ada_memo m"
  shows "ada_ready (ada_builder lib ed passphrase mnemonic ps slot) utxos vault rate change sweep m"
  using assms unfolding ada_ready_def by blast

interpretation ada_family: honest_builder ada_ready
proof
  fix g utxos vault rate change sweep m n b
  assume "ada_ready g utxos vault rate change sweep m" and run: "gb_hook g utxos vault n m rate change sweep = Inr b"
  then obtain lib ed passphrase mnemonic ps slot where g: "g = ada_builder lib ed passphrase mnemonic ps slot"
    and r: "cardano_ok lib" "cbor_grows lib" "sane_params ps" "0 \<le> slot" "slot < 2 ^ 63" "ada_coins utxos"
      "ada_address vault" "ada_address change" "ada_memo m"
    and apart: "change \<noteq> vault"
    unfolding ada_ready_def by blast
  have b: "ada_build_unsigned_swap lib ed passphrase mnemonic ps slot utxos vault n m change sweep = Inr b"
    using run by (simp add: g ada_builder_def)
  show "honest_outputs n (gb_canonical g vault) (if m = None then None else Some (memo_bytes m)) change (gb_outputs g b)
      \<and> 0 \<le> gb_fee g b \<and> length (memo_bytes m) \<le> gb_memo_max_bytes g \<and> change \<noteq> gb_canonical g vault"
    using ada_built_honest(3-5) [OF r b] apart by (simp add: g ada_builder_def)
qed

text \<open>
  C24: ADA passes the shared gate. A Cardano swap, deposit or send that was built is read back, out of the
  CBOR that was serialized, as the payment, change to our own address and the memo from its metadata.
  So its gate is silent exactly when the quote is unexpired, its memo names the destination and the
  fee is within the cap; for a deposit or a send only the fee is left to judge.
\<close>

theorem ada_transactions_pass:
  assumes "cardano_ok lib" "cbor_grows lib" "sane_params ps" "0 \<le> slot" "slot < 2 ^ 63"
    and "ada_coins utxos" "ada_address vault" "ada_address change" "change \<noteq> vault"
    and "unicode_text m" "length (utf8_encode m) \<le> MEMO_MAX_BYTES"
    and "q_inbound_address q = JStr vault" "vault \<noteq> []" "q_memo q = JStr m" "m \<noteq> []"
    and g: "g = ada_builder lib ed passphrase mnemonic ps slot"
  shows "(build_and_verify g q r now utxos rate change max_fee sweep = Inr p \<longrightarrow>
      (safe p \<longleftrightarrow> now < q_expiry q \<and> memo_pays_destination (sr_destination r) (MemoText m)
         \<and> ab_fee (pr_built p) \<le> max_fee))
   \<and> (build_and_verify_deposit g vault (MemoText m) amount now utxos rate change max_fee sweep = Inr p \<longrightarrow>
      (safe p \<longleftrightarrow> ab_fee (pr_built p) \<le> max_fee))
   \<and> (build_and_verify_send g vault amount utxos rate change max_fee sweep = Inr p \<longrightarrow>
      (safe p \<longleftrightarrow> ab_fee (pr_built p) \<le> max_fee))"
proof -
  have ready: "ada_ready g utxos vault rate change sweep (Some (MemoText m))" "ada_ready g utxos vault rate change sweep None"
    unfolding g by (rule ada_readyI [OF assms(1-9)]; use assms(10,11) in \<open>simp add: ada_memo_def\<close>)+
  have fee: "gb_fee g = ab_fee" by (simp add: g ada_builder_def)
  show ?thesis
    using ada_family.swap_passes(2) [OF ready(1) assms(10,12-15)]
      ada_family.deposit_passes(2) [OF ready(1) assms(10)] ada_family.send_passes(2) [OF ready(2)]
    unfolding fee by blast
qed

section \<open>Addresses and their keys\<close>

lemma base_address_reads:
  assumes "base_address ed payment stake = Inr a"
  shows "address_bytes a = Inr (1 # el_blake2b_224 ed payment @ el_blake2b_224 ed stake)"
    "address_string (1 # el_blake2b_224 ed payment @ el_blake2b_224 ed stake) = Inr a"
proof -
  let ?raw = "1 # el_blake2b_224 ed payment @ el_blake2b_224 ed stake"
  have hrp: "ADDRESS_HRP = ADDR" "ADDR \<noteq> []" by (simp_all add: ADDRESS_HRP_def ADDR_def lit_def)
  obtain a' where a': "b32_encode ADDR ?raw BECH32 = Inr a'" "b32_decode a' BECH32 = Inr (ADDR, ?raw)"
    by (rule b32_roundtrip [OF hrp(2), of BECH32 ?raw]) auto
  with assms have "a = a'"
    by (simp add: base_address_def hrp(1) key_py_def of_b32_def bech32_encode_def BASE_ADDRESS_MAINNET_def)
  with a' show "address_bytes a = Inr ?raw" "address_string ?raw = Inr a"
    by (simp_all add: address_bytes_def address_string_def of_b32_def bech32_encode_def bech32_decode_def MAINNET_def)
qed

text \<open>A derived address is one the reader spells the same, and its payment key is the one at its path.\<close>

lemma derived_address:
  assumes "ed_ok ed pt" "ada_derive_address ed passphrase mnemonic path = Inr a"
  obtains master key public raw where "root_key ed mnemonic passphrase = Inr master" "derive ed master path = Inr key"
    "public_key ed key = Inr public" "address_bytes a = Inr raw" "payment_key_hash raw = Inr (el_blake2b_224 ed public)"
    "ada_address a"
proof -
  from assms(2) obtain master key public stake where
    k: "root_key ed mnemonic passphrase = Inr master" "derive ed master path = Inr key" "public_key ed key = Inr public"
    and a: "base_address ed public stake = Inr a"
    by (auto simp: ada_derive_address_def bind_res_eq_Inr split: if_splits)
  have len: "length (el_blake2b_224 ed x) = 28" for x using assms(1) by (simp add: ed_ok_def)
  show thesis
    by (rule that [OF k base_address_reads(1) [OF a]])
       (use base_address_reads [OF a] len in \<open>auto simp: payment_key_hash_def slice_def ada_address_def\<close>)
qed

lemma filter_value_le:
  "list_all (\<lambda>u. 0 \<le> u_value u) us \<Longrightarrow> sum_list (map u_value (filter P us)) \<le> sum_list (map u_value us)"
  by (induction us) auto

text \<open>
  A deposit is made from the receive address. Whatever coins the scan found, the prepared deposit
  spends only coins of the address the wallet shows first and returns its change there, so every
  position has one owner; a sweep takes all that was found; the check for stray inputs is never the
  one that speaks; and what is left to judge is the fee.
\<close>

theorem ada_deposit_from_receive_address:
  assumes "cardano_ok lib" "cbor_grows lib" "sane_params ps" "0 \<le> slot" "slot < 2 ^ 63" "ed_ok ed pt"
    and "ada_coins scanned" "ada_address vault" "unicode_text m" "length (utf8_encode m) \<le> MEMO_MAX_BYTES"
    and "ada_derive_address ed passphrase mnemonic ADA_DEFAULT_DERIVATION = Inr lp" "lp \<noteq> vault"
    and "ada_build_and_verify_deposit lib ed passphrase mnemonic ps slot vault (MemoText m) amount now scanned rate
       max_fee sweep = Inr p"
  shows "(\<forall>u \<in> set (ab_inputs (pr_built p)). u \<in> set scanned \<and> u_address u = lp)
    \<and> ab_change_address (pr_built p) = lp
    \<and> (sweep \<longrightarrow> (\<forall>u \<in> set scanned. u_address u = lp))
    \<and> (\<forall>a. SpendsFrom a \<notin> set (pr_problems p))
    \<and> (pr_problems p = [] \<longleftrightarrow> ab_fee (pr_built p) \<le> max_fee)"
proof -
  let ?g = "ada_builder lib ed passphrase mnemonic ps slot"
  let ?utxos = "filter (\<lambda>u. u_address u = lp) scanned"
  obtain q where q: "build_and_verify_deposit ?g vault (MemoText m) amount now ?utxos rate lp max_fee sweep = Inr q"
    and p: "pr_built p = pr_built q" "sweep \<longrightarrow> length ?utxos = length scanned"
      "pr_problems p = map GateProblem (pr_problems q)
        @ (if sort (remdups (filter (\<lambda>a. a \<noteq> lp) (map u_address (ab_inputs (pr_built q))))) = [] then []
           else [SpendsFrom (sort (remdups (filter (\<lambda>a. a \<noteq> lp) (map u_address (ab_inputs (pr_built q))))))])"
    using assms(13) by (auto simp: ada_build_and_verify_deposit_def assms(11) key_res_def bind_res_eq_Inr Let_def split: if_splits)
  have lp: "ada_address lp" by (rule derived_address [OF assms(6,11)])
  have coins: "ada_coins ?utxos"
  proof -
    have "sum_list (map u_value ?utxos) \<le> sum_list (map u_value scanned)"
      using assms(7) by (intro filter_value_le) (auto simp: ada_coins_def list_all_iff)
    moreover have "length ?utxos \<le> length scanned" by (rule length_filter_le)
    moreover have "lovelace_total ?utxos \<le> lovelace_total scanned"
      using calculation(1) by (simp add: lovelace_total_def LOVELACE_TO_UNITS_def zdiv_mono1)
    ultimately show ?thesis using assms(7) by (auto simp: ada_coins_def list_all_iff intro: le_less_trans [OF length_filter_le])
  qed
  have ready: "ada_ready ?g ?utxos vault rate lp sweep (Some (MemoText m))"
    by (rule ada_readyI [OF assms(1-5) coins assms(8) lp assms(12)]) (use assms(9,10) in \<open>simp add: ada_memo_def\<close>)
  note pass = ada_family.deposit_passes [OF ready assms(9) q]
  have b: "ada_build_unsigned_swap lib ed passphrase mnemonic ps slot ?utxos vault amount (Some (MemoText m)) lp sweep
      = Inr (pr_built q)"
    using pass(1) by (simp add: ada_builder_def)
  have inputs: "set (ab_inputs (pr_built q)) \<subseteq> set ?utxos" "ab_change_address (pr_built q) = lp"
    using ada_built_inputs [OF assms(2,3) b] by simp_all
  then have none: "filter (\<lambda>a. a \<noteq> lp) (map u_address (ab_inputs (pr_built q))) = []"
    by (auto simp: filter_empty_conv)
  have "\<forall>u \<in> set scanned. u_address u = lp" if sweep
    using p(2) that length_filter_less by (metis (mono_tags, lifting) less_irrefl)
  then show ?thesis
    using inputs pass(2) p unfolding none by (auto simp: safe_def ada_builder_def)
qed

section \<open>The signed transaction\<close>

text \<open>
  The keys that sign: each with its own public key, every input's address owned by one of them.
\<close>

definition good_key :: "ed_libs \<Rightarrow> bytes \<times> extended_key \<Rightarrow> bool" where
  "good_key ed e \<longleftrightarrow> public_key ed (snd e) = Inr (fst e) \<and> (\<exists>n \<le> MAX_DEPTH. usable_key n (snd e))"

definition owned_by :: "ed_libs \<Rightarrow> bytes set \<Rightarrow> utxo \<Rightarrow> bool" where
  "owned_by ed publics u \<longleftrightarrow>
     (\<exists>raw. address_bytes (u_address u) = Inr raw
        \<and> (\<exists>public \<in> publics. payment_key_hash raw = Inr (el_blake2b_224 ed public)))"

definition path_ok :: "utxo \<Rightarrow> bool" where
  "path_ok u \<longleftrightarrow> (\<exists>indices. parse_path (input_path u) = Inr indices \<and> length indices \<le> MAX_DEPTH
     \<and> (\<forall>i \<in> set indices. 0 \<le> i \<and> i < 2 ^ 32))"

lemma key_res_Inr: "key_res r = Inr x \<longleftrightarrow> r = Inr x"
  by (cases r) (auto simp: key_res_def split: key_error.splits)

lemma derive_usable:
  assumes "ed_ok ed pt" "usable_key 0 master" "path_ok u"
  obtains n k where "derive ed master (input_path u) = Inr k" "usable_key n k" "n \<le> MAX_DEPTH"
proof -
  obtain indices where i: "parse_path (input_path u) = Inr indices" "length indices \<le> MAX_DEPTH"
      "\<forall>i \<in> set indices. 0 \<le> i \<and> i < 2 ^ 32"
    using assms(3) by (auto simp: path_ok_def)
  obtain k where "derive_loop ed master indices = Inr k" "usable_key (0 + length indices) k"
    by (rule derive_loop_usable [OF assms(1,2)]) (use i in auto)
  with i show thesis by (intro that [of k "length indices"]) (simp_all add: derive_def key_py_def)
qed

lemma update_keeps:
  "list_all P kvs \<Longrightarrow> P (k, v) \<Longrightarrow> list_all P (AList.update k v kvs)"
  "fst ` set (AList.update k v kvs) = insert k (fst ` set kvs)"
  "length (AList.update k v kvs) \<le> Suc (length kvs)"
  by (induction kvs) auto

lemma signing_loop_keys:
  assumes "ed_ok ed pt" "usable_key 0 master" "list_all path_ok us"
    and "signing_loop ed master keys us = Inr ks" "list_all (good_key ed) keys" "distinct (map fst keys)"
  shows "\<exists>kps. ks = map snd kps \<and> list_all (good_key ed) kps \<and> distinct (map fst kps)
    \<and> fst ` set keys \<subseteq> fst ` set kps \<and> length kps \<le> length keys + length us
    \<and> (\<forall>u \<in> set us. owned_by ed (fst ` set kps) u)"
  using assms(3-6)
proof (induction us arbitrary: keys)
  case Nil
  then show ?case by auto
next
  case (Cons u us)
  obtain n k where k: "derive ed master (input_path u) = Inr k" "usable_key n k" "n \<le> MAX_DEPTH"
    by (rule derive_usable [OF assms(1,2)]) (use Cons.prems(1) in auto)
  from Cons.prems(2) obtain raw public where
    p: "address_bytes (u_address u) = Inr raw" "payment_key_hash raw = Inr (el_blake2b_224 ed public)"
      "public_key ed k = Inr public" "signing_loop ed master (AList.update public k keys) us = Inr ks"
    by (auto simp: k(1) bind_res_eq_Inr key_res_Inr ada_py_Inr split: if_splits)
  let ?keys = "AList.update public k keys"
  have "good_key ed (public, k)" using p(3) k(2,3) by (auto simp: good_key_def)
  note good = update_keeps(1) [OF Cons.prems(3) this] and keys = update_keeps(2,3) [of public k keys]
  have rest: "list_all path_ok us" using Cons.prems(1) by simp
  obtain kps where kps: "ks = map snd kps" "list_all (good_key ed) kps" "distinct (map fst kps)"
      "fst ` set ?keys \<subseteq> fst ` set kps" "length kps \<le> length ?keys + length us"
      "\<forall>u \<in> set us. owned_by ed (fst ` set kps) u"
    using Cons.IH [OF rest p(4) good distinct_update [OF Cons.prems(4)]] by blast
  have "public \<in> fst ` set kps" using kps(4) unfolding keys(1) by blast
  then have "owned_by ed (fst ` set kps) u" unfolding owned_by_def using p(1,2) by (intro exI [of _ raw] conjI bexI)
  moreover have "length kps \<le> length keys + length (u # us)" using kps(5) keys(2) by simp
  moreover have "fst ` set keys \<subseteq> fst ` set kps" using kps(4) keys(1) by blast
  ultimately show ?case using kps(1,2,3,6) by (intro exI [of _ kps]) simp
qed

lemma witnesses_made:
  assumes "ed_ok ed pt" "ed_group ed pt padd pmul" "list_all (good_key ed) kps"
    and "\<forall>k \<in> snd ` set kps. nonce ed k digest \<noteq> 0"
  shows "\<exists>ws. map_res (witness_of ed digest) (map snd kps) = Inr ws \<and> map fst ws = map fst kps
    \<and> list_all (\<lambda>(k, s). length k = 32 \<and> length s = 64 \<and> el_verify ed k digest s) ws"
  using assms(3,4)
proof (induction kps)
  case Nil
  then show ?case by simp
next
  case (Cons e kps)
  obtain n where n: "usable_key n (snd e)" "n \<le> MAX_DEPTH" "public_key ed (snd e) = Inr (fst e)"
    using Cons.prems(1) by (auto simp: good_key_def)
  obtain s where s: "key_sign ed (snd e) digest = Inr s" "length s = 64" "el_verify ed (fst e) digest s"
    using key_sign_verifies(2) [OF assms(1,2) n(1,2), of digest] Cons.prems(2) n(3) by auto
  have "length (fst e) = 32"
    using public_key_exists(1) [OF assms(1) n(1,2)] n(3) assms(1) by (auto simp: ed_ok_def)
  with Cons s n(3) show ?case by (auto simp: witness_of_def sign_key_def)
qed

lemma serialize_witnesses:
  "ada_serialize lib tx ws = Inr raw \<Longrightarrow> \<exists>raw'. ada_serialize lib tx ws' = Inr raw'"
  by (auto simp: ada_serialize_def bind_res_eq_Inr)

text \<open>
  C25: Signing never refuses the wallet's own work. A transaction that was built is signed by one key per
  payment credential of its inputs, and every input's address is owned by one of them; each
  signature is over the id of the transaction and verifies; and reading the signed bytes back gives
  that id, as many witnesses as keys, and the outputs and the fee the gate passed, so the
  read-back lets it through. A nonce digest that is 0 modulo the group order is excluded.
\<close>

theorem ada_signed_reads_back:
  assumes "cardano_ok lib" "cbor_grows lib" "sane_params ps" "0 \<le> slot" "slot < 2 ^ 63" "ada_coins utxos"
    and "ada_address vault" "ada_address change" "ada_memo m" "ed_ok ed pt" "ed_group ed pt padd pmul"
    and "ada_build_unsigned_swap lib ed passphrase mnemonic ps slot utxos vault amount m change sweep = Inr b"
    and "list_all path_ok utxos" "ada_txid lib (ab_tx b) = Inr digest"
    and "\<forall>k \<in> set (ab_keys b). nonce ed k digest \<noteq> 0"
  shows "\<exists>raw p. ada_sign lib ed b = Inr [py_hex raw] \<and> ada_parse lib raw = Inr p \<and> pt_txid p = digest
    \<and> neutral_view lib raw = Inr (ab_outputs b, ab_fee b)
    \<and> length (pt_witnesses p) = length (ab_keys b)
    \<and> (\<forall>(k, s) \<in> set (pt_witnesses p). el_verify ed k digest s)
    \<and> (\<forall>u \<in> set (ab_inputs b). owned_by ed (fst ` set (pt_witnesses p)) u)"
proof -
  note honest = ada_built_honest [OF assms(1-9,12)]
  note inputs = ada_built_inputs [OF assms(2,3,12)]
  obtain chosen raw0 where
    r: "signing_keys ed passphrase mnemonic chosen = Inr (ab_keys b)" "ab_inputs b = chosen"
      "ada_serialize lib (ab_tx b) [] = Inr raw0"
    by (rule ada_built_parts [OF assms(12)])
  obtain master where master: "root_key ed mnemonic passphrase = Inr master"
      "signing_loop ed master [] (ab_inputs b) = Inr (ab_keys b)"
    using r(1,2) by (auto simp: signing_keys_def bind_res_eq_Inr key_res_Inr)
  have "list_all path_ok (ab_inputs b)" using assms(13) inputs(1) by (auto simp: list_all_iff)
  from signing_loop_keys [OF assms(10) root_key_usable [OF assms(10) master(1)] this master(2)]
  obtain kps where kps: "ab_keys b = map snd kps" "list_all (good_key ed) kps" "distinct (map fst kps)"
      "length kps \<le> length (ab_inputs b)" "\<forall>u \<in> set (ab_inputs b). owned_by ed (fst ` set kps) u"
    by auto
  obtain ws where ws: "map_res (witness_of ed digest) (ab_keys b) = Inr ws" "map fst ws = map fst kps"
      "list_all (\<lambda>(k, s). length k = 32 \<and> length s = 64 \<and> el_verify ed k digest s) ws"
    using witnesses_made [OF assms(10,11) kps(2)] assms(15) unfolding kps(1) by auto
  have len: "length ws = length kps" using arg_cong [OF ws(2), of length] by simp
  have "length utxos < 2 ^ 64" using assms(6) by (simp add: ada_coins_def)
  then have "length ws < 2 ^ 64" using len kps(4) inputs(2) by linarith
  then have wok: "witnesses_ok ws" using ws(3) by (auto simp: witnesses_ok_def list_all_iff)
  have "distinct ws" using kps(3) by (metis ws(2) distinct_map)
  obtain raw where raw: "ada_serialize lib (ab_tx b) ws = Inr raw" using serialize_witnesses [OF r(3)] by blast
  obtain p where p: "ada_parse lib raw = Inr p" "pt_txid p = digest" "set (pt_witnesses p) = set ws" "mset (pt_witnesses p) = mset ws"
    using serialized_parses [OF assms(1) honest(1) wok raw] assms(14) \<open>distinct ws\<close> by auto
  have view: "neutral_view lib raw = Inr (ab_outputs b, ab_fee b)"
    using neutral_view_shown [OF assms(1) honest(1) wok raw] honest(2) by simp
  have n: "length (pt_witnesses p) = length (ab_keys b)" by (metis p(4) len kps(1) length_map size_mset)
  have keys: "fst ` set (pt_witnesses p) = fst ` set kps" by (metis p(3) ws(2) list.set_map)
  have "ada_sign lib ed b = Inr [py_hex raw]"
    by (simp add: ada_sign_def sign_py_def assms(14) ws(1) raw p(1,2) view n)
  moreover have "\<forall>(k, s) \<in> set (pt_witnesses p). el_verify ed k digest s" using ws(3) by (auto simp: p(3) list_all_iff)
  ultimately show ?thesis using p(1,2) view n kps(5) keys by metis
qed

section \<open>A run\<close>

text \<open>One coin of 100 ADA at the receive address; 5 ADA of it are paid to an enterprise address.\<close>

definition ex_params :: protocol_params where
  "ex_params = \<lparr>pp_min_fee_a = 44, pp_min_fee_b = 155381, pp_coins_per_utxo_byte = 4310, pp_max_tx_size = 16384\<rparr>"

definition ex_ada_coin :: "pystr \<Rightarrow> utxo" where
  "ex_ada_coin a = \<lparr>u_txid = py_hex (replicate 32 8), u_vout = 0, u_value = 10000000000, u_address = a,
     u_path = None, u_confirmed = True, u_ancestor_deficit = 0\<rparr>"

definition ex_ada_text :: pystr where
  "ex_ada_text = lit ''=:e:me''"

lemma ex_ada_text: "unicode_text ex_ada_text" "length (utf8_encode ex_ada_text) = 6" "ex_ada_text \<noteq> []"
  "metadata_for_memo ex_ada_text = Inr (CMap [(CInt CIP20_LABEL, CMap [(MSG, CList [CText ex_ada_text])])])"
  by (simp_all add: ex_ada_text_def unicode_text_def unicode_scalar_def lit_def utf8_encode_def utf8_char_def
      metadata_for_memo_def memo_chunks_def METADATA_CHUNK_def)

lemma ex_cardano_grows: "cbor_grows ex_cardano" "cbor_widths ex_cardano"
  using ex_cardano_sizes by (simp_all add: cbor_grows_def cbor_widths_def ex_cardano_def cbor_head_def)

lemma ada_address_of:
  assumes "hd raw AND 0x0F = MAINNET" "raw \<noteq> []" "length raw < 2 ^ 64"
  obtains a where "address_bytes a = Inr raw" "ada_address a"
proof -
  have hrp: "ADDR \<noteq> []" by (simp add: ADDR_def lit_def)
  obtain a where "b32_encode ADDR raw BECH32 = Inr a" "b32_decode a BECH32 = Inr (ADDR, raw)"
    by (rule b32_roundtrip [OF hrp, of BECH32 raw]) auto
  with assms have "address_bytes a = Inr raw" "address_string raw = Inr a"
    by (simp_all add: address_bytes_def address_string_def of_b32_def bech32_encode_def bech32_decode_def)
  with assms(3) show thesis by (intro that) (auto simp: ada_address_def)
qed

lemma ex_derived:
  obtains master key public lp raw where "root_key ex_ed [] [] = Inr master"
    "derive ex_ed master ADA_DEFAULT_DERIVATION = Inr key" "public_key ex_ed key = Inr public"
    "ada_derive_address ex_ed [] [] ADA_DEFAULT_DERIVATION = Inr lp" "address_bytes lp = Inr raw" "hd raw = 1"
    "payment_key_hash raw = Inr (el_blake2b_224 ex_ed public)" "ada_address lp"
proof -
  have paths: "parse_path ADA_DEFAULT_DERIVATION = Inr [HARDENED + 1852, HARDENED + 1815, HARDENED, 0, 0]"
    "parse_path (account_of ADA_DEFAULT_DERIVATION @ lit ''/'' @ STAKE_ROLE_INDEX)
      = Inr [HARDENED + 1852, HARDENED + 1815, HARDENED, 2, 0]"
    by (simp_all add: ADA_DEFAULT_DERIVATION_def ADA_ACCOUNT_def STAKE_ROLE_INDEX_def account_of_def parse_path_def
        parse_index_def lit_def py_int_def Let_def HARDENED_def py_strip_def py_space_def is_digit_def)
  obtain master where m: "root_key ex_ed [] [] = Inr master" by (simp add: root_key_def ex_ed_def Let_def)
  have usable: "\<exists>k public. derive ex_ed master path = Inr k \<and> public_key ex_ed k = Inr public"
    if "parse_path path = Inr [HARDENED + 1852, HARDENED + 1815, HARDENED, i, 0]" "i \<in> {0, 2}" for path i
  proof -
    note i = that(2)
    let ?is = "[HARDENED + 1852, HARDENED + 1815, HARDENED, i, 0]"
    have len: "length ?is = 5" by simp
    obtain k where k: "derive_loop ex_ed master ?is = Inr k" "usable_key (0 + length ?is) k"
      by (rule derive_loop_usable [OF ex_ed_ok root_key_usable [OF ex_ed_ok m], of ?is])
         (use i in \<open>auto simp: HARDENED_def MAX_DEPTH_def\<close>)
    have "0 + length ?is \<le> MAX_DEPTH" unfolding len by (simp add: MAX_DEPTH_def)
    from public_key_exists(1) [OF ex_ed_ok k(2) this] k(1) that(1) show ?thesis by (simp add: derive_def key_py_def)
  qed
  obtain key public where k: "derive ex_ed master ADA_DEFAULT_DERIVATION = Inr key" "public_key ex_ed key = Inr public"
    using usable [OF paths(1)] by auto
  obtain skey stake where s: "derive ex_ed master (account_of ADA_DEFAULT_DERIVATION @ lit ''/'' @ STAKE_ROLE_INDEX) = Inr skey"
      "public_key ex_ed skey = Inr stake"
    using usable [OF paths(2)] by auto
  have "ADDRESS_HRP = ADDR" by (simp add: ADDRESS_HRP_def ADDR_def)
  then obtain lp where base: "base_address ex_ed public stake = Inr lp"
    using address_string_total [of "BASE_ADDRESS_MAINNET # el_blake2b_224 ex_ed public @ el_blake2b_224 ex_ed stake"]
    by (auto simp: base_address_def address_string_def key_py_def)
  then have lp: "ada_derive_address ex_ed [] [] ADA_DEFAULT_DERIVATION = Inr lp"
    by (simp add: ada_derive_address_def paths(1) key_py_def m k s)
  obtain master' key' public' raw where d: "root_key ex_ed [] [] = Inr master'" "derive ex_ed master' ADA_DEFAULT_DERIVATION = Inr key'"
    "public_key ex_ed key' = Inr public'" "address_bytes lp = Inr raw" "payment_key_hash raw = Inr (el_blake2b_224 ex_ed public')"
    "ada_address lp"
    by (rule derived_address [OF ex_ed_ok lp])
  have "hd raw = 1" using base_address_reads(1) [OF base] d(4) by simp
  with that d lp show thesis by blast
qed

lemma ex_serialized:
  assumes "length t = 32" "length a = 29" "tx = \<lparr>ut_inputs = [\<lparr>ai_txid = t, ai_index = 0\<rparr>],
      ut_outputs = [\<lparr>ao_address = a, ao_lovelace = v\<rparr>], ut_fee = f, ut_ttl = e, ut_memo = m\<rparr>"
    and "m \<in> {None, Some ex_ada_text}" "ws \<in> {[], [(replicate 32 0, replicate 64 0)]}"
  shows "\<exists>raw. ada_serialize ex_cardano tx ws = Inr raw \<and> length raw < 1000"
proof -
  have "length (utf8_encode (lit ''msg'')) = 3" by (simp add: lit_def utf8_encode_def utf8_char_def)
  with assms show ?thesis
    by (auto simp: ada_serialize_def encode_body_def encode_aux_def ex_ada_text ex_cardano_def body_map_def
        input_items_def output_item_def witness_map_def cbor_head_def MSG_def)
qed

lemma ex_ada_builds:
  assumes "address_bytes vault = Inr va" "length va = 29" "ada_address vault"
    and "ada_derive_address ex_ed [] [] ADA_DEFAULT_DERIVATION = Inr lp" "m \<in> {None, Some (MemoText ex_ada_text)}"
  shows "\<exists>b. ada_build_unsigned_swap ex_cardano ex_ed [] [] ex_params 0 [ex_ada_coin lp] vault 500000000 m lp True = Inr b
    \<and> ut_fee (ab_tx b) = 95000000"
proof -
  obtain master key public raw where k: "root_key ex_ed [] [] = Inr master" "derive ex_ed master ADA_DEFAULT_DERIVATION = Inr key"
      "public_key ex_ed key = Inr public" "address_bytes lp = Inr raw" "payment_key_hash raw = Inr (el_blake2b_224 ex_ed public)"
      "ada_address lp"
    by (rule derived_address [OF ex_ed_ok assms(4)])
  let ?recipient = "\<lparr>ao_address = va, ao_lovelace = 5000000\<rparr>" and ?coin = "ex_ada_coin lp"
  obtain t where t: "text_of_memo m = Inr t" "t \<in> {None, Some ex_ada_text}"
    using assms(5) by (auto simp: text_of_memo_def)
  let ?tx = "\<lambda>f. \<lparr>ut_inputs = [\<lparr>ai_txid = replicate 32 8, ai_index = 0\<rparr>], ut_outputs = [?recipient], ut_fee = f,
      ut_ttl = TTL_SLOTS, ut_memo = t\<rparr>"
  let ?ws = "[(replicate 32 0, replicate 64 0)]"
  have ws: "dummy_witnesses 1 = Inr ?ws" by (simp add: dummy_witnesses_def byte_of_def)
  have one: "n_addresses [?coin] = 1" by (simp add: n_addresses_def)
  have unsigned: "ada_unsigned TTL_SLOTS t [?coin] [?recipient] f = Inr (?tx f)" for f
    by (simp add: ada_unsigned_def ada_input_def ex_ada_coin_def py_fromhex_hex)
  have ser: "\<exists>raw. ada_serialize ex_cardano (?tx f) ws = Inr raw \<and> length raw < 1000" if "ws \<in> {[], ?ws}" for f ws
    by (rule ex_serialized [OF _ assms(2) refl t(2) that]) simp
  obtain raw0 where raw0: "ada_serialize ex_cardano ((?tx 0)\<lparr>ut_fee := 0\<rparr>) ?ws = Inr raw0" "length raw0 < 1000"
    using ser [of ?ws 0] by auto
  have pays: "pays_own_size ex_cardano (?tx 0) ?ws ex_params 95000000"
    using ser [of ?ws 95000000] by (auto simp: pays_own_size_def min_fee_def ex_params_def)
  have "min_fee (int (length raw0) + 9) ex_params < 2 ^ 64" using raw0(2) by (simp add: min_fee_def ex_params_def)
  then obtain g where g: "fee_loop ex_cardano (?tx 0) ?ws ex_params 0 = Some (Inr g)" "g \<le> 95000000"
    using fee_loop_least [OF ex_cardano_sizes _ _ raw0(1), of ex_params 0 raw0] raw0(1) pays
    by (auto simp: ex_params_def min_fee_def)
  have fee: "ada_fee_for ex_cardano ex_params TTL_SLOTS t [?coin] [?recipient] = Inr g"
    using g(1) ws by (simp add: ada_fee_for_def unsigned one required_fee_def fee_res_def ada_py_def)
  have tot: "lovelace_total [?coin] = 100000000" by (simp add: lovelace_total_def ex_ada_coin_def LOVELACE_TO_UNITS_def)
  have choose: "ada_choose ex_cardano ex_params TTL_SLOTS t ?recipient c [?coin] True = Inr ([?coin], [?recipient], 95000000)" for c
    using fee g(2) by (simp add: ada_choose_def tot)
  have min: "min_lovelace ex_cardano ?recipient ex_params \<le> 5000000"
    by (simp add: min_lovelace_def output_item_def ex_cardano_def cbor_head_def assms(2) UTXO_ENTRY_OVERHEAD_def ex_params_def)
  obtain sized where sized: "ada_serialize ex_cardano (?tx 95000000) ?ws = Inr sized" "int (length sized) \<le> pp_max_tx_size ex_params"
    using ser [of ?ws 95000000] by (auto simp: ex_params_def)
  obtain bare where bare: "ada_serialize ex_cardano (?tx 95000000) [] = Inr bare" using ser [of "[]"] by auto
  have "ada_tx_ok (?tx 95000000)" using assms(2) t(2) ex_ada_text by (auto simp: ada_tx_ok_def TTL_SLOTS_def)
  moreover have "witnesses_ok []" by (simp add: witnesses_ok_def)
  ultimately have view: "neutral_view ex_cardano bare = Inr (shown_tx (?tx 95000000))"
    using neutral_view_shown [OF ex_cardano_ok _ _ bare] by blast
  have path: "input_path ?coin = ADA_DEFAULT_DERIVATION" by (simp add: input_path_def ex_ada_coin_def or_empty_def)
  have "signing_keys ex_ed [] [] [?coin] = Inr [key]"
    using k path by (simp add: signing_keys_def key_res_def ada_py_def ex_ada_coin_def)
  then have "\<exists>b. ada_assemble ex_cardano ex_ed [] [] ex_params TTL_SLOTS t lp True ([?coin], [?recipient], 95000000) = Inr b
      \<and> ab_tx b = ?tx 95000000"
    using ws one unsigned sized bare view fee by (simp add: ada_assemble_def ada_py_def case_prod_beta)
  then show ?thesis
    using t(1) assms(1) k(4) min choose by (auto simp: ada_build_unsigned_swap_def LOVELACE_TO_UNITS_def ada_py_def)
qed

lemma ex_ada_run:
  obtains vault lp where "address_bytes vault = Inr (0x61 # replicate 28 0)" "ada_address vault" "ada_address lp" "lp \<noteq> vault"
    "ada_derive_address ex_ed [] [] ADA_DEFAULT_DERIVATION = Inr lp" "ada_coins [ex_ada_coin lp]" "vault \<noteq> []"
proof -
  obtain lp raw where lp: "ada_derive_address ex_ed [] [] ADA_DEFAULT_DERIVATION = Inr lp" "address_bytes lp = Inr raw"
      "hd raw = 1" "ada_address lp"
    by (rule ex_derived)
  have "hd ((0x61 :: byte) # replicate 28 0) AND 0x0F = MAINNET" by (simp add: MAINNET_def)
  then obtain vault where v: "address_bytes vault = Inr (0x61 # replicate 28 0)" "ada_address vault"
    by (rule ada_address_of) simp_all
  have "lp \<noteq> vault" using lp(2,3) v(1) by auto
  moreover have "ada_coins [ex_ada_coin lp]"
    by (simp add: ada_coins_def ex_ada_coin_def py_fromhex_hex lovelace_total_def LOVELACE_TO_UNITS_def)
  moreover have "vault \<noteq> []"
  proof
    assume "vault = []"
    moreover have "address_bytes [] \<noteq> Inr x" for x by code_simp
    ultimately show False using v(1) by simp
  qed
  ultimately show thesis using that v lp(1,4) by blast
qed

lemma ex_ada_params: "sane_params ex_params" "2 ^ 16 \<le> pp_min_fee_b ex_params"
  by (simp_all add: sane_params_def ex_params_def)

lemma ada_built_sound_witness:
  "\<exists>vault lp b. ada_build_unsigned_swap ex_cardano ex_ed [] [] ex_params 0 [ex_ada_coin lp] vault 500000000 None lp True = Inr b
    \<and> lovelace_total (ab_inputs b) = sum_list (map ao_lovelace (ut_outputs (ab_tx b))) + 95000000
    \<and> (\<forall>t \<in> set (ut_outputs (ab_tx b)). min_lovelace ex_cardano t ex_params \<le> ao_lovelace t)"
proof -
  obtain vault lp where v: "address_bytes vault = Inr (0x61 # replicate 28 0)" "ada_address vault"
      "ada_derive_address ex_ed [] [] ADA_DEFAULT_DERIVATION = Inr lp"
    by (rule ex_ada_run)
  obtain b where b: "ada_build_unsigned_swap ex_cardano ex_ed [] [] ex_params 0 [ex_ada_coin lp] vault 500000000 None lp True = Inr b"
      "ut_fee (ab_tx b) = 95000000"
    using ex_ada_builds [OF v(1) _ v(2,3), of None] by auto
  have "ut_fee (ab_tx b) < 2 ^ 32" by (simp add: b(2))
  from ada_built_sound [OF ex_cardano_grows ex_ada_params b(1) this] b show ?thesis by metis
qed

lemma ada_transactions_pass_witness:
  "\<exists>vault lp p. build_and_verify_send (ada_builder ex_cardano ex_ed [] [] ex_params 0) vault 500000000 [ex_ada_coin lp]
      (Flt 0 0) lp 10000000000 True = Inr p \<and> (safe p \<longleftrightarrow> ab_fee (pr_built p) \<le> 10000000000)"
proof -
  obtain vault lp where v: "address_bytes vault = Inr (0x61 # replicate 28 0)" "ada_address vault" "ada_address lp"
      "lp \<noteq> vault" "ada_derive_address ex_ed [] [] ADA_DEFAULT_DERIVATION = Inr lp" "ada_coins [ex_ada_coin lp]" "vault \<noteq> []"
    by (rule ex_ada_run)
  let ?g = "ada_builder ex_cardano ex_ed [] [] ex_params 0"
  let ?q = "ex_quote\<lparr>q_inbound_address := JStr vault, q_memo := JStr ex_ada_text\<rparr>"
  obtain b where "ada_build_unsigned_swap ex_cardano ex_ed [] [] ex_params 0 [ex_ada_coin lp] vault 500000000 None lp True = Inr b"
    using ex_ada_builds [OF v(1) _ v(2,5), of None] by auto
  then obtain p where p: "build_and_verify_send ?g vault 500000000 [ex_ada_coin lp] (Flt 0 0) lp 10000000000 True = Inr p"
    by (simp add: build_and_verify_send_def ada_builder_def Let_def)
  have m: "length (utf8_encode ex_ada_text) \<le> MEMO_MAX_BYTES" by (simp add: ex_ada_text MEMO_MAX_BYTES_def)
  have q: "q_inbound_address ?q = JStr vault" "q_memo ?q = JStr ex_ada_text" by simp_all
  have "(0 :: int) < 2 ^ 63" by simp
  from ada_transactions_pass [OF ex_cardano_ok ex_cardano_grows(1) ex_ada_params(1) order_refl this v(6,2,3,4)
      ex_ada_text(1) m q(1) v(7) q(2) ex_ada_text(3) refl, THEN conjunct2, THEN conjunct2, THEN mp, OF p] p
  show ?thesis by blast
qed

lemma ada_deposit_from_receive_address_witness:
  "\<exists>vault lp p. ada_build_and_verify_deposit ex_cardano ex_ed [] [] ex_params 0 vault (MemoText ex_ada_text) 500000000 0
      [ex_ada_coin lp] (Flt 0 0) 10000000000 True = Inr p \<and> ab_change_address (pr_built p) = lp
    \<and> (pr_problems p = [] \<longleftrightarrow> ab_fee (pr_built p) \<le> 10000000000)"
proof -
  obtain vault lp where v: "address_bytes vault = Inr (0x61 # replicate 28 0)" "ada_address vault" "ada_address lp"
      "lp \<noteq> vault" "ada_derive_address ex_ed [] [] ADA_DEFAULT_DERIVATION = Inr lp" "ada_coins [ex_ada_coin lp]"
    by (rule ex_ada_run)
  obtain b where "ada_build_unsigned_swap ex_cardano ex_ed [] [] ex_params 0 [ex_ada_coin lp] vault 500000000
      (Some (MemoText ex_ada_text)) lp True = Inr b"
    using ex_ada_builds [OF v(1) _ v(2,5), of "Some (MemoText ex_ada_text)"] by auto
  moreover have "u_address (ex_ada_coin lp) = lp" by (simp add: ex_ada_coin_def)
  ultimately obtain p where p: "ada_build_and_verify_deposit ex_cardano ex_ed [] [] ex_params 0 vault (MemoText ex_ada_text)
      500000000 0 [ex_ada_coin lp] (Flt 0 0) 10000000000 True = Inr p"
    by (auto simp: ada_build_and_verify_deposit_def v(5) key_res_def build_and_verify_deposit_def ada_builder_def Let_def)
  have m: "length (utf8_encode ex_ada_text) \<le> MEMO_MAX_BYTES" by (simp add: ex_ada_text MEMO_MAX_BYTES_def)
  have "(0 :: int) < 2 ^ 63" by simp
  from ada_deposit_from_receive_address [OF ex_cardano_ok ex_cardano_grows(1) ex_ada_params(1) order_refl this ex_ed_ok
      v(6,2) ex_ada_text(1) m v(5,4) p] p
  show ?thesis by blast
qed

lemma ada_signed_reads_back_witness:
  "\<exists>vault lp b raw. ada_build_unsigned_swap ex_cardano ex_ed [] [] ex_params 0 [ex_ada_coin lp] vault 500000000 None lp True = Inr b
    \<and> ada_sign ex_cardano ex_ed b = Inr [py_hex raw]"
proof -
  obtain vault lp where v: "address_bytes vault = Inr (0x61 # replicate 28 0)" "ada_address vault" "ada_address lp"
      "ada_derive_address ex_ed [] [] ADA_DEFAULT_DERIVATION = Inr lp" "ada_coins [ex_ada_coin lp]"
    by (rule ex_ada_run)
  obtain b where b: "ada_build_unsigned_swap ex_cardano ex_ed [] [] ex_params 0 [ex_ada_coin lp] vault 500000000 None lp True = Inr b"
    using ex_ada_builds [OF v(1) _ v(2,4), of None] by auto
  obtain raw0 where "ada_serialize ex_cardano (ab_tx b) [] = Inr raw0" by (rule ada_built_parts [OF b])
  then obtain digest where d: "ada_txid ex_cardano (ab_tx b) = Inr digest"
    by (auto simp: ada_serialize_def ada_txid_def bind_res_eq_Inr)
  have "parse_path ADA_DEFAULT_DERIVATION = Inr [HARDENED + 1852, HARDENED + 1815, HARDENED, 0, 0]"
    by (simp add: ADA_DEFAULT_DERIVATION_def ADA_ACCOUNT_def parse_path_def
        parse_index_def lit_def py_int_def Let_def HARDENED_def py_strip_def py_space_def is_digit_def)
  moreover have "input_path (ex_ada_coin lp) = ADA_DEFAULT_DERIVATION"
    by (simp add: input_path_def ex_ada_coin_def or_empty_def)
  ultimately have path: "list_all path_ok [ex_ada_coin lp]"
    by (auto simp: path_ok_def HARDENED_def MAX_DEPTH_def)
  have "ada_memo None" "(0 :: int) < 2 ^ 63" by (simp_all add: ada_memo_def)
  moreover have "\<forall>k \<in> set (ab_keys b). nonce ex_ed k digest \<noteq> 0" by (simp add: ex_nonce)
  ultimately show ?thesis
    using ada_signed_reads_back [OF ex_cardano_ok ex_cardano_grows(1) ex_ada_params(1) order_refl _ v(5,2,3) _ ex_ed_ok
        ex_ed_group b path d] b by blast
qed

end
