(* ===== verification/Tron.thy ===== *)
theory Tron
  imports Explorer Addresses Gated
begin

text \<open>
  The TRON adapter, \<open>src/swapsack/chains/tron.py\<close>: addresses, the java-tron and TronGrid reads, and
  native and TRC-20 transfers, built by tronpy, gated and sent. tronpy, eth_account and SHA-256 are the
  fields of \<open>tron_libs\<close>; of a transaction that tronpy built the code reads the first contract and the
  data, the record \<open>tron_raw\<close>. The POSTs of the HTTP client are a parameter.
\<close>

section \<open>Constants\<close>

definition DEFAULT_TRON_DERIVATION :: pystr where
  "DEFAULT_TRON_DERIVATION = lit ''m/44'' @ [39] @ lit ''/195'' @ [39] @ lit ''/0'' @ [39] @ lit ''/0/0''"

definition TRONGRID_PAGE_SIZE :: int where
  "TRONGRID_PAGE_SIZE = 200"

definition TRON_MAINNET_PREFIX :: byte where
  "TRON_MAINNET_PREFIX = 0x41"

definition TRX_DECIMALS :: int where
  "TRX_DECIMALS = 6"

definition THORCHAIN_UNITS_PER_SUN :: int where
  "THORCHAIN_UNITS_PER_SUN = 100"

definition B58_ALPHABET :: pystr where
  "B58_ALPHABET = lit ''123456789ABCDEFGHJKLMNPQRSTUVWXYZabcdefghijkmnopqrstuvwxyz''"

definition TRACKED_TRON_TOKENS :: "(pystr \<times> pystr \<times> nat) list" where
  "TRACKED_TRON_TOKENS = [(lit ''USDT'', lit ''TR7NHqjeKQxGTCi8q8ZY4pL8otSzgjLj6t'', 6)]"

definition TRON_TOKENS :: "(pystr \<times> pystr \<times> nat) list" where
  "TRON_TOKENS =
     map (\<lambda>(symbol, contract, decimals). (lit ''TRON.'' @ symbol @ lit ''-'' @ py_upper contract, contract, decimals))
       TRACKED_TRON_TOKENS"

definition TRC20_TRANSFER_SELECTOR :: pystr where
  "TRC20_TRANSFER_SELECTOR = lit ''a9059cbb''"

definition DEFAULT_TRC20_FEE_LIMIT_SUN :: int where
  "DEFAULT_TRC20_FEE_LIMIT_SUN = 15000000"

section \<open>The libraries\<close>

text \<open>
  What is read of a transaction of tronpy: per contract its type and, of its value, the fields that
  are there, and the hex of the data field.
\<close>

record tron_contract =
  tc_type :: pystr
  tc_to_address :: "pystr option"
  tc_amount :: "int option"
  tc_contract_address :: "pystr option"
  tc_data :: "pystr option"

record tron_raw =
  tr_contracts :: "tron_contract list"
  tr_data :: "pystr option"

text \<open>
  \<open>tl_account\<close> derives the key and the EVM address of a path, \<open>tl_to_base58\<close> and \<open>tl_to_hex\<close> are
  tronpy's address conversions, \<open>tl_transfer\<close> and \<open>tl_trigger\<close> its builders up to \<open>build()\<close>, which
  asks the node for the reference block: of the owner, the receiver, the amount and the memo, and of
  the token, the receiver, the amount, the owner, the fee limit and the memo. \<open>tl_send\<close> refuses with
  the text of one of tronpy's own exceptions, or raises another.
\<close>

record ('w, 'p, 'k, 't) tron_libs =
  tl_sha256 :: "bytes \<Rightarrow> bytes"
  tl_account :: "pystr \<Rightarrow> 'k \<times> pystr"
  tl_owner :: "'k \<Rightarrow> pystr"
  tl_to_base58 :: "pystr \<Rightarrow> 'p exn + pystr"
  tl_to_hex :: "pystr \<Rightarrow> 'p exn + pystr"
  tl_transfer :: "pystr \<Rightarrow> pystr \<Rightarrow> int \<Rightarrow> pystr option \<Rightarrow> ('w, 'p, 't) io"
  tl_trigger :: "pystr \<Rightarrow> pystr \<Rightarrow> int \<Rightarrow> pystr \<Rightarrow> int \<Rightarrow> pystr option \<Rightarrow> ('w, 'p, 't) io"
  tl_raw :: "'t \<Rightarrow> tron_raw"
  tl_abi_decode :: "bytes \<Rightarrow> 'p exn + (pystr \<times> int)"
  tl_sign :: "'t \<Rightarrow> 'k \<Rightarrow> 't"
  tl_send :: "'t \<Rightarrow> 'w \<Rightarrow> ((pystr + 'p exn) + unit) \<times> 'w"
  tl_txid :: "'t \<Rightarrow> pystr"

section \<open>Addresses\<close>

fun b58_digits :: "nat \<Rightarrow> pystr" where
  "b58_digits n = (if n = 0 then [] else b58_digits (n div 58) @ [B58_ALPHABET ! (n mod 58)])"

declare b58_digits.simps [simp del]

definition base58check_encode :: "(bytes \<Rightarrow> bytes) \<Rightarrow> bytes \<Rightarrow> pystr" where
  "base58check_encode sha256 payload =
     (let data = payload @ take 4 (sha256 (sha256 payload)) in
      replicate (length data - length (dropWhile (\<lambda>b. b = 0) data)) 49 @ b58_digits (nat (be_int data)))"

definition tron_derive_address :: "('w, 'p, 'k, 't) tron_libs \<Rightarrow> pystr \<Rightarrow> 'p exn + pystr" where
  "tron_derive_address lib path =
     (case py_fromhex (drop 2 (snd (tl_account lib path))) of
        None \<Rightarrow> Inl (PyExn ValueError)
      | Some addr20 \<Rightarrow> Inr (base58check_encode (tl_sha256 lib) ([TRON_MAINNET_PREFIX] @ addr20)))"

section \<open>Amounts\<close>

definition to_sun :: "int \<Rightarrow> 'p exn + int" where
  "to_sun amount_thorchain =
     (if amount_thorchain mod THORCHAIN_UNITS_PER_SUN \<noteq> 0 then Inl (PyExn ValueError)
      else Inr (amount_thorchain div THORCHAIN_UNITS_PER_SUN))"

definition token_contract_and_decimals :: "pystr \<Rightarrow> 'p exn + (pystr \<times> nat)" where
  "token_contract_and_decimals from_asset =
     (case map_of TRON_TOKENS from_asset of None \<Rightarrow> Inl (PyExn ValueError) | Some x \<Rightarrow> Inr x)"

definition to_token_native :: "int \<Rightarrow> nat \<Rightarrow> 'p exn + int" where
  "to_token_native amount_thorchain decimals =
     (if 8 < decimals then Inl (PyExn ValueError)
      else let factor = 10 ^ (8 - decimals) in
        if amount_thorchain mod factor \<noteq> 0 then Inl (PyExn ValueError)
        else Inr (amount_thorchain div factor))"

definition decode_trc20_transfer :: "('w, 'p, 'k, 't) tron_libs \<Rightarrow> pystr \<Rightarrow> 'p exn + (pystr \<times> int)" where
  "decode_trc20_transfer lib call_data =
     (case py_fromhex (py_removeprefix (lit ''0x'') call_data) of
        None \<Rightarrow> Inl (PyExn ValueError)
      | Some raw \<Rightarrow>
          if py_hex (take 4 raw) \<noteq> TRC20_TRANSFER_SELECTOR then Inl (PyExn ValueError)
          else tl_abi_decode lib (drop 4 raw))"

section \<open>Reading the chain\<close>

text \<open>One TronGrid item; \<open>to_base58\<close> is tronpy's conversion of whatever the item holds.\<close>

definition first_item :: "json \<Rightarrow> string \<Rightarrow> py_error + json" where
  "first_item x k = jfield x k (\<lambda>xs. jhead (json_or xs (JList [JObj []])))"

definition paid_entry :: "(json \<Rightarrow> py_error + pystr) \<Rightarrow> int \<Rightarrow> json \<Rightarrow> py_error + tx_entry list" where
  "paid_entry to_base58 n who =
     (if json_truthy who then bind_res (to_base58 who) (\<lambda>a. Inr [value_entry n (Some a)]) else Inr [])"

definition memo_entry :: "json \<Rightarrow> py_error + tx_entry list" where
  "memo_entry data =
     (if json_truthy data then bind_res (json_fromhex data) (\<lambda>b. Inr [data_entry 0 None (Some b)]) else Inr [])"

definition block_seconds :: "json \<Rightarrow> py_error + int option" where
  "block_seconds stamp =
     (if json_truthy stamp then bind_res (jnum stamp) (\<lambda>n. Inr (Some (n div 1000))) else Inr None)"

definition parse_trongrid_tx :: "(json \<Rightarrow> py_error + pystr) \<Rightarrow> json \<Rightarrow> py_error + tx_summary" where
  "parse_trongrid_tx to_base58 item =
     bind_res (jget_or item (lit ''raw_data'') (JObj [])) (\<lambda>raw.
     bind_res (first_item raw ''contract'') (\<lambda>contract.
     bind_res (jget_or contract (lit ''type'') (JStr [])) (\<lambda>kind.
     bind_res (jget_or contract (lit ''parameter'') (JObj [])) (\<lambda>parameter.
     bind_res (jget_or parameter (lit ''value'') (JObj [])) (\<lambda>val.
     bind_res (first_item item ''ret'') (\<lambda>outcome.
     bind_res (jint_or outcome (lit ''fee'') (JInt 0)) (\<lambda>fee.
     bind_res (jget_or outcome (lit ''contractRet'') (JStr (lit ''SUCCESS''))) (\<lambda>status.
     bind_res (if status = JStr (lit ''SUCCESS'') \<and> kind = JStr (lit ''TransferContract'')
               then jint_or val (lit ''amount'') (JInt 0) else Inr 0) (\<lambda>amount.
     bind_res (jget val (lit ''to_address'')) (\<lambda>to.
     bind_res (if json_truthy to then Inr to else jget val (lit ''contract_address'')) (\<lambda>target.
     bind_res (paid_entry to_base58 amount target) (\<lambda>paid.
     bind_res (jfield raw ''data'' memo_entry) (\<lambda>memo.
     bind_res (jfield val ''owner_address'' (paid_entry to_base58 (amount + fee))) (\<lambda>inputs.
     bind_res (jfield item ''blockNumber'' jnum_opt) (\<lambda>height.
     bind_res (jget item (lit ''block_timestamp'')) (\<lambda>stamp.
     bind_res (bind_res (jindex item (lit ''txID'')) jtext) (\<lambda>txid.
     bind_res (block_seconds stamp) (\<lambda>block_time.
       Inr \<lparr>ts_txid = txid, ts_confirmed = height \<noteq> None, ts_block_height = height, ts_fee = fee, ts_vsize = 0,
            ts_inputs = inputs, ts_outputs = paid @ memo, ts_block_time = block_time\<rparr>))))))))))))))))))"

type_synonym ('w, 'p) tron_post = "pystr \<Rightarrow> (pystr \<times> json) list \<Rightarrow> ('w, 'p, response) io"

definition tron_answer :: "('w, 'p) tron_post \<Rightarrow> pystr \<Rightarrow> (pystr \<times> json) list \<Rightarrow> ('w, 'p, json) io" where
  "tron_answer post url body =
     and_then (post url body) (\<lambda>resp. and_then (raise_for_status resp) (\<lambda>_. resp_json resp))"

definition tron_fetch_balance :: "('w, 'p) tron_post \<Rightarrow> pystr \<Rightarrow> pystr \<Rightarrow> ('w, 'p, int) io" where
  "tron_fetch_balance post api_url address =
     and_then (tron_answer post (api_url @ lit ''/wallet/getaccount'')
       [(lit ''address'', JStr address), (lit ''visible'', JBool True)]) (\<lambda>body.
     of_py (jint_or body (lit ''balance'') (JInt 0)))"

definition tron_wallet_balance ::
  "('w, 'p, 'k, 't) tron_libs \<Rightarrow> ('w, 'p) tron_post \<Rightarrow> pystr \<Rightarrow> ('w, 'p, balance_report) io" where
  "tron_wallet_balance lib post api_url =
     and_then (of_res (tron_derive_address lib DEFAULT_TRON_DERIVATION)) (\<lambda>address.
     and_then (tron_fetch_balance post api_url address) (\<lambda>confirmed.
       ret \<lparr>br_symbol = lit ''TRX'', br_confirmed = confirmed, br_decimals = TRX_DECIMALS, br_pending = 0,
            br_note = lit ''('' @ address @ lit '')'', br_addresses = [address]\<rparr>))"

definition trc20_balance ::
  "('w, 'p, 'k, 't) tron_libs \<Rightarrow> ('w, 'p) tron_post \<Rightarrow> pystr \<Rightarrow> pystr \<Rightarrow> pystr \<Rightarrow> ('w, 'p, int) io" where
  "trc20_balance lib post api_url contract address =
     and_then (of_res (tl_to_hex lib address)) (\<lambda>h.
       let owner = drop 2 h; owner_param = replicate (64 - length owner) 48 @ owner in
       and_then (tron_answer post (api_url @ lit ''/wallet/triggerconstantcontract'')
         [(lit ''owner_address'', JStr address), (lit ''contract_address'', JStr contract),
          (lit ''function_selector'', JStr (lit ''balanceOf(address)'')), (lit ''parameter'', JStr owner_param),
          (lit ''visible'', JBool True)]) (\<lambda>body.
       of_py (jfield body ''constant_result'' (\<lambda>rs.
         if json_truthy rs then bind_res (jhead rs) json_int16 else Inr 0))))"

definition get_transaction_info :: "('w, 'p) tron_post \<Rightarrow> pystr \<Rightarrow> pystr \<Rightarrow> ('w, 'p, json) io" where
  "get_transaction_info post api_url txid =
     tron_answer post (api_url @ lit ''/wallet/gettransactioninfobyid'') [(lit ''value'', JStr txid)]"

fun trc20_balance_loop ::
  "('w, 'p, 'k, 't) tron_libs \<Rightarrow> ('w, 'p) tron_post \<Rightarrow> pystr \<Rightarrow> pystr \<Rightarrow> (pystr \<times> pystr \<times> nat) list
   \<Rightarrow> ('w, 'p, balance_report list) io" where
  "trc20_balance_loop lib post api_url address [] = ret []"
| "trc20_balance_loop lib post api_url address ((symbol, contract, decimals) # tokens) =
     and_then (trc20_balance lib post api_url contract address) (\<lambda>confirmed.
     and_then (trc20_balance_loop lib post api_url address tokens) (\<lambda>rest.
       ret (\<lparr>br_symbol = symbol @ lit ''-TRON'', br_confirmed = confirmed, br_decimals = int decimals,
             br_pending = 0, br_note = [], br_addresses = [address]\<rparr> # rest)))"

definition tron_token_balances ::
  "('w, 'p, 'k, 't) tron_libs \<Rightarrow> ('w, 'p) tron_post \<Rightarrow> pystr \<Rightarrow> ('w, 'p, balance_report list) io" where
  "tron_token_balances lib post api_url =
     and_then (of_res (tron_derive_address lib DEFAULT_TRON_DERIVATION)) (\<lambda>address.
       trc20_balance_loop lib post api_url address TRACKED_TRON_TOKENS)"

text \<open>
  The history: a throttled request cuts the walk, a cursor that is empty is not sent, and an item
  without a transaction id is an internal transaction.
\<close>

definition trongrid_page ::
  "(json \<Rightarrow> py_error + pystr) \<Rightarrow> json \<Rightarrow> py_error + (tx_summary list \<times> json option)" where
  "trongrid_page to_base58 body =
     bind_res (jget_or body (lit ''data'') (JList [])) (\<lambda>data.
     bind_res (json_iter data) (\<lambda>items.
     bind_res (map_res (\<lambda>item. bind_res (jhas (lit ''txID'') item) (\<lambda>named.
         if named then bind_res (parse_trongrid_tx to_base58 item) (\<lambda>tx. Inr [tx]) else Inr [])) items) (\<lambda>txs.
     bind_res (jget_or body (lit ''meta'') (JObj [])) (\<lambda>meta.
     bind_res (jget meta (lit ''fingerprint'')) (\<lambda>cursor.
       Inr (concat txs, if cursor = JNull then None else Some cursor))))))"

definition trongrid_query :: "json option \<Rightarrow> params" where
  "trongrid_query cursor =
     [(lit ''limit'', JInt TRONGRID_PAGE_SIZE), (lit ''search_internal'', JStr (lit ''false''))]
     @ (case cursor of None \<Rightarrow> [] | Some c \<Rightarrow> if json_truthy c then [(lit ''fingerprint'', c)] else [])"

definition tron_address_txs ::
  "(json \<Rightarrow> py_error + pystr) \<Rightarrow> 'w getter \<Rightarrow> pystr \<Rightarrow> pystr \<Rightarrow> nat \<Rightarrow> 'w \<Rightarrow> (read_failure + address_txs) \<times> 'w"
where
  "tron_address_txs to_base58 fetch history_url address limit =
     (let url = history_url @ lit ''/v1/accounts/'' @ address @ lit ''/transactions'' in
      collect_pages (\<lambda>cursor. fetched_page (fetch url (trongrid_query cursor)) (trongrid_page to_base58)) limit)"


section \<open>What is built\<close>

record ('k, 't) built_tron_tx =
  bt_tx :: 't
  bt_priv :: 'k
  bt_contract_type :: pystr
  bt_to_address :: pystr
  bt_amount_sun :: int
  bt_memo :: pystr
  bt_call_data :: pystr

text \<open>A field of a dict of tronpy, its first contract, and the memo in the data field.\<close>

definition key_of :: "'a option \<Rightarrow> 'p exn + 'a" where
  "key_of x = (case x of None \<Rightarrow> Inl (PyExn KeyError) | Some v \<Rightarrow> Inr v)"

definition first_contract :: "tron_raw \<Rightarrow> 'p exn + tron_contract" where
  "first_contract raw = (case tr_contracts raw of [] \<Rightarrow> Inl (PyExn IndexError) | c # cs \<Rightarrow> Inr c)"

definition tron_memo :: "pystr option \<Rightarrow> 'p exn + pystr" where
  "tron_memo data =
     (if data = None \<or> data = Some [] then Inr []
      else case Option.bind (py_fromhex (the data)) utf8_decode of
        None \<Rightarrow> Inl (PyExn ValueError)
      | Some m \<Rightarrow> Inr m)"

definition memo_option :: "pystr \<Rightarrow> pystr option" where
  "memo_option m = (if m = [] then None else Some m)"

definition native_fields :: "('w, 'p, 'k, 't) tron_libs \<Rightarrow> 'k \<Rightarrow> 't \<Rightarrow> 'p exn + ('k, 't) built_tron_tx" where
  "native_fields lib priv tx =
     bind_res (first_contract (tl_raw lib tx)) (\<lambda>contract.
     bind_res (key_of (tc_to_address contract)) (\<lambda>to_hex.
     bind_res (tl_to_base58 lib to_hex) (\<lambda>to.
     bind_res (key_of (tc_amount contract)) (\<lambda>amount.
     bind_res (tron_memo (tr_data (tl_raw lib tx))) (\<lambda>m.
       Inr \<lparr>bt_tx = tx, bt_priv = priv, bt_contract_type = tc_type contract, bt_to_address = to,
            bt_amount_sun = amount, bt_memo = m, bt_call_data = []\<rparr>)))))"

definition trc20_fields :: "('w, 'p, 'k, 't) tron_libs \<Rightarrow> 'k \<Rightarrow> 't \<Rightarrow> 'p exn + ('k, 't) built_tron_tx" where
  "trc20_fields lib priv tx =
     bind_res (first_contract (tl_raw lib tx)) (\<lambda>contract.
     bind_res (key_of (tc_contract_address contract)) (\<lambda>token_hex.
     bind_res (tl_to_base58 lib token_hex) (\<lambda>to.
     bind_res (tron_memo (tr_data (tl_raw lib tx))) (\<lambda>m.
     bind_res (key_of (tc_data contract)) (\<lambda>data.
       Inr \<lparr>bt_tx = tx, bt_priv = priv, bt_contract_type = tc_type contract, bt_to_address = to,
            bt_amount_sun = 0, bt_memo = m, bt_call_data = data\<rparr>)))))"

definition build_unsigned_transfer ::
  "('w, 'p, 'k, 't) tron_libs \<Rightarrow> pystr \<Rightarrow> pystr \<Rightarrow> int \<Rightarrow> pystr \<Rightarrow> ('w, 'p, ('k, 't) built_tron_tx) io" where
  "build_unsigned_transfer lib path to amount_sun m =
     (let priv = fst (tl_account lib path) in
      and_then (tl_transfer lib (tl_owner lib priv) to amount_sun (memo_option m)) (\<lambda>tx.
        of_res (native_fields lib priv tx)))"

definition build_unsigned_trc20_transfer ::
  "('w, 'p, 'k, 't) tron_libs \<Rightarrow> pystr \<Rightarrow> pystr \<Rightarrow> pystr \<Rightarrow> int \<Rightarrow> pystr \<Rightarrow> int
   \<Rightarrow> ('w, 'p, ('k, 't) built_tron_tx) io" where
  "build_unsigned_trc20_transfer lib path token to amount m fee_limit_sun =
     (let priv = fst (tl_account lib path) in
      and_then (tl_trigger lib token to amount (tl_owner lib priv) fee_limit_sun (memo_option m)) (\<lambda>tx.
        of_res (trc20_fields lib priv tx)))"

section \<open>Building and gating\<close>

datatype tron_plan =
  TronSwapIntent tron_swap_plan
| TronTokenSwapIntent tron_token_swap_plan
| TronSendIntent tron_send_plan
| TronTokenSendIntent tron_token_send_plan

type_synonym ('k, 't) tron_prepared = "(('k, 't) built_tron_tx, tron_plan, problem) prepared"

definition tron_deposit ::
  "('w, 'p, 'k, 't) tron_libs \<Rightarrow> pystr \<Rightarrow> int \<Rightarrow> pystr \<Rightarrow> int \<Rightarrow> pystr \<Rightarrow> int \<Rightarrow> quote option
   \<Rightarrow> ('w, 'p, ('k, 't) tron_prepared) io" where
  "tron_deposit lib to amount_sun m expiry destination now q =
     and_then (build_unsigned_transfer lib DEFAULT_TRON_DERIVATION to amount_sun m) (\<lambda>b.
       let plan = \<lparr>tsp_inbound = to, tsp_amount_sun = amount_sun, tsp_memo = m, tsp_expiry = expiry,
                   tsp_destination = destination\<rparr> in
       ret \<lparr>pr_quote = q, pr_built = b, pr_plan = TronSwapIntent plan,
            pr_problems = verify_tron_swap (bt_contract_type b) (bt_to_address b) (bt_amount_sun b) (bt_memo b)
              plan now\<rparr>)"

text \<open>\<open>quote.inbound_address\<close> as an argument of tronpy, and \<open>quote.memo or ""\<close>: what is no text is refused there.\<close>

definition quote_receiver :: "json \<Rightarrow> ('w, 'p, pystr) io" where
  "quote_receiver j = of_py (jtext j)"

definition quote_memo :: "json \<Rightarrow> ('w, 'p, pystr) io" where
  "quote_memo j = of_py (jtext (json_or j (JStr [])))"

definition tron_token_deposit ::
  "('w, 'p, 'k, 't) tron_libs \<Rightarrow> quote \<Rightarrow> swap_request \<Rightarrow> int \<Rightarrow> ('w, 'p, ('k, 't) tron_prepared) io" where
  "tron_token_deposit lib q request now =
     and_then (of_res (token_contract_and_decimals (sr_from_asset request))) (\<lambda>(token, decimals).
     and_then (of_res (to_token_native (sr_amount request) decimals)) (\<lambda>native.
     and_then (quote_receiver (q_inbound_address q)) (\<lambda>vault.
     and_then (quote_memo (q_memo q)) (\<lambda>m.
     and_then (build_unsigned_trc20_transfer lib DEFAULT_TRON_DERIVATION token vault native m
       DEFAULT_TRC20_FEE_LIMIT_SUN) (\<lambda>b.
     and_then (of_res (decode_trc20_transfer lib (bt_call_data b))) (\<lambda>(recipient, transfer_amount).
       let plan = \<lparr>ttp_inbound = vault, ttp_token = token, ttp_amount = native, ttp_memo = m,
                   ttp_expiry = q_expiry q, ttp_destination = sr_destination request\<rparr> in
       ret \<lparr>pr_quote = Some q, pr_built = b, pr_plan = TronTokenSwapIntent plan,
            pr_problems = verify_tron_token_swap (bt_contract_type b) (bt_to_address b) recipient transfer_amount
              (bt_amount_sun b) (bt_memo b) plan now\<rparr>))))))"

definition tron_build_and_verify ::
  "('w, 'p, 'k, 't) tron_libs \<Rightarrow> quote \<Rightarrow> swap_request \<Rightarrow> int \<Rightarrow> ('w, 'p, ('k, 't) tron_prepared) io" where
  "tron_build_and_verify lib q request now =
     (if 45 \<in> set (sr_from_asset request) then tron_token_deposit lib q request now
      else
        and_then (of_res (to_sun (sr_amount request))) (\<lambda>amount_sun.
        and_then (quote_receiver (q_inbound_address q)) (\<lambda>to.
        and_then (quote_memo (q_memo q)) (\<lambda>m.
          tron_deposit lib to amount_sun m (q_expiry q) (sr_destination request) now (Some q)))))"

definition tron_build_and_verify_send ::
  "('w, 'p, 'k, 't) tron_libs \<Rightarrow> pystr \<Rightarrow> int \<Rightarrow> pystr \<Rightarrow> ('w, 'p, ('k, 't) tron_prepared) io" where
  "tron_build_and_verify_send lib recipient amount asset =
     (if 45 \<in> set asset then
        and_then (of_res (token_contract_and_decimals asset)) (\<lambda>(token, decimals).
        and_then (of_res (to_token_native amount decimals)) (\<lambda>native.
        and_then (build_unsigned_trc20_transfer lib DEFAULT_TRON_DERIVATION token recipient native []
          DEFAULT_TRC20_FEE_LIMIT_SUN) (\<lambda>b.
        and_then (of_res (decode_trc20_transfer lib (bt_call_data b))) (\<lambda>(d_recipient, transfer_amount).
          let plan = \<lparr>tts_token = token, tts_recipient = recipient, tts_amount = native\<rparr> in
          ret \<lparr>pr_quote = None, pr_built = b, pr_plan = TronTokenSendIntent plan,
               pr_problems = verify_tron_token_send (bt_contract_type b) (bt_to_address b) d_recipient
                 transfer_amount (bt_amount_sun b) (bt_memo b) plan\<rparr>))))
      else
        and_then (of_res (to_sun amount)) (\<lambda>amount_sun.
        and_then (build_unsigned_transfer lib DEFAULT_TRON_DERIVATION recipient amount_sun []) (\<lambda>b.
          let plan = \<lparr>tsn_recipient = recipient, tsn_amount_sun = amount_sun\<rparr> in
          ret \<lparr>pr_quote = None, pr_built = b, pr_plan = TronSendIntent plan,
               pr_problems = verify_tron_send (bt_contract_type b) (bt_to_address b) (bt_amount_sun b) (bt_memo b)
                 plan\<rparr>)))"

definition tron_build_and_verify_deposit ::
  "('w, 'p, 'k, 't) tron_libs \<Rightarrow> pystr \<Rightarrow> pystr \<Rightarrow> int \<Rightarrow> int \<Rightarrow> ('w, 'p, ('k, 't) tron_prepared) io" where
  "tron_build_and_verify_deposit lib vault m amount now =
     and_then (of_res (to_sun amount)) (\<lambda>amount_sun.
       tron_deposit lib vault amount_sun m (now + 3600) [] now None)"

section \<open>Signing and broadcast\<close>

definition tron_sign :: "('w, 'p, 'k, 't) tron_libs \<Rightarrow> ('k, 't) built_tron_tx \<Rightarrow> 't list" where
  "tron_sign lib b = [tl_sign lib (bt_tx b) (bt_priv b)]"

text \<open>The message of the broadcast error is tronpy's, with or without the hint about the fee.\<close>

datatype 'p tron_failure = TronRefused pystr bool | TronRaised "'p exn"

fun tron_broadcast_loop ::
  "('w, 'p, 'k, 't) tron_libs \<Rightarrow> pystr \<Rightarrow> 't list \<Rightarrow> 'w \<Rightarrow> ('p tron_failure + pystr) \<times> 'w" where
  "tron_broadcast_loop lib txid [] w = (Inr txid, w)"
| "tron_broadcast_loop lib txid (tx # raws) w =
     (case tl_send lib tx w of
        (Inl (Inl msg), w') \<Rightarrow> (Inl (TronRefused msg (py_in (lit ''not sufficient'') (py_lower msg))), w')
      | (Inl (Inr exc), w') \<Rightarrow> (Inl (TronRaised exc), w')
      | (Inr _, w') \<Rightarrow> tron_broadcast_loop lib (tl_txid lib tx) raws w')"

definition tron_broadcast ::
  "('w, 'p, 'k, 't) tron_libs \<Rightarrow> 't list \<Rightarrow> 'w \<Rightarrow> ('p tron_failure + pystr) \<times> 'w" where
  "tron_broadcast lib raws w = tron_broadcast_loop lib [] raws w"

section \<open>The wallet's own address\<close>

lemma alphabet_nth: "k < 58 \<Longrightarrow> b58_char (B58_ALPHABET ! k)"
proof -
  have "length B58_ALPHABET = 58" by code_simp
  then show "k < 58 \<Longrightarrow> b58_char (B58_ALPHABET ! k)"
    using nth_mem [of k B58_ALPHABET] by (simp add: b58_char_def B58_ALPHABET_def)
qed

lemma b58_digits_shape:
  assumes "0 < d" "d < 58" "d * 58 ^ k \<le> n" "n < (d + 1) * 58 ^ k"
  shows "\<exists>body. b58_digits n = B58_ALPHABET ! d # body \<and> length body = k \<and> list_all b58_char body"
  using assms(3,4)
proof (induction k arbitrary: n)
  case 0
  then have "n = d" by simp
  with assms(1,2) show ?case by (simp add: b58_digits.simps [of d] b58_digits.simps [of 0])
next
  case (Suc k)
  have "d * 58 ^ k \<le> n div 58" using Suc.prems(1) by (simp add: less_eq_div_iff_mult_less_eq ac_simps)
  moreover have "n div 58 < (d + 1) * 58 ^ k" using Suc.prems(2) by (simp add: div_less_iff_less_mult ac_simps)
  ultimately obtain body where b: "b58_digits (n div 58) = B58_ALPHABET ! d # body" "length body = k"
    "list_all b58_char body" using Suc.IH by blast
  have "0 < d * 58 ^ Suc k" using assms(1) by simp
  with Suc.prems(1) have "n \<noteq> 0" by linarith
  with b show ?case by (simp add: b58_digits.simps [of n] alphabet_nth)
qed

lemma be_int_Cons: "be_int (b # bs) = uint b * 256 ^ length bs + be_int bs"
proof -
  have "le_int (xs @ [b]) = le_int xs + 256 ^ length xs * uint b" for xs
    by (induction xs) (simp_all add: algebra_simps)
  then show ?thesis by (simp add: be_int_def algebra_simps)
qed

lemma tron_address_shape:
  assumes "length addr20 = 20" "\<And>b. length (sha256 b) = 32"
  shows "\<exists>body. base58check_encode sha256 ([TRON_MAINNET_PREFIX] @ addr20) = 84 # body
    \<and> length body = 33 \<and> list_all b58_char body"
proof -
  define rest where "rest = addr20 @ take 4 (sha256 (sha256 ([TRON_MAINNET_PREFIX] @ addr20)))"
  have len: "length rest = 24" by (simp add: rest_def assms)
  have n: "be_int (TRON_MAINNET_PREFIX # rest) = 65 * 256 ^ 24 + be_int rest"
    by (simp add: be_int_Cons len TRON_MAINNET_PREFIX_def)
  have "nat (65 * 256 ^ 24 + be_int rest) = 65 * 256 ^ 24 + nat (be_int rest)"
    by (simp add: nat_add_distrib)
  moreover have "nat (be_int rest) < 256 ^ 24" using be_int_bound [of rest] by (simp add: len nat_less_iff)
  ultimately have "26 * 58 ^ 33 \<le> nat (be_int (TRON_MAINNET_PREFIX # rest))"
    "nat (be_int (TRON_MAINNET_PREFIX # rest)) < (26 + 1) * 58 ^ 33"
    unfolding n by simp_all
  from b58_digits_shape [OF _ _ this] have "\<exists>body. b58_digits (nat (be_int (TRON_MAINNET_PREFIX # rest))) =
      B58_ALPHABET ! 26 # body \<and> length body = 33 \<and> list_all b58_char body" by simp
  moreover have "B58_ALPHABET ! 26 = 84" by code_simp
  moreover have "base58check_encode sha256 ([TRON_MAINNET_PREFIX] @ addr20)
      = b58_digits (nat (be_int (TRON_MAINNET_PREFIX # rest)))"
    by (simp add: base58check_encode_def rest_def TRON_MAINNET_PREFIX_def)
  ultimately show ?thesis by simp
qed

text \<open>
  Every TRON address the wallet derives is one that its own destination check accepts: with a
  20-byte account and 32-byte digests the address is a \<open>T\<close> with 33 characters of the alphabet, whatever
  the account and the digests are, so it has the shape of the rule, is not taken for a payment URI,
  and passes when the base58 library accepts its checksum.
\<close>

theorem own_tron_address_accepted:
  assumes "py_fromhex (drop 2 (snd (tl_account lib path))) = Some addr20" "length addr20 = 20"
    and "\<And>b. length (tl_sha256 lib b) = 32"
    and "b58 BITCOIN_ALPHABET (base58check_encode (tl_sha256 lib) ([TRON_MAINNET_PREFIX] @ addr20)) \<noteq> None"
  shows "\<exists>a. tron_derive_address lib path = Inr a \<and> length a = 34 \<and> hd a = 84
    \<and> validate_destination_address b58 keccak (lit ''TRON'') a = Inr None"
proof -
  obtain body where a: "base58check_encode (tl_sha256 lib) ([TRON_MAINNET_PREFIX] @ addr20) = 84 # body"
    "length body = 33" "list_all b58_char body"
    using tron_address_shape [where ?sha256.0 = "tl_sha256 lib", OF assms(2,3)] by blast
  have "list_all alnum (lit ''123456789ABCDEFGHJKLMNPQRSTUVWXYZabcdefghijkmnopqrstuvwxyz'')" by code_simp
  then have an: "list_all alnum (84 # body)" using a(3) by (auto simp: b58_char_def list_all_iff alnum_def)
  have bare: "uri_chain (84 # body) = None" "parse_payment_uri (84 # body) = (84 # body, [])"
    by (rule bare_address_parse [OF an]; simp add: a(2))+
  have rule: "map_of RULES (lit ''TRON'') = Some [b58_shape [''T''] 33 33]" by (simp add: RULES_def lit_def)
  have shape: "rule_match [b58_shape [''T''] 33 33] (84 # body)"
    using a by (simp add: rule_match_def has_shape_def b58_shape_def lit_def Let_def)
  have "checksum_ok b58 keccak (lit ''TRON'') (84 # body) = Inr True"
    using assms(4) a(1)
    by (simp add: checksum_ok_def SEGWIT_HRP_def PLAIN_BECH32_HRP_def EVM_CHAINS_def BASE58CHECK_ALPHABET_def lit_def)
  then have "validate_destination_address b58 keccak (lit ''TRON'') (84 # body) = Inr None"
    unfolding validate_destination_address_def bare rule using shape by (simp add: checksum_problem_def)
  with a show ?thesis by (simp add: tron_derive_address_def assms(1))
qed

section \<open>What is relied on\<close>

text \<open>An address that tronpy's two conversions keep.\<close>

definition tron_base58 :: "('w, 'p, 'k, 't) tron_libs \<Rightarrow> pystr \<Rightarrow> bool" where
  "tron_base58 lib a \<longleftrightarrow> (\<exists>h. tl_to_hex lib a = Inr h \<and> tl_to_base58 lib h = Inr a)"

text \<open>
  A transfer of tronpy is one \<open>TransferContract\<close> to the hex form of the receiver, a call of a token one
  \<open>TriggerSmartContract\<close> whose calldata is the selector with an encoding that decodes to the receiver
  and the amount; the data field is the memo in UTF-8, and is absent without one.
\<close>

definition holds_memo :: "pystr option \<Rightarrow> pystr option \<Rightarrow> bool" where
  "holds_memo m data \<longleftrightarrow>
     (case m of None \<Rightarrow> data = None | Some s \<Rightarrow> unicode_text s \<and> data = Some (py_hex (utf8_encode s)))"

definition tronpy_ok :: "('w, 'p, 'k, 't) tron_libs \<Rightarrow> bool" where
  "tronpy_ok lib \<longleftrightarrow>
     (\<forall>owner to n m w tx w'. tl_transfer lib owner to n m w = (Inr tx, w') \<longrightarrow>
        (\<exists>h. tl_to_hex lib to = Inr h \<and> holds_memo m (tr_data (tl_raw lib tx))
         \<and> tr_contracts (tl_raw lib tx) =
             [\<lparr>tc_type = lit ''TransferContract'', tc_to_address = Some h, tc_amount = Some n,
               tc_contract_address = None, tc_data = None\<rparr>]))
   \<and> (\<forall>token to n owner limit m w tx w'. tl_trigger lib token to n owner limit m w = (Inr tx, w') \<longrightarrow>
        (\<exists>th h bs. tl_to_hex lib token = Inr th \<and> tl_to_hex lib to = Inr h
         \<and> holds_memo m (tr_data (tl_raw lib tx))
         \<and> tl_abi_decode lib bs = bind_res (tl_to_base58 lib h) (\<lambda>a. Inr (a, n))
         \<and> tr_contracts (tl_raw lib tx) =
             [\<lparr>tc_type = lit ''TriggerSmartContract'', tc_to_address = None, tc_amount = None,
               tc_contract_address = Some th, tc_data = Some (TRC20_TRANSFER_SELECTOR @ py_hex bs)\<rparr>]))"

text \<open>The units a transaction moves: sun, or what the calldata transfers.\<close>

definition tron_moves :: "('w, 'p, 'k, 't) tron_libs \<Rightarrow> ('k, 't) built_tron_tx \<Rightarrow> 'p exn + int" where
  "tron_moves lib b =
     (if bt_call_data b = [] then Inr (bt_amount_sun b)
      else bind_res (decode_trc20_transfer lib (bt_call_data b)) (\<lambda>(to, n). Inr n))"

section \<open>Amounts are exact\<close>

lemma to_sun_Inr: "to_sun n = Inr s \<longleftrightarrow> n = s * 100"
  by (auto simp: to_sun_def THORCHAIN_UNITS_PER_SUN_def)

lemma to_token_native_Inr: "to_token_native n d = Inr s \<longleftrightarrow> d \<le> 8 \<and> n = s * 10 ^ (8 - d)"
  by (auto simp: to_token_native_def Let_def)

lemma tron_tokens:
  "TRON_TOKENS =
     [(lit ''TRON.USDT-TR7NHQJEKQXGTCI8Q8ZY4PL8OTSZGJLJ6T'', lit ''TR7NHqjeKQxGTCi8q8ZY4pL8otSzgjLj6t'', 6)]"
  by code_simp

lemma tracked_token_Inr:
  "token_contract_and_decimals a = Inr (token, d) \<longleftrightarrow>
     a = lit ''TRON.USDT-TR7NHQJEKQXGTCI8Q8ZY4PL8OTSZGJLJ6T''
     \<and> token = lit ''TR7NHqjeKQxGTCi8q8ZY4pL8otSzgjLj6t'' \<and> d = 6"
by (auto simp: token_contract_and_decimals_def tron_tokens)

section \<open>What was built is what was asked for\<close>

lemma py_hex_Nil: "py_hex bs = [] \<longleftrightarrow> bs = []"
  by (cases bs) (simp_all add: py_hex_def)

lemma memo_read:
  assumes "holds_memo (memo_option m) data"
  shows "tron_memo data = Inr m"
proof (cases m)
  case (Cons c cs)
  then have u: "unicode_text m" and d: "data = Some (py_hex (utf8_encode m))"
    using assms by (simp_all add: holds_memo_def memo_option_def)
  have "utf8_encode m \<noteq> []" using Cons by simp
  then show ?thesis using u by (simp add: tron_memo_def d py_fromhex_hex utf8_decode_encode py_hex_Nil)
qed (use assms in \<open>simp add: holds_memo_def memo_option_def tron_memo_def\<close>)

lemma trc20_calldata:
  "decode_trc20_transfer lib (TRC20_TRANSFER_SELECTOR @ py_hex bs) = tl_abi_decode lib bs"
proof -
  have sel: "TRC20_TRANSFER_SELECTOR = py_hex [0xa9, 0x05, 0x9c, 0xbb]" by code_simp
  have hex: "TRC20_TRANSFER_SELECTOR @ py_hex bs = py_hex ([0xa9, 0x05, 0x9c, 0xbb] @ bs)"
    unfolding sel by (simp add: py_hex_def)
  have "\<not> prefix (lit ''0x'') (TRC20_TRANSFER_SELECTOR @ py_hex bs)"
    by (simp add: TRC20_TRANSFER_SELECTOR_def lit_def)
  then have "py_fromhex (py_removeprefix (lit ''0x'') (TRC20_TRANSFER_SELECTOR @ py_hex bs))
      = Some ([0xa9, 0x05, 0x9c, 0xbb] @ bs)"
    unfolding py_removeprefix_def by (simp only: if_False hex py_fromhex_hex)
  moreover have "take 4 ([0xa9, 0x05, 0x9c, 0xbb] @ bs) = [0xa9, 0x05, 0x9c, 0xbb]"
    "drop 4 ([0xa9, 0x05, 0x9c, 0xbb] @ bs) = bs" by simp_all
  ultimately show ?thesis unfolding decode_trc20_transfer_def by (simp only: option.case sel [symmetric] simp_thms if_False)
qed

lemma transfer_built:
  assumes "tronpy_ok lib" "build_unsigned_transfer lib path to n m w = (Inr b, w')"
  shows "bt_contract_type b = lit ''TransferContract'' \<and> bt_amount_sun b = n \<and> bt_memo b = m
    \<and> tron_moves lib b = Inr n \<and> (bt_to_address b = to \<longleftrightarrow> tron_base58 lib to)"
proof -
  let ?priv = "fst (tl_account lib path)"
  obtain tx where tx: "tl_transfer lib (tl_owner lib ?priv) to n (memo_option m) w = (Inr tx, w')"
    and b: "native_fields lib ?priv tx = Inr b"
    using assms(2) by (auto simp: build_unsigned_transfer_def Let_def and_then_Inr of_res_def)
  obtain h where h: "tl_to_hex lib to = Inr h" "holds_memo (memo_option m) (tr_data (tl_raw lib tx))"
    "tr_contracts (tl_raw lib tx) =
       [\<lparr>tc_type = lit ''TransferContract'', tc_to_address = Some h, tc_amount = Some n,
         tc_contract_address = None, tc_data = None\<rparr>]"
    using assms(1) tx unfolding tronpy_ok_def by blast
  have "(tron_memo (tr_data (tl_raw lib tx)) :: 'b exn + pystr) = Inr m" by (rule memo_read [OF h(2)])
  then show ?thesis
    using b h(1,3)
    by (auto simp: tron_moves_def native_fields_def first_contract_def key_of_def bind_res_eq_Inr tron_base58_def)
qed

lemma trc20_built:
  assumes "tronpy_ok lib" "build_unsigned_trc20_transfer lib path token to n m limit w = (Inr b, w')"
    and "decode_trc20_transfer lib (bt_call_data b) = Inr (recipient, amount)"
  shows "bt_contract_type b = lit ''TriggerSmartContract'' \<and> bt_amount_sun b = 0 \<and> bt_memo b = m \<and> amount = n
    \<and> tron_moves lib b = Inr n
    \<and> (bt_to_address b = token \<longleftrightarrow> tron_base58 lib token) \<and> (recipient = to \<longleftrightarrow> tron_base58 lib to)"
proof -
  let ?priv = "fst (tl_account lib path)"
  obtain tx where tx: "tl_trigger lib token to n (tl_owner lib ?priv) limit (memo_option m) w = (Inr tx, w')"
    and b: "trc20_fields lib ?priv tx = Inr b"
    using assms(2) by (auto simp: build_unsigned_trc20_transfer_def Let_def and_then_Inr of_res_def)
  obtain th h bs where h: "tl_to_hex lib token = Inr th" "tl_to_hex lib to = Inr h"
    "holds_memo (memo_option m) (tr_data (tl_raw lib tx))"
    "tl_abi_decode lib bs = bind_res (tl_to_base58 lib h) (\<lambda>a. Inr (a, n))"
    "tr_contracts (tl_raw lib tx) =
       [\<lparr>tc_type = lit ''TriggerSmartContract'', tc_to_address = None, tc_amount = None,
         tc_contract_address = Some th, tc_data = Some (TRC20_TRANSFER_SELECTOR @ py_hex bs)\<rparr>]"
    using assms(1) tx unfolding tronpy_ok_def by blast
  have "(tron_memo (tr_data (tl_raw lib tx)) :: 'b exn + pystr) = Inr m" by (rule memo_read [OF h(3)])
  moreover have "TRC20_TRANSFER_SELECTOR \<noteq> []" by (simp add: TRC20_TRANSFER_SELECTOR_def lit_def)
  ultimately show ?thesis
    using b h(1,2,4,5) assms(3)
    by (auto simp: tron_moves_def trc20_calldata trc20_fields_def first_contract_def key_of_def bind_res_eq_Inr tron_base58_def)
qed


lemmas tron_gates = verify_tron_deposits_safe [THEN conjunct1] verify_tron_deposits_safe [THEN conjunct2]
  verify_sends_safe [THEN conjunct2, THEN conjunct2, THEN conjunct1]
  verify_sends_safe [THEN conjunct2, THEN conjunct2, THEN conjunct2]

abbreviation usdt :: pystr where
  "usdt \<equiv> lit ''TR7NHqjeKQxGTCi8q8ZY4pL8otSzgjLj6t''"

lemma tron_deposit_gate:
  assumes "tronpy_ok lib" "tron_deposit lib to n m expiry destination now q w = (Inr p, w')"
  shows "(safe p \<longleftrightarrow> now < expiry \<and> memo_pays_destination destination (MemoText m) \<and> tron_base58 lib to)
    \<and> tron_moves lib (pr_built p) = Inr n"
proof -
  from assms(2) obtain b where "build_unsigned_transfer lib DEFAULT_TRON_DERIVATION to n m w = (Inr b, w')"
    and p: "pr_built p = b" "pr_problems p = verify_tron_swap (bt_contract_type b) (bt_to_address b) (bt_amount_sun b)
      (bt_memo b) \<lparr>tsp_inbound = to, tsp_amount_sun = n, tsp_memo = m, tsp_expiry = expiry,
        tsp_destination = destination\<rparr> now"
    by (auto simp: tron_deposit_def and_then_Inr io_Inr_iff Let_def)
  from transfer_built [OF assms(1) this(1)] show ?thesis
    unfolding safe_def p tron_gates by auto
qed

lemma tron_token_gate:
  assumes "tronpy_ok lib" "q_inbound_address q = JStr v" "q_memo q = JStr m"
    and "tron_token_deposit lib q r now w = (Inr p, w')"
  shows "(safe p \<longleftrightarrow> now < q_expiry q \<and> memo_pays_destination (sr_destination r) (MemoText m) \<and> tron_base58 lib v
         \<and> tron_base58 lib usdt)
    \<and> (\<exists>n. tron_moves lib (pr_built p) = Inr n \<and> sr_amount r = n * 100)"
proof -
  have memo: "jtext (json_or (JStr m) (JStr [])) = Inr m" by (simp add: json_or_def)
  from assms(4) obtain n w1 b recipient amount where n: "sr_amount r = n * 100"
    and b: "build_unsigned_trc20_transfer lib DEFAULT_TRON_DERIVATION usdt v n m DEFAULT_TRC20_FEE_LIMIT_SUN w1
        = (Inr b, w')"
      "decode_trc20_transfer lib (bt_call_data b) = Inr (recipient, amount)"
    and p: "pr_built p = b" "pr_problems p = verify_tron_token_swap (bt_contract_type b) (bt_to_address b) recipient
      amount (bt_amount_sun b) (bt_memo b) \<lparr>ttp_inbound = v, ttp_token = usdt, ttp_amount = n, ttp_memo = m,
        ttp_expiry = q_expiry q, ttp_destination = sr_destination r\<rparr> now"
    by (auto simp: tron_token_deposit_def quote_receiver_def quote_memo_def assms(2,3) memo tracked_token_Inr
        to_token_native_Inr and_then_Inr io_Inr_iff of_res_def Let_def split: prod.splits)
  from trc20_built [OF assms(1) b] n show ?thesis
    unfolding safe_def p tron_gates by auto
qed

lemma tron_send_gate:
  assumes "tronpy_ok lib" "tron_build_and_verify_send lib v amount asset w = (Inr p, w')"
  shows "(safe p \<longleftrightarrow> tron_base58 lib v \<and> (45 \<in> set asset \<longrightarrow> tron_base58 lib usdt))
    \<and> (\<exists>n. tron_moves lib (pr_built p) = Inr n \<and> amount = n * 100)"
proof (cases "45 \<in> set asset")
  case True
  with assms(2) obtain n w1 b recipient moved where n: "amount = n * 100"
    and b: "build_unsigned_trc20_transfer lib DEFAULT_TRON_DERIVATION usdt v n [] DEFAULT_TRC20_FEE_LIMIT_SUN w1
        = (Inr b, w')"
      "decode_trc20_transfer lib (bt_call_data b) = Inr (recipient, moved)"
    and p: "pr_built p = b" "pr_problems p = verify_tron_token_send (bt_contract_type b) (bt_to_address b) recipient
      moved (bt_amount_sun b) (bt_memo b) \<lparr>tts_token = usdt, tts_recipient = v, tts_amount = n\<rparr>"
    by (auto simp: tron_build_and_verify_send_def tracked_token_Inr to_token_native_Inr and_then_Inr io_Inr_iff
        of_res_def Let_def split: prod.splits)
  from trc20_built [OF assms(1) b] n True show ?thesis
    unfolding safe_def p tron_gates by auto
next
  case False
  with assms(2) obtain n w1 b where n: "amount = n * 100"
    and b: "build_unsigned_transfer lib DEFAULT_TRON_DERIVATION v n [] w1 = (Inr b, w')"
    and p: "pr_built p = b" "pr_problems p = verify_tron_send (bt_contract_type b) (bt_to_address b)
      (bt_amount_sun b) (bt_memo b) \<lparr>tsn_recipient = v, tsn_amount_sun = n\<rparr>"
    by (auto simp: tron_build_and_verify_send_def to_sun_Inr and_then_Inr io_Inr_iff of_res_def Let_def)
  from transfer_built [OF assms(1) b] n False show ?thesis
    unfolding safe_def p tron_gates by auto
qed

text \<open>
  C26: What the TRON adapter built is refused only for reasons that lie outside it. A swap from TRX or
  from a tracked token passes its gate exactly when the quote is unexpired, its memo names the
  destination and tronpy keeps the vault's address (and the token's) as it is written; a liquidity
  deposit and a plain send exactly when tronpy keeps the addresses. And each moves exactly the amount
  asked for: a unit of TRX and of the token is a hundred units of the request, and an amount between
  two units was refused.
\<close>

theorem tron_transactions_pass:
  assumes "tronpy_ok lib"
  shows "(q_inbound_address q = JStr v \<and> q_memo q = JStr m \<and> tron_build_and_verify lib q r now w = (Inr p, w') \<longrightarrow>
      (safe p \<longleftrightarrow> now < q_expiry q \<and> memo_pays_destination (sr_destination r) (MemoText m) \<and> tron_base58 lib v
         \<and> (45 \<in> set (sr_from_asset r) \<longrightarrow> tron_base58 lib usdt))
      \<and> (\<exists>n. tron_moves lib (pr_built p) = Inr n \<and> sr_amount r = n * 100))
   \<and> (tron_build_and_verify_deposit lib v m amount now w = (Inr p, w') \<longrightarrow>
      (safe p \<longleftrightarrow> tron_base58 lib v) \<and> (\<exists>n. tron_moves lib (pr_built p) = Inr n \<and> amount = n * 100))
   \<and> (tron_build_and_verify_send lib v amount asset w = (Inr p, w') \<longrightarrow>
      (safe p \<longleftrightarrow> tron_base58 lib v
         \<and> (45 \<in> set asset \<longrightarrow> tron_base58 lib usdt))
      \<and> (\<exists>n. tron_moves lib (pr_built p) = Inr n \<and> amount = n * 100))"
proof (intro conjI [OF _ conjI] impI; (elim conjE)?)
  assume q: "q_inbound_address q = JStr v" "q_memo q = JStr m"
    and run: "tron_build_and_verify lib q r now w = (Inr p, w')"
  have memo: "jtext (json_or (JStr m) (JStr [])) = Inr m" by (simp add: json_or_def)
  show "(safe p \<longleftrightarrow> now < q_expiry q \<and> memo_pays_destination (sr_destination r) (MemoText m) \<and> tron_base58 lib v
         \<and> (45 \<in> set (sr_from_asset r) \<longrightarrow> tron_base58 lib usdt))
      \<and> (\<exists>n. tron_moves lib (pr_built p) = Inr n \<and> sr_amount r = n * 100)"
    using run tron_token_gate [OF assms q] tron_deposit_gate [OF assms]
    by (fastforce simp: tron_build_and_verify_def quote_receiver_def quote_memo_def q memo and_then_Inr io_Inr_iff
        of_res_def to_sun_Inr split: if_splits)
next
  assume "tron_build_and_verify_deposit lib v m amount now w = (Inr p, w')"
  then show "(safe p \<longleftrightarrow> tron_base58 lib v) \<and> (\<exists>n. tron_moves lib (pr_built p) = Inr n \<and> amount = n * 100)"
    using tron_deposit_gate [OF assms]
    by (fastforce simp: tron_build_and_verify_deposit_def and_then_Inr of_res_def to_sun_Inr memo_pays_destination_def)
next
  assume "tron_build_and_verify_send lib v amount asset w = (Inr p, w')"
  then show "(safe p \<longleftrightarrow> tron_base58 lib v \<and> (45 \<in> set asset \<longrightarrow> tron_base58 lib usdt))
      \<and> (\<exists>n. tron_moves lib (pr_built p) = Inr n \<and> amount = n * 100)"
    by (rule tron_send_gate [OF assms])
qed


text \<open>A node that always answers, with hex addresses that carry their text.\<close>

definition ex_tron_data :: "pystr option \<Rightarrow> problem exn + pystr option" where
  "ex_tron_data m =
     (case m of None \<Rightarrow> Inr None
      | Some s \<Rightarrow> if unicode_text s then Inr (Some (py_hex (utf8_encode s))) else Inl (PyExn ValueError))"

definition ex_transfer :: "pystr \<Rightarrow> pystr \<Rightarrow> int \<Rightarrow> pystr option \<Rightarrow> (unit, problem, tron_raw) io" where
  "ex_transfer owner to n m w =
     (bind_res (ex_tron_data m) (\<lambda>d.
        Inr \<lparr>tr_contracts = [\<lparr>tc_type = lit ''TransferContract'', tc_to_address = Some (lit ''41'' @ to),
               tc_amount = Some n, tc_contract_address = None, tc_data = None\<rparr>], tr_data = d\<rparr>), w)"

definition ex_trigger ::
  "pystr \<Rightarrow> pystr \<Rightarrow> int \<Rightarrow> pystr \<Rightarrow> int \<Rightarrow> pystr option \<Rightarrow> (unit, problem, tron_raw) io" where
  "ex_trigger token to n owner limit m w =
     (if n < 0 \<or> 2 ^ 64 \<le> n \<or> \<not> unicode_text to then Inl EncodingError
      else bind_res (ex_tron_data m) (\<lambda>d.
        Inr \<lparr>tr_contracts = [\<lparr>tc_type = lit ''TriggerSmartContract'', tc_to_address = None, tc_amount = None,
               tc_contract_address = Some (lit ''41'' @ token),
               tc_data = Some (TRC20_TRANSFER_SELECTOR @ py_hex (to_le 8 n @ utf8_encode to))\<rparr>], tr_data = d\<rparr>), w)"

definition ex_tron_decode :: "bytes \<Rightarrow> problem exn + (pystr \<times> int)" where
  "ex_tron_decode bs =
     (case utf8_decode (drop 8 bs) of None \<Rightarrow> Inl EncodingError | Some to \<Rightarrow> Inr (to, le_int (take 8 bs)))"

definition ex_tron :: "(unit, problem, unit, tron_raw) tron_libs" where
  "ex_tron =
     \<lparr>tl_sha256 = id, tl_account = (\<lambda>path. ((), lit ''0x'' @ replicate 40 49)),
      tl_owner = (\<lambda>k. lit ''Towner''), tl_to_base58 = (\<lambda>h. Inr (drop 2 h)), tl_to_hex = (\<lambda>a. Inr (lit ''41'' @ a)),
      tl_transfer = ex_transfer, tl_trigger = ex_trigger, tl_raw = id, tl_abi_decode = ex_tron_decode,
      tl_sign = (\<lambda>t k. t), tl_send = (\<lambda>t w. (Inr (), w)), tl_txid = (\<lambda>t. lit ''id'')\<rparr>"

lemma ex_tron_data_holds: "ex_tron_data m = Inr d \<Longrightarrow> holds_memo m d"
  by (auto simp: ex_tron_data_def holds_memo_def split: option.splits if_splits)

lemma ex_tron_transfer:
  assumes "tl_transfer ex_tron owner to n m w = (Inr tx, w')"
  shows "\<exists>h. tl_to_hex ex_tron to = Inr h \<and> holds_memo m (tr_data (tl_raw ex_tron tx))
    \<and> tr_contracts (tl_raw ex_tron tx) =
        [\<lparr>tc_type = lit ''TransferContract'', tc_to_address = Some h, tc_amount = Some n,
          tc_contract_address = None, tc_data = None\<rparr>]"
proof -
  from assms obtain d where "ex_tron_data m = Inr d"
    and tx: "tx = \<lparr>tr_contracts = [\<lparr>tc_type = lit ''TransferContract'', tc_to_address = Some (lit ''41'' @ to),
        tc_amount = Some n, tc_contract_address = None, tc_data = None\<rparr>], tr_data = d\<rparr>"
    by (auto simp: ex_tron_def ex_transfer_def bind_res_eq_Inr)
  then show ?thesis by (simp add: ex_tron_data_holds ex_tron_def)
qed

lemma ex_tron_trigger:
  assumes "tl_trigger ex_tron token to n owner limit m w = (Inr tx, w')"
  shows "\<exists>th h bs. tl_to_hex ex_tron token = Inr th \<and> tl_to_hex ex_tron to = Inr h
    \<and> holds_memo m (tr_data (tl_raw ex_tron tx))
    \<and> tl_abi_decode ex_tron bs = bind_res (tl_to_base58 ex_tron h) (\<lambda>a. Inr (a, n))
    \<and> tr_contracts (tl_raw ex_tron tx) =
        [\<lparr>tc_type = lit ''TriggerSmartContract'', tc_to_address = None, tc_amount = None,
          tc_contract_address = Some th, tc_data = Some (TRC20_TRANSFER_SELECTOR @ py_hex bs)\<rparr>]"
proof -
  let ?bs = "to_le 8 n @ utf8_encode to"
  from assms obtain d where n: "0 \<le> n" "n < 2 ^ 64" "unicode_text to" and d: "ex_tron_data m = Inr d"
    and tx: "tx = \<lparr>tr_contracts = [\<lparr>tc_type = lit ''TriggerSmartContract'', tc_to_address = None,
        tc_amount = None, tc_contract_address = Some (lit ''41'' @ token),
        tc_data = Some (TRC20_TRANSFER_SELECTOR @ py_hex ?bs)\<rparr>], tr_data = d\<rparr>"
    by (auto simp: ex_tron_def ex_trigger_def bind_res_eq_Inr split: if_splits)
  have "tl_abi_decode ex_tron ?bs = Inr (to, n)"
    using n by (simp add: ex_tron_def ex_tron_decode_def utf8_decode_encode le_int_to_le)
  moreover have "holds_memo m (tr_data (tl_raw ex_tron tx))" "tr_contracts (tl_raw ex_tron tx) = tr_contracts tx"
    "tl_to_hex ex_tron a = Inr (lit ''41'' @ a)" "tl_to_base58 ex_tron (lit ''41'' @ a) = Inr a" for a
    using ex_tron_data_holds [OF d] by (simp_all add: ex_tron_def tx lit_def)
  ultimately show ?thesis
    by (intro exI [of _ "lit ''41'' @ token"] exI [of _ "lit ''41'' @ to"] exI [of _ ?bs]) (simp add: tx)
qed

lemma ex_tron_ok: "tronpy_ok ex_tron"
  unfolding tronpy_ok_def by (intro conjI allI impI ex_tron_transfer ex_tron_trigger)


definition ex_tron_request :: swap_request where
  "ex_tron_request = \<lparr>sr_from_asset = lit ''TRON.USDT-TR7NHQJEKQXGTCI8Q8ZY4PL8OTSZGJLJ6T'', sr_to_asset = [],
     sr_amount = 12300, sr_destination = lit ''me''\<rparr>"

lemma ex_tron_builds:
  assumes "unicode_text m" "unicode_text to" "0 \<le> n" "n < 2 ^ 64"
  shows "\<exists>b. build_unsigned_trc20_transfer ex_tron path token to n m limit () = (Inr b, ())
    \<and> decode_trc20_transfer ex_tron (bt_call_data b) = Inr (to, n)"
proof -
  let ?bs = "to_le 8 n @ utf8_encode to"
  obtain d where d: "ex_tron_data (memo_option m) = Inr d"
    using assms(1) by (cases "m = []") (simp_all add: ex_tron_data_def memo_option_def)
  have dec: "decode_trc20_transfer ex_tron (TRC20_TRANSFER_SELECTOR @ py_hex ?bs) = Inr (to, n)"
    using assms by (simp add: trc20_calldata, simp add: ex_tron_def ex_tron_decode_def utf8_decode_encode le_int_to_le)
  have memo: "tron_memo d = (Inr m :: problem exn + pystr)" by (rule memo_read [OF ex_tron_data_holds [OF d]])
  have "\<exists>b. build_unsigned_trc20_transfer ex_tron path token to n m limit () = (Inr b, ())
      \<and> bt_call_data b = TRC20_TRANSFER_SELECTOR @ py_hex ?bs"
    using assms d memo
    by (simp add: build_unsigned_trc20_transfer_def ex_tron_def ex_trigger_def and_then_def of_res_def trc20_fields_def
        first_contract_def key_of_def)
  with dec show ?thesis by metis
qed

lemma tron_transactions_pass_witness:
  "\<exists>p. tron_build_and_verify ex_tron ex_quote ex_tron_request 100 () = (Inr p, ())
     \<and> safe p \<and> tron_moves ex_tron (pr_built p) = Inr 123"
proof -
  have q: "q_inbound_address ex_quote = JStr (lit ''vault'')" "q_memo ex_quote = JStr (lit ''=:e:me'')"
    "q_expiry ex_quote = 200"
    by (simp_all add: ex_quote_def)
  have r: "45 \<in> set (sr_from_asset ex_tron_request)" "sr_amount ex_tron_request = 12300"
    "token_contract_and_decimals (sr_from_asset ex_tron_request) = (Inr (usdt, 6) :: problem exn + _)"
    by (simp_all add: ex_tron_request_def tracked_token_Inr lit_def)
  have n: "to_token_native 12300 6 = (Inr 123 :: problem exn + _)" by (simp add: to_token_native_Inr)
  have u: "unicode_text (lit ''=:e:me'')" "unicode_text (lit ''vault'')"
    by (simp_all add: unicode_text_def lit_def unicode_scalar_def)
  obtain b where b: "build_unsigned_trc20_transfer ex_tron DEFAULT_TRON_DERIVATION usdt (lit ''vault'') 123
      (lit ''=:e:me'') DEFAULT_TRC20_FEE_LIMIT_SUN () = (Inr b, ())"
    "decode_trc20_transfer ex_tron (bt_call_data b) = Inr (lit ''vault'', 123)"
    using ex_tron_builds [OF u, of 123] by fastforce
  have "\<exists>p. tron_build_and_verify ex_tron ex_quote ex_tron_request 100 () = (Inr p, ())"
    using r n b q by (simp add: tron_build_and_verify_def tron_token_deposit_def quote_receiver_def quote_memo_def
        json_or_def and_then_def of_res_def of_py_def ret_def Let_def lit_def)
  then obtain p where p: "tron_build_and_verify ex_tron ex_quote ex_tron_request 100 () = (Inr p, ())" by blast
  have pays: "memo_pays_destination (lit ''me'') (MemoText (lit ''=:e:me''))" by code_simp
  have kept: "tron_base58 ex_tron a" for a by (simp add: tron_base58_def ex_tron_def lit_def)
  from tron_transactions_pass [OF ex_tron_ok, THEN conjunct1, THEN mp, OF conjI [OF q(1) conjI [OF q(2) p]]]
  have "safe p" "\<exists>n. tron_moves ex_tron (pr_built p) = Inr n \<and> 12300 = n * 100"
    using pays kept by (simp_all add: q r, simp add: ex_tron_request_def)
  with p show ?thesis by auto
qed


lemma own_tron_address_accepted_witness:
  "\<exists>a. tron_derive_address (ex_tron\<lparr>tl_sha256 := \<lambda>b. replicate 32 7\<rparr>) DEFAULT_TRON_DERIVATION = Inr a
     \<and> length a = 34 \<and> hd a = 84 \<and> validate_destination_address (\<lambda>alpha a. Some []) id (lit ''TRON'') a = Inr None"
proof -
  let ?lib = "ex_tron\<lparr>tl_sha256 := \<lambda>b. replicate 32 7\<rparr>"
  have "py_fromhex (replicate 40 49) = Some (replicate 20 0x11)" by code_simp
  then have "py_fromhex (drop 2 (snd (tl_account ?lib DEFAULT_TRON_DERIVATION))) = Some (replicate 20 0x11)"
    by (simp add: ex_tron_def lit_def)
  from own_tron_address_accepted [OF this, of "\<lambda>alpha a. Some []" id] show ?thesis by simp
qed

end
