(* ===== verification/Btc.thy ===== *)
theory Btc
  imports Explorer Chainflip
begin

text \<open>
  The Bitcoin adapter, \<open>src/swapsack/chains/btc.py\<close>: what Esplora answers, read over the failover client of
  \<open>Net\<close>, the pricing of unconfirmed parents, and the broadcast. Key derivation is bitcoinlib's; building,
  gating and signing are in \<open>Gated\<close>.
\<close>

section \<open>Parsing\<close>

text \<open>\<open>x.get(k, 0)\<close> as a number.\<close>

definition jcount :: "json \<Rightarrow> string \<Rightarrow> py_error + int" where
  "jcount x k = jfield_or x k (JInt 0) jnum"

definition parse_esplora_address :: "json \<Rightarrow> py_error + address_info" where
  "parse_esplora_address stats =
     bind_res (jget_or stats (lit ''chain_stats'') (JObj [])) (\<lambda>chain.
     bind_res (jget_or stats (lit ''mempool_stats'') (JObj [])) (\<lambda>mem.
     bind_res (jcount chain ''funded_txo_sum'') (\<lambda>funded.
     bind_res (jcount chain ''spent_txo_sum'') (\<lambda>spent.
     bind_res (jcount mem ''funded_txo_sum'') (\<lambda>mem_funded.
     bind_res (jcount mem ''spent_txo_sum'') (\<lambda>mem_spent.
     bind_res (jcount chain ''tx_count'') (\<lambda>n.
     bind_res (if 0 < n then Inr True else bind_res (jcount mem ''tx_count'') (\<lambda>k. Inr (0 < k))) (\<lambda>has_history.
       Inr \<lparr>ai_has_history = has_history, ai_confirmed = funded - spent, ai_pending = mem_funded - mem_spent\<rparr>))))))))"

definition esplora_entry :: "json \<Rightarrow> py_error + tx_entry" where
  "esplora_entry item =
     bind_res (jget item (lit ''scriptpubkey_type'')) (\<lambda>kind.
     let is_data = kind = JStr (lit ''op_return'') in
     bind_res (if is_data
               then jfield item ''scriptpubkey'' (\<lambda>script. if json_truthy script then op_return_of script else Inr None)
               else Inr None) (\<lambda>data.
     bind_res (jcount item ''value'') (\<lambda>n.
     bind_res (jfield item ''scriptpubkey_address'' jtext_opt) (\<lambda>addr.
       Inr (if is_data then data_entry n addr data else value_entry n addr)))))"

definition esplora_spend :: "json \<Rightarrow> py_error + tx_entry" where
  "esplora_spend item =
     bind_res (jfield item ''prevout'' (\<lambda>p. esplora_entry (json_or p (JObj [])))) (\<lambda>e.
     bind_res (jfield item ''txid'' jtext_opt) (\<lambda>txid.
     bind_res (jfield item ''vout'' jnum_opt) (\<lambda>vout.
     bind_res (jfield item ''sequence'' jnum_opt) (\<lambda>s.
       Inr (e\<lparr>te_txid := txid, te_vout := vout, te_sequence := s\<rparr>)))))"

text \<open>\<open>-(-weight // 4)\<close>: the quotient rounded up.\<close>

definition parse_esplora_tx :: "json \<Rightarrow> py_error + tx_summary" where
  "parse_esplora_tx payload =
     bind_res (jget_or payload (lit ''status'') (JObj [])) (\<lambda>status.
     bind_res (jget payload (lit ''weight'')) (\<lambda>weight.
     bind_res (if json_truthy weight then bind_res (jnum weight) (\<lambda>w. Inr (- ((- w) div 4)))
               else jcount payload ''size'') (\<lambda>vsize.
     bind_res (jfield_or payload ''txid'' (JStr []) jtext) (\<lambda>txid.
     bind_res (jget status (lit ''confirmed'')) (\<lambda>confirmed.
     bind_res (jfield status ''block_height'' jnum_opt) (\<lambda>height.
     bind_res (jfield status ''block_time'' jnum_opt) (\<lambda>block_time.
     bind_res (jcount payload ''fee'') (\<lambda>fee.
     bind_res (jfield_or payload ''vin'' (JList []) (jlist esplora_spend)) (\<lambda>inputs.
     bind_res (jfield_or payload ''vout'' (JList []) (jlist esplora_entry)) (\<lambda>outputs.
       Inr \<lparr>ts_txid = txid, ts_confirmed = json_truthy confirmed, ts_block_height = height, ts_fee = fee,
            ts_vsize = vsize, ts_inputs = inputs, ts_outputs = outputs, ts_block_time = block_time\<rparr>))))))))))"

section \<open>Reading\<close>

text \<open>
  A read is the failover client's: it asks the interchangeable explorers, pins the one that
  answered, and gives up with an HTTP error. Its state is the pinned client and the world.
\<close>

type_synonym 's suffix_getter = "pystr \<Rightarrow> 's \<Rightarrow> (give_up + response) \<times> 's"

definition esplora_get ::
  "('w, response) transport \<Rightarrow> rat \<Rightarrow> nat \<Rightarrow> (failover \<times> 'w) suffix_getter" where
  "esplora_get tp backoff retries path s =
     (case s of (fo, w) \<Rightarrow> case get_with_fallback tp backoff retries fo path w of (r, fo', w') \<Rightarrow> (r, (fo', w')))"

definition ask_esplora :: "'s suffix_getter \<Rightarrow> pystr \<Rightarrow> ('s, 'p, response) io" where
  "ask_esplora fetch path s =
     (case fetch path s of (Inl g, s') \<Rightarrow> (Inl HttpError, s') | (Inr resp, s') \<Rightarrow> (Inr resp, s'))"

definition esplora_json :: "'s suffix_getter \<Rightarrow> pystr \<Rightarrow> (json \<Rightarrow> py_error + 'a) \<Rightarrow> ('s, 'p, 'a) io" where
  "esplora_json fetch path parse =
     and_then (ask_esplora fetch path) (\<lambda>resp.
     and_then (raise_for_status resp) (\<lambda>_.
     and_then (resp_json resp) (\<lambda>body. of_py (parse body))))"

definition btc_address_info :: "'s suffix_getter \<Rightarrow> pystr \<Rightarrow> ('s, 'p, address_info) io" where
  "btc_address_info fetch address = esplora_json fetch (lit ''address/'' @ address) parse_esplora_address"

definition btc_fetch_balance :: "'s suffix_getter \<Rightarrow> pystr \<Rightarrow> ('s, 'p, int) io" where
  "btc_fetch_balance fetch address = and_then (btc_address_info fetch address) (\<lambda>info. ret (ai_confirmed info))"

text \<open>An output counts as confirmed only if it says so.\<close>

definition esplora_utxo :: "pystr \<Rightarrow> bool \<Rightarrow> json \<Rightarrow> py_error + utxo list" where
  "esplora_utxo address include_unconfirmed x =
     bind_res (jget_or x (lit ''status'') (JObj [])) (\<lambda>status.
     bind_res (jget_or status (lit ''confirmed'') (JBool False)) (\<lambda>c.
     if \<not> json_truthy c \<and> \<not> include_unconfirmed then Inr []
     else
       bind_res (bind_res (jindex x (lit ''txid'')) jtext) (\<lambda>txid.
       bind_res (bind_res (jindex x (lit ''vout'')) jnum) (\<lambda>vout.
       bind_res (bind_res (jindex x (lit ''value'')) jnum) (\<lambda>n.
         Inr [\<lparr>u_txid = txid, u_vout = vout, u_value = n, u_address = address, u_path = None,
               u_confirmed = json_truthy c, u_ancestor_deficit = 0\<rparr>])))))"

definition btc_fetch_utxos :: "'s suffix_getter \<Rightarrow> pystr \<Rightarrow> bool \<Rightarrow> ('s, 'p, utxo list) io" where
  "btc_fetch_utxos fetch address include_unconfirmed =
     esplora_json fetch (lit ''address/'' @ address @ lit ''/utxo'') (\<lambda>rows.
       bind_res (jlist (esplora_utxo address include_unconfirmed) rows) (\<lambda>us. Inr (concat us)))"

definition btc_fetch_tx :: "'s suffix_getter \<Rightarrow> pystr \<Rightarrow> ('s, 'p, tx_summary option) io" where
  "btc_fetch_tx fetch txid =
     and_then (ask_esplora fetch (lit ''tx/'' @ txid)) (\<lambda>resp.
       if rs_status resp = 404 then ret None
       else
         and_then (raise_for_status resp) (\<lambda>_.
         and_then (resp_json resp) (\<lambda>body.
         and_then (of_py (parse_esplora_tx body)) (\<lambda>tx. ret (Some tx)))))"

text \<open>The cursor of a page is its last confirmed transaction.\<close>

definition esplora_page :: "json \<Rightarrow> py_error + (tx_summary list \<times> pystr option)" where
  "esplora_page body =
     bind_res (jlist parse_esplora_tx body) (\<lambda>txs.
       let confirmed = map ts_txid (filter ts_confirmed txs) in
       Inr (txs, if confirmed = [] then None else Some (last confirmed)))"

definition esplora_txs_suffix :: "pystr \<Rightarrow> pystr option \<Rightarrow> pystr" where
  "esplora_txs_suffix address cursor =
     lit ''address/'' @ address @ lit ''/txs''
     @ (case cursor of None \<Rightarrow> [] | Some c \<Rightarrow> if c = [] then [] else lit ''/chain/'' @ c)"

definition btc_address_txs :: "'s suffix_getter \<Rightarrow> pystr \<Rightarrow> nat \<Rightarrow> 's \<Rightarrow> (read_failure + address_txs) \<times> 's" where
  "btc_address_txs fetch address limit =
     collect_pages (\<lambda>cursor. fetched_page (fetch (esplora_txs_suffix address cursor)) esplora_page) limit"

definition btc_wallet_balance ::
  "(pystr \<Rightarrow> pystr) \<Rightarrow> (pystr \<Rightarrow> address_info) \<Rightarrow> pystr \<Rightarrow> balance_report option" where
  "btc_wallet_balance derive probe account = wallet_balance_from_scan derive probe account (lit ''BTC'') 8"

text \<open>
  \<open>max(estimates.values())\<close>: numbers are compared exactly and the first greatest is kept; what is no
  number is a TypeError here.
\<close>

fun json_val :: "json \<Rightarrow> py_error + rat" where
  "json_val (JInt n) = Inr (of_int n)"
| "json_val (JBool b) = Inr (of_bool b)"
| "json_val (JFloat x) = Inr (fl_val x)"
| "json_val _ = Inl TypeError"

fun max_json :: "json \<Rightarrow> json list \<Rightarrow> py_error + json" where
  "max_json x [] = bind_res (json_val x) (\<lambda>_. Inr x)"
| "max_json x (y # ys) =
     bind_res (json_val x) (\<lambda>a. bind_res (json_val y) (\<lambda>b. max_json (if a < b then y else x) ys))"

definition parse_fee_rate :: "py_libs \<Rightarrow> int \<Rightarrow> json \<Rightarrow> py_error + float64" where
  "parse_fee_rate pl target_blocks estimates =
     (case estimates of
        JObj d \<Rightarrow>
          let wanted = dget d (dec_int target_blocks) in
          bind_res (if json_truthy wanted then Inr wanted
                    else case map snd d of [] \<Rightarrow> Inl ValueError | v # vs \<Rightarrow> max_json v vs) (json_float pl)
      | _ \<Rightarrow> Inl AttributeError)"

definition btc_fetch_fee_rate :: "py_libs \<Rightarrow> 's suffix_getter \<Rightarrow> int \<Rightarrow> ('s, 'p, float64) io" where
  "btc_fetch_fee_rate pl fetch target_blocks =
     esplora_json fetch (lit ''fee-estimates'') (parse_fee_rate pl target_blocks)"

section \<open>Unconfirmed parents\<close>

text \<open>The deficits found so far; a parent is asked for once.\<close>

fun deficit_loop ::
  "(pystr \<Rightarrow> ('s, 'p, tx_summary option) io) \<Rightarrow> float64 \<Rightarrow> utxo list \<Rightarrow> (pystr \<times> int) list
   \<Rightarrow> ('s, 'p, (pystr \<times> int) list) io" where
  "deficit_loop fetch_tx fee_rate [] deficits = ret deficits"
| "deficit_loop fetch_tx fee_rate (u # us) deficits =
     (if u_confirmed u \<or> map_of deficits (u_txid u) \<noteq> None then deficit_loop fetch_tx fee_rate us deficits
      else
        and_then (fetch_tx (u_txid u)) (\<lambda>parent.
          case parent of
            None \<Rightarrow> raise RuntimeError
          | Some p \<Rightarrow>
              deficit_loop fetch_tx fee_rate us
                ((u_txid u, if ts_confirmed p then 0 else cpfp_deficit (ts_fee p) (ts_vsize p) fee_rate) # deficits)))"

definition cpfp_deficits ::
  "(pystr \<Rightarrow> ('s, 'p, tx_summary option) io) \<Rightarrow> utxo list \<Rightarrow> float64 \<Rightarrow> ('s, 'p, utxo list) io" where
  "cpfp_deficits fetch_tx utxos fee_rate =
     and_then (deficit_loop fetch_tx fee_rate utxos []) (\<lambda>deficits.
       ret (map (\<lambda>u. case map_of deficits (u_txid u) of None \<Rightarrow> u | Some d \<Rightarrow> u\<lparr>u_ancestor_deficit := d\<rparr>) utxos))"

section \<open>Broadcast\<close>

fun btc_broadcast_loop ::
  "(pystr \<Rightarrow> pystr \<Rightarrow> ('s, 'p, response) io) \<Rightarrow> pystr \<Rightarrow> pystr \<Rightarrow> pystr list \<Rightarrow> ('s, 'p, pystr) io" where
  "btc_broadcast_loop post esplora_url txid [] = ret txid"
| "btc_broadcast_loop post esplora_url txid (raw # raws) =
     and_then (post (esplora_url @ lit ''/tx'') raw) (\<lambda>resp.
     and_then (raise_for_status resp) (\<lambda>_.
       btc_broadcast_loop post esplora_url (py_strip (rs_text resp)) raws))"

definition btc_broadcast ::
  "(pystr \<Rightarrow> pystr \<Rightarrow> ('s, 'p, response) io) \<Rightarrow> failover \<Rightarrow> pystr list \<Rightarrow> ('s, 'p, pystr) io" where
  "btc_broadcast post fo raws = btc_broadcast_loop post (fo_base_url fo) [] raws"

section \<open>Every parent is priced once\<close>

text \<open>The deficit of a transaction that was answered for a parent.\<close>

definition owed :: "float64 \<Rightarrow> tx_summary \<Rightarrow> int" where
  "owed fee_rate p = (if ts_confirmed p then 0 else cpfp_deficit (ts_fee p) (ts_vsize p) fee_rate)"

definition answered :: "(pystr \<Rightarrow> ('s, 'p, tx_summary option) io) \<Rightarrow> float64 \<Rightarrow> (pystr \<times> int) list \<Rightarrow> bool" where
  "answered fetch_tx fee_rate ds \<longleftrightarrow>
     (\<forall>t d. map_of ds t = Some d \<longrightarrow> (\<exists>p s s'. fetch_tx t s = (Inr (Some p), s') \<and> d = owed fee_rate p))"

lemma deficit_loop_sound:
  assumes "deficit_loop fetch_tx fee_rate us ds s = (Inr es, s')" "answered fetch_tx fee_rate ds"
  shows "answered fetch_tx fee_rate es \<and> dom (map_of es) = dom (map_of ds) \<union> u_txid ` {u \<in> set us. \<not> u_confirmed u}"
  using assms
proof (induction us arbitrary: ds s)
  case Nil
  then show ?case by (simp add: io_Inr_iff)
next
  case (Cons u us)
  show ?case
  proof (cases "u_confirmed u \<or> map_of ds (u_txid u) \<noteq> None")
    case True
    with Cons.prems(1) have "deficit_loop fetch_tx fee_rate us ds s = (Inr es, s')" by simp
    from Cons.IH [OF this Cons.prems(2)] True show ?thesis by auto
  next
    case False
    with Cons.prems(1) obtain p s1 where p: "fetch_tx (u_txid u) s = (Inr (Some p), s1)"
      and rest: "deficit_loop fetch_tx fee_rate us ((u_txid u, owed fee_rate p) # ds) s1 = (Inr es, s')"
      by (auto simp: and_then_Inr io_Inr_iff owed_def split: option.splits)
    have "answered fetch_tx fee_rate ((u_txid u, owed fee_rate p) # ds)"
      using Cons.prems(2) p by (auto simp: answered_def)
    from Cons.IH [OF rest this] False show ?thesis by (auto simp: image_iff split: if_splits)
  qed
qed

text \<open>
  C29: Pricing the unconfirmed coins changes nothing but their deficits, and makes the surcharge what
  lifting the parents costs: every unconfirmed parent was answered for by the explorer, and the
  surcharge of the priced coins is the sum, over the distinct parents, of the deficit of the answer
  (nothing for a parent that was mined meanwhile), however many of their outputs are spent. Coins that
  met the assumption of the coin selection still meet it. A parent the chain has never seen ends the
  pricing with an error.
\<close>

theorem cpfp_deficits_priced:
  assumes run: "cpfp_deficits fetch_tx us fee_rate s = (Inr vs, s')"
  shows "map (\<lambda>u. u\<lparr>u_ancestor_deficit := 0\<rparr>) vs = map (\<lambda>u. u\<lparr>u_ancestor_deficit := 0\<rparr>) us
    \<and> (\<exists>parent. (\<forall>u\<in>set us. \<not> u_confirmed u \<longrightarrow>
           (\<exists>r r'. fetch_tx (u_txid u) r = (Inr (Some (parent (u_txid u))), r')))
        \<and> cpfp_surcharge vs
          = (\<Sum>t\<in>u_txid ` {u \<in> set us. \<not> u_confirmed u}.
               if ts_confirmed (parent t) then 0 else cpfp_deficit (ts_fee (parent t)) (ts_vsize (parent t)) fee_rate))
    \<and> (coins_ok us \<longrightarrow> coins_ok vs)"
proof -
  from run obtain ds where loop: "deficit_loop fetch_tx fee_rate us [] s = (Inr ds, s')"
    and vs: "vs = map (\<lambda>u. case map_of ds (u_txid u) of None \<Rightarrow> u | Some d \<Rightarrow> u\<lparr>u_ancestor_deficit := d\<rparr>) us"
    by (auto simp: cpfp_deficits_def and_then_Inr io_Inr_iff)
  have ans: "answered fetch_tx fee_rate ds" and dom: "dom (map_of ds) = u_txid ` {u \<in> set us. \<not> u_confirmed u}"
    using deficit_loop_sound [OF loop] by (simp_all add: answered_def)
  have "\<exists>p. map_of ds t \<noteq> None \<longrightarrow> (\<exists>r r'. fetch_tx t r = (Inr (Some p), r')) \<and> map_of ds t = Some (owed fee_rate p)" for t
    using ans by (auto simp: answered_def)
  then obtain parent where parent: "map_of ds t \<noteq> None \<Longrightarrow>
      (\<exists>r r'. fetch_tx t r = (Inr (Some (parent t)), r')) \<and> map_of ds t = Some (owed fee_rate (parent t))" for t
    by metis
  have priced: "d = owed fee_rate (parent t)" if "map_of ds t = Some d" for t d
    using parent [of t] that by simp
  have known: "map_of ds (u_txid u) = Some (owed fee_rate (parent (u_txid u)))"
    if "u \<in> set us" "\<not> u_confirmed u" for u
    using dom that priced by (force simp: dom_def)
  let ?f = "\<lambda>u. case map_of ds (u_txid u) of None \<Rightarrow> u | Some d \<Rightarrow> u\<lparr>u_ancestor_deficit := d\<rparr>"
  have keeps: "u_txid (?f u) = u_txid u" "u_confirmed (?f u) = u_confirmed u" for u
    by (simp_all split: option.split)
  have unconfirmed: "set (map u_txid (filter (\<lambda>u. \<not> u_confirmed u) vs)) = u_txid ` {u \<in> set us. \<not> u_confirmed u}"
    unfolding vs by (auto simp: filter_map o_def keeps)
  have "cpfp_surcharge vs = (\<Sum>t\<in>set (map u_txid (filter (\<lambda>u. \<not> u_confirmed u) vs)). owed fee_rate (parent t))"
    by (rule cpfp_surcharge_sum) (auto simp: vs known split: option.splits)
  note surcharge = this [unfolded unconfirmed owed_def]
  have asked: "\<exists>r r'. fetch_tx (u_txid u) r = (Inr (Some (parent (u_txid u))), r')"
    if "u \<in> set us" "\<not> u_confirmed u" for u
    using known [OF that] parent [of "u_txid u"] by simp
  have "0 \<le> owed fee_rate p" for p by (simp add: owed_def cpfp_deficit_def)
  then have "coins_ok us \<longrightarrow> coins_ok vs"
    by (auto simp: coins_ok_def vs dest!: priced split: option.splits)
  moreover have "map (\<lambda>u. u\<lparr>u_ancestor_deficit := 0\<rparr>) vs = map (\<lambda>u. u\<lparr>u_ancestor_deficit := 0\<rparr>) us"
    by (auto simp: vs split: option.splits)
  ultimately show ?thesis using surcharge asked by blast
qed

text \<open>Two coins of one parent that pays half the rate.\<close>

definition ex_parent :: tx_summary where
  "ex_parent = \<lparr>ts_txid = lit ''p'', ts_confirmed = False, ts_block_height = None, ts_fee = 100, ts_vsize = 100,
     ts_inputs = [], ts_outputs = [], ts_block_time = None\<rparr>"

definition ex_child_coin :: "int \<Rightarrow> utxo" where
  "ex_child_coin n = \<lparr>u_txid = lit ''p'', u_vout = n, u_value = 5000, u_address = lit ''me'', u_path = None,
     u_confirmed = False, u_ancestor_deficit = 0\<rparr>"

definition ex_asked_parent :: "pystr \<Rightarrow> (nat, unit, tx_summary option) io" where
  "ex_asked_parent t n = (Inr (if t = lit ''p'' then Some ex_parent else None), Suc n)"

lemma cpfp_deficits_priced_witness:
  "\<exists>vs. cpfp_deficits ex_asked_parent [ex_child_coin 0, ex_child_coin 1] (Flt 2 0) 0 = (Inr vs, 1)
     \<and> cpfp_surcharge vs = 100"
proof -
  let ?us = "[ex_child_coin 0, ex_child_coin 1]"
  have "case cpfp_deficits ex_asked_parent ?us (Flt 2 0) 0 of (Inl e, n) \<Rightarrow> False | (Inr vs, n) \<Rightarrow> n = 1" by code_simp
  then obtain vs where vs: "cpfp_deficits ex_asked_parent ?us (Flt 2 0) 0 = (Inr vs, 1)"
    by (auto split: prod.splits sum.splits)
  have d: "cpfp_deficit 100 100 (Flt 2 0) = 100" by code_simp
  have txids: "u_txid ` {u \<in> set ?us. \<not> u_confirmed u} = {lit ''p''}" by (auto simp: ex_child_coin_def intro!: image_eqI [of _ _ "ex_child_coin 0"])
  from cpfp_deficits_priced [OF vs] obtain parent r r' where
    "ex_asked_parent (lit ''p'') r = (Inr (Some (parent (lit ''p''))), r')"
    and sum: "cpfp_surcharge vs = (if ts_confirmed (parent (lit ''p'')) then 0
      else cpfp_deficit (ts_fee (parent (lit ''p''))) (ts_vsize (parent (lit ''p''))) (Flt 2 0))"
    unfolding txids by (auto simp: ex_child_coin_def)
  then have "parent (lit ''p'') = ex_parent" by (simp add: ex_asked_parent_def)
  with sum have "cpfp_surcharge vs = 100" by (simp add: ex_parent_def d)
  with vs show ?thesis by blast
qed

section \<open>The fee rate\<close>

text \<open>Without an estimate for the target the rate is no lower than any estimate that is known.\<close>

lemma max_json_greatest:
  "max_json x xs = Inr m \<Longrightarrow> m \<in> set (x # xs) \<and> (\<exists>r. json_val m = Inr r \<and>
     (\<forall>y\<in>set (x # xs). \<exists>s. json_val y = Inr s \<and> s \<le> r))"
proof (induction xs arbitrary: x)
  case Nil
  then show ?case by (auto simp: bind_res_eq_Inr)
next
  case (Cons y ys)
  from Cons.prems obtain a b where ab: "json_val x = Inr a" "json_val y = Inr b"
    and "max_json (if a < b then y else x) ys = Inr m" by (auto simp: bind_res_eq_Inr)
  from Cons.IH [OF this(3)] ab show ?case by (auto split: if_splits)
qed

lemma fallback_rate_highest:
  assumes "parse_fee_rate pl n (JObj d) = Inr rate" "\<not> json_truthy (dget d (dec_int n))"
  shows "\<exists>m r. m \<in> snd ` set d \<and> json_float pl m = Inr rate \<and> json_val m = Inr r
    \<and> (\<forall>v\<in>snd ` set d. \<exists>s. json_val v = Inr s \<and> s \<le> r)"
proof -
  from assms obtain v vs m where d: "map snd d = v # vs" and m: "max_json v vs = Inr m" "json_float pl m = Inr rate"
    by (auto simp: parse_fee_rate_def Let_def bind_res_eq_Inr split: list.splits)
  have "set (v # vs) = snd ` set d" by (simp flip: d)
  with max_json_greatest [OF m(1)] m(2) show ?thesis by (metis (no_types, lifting))
qed

end
