(* ===== verification/Dash.thy ===== *)
theory Dash
  imports Explorer Chainflip
begin

text \<open>
  The Dash adapter, \<open>src/swapsack/chains/dash.py\<close>, with the address encoding of \<open>chains/p2pkh.py\<close>: the
  parsers of the two explorer APIs, Insight and Blockbook, the failover between endpoints that do not
  speak the same one, the history walk that starts over when the list moves under it, and a broadcast
  that says whether the transaction may have been sent. Building, gating and signing are in \<open>Gated\<close>;
  key derivation and hashes are parameters.
\<close>

section \<open>Addresses\<close>

record 'k p2pkh_libs =
  pk_hash160 :: "bytes \<Rightarrow> bytes"
  pk_base58 :: "bytes \<Rightarrow> bytes \<Rightarrow> pystr"
  pk_key :: "pystr \<Rightarrow> pystr \<Rightarrow> pystr \<Rightarrow> 'k"
  pk_public :: "'k \<Rightarrow> bytes"

definition p2pkh_encoding :: "'k p2pkh_libs \<Rightarrow> bytes \<Rightarrow> bytes \<Rightarrow> pystr" where
  "p2pkh_encoding lib pubkey prf = pk_base58 lib (pk_hash160 lib pubkey) prf"

definition derive_p2pkh_key :: "'k p2pkh_libs \<Rightarrow> pystr \<Rightarrow> pystr \<Rightarrow> pystr \<Rightarrow> 'k" where
  "derive_p2pkh_key lib mnemonic path passphrase = pk_key lib mnemonic passphrase path"

definition derive_p2pkh_address :: "'k p2pkh_libs \<Rightarrow> pystr \<Rightarrow> pystr \<Rightarrow> bytes \<Rightarrow> pystr \<Rightarrow> pystr" where
  "derive_p2pkh_address lib mnemonic path prf passphrase =
     p2pkh_encoding lib (pk_public lib (derive_p2pkh_key lib mnemonic path passphrase)) prf"

definition DASH_PREFIX_P2PKH :: bytes where
  "DASH_PREFIX_P2PKH = [0x4c]"

definition dash_derive_address :: "'k p2pkh_libs \<Rightarrow> pystr \<Rightarrow> pystr \<Rightarrow> pystr \<Rightarrow> pystr" where
  "dash_derive_address lib mnemonic path passphrase =
     derive_p2pkh_address lib mnemonic path DASH_PREFIX_P2PKH passphrase"

section \<open>Constants\<close>

definition DUFFS :: int where
  "DUFFS = 100000000"

definition INSIGHT_TX_PAGE :: int where
  "INSIGHT_TX_PAGE = 50"

definition INSIGHT_WALK_ATTEMPTS :: nat where
  "INSIGHT_WALK_ATTEMPTS = 3"

definition BLOCKBOOK_TX_PAGE :: int where
  "BLOCKBOOK_TX_PAGE = 100"

definition DASH_FEE_RATE :: float64 where
  "DASH_FEE_RATE = Flt 1 1"

section \<open>Decimal amounts\<close>

text \<open>
  \<open>Decimal(text)\<close> as a coefficient and an exponent of ten: optional sign, digits with an optional
  point, optional exponent, underscores ignored. What is no finite number has no value here; its
  \<open>InvalidOperation\<close>, an ArithmeticError, stands as the model's OverflowError.
\<close>

definition digits_value :: "pystr \<Rightarrow> int" where
  "digits_value ds = foldl (\<lambda>acc c. 10 * acc + int c - 48) 0 ds"

definition all_digits :: "pystr \<Rightarrow> bool" where
  "all_digits ds \<longleftrightarrow> ds \<noteq> [] \<and> list_all is_digit ds"

fun signed_part :: "pystr \<Rightarrow> int \<times> pystr" where
  "signed_part [] = (1, [])"
| "signed_part (c # cs) = (if c = 45 then (- 1, cs) else if c = 43 then (1, cs) else (1, c # cs))"

definition py_decimal :: "pystr \<Rightarrow> (int \<times> int) option" where
  "py_decimal text =
     (case signed_part (filter (\<lambda>c. c \<noteq> 95) (py_strip text)) of (sign, body) \<Rightarrow>
      case py_partition 101 (py_lower body) of (mant, has_exp, exp_text) \<Rightarrow>
      case signed_part exp_text of (esign, edigits) \<Rightarrow>
      case py_partition 46 mant of (whole, has_point, fraction) \<Rightarrow>
        if all_digits (whole @ fraction) \<and> (has_exp \<longrightarrow> all_digits edigits)
        then Some (sign * digits_value (whole @ fraction),
                   (if has_exp then esign * digits_value edigits else 0) - int (length fraction))
        else None)"

text \<open>A product is rounded half-even to the 28 digits of the default context.\<close>

fun digit_count :: "int \<Rightarrow> nat" where
  "digit_count n = (if n < 10 then 1 else Suc (digit_count (n div 10)))"

declare digit_count.simps [simp del]

definition half_even :: "int \<Rightarrow> int \<Rightarrow> int" where
  "half_even n m =
     (let q = n div m; r = n mod m in
      if 2 * r < m then q else if m < 2 * r then q + 1 else if even q then q else q + 1)"

definition decimal_round :: "int \<times> int \<Rightarrow> int \<times> int" where
  "decimal_round d =
     (case d of (c, e) \<Rightarrow>
      let k = digit_count \<bar>c\<bar> - 28 in
      if k = 0 then (c, e) else (sgn c * half_even \<bar>c\<bar> (10 ^ k), e + int k))"

text \<open>\<open>int(d.to_integral_value(rounding=ROUND_HALF_UP))\<close>.\<close>

definition half_up :: "int \<times> int \<Rightarrow> int" where
  "half_up d =
     (case d of (c, e) \<Rightarrow>
      if 0 \<le> e then c * 10 ^ nat e
      else let m = 10 ^ nat (- e) in sgn c * ((2 * \<bar>c\<bar> + m) div (2 * m)))"

definition duffs_of :: "py_libs \<Rightarrow> json \<Rightarrow> py_error + int" where
  "duffs_of pl v =
     (if v = JNull \<or> v = JStr [] then Inr 0
      else case py_decimal (py_str pl v) of
        None \<Rightarrow> Inl OverflowError
      | Some (c, e) \<Rightarrow> Inr (half_up (decimal_round (c * DUFFS, e))))"

section \<open>Insight\<close>

text \<open>\<open>int(x.get(k, 0) or 0)\<close>.\<close>

definition jint_or_0 :: "json \<Rightarrow> string \<Rightarrow> py_error + int" where
  "jint_or_0 x k = jfield_or x k (JInt 0) (\<lambda>v. json_int (json_or v (JInt 0)))"

definition appearances :: "json \<Rightarrow> string \<Rightarrow> string \<Rightarrow> py_error + int" where
  "appearances stats sic corrected =
     bind_res (jint_or_0 stats sic) (\<lambda>a. bind_res (jint_or_0 stats corrected) (\<lambda>b. Inr (max a b)))"

definition parse_insight_addr :: "json \<Rightarrow> py_error + address_info" where
  "parse_insight_addr stats =
     bind_res (appearances stats ''txApperances'' ''txAppearances'') (\<lambda>seen.
     bind_res (appearances stats ''unconfirmedTxApperances'' ''unconfirmedTxAppearances'') (\<lambda>unconfirmed.
     bind_res (jfield_or stats ''totalReceivedSat'' (JInt 0) jnum) (\<lambda>received.
     bind_res (jfield_or stats ''unconfirmedBalanceSat'' (JInt 0) jnum) (\<lambda>pending.
     bind_res (jfield_or stats ''balanceSat'' (JInt 0) jnum) (\<lambda>confirmed.
       Inr \<lparr>ai_has_history = 0 < seen \<or> 0 < unconfirmed \<or> 0 < received \<or> pending \<noteq> 0,
            ai_confirmed = confirmed, ai_pending = pending\<rparr>)))))"

text \<open>A height is an integer that is not negative, of a transaction that is confirmed.\<close>

fun height_of :: "bool \<Rightarrow> json \<Rightarrow> int option" where
  "height_of confirmed (JInt n) = (if confirmed \<and> 0 \<le> n then Some n else None)"
| "height_of confirmed (JBool b) = (if confirmed then Some (of_bool b) else None)"
| "height_of confirmed _ = None"

definition spent_id :: "json \<Rightarrow> py_error + pystr option" where
  "spent_id item = jfield item ''spentTxId'' (\<lambda>s. jtext_opt (json_or s JNull))"

definition insight_spend :: "py_libs \<Rightarrow> json \<Rightarrow> py_error + tx_entry" where
  "insight_spend pl item =
     bind_res (jget item (lit ''valueSat'')) (\<lambda>sat.
     bind_res (if sat = JNull then jfield item ''value'' (duffs_of pl) else json_int sat) (\<lambda>n.
     bind_res (jfield item ''addr'' jtext_opt) (\<lambda>addr.
     bind_res (jfield item ''txid'' jtext_opt) (\<lambda>txid.
     bind_res (jfield item ''vout'' jnum_opt) (\<lambda>vout.
     bind_res (jfield item ''sequence'' jnum_opt) (\<lambda>s.
       Inr ((value_entry n addr)\<lparr>te_txid := txid, te_vout := vout, te_sequence := s\<rparr>)))))))"

definition first_address :: "bool \<Rightarrow> json \<Rightarrow> py_error + pystr option" where
  "first_address wanted addresses =
     (if json_truthy addresses \<and> wanted then bind_res (jhead addresses) jtext_opt else Inr None)"

definition insight_entry :: "py_libs \<Rightarrow> json \<Rightarrow> py_error + tx_entry" where
  "insight_entry pl item =
     bind_res (jfield item ''scriptPubKey'' (\<lambda>s. Inr (json_or s (JObj [])))) (\<lambda>script.
     bind_res (jget script (lit ''type'')) (\<lambda>kind.
     let is_data = kind = JStr (lit ''nulldata'') in
     bind_res (if is_data then jfield script ''hex'' (\<lambda>h. if json_truthy h then op_return_of h else Inr None)
               else Inr None) (\<lambda>data.
     bind_res (jfield script ''addresses'' (\<lambda>a. Inr (json_or a (JList [])))) (\<lambda>addresses.
     bind_res (jfield item ''value'' (duffs_of pl)) (\<lambda>n.
     bind_res (first_address (\<not> is_data) addresses) (\<lambda>addr.
     bind_res (spent_id item) (\<lambda>spent.
       Inr ((if is_data then data_entry n addr data else value_entry n addr)\<lparr>te_spent_by := spent\<rparr>))))))))"

definition parse_insight_tx :: "py_libs \<Rightarrow> json \<Rightarrow> py_error + tx_summary" where
  "parse_insight_tx pl payload =
     bind_res (jint_or_0 payload ''confirmations'') (\<lambda>n.
     let confirmed = 0 < n in
     bind_res (jget payload (lit ''blockheight'')) (\<lambda>height.
     bind_res (jfield_or payload ''txid'' (JStr []) jtext) (\<lambda>txid.
     bind_res (if confirmed then jfield payload ''blocktime'' jnum_opt else Inr None) (\<lambda>block_time.
     bind_res (jfield payload ''fees'' (duffs_of pl)) (\<lambda>fee.
     bind_res (jint_or_0 payload ''size'') (\<lambda>vsize.
     bind_res (jfield_or payload ''vin'' (JList []) (jlist (insight_spend pl))) (\<lambda>inputs.
     bind_res (jfield_or payload ''vout'' (JList []) (jlist (insight_entry pl))) (\<lambda>outputs.
       Inr \<lparr>ts_txid = txid, ts_confirmed = confirmed, ts_block_height = height_of confirmed height, ts_fee = fee,
            ts_vsize = vsize, ts_inputs = inputs, ts_outputs = outputs, ts_block_time = block_time\<rparr>))))))))"

section \<open>Blockbook\<close>

definition is_blockbook :: "pystr \<Rightarrow> bool" where
  "is_blockbook url = suffix (lit ''/api/v2'') (rstrip_slash url)"

definition parse_blockbook_addr :: "json \<Rightarrow> py_error + address_info" where
  "parse_blockbook_addr stats =
     bind_res (jint_or_0 stats ''balance'') (\<lambda>confirmed.
     bind_res (jint_or_0 stats ''unconfirmedBalance'') (\<lambda>pending.
     bind_res (jint_or_0 stats ''txs'') (\<lambda>txs.
     bind_res (jint_or_0 stats ''unconfirmedTxs'') (\<lambda>unconfirmed.
     bind_res (jint_or_0 stats ''totalReceived'') (\<lambda>received.
       Inr \<lparr>ai_has_history = 0 < txs + unconfirmed \<or> 0 < received \<or> pending \<noteq> 0, ai_confirmed = confirmed,
            ai_pending = pending\<rparr>)))))"

definition blockbook_address :: "json \<Rightarrow> py_error + pystr option" where
  "blockbook_address item =
     bind_res (jfield item ''addresses'' (\<lambda>a. Inr (json_or a (JList [])))) (\<lambda>addresses.
     if json_truthy addresses
     then jfield item ''isAddress'' (\<lambda>flag. first_address (json_truthy flag) addresses) else Inr None)"

definition blockbook_spend :: "json \<Rightarrow> py_error + tx_entry" where
  "blockbook_spend item =
     bind_res (jget item (lit ''txid'')) (\<lambda>prevout.
     bind_res (jint_or_0 item ''value'') (\<lambda>n.
     bind_res (blockbook_address item) (\<lambda>addr.
     bind_res (jtext_opt prevout) (\<lambda>txid.
     bind_res (if json_truthy prevout then bind_res (jint_or_0 item ''vout'') (\<lambda>v. Inr (Some v)) else Inr None) (\<lambda>vout.
     bind_res (jfield item ''sequence'' jnum_opt) (\<lambda>s.
       Inr ((value_entry n addr)\<lparr>te_txid := txid, te_vout := vout, te_sequence := s\<rparr>)))))))"

definition blockbook_entry :: "json \<Rightarrow> py_error + tx_entry" where
  "blockbook_entry item =
     bind_res (jfield item ''hex'' (\<lambda>h. Inr (json_or h (JStr [])))) (\<lambda>h.
     bind_res (case h of JStr s \<Rightarrow> Inr (prefix (lit ''6a'') s) | _ \<Rightarrow> Inl AttributeError) (\<lambda>is_data.
     bind_res (if is_data then op_return_of h else Inr None) (\<lambda>data.
     bind_res (jint_or_0 item ''value'') (\<lambda>n.
     bind_res (blockbook_address item) (\<lambda>addr.
     bind_res (spent_id item) (\<lambda>spent.
       Inr ((if is_data then data_entry n addr data else value_entry n addr)\<lparr>te_spent_by := spent\<rparr>)))))))"

definition parse_blockbook_tx :: "json \<Rightarrow> py_error + tx_summary" where
  "parse_blockbook_tx payload =
     bind_res (jint_or_0 payload ''confirmations'') (\<lambda>n.
     let confirmed = 0 < n in
     bind_res (jget payload (lit ''blockHeight'')) (\<lambda>height.
     bind_res (jfield_or payload ''txid'' (JStr []) jtext) (\<lambda>txid.
     bind_res (if confirmed then jfield payload ''blockTime'' jnum_opt else Inr None) (\<lambda>block_time.
     bind_res (jint_or_0 payload ''fees'') (\<lambda>fee.
     bind_res (jget payload (lit ''vsize'')) (\<lambda>vsize.
     bind_res (if json_truthy vsize then Inr vsize else jget payload (lit ''size'')) (\<lambda>sz.
     bind_res (json_int (json_or sz (JInt 0))) (\<lambda>vsize.
     bind_res (jfield_or payload ''vin'' (JList []) (jlist blockbook_spend)) (\<lambda>inputs.
     bind_res (jfield_or payload ''vout'' (JList []) (jlist blockbook_entry)) (\<lambda>outputs.
       Inr \<lparr>ts_txid = txid, ts_confirmed = confirmed, ts_block_height = height_of confirmed height, ts_fee = fee,
            ts_vsize = vsize, ts_inputs = inputs, ts_outputs = outputs, ts_block_time = block_time\<rparr>))))))))))"


section \<open>Failover\<close>

text \<open>
  How a call on an endpoint fails: the endpoint is down (the client gave up, a POST met a transient
  transport failure, a status of 500 or more), which moves on to the next one, or another exception.
\<close>

datatype down = GaveUp give_up | PostFailed nat | ServerError int

datatype 'p call_failure = Down down | Raised "'p exn"

type_synonym ('s, 'p, 'a) call = "'s \<Rightarrow> ('p call_failure + 'a) \<times> 's"

text \<open>\<open>_on_any\<close>: the pinned endpoint and those after it, in turn; the one that answers is pinned.\<close>

fun any_loop :: "(pystr \<Rightarrow> ('s, 'p, 'a) call) \<Rightarrow> pystr list \<Rightarrow> 's \<Rightarrow> ('p call_failure + ('a \<times> pystr)) \<times> 's" where
  "any_loop op [] s = (Inl (Raised RuntimeError), s)"
| "any_loop op (base # rest) s =
     (case op base s of
        (Inr r, s') \<Rightarrow> (Inr (r, base), s')
      | (Inl (Raised e), s') \<Rightarrow> (Inl (Raised e), s')
      | (Inl (Down d), s') \<Rightarrow> if rest = [] then (Inl (Down d), s') else any_loop op rest s')"

definition on_any ::
  "(pystr \<Rightarrow> ('s, 'p, 'a) call) \<Rightarrow> failover \<Rightarrow> 's \<Rightarrow> ('p call_failure + 'a) \<times> failover \<times> 's" where
  "on_any op fo s =
     (case any_loop op (ordered fo) s of
        (Inl e, s') \<Rightarrow> (Inl e, fo, s')
      | (Inr (r, base), s') \<Rightarrow> (Inr r, fo\<lparr>fo_base_url := base\<rparr>, s'))"

section \<open>Reading\<close>

definition checked :: "response \<Rightarrow> 'p call_failure + response" where
  "checked resp =
     (if 500 \<le> rs_status resp then Inl (Down (ServerError (rs_status resp)))
      else if 400 \<le> rs_status resp then Inl (Raised HttpError) else Inr resp)"

definition call_py :: "py_error + 'a \<Rightarrow> 'p call_failure + 'a" where
  "call_py r = (case r of Inl e \<Rightarrow> Inl (Raised (PyExn e)) | Inr x \<Rightarrow> Inr x)"

definition answer_json :: "response \<Rightarrow> 'p call_failure + json" where
  "answer_json resp = (case rs_json resp of None \<Rightarrow> Inl (Raised HttpError) | Some j \<Rightarrow> Inr j)"

definition dash_read ::
  "'s getter \<Rightarrow> pystr \<Rightarrow> pystr \<Rightarrow> params \<Rightarrow> (json \<Rightarrow> py_error + 'a) \<Rightarrow> ('s, 'p, 'a) call" where
  "dash_read fetch base path query parse s =
     (case fetch (base @ lit ''/'' @ path) query s of
        (Inl g, s') \<Rightarrow> (Inl (Down (GaveUp g)), s')
      | (Inr resp, s') \<Rightarrow>
          (bind_res (checked resp) (\<lambda>resp. bind_res (answer_json resp) (\<lambda>body. call_py (parse body))), s'))"

definition dash_address_op :: "'s getter \<Rightarrow> pystr \<Rightarrow> pystr \<Rightarrow> ('s, 'p, address_info) call" where
  "dash_address_op fetch address base =
     (if is_blockbook base then dash_read fetch base (lit ''address/'' @ address) [] parse_blockbook_addr
      else dash_read fetch base (lit ''addr/'' @ address) [] parse_insight_addr)"

definition dash_address_info ::
  "'s getter \<Rightarrow> pystr \<Rightarrow> failover \<Rightarrow> 's \<Rightarrow> ('p call_failure + address_info) \<times> failover \<times> 's" where
  "dash_address_info fetch address = on_any (dash_address_op fetch address)"

definition blockbook_row :: "json \<Rightarrow> py_error + (pystr \<times> int \<times> int \<times> json)" where
  "blockbook_row x =
     bind_res (bind_res (jindex x (lit ''txid'')) jtext) (\<lambda>t.
     bind_res (jint_or_0 x ''vout'') (\<lambda>n.
     bind_res (jint_at x (lit ''value'')) (\<lambda>v. Inr (t, n, v, x))))"

definition insight_row :: "json \<Rightarrow> py_error + (pystr \<times> int \<times> int \<times> json)" where
  "insight_row x =
     bind_res (bind_res (jindex x (lit ''txid'')) jtext) (\<lambda>t.
     bind_res (bind_res (jindex x (lit ''vout'')) jnum) (\<lambda>n.
     bind_res (bind_res (jindex x (lit ''satoshis'')) jnum) (\<lambda>v. Inr (t, n, v, x))))"

definition dash_utxos_op :: "'s getter \<Rightarrow> pystr \<Rightarrow> pystr \<Rightarrow> ('s, 'p, (pystr \<times> int \<times> int \<times> json) list) call" where
  "dash_utxos_op fetch address base =
     (if is_blockbook base then dash_read fetch base (lit ''utxo/'' @ address) [] (jlist blockbook_row)
      else dash_read fetch base (lit ''addr/'' @ address @ lit ''/utxo'') [] (jlist insight_row))"

definition dash_utxo :: "pystr \<Rightarrow> bool \<Rightarrow> pystr \<times> int \<times> int \<times> json \<Rightarrow> py_error + utxo list" where
  "dash_utxo address include_unconfirmed row =
     (case row of (t, n, v, x) \<Rightarrow>
      bind_res (jfield_or x ''confirmations'' (JInt 0) jnum) (\<lambda>c.
        Inr (if 0 < c \<or> include_unconfirmed
             then [\<lparr>u_txid = t, u_vout = n, u_value = v, u_address = address, u_path = None, u_confirmed = 0 < c,
                   u_ancestor_deficit = 0\<rparr>]
             else [])))"

definition dash_fetch_utxos ::
  "'s getter \<Rightarrow> pystr \<Rightarrow> bool \<Rightarrow> failover \<Rightarrow> 's \<Rightarrow> ('p call_failure + utxo list) \<times> failover \<times> 's" where
  "dash_fetch_utxos fetch address include_unconfirmed fo s =
     (case on_any (dash_utxos_op fetch address) fo s of (r, rest) \<Rightarrow>
        (bind_res r (\<lambda>rows. bind_res (call_py (map_res (dash_utxo address include_unconfirmed) rows)) (\<lambda>us.
           Inr (concat us))), rest))"

definition dash_fetch_balance ::
  "'s getter \<Rightarrow> pystr \<Rightarrow> failover \<Rightarrow> 's \<Rightarrow> ('p call_failure + int) \<times> failover \<times> 's" where
  "dash_fetch_balance fetch address fo s =
     (case dash_address_info fetch address fo s of (r, rest) \<Rightarrow> (bind_res r (\<lambda>info. Inr (ai_confirmed info)), rest))"

definition dash_fetch_fee_rate :: "int \<Rightarrow> float64" where
  "dash_fetch_fee_rate target_blocks = DASH_FEE_RATE"

definition dash_wallet_balance ::
  "(pystr \<Rightarrow> pystr) \<Rightarrow> (pystr \<Rightarrow> address_info) \<Rightarrow> pystr \<Rightarrow> balance_report option" where
  "dash_wallet_balance derive probe account = wallet_balance_from_scan derive probe account (lit ''DASH'') 8"

section \<open>The history\<close>

text \<open>
  One page: its transactions, the total the explorer reports, if any, and the next cursor. Totals are
  compared as they were decoded; Insight's is a number, Blockbook's two fields.
\<close>

type_synonym ('s, 'p) page_fetch = "pystr \<Rightarrow> pystr \<Rightarrow> int option \<Rightarrow> ('s, 'p, tx_summary list \<times> json option \<times> int option) call"

fun insight_total :: "json \<Rightarrow> json option" where
  "insight_total (JInt n) = Some (JInt n)"
| "insight_total (JBool b) = Some (JInt (of_bool b))"
| "insight_total _ = None"

definition insight_page :: "py_libs \<Rightarrow> 's getter \<Rightarrow> ('s, 'p) page_fetch" where
  "insight_page pl fetch base address cursor =
     (let start = (case cursor of None \<Rightarrow> 0 | Some n \<Rightarrow> n) in
      dash_read fetch base (lit ''addrs/'' @ address @ lit ''/txs'')
        [(lit ''from'', JInt start), (lit ''to'', JInt (start + INSIGHT_TX_PAGE))] (\<lambda>body.
        bind_res (jget body (lit ''totalItems'')) (\<lambda>tot.
        bind_res (jget_or body (lit ''items'') (JList [])) (\<lambda>items.
        bind_res (jlist (parse_insight_tx pl) items) (\<lambda>txs.
          Inr (txs, insight_total tot, Some (start + int (length txs))))))))"

definition blockbook_page :: "'s getter \<Rightarrow> ('s, 'p) page_fetch" where
  "blockbook_page fetch base address cursor =
     (let number = (case cursor of None \<Rightarrow> 1 | Some n \<Rightarrow> if n = 0 then 1 else n) in
      dash_read fetch base (lit ''address/'' @ address)
        [(lit ''details'', JStr (lit ''txs'')), (lit ''page'', JInt number), (lit ''pageSize'', JInt BLOCKBOOK_TX_PAGE)]
        (\<lambda>body.
        bind_res (jget body (lit ''txs'')) (\<lambda>n.
        bind_res (jget_or body (lit ''unconfirmedTxs'') (JInt 0)) (\<lambda>u.
        bind_res (jint_or_0 body ''totalPages'') (\<lambda>pages.
        bind_res (jfield_or body ''transactions'' (JList []) (jlist parse_blockbook_tx)) (\<lambda>txs.
          Inr (txs, if n = JNull then None else Some (JList [n, u]),
               if number < pages \<or> pages = 0 then Some (number + 1) else None)))))))"

definition dash_page :: "py_libs \<Rightarrow> 's getter \<Rightarrow> ('s, 'p) page_fetch" where
  "dash_page pl fetch base = (if is_blockbook base then blockbook_page fetch base else insight_page pl fetch base)"

text \<open>
  The walk's page: the first total that is reported, and whether a later one disagreed with it, which
  ends the walk.
\<close>

type_synonym 's walked = "'s \<times> json option \<times> bool"

fun watched_page ::
  "('s, 'p) page_fetch \<Rightarrow> pystr \<Rightarrow> pystr \<Rightarrow> int option \<Rightarrow> 's walked \<Rightarrow> (int, 'p call_failure) page \<times> 's walked" where
  "watched_page fetch base address cursor (s, reported, raced) =
     (case fetch base address cursor s of
        (Inl (Down (GaveUp (RateLimited status))), s') \<Rightarrow> (Throttled, (s', reported, raced))
      | (Inl e, s') \<Rightarrow> (PageRaises e, (s', reported, raced))
      | (Inr (txs, tot, following), s') \<Rightarrow>
          (case tot of
             None \<Rightarrow> (Page txs following, (s', reported, raced))
           | Some t \<Rightarrow>
               (case reported of
                  None \<Rightarrow> (Page txs following, (s', Some t, raced))
                | Some first \<Rightarrow>
                    if t \<noteq> first then (Page [] None, (s', reported, True))
                    else (Page txs following, (s', reported, raced)))))"

definition walk_address ::
  "('s, 'p) page_fetch \<Rightarrow> pystr \<Rightarrow> pystr \<Rightarrow> nat \<Rightarrow> ('s, 'p, address_txs \<times> bool) call" where
  "walk_address fetch base address limit s =
     (case collect_pages (watched_page fetch base address) limit (s, None, False) of
        (Inl e, (s', _, _)) \<Rightarrow> (Inl e, s')
      | (Inr walked, (s', _, raced)) \<Rightarrow> (Inr (walked, raced), s'))"

fun walk_attempts ::
  "('s, 'p) page_fetch \<Rightarrow> pystr \<Rightarrow> nat \<Rightarrow> nat \<Rightarrow> address_txs \<Rightarrow> pystr \<Rightarrow> ('s, 'p, address_txs) call" where
  "walk_attempts fetch address limit 0 walked base s =
     (Inr \<lparr>at_transactions = at_transactions walked, at_truncated = True\<rparr>, s)"
| "walk_attempts fetch address limit (Suc n) walked base s =
     (case walk_address fetch base address limit s of
        (Inl e, s') \<Rightarrow> (Inl e, s')
      | (Inr (walked, raced), s') \<Rightarrow>
          if \<not> raced then (Inr walked, s') else walk_attempts fetch address limit n walked base s')"

definition dash_txs_op :: "('s, 'p) page_fetch \<Rightarrow> pystr \<Rightarrow> nat \<Rightarrow> pystr \<Rightarrow> ('s, 'p, address_txs) call" where
  "dash_txs_op fetch address limit =
     walk_attempts fetch address limit INSIGHT_WALK_ATTEMPTS \<lparr>at_transactions = [], at_truncated = False\<rparr>"

definition dash_address_txs ::
  "py_libs \<Rightarrow> 's getter \<Rightarrow> pystr \<Rightarrow> nat \<Rightarrow> failover \<Rightarrow> 's \<Rightarrow> ('p call_failure + address_txs) \<times> failover \<times> 's" where
  "dash_address_txs pl fetch address limit = on_any (dash_txs_op (dash_page pl fetch) address limit)"

section \<open>Broadcast\<close>

text \<open>
  What is posted: the raw text to Blockbook, a JSON object to Insight. A POST ends in a transient
  transport failure, another exception or a response.
\<close>

datatype posted = PostData pystr | PostJson "(pystr \<times> json) list"

type_synonym ('s, 'p) poster = "pystr \<Rightarrow> posted \<Rightarrow> 's \<Rightarrow> ((nat + 'p exn) + response) \<times> 's"

definition send_request :: "pystr \<Rightarrow> pystr \<Rightarrow> pystr \<times> posted" where
  "send_request base raw =
     (if is_blockbook base then (base @ lit ''/sendtx/'', PostData raw)
      else (base @ lit ''/tx/send'', PostJson [(lit ''rawtx'', JStr raw)]))"

text \<open>What an endpoint says of the transaction it was sent; \<open>Refused\<close> is the broadcast error of the code.\<close>

datatype ('p) send_failure = SendDown down | SendRaised "'p exn" | Refused pystr json

definition says_already :: "response \<Rightarrow> bool" where
  "says_already resp \<longleftrightarrow> 400 \<le> rs_status resp \<and> py_in (lit ''already'') (py_lower (rs_text resp))"

definition sent_field :: "pystr \<Rightarrow> json \<Rightarrow> 'p send_failure + json" where
  "sent_field base body =
     (case jget body (if is_blockbook base then lit ''result'' else lit ''txid'') of
        Inl e \<Rightarrow> Inl (SendRaised (PyExn e))
      | Inr sent \<Rightarrow> if json_truthy sent then Inr sent else Inl (Refused base body))"

definition read_sent :: "pystr \<Rightarrow> pystr \<Rightarrow> response \<Rightarrow> 'p send_failure + json" where
  "read_sent local_txid base resp =
     (if says_already resp then Inr (JStr local_txid)
      else if 500 \<le> rs_status resp then Inl (SendDown (ServerError (rs_status resp)))
      else if 400 \<le> rs_status resp then Inl (SendRaised HttpError)
      else case rs_json resp of None \<Rightarrow> Inl (SendRaised HttpError) | Some body \<Rightarrow> sent_field base body)"

definition send_op ::
  "('s, 'p) poster \<Rightarrow> pystr \<Rightarrow> pystr \<Rightarrow> pystr \<Rightarrow> 's \<Rightarrow> ('p send_failure + json) \<times> 's" where
  "send_op post raw local_txid base s =
     (case post (fst (send_request base raw)) (snd (send_request base raw)) s of
        (Inl (Inl e), s') \<Rightarrow> (Inl (SendDown (PostFailed e)), s')
      | (Inl (Inr exc), s') \<Rightarrow> (Inl (SendRaised exc), s')
      | (Inr resp, s') \<Rightarrow> (read_sent local_txid base resp, s'))"

text \<open>
  \<open>_on_any\<close> over the endpoints, with the flag \<open>uncertain\<close> that a transient failure sets; a failure
  carries whether the transaction may have been relayed all the same.
\<close>

datatype 'p broadcast_failure = NotSent "'p send_failure" | MaybeSent pystr "'p send_failure"

fun send_loop ::
  "('s, 'p) poster \<Rightarrow> pystr \<Rightarrow> pystr \<Rightarrow> bool \<Rightarrow> pystr list \<Rightarrow> 's \<Rightarrow> (('p send_failure \<times> bool) + (json \<times> pystr)) \<times> 's"
where
  "send_loop post raw local_txid uncertain [] s = (Inl (SendRaised RuntimeError, uncertain), s)"
| "send_loop post raw local_txid uncertain (base # rest) s =
     (case send_op post raw local_txid base s of
        (Inr sent, s') \<Rightarrow> (Inr (sent, base), s')
      | (Inl (SendDown d), s') \<Rightarrow>
          if rest = [] then (Inl (SendDown d, True), s') else send_loop post raw local_txid True rest s'
      | (Inl e, s') \<Rightarrow> (Inl (e, uncertain), s'))"

definition local_txid_of :: "(bytes \<Rightarrow> bytes) \<Rightarrow> bytes \<Rightarrow> pystr" where
  "local_txid_of sha256 raw = py_hex (rev (sha256 (sha256 raw)))"

definition broadcast_one ::
  "(bytes \<Rightarrow> bytes) \<Rightarrow> ('s, 'p) poster \<Rightarrow> pystr \<Rightarrow> failover \<Rightarrow> 's
   \<Rightarrow> ('p broadcast_failure + json) \<times> failover \<times> 's" where
  "broadcast_one sha256 post raw fo s =
     (case py_fromhex raw of
        None \<Rightarrow> (Inl (NotSent (SendRaised (PyExn ValueError))), fo, s)
      | Some bs \<Rightarrow>
          let local_txid = local_txid_of sha256 bs in
          case send_loop post raw local_txid False (ordered fo) s of
            (Inr (sent, base), s') \<Rightarrow> (Inr sent, fo\<lparr>fo_base_url := base\<rparr>, s')
          | (Inl (e, uncertain), s') \<Rightarrow>
              (Inl (if uncertain then MaybeSent local_txid e else NotSent e), fo, s'))"

fun dash_broadcast ::
  "(bytes \<Rightarrow> bytes) \<Rightarrow> ('s, 'p) poster \<Rightarrow> json \<Rightarrow> pystr list \<Rightarrow> failover \<Rightarrow> 's
   \<Rightarrow> ('p broadcast_failure + json) \<times> failover \<times> 's" where
  "dash_broadcast sha256 post txid [] fo s = (Inr txid, fo, s)"
| "dash_broadcast sha256 post txid (raw # raws) fo s =
     (case broadcast_one sha256 post raw fo s of
        (Inl e, rest) \<Rightarrow> (Inl e, rest)
      | (Inr sent, fo', s') \<Rightarrow> dash_broadcast sha256 post sent raws fo' s')"

section \<open>What a broadcast says\<close>

text \<open>The same endpoints in a world that keeps what was posted and what was answered.\<close>

type_synonym 'p post_answer = "(nat + 'p exn) + response"

definition post_log ::
  "('s, 'p) poster \<Rightarrow> ('s \<times> ((pystr \<times> posted) \<times> 'p post_answer) list, 'p) poster" where
  "post_log post url body w = (case w of (s, told) \<Rightarrow> case post url body s of (r, s') \<Rightarrow> (r, (s', told @ [((url, body), r)])))"

definition ambiguous :: "'p post_answer \<Rightarrow> bool" where
  "ambiguous a =
     (case a of
        Inl (Inl e) \<Rightarrow> True | Inl (Inr exc) \<Rightarrow> False
      | Inr resp \<Rightarrow> 500 \<le> rs_status resp \<and> \<not> says_already resp)"

definition confirms :: "pystr \<Rightarrow> pystr \<Rightarrow> json \<Rightarrow> 'p post_answer \<Rightarrow> bool" where
  "confirms local_txid base sent a =
     (case a of Inl e \<Rightarrow> False | Inr resp \<Rightarrow> read_sent local_txid base resp = (Inr sent :: 'p send_failure + json))"

lemma send_op_log:
  fixes post :: "('s, 'p) poster"
  shows "send_op (post_log post) raw t base (s, told) = (r, (s', told')) \<Longrightarrow>
     \<exists>a. told' = told @ [(send_request base raw, a)]
       \<and> (case r of
            Inr sent \<Rightarrow> confirms t base sent a
          | Inl e \<Rightarrow> ambiguous a \<longleftrightarrow> (\<exists>d. e = SendDown d))"
proof -
  assume run: "send_op (post_log post) raw t base (s, told) = (r, (s', told'))"
  obtain a s1 where a: "post (fst (send_request base raw)) (snd (send_request base raw)) s = (a, s1)" by fastforce
  show ?thesis
  proof (cases a)
    case (Inl e)
    then show ?thesis using run a
      by (cases e) (auto simp: send_op_def post_log_def ambiguous_def)
  next
    case (Inr resp)
    then have r: "r = read_sent t base resp" "told' = told @ [(send_request base raw, a)]"
      using run a by (auto simp: send_op_def post_log_def)
    have "(\<exists>d. read_sent t base resp = Inl (SendDown d :: 'p send_failure)) \<longleftrightarrow> ambiguous a"
      by (auto simp: read_sent_def sent_field_def ambiguous_def Inr split: option.split sum.split)
    then show ?thesis using r by (auto simp: confirms_def Inr split: sum.splits)
  qed
qed

lemma send_loop_log:
  assumes "send_loop (post_log post) raw t uncertain bases (s, told) = (r, (s', told'))" "bases \<noteq> []"
  shows "\<exists>asked answers. prefix asked bases \<and> asked \<noteq> [] \<and> length answers = length asked
    \<and> told' = told @ zip (map (\<lambda>base. send_request base raw) asked) answers
    \<and> list_all ambiguous (butlast answers)
    \<and> (case r of
         Inr (sent, base) \<Rightarrow> base = last asked \<and> confirms t base sent (last answers)
       | Inl (e, u) \<Rightarrow> u = (uncertain \<or> list_ex ambiguous answers) \<and> (\<not> ambiguous (last answers) \<or> asked = bases))"
  using assms
proof (induction bases arbitrary: uncertain s told)
  case Nil
  then show ?case by simp
next
  case (Cons base rest)
  obtain ra s1 told1 where op: "send_op (post_log post) raw t base (s, told) = (ra, (s1, told1))"
    using prod_cases3 by blast
  obtain a where told1: "told1 = told @ [(send_request base raw, a)]"
    and ra: "case ra of Inr sent \<Rightarrow> confirms t base sent a | Inl e \<Rightarrow> ambiguous a \<longleftrightarrow> (\<exists>d. e = SendDown d)"
    using send_op_log [OF op] by blast
  show ?case
  proof (cases "\<exists>d. ra = Inl (SendDown d) \<and> rest \<noteq> []")
    case True
    then have amb: "ambiguous a" using ra by auto
    from True have "send_loop (post_log post) raw t True rest (s1, told1) = (r, (s', told'))"
      using Cons.prems(1) op by auto
    from Cons.IH [OF this] True obtain asked answers where ih: "prefix asked rest" "asked \<noteq> []"
      "length answers = length asked"
      "told' = told1 @ zip (map (\<lambda>base. send_request base raw) asked) answers" "list_all ambiguous (butlast answers)"
      "case r of Inr (sent, base) \<Rightarrow> base = last asked \<and> confirms t base sent (last answers)
       | Inl (e, u) \<Rightarrow> u = (True \<or> list_ex ambiguous answers) \<and> (\<not> ambiguous (last answers) \<or> asked = rest)"
      by blast
    then have "answers \<noteq> []" by auto
    with ih amb told1 show ?thesis
      by (intro exI [of _ "base # asked"] exI [of _ "a # answers"]) (auto split: sum.splits)
  next
    case False
    with Cons.prems(1) op have r: "(r, (s', told')) = (case ra of Inr sent \<Rightarrow> Inr (sent, base)
        | Inl e \<Rightarrow> Inl (e, uncertain \<or> (\<exists>d. e = SendDown d)), (s1, told1))"
      by (auto split: sum.splits send_failure.splits if_splits)
    show ?thesis
      using ra told1 r False
      by (intro exI [of _ "[base]"] exI [of _ "[a]"]) (auto split: sum.splits)
  qed
qed

text \<open>
  C27: A failed Dash broadcast never passes off a transaction that may be on its way as one that was
  not sent. Each endpoint, from the pinned one on, is posted the same transaction at most once, and
  another is asked only after one that was ambiguous: a transient transport failure, or a status of
  500 or more that does not say the transaction is already known. A success is what the last endpoint
  asked confirms, and that endpoint is pinned. An error without the warning means that exactly one
  endpoint was asked and its answer was not ambiguous; with the warning, which names the transaction
  id, some endpoint was.
\<close>

theorem dash_broadcast_honest:
  assumes run: "broadcast_one sha256 (post_log post) raw fo (s, []) = (r, fo', (s', told))"
    and raw: "py_fromhex raw = Some bs" and endpoints: "fo_candidates fo \<noteq> []"
  shows "\<exists>asked answers. prefix asked (ordered fo) \<and> asked \<noteq> [] \<and> length answers = length asked
    \<and> told = zip (map (\<lambda>base. send_request base raw) asked) answers
    \<and> list_all ambiguous (butlast answers)
    \<and> (case r of
         Inr sent \<Rightarrow> fo_base_url fo' = last asked
           \<and> confirms (local_txid_of sha256 bs) (last asked) sent (last answers)
       | Inl (MaybeSent t e) \<Rightarrow> t = local_txid_of sha256 bs \<and> list_ex ambiguous answers
       | Inl (NotSent e) \<Rightarrow> length answers = 1 \<and> \<not> list_ex ambiguous answers)"
proof -
  let ?t = "local_txid_of sha256 bs"
  obtain rl w where loop: "send_loop (post_log post) raw ?t False (ordered fo) (s, []) = (rl, w)" by (meson surj_pair)
  with run raw have w: "w = (s', told)"
    and r: "r = (case rl of Inr (sent, base) \<Rightarrow> Inr sent
      | Inl (e, u) \<Rightarrow> Inl (if u then MaybeSent ?t e else NotSent e))"
    and fo': "fo' = (case rl of Inr (sent, base) \<Rightarrow> fo\<lparr>fo_base_url := base\<rparr> | Inl eu \<Rightarrow> fo)"
    by (auto simp: broadcast_one_def Let_def split: sum.splits prod.splits)
  have "ordered fo \<noteq> []" using endpoints length_ordered [of fo] by auto
  from send_loop_log [OF loop [unfolded w] this] obtain asked answers where
    l: "prefix asked (ordered fo)" "asked \<noteq> []" "length answers = length asked"
      "told = zip (map (\<lambda>base. send_request base raw) asked) answers" "list_all ambiguous (butlast answers)"
      "case rl of Inr (sent, base) \<Rightarrow> base = last asked \<and> confirms ?t base sent (last answers)
       | Inl (e, u) \<Rightarrow> u = (False \<or> list_ex ambiguous answers) \<and> (\<not> ambiguous (last answers) \<or> asked = ordered fo)"
    unfolding append_Nil by blast
  have one: "length answers = 1" if "\<not> list_ex ambiguous answers"
  proof -
    have "butlast answers = []"
      using l(5) that by (cases "butlast answers") (auto simp: list_ex_iff dest: in_set_butlastD, metis in_set_butlastD list.set_intros(1))
    moreover have "answers \<noteq> []" using l(2,3) by auto
    ultimately show ?thesis by (cases answers rule: rev_cases) auto
  qed
  show ?thesis
    using l one by (intro exI [of _ asked] exI [of _ answers]) (auto simp: r fo' split: sum.splits prod.splits)
qed

section \<open>What a history rests on\<close>

text \<open>The same pages in a world that keeps what was answered for them.\<close>

type_synonym 'p page_answer = "'p call_failure + (tx_summary list \<times> json option \<times> int option)"

definition page_log :: "('s, 'p) page_fetch \<Rightarrow> ('s \<times> 'p page_answer list, 'p) page_fetch" where
  "page_log fetch base address cursor w =
     (case w of (s, told) \<Rightarrow> case fetch base address cursor s of (r, s') \<Rightarrow> (r, (s', told @ [r])))"

definition txids_of :: "(tx_summary list \<times> json option \<times> int option) list \<Rightarrow> pystr set" where
  "txids_of pages = ts_txid ` set (concat (map fst pages))"

definition same_total :: "json option \<Rightarrow> (tx_summary list \<times> json option \<times> int option) list \<Rightarrow> bool" where
  "same_total tot pages \<longleftrightarrow> list_all (\<lambda>(txs, t, c). t = None \<or> t = tot) pages"

text \<open>
  A walk that starts with some transactions and the first total, if one was reported: it asks for a
  bounded number of pages, and if it was neither raced nor cut short, it holds what was on all of them.
\<close>

definition walked_pages ::
  "nat \<Rightarrow> tx_summary list \<Rightarrow> json option \<Rightarrow> 'p page_answer list \<Rightarrow> 'e + address_txs \<Rightarrow> json option \<times> bool \<Rightarrow> bool" where
  "walked_pages limit txs reported got r fin \<longleftrightarrow>
     length got \<le> max 1 (limit - length txs)
     \<and> (case r of Inl e \<Rightarrow> True
        | Inr a \<Rightarrow> \<not> at_truncated a \<and> \<not> snd fin \<longrightarrow>
            (\<exists>pages. got = map Inr pages \<and> same_total (fst fin) pages \<and> (reported = None \<or> fst fin = reported)
              \<and> ts_txid ` set (at_transactions a) = ts_txid ` set txs \<union> txids_of pages))"

lemma walked_step:
  assumes "walked_pages limit (txs @ unseen (ts_txid ` set txs) ts) reported' got r fin"
    and "unseen (ts_txid ` set txs) ts \<noteq> []" "length (txs @ unseen (ts_txid ` set txs) ts) < limit"
    and "tot = None \<and> reported' = reported \<or> tot = reported' \<and> reported' \<noteq> None \<and> (reported = None \<or> reported = reported')"
  shows "walked_pages limit txs reported (Inr (ts, tot, c) # got) r fin"
proof -
  let ?u = "unseen (ts_txid ` set txs) ts"
  have "0 < length ?u" using assms(2) by simp
  then have "Suc (max 1 (limit - length (txs @ ?u))) \<le> max 1 (limit - length txs)"
    using assms(3) unfolding length_append by linarith
  moreover have "length got \<le> max 1 (limit - length (txs @ ?u))"
    using assms(1) unfolding walked_pages_def by blast
  ultimately have len: "length (Inr (ts, tot, c) # got) \<le> max 1 (limit - length txs)"
    unfolding list.size by linarith
  show ?thesis
  proof (cases r)
    case (Inr a)
    have "\<exists>pages. Inr (ts, tot, c) # got = map Inr pages \<and> same_total (fst fin) pages
        \<and> (reported = None \<or> fst fin = reported)
        \<and> ts_txid ` set (at_transactions a) = ts_txid ` set txs \<union> txids_of pages"
      if ok: "\<not> at_truncated a \<and> \<not> snd fin"
    proof -
      from assms(1) ok obtain pages where p: "got = map Inr pages" "same_total (fst fin) pages"
        "reported' = None \<or> fst fin = reported'"
        "ts_txid ` set (at_transactions a) = ts_txid ` set (txs @ ?u) \<union> txids_of pages"
        by (auto simp: walked_pages_def Inr)
      have "ts_txid ` set (txs @ ?u) = ts_txid ` (set txs \<union> set ts)" using unseen_union [of txs ts] by simp
      with p assms(4) show ?thesis
        by (intro exI [of _ "(ts, tot, c) # pages"]) (auto simp: same_total_def txids_of_def)
    qed
    with len show ?thesis by (simp add: walked_pages_def Inr)
  qed (use len in \<open>simp add: walked_pages_def\<close>)
qed

lemma walk_loop_pages:
  "collect_loop (watched_page (page_log fetch) base address) limit (ts_txid ` set txs) txs cursor
      ((s, told), reported, False) = (r, ((s', told'), reported', raced'))
   \<Longrightarrow> \<exists>got. told' = told @ got \<and> walked_pages limit txs reported got r (reported', raced')"
proof (induction "limit - length txs" arbitrary: txs cursor s told reported rule: less_induct)
  case less
  let ?F = "watched_page (page_log fetch) base address"
  obtain x u where f: "fetch base address cursor s = (x, u)" by fastforce
  note unf = less.prems [unfolded collect_loop.simps [of ?F limit _ txs]]
  show ?case
  proof (cases x)
    case (Inl e)
    then have "told' = told @ [x] \<and> (\<forall>a. r = Inr a \<longrightarrow> at_truncated a)"
      using unf f
      by (auto simp: page_log_def split: call_failure.splits down.splits give_up.splits)
    then show ?thesis by (intro exI [of _ "[x]"]) (auto simp: walked_pages_def split: sum.split)
  next
    case (Inr y)
    obtain ts tot c where y: "y = (ts, tot, c)" using prod_cases3 by blast
    show ?thesis
    proof (cases "tot \<noteq> None \<and> reported \<noteq> None \<and> tot \<noteq> reported")
      case True
      then have "told' = told @ [x] \<and> raced'"
        using unf f by (auto simp: page_log_def Inr y unseen_def Let_def split: if_splits)
      then show ?thesis by (intro exI [of _ "[x]"]) (auto simp: walked_pages_def split: sum.split)
    next
      case False
      define rep where "rep = (if tot = None then reported else tot)"
      let ?u = "unseen (ts_txid ` set txs) ts"
      have page: "?F cursor ((s, told), reported, False) = (Page ts c, ((u, told @ [x]), rep, False))"
        using f False by (auto simp: page_log_def Inr y rep_def split: option.splits)
      have rep: "tot = None \<and> rep = reported \<or> tot = rep \<and> rep \<noteq> None \<and> (reported = None \<or> reported = rep)"
        using False by (auto simp: rep_def)
      note res = unf [unfolded page, simplified, unfolded Let_def]
      show ?thesis
      proof (cases "limit \<le> length (txs @ ?u)")
        case True
        then have "told' = told @ [x] \<and> (\<forall>a. r = Inr a \<longrightarrow> at_truncated a)" using res by auto
        then show ?thesis by (intro exI [of _ "[x]"]) (auto simp: walked_pages_def split: sum.split)
      next
        case room: False
        show ?thesis
        proof (cases "c = None \<or> ?u = []")
          case True
          then have "r = Inr \<lparr>at_transactions = txs @ ?u, at_truncated = False\<rparr> \<and> told' = told @ [x]
              \<and> reported' = rep \<and> \<not> raced'"
            using res room by auto
          moreover have "ts_txid ` (set txs \<union> set ?u) = ts_txid ` (set txs \<union> set ts)" by (rule unseen_union)
          ultimately show ?thesis using rep
            by (intro exI [of _ "[x]"])
               (auto simp: walked_pages_def same_total_def txids_of_def Inr y intro!: exI [of _ "[(ts, tot, c)]"])
        next
          case more: False
          then have rec: "collect_loop ?F limit (ts_txid ` set (txs @ ?u)) (txs @ ?u) c ((u, told @ [x]), rep, False)
              = (r, ((s', told'), reported', raced'))"
            using res room by (auto simp: image_Un)
          have "0 < length ?u" using more by simp
          then have "limit - length (txs @ ?u) < limit - length txs"
            using room unfolding length_append by linarith
          from less.hyps [OF this rec] obtain got where
            "told' = (told @ [x]) @ got" "walked_pages limit (txs @ ?u) rep got r (reported', raced')" by blast
          then show ?thesis using walked_step [of limit txs ts rep got r _ tot reported c] rep more room
            by (intro exI [of _ "x # got"]) (auto simp: Inr y)
        qed
      qed
    qed
  qed
qed


lemma walk_address_pages:
  assumes "walk_address (page_log fetch) base address limit (s, told) = (r, (s', told'))"
  shows "\<exists>got. told' = told @ got \<and> length got \<le> max 1 limit
    \<and> (\<forall>a. r = Inr (a, False) \<and> \<not> at_truncated a \<longrightarrow>
         (\<exists>pages tot. got = map Inr pages \<and> same_total tot pages
            \<and> ts_txid ` set (at_transactions a) = txids_of pages))"
proof -
  obtain rl s1 told1 rep raced where loop:
    "collect_loop (watched_page (page_log fetch) base address) limit (ts_txid ` set ([] :: tx_summary list)) [] None
        ((s, told), None, False) = (rl, ((s1, told1), rep, raced))"
    by (metis surj_pair)
  with assms have w: "s1 = s'" "told1 = told'" and r: "r = (case rl of Inl e \<Rightarrow> Inl e | Inr a \<Rightarrow> Inr (a, raced))"
    by (auto simp: walk_address_def collect_pages_def split: sum.splits)
  from walk_loop_pages [OF loop] obtain got where "told1 = told @ got" "walked_pages limit [] None got rl (rep, raced)"
    by blast
  then show ?thesis
    by (intro exI [of _ got]) (auto simp: walked_pages_def w r split: sum.splits)
qed

lemma walk_attempts_pages:
  assumes "walk_attempts (page_log fetch) address limit n walked base (s, told) = (r, (s', told'))"
  shows "\<exists>got. told' = told @ got \<and> length got \<le> n * max 1 limit
    \<and> (\<forall>a. r = Inr a \<and> \<not> at_truncated a \<longrightarrow>
         (\<exists>before pages tot. got = before @ map Inr pages \<and> same_total tot pages
            \<and> ts_txid ` set (at_transactions a) = txids_of pages))"
  using assms
proof (induction n arbitrary: walked s told)
  case 0
  then show ?case by auto
next
  case (Suc n)
  obtain rl s1 told1 where walk: "walk_address (page_log fetch) base address limit (s, told) = (rl, (s1, told1))"
    using prod_cases3 by blast
  from walk_address_pages [OF walk] obtain first where first: "told1 = told @ first" "length first \<le> max 1 limit"
    "\<forall>a. rl = Inr (a, False) \<and> \<not> at_truncated a \<longrightarrow> (\<exists>pages tot. first = map Inr pages \<and> same_total tot pages
        \<and> ts_txid ` set (at_transactions a) = txids_of pages)"
    by blast
  show ?case
  proof (cases "\<exists>a. rl = Inr (a, True)")
    case True
    then obtain a where "walk_attempts (page_log fetch) address limit n a base (s1, told1) = (r, (s', told'))"
      using Suc.prems walk by auto
    from Suc.IH [OF this] obtain got where got: "told' = told1 @ got" "length got \<le> n * max 1 limit"
      "\<forall>a. r = Inr a \<and> \<not> at_truncated a \<longrightarrow> (\<exists>before pages tot. got = before @ map Inr pages \<and> same_total tot pages
          \<and> ts_txid ` set (at_transactions a) = txids_of pages)"
      by blast
    show ?thesis
    proof (rule exI [of _ "first @ got"], intro conjI allI impI)
      show "told' = told @ first @ got" "length (first @ got) \<le> Suc n * max 1 limit"
        using first(1,2) got(1,2) by simp_all
      fix a assume "r = Inr a \<and> \<not> at_truncated a"
      with got(3) obtain before pages tot where "got = before @ map Inr pages" "same_total tot pages"
        "ts_txid ` set (at_transactions a) = txids_of pages" by blast
      then show "\<exists>before pages tot. first @ got = before @ map Inr pages \<and> same_total tot pages
          \<and> ts_txid ` set (at_transactions a) = txids_of pages"
        by (intro exI [of _ "first @ before"] exI [of _ pages] exI [of _ tot]) simp
    qed
  next
    case False
    with Suc.prems walk have "told1 = told'" "\<And>a. r = Inr a \<Longrightarrow> rl = Inr (a, False)"
      by (auto split: sum.splits if_splits)
    with first show ?thesis
      by (intro exI [of _ first]) (auto intro: order_trans exI [of _ "[]"])
  qed
qed

text \<open>
  C28: A Dash history that is not marked as cut short has no hole from a list that moved. The walk on
  an endpoint asks for a bounded number of pages, three walks at most; and what it then returns has
  exactly the transactions of the pages of its last walk, every one of which was answered, and all
  of which that reported a total reported the same one. A walk that saw the total change is thrown
  away, and the last of them is marked.
\<close>

theorem dash_history_unmoved:
  assumes "dash_txs_op (page_log fetch) address limit base (s, []) = (r, (s', told))"
  shows "length told \<le> 3 * max 1 limit
    \<and> (\<forall>a. r = Inr a \<and> \<not> at_truncated a \<longrightarrow>
         (\<exists>before pages tot. told = before @ map Inr pages \<and> same_total tot pages
            \<and> ts_txid ` set (at_transactions a) = txids_of pages))"
  using walk_attempts_pages [OF assms [unfolded dash_txs_op_def]] by (simp add: INSIGHT_WALK_ATTEMPTS_def)

section \<open>Examples\<close>

text \<open>An amount whose nearest binary double, times 1e8, is below it; a walk that is raced once.\<close>

lemma duffs_exact: "duffs_of pl (JStr (lit ''0.001495'')) = Inr 149500"
proof -
  have strip: "py_strip (lit ''0.001495'') = lit ''0.001495''" by (simp add: py_strip_def py_space_def lit_def)
  have "py_decimal (lit ''0.001495'') = Some (1495, - 6)" unfolding py_decimal_def strip by code_simp
  moreover have "half_up (decimal_round (1495 * DUFFS, - 6)) = 149500" by code_simp
  ultimately show ?thesis by (simp add: duffs_of_def lit_def)
qed

definition ex_dash_tx :: "string \<Rightarrow> tx_summary" where
  "ex_dash_tx t = \<lparr>ts_txid = lit t, ts_confirmed = True, ts_block_height = None, ts_fee = 0, ts_vsize = 0,
     ts_inputs = [], ts_outputs = [], ts_block_time = None\<rparr>"

definition ex_dash_pages :: "(nat, unit) page_fetch" where
  "ex_dash_pages base address cursor n =
     (Inr (if n = 0 then ([ex_dash_tx ''b''], Some (JInt 2), Some 1)
           else if n = 1 then ([ex_dash_tx ''b''], Some (JInt 3), Some 2)
           else if n = 2 then ([ex_dash_tx ''c''], Some (JInt 3), Some 1)
           else ([ex_dash_tx ''b'', ex_dash_tx ''a''], Some (JInt 3), None)), Suc n)"

lemma ex_dash_walks:
  "walk_address (page_log ex_dash_pages) [] [] 10 (0, [])
     = (Inr (\<lparr>at_transactions = [ex_dash_tx ''b''], at_truncated = False\<rparr>, True),
        (2, [fst (ex_dash_pages [] [] None 0), fst (ex_dash_pages [] [] None 1)]))"
  "walk_address (page_log ex_dash_pages) [] [] 10 (2, [fst (ex_dash_pages [] [] None 0), fst (ex_dash_pages [] [] None 1)])
     = (Inr (\<lparr>at_transactions = map ex_dash_tx [''c'', ''b'', ''a''], at_truncated = False\<rparr>, False),
        (4, map (\<lambda>n. fst (ex_dash_pages [] [] None n)) [0, 1, 2, 3]))"
  by code_simp+

lemma dash_history_unmoved_witness:
  "\<exists>a told before pages tot. dash_txs_op (page_log ex_dash_pages) [] 10 [] (0, []) = (Inr a, (4, told))
     \<and> length told = 4 \<and> told = before @ map Inr pages \<and> same_total tot pages
     \<and> {lit ''a'', lit ''b'', lit ''c''} = txids_of pages"
proof -
  define a where "a = \<lparr>at_transactions = map ex_dash_tx [''c'', ''b'', ''a''], at_truncated = False\<rparr>"
  define told where "told = map (\<lambda>n. fst (ex_dash_pages [] [] None n)) [0, 1, 2, 3]"
  have three: "INSIGHT_WALK_ATTEMPTS = Suc (Suc (Suc 0))" by (simp add: INSIGHT_WALK_ATTEMPTS_def)
  have run: "dash_txs_op (page_log ex_dash_pages) [] 10 [] (0, []) = (Inr a, (4, told))"
    unfolding dash_txs_op_def three walk_attempts.simps a_def told_def
    by (simp add: ex_dash_walks [unfolded One_nat_def])
  have a: "length told = 4" "\<not> at_truncated a" "ts_txid ` set (at_transactions a) = {lit ''a'', lit ''b'', lit ''c''}"
    by (auto simp: a_def told_def ex_dash_tx_def)
  from dash_history_unmoved [OF run] a(2) obtain before pages tot where "told = before @ map Inr pages"
    "same_total tot pages" "ts_txid ` set (at_transactions a) = txids_of pages" by blast
  with run a show ?thesis by metis
qed

text \<open>An endpoint that is down, then one that knows the transaction already.\<close>

definition ex_dash_post :: "(nat, unit) poster" where
  "ex_dash_post url body n =
     (if n = 0 then Inl (Inl 7) else Inr \<lparr>rs_status = 400, rs_text = lit ''Already in chain'', rs_json = None\<rparr>, Suc n)"

definition ex_dash_client :: failover where
  "ex_dash_client = \<lparr>fo_candidates = [lit ''https://a/api'', lit ''https://b/api/v2''], fo_base_url = lit ''https://a/api''\<rparr>"

lemma ex_dash_sends:
  "send_op (post_log ex_dash_post) (lit ''0102'') (lit ''0201'') (lit ''https://a/api'') (0, [])
     = (Inl (SendDown (PostFailed 7)), (1, [(send_request (lit ''https://a/api'') (lit ''0102''), Inl (Inl 7))]))"
  "send_op (post_log ex_dash_post) (lit ''0102'') (lit ''0201'') (lit ''https://b/api/v2'') (1, t)
     = (Inr (JStr (lit ''0201'')), (2, t @ [(send_request (lit ''https://b/api/v2'') (lit ''0102''),
         Inr \<lparr>rs_status = 400, rs_text = lit ''Already in chain'', rs_json = None\<rparr>)]))"
proof -
  show "send_op (post_log ex_dash_post) (lit ''0102'') (lit ''0201'') (lit ''https://a/api'') (0, [])
     = (Inl (SendDown (PostFailed 7)), (1, [(send_request (lit ''https://a/api'') (lit ''0102''), Inl (Inl 7))]))"
    by (simp add: send_op_def post_log_def ex_dash_post_def)
  have "py_in (lit ''already'') (py_lower (lit ''Already in chain''))" by code_simp
  then show "send_op (post_log ex_dash_post) (lit ''0102'') (lit ''0201'') (lit ''https://b/api/v2'') (1, t)
     = (Inr (JStr (lit ''0201'')), (2, t @ [(send_request (lit ''https://b/api/v2'') (lit ''0102''),
         Inr \<lparr>rs_status = 400, rs_text = lit ''Already in chain'', rs_json = None\<rparr>)]))"
    by (simp add: send_op_def post_log_def ex_dash_post_def read_sent_def says_already_def)
qed

lemma dash_broadcast_honest_witness:
  "\<exists>fo told. broadcast_one id (post_log ex_dash_post) (lit ''0102'') ex_dash_client (0, [])
      = (Inr (JStr (lit ''0201'')), fo, (2, told))
    \<and> fo_base_url fo = lit ''https://b/api/v2''"
proof -
  have raw: "py_fromhex (lit ''0102'') = Some [1, 2]" and txid: "local_txid_of id [1, 2] = lit ''0201''"
    by code_simp+
  have ord: "ordered ex_dash_client = [lit ''https://a/api'', lit ''https://b/api/v2'']"
    by (simp add: ordered_def ex_dash_client_def)
  obtain fo told where run: "broadcast_one id (post_log ex_dash_post) (lit ''0102'') ex_dash_client (0, [])
      = (Inr (JStr (lit ''0201'')), fo, (2, told))" and len: "length told = 2"
    by (simp add: broadcast_one_def raw txid ord Let_def ex_dash_sends [unfolded One_nat_def])
  have "fo_candidates ex_dash_client \<noteq> []" by (simp add: ex_dash_client_def)
  from dash_broadcast_honest [OF run raw this] obtain asked got where "prefix asked (ordered ex_dash_client)"
    "length got = length asked" "told = zip (map (\<lambda>base. send_request base (lit ''0102'')) asked) got"
    "fo_base_url fo = last asked"
    by auto
  moreover from this len have "length asked = 2" by simp
  ultimately have "fo_base_url fo = lit ''https://b/api/v2''"
    unfolding ord by (auto simp: prefix_Cons numeral_2_eq_2)
  with run show ?thesis by blast
qed

end
