(* ===== verification/PyFormat.thy ===== *)
theory PyFormat
  imports PyFloat PyText
begin

text \<open>
  Formatting as the printed sheets use it: \<open>+\<close>, \<open>*\<close> and \<open>/\<close> of floats, \<open>f"{x:.nf}"\<close> (the exact
  decimal value of the float, rounded half to even), joining, padding and stripping of text, and
  \<open>time.strftime("%Y-%m-%d %H:%M", time.gmtime(t))\<close>. The main fact is \<open>fixed_of_units\<close>: an amount
  of base units below \<open>2^51\<close> in magnitude, divided by a power of ten as a float and printed with
  that many decimals, reads as exactly the amount that went in. A zero of the model has no sign.
\<close>

section \<open>Float arithmetic\<close>

fun fl_add :: "float64 \<Rightarrow> float64 \<Rightarrow> float64" where
  "fl_add (Flt a b) (Flt c d) =
     (let k = min b d in fl_round (a * 2 ^ nat (b - k) + c * 2 ^ nat (d - k)) k)"

fun fl_mul :: "float64 \<Rightarrow> float64 \<Rightarrow> float64" where
  "fl_mul (Flt a b) (Flt c d) = fl_round (a * c) (b + d)"

text \<open>\<open>x / y\<close> for \<open>y \<noteq> 0\<close>: the mantissas are divided as integers, one rounding in all.\<close>

fun fl_div :: "float64 \<Rightarrow> float64 \<Rightarrow> float64" where
  "fl_div (Flt a b) (Flt c d) =
     (case fl_div_int (a * sgn c) \<bar>c\<bar> of Flt m e \<Rightarrow> Flt m (e + b - d))"

fun fl_neg :: "float64 \<Rightarrow> float64" where
  "fl_neg (Flt m e) = Flt (- m) e"

definition fl_sub :: "float64 \<Rightarrow> float64 \<Rightarrow> float64" where
  "fl_sub x y = fl_add x (fl_neg y)"

fun fl_zero :: "float64 \<Rightarrow> bool" where
  "fl_zero (Flt m e) \<longleftrightarrow> m = 0"

section \<open>Fixed-point text\<close>

fun dec_pad :: "nat \<Rightarrow> nat \<Rightarrow> pystr" where
  "dec_pad 0 n = []"
| "dec_pad (Suc w) n = dec_pad w (n div 10) @ [48 + n mod 10]"

text \<open>\<open>n\<close> units of \<open>10^-d\<close> as a decimal: the whole part, a point and \<open>d\<close> digits.\<close>

definition fixed_digits :: "nat \<Rightarrow> nat \<Rightarrow> pystr" where
  "fixed_digits d n =
     dec_nat (n div 10 ^ d) @ (if d = 0 then [] else [46] @ dec_pad d (n mod 10 ^ d))"

definition fl_scaled :: "nat \<Rightarrow> nat \<Rightarrow> int \<Rightarrow> nat" where
  "fl_scaled d n e =
     (if 0 \<le> e then n * 10 ^ d * 2 ^ nat e else round_shift (n * 10 ^ d) (nat (- e)))"

definition fl_fixed :: "nat \<Rightarrow> float64 \<Rightarrow> pystr" where
  "fl_fixed d x =
     (case x of Flt m e \<Rightarrow>
        (if m < 0 then [45] else []) @ fixed_digits d (fl_scaled d (nat \<bar>m\<bar>) e))"

text \<open>\<open>f"{x:+.nf}"\<close> and \<open>f"{x:,.nf}"\<close>: a sign in any case, and commas between the thousands.\<close>

definition fl_fixed_signed :: "nat \<Rightarrow> float64 \<Rightarrow> pystr" where
  "fl_fixed_signed d x = (if fl_nonneg x then [43] else []) @ fl_fixed d x"

fun group3 :: "pystr \<Rightarrow> pystr" where
  "group3 (a # b # c # x # xs) = a # b # c # 44 # group3 (x # xs)"
| "group3 xs = xs"

definition fl_fixed_grouped :: "nat \<Rightarrow> float64 \<Rightarrow> pystr" where
  "fl_fixed_grouped d x =
     (case x of Flt m e \<Rightarrow>
        let n = fl_scaled d (nat \<bar>m\<bar>) e in
        (if m < 0 then [45] else []) @ rev (group3 (rev (dec_nat (n div 10 ^ d)))) @
        (if d = 0 then [] else [46] @ dec_pad d (n mod 10 ^ d)))"

section \<open>Text\<close>

fun py_join :: "pystr \<Rightarrow> pystr list \<Rightarrow> pystr" where
  "py_join sep [] = []"
| "py_join sep [x] = x"
| "py_join sep (x # xs) = x @ sep @ py_join sep xs"

definition py_rstrip :: "pystr \<Rightarrow> pystr" where
  "py_rstrip s = rev (dropWhile py_space (rev s))"

text \<open>\<open>s.strip(chars)\<close>.\<close>

definition strip_chars :: "pystr \<Rightarrow> pystr \<Rightarrow> pystr" where
  "strip_chars cs s = rev (dropWhile (\<lambda>c. c \<in> set cs) (rev (dropWhile (\<lambda>c. c \<in> set cs) s)))"

text \<open>\<open>f"{s:<w}"\<close> and \<open>f"{s:>w}"\<close>.\<close>

definition pad_cell :: "nat \<Rightarrow> nat \<Rightarrow> pystr \<Rightarrow> pystr" where
  "pad_cell align w s =
     (let gap = replicate (w - length s) 32 in if align = 62 then gap @ s else s @ gap)"

text \<open>\<open>bytes.decode("ascii")\<close> and \<open>str.isprintable()\<close> of what it yields.\<close>

definition ascii_decode :: "bytes \<Rightarrow> pystr option" where
  "ascii_decode bs = (if \<forall>b \<in> set bs. unat b < 128 then Some (map unat bs) else None)"

definition ascii_printable :: "pystr \<Rightarrow> bool" where
  "ascii_printable s \<longleftrightarrow> (\<forall>c \<in> set s. 32 \<le> c \<and> c \<le> 126)"

section \<open>Dates\<close>

text \<open>
  The proleptic Gregorian calendar of \<open>gmtime\<close>. Days are counted from 1970; whole cycles of 400
  years are split off first, and the year and the month are then found by stepping.
\<close>

definition leap_year :: "int \<Rightarrow> bool" where
  "leap_year y \<longleftrightarrow> (4 dvd y \<and> \<not> 100 dvd y) \<or> 400 dvd y"

definition year_days :: "int \<Rightarrow> int" where
  "year_days y = (if leap_year y then 366 else 365)"

definition month_days :: "int \<Rightarrow> int list" where
  "month_days y = [31, if leap_year y then 29 else 28, 31, 30, 31, 30, 31, 31, 30, 31, 30, 31]"

function find_year :: "int \<Rightarrow> int \<Rightarrow> int \<times> int" where
  "find_year y n = (if n < year_days y then (y, n) else find_year (y + 1) (n - year_days y))"
  by pat_completeness auto
termination
  by (relation "measure (nat \<circ> snd)") (auto simp: year_days_def split: if_splits)

declare find_year.simps [simp del]

text \<open>The month counts from 1, the day of the month from 0.\<close>

fun find_month :: "int list \<Rightarrow> nat \<Rightarrow> int \<Rightarrow> nat \<times> int" where
  "find_month [] k n = (k, n)"
| "find_month (m # ms) k n = (if n < m then (k, n) else find_month ms (k + 1) (n - m))"

definition utc_date :: "int \<Rightarrow> int \<times> nat \<times> int" where
  "utc_date days =
     (let (y, n) = find_year (1970 + 400 * (days div 146097)) (days mod 146097);
          (m, d) = find_month (month_days y) 1 n
      in (y, m, d + 1))"

definition minute_text :: "int \<Rightarrow> pystr" where
  "minute_text t =
     (let (y, m, d) = utc_date (t div 86400); s = nat (t mod 86400) in
      dec_int y @ [45] @ dec_pad 2 m @ [45] @ dec_pad 2 (nat d) @ [32]
      @ dec_pad 2 (s div 3600) @ [58] @ dec_pad 2 (s div 60 mod 60))"

section \<open>Lemmas: text\<close>

lemma group3_commas: "44 \<notin> set xs \<Longrightarrow> filter (\<lambda>c. c \<noteq> 44) (group3 xs) = xs"
  by (induction xs rule: group3.induct) (auto simp: filter_id_conv)

lemma dec_nat_comma_free: "44 \<notin> set (dec_nat n)"
proof (induction n rule: dec_nat.induct)
  case (1 n)
  then show ?case by (subst dec_nat.simps) auto
qed

lemma dec_pad_comma_free: "44 \<notin> set (dec_pad w n)"
  by (induction w arbitrary: n) auto

lemma grouped_without_commas: "filter (\<lambda>c. c \<noteq> 44) (fl_fixed_grouped d x) = fl_fixed d x"
proof -
  have "filter (\<lambda>c. c \<noteq> 44) (rev (group3 (rev (dec_nat n)))) = dec_nat n" for n
    using group3_commas [of "rev (dec_nat n)"] dec_nat_comma_free [of n]
    by (simp flip: rev_filter)
  moreover have "filter (\<lambda>c. c \<noteq> 44) (dec_pad w n) = dec_pad w n" for w n
    using dec_pad_comma_free by (auto simp: filter_id_conv)
  ultimately show ?thesis
    by (cases x) (simp add: fl_fixed_grouped_def fl_fixed_def fixed_digits_def Let_def)
qed

lemma length_pad_cell: "length s \<le> w \<Longrightarrow> length (pad_cell a w s) = w"
  by (simp add: pad_cell_def Let_def)

lemma length_dec_pad [simp]: "length (dec_pad w n) = w"
  by (induction w arbitrary: n) auto

lemma dec_pad_inject: "m < 10 ^ w \<Longrightarrow> n < 10 ^ w \<Longrightarrow> dec_pad w m = dec_pad w n \<Longrightarrow> m = n"
proof (induction w arbitrary: m n)
  case (Suc w)
  have "m div 10 = n div 10"
    using Suc by (intro Suc.IH) (auto simp: less_mult_imp_div_less)
  moreover have "m mod 10 = n mod 10" using Suc.prems by simp
  ultimately show ?case by (metis mult_div_mod_eq)
qed simp

section \<open>Lemmas: amounts print exactly\<close>

lemma int_pow2: "int (2 ^ j) = 2 ^ j"
  by simp

lemma round_shift_nearest:
  assumes "2 * \<bar>int x - int y * 2 ^ j\<bar> < 2 ^ j"
  shows "round_shift x j = y"
proof -
  define p :: nat where "p = 2 ^ j"
  have near: "2 * \<bar>int x - int y * int p\<bar> < int p" using assms by (simp add: p_def)
  show ?thesis
  proof (cases "y * p \<le> x")
    case True
    then obtain r where x: "x = y * p + r" using le_Suc_ex by blast
    with near have "2 * r < p" by simp
    then have "x div p = y" "x mod p = r" unfolding x by simp_all
    with \<open>2 * r < p\<close> show ?thesis by (simp add: round_shift_def Let_def flip: p_def)
  next
    case False
    then have "0 < y" by (cases y) auto
    then obtain z where z: "y = Suc z" by (cases y) auto
    have "int x < int y * int p" using False by (simp flip: of_nat_mult)
    then have near': "int y * int p < int x + int p" "2 * (int y * int p) < 2 * int x + int p"
      using near by (auto simp: abs_if split: if_splits)
    define s where "s = x - z * p"
    have le: "z * p \<le> x" using near'(1) z by (simp add: distrib_right flip: of_nat_mult of_nat_add)
    then have x: "x = z * p + s" by (simp add: s_def)
    have "s < p" using False z x by simp
    moreover have "p < 2 * s"
      using near'(2) unfolding x z by (simp add: algebra_simps flip: of_nat_mult)
    moreover have "x div p = z" "x mod p = s" unfolding x using \<open>s < p\<close> by simp_all
    ultimately show ?thesis using z by (simp add: round_shift_def Let_def flip: p_def)
  qed
qed

lemma round_shift_error: "2 * \<bar>int (round_shift m k) * 2 ^ k - int m\<bar> \<le> 2 ^ k"
proof -
  define p :: nat where "p = 2 ^ k"
  define q r where "q = m div p" and "r = m mod p"
  have m: "int m = int q * int p + int r"
    unfolding q_def r_def by (metis div_mult_mod_eq of_nat_add of_nat_mult)
  have "r < p" by (simp add: p_def r_def)
  have "round_shift m k =
    (if 2 * r < p then q else if p < 2 * r then q + 1 else if even q then q else q + 1)"
    by (simp add: round_shift_def Let_def p_def q_def r_def)
  then consider "round_shift m k = q" "2 * r \<le> p" | "round_shift m k = q + 1" "p \<le> 2 * r"
    by (auto split: if_splits)
  then have "2 * \<bar>int (round_shift m k) * int p - int m\<bar> \<le> int p"
    using m \<open>r < p\<close> by cases (auto simp: distrib_right)
  then show ?thesis by (simp add: p_def)
qed

lemma fl_div_int_pow:
  assumes "0 < n" "0 < b" "n < 2 ^ 51"
  shows "\<exists>R j. fl_div_int (int n) (int b) = Flt (int R) (- int j) \<and> 0 < j
           \<and> 2 * \<bar>int R * int b - int n * 2 ^ j\<bar> < 2 ^ j"
proof -
  define k where "k = bitlen b + 55 - bitlen n"
  have bn: "bitlen n \<le> 51" using assms(3) by (rule bitlen_le)
  then have k: "k + bitlen n = bitlen b + 55" by (simp add: k_def)
  define w where "w = n * 2 ^ k"
  define m where "m = 2 * (w div b) + (if w mod b = 0 then 0 else 1)"
  define kk where "kk = bitlen m - 53"
  define R where "R = round_shift m kk"
  have div: "fl_div_int (int n) (int b) = fl_round (int m) (- int (k + 1))"
  proof -
    have "int n * 2 ^ k = int w" by (simp add: w_def)
    then show ?thesis
      using assms
      by (simp add: fl_div_int_def Let_def m_def flip: k_def zdiv_int zmod_int)
  qed
  have "w < 2 ^ (bitlen b + 55)"
    using bitlen_upper [of n] unfolding w_def k [symmetric] by (simp add: power_add mult.commute)
  also have "2 ^ (bitlen b + 55) \<le> b * (2 :: nat) ^ 56"
    using bitlen_lower [OF assms(2)] bitlen_upper [of b]
    by (cases "bitlen b") (auto simp: power_add)
  finally have "w div b < 2 ^ 56"
    using assms(2) by (simp add: div_less_iff_less_mult mult.commute)
  then have "m < 2 ^ 57" by (simp add: m_def)
  then have kk: "kk \<le> 4" unfolding kk_def using bitlen_le [of m 57] by simp
  have "b < 2 ^ bitlen b" by (rule bitlen_upper)
  have "b * 32 \<le> 2 ^ (bitlen b + 5)" using bitlen_upper [of b] by (simp add: power_add)
  also have "\<dots> \<le> 2 ^ (k + 1)" using k bn by (intro power_increasing) auto
  finally have room: "32 * int b \<le> 2 ^ (k + 1)"
    by (metis int_pow2 mult.commute of_nat_le_iff of_nat_mult of_nat_numeral)
  have j: "4 < k + 1" using k bn by simp
  have err1: "\<bar>int m * int b - int n * 2 ^ (k + 1)\<bar> \<le> int b"
  proof -
    have "int n * 2 ^ (k + 1) = 2 * int w" by (simp add: w_def)
    moreover have "int w = int (w div b) * int b + int (w mod b)"
      by (metis div_mult_mod_eq of_nat_add of_nat_mult)
    moreover have "w mod b < b" using assms(2) by simp
    ultimately show ?thesis by (auto simp: m_def algebra_simps)
  qed
  have "2 * \<bar>int R * 2 ^ kk - int m\<bar> \<le> 2 ^ kk" unfolding R_def by (rule round_shift_error)
  also have "\<dots> \<le> 2 ^ 4" using kk by (intro power_increasing) auto
  finally have "\<bar>int R * 2 ^ kk - int m\<bar> \<le> 8" by simp
  then have "\<bar>int R * 2 ^ kk - int m\<bar> * int b \<le> 8 * int b" by (intro mult_right_mono) auto
  then have err2: "\<bar>int R * 2 ^ kk * int b - int m * int b\<bar> \<le> 8 * int b"
    by (simp add: abs_mult flip: left_diff_distrib)
  define i where "i = k + 1 - kk"
  have i: "k + 1 = kk + i" "0 < i" using kk j by (auto simp: i_def)
  have "\<bar>int R * 2 ^ kk * int b - int n * 2 ^ (k + 1)\<bar> \<le> 9 * int b" using err1 err2 by linarith
  moreover have "int R * 2 ^ kk * int b - int n * 2 ^ (k + 1)
      = 2 ^ kk * (int R * int b - int n * 2 ^ i)"
    unfolding i(1) by (simp add: power_add algebra_simps)
  ultimately have "2 ^ kk * \<bar>int R * int b - int n * 2 ^ i\<bar> \<le> 9 * int b"
    by (simp add: abs_mult)
  moreover have "32 * int b \<le> 2 ^ kk * 2 ^ i" using room unfolding i(1) power_add .
  ultimately have "2 ^ kk * (2 * \<bar>int R * int b - int n * 2 ^ i\<bar>) < 2 ^ kk * 2 ^ i"
    using assms(2) by linarith
  then have "2 * \<bar>int R * int b - int n * 2 ^ i\<bar> < 2 ^ i" by simp
  moreover have "0 < m"
  proof (rule ccontr)
    assume "\<not> 0 < m"
    then have "\<bar>int n * 2 ^ (k + 1)\<bar> \<le> int b" using err1 by simp
    then have "2 ^ (k + 1) \<le> int b"
      using assms(1) by (smt (verit) mult_le_cancel_right1 of_nat_0_less_iff zero_less_power)
    with room assms(2) show False by simp
  qed
  then have "fl_div_int (int n) (int b) = Flt (int R) (- int i)"
    unfolding div using i by (simp add: fl_round_def Let_def R_def flip: kk_def)
  ultimately show ?thesis using i(2) by blast
qed

lemma fl_round_neg: "fl_round (- m) e = fl_neg (fl_round m e)"
  by (simp add: fl_round_def Let_def)

lemma fl_div_int_neg: "fl_div_int (- a) b = fl_neg (fl_div_int a b)"
proof -
  have "sgn (- a) = - sgn a" by (simp add: sgn_if)
  then show ?thesis
    by (simp only: fl_div_int_def Let_def abs_minus mult_minus_left fl_round_neg)
qed

lemma fixed_of_units:
  assumes "\<bar>v\<bar> < 2 ^ 51"
  shows "fl_fixed d (fl_div_int v (10 ^ d))
           = (if v < 0 then [45] else []) @ fixed_digits d (nat \<bar>v\<bar>)"
    and "fl_nonneg (fl_div_int v (10 ^ d)) \<longleftrightarrow> 0 \<le> v"
proof -
  have pos: "fl_scaled d (nat \<bar>int R\<bar>) (- int j) = n \<and> 0 < R"
    if "0 < n" "0 < j" "2 * \<bar>int R * int (10 ^ d) - int n * 2 ^ j\<bar> < 2 ^ j" for n R j
  proof -
    have "round_shift (R * 10 ^ d) j = n" using that(3) by (intro round_shift_nearest) simp
    then show ?thesis using that(1, 2) by (cases "R = 0") (auto simp: fl_scaled_def round_shift_def)
  qed
  have small: "nat \<bar>v\<bar> < 2 ^ 51" using assms by simp
  show "fl_fixed d (fl_div_int v (10 ^ d))
           = (if v < 0 then [45] else []) @ fixed_digits d (nat \<bar>v\<bar>)"
    and "fl_nonneg (fl_div_int v (10 ^ d)) \<longleftrightarrow> 0 \<le> v"
  proof -
    consider "v = 0" | "0 < v" | "v < 0" by linarith
    then have "fl_fixed d (fl_div_int v (10 ^ d))
           = (if v < 0 then [45] else []) @ fixed_digits d (nat \<bar>v\<bar>)
        \<and> (fl_nonneg (fl_div_int v (10 ^ d)) \<longleftrightarrow> 0 \<le> v)"
    proof cases
      case 1
      then show ?thesis
        by (simp add: fl_div_int_def Let_def fl_round_def fl_fixed_def fl_scaled_def round_shift_def)
    next
      case 2
      then obtain R j where "fl_div_int v (10 ^ d) = Flt (int R) (- int j)" "0 < j"
          "2 * \<bar>int R * int (10 ^ d) - int (nat v) * 2 ^ j\<bar> < 2 ^ j"
        using fl_div_int_pow [of "nat v" "10 ^ d"] small by auto
      with pos [of "nat v" j R] 2 show ?thesis by (simp add: fl_fixed_def)
    next
      case 3
      then obtain R j where "fl_div_int (- v) (10 ^ d) = Flt (int R) (- int j)" "0 < j"
          "2 * \<bar>int R * int (10 ^ d) - int (nat (- v)) * 2 ^ j\<bar> < 2 ^ j"
        using fl_div_int_pow [of "nat (- v)" "10 ^ d"] small by auto
      with pos [of "nat (- v)" j R] 3 fl_div_int_neg [of "- v" "10 ^ d"] show ?thesis
        by (simp add: fl_fixed_def)
    qed
    then show "fl_fixed d (fl_div_int v (10 ^ d))
           = (if v < 0 then [45] else []) @ fixed_digits d (nat \<bar>v\<bar>)"
      and "fl_nonneg (fl_div_int v (10 ^ d)) \<longleftrightarrow> 0 \<le> v" by blast+
  qed
qed

lemma dec_nat_inject [simp]: "dec_nat m = dec_nat n \<longleftrightarrow> m = n"
proof
  assume "dec_nat m = dec_nat n"
  then have "dec_int (int m) = dec_int (int n)" by (simp add: dec_int_def)
  then show "m = n" by (simp only: dec_int_inject of_nat_eq_iff)
qed simp

lemma fixed_digits_inject [simp]: "fixed_digits d m = fixed_digits d n \<longleftrightarrow> m = n"
proof
  assume eq: "fixed_digits d m = fixed_digits d n"
  show "m = n"
  proof (cases "d = 0")
    case True
    with eq show ?thesis by (simp add: fixed_digits_def)
  next
    case False
    with eq have "dec_nat (m div 10 ^ d) @ 46 # dec_pad d (m mod 10 ^ d)
        = dec_nat (n div 10 ^ d) @ 46 # dec_pad d (n mod 10 ^ d)"
      by (simp add: fixed_digits_def)
    then have "dec_nat (m div 10 ^ d) = dec_nat (n div 10 ^ d)"
      and "dec_pad d (m mod 10 ^ d) = dec_pad d (n mod 10 ^ d)"
      by (simp_all add: append_eq_append_conv)
    then have "m div 10 ^ d = n div 10 ^ d" by (simp only: dec_nat_inject)
    moreover have "m mod 10 ^ d = n mod 10 ^ d"
      using \<open>dec_pad d _ = dec_pad d _\<close> by (rule dec_pad_inject [rotated 2]) simp_all
    ultimately show ?thesis by (metis div_mult_mod_eq)
  qed
qed simp

section \<open>Lemmas: dates\<close>

text \<open>The day number of a date, by adding up the lengths of the years and months before it.\<close>

definition days_from :: "int \<Rightarrow> int \<Rightarrow> int" where
  "days_from a b = sum year_days {a ..< b}"

lemma find_year_sound:
  "find_year y n = (z, r) \<Longrightarrow> 0 \<le> n \<Longrightarrow> y \<le> z \<and> 0 \<le> r \<and> r < year_days z \<and> n = days_from y z + r"
proof (induction y n rule: find_year.induct)
  case (1 y n)
  show ?case
  proof (cases "n < year_days y")
    case True
    with 1 show ?thesis by (simp add: find_year.simps [of y n] days_from_def)
  next
    case False
    with 1 have *: "y + 1 \<le> z" "0 \<le> r" "r < year_days z"
        "n - year_days y = days_from (y + 1) z + r"
      by (auto simp: find_year.simps [of y n])
    have "{y ..< z} = insert y {y + 1 ..< z}" using *(1) by auto
    then have "days_from y z = year_days y + days_from (y + 1) z"
      by (simp add: days_from_def)
    with * False show ?thesis by simp
  qed
qed

lemma find_month_sound:
  "find_month ms k n = (m, d) \<Longrightarrow> 0 \<le> n \<Longrightarrow> n < sum_list ms \<Longrightarrow>
     k \<le> m \<and> m - k < length ms \<and> 0 \<le> d \<and> d < ms ! (m - k) \<and> n = sum_list (take (m - k) ms) + d"
proof (induction ms k n rule: find_month.induct)
  case (2 l ms k n)
  show ?case
  proof (cases "n < l")
    case False
    with 2 have "k + 1 \<le> m \<and> m - (k + 1) < length ms \<and> 0 \<le> d \<and> d < ms ! (m - (k + 1))
        \<and> n - l = sum_list (take (m - (k + 1)) ms) + d" by simp
    moreover from this have "m - k = Suc (m - (k + 1))" by linarith
    moreover have "n = l + (n - l)" using False by simp
    ultimately show ?thesis by simp
  qed (use 2 in simp)
qed simp

text \<open>
  A cycle of 400 years has 146097 days wherever it starts from a year divisible by 400 plus 370,
  and a cycle does not change which years are leap years; so the date found is the real one.
\<close>

lemma year_days_cycle: "year_days (y + 400 * k) = year_days y"
proof -
  have "4 dvd y + 400 * k \<longleftrightarrow> 4 dvd y" "100 dvd y + 400 * k \<longleftrightarrow> 100 dvd y"
      "400 dvd y + 400 * k \<longleftrightarrow> 400 dvd y"
    by (rule dvd_add_left_iff, simp)+
  then show ?thesis by (simp add: year_days_def leap_year_def)
qed

lemma month_days_sum: "sum_list (month_days y) = year_days y"
  by (simp add: month_days_def year_days_def)

lemma length_month_days: "length (month_days y) = 12"
  by (simp add: month_days_def)

definition day_number :: "int \<Rightarrow> nat \<Rightarrow> int \<Rightarrow> int" where
  "day_number y m d =
     (let k = (y - 1970) div 400 in
      146097 * k + days_from (1970 + 400 * k) y
      + sum_list (take (m - 1) (month_days y)) + d - 1)"

lemma days_from_last: "a \<le> b \<Longrightarrow> days_from a (b + 1) = days_from a b + year_days b"
proof -
  assume "a \<le> b"
  then have "{a ..< b + 1} = insert b {a ..< b}" by auto
  then show ?thesis by (simp add: days_from_def)
qed

lemma days_from_cycle: "days_from (1970 + 400 * k) (1970 + 400 * k + 400) = 146097"
proof -
  have c: "year_days (y - 400 * k) = year_days y" for y
    using year_days_cycle [of y "- k"] by simp
  have "days_from (1970 + 400 * k) (1970 + 400 * k + 400) = days_from 1970 2370"
    unfolding days_from_def
    by (rule sum.reindex_bij_witness [of _ "\<lambda>y. y + 400 * k" "\<lambda>y. y - 400 * k"]) (auto simp: c)
  also have "\<dots> = days_from 1970 2369 + 365"
    using days_from_last [of 1970 2369] by (simp add: year_days_def leap_year_def)
  also have "find_year 1970 146096 = (2369, 364)" by code_simp
  then have "days_from 1970 2369 = 145732" using find_year_sound by fastforce
  finally show ?thesis by simp
qed

lemma days_from_split: "a \<le> b \<Longrightarrow> b \<le> c \<Longrightarrow> days_from a c = days_from a b + days_from b c"
proof -
  assume "a \<le> b" "b \<le> c"
  then have "{a ..< c} = {a ..< b} \<union> {b ..< c}" by auto
  then show ?thesis by (simp add: days_from_def sum.union_disjoint)
qed

lemma utc_date_sound:
  assumes "utc_date days = (y, m, d)"
  shows "1 \<le> m" "m \<le> 12" "1 \<le> d" "d \<le> month_days y ! (m - 1)" "day_number y m d = days"
proof -
  define k where "k = days div 146097"
  obtain r where year: "find_year (1970 + 400 * k) (days mod 146097) = (y, r)"
    and month: "find_month (month_days y) 1 r = (m, d - 1)"
    using assms unfolding utc_date_def k_def by (auto simp: Let_def split: prod.splits)
  have y: "1970 + 400 * k \<le> y" "0 \<le> r" "r < year_days y"
      "days mod 146097 = days_from (1970 + 400 * k) y + r"
    using find_year_sound [OF year] by auto
  have md: "1 \<le> m \<and> m - 1 < 12 \<and> 0 \<le> d - 1 \<and> d - 1 < month_days y ! (m - 1)
      \<and> r = sum_list (take (m - 1) (month_days y)) + (d - 1)"
    using find_month_sound [OF month y(2)] y(3) by (simp add: month_days_sum length_month_days)
  have "y < 1970 + 400 * k + 400"
  proof (rule ccontr)
    assume "\<not> y < 1970 + 400 * k + 400"
    then have "days_from (1970 + 400 * k) y = 146097 + days_from (1970 + 400 * k + 400) y"
      using days_from_split [of "1970 + 400 * k" "1970 + 400 * k + 400" y] days_from_cycle [of k]
      by simp
    moreover have "0 \<le> days_from (1970 + 400 * k + 400) y"
      unfolding days_from_def by (intro sum_nonneg) (simp add: year_days_def)
    ultimately show False using y(2, 4) pos_mod_bound [of 146097 days] by simp
  qed
  with y(1) have "(y - 1970) div 400 = k"
    by (intro int_div_pos_eq [of _ _ _ "y - 1970 - 400 * k"]) simp_all
  then have "day_number y m d = 146097 * k + days mod 146097"
    unfolding day_number_def Let_def y(4) using md by simp
  also have "\<dots> = days" unfolding k_def by (rule mult_div_mod_eq)
  finally show "day_number y m d = days" .
  show "1 \<le> m" "m \<le> 12" "1 \<le> d" "d \<le> month_days y ! (m - 1)"
    using md by linarith+
qed

end
