(* ===== verification/Report.thy ===== *)
theory Report
  imports PyFormat Thorchain Liquidity History
begin

text \<open>
  The printed sheets, \<open>report.py\<close>, with the units and market arithmetic of \<open>pricefeed.py\<close>: the
  rows of the balance sheet and how they are built, which of them are shown, what the totals add
  up, and what the footer says of the rest; the history and output listings. Prices are the floats
  of the feed's answer. The main facts: no row leaves the sheet silently, and an amount of base
  units below \<open>2^51\<close> is printed exactly.
\<close>

section \<open>Units and market prices\<close>

record price_unit =
  pu_name :: pystr
  pu_vs :: pystr
  pu_prefix :: pystr
  pu_suffix :: pystr
  pu_decimals :: nat

definition unit_format :: "price_unit \<Rightarrow> float64 \<Rightarrow> pystr" where
  "unit_format u v =
     filter (\<lambda>c. c \<noteq> 44) (pu_prefix u @ fl_fixed_grouped (pu_decimals u) v @ pu_suffix u)"

definition new_unit :: "pystr \<Rightarrow> pystr \<Rightarrow> pystr \<Rightarrow> pystr \<Rightarrow> nat \<Rightarrow> price_unit" where
  "new_unit name vs pre suf d =
     \<lparr>pu_name = name, pu_vs = vs, pu_prefix = pre, pu_suffix = suf, pu_decimals = d\<rparr>"

definition UNITS :: "(pystr \<times> price_unit) list" where
  "UNITS =
     [(lit ''EUR'', new_unit (lit ''EUR'') (lit ''eur'') [0x20AC] [] 2),
      (lit ''USD'', new_unit (lit ''USD'') (lit ''usd'') (lit ''$'') [] 2),
      (lit ''USDT'', new_unit (lit ''USDT'') (lit ''usd'') (lit ''$'') [] 2),
      (lit ''USDC'', new_unit (lit ''USDC'') (lit ''usd'') (lit ''$'') [] 2),
      (lit ''BTC'', new_unit (lit ''BTC'') (lit ''btc'') [0x20BF] [] 8),
      (lit ''ETH'', new_unit (lit ''ETH'') (lit ''eth'') [0x39E] [] 6),
      (lit ''SATS'', new_unit (lit ''SATS'') (lit ''sats'') [] (lit '' sats'') 0)]"

definition unit_for :: "pystr \<Rightarrow> py_error + price_unit" where
  "unit_for name =
     (case map_of UNITS (py_upper name) of None \<Rightarrow> Inl ValueError | Some u \<Rightarrow> Inr u)"

fun fl_pos :: "float64 \<Rightarrow> bool" where
  "fl_pos (Flt m e) \<longleftrightarrow> 0 < m"

definition market_out :: "float64 \<Rightarrow> float64 \<Rightarrow> float64 \<Rightarrow> py_error + float64" where
  "market_out amount_in price_in price_out =
     (if \<not> fl_pos price_out then Inl ValueError
      else Inr (fl_div (fl_mul amount_in price_in) price_out))"

definition loss_vs_market_bps :: "float64 \<Rightarrow> float64 \<Rightarrow> float64" where
  "loss_vs_market_bps quoted_out market =
     (if \<not> fl_pos market then Flt 0 0
      else fl_mul (fl_div (fl_sub market quoted_out) market) (fl_of_int 10000))"

definition loss_amount :: "float64 \<Rightarrow> float64 \<Rightarrow> float64" where
  "loss_amount quoted_out market = fl_sub market quoted_out"

section \<open>Rows\<close>

record sheet_row =
  row_label :: pystr
  row_amount :: float64
  row_asset :: pystr
  row_note :: pystr
  row_lp :: bool
  row_approx :: bool
  row_unavailable :: bool

definition amount_text :: "sheet_row \<Rightarrow> pystr" where
  "amount_text r =
     (if row_unavailable r then lit ''?''
      else (if row_approx r then lit ''~'' else []) @ fl_fixed 8 (row_amount r))"

definition balance_row :: "balance_report \<Rightarrow> sheet_row" where
  "balance_row rep =
     (let scale = 10 ^ nat (br_decimals rep);
          note = strip_chars (lit ''()'') (br_note rep);
          note' =
            (if br_pending rep \<noteq> 0
             then lit ''+'' @ fl_fixed 8 (fl_div_int (br_pending rep) scale) @ lit '' pending''
                  @ (if note \<noteq> [] then lit ''; '' @ note else [])
             else note)
      in \<lparr>row_label = br_symbol rep, row_amount = fl_div_int (br_confirmed rep) scale,
          row_asset = br_symbol rep, row_note = note', row_lp = False, row_approx = False,
          row_unavailable = False\<rparr>)"

text \<open>\<open>short_pool\<close>: only a string has \<open>split\<close>.\<close>

fun short_pool :: "json \<Rightarrow> py_error + pystr" where
  "short_pool (JStr pool) = Inr (before_sep 45 pool)"
| "short_pool _ = Inl AttributeError"

definition lp_row ::
  "liquidity_position \<Rightarrow> pystr \<Rightarrow> pystr \<Rightarrow> pystr \<Rightarrow> float64 option \<Rightarrow> int \<Rightarrow> py_error + sheet_row" where
  "lp_row pos source asset_key protocol price unit_scale =
     (let scale = fl_of_int unit_scale;
          asset_side = fl_div_int (lpos_asset_redeem_value pos) unit_scale;
          other = (case price of None \<Rightarrow> None
                   | Some p \<Rightarrow>
                       if lpos_protocol_redeem_value pos = 0 then None
                       else Some (fl_div (fl_mul_int (lpos_protocol_redeem_value pos) p) scale));
          side = (case other of
                    Some v \<Rightarrow> [fl_fixed 8 v @ lit '' via '' @ protocol]
                  | None \<Rightarrow> if lpos_protocol_redeem_value pos \<noteq> 0
                            then [lit ''plus a '' @ protocol @ lit '' side not counted''] else []);
          deposited = (case price of None \<Rightarrow> []
                       | Some p \<Rightarrow>
                           if lpos_asset_deposit_value pos = 0 \<and> lpos_protocol_deposit_value pos = 0
                           then []
                           else [lit ''deposited ~'' @ fl_fixed 8
                                  (fl_div (fl_add (fl_of_int (lpos_asset_deposit_value pos))
                                             (fl_mul_int (lpos_protocol_deposit_value pos) p)) scale)]);
          pending = (if lpos_pending_asset pos \<noteq> 0
                     then [lit ''+'' @ fl_fixed 8 (fl_div_int (lpos_pending_asset pos) unit_scale)
                           @ lit '' pending''] else []);
          pays = (if json_truthy (lpos_asset_address pos) then []
                  else [lit ''withdraws as '' @ protocol])
      in bind_res (short_pool (lpos_pool pos)) (\<lambda>name.
           Inr \<lparr>row_label = lit ''  +LP '' @ source @ lit '' '' @ name,
                row_amount = (case other of None \<Rightarrow> asset_side | Some v \<Rightarrow> fl_add asset_side v),
                row_asset = asset_key,
                row_note = py_join (lit ''; '') (deposited @ side @ pending @ pays),
                row_lp = True, row_approx = (other \<noteq> None), row_unavailable = False\<rparr>))"

definition pool_provider_row :: "pool_provider_position \<Rightarrow> protocol_pool \<Rightarrow> sheet_row" where
  "pool_provider_row pos pool =
     (let scale = 10 ^ pp_decimals pool in
      \<lparr>row_label = lit ''  +'' @ pp_name pool, row_amount = fl_div_int (ppos_value pos) scale,
       row_asset = pp_token pool,
       row_note = lit ''deposited '' @ fl_fixed 8 (fl_div_int (ppos_deposit_amount pos) scale)
                 @ lit ''; pnl '' @ fl_fixed_signed 8 (fl_div_int (ppos_pnl pos) scale),
       row_lp = True, row_approx = False, row_unavailable = False\<rparr>)"

section \<open>The balance sheet\<close>

type_synonym price_map = "(pystr \<times> float64) list"

definition row_value :: "sheet_row \<Rightarrow> price_map \<Rightarrow> float64 option" where
  "row_value r prices =
     (if row_asset r = [] then None
      else case map_of prices (row_asset r) of None \<Rightarrow> None
           | Some p \<Rightarrow> Some (fl_mul (row_amount r) p))"

text \<open>
  Which rows keep their line: the list comprehension, then the loop that also keeps the asset row
  over a liquidity row.
\<close>

definition wanted :: "bool \<Rightarrow> sheet_row \<Rightarrow> bool" where
  "wanted show_zeros r \<longleftrightarrow>
     show_zeros \<or> \<not> fl_zero (row_amount r) \<or> row_lp r \<or> row_unavailable r"

definition keep_flags :: "bool \<Rightarrow> sheet_row list \<Rightarrow> bool list" where
  "keep_flags show_zeros rows =
     foldl (\<lambda>keep i. if row_lp (rows ! i) \<and> i \<noteq> 0 \<and> \<not> keep ! (i - 1) \<and> \<not> row_lp (rows ! (i - 1))
                     then keep[i - 1 := True] else keep)
       (map (wanted show_zeros) rows) [0 ..< length rows]"

definition shown_rows :: "bool \<Rightarrow> sheet_row list \<Rightarrow> sheet_row list" where
  "shown_rows show_zeros rows = map fst (filter snd (zip rows (keep_flags show_zeros rows)))"

definition hidden_names :: "bool \<Rightarrow> sheet_row list \<Rightarrow> pystr list" where
  "hidden_names show_zeros rows =
     map (\<lambda>(r, w). py_strip (row_label r))
       (filter (\<lambda>(r, w). \<not> w) (zip rows (keep_flags show_zeros rows)))"

definition silent_names :: "sheet_row list \<Rightarrow> pystr list" where
  "silent_names rows = map (py_strip \<circ> row_label) (filter row_unavailable rows)"

text \<open>The loop of \<open>_totals\<close>: spendable, liquidity, and the names left out of both.\<close>

type_synonym tally = "float64 \<times> float64 \<times> pystr list"

definition tally_row :: "price_map \<Rightarrow> tally \<Rightarrow> sheet_row \<Rightarrow> tally" where
  "tally_row prices st r =
     (case st of (spendable, liquidity, unpriced) \<Rightarrow>
        if row_unavailable r then st
        else case row_value r prices of
          None \<Rightarrow>
            if \<not> fl_zero (row_amount r)
            then (spendable, liquidity, unpriced @ [py_strip (row_label r)]) else st
        | Some v \<Rightarrow>
            if row_lp r then (spendable, fl_add liquidity v, unpriced)
            else (fl_add spendable v, liquidity, unpriced))"

definition tally_rows :: "price_map \<Rightarrow> sheet_row list \<Rightarrow> tally" where
  "tally_rows prices rows = foldl (tally_row prices) (Flt 0 0, Flt 0 0, []) rows"

definition incomplete_note :: pystr where
  "incomplete_note = lit ''INCOMPLETE '' @ [0x2014] @ lit '' a chain did not answer''"

type_synonym cell = "pystr list"

definition sheet_totals ::
  "sheet_row list \<Rightarrow> price_unit \<Rightarrow> price_map \<Rightarrow> bool \<Rightarrow> cell list \<times> pystr list" where
  "sheet_totals rows u prices incomplete =
     (case tally_rows prices rows of (spendable, liquidity, unpriced) \<Rightarrow>
        ((if \<not> fl_zero liquidity
          then [[lit ''spendable'', [], unit_format u spendable, []],
                [lit ''liquidity'', [], unit_format u liquidity,
                 lit ''not spendable; gross of exit fees'']]
          else [])
         @ [[lit ''total'', [], unit_format u (fl_add spendable liquidity),
             if incomplete then incomplete_note else []]],
         unpriced))"

definition row_cell :: "price_unit option \<Rightarrow> price_map \<Rightarrow> sheet_row \<Rightarrow> cell" where
  "row_cell u prices r =
     [row_label r, amount_text r,
      (case u of None \<Rightarrow> []
       | Some u' \<Rightarrow> (case row_value r prices of None \<Rightarrow> [] | Some v \<Rightarrow> unit_format u' v)),
      row_note r]"

definition align_columns :: "cell list \<Rightarrow> pystr \<Rightarrow> pystr list" where
  "align_columns rows aligns =
     (if rows = [] then []
      else let widths = map (\<lambda>i. fold max (map (\<lambda>row. length (row ! i)) rows) 0)
                          [0 ..< length aligns - 1]
           in map (\<lambda>row.
                py_rstrip (py_join (lit ''  '')
                  (map (\<lambda>(i, w). pad_cell (aligns ! i) w (row ! i)) (zip [0 ..< length widths] widths)
                   @ [last row]))) rows)"

definition sheet_layout :: "cell list \<Rightarrow> bool \<Rightarrow> pystr list" where
  "sheet_layout cells valued =
     (if valued then align_columns cells (lit ''<>><'')
      else align_columns (map (\<lambda>c. [c ! 0, c ! 1, c ! 3]) cells) (lit ''<><''))"

definition not_priced :: pystr where
  "not_priced = lit ''not priced (excluded from the total): ''"

definition no_answer :: pystr where
  "no_answer = lit ''did not answer (holdings unknown, not in the total): ''"

text \<open>\<open>render\<close> up to its layout: the cells of the body and the totals, and the footer.\<close>

definition sheet_cells ::
  "sheet_row list \<Rightarrow> price_unit option \<Rightarrow> price_map \<Rightarrow> bool \<Rightarrow> cell list \<times> pystr list" where
  "sheet_cells rows u prices show_zeros =
     (let shown = shown_rows show_zeros rows; hidden = hidden_names show_zeros rows;
          silent = silent_names rows;
          body = map (row_cell u prices) shown;
          (totals, unpriced) = (case u of None \<Rightarrow> ([], [])
             | Some u' \<Rightarrow> sheet_totals shown u' prices (silent \<noteq> []))
      in (body @ (if totals \<noteq> [] then [[[], [], [], []]] @ totals else []),
          (if unpriced \<noteq> [] then [not_priced @ py_join (lit '', '') unpriced] else [])
          @ (if silent \<noteq> [] then [no_answer @ py_join (lit '', '') silent] else [])
          @ (if hidden \<noteq> [] then [lit ''zero: '' @ py_join (lit '', '') hidden] else [])))"

definition render ::
  "sheet_row list \<Rightarrow> price_unit option \<Rightarrow> price_map \<Rightarrow> bool \<Rightarrow> pystr list" where
  "render rows u prices show_zeros =
     (case sheet_cells rows u prices show_zeros of (cells, footer) \<Rightarrow>
        sheet_layout cells (u \<noteq> None) @ footer)"

section \<open>The listings\<close>

definition scaled_text :: "int \<Rightarrow> nat \<Rightarrow> bool \<Rightarrow> pystr" where
  "scaled_text v d with_sign =
     (let t = fl_fixed d (fl_div_int v (10 ^ d)) in if with_sign \<and> 0 \<le> v then lit ''+'' @ t else t)"

definition when_text :: "bool \<Rightarrow> int option \<Rightarrow> int option \<Rightarrow> pystr" where
  "when_text confirmed block_time block_height =
     (if \<not> confirmed then lit ''mempool''
      else case block_time of
        Some t \<Rightarrow> if t \<noteq> 0 then minute_text t
                  else (case block_height of None \<Rightarrow> lit ''confirmed'' | Some h \<Rightarrow> lit ''block '' @ dec_int h)
      | None \<Rightarrow> (case block_height of None \<Rightarrow> lit ''confirmed'' | Some h \<Rightarrow> lit ''block '' @ dec_int h))"

definition payload_text :: "bytes \<Rightarrow> pystr" where
  "payload_text memo =
     (case ascii_decode memo of None \<Rightarrow> py_hex memo
      | Some t \<Rightarrow> if ascii_printable t then t else py_hex memo)"

definition history_detail :: "wallet_tx \<Rightarrow> pystr list" where
  "history_detail t =
     (if wt_has_op_return t then [lit ''swap deposit''] else [])
     @ (if wt_counterparties t \<noteq> [] then [lit ''-> '' @ py_join (lit '', '') (wt_counterparties t)] else [])
     @ (case wt_memo t of None \<Rightarrow> [] | Some m \<Rightarrow> if m = [] then [] else [lit ''memo '' @ payload_text m])
     @ (if wt_outgoing t then [lit ''fee '' @ dec_int (wt_fee t)] else [])"

definition render_history :: "wallet_tx list \<Rightarrow> pystr \<Rightarrow> nat \<Rightarrow> pystr list" where
  "render_history txs symbol d =
     (if txs = [] then [lit ''no transactions found for '' @ symbol]
      else align_columns
             ([lit ''WHEN'', lit ''NET ('' @ symbol @ lit '')'', lit ''TXID'', lit ''DETAIL'']
              # map (\<lambda>t. [when_text (wt_confirmed t) (wt_block_time t) (wt_block_height t),
                          scaled_text (wt_net t) d True, wt_txid t,
                          py_join (lit ''; '') (history_detail t)]) txs) (lit ''<><<'')
           @ [[], dec_nat (length txs) @ lit '' transactions, net ''
                  @ scaled_text (sum_list (map wt_net txs)) d True @ lit '' '' @ symbol])"

definition render_outputs :: "wallet_output list \<Rightarrow> pystr \<Rightarrow> nat \<Rightarrow> pystr list" where
  "render_outputs outs symbol d =
     (if outs = [] then [lit ''no outputs found for '' @ symbol]
      else let unspent = filter (\<lambda>o'. \<not> wo_spent o') outs in
           align_columns
             ([lit ''WHEN'', lit ''OUTPOINT'', lit ''AMOUNT ('' @ symbol @ lit '')'', lit ''PATH'', lit ''STATUS'']
              # map (\<lambda>o'. [when_text (wo_confirmed o') (wo_block_time o') (wo_block_height o'),
                          wo_outpoint o', scaled_text (wo_value o') d False, wo_path o',
                          (case wo_spent_by o' of None \<Rightarrow> lit ''unspent''
                           | Some t \<Rightarrow> lit ''spent by '' @ t)])
                    outs) (lit ''<<><<'')
           @ [[], dec_nat (length unspent) @ lit '' unspent of '' @ dec_nat (length outs)
                  @ lit '' outputs, '' @ scaled_text (sum_list (map wo_value unspent)) d False
                  @ lit '' '' @ symbol])"

section \<open>Lemmas: which rows keep their line\<close>

lemma length_keep_flags [simp]: "length (keep_flags z rows) = length rows"
proof -
  have "length (foldl (\<lambda>keep i. if P i keep then keep[i - 1 := True] else keep) k is) = length k"
    for P k and "is" :: "nat list"
    by (induction "is" arbitrary: k) auto
  then show ?thesis by (simp add: keep_flags_def)
qed

lemma keep_flags_nth:
  "i < length rows \<Longrightarrow> keep_flags z rows ! i \<longleftrightarrow>
     wanted z (rows ! i)
     \<or> (Suc i < length rows \<and> row_lp (rows ! Suc i) \<and> \<not> row_lp (rows ! i))"
proof -
  let ?f = "\<lambda>keep i. if row_lp (rows ! i) \<and> i \<noteq> 0 \<and> \<not> keep ! (i - 1) \<and> \<not> row_lp (rows ! (i - 1))
                     then keep[i - 1 := True] else keep"
  have "length (foldl ?f (map (wanted z) rows) [0 ..< n]) = length rows
      \<and> (\<forall>i < length rows. foldl ?f (map (wanted z) rows) [0 ..< n] ! i \<longleftrightarrow>
           wanted z (rows ! i) \<or> (Suc i < n \<and> row_lp (rows ! Suc i) \<and> \<not> row_lp (rows ! i)))"
    if "n \<le> length rows" for n
    using that
  proof (induction n)
    case (Suc n)
    then show ?case by (auto simp: nth_list_update less_Suc_eq)
  qed simp
  from this [of "length rows"] show "i < length rows \<Longrightarrow> ?thesis" by (simp add: keep_flags_def)
qed

lemma shown_rowsI: "r \<in> set rows \<Longrightarrow> wanted z r \<Longrightarrow> r \<in> set (shown_rows z rows)"
  by (force simp: shown_rows_def in_set_conv_nth set_zip keep_flags_nth image_iff)

lemma shown_or_hidden:
  assumes "r \<in> set rows"
  shows "r \<in> set (shown_rows z rows)
           \<or> \<not> wanted z r \<and> py_strip (row_label r) \<in> set (hidden_names z rows)"
proof -
  obtain i where i: "i < length rows" "rows ! i = r" using assms by (auto simp: in_set_conv_nth)
  then have "(r, keep_flags z rows ! i) \<in> set (zip rows (keep_flags z rows))"
    by (auto simp: set_zip)
  then show ?thesis
    using i keep_flags_nth [OF i(1), of z]
    by (cases "keep_flags z rows ! i") (force simp: shown_rows_def hidden_names_def image_iff)+
qed

lemma silent_rows: "r \<in> set rows \<Longrightarrow> row_unavailable r \<Longrightarrow> py_strip (row_label r) \<in> set (silent_names rows)"
  by (auto simp: silent_names_def)

section \<open>Lemmas: the totals\<close>

definition priced_values :: "bool \<Rightarrow> price_map \<Rightarrow> sheet_row list \<Rightarrow> float64 list" where
  "priced_values lp prices rows =
     concat (map (\<lambda>r. if row_unavailable r \<or> row_lp r \<noteq> lp then []
                     else case row_value r prices of None \<Rightarrow> [] | Some v \<Rightarrow> [v]) rows)"

definition unpriced_names :: "price_map \<Rightarrow> sheet_row list \<Rightarrow> pystr list" where
  "unpriced_names prices rows =
     map (py_strip \<circ> row_label)
       (filter (\<lambda>r. \<not> row_unavailable r \<and> row_value r prices = None \<and> \<not> fl_zero (row_amount r)) rows)"

definition fl_sum :: "float64 list \<Rightarrow> float64" where
  "fl_sum vs = foldl fl_add (Flt 0 0) vs"

lemma tally_rows_eq:
  "tally_rows prices rows =
     (fl_sum (priced_values False prices rows), fl_sum (priced_values True prices rows),
      unpriced_names prices rows)"
proof -
  have "foldl (tally_row prices) (a, b, us) rows =
     (foldl fl_add a (priced_values False prices rows),
      foldl fl_add b (priced_values True prices rows), us @ unpriced_names prices rows)" for a b us
    by (induction rows arbitrary: a b us)
      (auto simp: tally_row_def priced_values_def unpriced_names_def split: option.splits)
  then show ?thesis by (simp add: tally_rows_def fl_sum_def)
qed

lemma fl_zero_mul: "fl_zero x \<Longrightarrow> fl_zero (fl_mul x y)"
  by (cases x; cases y) (simp add: fl_round_def Let_def)

lemma hidden_worthless: "\<not> wanted z r \<Longrightarrow> row_value r prices = Some v \<Longrightarrow> fl_zero v"
  by (auto simp: wanted_def row_value_def fl_zero_mul split: if_splits option.splits)

section \<open>The sheet accounts for every row\<close>

text \<open>A row of the balance sheet never leaves it silently. A row that is worth showing has its
  line; any other row has its line or is worth nothing and named behind \<open>zero:\<close>. A chain that did
  not answer keeps its line, with \<open>?\<close> for an amount, is named in the footer, and the total says
  INCOMPLETE. A holding without a price is named as not priced. And the total is the sum of the
  spendable and the liquidity values of the priced rows, the two told apart whenever there is any
  liquidity.\<close>

theorem balance_sheet_accounts:
  assumes "r \<in> set rows"
  shows "(wanted z r \<longrightarrow> row_cell u prices r \<in> set (fst (sheet_cells rows u prices z)))
    \<and> (row_cell u prices r \<in> set (fst (sheet_cells rows u prices z))
         \<or> fl_zero (row_amount r) \<and> (\<forall>v. row_value r prices = Some v \<longrightarrow> fl_zero v)
           \<and> (\<exists>names. lit ''zero: '' @ py_join (lit '', '') names \<in> set (render rows u prices z)
                \<and> py_strip (row_label r) \<in> set names))
    \<and> (row_unavailable r \<longrightarrow>
         wanted z r \<and> amount_text r = lit ''?''
         \<and> (\<exists>names. no_answer @ py_join (lit '', '') names \<in> set (render rows u prices z)
                \<and> py_strip (row_label r) \<in> set names)
         \<and> (u \<noteq> None \<longrightarrow> (\<exists>t. last (fst (sheet_cells rows u prices z))
                = [lit ''total'', [], t, incomplete_note])))
    \<and> (u \<noteq> None \<and> \<not> row_unavailable r \<and> \<not> fl_zero (row_amount r) \<and> row_value r prices = None \<longrightarrow>
         (\<exists>names. not_priced @ py_join (lit '', '') names \<in> set (render rows u prices z)
                \<and> py_strip (row_label r) \<in> set names))
    \<and> (\<forall>p. u = Some p \<longrightarrow>
         last (fst (sheet_cells rows u prices z)) ! 2
           = unit_format p (fl_add (fl_sum (priced_values False prices (shown_rows z rows)))
                                   (fl_sum (priced_values True prices (shown_rows z rows)))))"
proof (intro conjI impI allI)
  let ?sheet = "sheet_cells rows u prices z"
  have shown: "row_cell u prices q \<in> set (fst ?sheet)" if "q \<in> set (shown_rows z rows)" for q
    using that by (auto simp: sheet_cells_def Let_def split: prod.splits)
  have foot: "set (snd ?sheet) \<subseteq> set (render rows u prices z)"
    by (cases ?sheet) (simp add: render_def)
  show "row_cell u prices r \<in> set (fst ?sheet)" if "wanted z r"
    by (rule shown) (rule shown_rowsI [OF assms that])
  show "row_cell u prices r \<in> set (fst ?sheet)
      \<or> fl_zero (row_amount r) \<and> (\<forall>v. row_value r prices = Some v \<longrightarrow> fl_zero v)
      \<and> (\<exists>names. lit ''zero: '' @ py_join (lit '', '') names \<in> set (render rows u prices z)
           \<and> py_strip (row_label r) \<in> set names)"
  proof (cases "r \<in> set (shown_rows z rows)")
    case False
    with shown_or_hidden [OF assms, of z] have hid: "\<not> wanted z r"
        "py_strip (row_label r) \<in> set (hidden_names z rows)" by blast+
    then have "lit ''zero: '' @ py_join (lit '', '') (hidden_names z rows) \<in> set (snd ?sheet)"
      by (auto simp: sheet_cells_def Let_def split: prod.splits)
    moreover have "fl_zero (row_amount r)" using hid(1) by (simp add: wanted_def)
    ultimately show ?thesis using hid foot hidden_worthless [OF hid(1)] by blast
  qed (use shown in blast)
  show "wanted z r" "amount_text r = lit ''?''" if "row_unavailable r"
    using that by (simp_all add: wanted_def amount_text_def)
  show "\<exists>names. no_answer @ py_join (lit '', '') names \<in> set (render rows u prices z)
           \<and> py_strip (row_label r) \<in> set names" if "row_unavailable r"
  proof -
    have "no_answer @ py_join (lit '', '') (silent_names rows) \<in> set (snd ?sheet)"
      using silent_rows [OF assms that] by (auto simp: sheet_cells_def Let_def split: prod.splits)
    with foot silent_rows [OF assms that] show ?thesis by blast
  qed
  show "\<exists>t. last (fst ?sheet) = [lit ''total'', [], t, incomplete_note]"
    if "row_unavailable r" "u \<noteq> None"
    using silent_rows [OF assms that(1)] that(2)
    by (auto simp: sheet_cells_def sheet_totals_def tally_rows_eq Let_def)
  show "\<exists>names. not_priced @ py_join (lit '', '') names \<in> set (render rows u prices z)
           \<and> py_strip (row_label r) \<in> set names"
    if "u \<noteq> None \<and> \<not> row_unavailable r \<and> \<not> fl_zero (row_amount r) \<and> row_value r prices = None"
  proof -
    have "r \<in> set (shown_rows z rows)" using that by (intro shown_rowsI [OF assms]) (simp add: wanted_def)
    with that have named: "py_strip (row_label r) \<in> set (unpriced_names prices (shown_rows z rows))"
      by (auto simp: unpriced_names_def)
    then have "not_priced @ py_join (lit '', '') (unpriced_names prices (shown_rows z rows)) \<in> set (snd ?sheet)"
      using that by (auto simp: sheet_cells_def sheet_totals_def tally_rows_eq Let_def)
    with foot named show ?thesis by blast
  qed
  show "last (fst ?sheet) ! 2
      = unit_format p (fl_add (fl_sum (priced_values False prices (shown_rows z rows)))
                              (fl_sum (priced_values True prices (shown_rows z rows))))"
    if "u = Some p" for p
    using that by (simp add: sheet_cells_def sheet_totals_def tally_rows_eq Let_def)
qed

section \<open>Amounts print exactly\<close>

lemma fixed_digits_hd: "\<exists>c cs. fixed_digits d n = c # cs \<and> c \<noteq> 43 \<and> c \<noteq> 45"
proof -
  obtain c cs where c: "dec_nat (n div 10 ^ d) = c # cs"
    by (meson dec_nat_neq_Nil neq_Nil_conv)
  then have "is_digit c" using dec_nat_digits [of c "n div 10 ^ d"] by simp
  with c show ?thesis by (auto simp: fixed_digits_def is_digit_def)
qed

lemma signed_digits_inject:
  "(if w < 0 then lit ''-'' else if with_sign then lit ''+'' else []) @ fixed_digits d (nat \<bar>w\<bar>)
     = (if v < 0 then lit ''-'' else if with_sign then lit ''+'' else []) @ fixed_digits d (nat \<bar>v\<bar>)
   \<Longrightarrow> w = v" (is "?l = ?r \<Longrightarrow> _")
proof -
  assume eq: "?l = ?r"
  then have same: "w < 0 \<longleftrightarrow> v < 0"
    using fixed_digits_hd [of d "nat \<bar>w\<bar>"] fixed_digits_hd [of d "nat \<bar>v\<bar>"]
    by (auto simp: lit_def split: if_splits)
  with eq have "fixed_digits d (nat \<bar>w\<bar>) = fixed_digits d (nat \<bar>v\<bar>)" by simp
  then have "nat \<bar>w\<bar> = nat \<bar>v\<bar>" by (simp only: fixed_digits_inject)
  with same show ?thesis by linarith
qed

text \<open>The listings and the balance sheet print an amount exactly. Below \<open>2^51\<close> base units,
  which is more than all the bitcoin there will be, dividing by the power of ten as a float and
  formatting gives back every digit of the integer, with its sign; so two different amounts never
  print alike.\<close>

theorem sheets_print_exact_units:
  assumes "\<bar>v\<bar> < 2 ^ 51"
  shows "scaled_text v d with_sign
           = (if v < 0 then lit ''-'' else if with_sign then lit ''+'' else [])
             @ fixed_digits d (nat \<bar>v\<bar>)
       \<and> (br_decimals rep = 8 \<and> br_confirmed rep = v \<longrightarrow>
            amount_text (balance_row rep)
              = (if v < 0 then lit ''-'' else []) @ fixed_digits 8 (nat \<bar>v\<bar>))
       \<and> (\<forall>w. \<bar>w\<bar> < 2 ^ 51 \<and> scaled_text w d with_sign = scaled_text v d with_sign \<longrightarrow> w = v)"
proof (intro conjI impI allI)
  have shape: "scaled_text w d with_sign
      = (if w < 0 then lit ''-'' else if with_sign then lit ''+'' else []) @ fixed_digits d (nat \<bar>w\<bar>)"
    if "\<bar>w\<bar> < 2 ^ 51" for w
    using fixed_of_units(1) [OF that, of d] by (simp add: scaled_text_def Let_def lit_def)
  show "scaled_text v d with_sign
      = (if v < 0 then lit ''-'' else if with_sign then lit ''+'' else []) @ fixed_digits d (nat \<bar>v\<bar>)"
    by (rule shape) fact
  show "amount_text (balance_row rep)
      = (if v < 0 then lit ''-'' else []) @ fixed_digits 8 (nat \<bar>v\<bar>)"
    if "br_decimals rep = 8 \<and> br_confirmed rep = v"
    using fixed_of_units(1) [OF assms, of 8] that
    by (simp add: amount_text_def balance_row_def Let_def lit_def)
  fix w
  assume w: "\<bar>w\<bar> < 2 ^ 51 \<and> scaled_text w d with_sign = scaled_text v d with_sign"
  then show "w = v"
    using shape [of w] shape [of v] assms signed_digits_inject [of w with_sign d v] by simp
qed

theorem sheets_print_exact_units_witness:
  "scaled_text (- 2099999999999999) 8 True = lit ''-'' @ fixed_digits 8 2099999999999999
   \<and> scaled_text 1 8 True \<noteq> scaled_text 2 8 True"
proof
  show "scaled_text (- 2099999999999999) 8 True = lit ''-'' @ fixed_digits 8 2099999999999999"
    by (rule sheets_print_exact_units [of "- 2099999999999999" 8 True, THEN conjunct1,
          simplified if_True simp_thms, THEN trans]) simp_all
  have "(1::int) \<noteq> 2" "\<bar>1::int\<bar> < 2 ^ 51" "\<bar>2::int\<bar> < 2 ^ 51" by simp_all
  then show "scaled_text 1 8 True \<noteq> scaled_text 2 8 True"
    using sheets_print_exact_units [of 2 8 True] by metis
qed

definition example_btc :: sheet_row where
  "example_btc =
     \<lparr>row_label = lit ''BTC'', row_amount = Flt 1 (- 1), row_asset = lit ''BTC'', row_note = [],
      row_lp = False, row_approx = False, row_unavailable = False\<rparr>"

definition example_dash :: sheet_row where
  "example_dash = example_btc \<lparr>row_label := lit ''DASH'', row_asset := lit ''DASH'',
     row_amount := Flt 0 0, row_unavailable := True\<rparr>"

definition example_ltc :: sheet_row where
  "example_ltc = example_btc \<lparr>row_label := lit ''LTC'', row_asset := lit ''LTC'', row_amount := Flt 0 0\<rparr>"

definition example_rows :: "sheet_row list" where
  "example_rows = [example_btc, example_dash, example_ltc]"

theorem balance_sheet_accounts_witness:
  "wanted False example_dash
   \<and> (\<exists>names. no_answer @ py_join (lit '', '') names
        \<in> set (render example_rows (Some (new_unit (lit ''USD'') (lit ''usd'') (lit ''$'') [] 2))
                 [(lit ''BTC'', Flt 3 10)] False)
        \<and> py_strip (lit ''DASH'') \<in> set names)"
  using balance_sheet_accounts [of example_dash example_rows False
      "Some (new_unit (lit ''USD'') (lit ''usd'') (lit ''$'') [] 2)" "[(lit ''BTC'', Flt 3 10)]"]
  by (simp add: example_rows_def example_dash_def example_btc_def)

end
