(* ===== verification/PyDecimal.thy ===== *)
theory PyDecimal
  imports Complex_Main PyText
begin

text \<open>
  \<open>decimal.Decimal\<close> as the amounts of the command line use it: the text constructor, which is
  exact, multiplication by an integer in the default context (28 significant digits, half to
  even, an Overflow beyond the exponent 999999), exact comparison, and \<open>to_integral_value\<close> with
  ROUND_HALF_EVEN. Digits are ASCII. A product below the smallest exponent of the context is kept
  as it is; it is only ever compared with 1.
\<close>

datatype decimal = DFin bool nat int | DInf bool | DNaN | DSNaN

text \<open>The number \<open>DFin s c e\<close> stands for, \<open>c * 10^e\<close> with the sign \<open>s\<close>.\<close>

fun dec_val :: "decimal \<Rightarrow> rat" where
  "dec_val (DFin s c e) = (if s then - 1 else 1) * of_nat c * 10 powi e"
| "dec_val _ = 0"

section \<open>The constructor\<close>

definition coefficient_value :: "pystr \<Rightarrow> nat" where
  "coefficient_value s = foldl (\<lambda>n c. 10 * n + (c - 48)) 0 s"

definition split_sign :: "pystr \<Rightarrow> bool \<times> pystr" where
  "split_sign s =
     (case s of [] \<Rightarrow> (False, [])
      | c # cs \<Rightarrow> if c = 45 then (True, cs) else if c = 43 then (False, cs) else (False, s))"

text \<open>The exponent part: nothing, or \<open>e\<close>, a sign and digits.\<close>

definition parse_exponent :: "pystr \<Rightarrow> int option" where
  "parse_exponent s =
     (case s of [] \<Rightarrow> Some 0
      | c # cs \<Rightarrow>
          (case split_sign cs of (neg, ds) \<Rightarrow>
             if (c = 101 \<or> c = 69) \<and> ds \<noteq> [] \<and> list_all is_digit ds
             then Some ((if neg then - 1 else 1) * int (coefficient_value ds)) else None))"

definition exponent_limit :: int where
  "exponent_limit = 999999999999999999"

definition parse_finite :: "bool \<Rightarrow> pystr \<Rightarrow> decimal option" where
  "parse_finite neg s =
     (let whole = takeWhile is_digit s; rest = dropWhile is_digit s;
          (frac, rest') = (case rest of
             c # cs \<Rightarrow> if c = 46 then (takeWhile is_digit cs, dropWhile is_digit cs) else ([], rest)
           | [] \<Rightarrow> ([], []))
      in if whole @ frac = [] then None
         else case parse_exponent rest' of
           None \<Rightarrow> None
         | Some x \<Rightarrow>
             let e = x - int (length frac) in
             if e + int (length (whole @ frac)) - 1 > exponent_limit \<or> e < - 2 * exponent_limit
             then None else Some (DFin neg (coefficient_value (whole @ frac)) e))"

definition parse_special :: "bool \<Rightarrow> pystr \<Rightarrow> decimal option" where
  "parse_special neg s =
     (if s = lit ''inf'' \<or> s = lit ''infinity'' then Some (DInf neg)
      else if prefix (lit ''nan'') s \<and> list_all is_digit (drop 3 s) then Some DNaN
      else if prefix (lit ''snan'') s \<and> list_all is_digit (drop 4 s) then Some DSNaN
      else None)"

text \<open>\<open>Decimal(text)\<close>; None is the InvalidOperation.\<close>

definition decimal_of_text :: "pystr \<Rightarrow> decimal option" where
  "decimal_of_text text =
     (case split_sign (filter (\<lambda>c. c \<noteq> 95) (py_strip text)) of (neg, s) \<Rightarrow>
        case parse_special neg (py_lower s) of
          Some d \<Rightarrow> Some d
        | None \<Rightarrow> parse_finite neg s)"

section \<open>Operations\<close>

fun ndigits :: "nat \<Rightarrow> nat" where
  "ndigits n = (if n = 0 then 0 else Suc (ndigits (n div 10)))"

declare ndigits.simps [simp del]

text \<open>\<open>m / 10^k\<close> to the nearest integer, half to even.\<close>

definition round_dec :: "nat \<Rightarrow> nat \<Rightarrow> nat" where
  "round_dec m k =
     (let q = m div 10 ^ k; r = m mod 10 ^ k in
      if 2 * r < 10 ^ k then q
      else if 2 * r > 10 ^ k then q + 1
      else if even q then q else q + 1)"

definition context_prec :: nat where
  "context_prec = 28"

text \<open>\<open>Decimal * int\<close> for a finite decimal and a positive integer; None is the Overflow.\<close>

fun dec_mul_nat :: "decimal \<Rightarrow> nat \<Rightarrow> decimal option" where
  "dec_mul_nat (DFin s c e) n =
     (let k = ndigits (c * n) - context_prec; c' = round_dec (c * n) k; e' = e + int k in
      if c' \<noteq> 0 \<and> e' + int (ndigits c') - 1 > 999999 then None else Some (DFin s c' e'))"
| "dec_mul_nat d n = Some d"

text \<open>\<open>d < 1\<close>, \<open>d <= 0\<close> and \<open>d == d'\<close>, exact.\<close>

fun dec_below_one :: "decimal \<Rightarrow> bool" where
  "dec_below_one (DFin s c e) \<longleftrightarrow>
     s \<or> (if 0 \<le> e then c = 0 else c < 10 ^ nat (- e))"
| "dec_below_one (DInf s) \<longleftrightarrow> s"
| "dec_below_one _ \<longleftrightarrow> False"

fun dec_nonpos :: "decimal \<Rightarrow> bool" where
  "dec_nonpos (DFin s c e) \<longleftrightarrow> s \<or> c = 0"
| "dec_nonpos (DInf s) \<longleftrightarrow> s"
| "dec_nonpos _ \<longleftrightarrow> False"

fun dec_finite :: "decimal \<Rightarrow> bool" where
  "dec_finite (DFin s c e) = True"
| "dec_finite _ = False"

fun dec_eq :: "decimal \<Rightarrow> decimal \<Rightarrow> bool" where
  "dec_eq (DFin s c e) (DFin t d f) \<longleftrightarrow>
     (let k = min e f; m = c * 10 ^ nat (e - k); n = d * 10 ^ nat (f - k) in
      m = n \<and> (s = t \<or> m = 0))"
| "dec_eq (DInf s) (DInf t) \<longleftrightarrow> s = t"
| "dec_eq _ _ \<longleftrightarrow> False"

text \<open>\<open>int(d.to_integral_value(rounding=ROUND_HALF_EVEN))\<close> of a finite decimal.\<close>

fun dec_to_int :: "decimal \<Rightarrow> int" where
  "dec_to_int (DFin s c e) =
     (if s then - 1 else 1) * int (if 0 \<le> e then c * 10 ^ nat e else round_dec c (nat (- e)))"
| "dec_to_int _ = 0"

section \<open>Lemmas\<close>

lemma ndigits_0 [simp]: "ndigits 0 = 0"
  by (simp add: ndigits.simps)

lemma ndigits_upper: "n < 10 ^ ndigits n"
proof (induction n rule: ndigits.induct)
  case (1 n)
  then show ?case by (cases "n = 0") (auto simp: ndigits.simps [of n])
qed

lemma ndigits_le: "n < 10 ^ k \<Longrightarrow> ndigits n \<le> k"
proof (induction n arbitrary: k rule: ndigits.induct)
  case (1 n)
  show ?case
  proof (cases "n = 0")
    case True
    then show ?thesis by simp
  next
    case False
    then obtain j where "k = Suc j" using 1(2) by (cases k) auto
    with 1 False show ?thesis by (simp add: ndigits.simps [of n] less_mult_imp_div_less)
  qed
qed

lemma ndigits_lower: "0 < n \<Longrightarrow> 10 ^ (ndigits n - 1) \<le> n"
  using ndigits_le [of n "ndigits n - 1"]
  by (cases "ndigits n") (auto simp: ndigits.simps [of n] not_less [symmetric])

lemma round_dec_0 [simp]: "round_dec m 0 = m"
  by (simp add: round_dec_def)

lemma round_dec_error: "2 * \<bar>int (round_dec m k) * 10 ^ k - int m\<bar> \<le> 10 ^ k"
proof -
  define p :: nat where "p = 10 ^ k"
  define q r where "q = m div p" and "r = m mod p"
  have m: "int m = int q * int p + int r"
    unfolding q_def r_def by (metis div_mult_mod_eq of_nat_add of_nat_mult)
  have "r < p" by (simp add: p_def r_def)
  have "round_dec m k =
    (if 2 * r < p then q else if p < 2 * r then q + 1 else if even q then q else q + 1)"
    by (simp add: round_dec_def Let_def p_def q_def r_def)
  then consider "round_dec m k = q" "2 * r \<le> p" | "round_dec m k = q + 1" "p \<le> 2 * r"
    by (auto split: if_splits)
  then have "2 * \<bar>int (round_dec m k) * int p - int m\<bar> \<le> int p"
    using m \<open>r < p\<close> by cases (auto simp: distrib_right)
  then show ?thesis by (simp add: p_def)
qed

lemma round_dec_pos: "10 ^ k \<le> m \<Longrightarrow> 0 < round_dec m k"
proof -
  assume "10 ^ k \<le> m"
  then have "0 < m div 10 ^ k" by (simp add: div_greater_zero_iff)
  then show ?thesis by (simp add: round_dec_def Let_def)
qed

lemma dec_below_one_val:
  "dec_finite d \<Longrightarrow> dec_below_one d \<longleftrightarrow> dec_val d < 1"
proof (cases d)
  case (DFin s c e)
  show ?thesis
  proof (cases s)
    case True
    have "0 \<le> (of_nat c :: rat) * 10 powi e" by simp
    then have "- ((of_nat c :: rat) * 10 powi e) < 1" by linarith
    with True DFin show ?thesis by simp
  next
    case False
    show ?thesis
    proof (cases "0 \<le> e")
      case True
      then have "(10 :: rat) powi e = of_nat (10 ^ nat e)" by (simp add: power_int_def)
      then have "dec_val d = of_nat (c * 10 ^ nat e)" using False DFin by simp
      then have "dec_val d < 1 \<longleftrightarrow> c * 10 ^ nat e < 1" by (metis of_nat_1 of_nat_less_iff)
      with True False DFin show ?thesis by simp
    next
      case neg: False
      then have "(10 :: rat) powi e = 1 / of_nat (10 ^ nat (- e))"
        by (simp add: power_int_def inverse_eq_divide power_one_over)
      then have "dec_val d = of_nat c / of_nat (10 ^ nat (- e))" using False DFin by simp
      then have "dec_val d < 1 \<longleftrightarrow> c < 10 ^ nat (- e)"
        by (simp add: divide_less_eq del: of_nat_power)
      with neg False DFin show ?thesis by simp
    qed
  qed
qed simp_all

text \<open>The value of a product is the exact one up to half a unit of the 28th digit.\<close>

lemma dec_mul_nat_val:
  assumes "dec_mul_nat (DFin s c e) n = Some d" "0 < n"
  shows "dec_finite d"
    and "\<bar>dec_val d - dec_val (DFin s c e) * of_nat n\<bar>
           \<le> \<bar>dec_val (DFin s c e)\<bar> * of_nat n * 5 / 10 ^ context_prec"
    and "ndigits (c * n) \<le> context_prec \<Longrightarrow> dec_val d = dec_val (DFin s c e) * of_nat n"
proof -
  define k where "k = ndigits (c * n) - context_prec"
  define m where "m = round_dec (c * n) k"
  have d: "d = DFin s m (e + int k)"
    using assms(1) unfolding m_def k_def by (auto simp: Let_def split: if_splits)
  show "dec_finite d" by (simp add: d)
  define sg :: rat where "sg = (if s then - 1 else 1)"
  have val: "dec_val d = sg * of_nat m * 10 ^ k * 10 powi e"
    unfolding d sg_def by (simp add: power_int_add power_int_of_nat)
  have orig: "dec_val (DFin s c e) * of_nat n = sg * of_nat (c * n) * 10 powi e"
    by (simp add: sg_def)
  show "dec_val d = dec_val (DFin s c e) * of_nat n" if "ndigits (c * n) \<le> context_prec"
    using that unfolding val orig by (simp add: k_def m_def)
  have "2 * \<bar>int m * 10 ^ k - int (c * n)\<bar> \<le> 10 ^ k" unfolding m_def by (rule round_dec_error)
  then have "(of_int (2 * \<bar>int m * 10 ^ k - int (c * n)\<bar>) :: rat) \<le> of_int (10 ^ k)"
    by (simp only: of_int_le_iff)
  then have err: "2 * \<bar>of_nat m * 10 ^ k - of_nat (c * n)\<bar> \<le> (10 ^ k :: rat)" by simp
  have bound: "2 * \<bar>of_nat m * 10 ^ k - of_nat (c * n)\<bar> \<le> (of_nat (c * n) * 10 / 10 ^ context_prec :: rat)"
  proof (cases "k = 0")
    case True
    then show ?thesis by (simp add: m_def)
  next
    case False
    then have "ndigits (c * n) - 1 = k + context_prec - 1" "0 < c * n"
      by (auto simp: k_def intro!: gr0I)
    then have "10 ^ (k + context_prec - 1) \<le> c * n" using ndigits_lower [of "c * n"] by simp
    then have "10 ^ k * 10 ^ context_prec \<le> (c * n) * 10"
      by (metis False add_is_0 mult.commute mult_le_mono1 power_add power_minus_mult zero_less_iff_neq_zero)
    then have "(of_nat (10 ^ k * 10 ^ context_prec) :: rat) \<le> of_nat ((c * n) * 10)"
      by (simp only: of_nat_le_iff)
    then have "(10 ^ k :: rat) \<le> of_nat (c * n) * 10 / 10 ^ context_prec"
      by (simp add: pos_le_divide_eq mult.commute)
    with err show ?thesis by linarith
  qed
  have "\<bar>dec_val d - dec_val (DFin s c e) * of_nat n\<bar>
      = \<bar>of_nat m * 10 ^ k - of_nat (c * n)\<bar> * 10 powi e"
    unfolding val orig
    by (simp add: sg_def abs_mult abs_minus_commute flip: left_diff_distrib mult.assoc)
  also have "\<dots> \<le> of_nat (c * n) * 5 / 10 ^ context_prec * 10 powi e"
  proof (rule mult_right_mono)
    have "2 * \<bar>of_nat m * 10 ^ k - of_nat (c * n)\<bar> \<le> 2 * (of_nat (c * n) * 5 / 10 ^ context_prec :: rat)"
      using bound by (simp add: mult.commute)
    then show "\<bar>of_nat m * 10 ^ k - of_nat (c * n)\<bar> \<le> (of_nat (c * n) * 5 / 10 ^ context_prec :: rat)"
      by (rule mult_left_le_imp_le) simp
  qed simp
  also have "\<dots> = \<bar>dec_val (DFin s c e)\<bar> * of_nat n * 5 / 10 ^ context_prec"
    by (simp add: abs_mult)
  finally show "\<bar>dec_val d - dec_val (DFin s c e) * of_nat n\<bar>
           \<le> \<bar>dec_val (DFin s c e)\<bar> * of_nat n * 5 / 10 ^ context_prec" .
qed

text \<open>Rounding to an integer moves a value by at most one half.\<close>

lemma dec_to_int_val: "dec_finite d \<Longrightarrow> 2 * \<bar>of_int (dec_to_int d) - dec_val d\<bar> \<le> 1"
proof (cases d)
  case (DFin s c e)
  define sg :: rat where "sg = (if s then - 1 else 1)"
  show ?thesis
  proof (cases "0 \<le> e")
    case True
    then have "(10 :: rat) powi e = 10 ^ nat e" by (simp add: power_int_def)
    then have "of_int (dec_to_int d) = dec_val d" using True DFin by simp
    then show ?thesis by simp
  next
    case False
    define k where "k = nat (- e)"
    define m where "m = round_dec c k"
    have pw: "(10 :: rat) powi e = 1 / 10 ^ k"
      using False by (simp add: power_int_def k_def inverse_eq_divide power_one_over)
    have "2 * \<bar>int m * 10 ^ k - int c\<bar> \<le> 10 ^ k" unfolding m_def by (rule round_dec_error)
    then have "(of_int (2 * \<bar>int m * 10 ^ k - int c\<bar>) :: rat) \<le> of_int (10 ^ k)"
      by (simp only: of_int_le_iff)
    then have "2 * \<bar>of_nat m * 10 ^ k - of_nat c\<bar> \<le> (10 ^ k :: rat)" by simp
    moreover have "of_nat m - of_nat c / 10 ^ k = (of_nat m * 10 ^ k - of_nat c) / (10 ^ k :: rat)"
      by (simp add: field_simps)
    ultimately have near: "2 * \<bar>of_nat m - of_nat c / 10 ^ k\<bar> \<le> (1 :: rat)"
      by (simp add: abs_divide field_simps)
    have "of_int (dec_to_int d) - dec_val d = sg * (of_nat m - of_nat c / 10 ^ k)"
      using False DFin by (simp add: sg_def m_def pw algebra_simps flip: k_def)
    moreover have "\<bar>sg\<bar> = 1" by (simp add: sg_def)
    ultimately show ?thesis using near by (simp add: abs_mult)
  qed
qed simp_all

lemma dec_to_int_pos: "dec_finite d \<Longrightarrow> \<not> dec_below_one d \<Longrightarrow> 1 \<le> dec_to_int d"
  using round_dec_pos by (cases d) (fastforce simp: Suc_le_eq split: if_splits)+

lemma dec_eq_val:
  "dec_eq (DFin s c e) (DFin t d f) \<longleftrightarrow> dec_val (DFin s c e) = dec_val (DFin t d f)"
proof -
  define k where "k = min e f"
  define m where "m = c * 10 ^ nat (e - k)"
  define n where "n = d * 10 ^ nat (f - k)"
  have pw: "(10 :: rat) powi g = 10 ^ nat (g - k) * 10 powi k" if "k \<le> g" for g
    using that power_int_add [of "10 :: rat" "g - k" k] by (simp add: power_int_def)
  have e: "dec_val (DFin s c e) = (if s then - 1 else 1) * of_nat m * 10 powi k"
    using pw [of e] by (simp add: m_def k_def mult.assoc)
  have f: "dec_val (DFin t d f) = (if t then - 1 else 1) * of_nat n * 10 powi k"
    using pw [of f] by (simp add: n_def k_def mult.assoc)
  have "dec_val (DFin s c e) = dec_val (DFin t d f)
      \<longleftrightarrow> (if s then - 1 else 1) * (of_nat m :: rat) = (if t then - 1 else 1) * of_nat n"
    unfolding e f by simp
  also have "\<dots> \<longleftrightarrow> (of_int ((if s then - 1 else 1) * int m) :: rat) = of_int ((if t then - 1 else 1) * int n)"
    by simp
  also have "\<dots> \<longleftrightarrow> (if s then - 1 else 1) * int m = (if t then - 1 else 1) * int n"
    by (rule of_int_eq_iff)
  also have "\<dots> \<longleftrightarrow> m = n \<and> (s = t \<or> m = 0)" by auto
  finally show ?thesis by (simp add: Let_def m_def n_def k_def)
qed

end
