(* ===== verification/Cli.thy ===== *)
theory Cli
  imports PyDecimal Backends Addresses Chainflip VaultSwap ChainBase
begin

text \<open>
  What the command line decides before an adapter builds anything, \<open>cli.py\<close>: reading amounts and
  scaling them to base units, the recipient of a send and the destination of a swap, the path a
  source asset takes, which backend may execute a swap, the fee target, and naming the protocol of
  an OP_RETURN. Printing, prompts and the argument parser itself are outside the model; a
  \<open>SystemExit\<close>, a \<open>SwapAborted\<close> and an \<open>ArgumentTypeError\<close> are values.
\<close>

section \<open>Amounts\<close>

definition FINEST_UNIT :: nat where
  "FINEST_UNIT = 10 ^ 10"

datatype amount_arg = Sweep | Amount decimal

text \<open>\<open>DecimalOverflow\<close> and \<open>DecimalInvalid\<close> are signals of the context that nothing catches.\<close>

datatype amount_error = NotPositive | BelowFinest | BelowUnit | DecimalOverflow | DecimalInvalid

definition parse_amount :: "pystr \<Rightarrow> amount_error + amount_arg" where
  "parse_amount value =
     (if py_lower value = lit ''max'' then Inr Sweep
      else case decimal_of_text value of
        None \<Rightarrow> Inl NotPositive
      | Some d \<Rightarrow>
          if \<not> dec_finite d \<or> dec_nonpos d then Inl NotPositive
          else case dec_mul_nat d FINEST_UNIT of
            None \<Rightarrow> Inl DecimalOverflow
          | Some p \<Rightarrow> if dec_below_one p then Inl BelowFinest else Inr (Amount d))"

definition base_units :: "decimal \<Rightarrow> nat \<Rightarrow> amount_error + int" where
  "base_units amount unit =
     (case dec_mul_nat amount unit of
        None \<Rightarrow> Inl DecimalOverflow
      | Some p \<Rightarrow> if dec_below_one p then Inl BelowUnit else Inr (dec_to_int p))"

text \<open>
  \<open>_amount_differs\<close>; comparing with a signalling NaN raises, also when the amounts are only
  tested for being different.
\<close>

definition amount_differs :: "pystr \<Rightarrow> amount_arg \<Rightarrow> amount_error + bool" where
  "amount_differs uri_amount requested =
     (case decimal_of_text uri_amount of
        None \<Rightarrow> Inr False
      | Some d \<Rightarrow>
          (case requested of
             Sweep \<Rightarrow> Inr True
           | Amount r \<Rightarrow> if d = DSNaN \<or> r = DSNaN then Inl DecimalInvalid else Inr (\<not> dec_eq d r)))"

text \<open>The integer arguments; None is the \<open>ArgumentTypeError\<close>.\<close>

definition nonneg_int :: "pystr \<Rightarrow> int option" where
  "nonneg_int value =
     (case py_int value of None \<Rightarrow> None | Some n \<Rightarrow> if n < 0 then None else Some n)"

definition pos_int :: "pystr \<Rightarrow> int option" where
  "pos_int value =
     (case nonneg_int value of None \<Rightarrow> None | Some n \<Rightarrow> if n < 1 then None else Some n)"

definition bps_arg :: "pystr \<Rightarrow> int option" where
  "bps_arg value =
     (case py_int value of None \<Rightarrow> None | Some n \<Rightarrow> if 1 \<le> n \<and> n \<le> 10000 then Some n else None)"

section \<open>Fee settings\<close>

definition DEFAULT_FEE_BLOCKS :: int where
  "DEFAULT_FEE_BLOCKS = 2"

text \<open>
  \<open>_fee_blocks\<close>: the flag, the environment, the configuration (any TOML value), in this order; a
  value that is missing, that \<open>int\<close> refuses or that is not positive is passed over.
\<close>

fun first_blocks :: "json list \<Rightarrow> int" where
  "first_blocks [] = DEFAULT_FEE_BLOCKS"
| "first_blocks (v # vs) =
     (if v = JNull then first_blocks vs
      else case json_int v of
        Inl e \<Rightarrow> first_blocks vs
      | Inr blocks \<Rightarrow> if 0 < blocks then blocks else first_blocks vs)"

definition fee_blocks :: "json \<Rightarrow> json \<Rightarrow> (pystr \<times> json) list \<Rightarrow> int" where
  "fee_blocks flag env config =
     first_blocks
       [flag, env,
        (case dget config (lit ''fees'') of JObj fees \<Rightarrow> dget fees (lit ''target_blocks'') | _ \<Rightarrow> JNull)]"

definition max_fee_of :: "int option \<Rightarrow> int option \<Rightarrow> int" where
  "max_fee_of flag adapter_default =
     (case flag of Some f \<Rightarrow> f
      | None \<Rightarrow> (case adapter_default of Some f \<Rightarrow> f | None \<Rightarrow> DEFAULT_MAX_FEE))"

definition tolerance_of :: "int option \<Rightarrow> int \<Rightarrow> int" where
  "tolerance_of flag fallback = (case flag of None \<Rightarrow> fallback | Some t \<Rightarrow> t)"

text \<open>The gas an EVM sweep holds back; the two gas limits are constants of the adapter.\<close>

definition evm_sweep_gas :: "int \<Rightarrow> int \<Rightarrow> pystr \<Rightarrow> int option \<Rightarrow> int" where
  "evm_sweep_gas default_gas vault_swap_gas backend requested =
     (let gas = (case requested of None \<Rightarrow> default_gas | Some g \<Rightarrow> g) in
      if backend = lit ''auto'' \<or> backend = lit ''chainflip'' then max gas vault_swap_gas else gas)"

section \<open>Assets and paths\<close>

definition ASSET :: "(pystr \<times> pystr) list" where
  "ASSET =
     [(lit ''BTC'', lit ''BTC.BTC''), (lit ''ETH'', lit ''ETH.ETH''), (lit ''TRX'', lit ''TRON.TRX''),
      (lit ''USDT-TRON'', lit ''TRON.USDT-TR7NHQJEKQXGTCI8Q8ZY4PL8OTSZGJLJ6T''),
      (lit ''USDT-ETH'', lit ''ETH.USDT-0XDAC17F958D2EE523A2206206994597C13D831EC7''),
      (lit ''USDC-ETH'', lit ''ETH.USDC-0XA0B86991C6218B36C1D19D4A2E9EB0CE3606EB48''),
      (lit ''DASH'', lit ''DASH.DASH''), (lit ''ZEC'', lit ''ZEC.ZEC''), (lit ''LTC'', lit ''LTC.LTC''),
      (lit ''DOGE'', lit ''DOGE.DOGE''), (lit ''BCH'', lit ''BCH.BCH''), (lit ''ATOM'', lit ''GAIA.ATOM''),
      (lit ''XRP'', lit ''XRP.XRP''), (lit ''ADA'', lit ''ADA.ADA''), (lit ''ETH-ARB'', lit ''ARB.ETH''),
      (lit ''AVAX'', lit ''AVAX.AVAX''),
      (lit ''USDC-AVAX'', lit ''AVAX.USDC-0XB97EF9EF8734C71904D8002F8B6BC66DD9C48A6E''),
      (lit ''USDT-AVAX'', lit ''AVAX.USDT-0X9702230A8EA53601F5CD2DC00FDBC13D4DF4A8C7''),
      (lit ''USDC-ARB'', lit ''ARB.USDC-0XAF88D065E77C8CC2239327C5EDB3A432268E5831''),
      (lit ''BNB'', lit ''BSC.BNB''),
      (lit ''USDT-BSC'', lit ''BSC.USDT-0X55D398326F99059FF775485246999027B3197955''),
      (lit ''USDC-BSC'', lit ''BSC.USDC-0X8AC76A51CC950D9822D68B83FE1AD97B32CD580D''),
      (lit ''CACAO'', lit ''MAYA.CACAO''), (lit ''RUNE'', lit ''THOR.RUNE'')]"

definition asset_chain :: "pystr \<Rightarrow> py_error + pystr" where
  "asset_chain key =
     (case map_of ASSET key of None \<Rightarrow> Inl KeyError | Some pool \<Rightarrow> Inr (before_sep 46 pool))"

text \<open>The registries of adapters, by chain.\<close>

definition UTXO_ADAPTERS :: "pystr list" where
  "UTXO_ADAPTERS = [lit ''BTC'', lit ''DASH'', lit ''ZEC'', lit ''ADA'']"

definition EVM_ADAPTERS :: "pystr list" where
  "EVM_ADAPTERS = [lit ''ETH'', lit ''ARB'', lit ''AVAX'', lit ''BSC'']"

datatype wallet_path = UtxoPath pystr | EvmPath pystr | TronPath | CosmosPath pystr

text \<open>The dispatch \<open>cmd_swap\<close> and \<open>cmd_send\<close> share; None is \<open>not implemented yet\<close>.\<close>

definition wallet_path_of :: "pystr \<Rightarrow> wallet_path option" where
  "wallet_path_of chain =
     (if chain \<in> set UTXO_ADAPTERS then Some (UtxoPath chain)
      else if chain \<in> set EVM_ADAPTERS then Some (EvmPath chain)
      else if chain = lit ''TRON'' then Some TronPath
      else if chain = lit ''MAYA'' then Some (CosmosPath (lit ''MAYA''))
      else if chain = lit ''THOR'' then Some (CosmosPath (lit ''THOR''))
      else None)"

definition cmd_swap :: "pystr \<Rightarrow> py_error + wallet_path option" where
  "cmd_swap from_key = bind_res (asset_chain from_key) (\<lambda>chain. Inr (wallet_path_of chain))"

section \<open>Recipients\<close>

type_synonym checks = "(alphabet \<Rightarrow> pystr \<Rightarrow> bytes option) \<times> (bytes \<Rightarrow> bytes)"

definition dest_problem :: "checks \<Rightarrow> pystr \<Rightarrow> pystr \<Rightarrow> py_error + address_problem option" where
  "dest_problem lib chain address = validate_destination_address (fst lib) (snd lib) chain address"

datatype send_outcome =
  BadRecipient address_problem
| UriDisagrees pystr
| SendNotImplemented
| SendVia wallet_path pystr amount_arg

datatype send_error = SendPy py_error | SendDecimal amount_error

definition send_dispatch :: "pystr \<Rightarrow> pystr \<Rightarrow> amount_arg \<Rightarrow> send_outcome" where
  "send_dispatch chain address amount =
     (case wallet_path_of chain of None \<Rightarrow> SendNotImplemented | Some p \<Rightarrow> SendVia p address amount)"

definition cmd_send ::
  "checks \<Rightarrow> pystr \<Rightarrow> pystr \<Rightarrow> amount_arg \<Rightarrow> send_error + send_outcome" where
  "cmd_send lib asset address amount =
     (case asset_chain asset of
        Inl e \<Rightarrow> Inl (SendPy e)
      | Inr chain \<Rightarrow>
          (case dest_problem lib chain address of
             Inl e \<Rightarrow> Inl (SendPy e)
           | Inr (Some problem) \<Rightarrow> Inr (BadRecipient problem)
           | Inr None \<Rightarrow>
               (case parse_payment_uri address of (a, params) \<Rightarrow>
                  case map_of params (lit ''amount'') of
                    None \<Rightarrow> Inr (send_dispatch chain a amount)
                  | Some uri_amount \<Rightarrow>
                      (case amount_differs uri_amount amount of
                         Inl e \<Rightarrow> Inl (SendDecimal e)
                       | Inr True \<Rightarrow> Inr (UriDisagrees uri_amount)
                       | Inr False \<Rightarrow> Inr (send_dispatch chain a amount)))))"

text \<open>
  \<open>_resolve_destination\<close>: an explicit \<open>--dest\<close> is checked and taken out of its URI, and has to
  fit the memo of a UTXO source; otherwise the wallet derives its own address, when it can. The
  deriver is an argument. \<open>MemoTooLong\<close> is the \<open>SystemExit\<close> of \<open>_dest_chain_caveats\<close>.
\<close>

definition DERIVABLE_CHAINS :: "pystr list" where
  "DERIVABLE_CHAINS =
     [lit ''BTC'', lit ''ETH'', lit ''ARB'', lit ''AVAX'', lit ''BSC'', lit ''TRON'', lit ''DASH'',
      lit ''ZEC'', lit ''ADA'', lit ''MAYA'', lit ''THOR'', lit ''GAIA'']"

definition RECEIVE_ONLY_CHAINS :: "pystr list" where
  "RECEIVE_ONLY_CHAINS = [lit ''GAIA'']"

datatype dest_warning = NoDestinationTag | NotMainnet pystr | ReceiveOnly bool

datatype dest_outcome =
  BadDest address_problem
| MemoTooLong nat nat
| Destination pystr "dest_warning list"
| NoDestination "dest_warning list"

definition utxo_memo_max :: "pystr \<Rightarrow> nat" where
  "utxo_memo_max chain = (if chain = lit ''ADA'' then 250 else OP_RETURN_MAX_BYTES)"

definition shortest_memo :: "pystr \<Rightarrow> nat" where
  "shortest_memo dest = length (lit ''=:x:'') + length dest"

definition chain_warnings :: "pystr \<Rightarrow> dest_warning list" where
  "chain_warnings chain =
     (if chain = lit ''XRP'' then [NoDestinationTag] else [])
     @ (if is_evm_chain chain \<and> chain \<noteq> lit ''ETH'' then [NotMainnet chain] else [])"

definition dest_chain_caveats :: "pystr \<Rightarrow> pystr \<Rightarrow> pystr \<Rightarrow> dest_outcome" where
  "dest_chain_caveats from_chain chain dest =
     (if from_chain \<in> set UTXO_ADAPTERS \<and> utxo_memo_max from_chain < shortest_memo dest
      then MemoTooLong (shortest_memo dest) (utxo_memo_max from_chain)
      else Destination dest (chain_warnings chain))"

definition derive_destination ::
  "(pystr \<Rightarrow> pystr \<Rightarrow> pystr \<Rightarrow> pystr) \<Rightarrow> pystr \<Rightarrow> pystr \<Rightarrow> pystr \<Rightarrow> pystr option" where
  "derive_destination deriver chain mnemonic passphrase =
     (if chain \<in> set DERIVABLE_CHAINS then Some (deriver chain mnemonic passphrase) else None)"

definition resolve_derived ::
  "(pystr \<Rightarrow> pystr \<Rightarrow> pystr \<Rightarrow> pystr) \<Rightarrow> pystr \<Rightarrow> pystr option \<Rightarrow> pystr \<Rightarrow> py_error + dest_outcome" where
  "resolve_derived deriver chain mnemonic passphrase =
     (case mnemonic of
        None \<Rightarrow> Inr (NoDestination [])
      | Some words \<Rightarrow>
          let warnings = (if chain \<in> set RECEIVE_ONLY_CHAINS then [ReceiveOnly (passphrase \<noteq> [])] else []) in
          (case derive_destination deriver chain words passphrase of
             None \<Rightarrow> Inr (NoDestination warnings)
           | Some a \<Rightarrow> Inr (Destination a warnings)))"

definition resolve_destination ::
  "checks \<Rightarrow> (pystr \<Rightarrow> pystr \<Rightarrow> pystr \<Rightarrow> pystr) \<Rightarrow> pystr \<Rightarrow> pystr \<Rightarrow> pystr option \<Rightarrow> pystr option
   \<Rightarrow> pystr \<Rightarrow> py_error + dest_outcome" where
  "resolve_destination lib deriver from_key to_key dest mnemonic passphrase =
     bind_res (asset_chain to_key) (\<lambda>chain.
       case dest of
         Some d \<Rightarrow>
           if d \<noteq> []
           then bind_res (dest_problem lib chain d) (\<lambda>problem.
                  case problem of
                    Some p \<Rightarrow> Inr (BadDest p)
                  | None \<Rightarrow>
                      bind_res (asset_chain from_key) (\<lambda>from_chain.
                        Inr (dest_chain_caveats from_chain chain (fst (parse_payment_uri d)))))
           else resolve_derived deriver chain mnemonic passphrase
       | None \<Rightarrow> resolve_derived deriver chain mnemonic passphrase)"

section \<open>Choosing the backend\<close>

definition MEMO_DEPOSIT_ONLY :: "pystr list" where
  "MEMO_DEPOSIT_ONLY = [lit ''memo-deposit'']"

definition UTXO_EXECUTORS :: "pystr list" where
  "UTXO_EXECUTORS = [lit ''memo-deposit'', lit ''vault-swap'']"

definition EVM_EXECUTORS :: "pystr list" where
  "EVM_EXECUTORS = [lit ''memo-deposit'', lit ''signed-order'', lit ''vault-swap'']"

text \<open>
  \<open>_can_execute\<close>; the pair is None for the call without one. The only backend that narrows its
  executor by pair is Chainflip's, with \<open>can_settle_vault_swap\<close>.
\<close>

definition narrower :: "('w, 'p) backend \<Rightarrow> (pystr \<Rightarrow> pystr \<Rightarrow> bool) option" where
  "narrower b = (if bk_name b = lit ''chainflip'' then Some can_settle_vault_swap else None)"

definition can_execute :: "('w, 'p) backend \<Rightarrow> pystr list \<Rightarrow> (pystr \<times> pystr) option \<Rightarrow> bool" where
  "can_execute b executors pair \<longleftrightarrow>
     bk_executor b \<in> set executors
     \<and> (case (narrower b, pair) of
          (Some f, Some (from_asset, to_asset)) \<Rightarrow> f from_asset to_asset
        | _ \<Rightarrow> True)"

datatype 'b selection_outcome =
  ChosenBackend 'b
| CannotExecute pystr
| CannotExecutePair pystr
| CannotServe pystr
| NoBackend

text \<open>\<open>_note_unexecutable_best\<close>: the name and the output of a better price that cannot be executed.\<close>

definition unexecutable_note ::
  "(('w, 'p) backend \<times> any_quote) list \<Rightarrow> any_quote \<Rightarrow> pystr list \<Rightarrow> pystr \<times> pystr
   \<Rightarrow> (pystr \<times> int) option" where
  "unexecutable_note results chosen executors pair =
     (case filter (\<lambda>r. \<not> can_execute (fst r) executors (Some pair)) results of
        [] \<Rightarrow> None
      | r # rs \<Rightarrow>
          (case max_loop r rs of (b, q) \<Rightarrow>
             if expected_out q \<le> expected_out chosen then None
             else Some (bk_name b, expected_out q)))"

text \<open>
  \<open>_select_backend\<close>. The outcome comes with the names of the backends whose clients were closed
  and the note that was printed; names tell the backends apart, as \<open>swap_backends\<close> makes one of
  each.
\<close>

record ('w, 'p) selected =
  sb_outcome :: "('w, 'p) backend selection_outcome"
  sb_closed :: "pystr list"
  sb_note :: "(pystr \<times> int) option"

definition select_single ::
  "pystr list \<Rightarrow> quote_args \<Rightarrow> ('w, 'p) backend \<Rightarrow> ('w, 'p) selected" where
  "select_single executors a b =
     (let stop = (\<lambda>out. \<lparr>sb_outcome = out, sb_closed = [bk_name b], sb_note = None\<rparr>) in
      if \<not> can_execute b executors None then stop (CannotExecute (bk_name b))
      else if \<not> can_execute b executors (Some (qa_from_asset a, qa_to_asset a))
      then stop (CannotExecutePair (bk_name b))
      else if \<not> bk_serves b (qa_from_asset a) (qa_to_asset a) then stop (CannotServe (bk_name b))
      else \<lparr>sb_outcome = ChosenBackend b, sb_closed = [], sb_note = None\<rparr>)"

definition select_best ::
  "('w, 'p) backend list \<Rightarrow> pystr list \<Rightarrow> quote_args \<Rightarrow> (('w, 'p) backend \<times> any_quote) list
   \<Rightarrow> ('w, 'p) selected" where
  "select_best backends executors a results =
     (let pair = (qa_from_asset a, qa_to_asset a) in
      case filter (\<lambda>r. can_execute (fst r) executors (Some pair)) results of
        [] \<Rightarrow> \<lparr>sb_outcome = NoBackend, sb_closed = map bk_name backends, sb_note = None\<rparr>
      | r # rs \<Rightarrow>
          (case max_loop r rs of (b, q) \<Rightarrow>
             \<lparr>sb_outcome = ChosenBackend b,
              sb_closed = filter (\<lambda>n. n \<noteq> bk_name b) (map bk_name backends),
              sb_note = unexecutable_note results q executors pair\<rparr>))"

definition select_backend ::
  "('w, 'p) backend list \<Rightarrow> pystr list \<Rightarrow> quote_args \<Rightarrow> ('w, 'p, ('w, 'p) selected) io" where
  "select_backend backends executors a =
     (case backends of
        [b] \<Rightarrow> ret (select_single executors a b)
      | _ \<Rightarrow> and_then (gather_quotes backends a) (\<lambda>results.
               ret (select_best backends executors a results)))"

section \<open>What a hash and a payload are\<close>

definition is_cow_order_uid :: "pystr \<Rightarrow> bool" where
  "is_cow_order_uid value \<longleftrightarrow>
     prefix (lit ''0x'') (py_lower value) \<and> length (drop 2 value) = 112
     \<and> py_int16 (drop 2 value) \<noteq> None"

definition decode_chainflip_output ::
  "tx_summary option \<Rightarrow> (tx_entry \<times> decoded_vault_swap) option" where
  "decode_chainflip_output tx =
     (case tx of None \<Rightarrow> None
      | Some t \<Rightarrow>
          (case List.map_filter
                  (\<lambda>out. case te_op_return_data out of None \<Rightarrow> None
                        | Some data \<Rightarrow> map_option (Pair out) (is_vault_swap_payload data))
                  (ts_outputs t) of
             [] \<Rightarrow> None | x # xs \<Rightarrow> Some x))"

definition MEMO_COMMANDS :: "pystr list" where
  "MEMO_COMMANDS =
     map lit [''swap'', ''s'', ''='', ''add'', ''a'', ''+'', ''withdraw'', ''wd'', ''-'', ''donate'',
              ''d'', ''%'', ''bond'', ''unbond'', ''leave'', ''migrate'', ''reserve'', ''refund'',
              ''consolidate'', ''noop'', ''trust'', ''out'', ''name'']"

datatype payload_label =
  Unreadable | VaultSwapTo pystr | VaultSwapUnknown nat | BinaryPayload | UnknownText pystr
| MemoOf pystr

definition op_return_protocol :: "bytes option \<Rightarrow> payload_label" where
  "op_return_protocol data =
     (case data of None \<Rightarrow> Unreadable
      | Some bs \<Rightarrow>
          (case is_vault_swap_payload bs of
             Some decoded \<Rightarrow>
               (case map_of VAULT_SWAP_ASSETS_BY_ID (vs_asset_id decoded) of
                  None \<Rightarrow> VaultSwapUnknown (vs_asset_id decoded)
                | Some asset \<Rightarrow> VaultSwapTo asset)
           | None \<Rightarrow>
               if \<not> list_all (\<lambda>b. unat b < 128) bs then BinaryPayload
               else let memo = map unat bs in
                    if py_lower (before_sep 58 memo) \<notin> set MEMO_COMMANDS then UnknownText memo
                    else MemoOf memo))"

section \<open>The coins a spend may use\<close>

text \<open>
  \<open>_spendable_utxos\<close> and \<open>_owned_addresses\<close> over the gap-limit scan, None where the scan does not
  end. \<open>fetch_utxos address include_unconfirmed\<close> is the adapter's.
\<close>

definition account_records ::
  "(pystr \<Rightarrow> pystr) \<Rightarrow> (pystr \<Rightarrow> address_info) \<Rightarrow> pystr \<Rightarrow> (pystr \<times> pystr \<times> address_info) list option" where
  "account_records derive probe account =
     scan_account derive probe ai_has_history account DEFAULT_GAP_LIMIT [0, 1] DEFAULT_WINDOW"

definition spendable_of ::
  "(pystr \<Rightarrow> bool \<Rightarrow> utxo list) \<Rightarrow> bool \<Rightarrow> (pystr \<times> pystr \<times> address_info) list \<Rightarrow> utxo list" where
  "spendable_of fetch_utxos allow records =
     concat (map (\<lambda>(path, address, info).
         if 0 < ai_confirmed info \<or> (allow \<and> 0 < ai_pending info)
         then map (\<lambda>u. u\<lparr>u_path := Some path\<rparr>) (fetch_utxos address allow) else [])
       records)"

definition spendable_utxos ::
  "(pystr \<Rightarrow> pystr) \<Rightarrow> (pystr \<Rightarrow> address_info) \<Rightarrow> pystr \<Rightarrow> bool \<Rightarrow> (pystr \<Rightarrow> bool \<Rightarrow> utxo list) \<Rightarrow> bool
   \<Rightarrow> utxo list option" where
  "spendable_utxos derive probe account unconfirmed_spendable fetch_utxos allow_unconfirmed =
     map_option (spendable_of fetch_utxos (allow_unconfirmed \<and> unconfirmed_spendable))
       (account_records derive probe account)"

definition owned_addresses ::
  "(pystr \<Rightarrow> pystr) \<Rightarrow> (pystr \<Rightarrow> address_info) \<Rightarrow> pystr \<Rightarrow> (pystr \<times> pystr) list option" where
  "owned_addresses derive probe account =
     map_option (\<lambda>records. dict_of (map (\<lambda>(path, address, info). (address, path)) records))
       (account_records derive probe account)"

section \<open>Amounts are scaled exactly\<close>

fun fits_context :: "decimal \<Rightarrow> nat \<Rightarrow> bool" where
  "fits_context (DFin s c e) n \<longleftrightarrow> ndigits (c * n) \<le> context_prec"
| "fits_context d n \<longleftrightarrow> True"

lemma parse_amount_pos:
  assumes "parse_amount value = Inr (Amount d)"
  obtains c e where "d = DFin False c e" "0 < c"
  using assms
  by (cases d) (auto simp: parse_amount_def split: if_splits option.splits)

lemma dec_val_lower:
  assumes "0 < c" "0 \<le> e + int (ndigits c) - 1"
  shows "1 \<le> dec_val (DFin False c e)"
proof -
  have nd: "0 < ndigits c" using assms(1) by (simp add: ndigits.simps [of c])
  have "(of_nat (10 ^ (ndigits c - 1)) :: rat) \<le> of_nat c"
    using ndigits_lower [OF assms(1)] by (simp only: of_nat_le_iff)
  then have "(10 :: rat) powi int (ndigits c - 1) \<le> of_nat c" by simp
  then have "(10 :: rat) powi int (ndigits c - 1) * 10 powi e \<le> of_nat c * 10 powi e"
    by (rule mult_right_mono) simp
  moreover have "(10 :: rat) powi int (ndigits c - 1) * 10 powi e = 10 powi (int (ndigits c - 1) + e)"
    by (simp add: power_int_add)
  moreover have "(1 :: rat) \<le> 10 powi (int (ndigits c - 1) + e)"
    using assms(2) nd by (intro one_le_power_int) auto
  ultimately have "(1 :: rat) \<le> of_nat c * 10 powi e" by linarith
  then show ?thesis by simp
qed

lemma fits_overflow:
  assumes "dec_mul_nat (DFin False c e) n = None" "fits_context (DFin False c e) n" "0 < c" "0 < n"
  shows "1 \<le> dec_val (DFin False c e) * of_nat n"
proof -
  have "1 \<le> dec_val (DFin False (c * n) e)"
    using assms by (intro dec_val_lower) (auto simp: Let_def split: if_splits)
  then show ?thesis by (simp add: mult_ac)
qed

lemma base_units_Inr:
  assumes "base_units d unit = Inr n" "d = DFin False c e" "0 < unit"
  shows "1 \<le> n" and "\<exists>p. dec_mul_nat d unit = Some p \<and> 2 * \<bar>of_int n - dec_val p\<bar> \<le> 1"
proof -
  obtain p where p: "dec_mul_nat d unit = Some p" "\<not> dec_below_one p" "n = dec_to_int p"
    using assms(1) by (auto simp: base_units_def split: option.splits if_splits)
  then have fin: "dec_finite p" using dec_mul_nat_val(1) assms(2, 3) by blast
  show "1 \<le> n" using dec_to_int_pos [OF fin p(2)] p(3) by simp
  show "\<exists>p. dec_mul_nat d unit = Some p \<and> 2 * \<bar>of_int n - dec_val p\<bar> \<le> 1"
    using p dec_to_int_val [OF fin] by blast
qed

lemma triangle_half:
  "\<bar>p - v\<bar> \<le> (b :: rat) \<Longrightarrow> 2 * \<bar>n - p\<bar> \<le> 1 \<Longrightarrow> \<bar>n - v\<bar> \<le> 1 / 2 + b"
  using abs_triangle_ineq [of "n - p" "p - v"] by simp

text \<open>An amount that was accepted on the command line is scaled to base units without loss. The
  result is never zero and differs from the amount by at most half a base unit, plus half a unit of
  the 28th digit. When the product has at most 28 digits, an amount that is a whole number of base
  units becomes exactly that number, and an amount is refused exactly when it is below one base
  unit.\<close>

theorem base_units_exact:
  assumes "parse_amount value = Inr (Amount d)" "0 < unit"
  shows "(\<forall>n. base_units d unit = Inr n \<longrightarrow>
           1 \<le> n \<and> \<bar>of_int n - dec_val d * of_nat unit\<bar>
                    \<le> 1 / 2 + dec_val d * of_nat unit * 5 / 10 ^ context_prec)
       \<and> (fits_context d unit \<longrightarrow>
           (base_units d unit = Inl BelowUnit \<longleftrightarrow> dec_val d * of_nat unit < 1)
           \<and> (\<forall>n. base_units d unit = Inr n \<longrightarrow>
                2 * \<bar>of_int n - dec_val d * of_nat unit\<bar> \<le> 1
                \<and> (\<forall>m. dec_val d * of_nat unit = of_int m \<longrightarrow> n = m)))"
proof -
  obtain c e where d: "d = DFin False c e" "0 < c" using parse_amount_pos [OF assms(1)] .
  have nonneg: "0 \<le> dec_val d" by (simp add: d)
  note mul = dec_mul_nat_val [of False c e unit, folded d(1), OF _ assms(2)]
  have near: "1 \<le> n \<and> \<bar>of_int n - dec_val d * of_nat unit\<bar>
      \<le> 1 / 2 + dec_val d * of_nat unit * 5 / 10 ^ context_prec" if unit: "base_units d unit = Inr n" for n
  proof -
    obtain p where p: "dec_mul_nat d unit = Some p" "2 * \<bar>of_int n - dec_val p\<bar> \<le> 1"
      using base_units_Inr(2) [OF unit d(1) assms(2)] by blast
    have "\<bar>dec_val p - dec_val d * of_nat unit\<bar> \<le> dec_val d * of_nat unit * 5 / 10 ^ context_prec"
      using mul(2) [OF p(1)] nonneg by simp
    then show ?thesis
      using p(2) base_units_Inr(1) [OF unit d(1) assms(2)] by (simp add: triangle_half)
  qed
  have exact: "2 * \<bar>of_int n - dec_val d * of_nat unit\<bar> \<le> 1"
    if "fits_context d unit" "base_units d unit = Inr n" for n
    using base_units_Inr(2) [OF that(2) d(1) assms(2)] mul(3) that(1) d(1) by auto
  have whole: "n = m"
    if "fits_context d unit" "base_units d unit = Inr n" "dec_val d * of_nat unit = of_int m" for n m
  proof -
    have "2 * \<bar>(of_int n :: rat) - of_int m\<bar> \<le> 1" using exact [OF that(1, 2)] that(3) by simp
    then have "(of_int (2 * \<bar>n - m\<bar>) :: rat) \<le> of_int 1" by simp
    then have "2 * \<bar>n - m\<bar> \<le> 1" by (simp only: of_int_le_iff)
    then show ?thesis by presburger
  qed
  have refused: "base_units d unit = Inl BelowUnit \<longleftrightarrow> dec_val d * of_nat unit < 1"
    if fits: "fits_context d unit"
  proof (cases "dec_mul_nat d unit")
    case None
    then have "1 \<le> dec_val d * of_nat unit"
      using fits_overflow [of c e unit] fits d assms(2) by simp
    with None show ?thesis by (simp add: base_units_def)
  next
    case (Some p)
    have "dec_val p = dec_val d * of_nat unit" using mul(3) [OF Some] fits d(1) by simp
    with Some dec_below_one_val [OF mul(1) [OF Some]] show ?thesis by (simp add: base_units_def)
  qed
  show ?thesis using near exact whole refused by blast
qed

text \<open>Money only goes to a checked recipient. A send reaches a wallet path exactly when the
  address passes the check of the asset's chain and an amount that the payment URI names, if it
  can be read, equals the requested one; what is paid is the address inside the URI. An explicit
  swap destination is checked the same way, and fits the memo of a UTXO source.\<close>

theorem recipients_checked:
  "(cmd_send lib asset address amount = Inr (SendVia p a amt) \<longleftrightarrow>
      (\<exists>chain. asset_chain asset = Inr chain \<and> wallet_path_of chain = Some p
         \<and> dest_problem lib chain address = Inr None
         \<and> a = fst (parse_payment_uri address) \<and> amt = amount
         \<and> (\<forall>t d. map_of (snd (parse_payment_uri address)) (lit ''amount'') = Some t
                 \<and> decimal_of_text t = Some d \<longrightarrow> (\<exists>r. amount = Amount r \<and> dec_eq d r))))
   \<and> (dest \<noteq> [] \<and> resolve_destination lib deriver from_key to_key (Some dest) mnemonic passphrase
        = Inr (Destination a warnings) \<longrightarrow>
      (\<exists>chain from_chain. asset_chain to_key = Inr chain \<and> asset_chain from_key = Inr from_chain
         \<and> dest_problem lib chain dest = Inr None \<and> a = fst (parse_payment_uri dest)
         \<and> (from_chain \<in> set UTXO_ADAPTERS \<longrightarrow> shortest_memo a \<le> utxo_memo_max from_chain)))"
proof
  have differs: "amount_differs t amount = Inr False
      \<longleftrightarrow> (\<forall>d. decimal_of_text t = Some d \<longrightarrow> (\<exists>r. amount = Amount r \<and> dec_eq d r))" for t
    by (cases "decimal_of_text t"; cases amount) (auto simp: amount_differs_def)
  have dispatch: "send_dispatch chain b amount = SendVia p a amt
      \<longleftrightarrow> wallet_path_of chain = Some p \<and> a = b \<and> amt = amount" for chain b
    by (auto simp: send_dispatch_def split: option.splits)
  show "cmd_send lib asset address amount = Inr (SendVia p a amt) \<longleftrightarrow>
      (\<exists>chain. asset_chain asset = Inr chain \<and> wallet_path_of chain = Some p
         \<and> dest_problem lib chain address = Inr None
         \<and> a = fst (parse_payment_uri address) \<and> amt = amount
         \<and> (\<forall>t d. map_of (snd (parse_payment_uri address)) (lit ''amount'') = Some t
                 \<and> decimal_of_text t = Some d \<longrightarrow> (\<exists>r. amount = Amount r \<and> dec_eq d r)))"
  proof (cases "\<exists>chain. asset_chain asset = Inr chain \<and> dest_problem lib chain address = Inr None")
    case False
    then show ?thesis by (auto simp: cmd_send_def split: sum.splits option.splits)
  next
    case True
    then obtain chain where c: "asset_chain asset = Inr chain" "dest_problem lib chain address = Inr None"
      by blast
    obtain b params where b: "parse_payment_uri address = (b, params)" by fastforce
    show ?thesis
    proof (cases "map_of params (lit ''amount'')")
      case None
      then show ?thesis using c b dispatch [of chain b] by (simp add: cmd_send_def)
    next
      case (Some t)
      then have "cmd_send lib asset address amount = Inr (SendVia p a amt)
          \<longleftrightarrow> amount_differs t amount = Inr False \<and> send_dispatch chain b amount = SendVia p a amt"
        using c b by (auto simp: cmd_send_def split: sum.splits bool.splits)
      then show ?thesis using c b Some differs [of t] dispatch [of chain b] by auto
    qed
  qed
  show "dest \<noteq> [] \<and> resolve_destination lib deriver from_key to_key (Some dest) mnemonic passphrase
        = Inr (Destination a warnings) \<longrightarrow>
      (\<exists>chain from_chain. asset_chain to_key = Inr chain \<and> asset_chain from_key = Inr from_chain
         \<and> dest_problem lib chain dest = Inr None \<and> a = fst (parse_payment_uri dest)
         \<and> (from_chain \<in> set UTXO_ADAPTERS \<longrightarrow> shortest_memo a \<le> utxo_memo_max from_chain))"
    by (auto simp: resolve_destination_def bind_res_eq_Inr dest_chain_caveats_def
        split: if_splits option.splits)
qed

text \<open>The amount of the note at \<open>_base_units\<close>, which a float would not carry.\<close>

lemma base_units_exact_witness:
  "base_units (DFin False 9339310659778857 (- 8)) (10 ^ 8) = Inr 9339310659778857
   \<and> \<not> dec_val (DFin False 9339310659778857 (- 8)) * of_nat (10 ^ 8) < 1"
proof -
  let ?d = "DFin False 9339310659778857 (- 8)"
  have parsed: "parse_amount (lit ''93393106.59778857'') = Inr (Amount ?d)"
    by (simp add: parse_amount_def decimal_of_text_def py_strip_def py_space_def py_lower_def
        lower_cp_def lit_def split_sign_def parse_special_def parse_finite_def is_digit_def
        parse_exponent_def coefficient_value_def exponent_limit_def FINEST_UNIT_def ndigits.simps
        context_prec_def Let_def)
  have run: "base_units ?d (10 ^ 8) = Inr 9339310659778857"
    by (simp add: base_units_def ndigits.simps context_prec_def Let_def round_dec_def)
  have fits: "fits_context ?d (10 ^ 8)" by (simp add: ndigits.simps context_prec_def)
  have pos: "0 < (10 ^ 8 :: nat)" by simp
  have "base_units ?d (10 ^ 8) = Inl BelowUnit \<longleftrightarrow> dec_val ?d * of_nat (10 ^ 8) < 1"
    using base_units_exact [OF parsed pos] fits by blast
  then show ?thesis unfolding run by blast
qed

text \<open>A payment URI for Ethereum that names an amount.\<close>

definition ex_eth :: pystr where "ex_eth = lit ''0x00112233445566778899aabbccddeeff00112233''"
definition ex_uri :: pystr where "ex_uri = lit ''ethereum:0x00112233445566778899aabbccddeeff00112233?amount=1.5''"
lemma ex_uri_strip: "py_strip ex_uri = ex_uri"
  by (simp add: ex_uri_def py_strip_def py_space_def lit_def)
lemma ex_eth_strip: "py_strip ex_eth = ex_eth"
  by (simp add: ex_eth_def py_strip_def py_space_def lit_def)
lemma ex_uri_scheme: "py_partition 58 ex_uri = (lit ''ethereum'', True, ex_eth @ lit ''?amount=1.5'')"
  by (simp add: ex_uri_def ex_eth_def py_partition_def lit_def)
lemma ex_uri_query: "py_partition 63 (ex_eth @ lit ''?amount=1.5'') = (ex_eth, True, lit ''amount=1.5'')"
  by (simp add: ex_eth_def py_partition_def lit_def)
lemma ex_query_pairs: "parse_qsl (lit ''amount=1.5'') = [(lit ''amount'', lit ''1.5'')]"
  by (simp add: parse_qsl_def lit_def plus_space_def py_partition_def py_unquote_plain)
lemma ex_scheme_chain: "map_of URI_SCHEMES (py_lower (lit ''ethereum'')) = Some (lit ''ETH'')" by code_simp
lemma ex_scheme_dropped: "py_lower (lit ''ethereum'') \<notin> set KEEP_SCHEME" by code_simp
lemma ex_eth_body: "before_sep 47 (before_sep 64 ex_eth) = ex_eth" by (simp add: ex_eth_def before_sep_def lit_def)
lemma ex_eth_plain: "py_unquote ex_eth = ex_eth" by (rule py_unquote_plain) (simp add: ex_eth_def lit_def)
lemma ex_uri_parsed: "parse_payment_uri ex_uri = (ex_eth, [(lit ''amount'', lit ''1.5'')])"
  by (simp add: parse_payment_uri_def ex_uri_strip ex_uri_scheme ex_uri_query ex_query_pairs ex_scheme_chain ex_scheme_dropped ex_eth_body ex_eth_plain ex_eth_strip dict_of_def)
lemma ex_uri_chain: "uri_chain ex_uri = Some (lit ''ETH'')"
  by (simp add: uri_chain_def ex_uri_strip ex_uri_scheme ex_scheme_chain)
lemma ex_eth_shape: "rule_match [evm_shape] ex_eth" by code_simp
lemma ex_eth_case: "eip55_ok k ex_eth = Inr True" by (simp add: eip55_ok_def ex_eth_def lit_def py_lower_def lower_cp_def)
lemma ex_texts: "ex_eth \<noteq> []" "ex_uri \<noteq> []" by (simp_all add: ex_eth_def ex_uri_def lit_def)
lemma ex_eth_rule: "map_of RULES (lit ''ETH'') = Some [evm_shape]" by (simp add: RULES_def lit_def)
lemma ex_eth_checksum: "checksum_ok b k (lit ''ETH'') ex_eth = Inr True"
  by (simp add: checksum_ok_def SEGWIT_HRP_def PLAIN_BECH32_HRP_def EVM_CHAINS_def ex_eth_case) (simp add: lit_def)
lemma ex_uri_checked: "dest_problem (b, k) (lit ''ETH'') ex_uri = Inr None"
  by (simp add: dest_problem_def validate_destination_address_def ex_texts ex_uri_chain ex_uri_parsed ex_eth_rule ex_eth_shape checksum_problem_def ex_eth_checksum)
lemma recipients_checked_witness:
  "cmd_send (\<lambda>_ _. None, \<lambda>_. []) (lit ''ETH'') ex_uri (Amount (DFin False 150 (- 2)))
     = Inr (SendVia (EvmPath (lit ''ETH'')) ex_eth (Amount (DFin False 150 (- 2))))
   \<and> cmd_send (\<lambda>_ _. None, \<lambda>_. []) (lit ''ETH'') ex_uri Sweep
       \<noteq> Inr (SendVia (EvmPath (lit ''ETH'')) ex_eth Sweep)"
proof -
  have chain: "asset_chain (lit ''ETH'') = Inr (lit ''ETH'')"
    by (simp add: asset_chain_def ASSET_def lit_def before_sep_def)
  have path: "wallet_path_of (lit ''ETH'') = Some (EvmPath (lit ''ETH''))"
    by (simp add: wallet_path_of_def UTXO_ADAPTERS_def EVM_ADAPTERS_def lit_def)
  have half: "decimal_of_text (lit ''1.5'') = Some (DFin False 15 (- 1))"
    by (simp add: decimal_of_text_def py_strip_def py_space_def py_lower_def lower_cp_def lit_def
        split_sign_def parse_special_def parse_finite_def is_digit_def parse_exponent_def
        coefficient_value_def exponent_limit_def)
  show ?thesis
    using recipients_checked [THEN conjunct1, of "(\<lambda>_ _. None, \<lambda>_. [])" "lit ''ETH''" ex_uri]
      chain path half
    by (simp add: ex_uri_parsed ex_uri_checked)
qed

section \<open>The chosen backend can execute the swap\<close>

lemma max_loop_best:
  "max_loop r rs \<in> set (r # rs) \<and> (\<forall>x \<in> set (r # rs). expected_out (snd x) \<le> expected_out (snd (max_loop r rs)))"
  by (induction r rs rule: max_loop.induct) (auto split: if_splits)

lemma select_best_sound:
  assumes "sb_outcome (select_best bs ex a results) = ChosenBackend b"
  shows "\<exists>q. (b, q) \<in> set results \<and> can_execute b ex (Some (qa_from_asset a, qa_to_asset a))
       \<and> (\<forall>(c, p) \<in> set results. can_execute c ex (Some (qa_from_asset a, qa_to_asset a))
            \<longrightarrow> expected_out p \<le> expected_out q)
       \<and> set (sb_closed (select_best bs ex a results)) = bk_name ` set bs - {bk_name b}"
proof -
  let ?can = "\<lambda>r. can_execute (fst r) ex (Some (qa_from_asset a, qa_to_asset a))"
  obtain r rs where f: "filter ?can results = r # rs"
    using assms by (auto simp: select_best_def Let_def split: list.splits)
  obtain q where m: "max_loop r rs = (b, q)"
    using assms f by (auto simp: select_best_def Let_def split: prod.splits)
  have "(b, q) \<in> set (filter ?can results)" using max_loop_best [of r rs] f m by simp
  moreover have "expected_out (snd x) \<le> expected_out q" if "x \<in> set (filter ?can results)" for x
    using max_loop_best [of r rs] f m that by auto
  moreover have "set (sb_closed (select_best bs ex a results)) = bk_name ` set bs - {bk_name b}"
    using f m by (auto simp: select_best_def Let_def)
  ultimately show ?thesis by (intro exI [of _ q]) auto
qed

text \<open>A swap is only routed to a backend that can settle it. The chosen backend serves the
  pair, its executor is one the source path can drive, and Chainflip only gets a pair that its
  vault swap can be gated for; with several backends no executable quote is better. The clients of
  all the others are closed, and of all of them when none is chosen.\<close>

theorem selected_backend_executes:
  assumes "select_backend bs ex a w = (Inr s, w')"
  shows "(\<forall>b. sb_outcome s = ChosenBackend b \<longrightarrow>
            b \<in> set bs \<and> bk_executor b \<in> set ex
            \<and> (bk_name b = lit ''chainflip'' \<longrightarrow> can_settle_vault_swap (qa_from_asset a) (qa_to_asset a))
            \<and> bk_serves b (qa_from_asset a) (qa_to_asset a)
            \<and> set (sb_closed s) = bk_name ` set bs - {bk_name b}
            \<and> (length bs \<noteq> 1 \<longrightarrow> (\<exists>results q. gather_quotes bs a w = (Inr results, w') \<and> (b, q) \<in> set results
                 \<and> (\<forall>(c, p) \<in> set results. can_execute c ex (Some (qa_from_asset a, qa_to_asset a))
                      \<longrightarrow> expected_out p \<le> expected_out q))))
       \<and> ((\<forall>b. sb_outcome s \<noteq> ChosenBackend b) \<longrightarrow> sb_closed s = map bk_name bs)"
proof (cases "\<exists>b. bs = [b]")
  case True
  then show ?thesis
    using assms
    by (auto simp: select_backend_def select_single_def can_execute_def narrower_def ret_def Let_def
        split: if_splits)
next
  case False
  have several: "select_backend bs ex a = and_then (gather_quotes bs a) (\<lambda>results. ret (select_best bs ex a results))"
    using False unfolding select_backend_def by (auto split: list.splits)
  obtain results where g: "gather_quotes bs a w = (Inr results, w')"
    and s: "s = select_best bs ex a results"
    using assms unfolding several by (auto simp: and_then_Inr ret_def)
  have none: "sb_closed s = map bk_name bs" if "\<forall>b. sb_outcome s \<noteq> ChosenBackend b"
    using that unfolding s by (auto simp: select_best_def Let_def split: list.splits prod.splits)
  from gather_loop_served [OF g [unfolded gather_quotes_def]] have
    sub: "subseq (map fst results) bs"
    and able: "\<forall>(b, q)\<in>set results. bk_serves b (qa_from_asset a) (qa_to_asset a)
      \<and> (\<exists>u v. bk_try_quote b a u = (Inr (Some q), v))" by auto
  have served: "b \<in> set bs \<and> bk_serves b (qa_from_asset a) (qa_to_asset a)" if r: "(b, q) \<in> set results" for b q
  proof
    have "b \<in> set (map fst results)" using imageI [OF r, of fst] by simp
    then show "b \<in> set bs" using list_emb_set [OF sub] by metis
    show "bk_serves b (qa_from_asset a) (qa_to_asset a)" using bspec [OF able r] by simp
  qed
  have best: "\<exists>q. (b, q) \<in> set results \<and> can_execute b ex (Some (qa_from_asset a, qa_to_asset a))
       \<and> (\<forall>(c, p) \<in> set results. can_execute c ex (Some (qa_from_asset a, qa_to_asset a))
            \<longrightarrow> expected_out p \<le> expected_out q)
       \<and> set (sb_closed s) = bk_name ` set bs - {bk_name b}" if "sb_outcome s = ChosenBackend b" for b
    using select_best_sound [of bs ex a results b] that unfolding s by blast
  have exec: "bk_executor b \<in> set ex
      \<and> (bk_name b = lit ''chainflip'' \<longrightarrow> can_settle_vault_swap (qa_from_asset a) (qa_to_asset a))"
    if "can_execute b ex (Some (qa_from_asset a, qa_to_asset a))" for b
    using that by (auto simp: can_execute_def narrower_def)
  show ?thesis
  proof (intro conjI allI impI)
    fix b
    assume chosen: "sb_outcome s = ChosenBackend b"
    from best [OF chosen] obtain q where q: "(b, q) \<in> set results"
      "can_execute b ex (Some (qa_from_asset a, qa_to_asset a))"
      "\<forall>(c, p) \<in> set results. can_execute c ex (Some (qa_from_asset a, qa_to_asset a))
            \<longrightarrow> expected_out p \<le> expected_out q"
      "set (sb_closed s) = bk_name ` set bs - {bk_name b}" by blast
    show "b \<in> set bs" "bk_serves b (qa_from_asset a) (qa_to_asset a)" using served [OF q(1)] by simp_all
    show "bk_executor b \<in> set ex" using exec [OF q(2)] by (rule conjunct1)
    show "can_settle_vault_swap (qa_from_asset a) (qa_to_asset a)" if "bk_name b = lit ''chainflip''"
      using exec [OF q(2)] that by blast
    show "set (sb_closed s) = bk_name ` set bs - {bk_name b}" by (rule q(4))
    show "\<exists>results q. gather_quotes bs a w = (Inr results, w') \<and> (b, q) \<in> set results
                 \<and> (\<forall>(c, p) \<in> set results. can_execute c ex (Some (qa_from_asset a, qa_to_asset a))
                      \<longrightarrow> expected_out p \<le> expected_out q)"
      using g q(1,3) by blast
  next
    assume "\<forall>b. sb_outcome s \<noteq> ChosenBackend b"
    then show "sb_closed s = map bk_name bs" by (rule none)
  qed
qed

end
