(* ===== verification/Spec2Isabelle.thy ===== *)
theory Spec2Isabelle
  imports Bech32 Coins Verify VaultSwap EvmVault PyJson ChainBase Rbf CosmosAdapter Gated Net Backends
    Zcash Addresses History ChainflipVault EvmAdapter Cardano Tron Btc Dash Report Cli
begin

text \<open>
  A verification development for swapsack, a command line wallet that swaps coins across chains
  through THORChain, Maya, Chainflip and CoW. Its risk is a transaction that pays the wrong party,
  so the program is built in three steps: a chain adapter \<^emph>\<open>builds\<close> a transaction from a quote,
  a \<^emph>\<open>gate\<close> (\<open>verify.py\<close>) reads the built transaction back and lists every way it differs from the
  intent, and only a transaction with an empty list, confirmed by the user, is \<^emph>\<open>signed and
  broadcast\<close>. The theories follow these parts; all paths are under \<open>src/swapsack/\<close>.

  \<^bold>\<open>The language.\<close> \<open>Prelude\<close> has results (\<open>error + 'a\<close>, \<open>bind_res\<close>, \<open>map_res\<close>), bytes and list lemmas;
  \<open>PyText\<close> Python's strings as code points, UTF-8, decimal numbers and the string methods that are
  used; \<open>PyFloat\<close> IEEE double arithmetic on dyadic numbers with the correct rounding of each
  operation; \<open>PyJson\<close> decoded JSON values and the reads the parsers make of them, with the exception
  each may raise; \<open>PyUrl\<close> \<open>unquote\<close> and \<open>parse_qsl\<close> with lenient UTF-8; \<open>Codec\<close> the locale of prefix codecs (what is written can be read back whatever
  follows) with its lemma on sequences of fields; \<open>Effects\<close> calls that may raise and change the
  world, where the world is a type parameter no theorem looks into.

  \<^bold>\<open>Choosing coins.\<close> \<open>Coins\<close> (\<open>chains/coins.py\<close>): coin selection under the two fee models (vbytes,
  ZIP-317), sweeps, CPFP surcharges, OP_RETURN scripts. The locale \<open>fee_model\<close> is the contract of a fee
  function, interpreted for both models. The lemmas show that selection conserves value, leaves no
  dust and equals the search for the shortest affordable prefix of the preference order.

  \<^bold>\<open>The gate.\<close> \<open>Verify\<close> (\<open>verify.py\<close>) has the UTXO, TRON and EVM gates, \<open>VaultSwap\<close> the Chainflip vault
  swap from Bitcoin with its payload decoder, \<open>EvmVault\<close> the EVM vault calls with their ABI and SCALE
  decoders and the ERC-20 gates of \<open>chains/eth.py\<close>, \<open>CosmosTx\<close> the gates of native deposits and
  \<open>Cow\<close> the order gate. A message of the code is a constructor with the values it interpolates. Each
  gate has a theorem that says exactly which transactions pass it.

  \<^bold>\<open>Building.\<close> \<open>Gated\<close> (\<open>chains/utxo.py\<close>, \<open>chains/gated.py\<close>) builds UTXO transactions and fee bumps
  and gates them; \<open>Rbf\<close> (\<open>chains/rbf.py\<close>) plans the bumps; \<open>CosmosTx\<close> (\<open>chains/cosmos_tx.py\<close>) is the
  hand-written protobuf codec and \<open>CosmosAdapter\<close> (\<open>chains/cosmos.py\<close>, \<open>maya.py\<close>, \<open>thor.py\<close>) the adapter
  on top of it; \<open>ZcashTx\<close> (\<open>chains/zcash_tx.py\<close>) the v4 serializer and parser, the ZIP-243 digest and the
  signer, as interpretations of the locales of \<open>Codec\<close> and of its own readers with a position, and
  \<open>Zcash\<close> (\<open>chains/zcash.py\<close>) the adapter; \<open>EvmAdapter\<close> (\<open>chains/eth.py\<close>, \<open>arb.py\<close>, \<open>avax.py\<close>, \<open>bsc.py\<close>)
  the four EVM chains, whose calldata is read back through \<open>eth_abi\<close>; \<open>CardanoTx\<close>
  (\<open>chains/cardano_tx.py\<close>) Cardano's memo, CBOR body, fee loop and neutral reader, \<open>CardanoKeys\<close>
  (\<open>chains/cardano_keys.py\<close>) its key derivation and signatures, and \<open>Cardano\<close> (\<open>chains/cardano.py\<close>) the
  adapter: scan, selection, refusals, building and signing; \<open>Tron\<close> (\<open>chains/tron.py\<close>) native and TRC-20
  transfers, built by tronpy and read back for the gates of \<open>Verify\<close>; \<open>Bech32\<close> (\<open>bech32.py\<close>) the address codec
  over \<open>BchCode\<close>, the algebra of its checksum. The theorems show that what was built passes the gate,
  so a refusal is never the builder's own doing. What the gated operations owe to a builder is the
  locale \<open>honest_builder\<close> of \<open>Gated\<close>, with three interpretations: \<open>utxo_family\<close> on the bitcoinlib chains,
  \<open>zec_family\<close> on Zcash and \<open>ada_family\<close> on Cardano.

  \<^bold>\<open>Explorers.\<close> \<open>Explorer\<close> has the reads that the parsers share and the pages of a history over the HTTP
  client of \<open>Net\<close>. \<open>Btc\<close> (\<open>chains/btc.py\<close>) parses Esplora's answers and prices the unconfirmed parents of
  coins; \<open>Dash\<close> (\<open>chains/dash.py\<close>, \<open>p2pkh.py\<close>) parses Insight and Blockbook, moves on from an endpoint
  that is down, starts a history over when the list moves under it, and says of a failed broadcast
  whether it may have been sent. The theorems record the requests and answers in the world, and say
  what the result rests on.

  \<^bold>\<open>Destinations.\<close> \<open>Addresses\<close> (\<open>addresses.py\<close>, \<open>evm.py\<close>) decides whether a typed destination is plausible:
  shape rules, payment URIs, and the checksums, where cashaddr is a second interpretation of the
  code of \<open>BchCode\<close>. The theorems say what is accepted and which mistakes are always caught.

  \<^bold>\<open>Orchestration.\<close> \<open>Thorchain\<close> (\<open>thorchain.py\<close>) has the API's records, parsers and client, \<open>Liquidity\<close>
  (\<open>liquidity.py\<close>) the memos and the pool ratio, \<open>Cow\<close> (\<open>cow.py\<close>) the orderbook backend, \<open>Backends\<close>
  (\<open>backends.py\<close>) the routing by price, \<open>Net\<close> (\<open>net.py\<close>) retry and failover, whose every request and
  pause is accounted for in a log, \<open>ChainBase\<close>
  (\<open>chains/base.py\<close>, \<open>chains/scan.py\<close>) summaries and the gap-limit scan. \<open>Swap\<close> (\<open>swap.py\<close>) puts them
  together: every check before a transaction is built, execution, and the two-leg add, which is
  proved to be a step machine (\<open>leg_step\<close>) whose runs end with what is live told.

  \<^bold>\<open>History.\<close> \<open>History\<close> (\<open>chains/history.py\<close>) walks the pages of an explorer and folds what the wallet's
  addresses report into the two views, the transactions and the outputs. The walk ends whatever
  the explorer answers, along its cursors, and is unmarked only where the explorer named no further
  page or repeated itself; the views have all that was reported, and their totals agree when the
  reports fit together.

  \<^bold>\<open>Command line.\<close> \<open>Cli\<close> (\<open>cli.py\<close>) has what is decided before an adapter builds: an amount, read and
  scaled by the decimal arithmetic of \<open>PyDecimal\<close>, the recipient or destination, the wallet path, and
  the backend that may execute. The lemmas show that scaling to base units is exact, that money only
  goes to an address that passed its check, and that a chosen backend can settle the swap. \<open>Report\<close>
  (\<open>report.py\<close>, \<open>pricefeed.py\<close>) is the balance sheet and the listings, over the formatting of
  \<open>PyFormat\<close>: no row leaves the sheet silently, and base units are printed exactly.

  \<^bold>\<open>Chainflip.\<close> \<open>Chainflip\<close> (\<open>chainflip.py\<close>) parses its quotes and fees, reads the status of a swap, and
  computes the price floor of a vault swap. The lemmas show what the floor guarantees, and that it rests on
  fees that are stated in the assets it computes with. \<open>ChainflipVault\<close> asks the brokers to encode a vault swap and
  checks what they return, from Bitcoin and from an EVM chain; the theorems carry a prepared swap
  through the builder of \<open>Gated\<close> or \<open>EvmAdapter\<close> to the verdict of its gate.

  \<^bold>\<open>Parameters.\<close> Third-party code is an argument: bitcoinlib (\<open>bitcoinlib\<close>, with the documented
  behaviour \<open>bitcoinlib_ok\<close>), eth_abi (\<open>eth_libs\<close>, \<open>eth_abi_ok\<close>, instantiated by the ABI itself), tronpy (\<open>tron_libs\<close>,
  \<open>tronpy_ok\<close>, with an instance), cbor2 and
  BLAKE2b (\<open>cardano_libs\<close>, \<open>cardano_ok\<close>, instantiated by a CBOR codec), libsodium's
  Ed25519 (\<open>ed_libs\<close>, \<open>ed_ok\<close>, instantiated over the integers modulo the group's order), BIP-32 derivation, hashes and signatures, base64, the HTTP session
  and the ISO date parser. An adapter or a client that is passed to an operation is a record of its
  operations.

  \<^bold>\<open>Bounds and fuel.\<close> Python's integers are \<open>int\<close>; bytes are \<open>8 word\<close>; ABI words and SCALE integers
  are read at their width. The loops are structural except the varint writer, whose argument
  shrinks, the field reader, whose input shrinks, and the account scan, which the wallet's history
  bounds: it takes fuel and \<open>scan_account_returns\<close> says how much is enough. Cardano's fee loop is a
  \<open>partial_function\<close>, and \<open>required_fee_least\<close> proves that it returns.

  \<^bold>\<open>Not modelled.\<close> The argument parser, the prompts and the command bodies of \<open>cli.py\<close>, the keystore
  and the client of the price feed, whose effects are I/O. In the modelled parts: the texts
  of messages, \<open>SwapFees.breakdown\<close>, EIP-712 typed data, the wait for a receipt, and the date form of a Retry-After header.
\<close>

end
